(* ===== verification/Prelude.thy ===== *)
theory Prelude
  imports Complex_Main "HOL-Library.Char_ord" "HOL-Library.List_Lexorder" "HOL-Library.Sublist" "HOL-Library.Multiset"
begin

text \<open>
  What the components share: the errors a request can end in, the string operations of
  JavaScript on ASCII text, stable sorting by a comparison, the two query shapes
  (first matching row, update of all matching rows) and their lemmas.

  Strings are sequences of 8-bit code units (UTF-8), so a Hebrew literal of the source is
  written by its code points through \<open>utf8\<close>. Trimming, case folding and
  character classes are those of the ASCII range.
\<close>

named_theorems frame_simps "what an operation leaves unchanged"
named_theorems row_simps "unfolding rules for row filters and row updates"

section \<open>Errors\<close>

text \<open>
  The HTTP exceptions of NestJS the services throw, the known request errors of Prisma
  (with their code) and every other thrown Error.
\<close>

datatype http_error =
    BadRequest string
  | Unauthorized string
  | Forbidden string
  | NotFound string
  | Conflict string
  | Unprocessable string
  | ServiceUnavailable string
  | TooManyRequests string
  | BadGateway string
  | PrismaKnown string
  | Thrown string

definition is_unique_violation :: "http_error \<Rightarrow> bool" where
  "is_unique_violation err \<longleftrightarrow> err = PrismaKnown ''P2002''"

lemma is_unique_violation_simps [simp]:
  "is_unique_violation (PrismaKnown ''P2002'')"
  "\<not> is_unique_violation (NotFound m)"
  "\<not> is_unique_violation (Conflict m)"
  "\<not> is_unique_violation (BadRequest m)"
  "\<not> is_unique_violation (PrismaKnown ''P2003'')"
  by (simp_all add: is_unique_violation_def)

text \<open>Sequencing of a failing computation over a state: the first error ends it.\<close>

fun run_each :: "('a \<Rightarrow> 's \<Rightarrow> 'e + 's) \<Rightarrow> 'a list \<Rightarrow> 's \<Rightarrow> 'e + 's" where
  "run_each f [] s = Inr s"
| "run_each f (x # xs) s = (case f x s of Inl e \<Rightarrow> Inl e | Inr s' \<Rightarrow> run_each f xs s')"

lemma run_each_invariant:
  assumes "run_each f xs s = Inr s'" and "I s"
    and "\<And>x s s'. x \<in> set xs \<Longrightarrow> I s \<Longrightarrow> f x s = Inr s' \<Longrightarrow> I s'"
  shows "I s'"
  using assms
proof (induction xs arbitrary: s)
  case Nil
  then show ?case by simp
next
  case (Cons x xs)
  from Cons.prems(1) obtain t where t: "f x s = Inr t" "run_each f xs t = Inr s'"
    by (auto split: sum.splits)
  have "I t" by (rule Cons.prems(3) [OF _ Cons.prems(2) t(1)]) simp
  then show ?case
    by (rule Cons.IH [OF t(2)]) (rule Cons.prems(3), auto)
qed

lemma run_each_post:
  assumes "run_each f xs s = Inr s'"
    and "\<And>x s s'. x \<in> set xs \<Longrightarrow> f x s = Inr s' \<Longrightarrow> Q x s'"
    and "\<And>x y s s'. f y s = Inr s' \<Longrightarrow> Q x s \<Longrightarrow> Q x s'"
  shows "\<forall>x \<in> set xs. Q x s'"
  using assms(1,2)
proof (induction xs arbitrary: s)
  case Nil
  then show ?case by simp
next
  case (Cons x xs)
  from Cons.prems(1) obtain t where t: "f x s = Inr t" "run_each f xs t = Inr s'"
    by (auto split: sum.splits)
  have "Q x t" by (rule Cons.prems(2) [OF _ t(1)]) simp
  then have "Q x s'" by (rule run_each_invariant [where I = "Q x", OF t(2)]) (rule assms(3))
  moreover have "\<forall>x \<in> set xs. Q x s'" by (rule Cons.IH [OF t(2)]) (rule Cons.prems(2), auto)
  ultimately show ?case by simp
qed

lemma run_each_skip:
  assumes "\<And>x. x \<in> set xs \<Longrightarrow> f x s = Inr s"
  shows "run_each f xs s = Inr s"
  using assms by (induction xs) auto

lemma run_each_append:
  "run_each f (xs @ ys) s =
     (case run_each f xs s of Inl e \<Rightarrow> Inl e | Inr s' \<Rightarrow> run_each f ys s')"
  by (induction xs arbitrary: s) (auto split: sum.splits)

section \<open>Strings\<close>

fun utf8_point :: "nat \<Rightarrow> string" where
  "utf8_point n =
     (if n < 128 then [char_of n]
      else if n < 2048 then [char_of (192 + n div 64), char_of (128 + n mod 64)]
      else [char_of (224 + n div 4096), char_of (128 + (n div 64) mod 64), char_of (128 + n mod 64)])"

definition utf8 :: "nat list \<Rightarrow> string" where
  "utf8 ns = concat (map utf8_point ns)"

definition is_ws :: "char \<Rightarrow> bool" where
  "is_ws c \<longleftrightarrow> of_char c \<in> ({9, 10, 11, 12, 13, 32} :: nat set)"

definition trim :: "string \<Rightarrow> string" where
  "trim s = rev (dropWhile is_ws (rev (dropWhile is_ws s)))"

definition lower_char :: "char \<Rightarrow> char" where
  "lower_char c = (let n = (of_char c :: nat) in if 65 \<le> n \<and> n \<le> 90 then char_of (n + 32) else c)"

definition to_lower :: "string \<Rightarrow> string" where
  "to_lower s = map lower_char s"

definition starts_with :: "string \<Rightarrow> string \<Rightarrow> bool" where
  "starts_with p s \<longleftrightarrow> take (length p) s = p"

definition ends_with :: "string \<Rightarrow> string \<Rightarrow> bool" where
  "ends_with p s \<longleftrightarrow> length p \<le> length s \<and> drop (length s - length p) s = p"

definition is_digit :: "char \<Rightarrow> bool" where
  "is_digit c \<longleftrightarrow> 48 \<le> (of_char c :: nat) \<and> (of_char c :: nat) \<le> 57"

definition is_upper :: "char \<Rightarrow> bool" where
  "is_upper c \<longleftrightarrow> 65 \<le> (of_char c :: nat) \<and> (of_char c :: nat) \<le> 90"

definition is_lower :: "char \<Rightarrow> bool" where
  "is_lower c \<longleftrightarrow> 97 \<le> (of_char c :: nat) \<and> (of_char c :: nat) \<le> 122"

definition is_alnum :: "char \<Rightarrow> bool" where
  "is_alnum c \<longleftrightarrow> is_digit c \<or> is_upper c \<or> is_lower c"

definition is_hex :: "char \<Rightarrow> bool" where
  "is_hex c \<longleftrightarrow> is_digit c \<or> (97 \<le> (of_char c :: nat) \<and> (of_char c :: nat) \<le> 102)
     \<or> (65 \<le> (of_char c :: nat) \<and> (of_char c :: nat) \<le> 70)"

text \<open>JavaScript \<open>split\<close> on a one-character separator: always at least one part.\<close>

fun split_on :: "char \<Rightarrow> string \<Rightarrow> string list" where
  "split_on c [] = [[]]"
| "split_on c (x # xs) =
     (if x = c then [] # split_on c xs
      else case split_on c xs of [] \<Rightarrow> [[x]] | p # ps \<Rightarrow> (x # p) # ps)"

fun join_with :: "string \<Rightarrow> string list \<Rightarrow> string" where
  "join_with sep [] = []"
| "join_with sep [s] = s"
| "join_with sep (s # t # ts) = s @ sep @ join_with sep (t # ts)"

lemma split_on_nonempty [simp]: "split_on c s \<noteq> []"
  by (induction s) (auto split: list.splits)

lemma split_on_no_sep: "c \<notin> set s \<Longrightarrow> split_on c s = [s]"
  by (induction s) (auto split: list.splits)

lemma split_on_append_sep: "c \<notin> set p \<Longrightarrow> split_on c (p @ c # s) = p # split_on c s"
  by (induction p) (auto split: list.splits)

lemma split_on_parts: "p \<in> set (split_on c s) \<Longrightarrow> c \<notin> set p"
  by (induction s arbitrary: p) (auto split: list.splits if_splits)

lemma trim_no_ws: "list_all (\<lambda>c. \<not> is_ws c) s \<Longrightarrow> trim s = s"
proof -
  assume a: "list_all (\<lambda>c. \<not> is_ws c) s"
  have d: "dropWhile is_ws s = s" using a by (cases s) auto
  have "dropWhile is_ws (rev s) = rev s"
    using a by (cases "rev s") (auto simp: list_all_iff dest: arg_cong [of _ _ set])
  with d show ?thesis by (simp add: trim_def)
qed

lemma trim_subset: "set (trim s) \<subseteq> set s"
  by (auto simp: trim_def dest!: set_dropWhileD)

lemma length_to_lower [simp]: "length (to_lower s) = length s"
  by (simp add: to_lower_def)

lemma lower_char_idem: "lower_char (lower_char c) = lower_char c"
proof (cases "65 \<le> (of_char c :: nat) \<and> (of_char c :: nat) \<le> 90")
  case True
  then have "of_char (char_of (of_char c + 32 :: nat) :: char) = (of_char c + 32 :: nat)"
    by simp
  with True show ?thesis by (simp add: lower_char_def Let_def)
next
  case False
  then have "lower_char c = c" by (auto simp: lower_char_def Let_def)
  then show ?thesis by simp
qed

lemma is_ws_lower_char [simp]: "is_ws (lower_char c) = is_ws c"
proof (cases "65 \<le> (of_char c :: nat) \<and> (of_char c :: nat) \<le> 90")
  case True
  then have "of_char (lower_char c) = (of_char c + 32 :: nat)" by (simp add: lower_char_def Let_def)
  with True show ?thesis by (auto simp: is_ws_def)
next
  case False
  then have "lower_char c = c" by (auto simp: lower_char_def Let_def)
  then show ?thesis by simp
qed

lemma trim_to_lower: "trim (to_lower s) = to_lower (trim s)"
  by (simp add: trim_def to_lower_def rev_map dropWhile_map comp_def)

lemma dropWhile_idem: "dropWhile P (dropWhile P xs) = dropWhile P xs"
  by (induction xs) auto

lemma trim_ends:
  assumes "trim s = x # xs"
  shows "\<not> is_ws x" and "\<not> is_ws (last (x # xs))"
proof -
  let ?d = "dropWhile is_ws (rev (dropWhile is_ws s))"
  have r: "trim s = rev ?d" by (simp add: trim_def)
  then have "?d = rev (x # xs)" using assms by (metis rev_swap)
  then have "hd ?d = last (x # xs)" by (metis hd_rev)
  moreover have "?d \<noteq> []" using assms r by auto
  then have "\<not> is_ws (hd ?d)" by (rule hd_dropWhile)
  ultimately show "\<not> is_ws (last (x # xs))" by simp
  obtain p where "rev (dropWhile is_ws s) = p @ ?d" by (metis takeWhile_dropWhile_id)
  then have "dropWhile is_ws s = trim s @ rev p" by (metis r rev_append rev_rev_ident)
  then have "hd (dropWhile is_ws s) = x" "dropWhile is_ws s \<noteq> []" using assms by auto
  then show "\<not> is_ws x" using hd_dropWhile by metis
qed

lemma trim_idem [simp]: "trim (trim s) = trim s"
proof (cases "trim s")
  case Nil
  show ?thesis unfolding Nil by (simp add: trim_def)
next
  case (Cons x xs)
  note e = trim_ends [OF Cons]
  have "dropWhile is_ws (trim s) = trim s" using e(1) by (simp add: Cons)
  moreover have "dropWhile is_ws (rev (trim s)) = rev (trim s)"
    using e(2) by (metis Cons dropWhile_eq_self_iff hd_rev list.distinct(1) rev_is_Nil_conv)
  ultimately show ?thesis by (simp add: trim_def [of "trim s"])
qed

lemma to_lower_idem [simp]: "to_lower (to_lower s) = to_lower s"
  by (simp add: to_lower_def lower_char_idem)

text \<open>Decimal notation of integers, as JavaScript prints them.\<close>

fun show_nat :: "nat \<Rightarrow> string" where
  "show_nat n = (if n < 10 then [char_of (48 + n)] else show_nat (n div 10) @ [char_of (48 + n mod 10)])"

declare show_nat.simps [simp del]

definition show_int :: "int \<Rightarrow> string" where
  "show_int i = (if i < 0 then ''-'' @ show_nat (nat (- i)) else show_nat (nat i))"

definition digit_val :: "char \<Rightarrow> nat" where
  "digit_val c = (of_char c :: nat) - 48"

definition read_nat :: "string \<Rightarrow> nat" where
  "read_nat s = fold (\<lambda>c acc. 10 * acc + digit_val c) s 0"

lemma read_nat_snoc: "read_nat (s @ [c]) = 10 * read_nat s + digit_val c"
  by (simp add: read_nat_def)

lemma digit_char: "d < 10 \<Longrightarrow> of_char (char_of (48 + d) :: char) = (48 + d :: nat)"
  by simp

lemma show_nat_digits: "list_all is_digit (show_nat n)"
proof (induction n rule: show_nat.induct)
  case (1 n)
  show ?case
  proof (cases "n < 10")
    case True
    then show ?thesis by (simp add: show_nat.simps [of n] is_digit_def)
  next
    case False
    with 1 show ?thesis by (simp add: show_nat.simps [of n] is_digit_def)
  qed
qed

lemma read_show_nat [simp]: "read_nat (show_nat n) = n"
proof (induction n rule: show_nat.induct)
  case (1 n)
  show ?case
  proof (cases "n < 10")
    case True
    then show ?thesis by (simp add: show_nat.simps [of n] read_nat_def digit_val_def)
  next
    case False
    with 1 show ?thesis
      by (simp add: show_nat.simps [of n] read_nat_snoc digit_val_def)
  qed
qed

lemma show_nat_nonempty [simp]: "show_nat n \<noteq> []"
  by (subst show_nat.simps) simp

lemma show_nat_inject [simp]: "show_nat m = show_nat n \<longleftrightarrow> m = n"
  by (metis read_show_nat)

text \<open>\<open>encodeURIComponent\<close> on UTF-8 text.\<close>

definition unreserved :: "char \<Rightarrow> bool" where
  "unreserved c \<longleftrightarrow> is_alnum c \<or> c \<in> set ''-_.!~*()'' \<or> of_char c = (39 :: nat)"

definition hex_digit :: "nat \<Rightarrow> char" where
  "hex_digit n = (if n < 10 then char_of (48 + n) else char_of (55 + n))"

definition encode_uri_component :: "string \<Rightarrow> string" where
  "encode_uri_component s = concat (map (\<lambda>c. if unreserved c then [c]
     else [CHR ''%'', hex_digit (of_char c div 16), hex_digit (of_char c mod 16)]) s)"

section \<open>Options\<close>

definition or_else :: "'a option \<Rightarrow> 'a \<Rightarrow> 'a" where
  "or_else x d = (case x of None \<Rightarrow> d | Some v \<Rightarrow> v)"

lemma or_else_simps [simp]: "or_else None d = d" "or_else (Some v) d = v"
  by (simp_all add: or_else_def)

text \<open>Truthiness of an optional string: absent and empty are both false.\<close>

definition truthy :: "string option \<Rightarrow> bool" where
  "truthy x \<longleftrightarrow> x \<noteq> None \<and> x \<noteq> Some []"

lemma truthy_simps [simp]: "\<not> truthy None" "truthy (Some s) \<longleftrightarrow> s \<noteq> []"
  by (simp_all add: truthy_def)

section \<open>Sorting by a comparison\<close>

text \<open>Stable insertion sort: \<open>le x y\<close> keeps \<open>x\<close> before \<open>y\<close>.\<close>

fun insert_by :: "('a \<Rightarrow> 'a \<Rightarrow> bool) \<Rightarrow> 'a \<Rightarrow> 'a list \<Rightarrow> 'a list" where
  "insert_by le x [] = [x]"
| "insert_by le x (y # ys) = (if le x y then x # y # ys else y # insert_by le x ys)"

definition sort_by :: "('a \<Rightarrow> 'a \<Rightarrow> bool) \<Rightarrow> 'a list \<Rightarrow> 'a list" where
  "sort_by le xs = foldr (insert_by le) xs []"

lemma sort_by_simps [simp]:
  "sort_by le [] = []"
  "sort_by le (x # xs) = insert_by le x (sort_by le xs)"
  by (simp_all add: sort_by_def)

lemma set_insert_by [simp]: "set (insert_by le x xs) = insert x (set xs)"
  by (induction xs) auto

lemma mset_insert_by [simp]: "mset (insert_by le x xs) = add_mset x (mset xs)"
  by (induction xs) auto

lemma mset_sort_by [simp]: "mset (sort_by le xs) = mset xs"
  by (induction xs) auto

lemma set_sort_by [simp]: "set (sort_by le xs) = set xs"
  by (induction xs) auto

lemma length_sort_by [simp]: "length (sort_by le xs) = length xs"
  by (metis mset_sort_by size_mset)

lemma distinct_sort_by [simp]: "distinct (sort_by le xs) = distinct xs"
  by (metis mset_eq_imp_distinct_iff mset_sort_by)

lemma distinct_map_sort_by: "distinct (map f (sort_by le xs)) = distinct (map f xs)"
  by (metis mset_map mset_eq_imp_distinct_iff mset_sort_by)

lemma distinct_map_sort_key: "distinct (map f (sort_key g xs)) = distinct (map f xs)"
  by (metis mset_eq_imp_distinct_iff mset_map mset_sort)

lemma sorted_insert_by:
  assumes "\<And>x y. le x y \<or> le y x" and "\<And>x y z. le x y \<Longrightarrow> le y z \<Longrightarrow> le x z"
    and "sorted_wrt le xs"
  shows "sorted_wrt le (insert_by le x xs)"
  using assms(3)
proof (induction xs)
  case Nil
  then show ?case by simp
next
  case (Cons y ys)
  show ?case
  proof (cases "le x y")
    case True
    with Cons.prems assms(2) show ?thesis by auto
  next
    case False
    with assms(1) have "le y x" by blast
    with False Cons show ?thesis by auto
  qed
qed

lemma sorted_sort_by:
  assumes "\<And>x y. le x y \<or> le y x" and "\<And>x y z. le x y \<Longrightarrow> le y z \<Longrightarrow> le x z"
  shows "sorted_wrt le (sort_by le xs)"
  by (induction xs) (simp_all add: sorted_insert_by [OF assms])

lemma insert_by_head:
  "(\<And>y. y \<in> set ys \<Longrightarrow> le x y) \<Longrightarrow> insert_by le x ys = x # ys"
  by (cases ys) auto

lemma sort_by_already_sorted:
  assumes "sorted_wrt le xs"
  shows "sort_by le xs = xs"
  using assms by (induction xs) (auto simp: insert_by_head)

section \<open>Rows: the two query shapes\<close>

text \<open>\<open>update_rows P f xs\<close> is the new table and how many rows matched.\<close>

definition update_rows :: "('r \<Rightarrow> bool) \<Rightarrow> ('r \<Rightarrow> 'r) \<Rightarrow> 'r list \<Rightarrow> nat \<times> 'r list" where
  "update_rows P f xs = (length (filter P xs), map (\<lambda>x. if P x then f x else x) xs)"

lemma update_rows_count_0: "fst (update_rows P f xs) = 0 \<longleftrightarrow> (\<forall>x \<in> set xs. \<not> P x)"
  by (simp add: update_rows_def filter_empty_conv)

lemma snd_update_rows_none: "(\<And>x. x \<in> set xs \<Longrightarrow> \<not> P x) \<Longrightarrow> snd (update_rows P f xs) = xs"
  by (simp add: update_rows_def map_idI)

lemma length_update_rows [simp]: "length (snd (update_rows P f xs)) = length xs"
  by (simp add: update_rows_def)

lemma map_update_rows:
  "(\<And>x. x \<in> set xs \<Longrightarrow> P x \<Longrightarrow> g (f x) = g x) \<Longrightarrow> map g (snd (update_rows P f xs)) = map g xs"
  by (simp add: update_rows_def)

lemma set_update_rows:
  "set (snd (update_rows P f xs)) = f ` {x \<in> set xs. P x} \<union> {x \<in> set xs. \<not> P x}"
  by (auto simp: update_rows_def)

lemma filter_update_rows:
  assumes "\<And>x. x \<in> set xs \<Longrightarrow> P x \<Longrightarrow> \<not> Q x \<and> \<not> Q (f x)"
  shows "filter Q (snd (update_rows P f xs)) = filter Q xs"
  using assms by (induction xs) (auto simp: update_rows_def)

lemma filter_map_frame:
  assumes "\<And>x. x \<in> set xs \<Longrightarrow> Q x \<Longrightarrow> f x = x" and "\<And>x. x \<in> set xs \<Longrightarrow> \<not> Q x \<Longrightarrow> \<not> Q (f x)"
  shows "filter Q (map f xs) = filter Q xs"
  using assms by (induction xs) auto

lemma find_filter: "List.find P xs = (case filter P xs of [] \<Rightarrow> None | x # _ \<Rightarrow> Some x)"
  by (induction xs) auto

lemma find_None_iff_all: "List.find P xs = None \<longleftrightarrow> (\<forall>x \<in> set xs. \<not> P x)"
  by (auto simp: find_None_iff)

lemma find_map_rows:
  assumes "\<And>x. Q (g x) = Q x"
  shows "List.find Q (map g xs) = map_option g (List.find Q xs)"
  using assms by (induction xs) auto

lemma find_SomeD: "List.find P xs = Some x \<Longrightarrow> x \<in> set xs \<and> P x"
  by (auto simp: find_Some_iff)

lemma find_unique:
  assumes "x \<in> set xs" and "P x" and "\<And>y. y \<in> set xs \<Longrightarrow> P y \<Longrightarrow> y = x"
  shows "List.find P xs = Some x"
proof -
  from assms(1,2) have "List.find P xs \<noteq> None" by (auto simp: find_None_iff)
  then obtain y where "List.find P xs = Some y" by blast
  with find_SomeD [OF this] assms(3) show ?thesis by blast
qed

lemma find_cong_set:
  "(\<And>x. x \<in> set xs \<Longrightarrow> P x = Q x) \<Longrightarrow> List.find P xs = List.find Q xs"
  by (induction xs) auto

lemma distinct_map_eq:
  "distinct (map f xs) \<Longrightarrow> x \<in> set xs \<Longrightarrow> y \<in> set xs \<Longrightarrow> f x = f y \<Longrightarrow> x = y"
  by (auto simp: distinct_map dest: inj_onD)

text \<open>LIMIT and OFFSET.\<close>

definition page :: "nat \<Rightarrow> nat \<Rightarrow> 'a list \<Rightarrow> 'a list" where
  "page limit offset xs = take limit (drop offset xs)"

text \<open>Prisma's cursor with \<open>skip: 1\<close>: the rows after the cursor row, none when it is absent.\<close>

definition after_cursor :: "('r \<Rightarrow> string) \<Rightarrow> string option \<Rightarrow> 'r list \<Rightarrow> 'r list" where
  "after_cursor key cur xs =
     (case cur of None \<Rightarrow> xs | Some c \<Rightarrow> drop 1 (dropWhile (\<lambda>r. key r \<noteq> c) xs))"

lemma after_cursor_split:
  assumes "distinct (map key (xs @ y # ys))"
  shows "after_cursor key (Some (key y)) (xs @ y # ys) = ys"
proof -
  have "\<forall>x \<in> set xs. key x \<noteq> key y"
    using assms by (metis distinct_map distinct_append disjoint_iff image_eqI inj_on_eq_iff list.set_intros(1) set_append UnCI)
  then have "dropWhile (\<lambda>r. key r \<noteq> key y) (xs @ y # ys) = y # ys"
    by (simp add: dropWhile_append3 dropWhile_append)
  then show ?thesis by (simp add: after_cursor_def)
qed

section \<open>Running numbers\<close>

text \<open>\<open>COALESCE(MAX(n), 0) + 1\<close>, and what a book of numbers without gaps is.\<close>

definition next_number :: "nat list \<Rightarrow> nat" where
  "next_number ns = Suc (fold max ns 0)"

definition gapless :: "nat list \<Rightarrow> bool" where
  "gapless ns \<longleftrightarrow> distinct ns \<and> set ns = {1..length ns}"

lemma fold_max_eq: "fold max ns (m :: nat) = Max (insert m (set ns))"
  using Max.set_eq_fold [of m ns] by simp

lemma next_number_greater: "n \<in> set ns \<Longrightarrow> n < next_number ns"
  by (simp add: next_number_def fold_max_eq less_Suc_eq_le)

lemma gapless_next: "gapless ns \<Longrightarrow> next_number ns = Suc (length ns)"
proof -
  assume "gapless ns"
  then have "insert 0 (set ns) = {0..length ns}" by (auto simp: gapless_def)
  moreover have "Max {0..length ns} = length ns" by (rule Max_eqI) simp_all
  ultimately show ?thesis by (simp add: next_number_def fold_max_eq)
qed

lemma gapless_snoc: "gapless ns \<Longrightarrow> gapless (ns @ [next_number ns])"
  by (auto simp: gapless_next) (auto simp: gapless_def)

lemma gapless_Nil [simp]: "gapless []"
  by (simp add: gapless_def)

text \<open>
  The contract of a table that hands out running numbers per owner: the operation that adds
  a row gives it the next number and leaves the books of all other owners alone.
\<close>

locale number_book =
  fixes numbers :: "string \<Rightarrow> 's \<Rightarrow> nat list"
    and step :: "'s \<Rightarrow> 's \<Rightarrow> bool"
  assumes adds_next: "step s s' \<Longrightarrow>
    numbers owner s' = numbers owner s \<or> numbers owner s' = numbers owner s @ [next_number (numbers owner s)]"
begin

lemma stays_gapless: "step s s' \<Longrightarrow> gapless (numbers owner s) \<Longrightarrow> gapless (numbers owner s')"
  using adds_next gapless_snoc by metis

lemma stays_gapless_run: "step\<^sup>*\<^sup>* s s' \<Longrightarrow> gapless (numbers owner s) \<Longrightarrow> gapless (numbers owner s')"
  by (induction rule: rtranclp_induct) (auto intro: stays_gapless)

end

end
