(* ===== verification/Json.thy ===== *)
theory Json
  imports Prelude
begin

text \<open>
  The JSON columns of the schema (\<open>Json\<close> in schema.prisma) as a datatype, the accessors
  the services use on them, and the checklist of a task: the typed items a client sends
  (\<open>ChecklistItemInput\<close>) and their JSON form in the database.

  Numbers are rationals: JSON has no infinities, and the code only tests for integers.
\<close>

datatype json =
    JNull
  | JBool bool
  | JNum rat
  | JStr string
  | JArr "json list"
  | JObj "(string \<times> json) list"

text \<open>Property access on a value of unknown shape: \<open>undefined\<close> is None.\<close>

fun jget :: "string \<Rightarrow> json \<Rightarrow> json option" where
  "jget k (JObj kvs) = map_of kvs k"
| "jget k _ = None"

fun is_jobj :: "json \<Rightarrow> bool" where
  "is_jobj (JObj _) = True"
| "is_jobj _ = False"

fun jstr_opt :: "json option \<Rightarrow> string option" where
  "jstr_opt (Some (JStr s)) = Some s"
| "jstr_opt _ = None"

text \<open>JavaScript truthiness of a JSON value.\<close>

fun jtruthy :: "json option \<Rightarrow> bool" where
  "jtruthy None = False"
| "jtruthy (Some JNull) = False"
| "jtruthy (Some (JBool b)) = b"
| "jtruthy (Some (JNum q)) = (q \<noteq> 0)"
| "jtruthy (Some (JStr s)) = (s \<noteq> [])"
| "jtruthy (Some (JArr _)) = True"
| "jtruthy (Some (JObj _)) = True"

definition jint :: "int \<Rightarrow> json" where
  "jint i = JNum (of_int i)"

definition jopt :: "string option \<Rightarrow> json" where
  "jopt s = (case s of None \<Rightarrow> JNull | Some v \<Rightarrow> JStr v)"

text \<open>\<open>typeof q === 'number' && Number.isInteger(q)\<close>, with its value.\<close>

fun jint_opt :: "json option \<Rightarrow> int option" where
  "jint_opt (Some (JNum q)) = (if of_int \<lfloor>q\<rfloor> = q then Some \<lfloor>q\<rfloor> else None)"
| "jint_opt _ = None"

lemma jint_opt_jint [simp]: "jint_opt (Some (jint i)) = Some i"
  by (simp add: jint_def)

section \<open>Checklists\<close>

record checklist_item =
  ci_label :: string
  ci_done :: bool
  ci_priceCode :: "string option"
  ci_sku :: "string option"
  ci_qty :: "int option"

text \<open>An absent optional field is absent in the JSON object.\<close>

definition item_json :: "checklist_item \<Rightarrow> json" where
  "item_json ci = JObj
     ([(''label'', JStr (ci_label ci)), (''done'', JBool (ci_done ci))]
      @ (case ci_priceCode ci of None \<Rightarrow> [] | Some c \<Rightarrow> [(''priceCode'', JStr c)])
      @ (case ci_sku ci of None \<Rightarrow> [] | Some s \<Rightarrow> [(''sku'', JStr s)])
      @ (case ci_qty ci of None \<Rightarrow> [] | Some q \<Rightarrow> [(''qty'', jint q)]))"

definition checklist_json :: "checklist_item list \<Rightarrow> json" where
  "checklist_json items = JArr (map item_json items)"

lemma jget_item_json [simp]:
  "jget ''label'' (item_json ci) = Some (JStr (ci_label ci))"
  "jget ''done'' (item_json ci) = Some (JBool (ci_done ci))"
  "jget ''priceCode'' (item_json ci) = map_option JStr (ci_priceCode ci)"
  "jget ''sku'' (item_json ci) = map_option JStr (ci_sku ci)"
  "jget ''qty'' (item_json ci) = map_option jint (ci_qty ci)"
  by (auto simp: item_json_def map_of_append split: option.splits)

lemma is_jobj_item_json [simp]: "is_jobj (item_json ci)"
  by (simp add: item_json_def)

end
