(* ===== verification/Database.thy ===== *)
theory Database
  imports Json "HOL-Library.Product_Lexorder"
begin

text \<open>
  The database of prisma/schema.prisma as a record of tables, each table the list of its
  rows in insertion order; the enums of the schema; one transaction
  (\<open>PrismaService.forTenant\<close>); and the view of the data of all other tenants, on
  which the isolation theorems are stated.

  Conventions: an id is the text of its UUID; a DateTime is its milliseconds since the
  epoch; a Decimal(12,2) is its number of hundredths; \<open>updatedAt\<close> columns, which
  Prisma writes on every update and no code reads, are left out. Generated ids come from
  \<open>uuid e n\<close>, the n-th value of the generator; one operation reads the clock as
  \<open>now e\<close>.
\<close>

section \<open>Enums\<close>

datatype vertical = MAINTENANCE | CARPENTRY | RETAIL

datatype user_role = OWNER | MANAGER | FIELD

datatype task_status = NEW | ASSIGNED | IN_PROGRESS | CLOSED | CANCELLED

datatype task_source = EMAIL | MANUAL | CUSTOMER_LINK | QUOTE_SOURCE

datatype integration_provider = GMAIL | DRIVE | OUTLOOK | GREEN_INVOICE

datatype integration_status = CONNECTED | INT_EXPIRED | INT_ERROR | DISCONNECTED

datatype invoice_status = INV_DRAFT | FINALIZED | VOIDED

datatype stock_reason = TASK_CONSUMPTION | MANUAL_ADJUSTMENT | RESTOCK | CORRECTION

datatype outbox_status = PENDING | PROCESSING | DONE | FAILED | DEAD

datatype link_purpose = TASK_STATUS | BOOKING | QUOTE_LINK

datatype quote_status = Q_DRAFT | Q_SENT | Q_APPROVED | Q_DECLINED | Q_EXPIRED

definition open_status :: "task_status \<Rightarrow> bool" where
  "open_status s \<longleftrightarrow> s \<noteq> CLOSED \<and> s \<noteq> CANCELLED"

lemma open_status_simps [simp]:
  "open_status NEW" "open_status ASSIGNED" "open_status IN_PROGRESS"
  "\<not> open_status CLOSED" "\<not> open_status CANCELLED"
  by (simp_all add: open_status_def)

fun source_name :: "task_source \<Rightarrow> string" where
  "source_name EMAIL = ''EMAIL''"
| "source_name MANUAL = ''MANUAL''"
| "source_name CUSTOMER_LINK = ''CUSTOMER_LINK''"
| "source_name QUOTE_SOURCE = ''QUOTE''"

section \<open>Rows\<close>

record tenant =
  tn_id :: string
  tn_name :: string
  tn_vertical :: vertical
  tn_subdomain :: string
  tn_isActive :: bool
  tn_createdAt :: int

record tenant_config =
  cf_tenantId :: string
  cf_enabledModules :: json
  cf_theme :: json
  cf_schedulingWeights :: "json option"
  cf_emailTemplates :: json
  cf_llmMonthlyBudgetMinor :: "int option"

record job_type_template =
  jt_id :: string
  jt_tenantId :: string
  jt_name :: string
  jt_requiredSkill :: "string option"
  jt_fields :: json
  jt_defaultPriority :: int
  jt_defaultChecklist :: json
  jt_isActive :: bool
  jt_createdAt :: int

record user =
  u_id :: string
  u_tenantId :: string
  u_email :: string
  u_passwordHash :: string
  u_name :: string
  u_role :: user_role
  u_isActive :: bool
  u_skills :: "string list"
  u_homeLat :: "real option"
  u_homeLng :: "real option"
  u_mustChangePassword :: bool
  u_lastLoginAt :: "int option"
  u_createdAt :: int

record customer =
  c_id :: string
  c_tenantId :: string
  c_name :: string
  c_email :: "string option"
  c_phone :: "string option"
  c_address :: "string option"
  c_lat :: "real option"
  c_lng :: "real option"
  c_isActive :: bool
  c_createdAt :: int

record task =
  t_id :: string
  t_tenantId :: string
  t_customerId :: string
  t_jobTypeTemplateId :: "string option"
  t_title :: string
  t_description :: "string option"
  t_status :: task_status
  t_priority :: int
  t_source :: task_source
  t_customFields :: "json option"
  t_locationLat :: "real option"
  t_locationLng :: "real option"
  t_assignedToUserId :: "string option"
  t_checklist :: "json option"
  t_sourceEmailId :: "string option"
  t_createdAt :: int
  t_closedAt :: "int option"
  t_scheduledStart :: "int option"
  t_scheduledEnd :: "int option"
  t_customerConfirmedAt :: "int option"
  t_rescheduleRequest :: "string option"
  t_rescheduleRequestedAt :: "int option"
  t_onTheWayAt :: "int option"
  t_equipmentId :: "string option"

record inventory_item =
  ii_id :: string
  ii_tenantId :: string
  ii_sku :: string
  ii_name :: string
  ii_quantity :: int
  ii_lowStockThreshold :: int
  ii_unitPrice :: "int option"
  ii_unitCost :: "int option"
  ii_category :: "string option"
  ii_isActive :: bool

record stock_movement =
  sm_tenantId :: string
  sm_inventoryItemId :: string
  sm_delta :: int
  sm_quantityAfter :: int
  sm_reason :: stock_reason
  sm_note :: "string option"
  sm_taskId :: "string option"
  sm_actorUserId :: "string option"

record price_list_item =
  pl_id :: string
  pl_tenantId :: string
  pl_code :: string
  pl_description :: string
  pl_price :: int
  pl_isActive :: bool

record invoice =
  iv_id :: string
  iv_tenantId :: string
  iv_customerId :: string
  iv_invoiceNumber :: nat
  iv_periodStart :: int
  iv_periodEnd :: int
  iv_totalAmount :: int
  iv_status :: invoice_status
  iv_pdfDriveFileId :: "string option"
  iv_finalizedAt :: "int option"

record invoice_line_item =
  il_invoiceId :: string
  il_taskId :: "string option"
  il_priceCode :: string
  il_description :: string
  il_amount :: int

record integration =
  in_tenantId :: string
  in_provider :: integration_provider
  in_status :: integration_status
  in_accessTokenEncrypted :: "string option"
  in_refreshTokenEncrypted :: "string option"
  in_scopes :: "string list"
  in_encryptionKeyVersion :: nat
  in_accessTokenExpiresAt :: "int option"
  in_lastErrorAt :: "int option"
  in_lastError :: "string option"
  in_lastSyncedAt :: "int option"
  in_syncCursor :: "string option"

record audit_log =
  al_tenantId :: string
  al_userId :: "string option"
  al_action :: string
  al_entityType :: string
  al_entityId :: string
  al_metadata :: "json option"

record outbox_event =
  ob_id :: string
  ob_tenantId :: string
  ob_eventName :: string
  ob_payload :: json
  ob_status :: outbox_status
  ob_attempts :: nat
  ob_lastError :: "string option"
  ob_nextAttemptAt :: int
  ob_createdAt :: int
  ob_processedAt :: "int option"

record idempotency_key =
  ik_tenantId :: string
  ik_key :: string
  ik_endpoint :: string
  ik_requestHash :: string
  ik_responseBody :: "json option"
  ik_statusCode :: "nat option"
  ik_expiresAt :: int

record llm_usage_row =
  lu_tenantId :: string
  lu_purpose :: string
  lu_model :: string
  lu_inputTokens :: nat
  lu_outputTokens :: nat
  lu_cacheReadTokens :: nat
  lu_cacheCreationTokens :: nat
  lu_estimatedCostMinor :: nat
  lu_createdAt :: int

record public_link =
  pk_id :: string
  pk_tenantId :: string
  pk_tokenHash :: string
  pk_purpose :: link_purpose
  pk_customerId :: string
  pk_taskId :: "string option"
  pk_equipmentId :: "string option"
  pk_quoteId :: "string option"
  pk_expiresAt :: int
  pk_usedAt :: "int option"
  pk_revokedAt :: "int option"
  pk_createdAt :: int

record equipment_row =
  eq_id :: string
  eq_tenantId :: string
  eq_customerId :: string
  eq_kind :: string
  eq_model :: "string option"
  eq_location :: "string option"
  eq_serviceIntervalMonths :: int
  eq_lastServicedAt :: "int option"
  eq_lastReminderAt :: "int option"
  eq_isActive :: bool
  eq_createdAt :: int

record quote =
  q_id :: string
  q_tenantId :: string
  q_customerId :: string
  q_quoteNumber :: nat
  q_status :: quote_status
  q_notes :: "string option"
  q_totalAmount :: int
  q_validUntil :: int
  q_approvedAt :: "int option"
  q_declinedAt :: "int option"
  q_taskId :: "string option"
  q_createdAt :: int

record quote_line =
  ql_tenantId :: string
  ql_quoteId :: string
  ql_priceCode :: string
  ql_description :: string
  ql_qty :: nat
  ql_unitPrice :: int
  ql_amount :: int
  ql_position :: nat

record activity_day =
  ad_tenantId :: string
  ad_userId :: string
  ad_day :: string

record inbound_mailbox =
  mb_tenantId :: string
  mb_localPart :: string
  mb_verificationCode :: "string option"
  mb_verificationUrl :: "string option"
  mb_verificationReceivedAt :: "int option"
  mb_lastReceivedAt :: "int option"
  mb_receivedCount :: nat

section \<open>The database and its environment\<close>

record db =
  tenants :: "tenant list"
  tenant_configs :: "tenant_config list"
  job_type_templates :: "job_type_template list"
  users :: "user list"
  customers :: "customer list"
  tasks :: "task list"
  inventory_items :: "inventory_item list"
  stock_movements :: "stock_movement list"
  price_list_items :: "price_list_item list"
  invoices :: "invoice list"
  invoice_line_items :: "invoice_line_item list"
  integrations :: "integration list"
  audit_logs :: "audit_log list"
  outbox_events :: "outbox_event list"
  idempotency_keys :: "idempotency_key list"
  llm_usage :: "llm_usage_row list"
  public_links :: "public_link list"
  equipment :: "equipment_row list"
  quotes :: "quote list"
  quote_lines :: "quote_line list"
  activity_days :: "activity_day list"
  inbound_mailboxes :: "inbound_mailbox list"
  id_ctr :: nat

record env =
  now :: int
  uuid :: "nat \<Rightarrow> string"

type_synonym 'a tx = "db \<Rightarrow> http_error + ('a \<times> db)"
type_synonym 'a svc = "db \<Rightarrow> (http_error + 'a) \<times> db"

definition empty_db :: db where
  "empty_db = \<lparr>tenants = [], tenant_configs = [], job_type_templates = [], users = [],
     customers = [], tasks = [], inventory_items = [], stock_movements = [],
     price_list_items = [], invoices = [], invoice_line_items = [], integrations = [],
     audit_logs = [], outbox_events = [], idempotency_keys = [], llm_usage = [],
     public_links = [], equipment = [], quotes = [], quote_lines = [], activity_days = [],
     inbound_mailboxes = [], id_ctr = 0\<rparr>"

text \<open>The id Postgres or Prisma generates for the next created row.\<close>

definition next_id :: "env \<Rightarrow> db \<Rightarrow> string" where
  "next_id e db = uuid e (id_ctr db)"

definition bump_id :: "db \<Rightarrow> db" where
  "bump_id db = db\<lparr>id_ctr := Suc (id_ctr db)\<rparr>"

section \<open>One tenant transaction\<close>

text \<open>
  \<open>UUID_RE\<close>: five groups of hexadecimal digits of lengths 8, 4, 4, 4 and 12.
\<close>

definition is_uuid :: "string \<Rightarrow> bool" where
  "is_uuid s \<longleftrightarrow>
     (let ps = split_on CHR ''-'' s
      in map length ps = [8, 4, 4, 4, 12] \<and> list_all (list_all is_hex) ps)"

text \<open>
  \<open>forTenant\<close>: the work runs in one transaction; an exception rolls it back and is
  rethrown, a result commits. A tenant id that is not a UUID is refused before any query.
\<close>

definition for_tenant :: "string \<Rightarrow> 'a tx \<Rightarrow> 'a svc" where
  "for_tenant tid f db =
     (if \<not> is_uuid tid then (Inl (Thrown ''forTenant called with a non-UUID tenantId''), db)
      else case f db of
          Inl err \<Rightarrow> (Inl err, db)
        | Inr (a, db') \<Rightarrow> (Inr a, db'))"

lemma for_tenant_error: "fst (for_tenant tid f db) = Inl err \<Longrightarrow> snd (for_tenant tid f db) = db"
  by (auto simp: for_tenant_def split: sum.splits if_splits)

lemma for_tenant_ok:
  "fst (for_tenant tid f db) = Inr a \<longleftrightarrow>
     is_uuid tid \<and> f db = Inr (a, snd (for_tenant tid f db))"
  by (auto simp: for_tenant_def split: sum.splits prod.splits if_splits)

lemma for_tenant_Inr:
  "for_tenant tid f db = (Inr a, db') \<longleftrightarrow> is_uuid tid \<and> f db = Inr (a, db')"
  by (auto simp: for_tenant_def split: sum.splits prod.splits if_splits)

lemma for_tenant_Inl:
  "for_tenant tid f db = (Inl err, db') \<longleftrightarrow>
     db' = db \<and> (\<not> is_uuid tid \<and> err = Thrown ''forTenant called with a non-UUID tenantId''
       \<or> is_uuid tid \<and> f db = Inl err)"
  by (auto simp: for_tenant_def split: sum.splits prod.splits if_splits)

lemma for_tenant_preserves:
  assumes "I db" and "\<And>a db'. f db = Inr (a, db') \<Longrightarrow> I db'"
  shows "I (snd (for_tenant tid f db))"
  using assms by (auto simp: for_tenant_def split: sum.splits prod.splits)

section \<open>Audit log and outbox writes\<close>

definition audit_create :: "audit_log \<Rightarrow> db \<Rightarrow> db" where
  "audit_create a db = db\<lparr>audit_logs := audit_logs db @ [a]\<rparr>"

definition new_outbox_row :: "env \<Rightarrow> string \<Rightarrow> string \<Rightarrow> json \<Rightarrow> db \<Rightarrow> outbox_event" where
  "new_outbox_row e tid name payload db =
     \<lparr>ob_id = next_id e db, ob_tenantId = tid, ob_eventName = name, ob_payload = payload,
      ob_status = PENDING, ob_attempts = 0, ob_lastError = None, ob_nextAttemptAt = now e,
      ob_createdAt = now e, ob_processedAt = None\<rparr>"

definition outbox_create :: "env \<Rightarrow> string \<Rightarrow> string \<Rightarrow> json \<Rightarrow> db \<Rightarrow> db" where
  "outbox_create e tid name payload db =
     (bump_id db)\<lparr>outbox_events := outbox_events db @ [new_outbox_row e tid name payload db]\<rparr>"

definition task_payload :: "string \<Rightarrow> string \<Rightarrow> task_source option \<Rightarrow> json" where
  "task_payload tid taskId src =
     JObj ([(''tenantId'', JStr tid), (''taskId'', JStr taskId)]
       @ (case src of None \<Rightarrow> [] | Some s \<Rightarrow> [(''source'', JStr (source_name s))]))"

text \<open>
  Creating a task: the unique key (tenantId, sourceEmailId) and the foreign keys of the
  schema are checked by the database. A NULL source id never collides.
\<close>

definition task_create :: "env \<Rightarrow> task \<Rightarrow> task tx" where
  "task_create e t db =
     (if t_sourceEmailId t \<noteq> None
         \<and> (\<exists>x \<in> set (tasks db). t_tenantId x = t_tenantId t \<and> t_sourceEmailId x = t_sourceEmailId t)
      then Inl (PrismaKnown ''P2002'')
      else if \<not> (\<exists>c \<in> set (customers db). c_id c = t_customerId t) then Inl (PrismaKnown ''P2003'')
      else let row = t\<lparr>t_id := next_id e db, t_createdAt := now e\<rparr>
           in Inr (row, (bump_id db)\<lparr>tasks := tasks db @ [row]\<rparr>))"

text \<open>The column defaults of a new task.\<close>

definition blank_task :: task where
  "blank_task = \<lparr>t_id = [], t_tenantId = [], t_customerId = [], t_jobTypeTemplateId = None,
     t_title = [], t_description = None, t_status = NEW, t_priority = 2, t_source = MANUAL,
     t_customFields = None, t_locationLat = None, t_locationLng = None,
     t_assignedToUserId = None, t_checklist = None, t_sourceEmailId = None, t_createdAt = 0,
     t_closedAt = None, t_scheduledStart = None, t_scheduledEnd = None,
     t_customerConfirmedAt = None, t_rescheduleRequest = None, t_rescheduleRequestedAt = None,
     t_onTheWayAt = None, t_equipmentId = None\<rparr>"

text \<open>\<open>Decimal.toString()\<close> of a number of hundredths: no trailing zeros.\<close>

definition decimal_text :: "int \<Rightarrow> string" where
  "decimal_text c =
     (let a = nat (abs c); f = a mod 100
      in (if c < 0 then ''-'' else []) @ show_nat (a div 100)
         @ (if f = 0 then []
            else if f mod 10 = 0 then ''.'' @ show_nat (f div 10)
            else ''.'' @ show_nat (f div 10) @ show_nat (f mod 10)))"

section \<open>The data of the other tenants\<close>

text \<open>
  \<open>others tid db\<close> is the database without the rows of tenant \<open>tid\<close>; the id
  counter is dropped. An operation that runs for \<open>tid\<close> is isolated when this view is
  the same before and after. A line of an invoice belongs to the tenant of its invoice.
\<close>

definition others :: "string \<Rightarrow> db \<Rightarrow> db" where
  "others tid db = db\<lparr>
     tenants := filter (\<lambda>r. tn_id r \<noteq> tid) (tenants db),
     tenant_configs := filter (\<lambda>r. cf_tenantId r \<noteq> tid) (tenant_configs db),
     job_type_templates := filter (\<lambda>r. jt_tenantId r \<noteq> tid) (job_type_templates db),
     users := filter (\<lambda>r. u_tenantId r \<noteq> tid) (users db),
     customers := filter (\<lambda>r. c_tenantId r \<noteq> tid) (customers db),
     tasks := filter (\<lambda>r. t_tenantId r \<noteq> tid) (tasks db),
     inventory_items := filter (\<lambda>r. ii_tenantId r \<noteq> tid) (inventory_items db),
     stock_movements := filter (\<lambda>r. sm_tenantId r \<noteq> tid) (stock_movements db),
     price_list_items := filter (\<lambda>r. pl_tenantId r \<noteq> tid) (price_list_items db),
     invoices := filter (\<lambda>r. iv_tenantId r \<noteq> tid) (invoices db),
     invoice_line_items := filter (\<lambda>r. \<exists>i \<in> set (invoices db).
        iv_id i = il_invoiceId r \<and> iv_tenantId i \<noteq> tid) (invoice_line_items db),
     integrations := filter (\<lambda>r. in_tenantId r \<noteq> tid) (integrations db),
     audit_logs := filter (\<lambda>r. al_tenantId r \<noteq> tid) (audit_logs db),
     outbox_events := filter (\<lambda>r. ob_tenantId r \<noteq> tid) (outbox_events db),
     idempotency_keys := filter (\<lambda>r. ik_tenantId r \<noteq> tid) (idempotency_keys db),
     llm_usage := filter (\<lambda>r. lu_tenantId r \<noteq> tid) (llm_usage db),
     public_links := filter (\<lambda>r. pk_tenantId r \<noteq> tid) (public_links db),
     equipment := filter (\<lambda>r. eq_tenantId r \<noteq> tid) (equipment db),
     quotes := filter (\<lambda>r. q_tenantId r \<noteq> tid) (quotes db),
     quote_lines := filter (\<lambda>r. ql_tenantId r \<noteq> tid) (quote_lines db),
     activity_days := filter (\<lambda>r. ad_tenantId r \<noteq> tid) (activity_days db),
     inbound_mailboxes := filter (\<lambda>r. mb_tenantId r \<noteq> tid) (inbound_mailboxes db),
     id_ctr := 0\<rparr>"

lemma others_bump_id [simp]: "others tid (bump_id db) = others tid db"
  by (simp add: others_def bump_id_def)

lemma others_audit_create [simp]:
  "al_tenantId a = tid \<Longrightarrow> others tid (audit_create a db) = others tid db"
  by (simp add: others_def audit_create_def)

lemma others_outbox_create [simp]: "others tid (outbox_create e tid name p db) = others tid db"
  by (simp add: others_def outbox_create_def new_outbox_row_def bump_id_def)

lemma others_tasks_update:
  "filter (\<lambda>r. t_tenantId r \<noteq> tid) ts = filter (\<lambda>r. t_tenantId r \<noteq> tid) (tasks db)
   \<Longrightarrow> others tid (db\<lparr>tasks := ts\<rparr>) = others tid db"
  by (simp add: others_def)

lemma others_task_create:
  "task_create e t db = Inr (row, db') \<Longrightarrow> t_tenantId t = tid \<Longrightarrow> others tid db' = others tid db"
  by (auto simp: task_create_def Let_def others_def bump_id_def split: if_splits)

lemma task_create_row:
  assumes "task_create e t db = Inr (row, db')"
  shows "row = t\<lparr>t_id := next_id e db, t_createdAt := now e\<rparr>"
    and "db' = (bump_id db)\<lparr>tasks := tasks db @ [row]\<rparr>"
  using assms by (auto simp: task_create_def Let_def split: if_splits)

lemma task_createD:
  "task_create e t db = Inr (row, db') \<Longrightarrow>
     row = t\<lparr>t_id := next_id e db, t_createdAt := now e\<rparr> \<and> db' = (bump_id db)\<lparr>tasks := tasks db @ [row]\<rparr>"
  by (simp add: task_create_row)

text \<open>What the log and outbox writes leave alone.\<close>

lemma audit_create_tables [frame_simps, simp]:
  "tasks (audit_create a db) = tasks db"
  "customers (audit_create a db) = customers db"
  "inventory_items (audit_create a db) = inventory_items db"
  "stock_movements (audit_create a db) = stock_movements db"
  "price_list_items (audit_create a db) = price_list_items db"
  "invoices (audit_create a db) = invoices db"
  "invoice_line_items (audit_create a db) = invoice_line_items db"
  "outbox_events (audit_create a db) = outbox_events db"
  "public_links (audit_create a db) = public_links db"
  "equipment (audit_create a db) = equipment db"
  "quotes (audit_create a db) = quotes db"
  "quote_lines (audit_create a db) = quote_lines db"
  "users (audit_create a db) = users db"
  "job_type_templates (audit_create a db) = job_type_templates db"
  "tenants (audit_create a db) = tenants db"
  "tenant_configs (audit_create a db) = tenant_configs db"
  "integrations (audit_create a db) = integrations db"
  "inbound_mailboxes (audit_create a db) = inbound_mailboxes db"
  "id_ctr (audit_create a db) = id_ctr db"
  "audit_logs (audit_create a db) = audit_logs db @ [a]"
  by (simp_all add: audit_create_def)

lemma outbox_create_tables [frame_simps, simp]:
  "tasks (outbox_create e tid n p db) = tasks db"
  "customers (outbox_create e tid n p db) = customers db"
  "inventory_items (outbox_create e tid n p db) = inventory_items db"
  "stock_movements (outbox_create e tid n p db) = stock_movements db"
  "price_list_items (outbox_create e tid n p db) = price_list_items db"
  "invoices (outbox_create e tid n p db) = invoices db"
  "invoice_line_items (outbox_create e tid n p db) = invoice_line_items db"
  "audit_logs (outbox_create e tid n p db) = audit_logs db"
  "public_links (outbox_create e tid n p db) = public_links db"
  "equipment (outbox_create e tid n p db) = equipment db"
  "quotes (outbox_create e tid n p db) = quotes db"
  "quote_lines (outbox_create e tid n p db) = quote_lines db"
  "users (outbox_create e tid n p db) = users db"
  "job_type_templates (outbox_create e tid n p db) = job_type_templates db"
  "tenants (outbox_create e tid n p db) = tenants db"
  "tenant_configs (outbox_create e tid n p db) = tenant_configs db"
  "outbox_events (outbox_create e tid n p db) = outbox_events db @ [new_outbox_row e tid n p db]"
  by (simp_all add: outbox_create_def bump_id_def)

lemma bump_id_tables [simp]:
  "tasks (bump_id db) = tasks db"
  "customers (bump_id db) = customers db"
  "outbox_events (bump_id db) = outbox_events db"
  "audit_logs (bump_id db) = audit_logs db"
  "quotes (bump_id db) = quotes db"
  "quote_lines (bump_id db) = quote_lines db"
  "public_links (bump_id db) = public_links db"
  "invoices (bump_id db) = invoices db"
  "inventory_items (bump_id db) = inventory_items db"
  "stock_movements (bump_id db) = stock_movements db"
  "equipment (bump_id db) = equipment db"
  by (simp_all add: bump_id_def)

section \<open>Operations of one tenant\<close>

text \<open>
  The contract every transaction of a service keeps: when it succeeds, the data of the other
  tenants is what it was. What the transaction wrapper promises follows from it.
\<close>

locale tenant_op =
  fixes tid :: string and f :: "'a tx"
  assumes frame: "f db = Inr (r, db') \<Longrightarrow> others tid db' = others tid db"
begin

lemma isolated: "others tid (snd (for_tenant tid f db)) = others tid db"
  by (auto simp: for_tenant_def frame split: sum.splits prod.splits)

lemma isolated_result: "for_tenant tid f db = (r, db') \<Longrightarrow> others tid db' = others tid db"
  using isolated [of db] by simp

lemma failed_unchanged: "for_tenant tid f db = (Inl err, db') \<Longrightarrow> db' = db"
  by (simp add: for_tenant_Inl)

end

section \<open>Descending columns of an ORDER BY\<close>

datatype 'a desc = Desc (undesc: 'a)

instantiation desc :: (linorder) linorder
begin

definition less_eq_desc :: "'a desc \<Rightarrow> 'a desc \<Rightarrow> bool" where
  "less_eq_desc x y \<longleftrightarrow> undesc y \<le> undesc x"

definition less_desc :: "'a desc \<Rightarrow> 'a desc \<Rightarrow> bool" where
  "less_desc x y \<longleftrightarrow> undesc y < undesc x"

instance
  by standard (auto simp: less_eq_desc_def less_desc_def desc.expand)

end

lemma Desc_le [simp]: "Desc a \<le> Desc b \<longleftrightarrow> b \<le> a"
  by (simp add: less_eq_desc_def)

lemma Desc_less [simp]: "Desc a < Desc b \<longleftrightarrow> b < a"
  by (simp add: less_desc_def)

text \<open>NULLS LAST for an ascending column.\<close>

definition nulls_last :: "int option \<Rightarrow> nat \<times> int" where
  "nulls_last x = (case x of None \<Rightarrow> (1, 0) | Some v \<Rightarrow> (0, v))"

section \<open>A small database for the concrete instances\<close>

definition demo_tenant :: string where
  "demo_tenant = ''11111111-2222-3333-4444-555555555555''"

definition demo_env :: env where
  "demo_env = \<lparr>now = 5000, uuid = (\<lambda>n. ''id-'' @ show_nat n)\<rparr>"

definition demo_customer :: customer where
  "demo_customer = \<lparr>c_id = ''c1'', c_tenantId = demo_tenant, c_name = ''Dana'',
     c_email = Some ''dana@example.com'', c_phone = None, c_address = None, c_lat = None,
     c_lng = None, c_isActive = True, c_createdAt = 100\<rparr>"

definition demo_task :: task where
  "demo_task = blank_task\<lparr>t_id := ''t1'', t_tenantId := demo_tenant, t_customerId := ''c1'',
     t_title := ''Boiler'', t_status := ASSIGNED, t_assignedToUserId := Some ''u1'',
     t_createdAt := 1000\<rparr>"

definition demo_template :: job_type_template where
  "demo_template = \<lparr>jt_id = ''j1'', jt_tenantId = demo_tenant, jt_name = ''Repair'',
     jt_requiredSkill = None, jt_fields = JArr [], jt_defaultPriority = 1,
     jt_defaultChecklist = JArr [], jt_isActive = True, jt_createdAt = 100\<rparr>"

definition demo_db :: db where
  "demo_db = empty_db\<lparr>customers := [demo_customer], tasks := [demo_task],
     job_type_templates := [demo_template]\<rparr>"

lemma demo_tenant_uuid [simp]: "is_uuid demo_tenant"
  by code_simp

lemmas demo_defs = demo_db_def demo_template_def demo_task_def demo_customer_def demo_env_def empty_db_def blank_task_def

end
