(* ===== verification/Tasks.thy ===== *)
theory Tasks
  imports Database
begin

text \<open>
  modules/tasks/tasks.service.ts: who sees which task, keyset pagination, the two ways a
  task is created, and closing a task, which writes the audit row, the equipment's service
  date and the outbox event in the same transaction.
\<close>

section \<open>Actors and their scope\<close>

record actor =
  a_id :: string
  a_role :: user_role

text \<open>A technician sees the tasks assigned to them; any other caller sees all of the tenant's.\<close>

definition task_scope :: "actor option \<Rightarrow> task \<Rightarrow> bool" where
  "task_scope act t =
     (case act of
        None \<Rightarrow> True
      | Some a \<Rightarrow> a_role a = FIELD \<longrightarrow> t_assignedToUserId t = Some (a_id a))"

section \<open>Listing\<close>

record task_filters =
  f_status :: "task_status option"
  f_take :: "nat option"
  f_cursor :: "string option"
  f_customerId :: "string option"
  f_assignedToMe :: bool
  f_urgentFirst :: bool

definition no_filters :: task_filters where
  "no_filters = \<lparr>f_status = None, f_take = None, f_cursor = None, f_customerId = None,
     f_assignedToMe = False, f_urgentFirst = False\<rparr>"

definition default_page_size :: nat where
  "default_page_size = 50"

text \<open>The assignee as it leaves the server: id, name and role, never the whole user row.\<close>

record assignee_view =
  av_id :: string
  av_name :: string
  av_role :: user_role

record task_detail =
  td_task :: task
  td_customer :: "customer option"
  td_assignedTo :: "assignee_view option"

definition assignee_of :: "db \<Rightarrow> task \<Rightarrow> assignee_view option" where
  "assignee_of db t =
     (case t_assignedToUserId t of
        None \<Rightarrow> None
      | Some uid \<Rightarrow> map_option (\<lambda>u. \<lparr>av_id = u_id u, av_name = u_name u, av_role = u_role u\<rparr>)
                      (List.find (\<lambda>u. u_id u = uid) (users db)))"

definition task_detail_of :: "db \<Rightarrow> task \<Rightarrow> task_detail" where
  "task_detail_of db t = \<lparr>td_task = t,
     td_customer = List.find (\<lambda>c. c_id c = t_customerId t) (customers db),
     td_assignedTo = assignee_of db t\<rparr>"

definition task_where :: "string \<Rightarrow> task_filters \<Rightarrow> actor option \<Rightarrow> task \<Rightarrow> bool" where
  "task_where tid fs act t \<longleftrightarrow>
     t_tenantId t = tid
     \<and> (case f_status fs of None \<Rightarrow> True | Some s \<Rightarrow> t_status t = s)
     \<and> (truthy (f_customerId fs) \<longrightarrow> Some (t_customerId t) = f_customerId fs)
     \<and> (f_assignedToMe fs \<longrightarrow> t_assignedToUserId t = map_option a_id act)
     \<and> task_scope act t"

definition task_order :: "bool \<Rightarrow> task list \<Rightarrow> task list" where
  "task_order urgent ts =
     (if urgent then sort_key (\<lambda>t. (t_priority t, Desc (t_createdAt t), Desc (t_id t))) ts
      else sort_key (\<lambda>t. (Desc (t_createdAt t), Desc (t_id t))) ts)"

definition find_all_rows :: "string \<Rightarrow> task_filters \<Rightarrow> actor option \<Rightarrow> db \<Rightarrow> task list" where
  "find_all_rows tid fs act db =
     task_order (f_urgentFirst fs) (filter (task_where tid fs act) (tasks db))"

definition find_all ::
  "string \<Rightarrow> task_filters \<Rightarrow> actor option \<Rightarrow> (task_detail list \<times> string option) svc" where
  "find_all tid fs act db =
     (let k = or_else (f_take fs) default_page_size
      in if f_assignedToMe fs \<and> \<not> truthy (map_option a_id act)
         then (Inl (BadRequest ''assignedToMe requires an authenticated user''), db)
         else for_tenant tid (\<lambda>db.
           let items = take k (after_cursor t_id
                 (if truthy (f_cursor fs) then f_cursor fs else None) (find_all_rows tid fs act db));
               nxt = (if length items = k \<and> items \<noteq> [] then Some (t_id (last items)) else None)
           in Inr ((map (task_detail_of db) items, nxt), db)) db)"

text \<open>The detail screen also shows the job type: its id, name and required skill.\<close>

record job_type_view =
  jv_id :: string
  jv_name :: string
  jv_requiredSkill :: "string option"

definition job_type_of :: "db \<Rightarrow> task \<Rightarrow> job_type_view option" where
  "job_type_of db t =
     (case t_jobTypeTemplateId t of
        None \<Rightarrow> None
      | Some jid \<Rightarrow> map_option (\<lambda>j. \<lparr>jv_id = jt_id j, jv_name = jt_name j, jv_requiredSkill = jt_requiredSkill j\<rparr>)
                      (List.find (\<lambda>j. jt_id j = jid) (job_type_templates db)))"

definition find_one ::
  "string \<Rightarrow> string \<Rightarrow> actor option \<Rightarrow> (task_detail \<times> job_type_view option) svc" where
  "find_one tid taskId act db =
     for_tenant tid (\<lambda>db.
       case List.find (\<lambda>t. t_id t = taskId \<and> t_tenantId t = tid \<and> task_scope act t) (tasks db) of
         None \<Rightarrow> Inl (NotFound ''Task not found'')
       | Some t \<Rightarrow> Inr ((task_detail_of db t, job_type_of db t), db)) db"

section \<open>Creating a task\<close>

definition resolve_template_defaults ::
  "string \<Rightarrow> string option \<Rightarrow> db \<Rightarrow> http_error + (json option \<times> int)" where
  "resolve_template_defaults tid tmpl db =
     (if \<not> truthy tmpl then Inr (None, 2)
      else case List.find (\<lambda>j. Some (jt_id j) = tmpl \<and> jt_tenantId j = tid) (job_type_templates db) of
          None \<Rightarrow> Inl (NotFound ''JobTypeTemplate not found for this tenant'')
        | Some j \<Rightarrow> Inr (Some (jt_defaultChecklist j), jt_defaultPriority j))"

text \<open>\<open>toJsonInput\<close>: a JSON null and an absent value are both stored as NULL.\<close>

definition to_json_input :: "json option \<Rightarrow> json option" where
  "to_json_input v = (if v = Some JNull then None else v)"

definition task_audit ::
  "string \<Rightarrow> string option \<Rightarrow> string \<Rightarrow> string \<Rightarrow> json \<Rightarrow> db \<Rightarrow> db" where
  "task_audit tid uid action taskId meta db =
     audit_create \<lparr>al_tenantId = tid, al_userId = uid, al_action = action,
       al_entityType = ''Task'', al_entityId = taskId, al_metadata = to_json_input (Some meta)\<rparr> db"

record manual_params =
  mp_customerId :: string
  mp_jobTypeTemplateId :: string
  mp_title :: string
  mp_description :: "string option"
  mp_customFields :: "json option"

definition create_manual_tx ::
  "env \<Rightarrow> string \<Rightarrow> manual_params \<Rightarrow> string option \<Rightarrow> task tx" where
  "create_manual_tx e tid p uid db =
     (case resolve_template_defaults tid (Some (mp_jobTypeTemplateId p)) db of
        Inl err \<Rightarrow> Inl err
      | Inr (checklist, priority) \<Rightarrow>
          (case List.find (\<lambda>c. c_id c = mp_customerId p \<and> c_tenantId c = tid) (customers db) of
             None \<Rightarrow> Inl (NotFound ''Customer not found for this tenant'')
           | Some _ \<Rightarrow>
               (case task_create e
                   (blank_task\<lparr>t_tenantId := tid, t_customerId := mp_customerId p,
                      t_jobTypeTemplateId := Some (mp_jobTypeTemplateId p), t_title := mp_title p,
                      t_description := mp_description p, t_source := MANUAL, t_priority := priority,
                      t_checklist := to_json_input checklist,
                      t_customFields := to_json_input (mp_customFields p)\<rparr>) db of
                  Inl err \<Rightarrow> Inl err
                | Inr (created, db1) \<Rightarrow>
                    Inr (created,
                      outbox_create e tid ''task.created''
                        (task_payload tid (t_id created) (Some MANUAL))
                        (task_audit tid uid ''task.created'' (t_id created)
                          (JObj [(''source'', JStr ''MANUAL''),
                                 (''jobTypeTemplateId'', JStr (mp_jobTypeTemplateId p))]) db1)))))"

definition create_manual :: "env \<Rightarrow> string \<Rightarrow> manual_params \<Rightarrow> string option \<Rightarrow> task svc" where
  "create_manual e tid p uid db = for_tenant tid (create_manual_tx e tid p uid) db"

record email_params =
  ep_customerId :: string
  ep_title :: string
  ep_description :: "string option"
  ep_sourceEmailId :: string
  ep_jobTypeTemplateId :: "string option"
  ep_extractedFields :: "json option"
  ep_priority :: "int option"

definition create_from_email_tx :: "env \<Rightarrow> string \<Rightarrow> email_params \<Rightarrow> task tx" where
  "create_from_email_tx e tid p db =
     (case resolve_template_defaults tid (ep_jobTypeTemplateId p) db of
        Inl err \<Rightarrow> Inl err
      | Inr (checklist, default_priority) \<Rightarrow>
          (case task_create e
              (blank_task\<lparr>t_tenantId := tid, t_customerId := ep_customerId p,
                 t_jobTypeTemplateId := ep_jobTypeTemplateId p, t_title := ep_title p,
                 t_description := ep_description p, t_source := EMAIL,
                 t_sourceEmailId := Some (ep_sourceEmailId p),
                 t_priority := or_else (ep_priority p) default_priority,
                 t_checklist := to_json_input checklist,
                 t_customFields := to_json_input (ep_extractedFields p)\<rparr>) db of
             Inl err \<Rightarrow> Inl err
           | Inr (created, db1) \<Rightarrow>
               Inr (created,
                 outbox_create e tid ''task.created'' (task_payload tid (t_id created) (Some EMAIL))
                   (task_audit tid None ''task.created'' (t_id created)
                     (JObj [(''source'', JStr ''EMAIL''),
                            (''sourceEmailId'', JStr (ep_sourceEmailId p))]) db1))))"

definition create_from_email :: "env \<Rightarrow> string \<Rightarrow> email_params \<Rightarrow> task svc" where
  "create_from_email e tid p db = for_tenant tid (create_from_email_tx e tid p) db"

section \<open>Closing a task\<close>

text \<open>
  The UPDATE ... FROM on the task's equipment: the service date moves to the closing time
  of the task, forward only.
\<close>

definition touch_row :: "task option \<Rightarrow> equipment_row \<Rightarrow> equipment_row" where
  "touch_row found q =
     (case found of
        None \<Rightarrow> q
      | Some t \<Rightarrow>
          (case t_closedAt t of
             None \<Rightarrow> q
           | Some stamp \<Rightarrow>
               if Some (eq_id q) = t_equipmentId t \<and> eq_tenantId q = t_tenantId t
                  \<and> (case eq_lastServicedAt q of None \<Rightarrow> True | Some s \<Rightarrow> s < stamp)
               then q\<lparr>eq_lastServicedAt := Some stamp\<rparr> else q))"

definition touch_equipment :: "string \<Rightarrow> string \<Rightarrow> db \<Rightarrow> db" where
  "touch_equipment tid taskId db = db\<lparr>equipment :=
     map (touch_row (List.find (\<lambda>t. t_id t = taskId \<and> t_tenantId t = tid) (tasks db)))
       (equipment db)\<rparr>"

definition close_where :: "string \<Rightarrow> string \<Rightarrow> actor option \<Rightarrow> task \<Rightarrow> bool" where
  "close_where tid taskId act t \<longleftrightarrow>
     t_id t = taskId \<and> t_tenantId t = tid \<and> task_scope act t \<and> t_status t \<noteq> CLOSED"

definition close_row :: "env \<Rightarrow> checklist_item list option \<Rightarrow> task \<Rightarrow> task" where
  "close_row e final t =
     (let t1 = t\<lparr>t_status := CLOSED, t_closedAt := Some (now e)\<rparr>
      in case final of None \<Rightarrow> t1 | Some items \<Rightarrow> t1\<lparr>t_checklist := Some (checklist_json items)\<rparr>)"

text \<open>What follows a successful transition, in the same transaction.\<close>

definition close_effects ::
  "env \<Rightarrow> string \<Rightarrow> string \<Rightarrow> checklist_item list option \<Rightarrow> actor option \<Rightarrow> db \<Rightarrow> db" where
  "close_effects e tid taskId final act db =
     outbox_create e tid ''task.closed'' (task_payload tid taskId None)
       (touch_equipment tid taskId
         (task_audit tid (map_option a_id act) ''task.closed'' taskId
           (JObj [(''checklistItems'',
                   jint (case final of None \<Rightarrow> 0 | Some items \<Rightarrow> int (length items)))]) db))"

definition close_tx ::
  "env \<Rightarrow> string \<Rightarrow> string \<Rightarrow> checklist_item list option \<Rightarrow> actor option \<Rightarrow> bool tx" where
  "close_tx e tid taskId final act db =
     (let (count, ts) = update_rows (close_where tid taskId act) (close_row e final) (tasks db)
      in if count = 0
         then (case List.find (\<lambda>t. t_id t = taskId \<and> t_tenantId t = tid \<and> task_scope act t) (tasks db) of
                 None \<Rightarrow> Inl (NotFound ''Task not found'')
               | Some _ \<Rightarrow> Inr (True, db))
         else Inr (False, close_effects e tid taskId final act (db\<lparr>tasks := ts\<rparr>)))"

record close_result =
  cr_taskId :: string
  cr_status :: task_status
  cr_alreadyClosed :: bool

definition close_task ::
  "env \<Rightarrow> string \<Rightarrow> string \<Rightarrow> checklist_item list option \<Rightarrow> actor option \<Rightarrow> close_result svc" where
  "close_task e tid taskId final act db =
     (case for_tenant tid (close_tx e tid taskId final act) db of
        (Inl err, db') \<Rightarrow> (Inl err, db')
      | (Inr already, db') \<Rightarrow>
          (Inr \<lparr>cr_taskId = taskId, cr_status = CLOSED, cr_alreadyClosed = already\<rparr>, db'))"

section \<open>What closing does\<close>

lemma touch_equipment_tables [frame_simps, simp]:
  "tasks (touch_equipment tid i db) = tasks db"
  "outbox_events (touch_equipment tid i db) = outbox_events db"
  "audit_logs (touch_equipment tid i db) = audit_logs db"
  "customers (touch_equipment tid i db) = customers db"
  by (simp_all add: touch_equipment_def)

lemma others_touch_equipment [simp]:
  "others tid (touch_equipment tid taskId db) = others tid db"
proof -
  have "filter (\<lambda>r. eq_tenantId r \<noteq> tid) (equipment (touch_equipment tid taskId db))
      = filter (\<lambda>r. eq_tenantId r \<noteq> tid) (equipment db)"
    unfolding touch_equipment_def
    by (simp, rule filter_map_frame) (auto simp: touch_row_def split: option.splits dest!: find_SomeD)
  then show ?thesis by (simp add: others_def touch_equipment_def)
qed

lemma close_row_simps [simp]:
  "t_id (close_row e final t) = t_id t"
  "t_tenantId (close_row e final t) = t_tenantId t"
  "t_status (close_row e final t) = CLOSED"
  "t_closedAt (close_row e final t) = Some (now e)"
  "t_assignedToUserId (close_row e final t) = t_assignedToUserId t"
  "t_equipmentId (close_row e final t) = t_equipmentId t"
  "t_customerId (close_row e final t) = t_customerId t"
  by (simp_all add: close_row_def Let_def split: option.splits)

lemma task_scope_close_row [simp]: "task_scope act (close_row e final t) = task_scope act t"
  by (simp add: task_scope_def split: option.splits)

lemma others_task_audit [simp]: "others tid (task_audit tid uid a i m db) = others tid db"
  by (simp add: task_audit_def)

text \<open>The two successful outcomes of closing: nothing to do, or one transition.\<close>

lemma close_tx_again:
  assumes "\<forall>t \<in> set (tasks db). \<not> close_where tid taskId act t"
  shows "close_tx e tid taskId final act db =
    (if \<exists>t \<in> set (tasks db). t_id t = taskId \<and> t_tenantId t = tid \<and> task_scope act t
     then Inr (True, db) else Inl (NotFound ''Task not found''))"
proof -
  from assms have "fst (update_rows (close_where tid taskId act) (close_row e final) (tasks db)) = 0"
    by (simp add: update_rows_count_0)
  then show ?thesis
    by (auto simp: close_tx_def split_beta find_None_iff_all split: option.splits dest!: find_SomeD)
qed

lemma close_tx_closes:
  assumes "\<exists>t \<in> set (tasks db). close_where tid taskId act t"
  shows "close_tx e tid taskId final act db = Inr (False, close_effects e tid taskId final act
     (db\<lparr>tasks := snd (update_rows (close_where tid taskId act) (close_row e final) (tasks db))\<rparr>))"
proof -
  from assms have "fst (update_rows (close_where tid taskId act) (close_row e final) (tasks db)) \<noteq> 0"
    by (simp add: update_rows_count_0)
  then show ?thesis by (simp add: close_tx_def split_beta)
qed

lemma others_close_effects [simp]:
  "others tid (close_effects e tid taskId final act db) = others tid db"
  by (simp add: close_effects_def)

lemma others_close_tx:
  assumes "close_tx e tid taskId final act db = Inr (r, db')"
  shows "others tid db' = others tid db"
proof (cases "\<exists>t \<in> set (tasks db). close_where tid taskId act t")
  case True
  let ?ts = "snd (update_rows (close_where tid taskId act) (close_row e final) (tasks db))"
  have "filter (\<lambda>r. t_tenantId r \<noteq> tid) ?ts = filter (\<lambda>r. t_tenantId r \<noteq> tid) (tasks db)"
    by (rule filter_update_rows) (simp add: close_where_def)
  with assms show ?thesis
    by (auto simp: close_tx_closes [OF True] intro: others_tasks_update)
next
  case False
  with assms show ?thesis by (simp add: close_tx_again split: if_splits)
qed

lemma close_tx_cases:
  assumes "close_tx e tid taskId final act db = Inr (already, db')"
  obtains
    (again) "already" "db' = db"
      "\<forall>t \<in> set (tasks db). \<not> close_where tid taskId act t"
      "\<exists>t \<in> set (tasks db). t_id t = taskId \<and> t_tenantId t = tid \<and> task_scope act t"
  | (closes) "\<not> already"
      "\<exists>t \<in> set (tasks db). close_where tid taskId act t"
      "db' = close_effects e tid taskId final act
        (db\<lparr>tasks := snd (update_rows (close_where tid taskId act) (close_row e final) (tasks db))\<rparr>)"
proof (cases "\<exists>t \<in> set (tasks db). close_where tid taskId act t")
  case True
  with assms show thesis by (auto simp: close_tx_closes [OF True] intro: closes)
next
  case False
  with assms show thesis by (auto simp: close_tx_again intro: again split: if_splits)
qed

lemma close_effects_tables [simp]:
  "tasks (close_effects e tid taskId final act db) = tasks db"
  "outbox_events (close_effects e tid taskId final act db) = outbox_events db @
     [new_outbox_row e tid ''task.closed'' (task_payload tid taskId None) db]"
  "\<exists>meta. audit_logs (close_effects e tid taskId final act db) = audit_logs db @
     [\<lparr>al_tenantId = tid, al_userId = map_option a_id act, al_action = ''task.closed'',
       al_entityType = ''Task'', al_entityId = taskId, al_metadata = meta\<rparr>]"
  by (simp_all add: close_effects_def task_audit_def new_outbox_row_def next_id_def touch_equipment_def)

text \<open>C1. Closing a task that was not closed appends exactly one task.closed outbox event and one
  audit row and turns exactly the selected row into its closed form.\<close>
theorem close_task_effect:
  assumes "close_task e tid taskId final act db = (Inr r, db')" and "\<not> cr_alreadyClosed r"
  shows "(\<exists>payload_row. outbox_events db' = outbox_events db @ [payload_row]
            \<and> ob_eventName payload_row = ''task.closed'' \<and> ob_status payload_row = PENDING
            \<and> ob_tenantId payload_row = tid \<and> ob_payload payload_row = task_payload tid taskId None)
    \<and> (\<exists>entry. audit_logs db' = audit_logs db @ [entry]
            \<and> al_action entry = ''task.closed'' \<and> al_entityId entry = taskId
            \<and> al_userId entry = map_option a_id act)
    \<and> tasks db' = map (\<lambda>t. if t_id t = taskId \<and> t_tenantId t = tid \<and> task_scope act t \<and> t_status t \<noteq> CLOSED
                           then close_row e final t else t) (tasks db)
    \<and> (\<exists>t \<in> set (tasks db). t_id t = taskId \<and> t_status t \<noteq> CLOSED)"
proof -
  from assms have "close_tx e tid taskId final act db = Inr (False, db')"
    by (auto simp: close_task_def for_tenant_Inr split: sum.splits prod.splits)
  then show ?thesis
  proof (cases rule: close_tx_cases)
    case closes
    then show ?thesis
      using close_effects_tables(3) [of e tid taskId final act "db\<lparr>tasks := snd (update_rows (close_where tid taskId act) (close_row e final) (tasks db))\<rparr>"]
      by (fastforce simp: new_outbox_row_def update_rows_def close_where_def)
  qed simp
qed

lemma close_where_closed: "\<not> close_where tid taskId act (close_row e final t)"
  by (simp add: close_where_def)

lemma close_tx_then:
  assumes "close_tx e tid taskId final act db = Inr (b, db')"
  shows "close_tx e' tid taskId final' act db' = Inr (True, db')"
  using assms
proof (cases rule: close_tx_cases)
  case again
  then show ?thesis by (simp add: close_tx_again)
next
  case closes
  have "\<forall>t \<in> set (tasks db'). \<not> close_where tid taskId act t"
    using closes(3) by (auto simp: set_update_rows close_where_closed)
  moreover from closes(2) obtain t where t: "t \<in> set (tasks db)" "close_where tid taskId act t" by blast
  then have "close_row e final t \<in> set (tasks db')"
    using closes(3) by (auto simp: set_update_rows)
  with t(2) have "\<exists>t \<in> set (tasks db'). t_id t = taskId \<and> t_tenantId t = tid \<and> task_scope act t"
    by (intro bexI [of _ "close_row e final t"]) (simp_all add: close_where_def)
  ultimately show ?thesis by (simp add: close_tx_again)
qed

text \<open>Closing again after a successful close reports alreadyClosed and changes nothing, so no
  second event is written.\<close>
theorem close_task_idempotent:
  assumes "close_task e tid taskId final act db = (Inr r, db')"
  shows "close_task e' tid taskId final' act db' = (Inr (r\<lparr>cr_alreadyClosed := True\<rparr>), db')"
  using assms close_tx_then
  by (fastforce simp: close_task_def for_tenant_Inr for_tenant_def split: sum.splits prod.splits if_splits)

text \<open>For a technician, a task assigned to somebody else cannot be told from a missing one:
  reading and closing both give the same 404 and change nothing.\<close>
theorem technician_sees_missing:
  assumes "a_role a = FIELD" and "is_uuid tid"
    and "\<forall>t \<in> set (tasks db). t_id t = taskId \<longrightarrow> t_assignedToUserId t \<noteq> Some (a_id a)"
  shows "find_one tid taskId (Some a) db = (Inl (NotFound ''Task not found''), db)
    \<and> close_task e tid taskId final (Some a) db = (Inl (NotFound ''Task not found''), db)"
proof -
  from assms have "\<forall>t \<in> set (tasks db). \<not> (t_id t = taskId \<and> t_tenantId t = tid \<and> task_scope (Some a) t)"
    by (auto simp: task_scope_def)
  then have "List.find (\<lambda>t. t_id t = taskId \<and> t_tenantId t = tid \<and> task_scope (Some a) t) (tasks db) = None"
    and "\<forall>t \<in> set (tasks db). \<not> close_where tid taskId (Some a) t"
    by (auto simp: find_None_iff_all close_where_def)
  with assms(2) show ?thesis
    by (simp add: find_one_def close_task_def for_tenant_def close_tx_def split_beta update_rows_count_0)
qed


lemma task_audit_tables [simp]:
  "tasks (task_audit tid uid a i m db) = tasks db"
  "equipment (task_audit tid uid a i m db) = equipment db"
  by (simp_all add: task_audit_def)

lemma equipment_close_effects:
  "equipment (close_effects e tid taskId final act db) =
     map (touch_row (List.find (\<lambda>t. t_id t = taskId \<and> t_tenantId t = tid) (tasks db))) (equipment db)"
  by (simp add: close_effects_def touch_equipment_def)

definition serviced_since :: "int \<Rightarrow> equipment_row \<Rightarrow> bool" where
  "serviced_since s q \<longleftrightarrow> (\<exists>s'. eq_lastServicedAt q = Some s' \<and> s \<le> s')"

lemma touch_row_forward:
  "eq_id (touch_row t q) = eq_id q" "serviced_since s q \<Longrightarrow> serviced_since s (touch_row t q)"
  by (auto simp: touch_row_def serviced_since_def split: option.splits)

lemma touch_row_stamps:
  assumes "t_closedAt t = Some s" "t_equipmentId t = Some (eq_id q)" "eq_tenantId q = t_tenantId t"
  shows "serviced_since s (touch_row (Some t) q)"
  using assms by (auto simp: touch_row_def serviced_since_def split: option.splits)

text \<open>Closing a task never moves an equipment's last service date backwards, and brings the
  date of the task's own equipment at least to the closing time.\<close>
theorem close_moves_service_date_forward:
  assumes "close_task e tid taskId final act db = (Inr r, db')"
    and "distinct (map t_id (tasks db))"
  shows "list_all2 (\<lambda>q q'. eq_id q' = eq_id q
           \<and> (\<forall>s. eq_lastServicedAt q = Some s \<longrightarrow> serviced_since s q')
           \<and> (\<not> cr_alreadyClosed r \<longrightarrow> eq_tenantId q = tid
               \<longrightarrow> (\<exists>t \<in> set (tasks db). t_id t = taskId \<and> t_equipmentId t = Some (eq_id q))
               \<longrightarrow> serviced_since (now e) q')) (equipment db) (equipment db')"
proof -
  from assms have "close_tx e tid taskId final act db = Inr (cr_alreadyClosed r, db')"
    by (auto simp: close_task_def for_tenant_Inr split: sum.splits prod.splits)
  then show ?thesis
  proof (cases rule: close_tx_cases)
    case again
    then show ?thesis by (auto simp: list_all2_same serviced_since_def)
  next
    case closes
    let ?ts = "snd (update_rows (close_where tid taskId act) (close_row e final) (tasks db))"
    let ?found = "List.find (\<lambda>t. t_id t = taskId \<and> t_tenantId t = tid) ?ts"
    from closes(2) obtain u where u: "u \<in> set (tasks db)" "close_where tid taskId act u" by blast
    have only: "t = u" if "t \<in> set (tasks db)" "t_id t = taskId" for t
      using that u distinct_map_eq [OF assms(2)] by (auto simp: close_where_def)
    have "?found = Some (close_row e final u)"
    proof (rule find_unique)
      show "close_row e final u \<in> set ?ts" using u by (auto simp: set_update_rows)
      show "t_id (close_row e final u) = taskId \<and> t_tenantId (close_row e final u) = tid"
        using u by (simp add: close_where_def)
      show "y = close_row e final u" if "y \<in> set ?ts" "t_id y = taskId \<and> t_tenantId y = tid" for y
        using that u only by (auto simp: set_update_rows)
    qed
    moreover have "equipment db' = map (touch_row ?found) (equipment db)"
      by (simp add: closes(3) equipment_close_effects)
    ultimately have eq: "equipment db' = map (touch_row (Some (close_row e final u))) (equipment db)"
      by simp
    have "serviced_since s (touch_row (Some (close_row e final u)) q)"
      if "eq_lastServicedAt q = Some s" for q s
      by (rule touch_row_forward) (simp add: that serviced_since_def)
    moreover have "serviced_since (now e) (touch_row (Some (close_row e final u)) q)"
      if "eq_tenantId q = tid" "\<exists>t \<in> set (tasks db). t_id t = taskId \<and> t_equipmentId t = Some (eq_id q)" for q
    proof -
      from that(2) obtain t where "t \<in> set (tasks db)" "t_id t = taskId" "t_equipmentId t = Some (eq_id q)"
        by blast
      with only have "t_equipmentId u = Some (eq_id q)" by blast
      with that(1) u(2) show ?thesis by (intro touch_row_stamps) (simp_all add: close_where_def)
    qed
    ultimately show ?thesis
      by (simp add: eq list_all2_conv_all_nth touch_row_forward(1))
  qed
qed

section \<open>Paging\<close>

fun collect_pages ::
  "nat \<Rightarrow> string \<Rightarrow> task_filters \<Rightarrow> actor option \<Rightarrow> db \<Rightarrow> task_detail list" where
  "collect_pages 0 tid fs act db = []"
| "collect_pages (Suc n) tid fs act db =
     (case fst (find_all tid fs act db) of
        Inl _ \<Rightarrow> []
      | Inr (items, nxt) \<Rightarrow>
          (case nxt of
             None \<Rightarrow> items
           | Some c \<Rightarrow> items @ collect_pages n tid (fs\<lparr>f_cursor := Some c\<rparr>) act db))"

definition can_list :: "string \<Rightarrow> task_filters \<Rightarrow> actor option \<Rightarrow> bool" where
  "can_list tid fs act \<longleftrightarrow> is_uuid tid \<and> (f_assignedToMe fs \<longrightarrow> truthy (map_option a_id act))"

definition the_page :: "nat \<Rightarrow> task list \<Rightarrow> task list \<times> string option" where
  "the_page k rest = (take k rest, if length (take k rest) = k \<and> take k rest \<noteq> [] then Some (t_id (last (take k rest))) else None)"

lemma find_all_ok:
  assumes "can_list tid fs act"
  shows "find_all tid fs act db = (Inr (map_prod (map (task_detail_of db)) id
     (the_page (or_else (f_take fs) default_page_size)
       (after_cursor t_id (if truthy (f_cursor fs) then f_cursor fs else None) (find_all_rows tid fs act db)))), db)"
  using assms by (simp add: find_all_def can_list_def for_tenant_def Let_def the_page_def)

lemma find_all_rows_cursor [simp]:
  "find_all_rows tid (fs\<lparr>f_cursor := c\<rparr>) act db = find_all_rows tid fs act db"
proof -
  have "task_where tid (fs\<lparr>f_cursor := c\<rparr>) act = task_where tid fs act"
    by (rule ext) (simp add: task_where_def)
  then show ?thesis by (simp add: find_all_rows_def)
qed

lemma set_find_all_rows: "set (find_all_rows tid fs act db) = {t \<in> set (tasks db). task_where tid fs act t}"
  by (auto simp: find_all_rows_def task_order_def)

lemma distinct_find_all_rows:
  "distinct (map t_id (tasks db)) \<Longrightarrow> distinct (map t_id (find_all_rows tid fs act db))"
proof -
  assume "distinct (map t_id (tasks db))"
  then have "distinct (map t_id (filter (task_where tid fs act) (tasks db)))"
    by (rule distinct_map_filter)
  then show ?thesis
    unfolding find_all_rows_def task_order_def
    by (simp add: distinct_map_sort_key)
qed

lemma collect_pages_suffix:
  assumes "can_list tid fs act" and "or_else (f_take fs) default_page_size = Suc k"
    and "distinct (map t_id (find_all_rows tid fs act db))"
    and "\<forall>t \<in> set (tasks db). t_id t \<noteq> []"
    and "find_all_rows tid fs act db = seen @ rest"
    and "f_cursor fs = (if seen = [] then None else Some (t_id (last seen)))"
    and "length rest < n"
  shows "collect_pages n tid fs act db = map (task_detail_of db) rest"
  using assms
proof (induction n arbitrary: fs seen rest)
  case 0
  then show ?case by simp
next
  case (Suc n)
  have ids: "\<forall>t \<in> set seen. t_id t \<noteq> []"
    using Suc.prems(4,5) set_find_all_rows [of tid fs act db] by auto
  have after: "after_cursor t_id (if truthy (f_cursor fs) then f_cursor fs else None) (find_all_rows tid fs act db) = rest"
  proof (cases "seen = []")
    case True
    with Suc.prems show ?thesis by (simp add: after_cursor_def)
  next
    case False
    then obtain ds d where "seen = ds @ [d]" by (cases seen rule: rev_cases) auto
    with Suc.prems(3,5,6) ids after_cursor_split [of t_id ds d rest] show ?thesis by simp
  qed
  have one: "find_all tid fs act db = (Inr (map_prod (map (task_detail_of db)) id (the_page (Suc k) rest)), db)"
    by (simp only: find_all_ok [OF Suc.prems(1)] after Suc.prems(2))
  show ?case
  proof (cases "length rest < Suc k")
    case True
    then show ?thesis by (simp add: one the_page_def)
  next
    case False
    let ?now = "take (Suc k) rest"
    let ?fs = "fs\<lparr>f_cursor := Some (t_id (last ?now))\<rparr>"
    have ne: "?now \<noteq> []" using False by auto
    have "collect_pages n tid ?fs act db = map (task_detail_of db) (drop (Suc k) rest)"
      by (rule Suc.IH [where seen = "seen @ ?now"]) (use Suc.prems False ne in \<open>auto simp: can_list_def\<close>)
    moreover have "map (task_detail_of db) ?now @ map (task_detail_of db) (drop (Suc k) rest) = map (task_detail_of db) rest"
      by (simp flip: map_append)
    ultimately show ?thesis using False ne by (simp add: one the_page_def)
  qed
qed

text \<open>C2. Following nextCursor from the first page returns every visible task that passes the
  filters exactly once, in the listed order.\<close>
theorem pages_enumerate_tasks:
  assumes "can_list tid fs act" and "f_cursor fs = None" and "f_take fs \<noteq> Some 0"
    and "distinct (map t_id (tasks db))" and "\<forall>t \<in> set (tasks db). t_id t \<noteq> []"
    and "length (tasks db) < n"
  shows "collect_pages n tid fs act db = map (task_detail_of db) (find_all_rows tid fs act db)
    \<and> distinct (map t_id (find_all_rows tid fs act db))
    \<and> set (find_all_rows tid fs act db) = {t \<in> set (tasks db). task_where tid fs act t}"
proof -
  have "length (find_all_rows tid fs act db) \<le> length (tasks db)"
    by (simp add: find_all_rows_def task_order_def)
  moreover obtain k where "or_else (f_take fs) default_page_size = Suc k"
    using assms(3) by (cases "or_else (f_take fs) default_page_size")
      (auto simp: default_page_size_def or_else_def split: option.splits)
  ultimately show ?thesis
    using collect_pages_suffix [of tid fs act k db "[]" "find_all_rows tid fs act db" n]
      assms distinct_find_all_rows [of db tid fs act] set_find_all_rows [of tid fs act db]
    by simp
qed
lemma demo_close:
  "close_task demo_env demo_tenant ''t1'' None None demo_db
   = (Inr \<lparr>cr_taskId = ''t1'', cr_status = CLOSED, cr_alreadyClosed = False\<rparr>,
      snd (close_task demo_env demo_tenant ''t1'' None None demo_db))"
  by (simp add: close_task_def for_tenant_def close_tx_def update_rows_def close_where_def
      task_scope_def demo_defs)

theorem close_task_effect_witness:
  "\<exists>r db'. close_task demo_env demo_tenant ''t1'' None None demo_db = (Inr r, db')
     \<and> \<not> cr_alreadyClosed r \<and> (\<exists>row. outbox_events db' = [row] \<and> ob_eventName row = ''task.closed'')"
  using close_task_effect [OF demo_close] demo_close
  by (fastforce simp: demo_db_def empty_db_def)

theorem close_task_idempotent_witness:
  "\<exists>db'. close_task demo_env demo_tenant ''t1'' None None db' =
     (Inr \<lparr>cr_taskId = ''t1'', cr_status = CLOSED, cr_alreadyClosed = True\<rparr>, db')"
  using close_task_idempotent [OF demo_close, of demo_env None] by auto

definition demo_technician :: actor where
  "demo_technician = \<lparr>a_id = ''u2'', a_role = FIELD\<rparr>"

theorem technician_sees_missing_witness:
  "close_task demo_env demo_tenant ''t1'' None (Some demo_technician) demo_db
     = (Inl (NotFound ''Task not found''), demo_db)
   \<and> fst (find_one demo_tenant ''t1'' (Some demo_technician) demo_db) = Inl (NotFound ''Task not found'')"
  using technician_sees_missing [of demo_technician demo_tenant demo_db "''t1''" demo_env None]
  by (simp add: demo_technician_def demo_defs)

theorem close_moves_service_date_forward_witness:
  "\<exists>r db'. close_task demo_env demo_tenant ''t1'' None None demo_db = (Inr r, db')
     \<and> length (equipment db') = length (equipment demo_db)"
  using close_moves_service_date_forward [OF demo_close] demo_close
  by (auto simp: demo_defs dest: list_all2_lengthD)

theorem pages_enumerate_tasks_witness:
  "map td_task (collect_pages 3 demo_tenant no_filters None demo_db) = [demo_task]"
  using pages_enumerate_tasks [of demo_tenant no_filters None demo_db 3]
  by (simp add: can_list_def no_filters_def demo_defs find_all_rows_def task_order_def task_where_def
      task_detail_of_def task_scope_def)


lemma resolve_template_Inr:
  "resolve_template_defaults tid tmpl db = Inr (c, pr) \<longleftrightarrow>
     (\<not> truthy tmpl \<and> c = None \<and> pr = 2)
     \<or> (\<exists>j. truthy tmpl \<and> List.find (\<lambda>j. Some (jt_id j) = tmpl \<and> jt_tenantId j = tid) (job_type_templates db) = Some j
          \<and> c = Some (jt_defaultChecklist j) \<and> pr = jt_defaultPriority j)"
  by (auto simp: resolve_template_defaults_def split: option.splits)

lemma others_create_manual_tx:
  "create_manual_tx e tid p uid db = Inr (row, db') \<Longrightarrow> others tid db' = others tid db"
  by (auto simp: create_manual_tx_def others_task_create split: sum.splits option.splits)

lemma others_create_from_email_tx:
  "create_from_email_tx e tid p db = Inr (row, db') \<Longrightarrow> others tid db' = others tid db"
  by (auto simp: create_from_email_tx_def others_task_create split: sum.splits option.splits)

lemma task_audit_outbox [simp]:
  "outbox_events (task_audit tid uid a i m db) = outbox_events db"
  "customers (task_audit tid uid a i m db) = customers db"
  "id_ctr (task_audit tid uid a i m db) = id_ctr db"
  by (simp_all add: task_audit_def)

text \<open>A manual creation that succeeds adds one NEW unassigned task of the tenant with the
  template's priority and checklist, for a customer of the tenant, and one task.created event
  naming it.\<close>
theorem create_manual_effect:
  assumes "create_manual e tid p uid db = (Inr row, db')" and "mp_jobTypeTemplateId p \<noteq> []"
  shows "tasks db' = tasks db @ [row] \<and> t_tenantId row = tid \<and> t_status row = NEW \<and> t_source row = MANUAL
    \<and> t_assignedToUserId row = None \<and> t_title row = mp_title p
    \<and> (\<exists>c \<in> set (customers db). c_id c = t_customerId row \<and> c_tenantId c = tid)
    \<and> (\<exists>j \<in> set (job_type_templates db). Some (jt_id j) = t_jobTypeTemplateId row \<and> jt_tenantId j = tid
          \<and> t_priority row = jt_defaultPriority j
          \<and> t_checklist row = to_json_input (Some (jt_defaultChecklist j)))
    \<and> map (\<lambda>o'. (ob_eventName o', ob_payload o', ob_status o')) (outbox_events db')
        = map (\<lambda>o'. (ob_eventName o', ob_payload o', ob_status o')) (outbox_events db)
          @ [(''task.created'', task_payload tid (t_id row) (Some MANUAL), PENDING)]"
proof -
  from assms(1) have "create_manual_tx e tid p uid db = Inr (row, db')"
    by (simp add: create_manual_def for_tenant_Inr)
  then obtain c pr db1 t where
    "resolve_template_defaults tid (Some (mp_jobTypeTemplateId p)) db = Inr (c, pr)"
    "List.find (\<lambda>c. c_id c = mp_customerId p \<and> c_tenantId c = tid) (customers db) \<noteq> None"
    "task_create e (blank_task\<lparr>t_tenantId := tid, t_customerId := mp_customerId p,
                      t_jobTypeTemplateId := Some (mp_jobTypeTemplateId p), t_title := mp_title p,
                      t_description := mp_description p, t_source := MANUAL, t_priority := pr,
                      t_checklist := to_json_input c,
                      t_customFields := to_json_input (mp_customFields p)\<rparr>) db = Inr (row, db1)"
    "tasks db' = tasks db1"
    "outbox_events db' = outbox_events db1 @ [new_outbox_row e tid ''task.created'' (task_payload tid (t_id row) (Some MANUAL)) t]"
    by (auto simp: create_manual_tx_def split: sum.splits option.splits prod.splits)
  then show ?thesis
    using assms(2)
    by (auto simp: resolve_template_Inr task_create_row new_outbox_row_def blank_task_def dest!: find_SomeD task_createD)
qed

text \<open>A source email id creates at most one task per tenant: any later creation with the same
  id fails and leaves the database as it was.\<close>
theorem create_from_email_once:
  assumes "create_from_email e tid p db = (Inr row, db')" and "ep_sourceEmailId p' = ep_sourceEmailId p"
  shows "\<exists>err. create_from_email e' tid p' db' = (Inl err, db')"
proof -
  from assms(1) have "create_from_email_tx e tid p db = Inr (row, db')" "is_uuid tid"
    by (simp_all add: create_from_email_def for_tenant_Inr)
  then have row: "row \<in> set (tasks db')" "t_tenantId row = tid" "t_sourceEmailId row = Some (ep_sourceEmailId p)"
    by (auto simp: create_from_email_tx_def dest!: task_createD split: sum.splits prod.splits)
  then have "\<exists>err. create_from_email_tx e' tid p' db' = Inl err"
    using assms(2)
    by (fastforce simp: create_from_email_tx_def task_create_def blank_task_def split: sum.splits prod.splits)
  then show ?thesis by (auto simp: create_from_email_def for_tenant_def)
qed

definition demo_manual :: manual_params where
  "demo_manual = \<lparr>mp_customerId = ''c1'', mp_jobTypeTemplateId = ''j1'', mp_title = ''Fix'',
     mp_description = None, mp_customFields = None\<rparr>"

definition demo_email :: email_params where
  "demo_email = \<lparr>ep_customerId = ''c1'', ep_title = ''Fix'', ep_description = None,
     ep_sourceEmailId = ''m1'', ep_jobTypeTemplateId = None, ep_extractedFields = None, ep_priority = None\<rparr>"

lemma demo_create_manual:
  "\<exists>row db'. create_manual demo_env demo_tenant demo_manual None demo_db = (Inr row, db')"
  by (simp add: create_manual_def create_manual_tx_def for_tenant_Inr resolve_template_defaults_def
      task_create_def Let_def demo_manual_def demo_defs)

theorem create_manual_effect_witness:
  "\<exists>row db'. create_manual demo_env demo_tenant demo_manual None demo_db = (Inr row, db')
     \<and> tasks db' = [demo_task, row] \<and> t_priority row = 1"
proof -
  from demo_create_manual obtain row db' where
    run: "create_manual demo_env demo_tenant demo_manual None demo_db = (Inr row, db')" by blast
  have "mp_jobTypeTemplateId demo_manual \<noteq> []" by (simp add: demo_manual_def)
  from create_manual_effect [OF run this] run show ?thesis by (auto simp: demo_defs)
qed

theorem create_from_email_once_witness:
  "\<exists>row db' err. create_from_email demo_env demo_tenant demo_email demo_db = (Inr row, db')
     \<and> create_from_email demo_env demo_tenant demo_email db' = (Inl err, db')"
proof -
  have "\<exists>row db'. create_from_email demo_env demo_tenant demo_email demo_db = (Inr row, db')"
    by (simp add: create_from_email_def create_from_email_tx_def for_tenant_Inr resolve_template_defaults_def
      task_create_def Let_def demo_email_def demo_defs)
  then obtain row db' where
    run: "create_from_email demo_env demo_tenant demo_email demo_db = (Inr row, db')" by blast
  from create_from_email_once [OF run refl] run show ?thesis by blast
qed

section \<open>Tenant isolation\<close>

interpretation close_op: tenant_op tid "close_tx e tid taskId final act" for e tid taskId final act
  by unfold_locales (rule others_close_tx)

interpretation manual_op: tenant_op tid "create_manual_tx e tid p uid" for e tid p uid
  by unfold_locales (rule others_create_manual_tx)

interpretation email_op: tenant_op tid "create_from_email_tx e tid p" for e tid p
  by unfold_locales (rule others_create_from_email_tx)

lemma others_close_task: "others tid (snd (close_task e tid taskId final act db)) = others tid db"
  using close_op.isolated [of tid e taskId final act db]
  by (auto simp: close_task_def split: prod.splits sum.splits)

lemma others_create_manual: "others tid (snd (create_manual e tid p uid db)) = others tid db"
  unfolding create_manual_def by (rule manual_op.isolated)

lemma others_create_from_email: "others tid (snd (create_from_email e tid p db)) = others tid db"
  unfolding create_from_email_def by (rule email_op.isolated)

end
