(* ===== verification/Inventory.thy ===== *)
theory Inventory
  imports Tasks
begin

text \<open>
  modules/inventory/inventory.service.ts: what closing a task consumes, the atomic decrement
  that cannot go below zero, the manual operations, and the ledger of stock movements.
  The Postgres column is a 32-bit integer; a value cast to it out of range is an error.
\<close>

section \<open>What a checklist consumes\<close>

definition add_qty :: "(string \<times> int) list \<Rightarrow> string \<times> int \<Rightarrow> (string \<times> int) list" where
  "add_qty plan entry =
     (let (sku, qty) = entry
      in if sku \<in> set (map fst plan)
         then map (\<lambda>(s, q). if s = sku then (s, q + qty) else (s, q)) plan
         else plan @ [(sku, qty)])"

text \<open>One raw checklist entry: done, with a non-empty sku; a bad quantity counts as one.\<close>

definition plan_item :: "json \<Rightarrow> (string \<times> int) option" where
  "plan_item raw =
     (if jget ''done'' raw \<noteq> Some (JBool True) then None
      else case jstr_opt (jget ''sku'' raw) of
          None \<Rightarrow> None
        | Some sku \<Rightarrow>
            if sku = [] then None
            else Some (sku, case jint_opt (jget ''qty'' raw) of
                              None \<Rightarrow> 1
                            | Some q \<Rightarrow> if q > 0 then q else 1))"

definition consumption_plan :: "json option \<Rightarrow> (string \<times> int) list" where
  "consumption_plan checklist =
     (case checklist of
        Some (JArr raws) \<Rightarrow> foldl add_qty [] (List.map_filter plan_item raws)
      | _ \<Rightarrow> [])"

section \<open>The consumption of one task\<close>

definition int4 :: "int \<Rightarrow> bool" where
  "int4 i \<longleftrightarrow> - (2 ^ 31) \<le> i \<and> i < 2 ^ 31"

definition int4_error :: http_error where
  "int4_error = Thrown ''integer out of range''"

definition decrement_where :: "string \<Rightarrow> string \<Rightarrow> int \<Rightarrow> inventory_item \<Rightarrow> bool" where
  "decrement_where tid itemId qty i \<longleftrightarrow> ii_id i = itemId \<and> ii_tenantId i = tid \<and> qty \<le> ii_quantity i"

text \<open>The quantity and threshold of the updated row, None when no row was updated.\<close>

definition decrement_or_fail ::
  "string \<Rightarrow> string \<Rightarrow> int \<Rightarrow> (int \<times> int) option tx" where
  "decrement_or_fail tid itemId qty db =
     (if \<not> int4 qty then Inl int4_error
      else case List.find (decrement_where tid itemId qty) (inventory_items db) of
          None \<Rightarrow> Inr (None, db)
        | Some i \<Rightarrow>
            Inr (Some (ii_quantity i - qty, ii_lowStockThreshold i),
                 db\<lparr>inventory_items := snd (update_rows (decrement_where tid itemId qty)
                      (\<lambda>i. i\<lparr>ii_quantity := ii_quantity i - qty\<rparr>) (inventory_items db))\<rparr>))"

record low_stock_alert =
  ls_sku :: string
  ls_name :: string
  ls_quantity :: int

record consume_state =
  cs_db :: db
  cs_moves :: "stock_movement list"
  cs_alerts :: "low_stock_alert list"

definition consumption_row :: "string \<Rightarrow> string \<Rightarrow> string \<Rightarrow> int \<Rightarrow> int \<Rightarrow> stock_movement" where
  "consumption_row tid taskId itemId qty after =
     \<lparr>sm_tenantId = tid, sm_inventoryItemId = itemId, sm_delta = - qty, sm_quantityAfter = after,
      sm_reason = TASK_CONSUMPTION, sm_note = None, sm_taskId = Some taskId, sm_actorUserId = None\<rparr>"

definition consume_sku ::
  "string \<Rightarrow> string \<Rightarrow> inventory_item list \<Rightarrow> string list \<Rightarrow> string \<times> int
   \<Rightarrow> consume_state \<Rightarrow> http_error + consume_state" where
  "consume_sku tid taskId items recorded entry st =
     (let (sku, qty) = entry
      in case List.find (\<lambda>i. ii_sku i = sku) items of
           None \<Rightarrow> Inr st
         | Some item \<Rightarrow>
             if ii_id item \<in> set recorded then Inr st
             else case decrement_or_fail tid (ii_id item) qty (cs_db st) of
                 Inl err \<Rightarrow> Inl err
               | Inr (None, _) \<Rightarrow> Inl (Conflict ''Insufficient stock'')
               | Inr (Some (after, threshold), db1) \<Rightarrow>
                   Inr (st\<lparr>cs_db := db1,
                     cs_moves := cs_moves st @ [consumption_row tid taskId (ii_id item) qty after],
                     cs_alerts := cs_alerts st @
                       (if after \<le> threshold
                        then [\<lparr>ls_sku = sku, ls_name = ii_name item, ls_quantity = after\<rparr>] else [])\<rparr>))"

text \<open>\<open>@@unique([taskId, inventoryItemId, reason])\<close>; a NULL task id never collides.\<close>

definition same_movement_key :: "stock_movement \<Rightarrow> stock_movement \<Rightarrow> bool" where
  "same_movement_key m n \<longleftrightarrow> sm_taskId m \<noteq> None \<and> sm_taskId m = sm_taskId n
     \<and> sm_inventoryItemId m = sm_inventoryItemId n \<and> sm_reason m = sm_reason n"

fun movements_create_many :: "stock_movement list \<Rightarrow> db \<Rightarrow> http_error + db" where
  "movements_create_many [] db = Inr db"
| "movements_create_many (m # ms) db =
     (if list_ex (same_movement_key m) (stock_movements db) then Inl (PrismaKnown ''P2002'')
      else movements_create_many ms (db\<lparr>stock_movements := stock_movements db @ [m]\<rparr>))"

definition recorded_items :: "string \<Rightarrow> string \<Rightarrow> db \<Rightarrow> string list" where
  "recorded_items tid taskId db = map sm_inventoryItemId
     (filter (\<lambda>m. sm_tenantId m = tid \<and> sm_taskId m = Some taskId \<and> sm_reason m = TASK_CONSUMPTION)
       (stock_movements db))"

definition plan_items :: "string \<Rightarrow> (string \<times> int) list \<Rightarrow> db \<Rightarrow> inventory_item list" where
  "plan_items tid plan db =
     filter (\<lambda>i. ii_tenantId i = tid \<and> ii_sku i \<in> set (map fst plan)) (inventory_items db)"

definition consume_tx :: "string \<Rightarrow> string \<Rightarrow> low_stock_alert list tx" where
  "consume_tx tid taskId db =
     (case List.find (\<lambda>t. t_id t = taskId \<and> t_tenantId t = tid) (tasks db) of
        None \<Rightarrow> Inl (NotFound ''Task not found'')
      | Some task \<Rightarrow>
          (let plan = consumption_plan (t_checklist task)
           in if plan = [] then Inr ([], db)
              else case run_each
                     (consume_sku tid taskId (plan_items tid plan db) (recorded_items tid taskId db))
                     plan \<lparr>cs_db = db, cs_moves = [], cs_alerts = []\<rparr> of
                  Inl err \<Rightarrow> Inl err
                | Inr st \<Rightarrow>
                    (case movements_create_many (cs_moves st) (cs_db st) of
                       Inl err \<Rightarrow> Inl err
                     | Inr db1 \<Rightarrow> Inr (cs_alerts st, db1))))"

definition alert_json :: "low_stock_alert \<Rightarrow> json" where
  "alert_json a = JObj [(''sku'', JStr (ls_sku a)), (''name'', JStr (ls_name a)),
     (''quantity'', jint (ls_quantity a))]"

text \<open>After the commit, one outbox event per alert, each in a transaction of its own.\<close>

definition emit_alert :: "env \<Rightarrow> string \<Rightarrow> low_stock_alert \<Rightarrow> db \<Rightarrow> db" where
  "emit_alert e tid a db =
     snd (for_tenant tid (\<lambda>db. Inr ((), outbox_create e tid ''inventory.low_stock'' (alert_json a) db)) db)"

definition consume_for_task :: "env \<Rightarrow> string \<Rightarrow> string \<Rightarrow> unit svc" where
  "consume_for_task e tid taskId db =
     (case for_tenant tid (consume_tx tid taskId) db of
        (Inl err, db1) \<Rightarrow> (Inl err, db1)
      | (Inr alerts, db1) \<Rightarrow> (Inr (), fold (emit_alert e tid) alerts db1))"

text \<open>The handler logs whatever goes wrong and returns.\<close>

definition inventory_task_closed :: "env \<Rightarrow> string \<Rightarrow> string \<Rightarrow> unit svc" where
  "inventory_task_closed e tid taskId db =
     (case consume_for_task e tid taskId db of
        (Inl err, db1) \<Rightarrow> (Inr (), db1)
      | (Inr _, db1) \<Rightarrow> (Inr (), db1))"

section \<open>Queries\<close>

definition check_availability :: "string \<Rightarrow> string \<Rightarrow> int \<Rightarrow> (bool \<times> int) svc" where
  "check_availability tid sku requested db =
     for_tenant tid (\<lambda>db.
       case List.find (\<lambda>i. ii_tenantId i = tid \<and> ii_sku i = sku) (inventory_items db) of
         None \<Rightarrow> Inr ((False, 0), db)
       | Some i \<Rightarrow> Inr ((requested \<le> ii_quantity i, ii_quantity i), db)) db"

definition inventory_find_all ::
  "string \<Rightarrow> nat option \<Rightarrow> nat option \<Rightarrow> inventory_item list svc" where
  "inventory_find_all tid limit offset db =
     for_tenant tid (\<lambda>db. Inr (page (or_else limit 100) (or_else offset 0)
       (sort_key (\<lambda>i. (ii_name i, ii_id i)) (filter (\<lambda>i. ii_tenantId i = tid) (inventory_items db))), db)) db"

record stock_row =
  sr_id :: string
  sr_sku :: string
  sr_name :: string
  sr_quantity :: int
  sr_lowStockThreshold :: int

definition stock_row_of :: "inventory_item \<Rightarrow> stock_row" where
  "stock_row_of i = \<lparr>sr_id = ii_id i, sr_sku = ii_sku i, sr_name = ii_name i,
     sr_quantity = ii_quantity i, sr_lowStockThreshold = ii_lowStockThreshold i\<rparr>"

definition find_low_stock :: "string \<Rightarrow> nat option \<Rightarrow> nat option \<Rightarrow> stock_row list svc" where
  "find_low_stock tid limit offset db =
     for_tenant tid (\<lambda>db. Inr (map stock_row_of (page (or_else limit 100) (or_else offset 0)
       (sort_key (\<lambda>i. (ii_quantity i, ii_name i))
         (filter (\<lambda>i. ii_tenantId i = tid \<and> ii_isActive i \<and> ii_quantity i \<le> ii_lowStockThreshold i)
           (inventory_items db)))), db)) db"

section \<open>Manual operations\<close>

record create_item_dto =
  ci_sku' :: string
  ci_name :: string
  ci_quantity :: "int option"
  ci_lowStockThreshold :: "int option"
  ci_unitPrice :: "int option"
  ci_unitCost :: "int option"
  ci_category :: "string option"

definition manual_movement ::
  "string \<Rightarrow> string \<Rightarrow> int \<Rightarrow> int \<Rightarrow> stock_reason \<Rightarrow> string option \<Rightarrow> string option \<Rightarrow> stock_movement" where
  "manual_movement tid itemId delta after reason note uid =
     \<lparr>sm_tenantId = tid, sm_inventoryItemId = itemId, sm_delta = delta, sm_quantityAfter = after,
      sm_reason = reason, sm_note = note, sm_taskId = None, sm_actorUserId = uid\<rparr>"

definition add_movement :: "stock_movement \<Rightarrow> db \<Rightarrow> db" where
  "add_movement m db = db\<lparr>stock_movements := stock_movements db @ [m]\<rparr>"

definition item_row :: "env \<Rightarrow> string \<Rightarrow> create_item_dto \<Rightarrow> db \<Rightarrow> inventory_item" where
  "item_row e tid d db = \<lparr>ii_id = next_id e db, ii_tenantId = tid, ii_sku = ci_sku' d,
     ii_name = ci_name d, ii_quantity = or_else (ci_quantity d) 0,
     ii_lowStockThreshold = or_else (ci_lowStockThreshold d) 5, ii_unitPrice = ci_unitPrice d,
     ii_unitCost = ci_unitCost d, ii_category = ci_category d, ii_isActive = True\<rparr>"

definition inventory_create ::
  "env \<Rightarrow> string \<Rightarrow> create_item_dto \<Rightarrow> string option \<Rightarrow> inventory_item svc" where
  "inventory_create e tid d uid db =
     for_tenant tid (\<lambda>db.
       if list_ex (\<lambda>i. ii_tenantId i = tid \<and> ii_sku i = ci_sku' d) (inventory_items db)
       then Inl (BadRequest ''SKU already exists for this tenant'')
       else let item = item_row e tid d db;
                db1 = (bump_id db)\<lparr>inventory_items := inventory_items db @ [item]\<rparr>
            in Inr (item,
                 if ii_quantity item \<noteq> 0
                 then add_movement (manual_movement tid (ii_id item) (ii_quantity item)
                        (ii_quantity item) RESTOCK (Some ''initial stock'') uid) db1
                 else db1)) db"

definition adjust_where :: "string \<Rightarrow> string \<Rightarrow> int \<Rightarrow> inventory_item \<Rightarrow> bool" where
  "adjust_where tid itemId delta i \<longleftrightarrow>
     ii_id i = itemId \<and> ii_tenantId i = tid \<and> 0 \<le> ii_quantity i + delta"

definition adjust_tx ::
  "string \<Rightarrow> string \<Rightarrow> int \<Rightarrow> string option \<Rightarrow> string option \<Rightarrow> stock_row tx" where
  "adjust_tx tid itemId delta note uid db =
     (if \<not> int4 delta
         \<or> list_ex (\<lambda>i. ii_id i = itemId \<and> ii_tenantId i = tid \<and> \<not> int4 (ii_quantity i + delta)) (inventory_items db)
      then Inl int4_error
      else case List.find (adjust_where tid itemId delta) (inventory_items db) of
          None \<Rightarrow>
            (if list_ex (\<lambda>i. ii_id i = itemId \<and> ii_tenantId i = tid) (inventory_items db)
             then Inl (Conflict ''Adjustment would take quantity below zero'')
             else Inl (NotFound ''Inventory item not found for this tenant''))
        | Some i \<Rightarrow>
            (let i' = i\<lparr>ii_quantity := ii_quantity i + delta\<rparr>
             in Inr (stock_row_of i',
                  add_movement (manual_movement tid (ii_id i) delta (ii_quantity i')
                      (if delta > 0 then RESTOCK else MANUAL_ADJUSTMENT) note uid)
                    (db\<lparr>inventory_items := snd (update_rows (adjust_where tid itemId delta)
                        (\<lambda>i. i\<lparr>ii_quantity := ii_quantity i + delta\<rparr>) (inventory_items db))\<rparr>))))"

definition adjust_quantity ::
  "string \<Rightarrow> string \<Rightarrow> int \<Rightarrow> string option \<Rightarrow> string option \<Rightarrow> stock_row svc" where
  "adjust_quantity tid itemId delta note uid db = for_tenant tid (adjust_tx tid itemId delta note uid) db"

text \<open>The UPDATE names only the id; the row-level policy keeps it inside the tenant.\<close>

definition set_cost ::
  "string \<Rightarrow> string \<Rightarrow> int option \<Rightarrow> string option \<Rightarrow> (string \<times> string \<times> string \<times> int option) svc" where
  "set_cost tid itemId cost uid db =
     for_tenant tid (\<lambda>db.
       case List.find (\<lambda>i. ii_id i = itemId \<and> ii_tenantId i = tid) (inventory_items db) of
         None \<Rightarrow> Inl (NotFound ''Inventory item not found'')
       | Some i \<Rightarrow>
           Inr ((ii_id i, ii_sku i, ii_name i, cost),
             audit_create \<lparr>al_tenantId = tid, al_userId = uid, al_action = ''inventory.cost_set'',
                al_entityType = ''InventoryItem'', al_entityId = itemId,
                al_metadata = Some (JObj [(''from'', jopt (map_option decimal_text (ii_unitCost i))),
                                          (''to'', jopt (map_option decimal_text cost))])\<rparr>
               (db\<lparr>inventory_items := snd (update_rows (\<lambda>i. ii_id i = itemId \<and> ii_tenantId i = tid)
                   (\<lambda>i. i\<lparr>ii_unitCost := cost\<rparr>) (inventory_items db))\<rparr>))) db"

section \<open>The plan\<close>

definition plan_total :: "string \<Rightarrow> (string \<times> int) list \<Rightarrow> int" where
  "plan_total sku xs = sum_list (map snd (filter (\<lambda>x. fst x = sku) xs))"

lemma map_of_bump:
  "map_of (map (\<lambda>(s, q). if s = k then (s, q + d) else (s, q)) plan) x =
     (if x = k then map_option (\<lambda>q. q + d) (map_of plan x) else map_of plan x)"
  by (induction plan) auto

lemma map_of_add_qty:
  "map_of (add_qty plan (s, q)) x =
     (if x = s then Some (or_else (map_of plan s) 0 + q) else map_of plan x)"
proof (cases "s \<in> set (map fst plan)")
  case True
  then obtain v where "map_of plan s = Some v" by (metis map_of_eq_None_iff not_None_eq set_map)
  with True show ?thesis by (simp add: add_qty_def map_of_bump)
next
  case False
  then have "map_of plan s = None" by (simp add: map_of_eq_None_iff)
  with False show ?thesis by (auto simp: add_qty_def map_of_append map_add_def split: option.splits)
qed

lemma keys_add_qty:
  "distinct (map fst plan) \<Longrightarrow> distinct (map fst (add_qty plan x))"
proof -
  assume "distinct (map fst plan)"
  moreover have "map fst (map (\<lambda>(s, q). if s = k then (s, q + d) else (s, q)) plan) = map fst plan" for k d
    by (induction plan) auto
  ultimately show ?thesis by (cases x) (simp add: add_qty_def del: map_map)
qed

lemma foldl_add_qty:
  "map_of (foldl add_qty plan xs) sku =
     (if map_of plan sku = None \<and> sku \<notin> set (map fst xs) then None
      else Some (or_else (map_of plan sku) 0 + plan_total sku xs))"
  by (induction xs arbitrary: plan) (auto simp: plan_total_def map_of_add_qty)

lemma keys_foldl_add_qty:
  "distinct (map fst plan) \<Longrightarrow> distinct (map fst (foldl add_qty plan xs))"
  by (induction xs arbitrary: plan) (simp_all add: keys_add_qty)

lemma plan_item_pos: "plan_item raw = Some (s, q) \<Longrightarrow> 0 < q \<and> s \<noteq> []"
  by (auto simp: plan_item_def split: option.splits if_splits)

lemma sum_list_pos_of: "xs \<noteq> [] \<Longrightarrow> (\<And>x. x \<in> set xs \<Longrightarrow> (0::int) < x) \<Longrightarrow> 0 < sum_list xs"
  by (induction xs) (auto simp: add_pos_nonneg sum_list_nonneg less_imp_le)

lemma consumption_plan_aux:
  "map_of (consumption_plan (Some (JArr raws))) s =
      (if s \<notin> set (map fst (List.map_filter plan_item raws)) then None
       else Some (plan_total s (List.map_filter plan_item raws)))"
  by (simp add: consumption_plan_def foldl_add_qty)

lemma consumption_plan_keys: "distinct (map fst (consumption_plan (Some (JArr raws))))"
  by (simp add: consumption_plan_def keys_foldl_add_qty)

lemma consumption_plan_positive:
  assumes "(s, q) \<in> set (consumption_plan (Some (JArr raws)))"
  shows "0 < q"
proof -
  let ?xs = "List.map_filter plan_item raws"
  from assms consumption_plan_keys have "map_of (consumption_plan (Some (JArr raws))) s = Some q" by simp
  with consumption_plan_aux have s: "s \<in> set (map fst ?xs)" and q: "q = plan_total s ?xs" by (auto split: if_splits)
  have pos: "\<And>x. x \<in> set ?xs \<Longrightarrow> 0 < snd x"
    by (auto simp: map_filter_def dest: plan_item_pos)
  show "0 < q" unfolding q plan_total_def
    by (rule sum_list_pos_of) (use s pos in \<open>auto simp: filter_empty_conv\<close>)
qed

text \<open>The consumption plan of a checklist has one entry per sku, with the sum of the
  quantities of the done items that name it, every quantity positive.\<close>
theorem consumption_plan_totals:
  shows "distinct (map fst (consumption_plan (Some (JArr raws))))
    \<and> map_of (consumption_plan (Some (JArr raws))) sku =
        (let wanted = filter (\<lambda>x. fst x = sku) (List.map_filter plan_item raws)
         in if wanted = [] then None else Some (sum_list (map snd wanted)))
    \<and> list_all (\<lambda>(s, q). 0 < q) (consumption_plan (Some (JArr raws)))"
proof (intro conjI)
  show "map_of (consumption_plan (Some (JArr raws))) sku =
        (let wanted = filter (\<lambda>x. fst x = sku) (List.map_filter plan_item raws)
         in if wanted = [] then None else Some (sum_list (map snd wanted)))"
    by (auto simp: consumption_plan_aux plan_total_def Let_def filter_empty_conv image_iff)
qed (use consumption_plan_keys consumption_plan_positive in \<open>auto simp: list_all_iff\<close>)

section \<open>The ledger\<close>

definition ledger :: "string \<Rightarrow> stock_movement list \<Rightarrow> int" where
  "ledger itemId ms = sum_list (map sm_delta (filter (\<lambda>m. sm_inventoryItemId m = itemId) ms))"

lemma ledger_append [simp]:
  "ledger i (ms @ ns) = ledger i ms + ledger i ns" "ledger i [] = 0"
  "ledger i [m] = (if sm_inventoryItemId m = i then sm_delta m else 0)"
  by (simp_all add: ledger_def)

definition stock_ok :: "inventory_item list \<Rightarrow> stock_movement list \<Rightarrow> bool" where
  "stock_ok items moves \<longleftrightarrow>
     distinct (map ii_id items)
     \<and> (\<forall>i \<in> set items. 0 \<le> ii_quantity i \<and> ii_quantity i = ledger (ii_id i) moves)
     \<and> (\<forall>m \<in> set moves. sm_inventoryItemId m \<in> ii_id ` set items)"

lemma stock_ok_apply:
  assumes ok: "stock_ok items moves" and x: "x \<in> set items" "P x" "0 \<le> ii_quantity x + d"
    and P: "\<And>i. i \<in> set items \<Longrightarrow> P i \<Longrightarrow> ii_id i = ii_id x"
    and m: "sm_inventoryItemId m = ii_id x" "sm_delta m = d"
  shows "stock_ok (snd (update_rows P (\<lambda>i. i\<lparr>ii_quantity := ii_quantity i + d\<rparr>) items)) (moves @ [m])"
proof -
  from ok have dist: "distinct (map ii_id items)" by (simp add: stock_ok_def)
  have only: "i = x" if "i \<in> set items" "ii_id i = ii_id x" for i
    using distinct_map_eq [OF dist that(1) x(1)] that(2) by simp
  have ids: "map ii_id (snd (update_rows P (\<lambda>i. i\<lparr>ii_quantity := ii_quantity i + d\<rparr>) items)) = map ii_id items"
    by (rule map_update_rows) simp
  have ids': "ii_id ` set (snd (update_rows P (\<lambda>i. i\<lparr>ii_quantity := ii_quantity i + d\<rparr>) items)) = ii_id ` set items"
    by (metis ids list.set_map)
  from ok x(1) have q: "ii_quantity x = ledger (ii_id x) moves" by (simp add: stock_ok_def)
  have row: "0 \<le> ii_quantity i \<and> ii_quantity i = ledger (ii_id i) (moves @ [m])"
    if "i \<in> set (snd (update_rows P (\<lambda>i. i\<lparr>ii_quantity := ii_quantity i + d\<rparr>) items))" for i
  proof -
    from that consider (upd) j where "j \<in> set items" "P j" "i = j\<lparr>ii_quantity := ii_quantity j + d\<rparr>"
      | (same) "i \<in> set items" "\<not> P i" by (auto simp: set_update_rows)
    then show ?thesis
    proof cases
      case upd
      with P only have "j = x" by blast
      with upd(3) x(3) q m show ?thesis by simp
    next
      case same
      with x(2) only have "ii_id i \<noteq> ii_id x" by blast
      moreover from same(1) ok have "0 \<le> ii_quantity i" "ii_quantity i = ledger (ii_id i) moves"
        by (auto simp: stock_ok_def)
      ultimately show ?thesis using m by simp
    qed
  qed
  from ok m x(1) have mv: "\<forall>n \<in> set (moves @ [m]). sm_inventoryItemId n \<in> ii_id ` set items"
    by (auto simp: stock_ok_def)
  show ?thesis
    unfolding stock_ok_def ids ids' using dist row mv by blast
qed

lemma decrement_stock_ok:
  assumes "decrement_or_fail tid itemId qty db = Inr (Some (after, thr), db')"
    and "stock_ok (inventory_items db) moves"
    and "sm_inventoryItemId m = itemId" "sm_delta m = - qty"
  shows "stock_ok (inventory_items db') (moves @ [m])"
    and "\<exists>items. db' = db\<lparr>inventory_items := items\<rparr>"
proof -
  from assms(1) obtain x where x: "x \<in> set (inventory_items db)" "decrement_where tid itemId qty x"
    and db': "db' = db\<lparr>inventory_items := snd (update_rows (decrement_where tid itemId qty)
                      (\<lambda>i. i\<lparr>ii_quantity := ii_quantity i - qty\<rparr>) (inventory_items db))\<rparr>"
    by (auto simp: decrement_or_fail_def split: if_splits option.splits dest!: find_SomeD)
  then show "\<exists>items. db' = db\<lparr>inventory_items := items\<rparr>" by blast
  have "stock_ok (snd (update_rows (decrement_where tid itemId qty)
      (\<lambda>i. i\<lparr>ii_quantity := ii_quantity i + - qty\<rparr>) (inventory_items db))) (moves @ [m])"
    by (rule stock_ok_apply [where x = x, OF assms(2)]) (use x assms(3,4) in \<open>auto simp: decrement_where_def\<close>)
  with db' show "stock_ok (inventory_items db') (moves @ [m])" by simp
qed

lemma consume_sku_cases:
  assumes "consume_sku tid taskId items recorded (sku, qty) st = Inr st'"
  obtains (skip) "st' = st"
      "List.find (\<lambda>i. ii_sku i = sku) items = None
       \<or> (\<exists>i. List.find (\<lambda>i. ii_sku i = sku) items = Some i \<and> ii_id i \<in> set recorded)"
  | (take) item after thr where
      "List.find (\<lambda>i. ii_sku i = sku) items = Some item" "ii_id item \<notin> set recorded"
      "decrement_or_fail tid (ii_id item) qty (cs_db st) = Inr (Some (after, thr), cs_db st')"
      "cs_moves st' = cs_moves st @ [consumption_row tid taskId (ii_id item) qty after]"
proof (cases "List.find (\<lambda>i. ii_sku i = sku) items")
  case None
  with assms show thesis by (intro skip) (auto simp: consume_sku_def)
next
  case (Some item)
  show thesis
  proof (cases "ii_id item \<in> set recorded")
    case True
    with assms Some show thesis by (intro skip) (auto simp: consume_sku_def)
  next
    case False
    with assms Some obtain after thr db1 where d: "decrement_or_fail tid (ii_id item) qty (cs_db st) = Inr (Some (after, thr), db1)"
      by (auto simp: consume_sku_def split: sum.splits option.splits)
    with assms Some False show thesis by (intro take [OF Some False]) (auto simp: consume_sku_def)
  qed
qed

lemma consume_sku_stock_ok:
  assumes "consume_sku tid taskId items recorded x st = Inr st'"
    and "stock_ok (inventory_items (cs_db st)) (moves @ cs_moves st)"
  shows "stock_ok (inventory_items (cs_db st')) (moves @ cs_moves st')"
proof -
  obtain sku qty where x: "x = (sku, qty)" by (cases x)
  show ?thesis
    using assms(1) unfolding x
  proof (cases rule: consume_sku_cases)
    case skip
    with assms(2) show ?thesis by simp
  next
    case (take item after thr)
    from decrement_stock_ok(1) [OF take(3) assms(2), of "consumption_row tid taskId (ii_id item) qty after"] take(4)
    show ?thesis by (simp add: consumption_row_def)
  qed
qed

lemma movements_create_many_Inr:
  "movements_create_many ms db = Inr db' \<Longrightarrow> db' = db\<lparr>stock_movements := stock_movements db @ ms\<rparr>"
proof (induction ms arbitrary: db)
  case Nil
  then show ?case by simp
next
  case (Cons m ms)
  from Cons.prems Cons.IH [of "db\<lparr>stock_movements := stock_movements db @ [m]\<rparr>"] show ?case
    by (auto split: if_splits)
qed

text \<open>What the loop may change: quantities of the tenant's items, and the pending rows.\<close>

definition no_quantity :: "inventory_item \<Rightarrow> inventory_item" where
  "no_quantity i = i\<lparr>ii_quantity := 0\<rparr>"

lemma no_quantity_simps [simp]:
  "ii_id (no_quantity i) = ii_id i" "ii_sku (no_quantity i) = ii_sku i"
  "ii_tenantId (no_quantity i) = ii_tenantId i" "ii_name (no_quantity i) = ii_name i"
  "no_quantity (i\<lparr>ii_quantity := q\<rparr>) = no_quantity i"
  by (simp_all add: no_quantity_def)

lemma find_no_quantity:
  assumes "map no_quantity xs = map no_quantity ys" and "\<And>i. P (no_quantity i) = P i"
  shows "map_option no_quantity (List.find P xs) = map_option no_quantity (List.find P ys)"
    and "map no_quantity (filter P xs) = map no_quantity (filter P ys)"
proof -
  have "map_option no_quantity (List.find P zs) = List.find P (map no_quantity zs)" for zs
    using assms(2) by (induction zs) auto
  then show "map_option no_quantity (List.find P xs) = map_option no_quantity (List.find P ys)"
    using assms(1) by simp
  have "map no_quantity (filter P zs) = filter P (map no_quantity zs)" for zs
    using assms(2) by (induction zs) auto
  then show "map no_quantity (filter P xs) = map no_quantity (filter P ys)"
    using assms(1) by simp
qed

definition consume_frame :: "string \<Rightarrow> string \<Rightarrow> db \<Rightarrow> consume_state \<Rightarrow> bool" where
  "consume_frame tid taskId db st \<longleftrightarrow>
     (\<exists>its. cs_db st = db\<lparr>inventory_items := its\<rparr>
        \<and> map no_quantity its = map no_quantity (inventory_items db)
        \<and> filter (\<lambda>i. ii_tenantId i \<noteq> tid) its = filter (\<lambda>i. ii_tenantId i \<noteq> tid) (inventory_items db))
     \<and> (\<forall>m \<in> set (cs_moves st). sm_tenantId m = tid \<and> sm_taskId m = Some taskId \<and> sm_reason m = TASK_CONSUMPTION)"

lemma consume_sku_frame:
  assumes "consume_sku tid taskId items recorded x st = Inr st'" and "consume_frame tid taskId db st"
  shows "consume_frame tid taskId db st'"
proof -
  obtain sku qty where x: "x = (sku, qty)" by (cases x)
  show ?thesis
    using assms(1) unfolding x
  proof (cases rule: consume_sku_cases)
    case skip
    with assms(2) show ?thesis by simp
  next
    case (take item after thr)
    from assms(2) obtain its where its: "cs_db st = db\<lparr>inventory_items := its\<rparr>"
        "map no_quantity its = map no_quantity (inventory_items db)"
        "filter (\<lambda>i. ii_tenantId i \<noteq> tid) its = filter (\<lambda>i. ii_tenantId i \<noteq> tid) (inventory_items db)"
      by (auto simp: consume_frame_def)
    let ?its = "snd (update_rows (decrement_where tid (ii_id item) qty) (\<lambda>i. i\<lparr>ii_quantity := ii_quantity i - qty\<rparr>) its)"
    from take(3) its(1) have "cs_db st' = db\<lparr>inventory_items := ?its\<rparr>"
      by (auto simp: decrement_or_fail_def split: if_splits option.splits)
    moreover have "map no_quantity ?its = map no_quantity its"
      by (rule map_update_rows) simp
    moreover have "filter (\<lambda>i. ii_tenantId i \<noteq> tid) ?its = filter (\<lambda>i. ii_tenantId i \<noteq> tid) its"
      by (rule filter_update_rows) (simp add: decrement_where_def)
    ultimately show ?thesis
      using assms(2) its take(4) by (auto simp: consume_frame_def consumption_row_def)
  qed
qed

section \<open>The planned movements\<close>

definition planned :: "string \<Rightarrow> string \<Rightarrow> json option \<Rightarrow> db \<Rightarrow> (string \<times> int) list" where
  "planned tid taskId checklist db =
     (let plan = consumption_plan checklist
      in List.map_filter (\<lambda>(sku, qty).
           case List.find (\<lambda>i. ii_sku i = sku) (plan_items tid plan db) of
             None \<Rightarrow> None
           | Some i \<Rightarrow> if ii_id i \<in> set (recorded_items tid taskId db) then None else Some (ii_id i, - qty)) plan)"

definition move_delta :: "stock_movement \<Rightarrow> string \<times> int" where
  "move_delta m = (sm_inventoryItemId m, sm_delta m)"

lemma run_each_moves:
  assumes "run_each (consume_sku tid taskId items recorded) plan st = Inr st'"
  shows "map move_delta (cs_moves st') = map move_delta (cs_moves st) @
    List.map_filter (\<lambda>(sku, qty). case List.find (\<lambda>i. ii_sku i = sku) items of
        None \<Rightarrow> None | Some i \<Rightarrow> if ii_id i \<in> set recorded then None else Some (ii_id i, - qty)) plan"
  using assms
proof (induction plan arbitrary: st)
  case Nil
  then show ?case by (simp add: map_filter_def)
next
  case (Cons x plan)
  obtain sku qty where x: "x = (sku, qty)" by (cases x)
  from Cons.prems obtain t where t: "consume_sku tid taskId items recorded (sku, qty) st = Inr t"
    "run_each (consume_sku tid taskId items recorded) plan t = Inr st'"
    by (auto simp: x split: sum.splits)
  from t(1) show ?case
  proof (cases rule: consume_sku_cases)
    case skip
    with Cons.IH [OF t(2)] x show ?thesis by (auto simp: List.map_filter_simps)
  next
    case (take item after thr)
    with Cons.IH [OF t(2)] x show ?thesis
      by (simp add: List.map_filter_simps move_delta_def consumption_row_def)
  qed
qed

lemma consume_tx_Inr:
  assumes "consume_tx tid taskId db = Inr (alerts, db')"
  obtains task st where "List.find (\<lambda>t. t_id t = taskId \<and> t_tenantId t = tid) (tasks db) = Some task"
    "run_each (consume_sku tid taskId (plan_items tid (consumption_plan (t_checklist task)) db) (recorded_items tid taskId db))
       (consumption_plan (t_checklist task)) \<lparr>cs_db = db, cs_moves = [], cs_alerts = []\<rparr> = Inr st"
    "db' = (cs_db st)\<lparr>stock_movements := stock_movements (cs_db st) @ cs_moves st\<rparr>"
    "alerts = cs_alerts st"
proof -
  from assms obtain task where task: "List.find (\<lambda>t. t_id t = taskId \<and> t_tenantId t = tid) (tasks db) = Some task"
    by (auto simp: consume_tx_def split: option.splits)
  show thesis
  proof (cases "consumption_plan (t_checklist task) = []")
    case True
    with assms task show thesis
      by (intro that [OF task, of "\<lparr>cs_db = db, cs_moves = [], cs_alerts = []\<rparr>"])
        (auto simp: consume_tx_def)
  next
    case False
    with assms task show thesis
      by (auto simp: consume_tx_def Let_def split: sum.splits dest!: movements_create_many_Inr
          intro!: that [OF task])
  qed
qed

lemma run_each_frame:
  assumes "run_each (consume_sku tid taskId items recorded) plan \<lparr>cs_db = db, cs_moves = [], cs_alerts = []\<rparr> = Inr st"
  shows "consume_frame tid taskId db st"
  by (rule run_each_invariant [where I = "consume_frame tid taskId db", OF assms _ consume_sku_frame])
    (auto simp: consume_frame_def intro: exI [of _ "inventory_items db"])

lemma ledger_move_delta:
  "ledger i ms = sum_list (map snd (filter (\<lambda>x. fst x = i) (map move_delta ms)))"
  by (induction ms) (auto simp: ledger_def move_delta_def)

lemma consume_tx_exact:
  assumes "consume_tx tid taskId db = Inr (alerts, db')"
  obtains its ms task where
    "db' = db\<lparr>inventory_items := its, stock_movements := stock_movements db @ ms\<rparr>"
    "List.find (\<lambda>t. t_id t = taskId \<and> t_tenantId t = tid) (tasks db) = Some task"
    "map move_delta ms = planned tid taskId (t_checklist task) db"
    "\<forall>m \<in> set ms. sm_tenantId m = tid \<and> sm_taskId m = Some taskId \<and> sm_reason m = TASK_CONSUMPTION"
    "map no_quantity its = map no_quantity (inventory_items db)"
    "filter (\<lambda>i. ii_tenantId i \<noteq> tid) its = filter (\<lambda>i. ii_tenantId i \<noteq> tid) (inventory_items db)"
    "stock_ok (inventory_items db) (stock_movements db) \<longrightarrow> stock_ok its (stock_movements db @ ms)"
proof -
  from assms obtain task st where task: "List.find (\<lambda>t. t_id t = taskId \<and> t_tenantId t = tid) (tasks db) = Some task"
    and run: "run_each (consume_sku tid taskId (plan_items tid (consumption_plan (t_checklist task)) db) (recorded_items tid taskId db))
       (consumption_plan (t_checklist task)) \<lparr>cs_db = db, cs_moves = [], cs_alerts = []\<rparr> = Inr st"
    and db': "db' = (cs_db st)\<lparr>stock_movements := stock_movements (cs_db st) @ cs_moves st\<rparr>"
    by (rule consume_tx_Inr)
  from run_each_frame [OF run] obtain its where its: "cs_db st = db\<lparr>inventory_items := its\<rparr>"
        "map no_quantity its = map no_quantity (inventory_items db)"
        "filter (\<lambda>i. ii_tenantId i \<noteq> tid) its = filter (\<lambda>i. ii_tenantId i \<noteq> tid) (inventory_items db)"
    and ms: "\<forall>m \<in> set (cs_moves st). sm_tenantId m = tid \<and> sm_taskId m = Some taskId \<and> sm_reason m = TASK_CONSUMPTION"
    by (auto simp: consume_frame_def)
  have deltas: "map move_delta (cs_moves st) = planned tid taskId (t_checklist task) db"
    using run_each_moves [OF run] by (simp add: planned_def Let_def)
  have ok: "stock_ok its (stock_movements db @ cs_moves st)" if "stock_ok (inventory_items db) (stock_movements db)"
  proof -
    have "stock_ok (inventory_items (cs_db st)) (stock_movements db @ cs_moves st)"
      by (rule run_each_invariant [where I = "\<lambda>st. stock_ok (inventory_items (cs_db st)) (stock_movements db @ cs_moves st)", OF run])
        (use that consume_sku_stock_ok in auto)
    with its(1) show ?thesis by simp
  qed
  from db' its(1) have "db' = db\<lparr>inventory_items := its, stock_movements := stock_movements db @ cs_moves st\<rparr>"
    by simp
  from that [OF this task deltas ms its(2,3)] ok show thesis by blast
qed

lemma others_consume_tx:
  assumes "consume_tx tid taskId db = Inr (alerts, db')"
  shows "others tid db' = others tid db"
  using assms by (rule consume_tx_exact) (auto simp: others_def)

lemma emit_alert_frame [simp]:
  "inventory_items (emit_alert e tid a db) = inventory_items db"
  "stock_movements (emit_alert e tid a db) = stock_movements db"
  "tasks (emit_alert e tid a db) = tasks db"
  "others tid (emit_alert e tid a db) = others tid db"
  by (simp_all add: emit_alert_def for_tenant_def)

lemma fold_emit_frame [simp]:
  "inventory_items (fold (emit_alert e tid) as db) = inventory_items db"
  "stock_movements (fold (emit_alert e tid) as db) = stock_movements db"
  "tasks (fold (emit_alert e tid) as db) = tasks db"
  "others tid (fold (emit_alert e tid) as db) = others tid db"
  by (induction as arbitrary: db) simp_all

lemma inventory_task_closed_cases:
  assumes "inventory_task_closed e tid taskId db = (r, db')"
  obtains (failed) err where "db' = db" "for_tenant tid (consume_tx tid taskId) db = (Inl err, db)"
  | (ran) alerts db1 where "is_uuid tid" "consume_tx tid taskId db = Inr (alerts, db1)"
      "db' = fold (emit_alert e tid) alerts db1"
proof (cases "for_tenant tid (consume_tx tid taskId) db")
  case (Pair r1 db1)
  show thesis
  proof (cases r1)
    case (Inl err)
    with Pair for_tenant_error [of tid "consume_tx tid taskId" db err] have "db1 = db" by simp
    with assms Pair Inl show thesis
      by (intro failed [of err]) (simp_all add: inventory_task_closed_def consume_for_task_def)
  next
    case (Inr alerts)
    with Pair have "is_uuid tid" "consume_tx tid taskId db = Inr (alerts, db1)"
      by (simp_all add: for_tenant_Inr)
    with assms Pair Inr show thesis
      by (intro ran) (auto simp: inventory_task_closed_def consume_for_task_def)
  qed
qed

lemma task_closed_consumes_exactly_aux:
  assumes "inventory_task_closed e tid taskId db = (Inr (), db')"
    and "stock_ok (inventory_items db) (stock_movements db)"
  shows "db' = db \<or>
    (\<exists>task ms. List.find (\<lambda>t. t_id t = taskId \<and> t_tenantId t = tid) (tasks db) = Some task
       \<and> stock_movements db' = stock_movements db @ ms
       \<and> map move_delta ms = planned tid taskId (t_checklist task) db
       \<and> stock_ok (inventory_items db') (stock_movements db')
       \<and> ii_id ` set (inventory_items db') = ii_id ` set (inventory_items db)
       \<and> (\<forall>i' \<in> set (inventory_items db'). \<exists>i \<in> set (inventory_items db). ii_id i = ii_id i'
            \<and> ii_quantity i' = ii_quantity i
                + sum_list (map snd (filter (\<lambda>x. fst x = ii_id i) (planned tid taskId (t_checklist task) db)))))"
  using assms(1)
proof (cases rule: inventory_task_closed_cases)
  case failed
  then show ?thesis by simp
next
  case (ran alerts db1)
  from ran(2) obtain its ms task where
    1: "db1 = db\<lparr>inventory_items := its, stock_movements := stock_movements db @ ms\<rparr>"
    "List.find (\<lambda>t. t_id t = taskId \<and> t_tenantId t = tid) (tasks db) = Some task"
    "map move_delta ms = planned tid taskId (t_checklist task) db"
    "\<forall>m \<in> set ms. sm_tenantId m = tid \<and> sm_taskId m = Some taskId \<and> sm_reason m = TASK_CONSUMPTION"
    "map no_quantity its = map no_quantity (inventory_items db)"
    "filter (\<lambda>i. ii_tenantId i \<noteq> tid) its = filter (\<lambda>i. ii_tenantId i \<noteq> tid) (inventory_items db)"
    "stock_ok (inventory_items db) (stock_movements db) \<longrightarrow> stock_ok its (stock_movements db @ ms)"
    by (rule consume_tx_exact)
  note ok = 1(7) [rule_format, OF assms(2)]
  have "\<exists>i \<in> set (inventory_items db). ii_id i = ii_id i' \<and> ii_quantity i' = ii_quantity i
      + sum_list (map snd (filter (\<lambda>x. fst x = ii_id i) (planned tid taskId (t_checklist task) db)))"
    if "i' \<in> set its" for i'
  proof -
    have "no_quantity i' \<in> set (map no_quantity (inventory_items db))"
      using that 1(5) by (metis image_eqI list.set_map)
    then obtain i where i: "i \<in> set (inventory_items db)" "no_quantity i = no_quantity i'" by auto
    then have id: "ii_id i = ii_id i'" by (metis no_quantity_simps(1))
    have "ii_quantity i' = ledger (ii_id i') (stock_movements db @ ms)"
      using that ok by (simp add: stock_ok_def)
    moreover have "ii_quantity i = ledger (ii_id i) (stock_movements db)"
      using i(1) assms(2) by (simp add: stock_ok_def)
    ultimately show ?thesis using i(1) id by (auto simp: ledger_move_delta [of _ ms] 1(3))
  qed
  moreover have "ii_id ` set its = ii_id ` set (inventory_items db)"
    using arg_cong [OF 1(5), of "\<lambda>xs. ii_id ` set xs"] by (simp add: image_image)
  ultimately show ?thesis using 1(1,2,3) ok ran(3) by (intro disjI2 exI [of _ task] exI [of _ ms]) auto
qed

text \<open>C3. Handling task.closed either changes nothing or writes exactly the planned movements, one
  per item not deducted before, and each item's quantity changes by exactly its planned
  amount.\<close>
theorem task_closed_consumes_exactly:
  assumes "inventory_task_closed e tid taskId db = (Inr (), db')"
    and "stock_ok (inventory_items db) (stock_movements db)"
  shows "db' = db \<or>
    (\<exists>task ms. List.find (\<lambda>t. t_id t = taskId \<and> t_tenantId t = tid) (tasks db) = Some task
       \<and> stock_movements db' = stock_movements db @ ms
       \<and> map move_delta ms = planned tid taskId (t_checklist task) db
       \<and> stock_ok (inventory_items db') (stock_movements db')
       \<and> (\<forall>i' \<in> set (inventory_items db'). \<exists>i \<in> set (inventory_items db). ii_id i = ii_id i'
            \<and> ii_quantity i' = ii_quantity i
                + sum_list (map snd (filter (\<lambda>x. fst x = ii_id i) (planned tid taskId (t_checklist task) db)))))"
  using task_closed_consumes_exactly_aux [OF assms] by blast

lemma inventory_task_closed_returns: "fst (inventory_task_closed e tid taskId db) = Inr ()"
  by (auto simp: inventory_task_closed_def split: prod.splits sum.splits)

lemma planned_negative: "x \<in> set (planned tid taskId c db) \<Longrightarrow> snd x < 0"
proof -
  assume "x \<in> set (planned tid taskId c db)"
  then obtain sku qty where "(sku, qty) \<in> set (consumption_plan c)" "snd x = - qty"
    by (auto simp: planned_def Let_def map_filter_def split: option.splits if_splits)
  moreover from this(1) have "0 < qty"
    using consumption_plan_positive by (cases c) (auto simp: consumption_plan_def split: json.splits)
  ultimately show ?thesis by simp
qed

lemma sum_list_filter_le:
  "(\<And>x. x \<in> set xs \<Longrightarrow> snd x \<le> (0::int)) \<Longrightarrow> (a, d) \<in> set xs \<Longrightarrow> sum_list (map snd (filter (\<lambda>x. fst x = a) xs)) \<le> d"
proof (induction xs)
  case Nil
  then show ?case by simp
next
  case (Cons x xs)
  have rest: "sum_list (map snd (filter (\<lambda>x. fst x = a) xs)) \<le> 0"
    by (rule sum_list_nonpos) (use Cons.prems in auto)
  show ?case
  proof (cases "x = (a, d)")
    case True
    with rest show ?thesis by simp
  next
    case False
    with Cons.prems have "sum_list (map snd (filter (\<lambda>x. fst x = a) xs)) \<le> d" by (intro Cons.IH) auto
    moreover have "snd x \<le> 0" using Cons.prems by simp
    ultimately show ?thesis by simp
  qed
qed

text \<open>C4. When one planned item has too little stock, the handler deducts nothing at all, from
  any item, and reports success to its caller.\<close>
theorem insufficient_stock_deducts_nothing:
  assumes "stock_ok (inventory_items db) (stock_movements db)"
    and "List.find (\<lambda>t. t_id t = taskId \<and> t_tenantId t = tid) (tasks db) = Some task"
    and "(itemId, d) \<in> set (planned tid taskId (t_checklist task) db)"
    and "i \<in> set (inventory_items db)" and "ii_id i = itemId" and "ii_quantity i + d < 0"
  shows "inventory_task_closed e tid taskId db = (Inr (), db)"
proof -
  obtain db' where run: "inventory_task_closed e tid taskId db = (Inr (), db')"
    using inventory_task_closed_returns by (metis prod.collapse)
  have "db' = db"
  proof (rule ccontr)
    assume "db' \<noteq> db"
    with task_closed_consumes_exactly_aux [OF run assms(1)] assms(2) have
      ok: "stock_ok (inventory_items db') (stock_movements db')"
      and q: "\<forall>i' \<in> set (inventory_items db'). \<exists>i \<in> set (inventory_items db). ii_id i = ii_id i'
            \<and> ii_quantity i' = ii_quantity i
                + sum_list (map snd (filter (\<lambda>x. fst x = ii_id i) (planned tid taskId (t_checklist task) db)))"
      and ids: "ii_id ` set (inventory_items db') = ii_id ` set (inventory_items db)"
      by auto
    from ids assms(4,5) obtain i' where i': "i' \<in> set (inventory_items db')" "ii_id i' = itemId"
      by (metis image_iff)
    with q obtain j where j: "j \<in> set (inventory_items db)" "ii_id j = itemId" "ii_quantity i' = ii_quantity j
                + sum_list (map snd (filter (\<lambda>x. fst x = itemId) (planned tid taskId (t_checklist task) db)))"
      by auto
    have "j = i" using assms(1,4,5) j distinct_map_eq by (fastforce simp: stock_ok_def)
    moreover have "sum_list (map snd (filter (\<lambda>x. fst x = itemId) (planned tid taskId (t_checklist task) db))) \<le> d"
      by (rule sum_list_filter_le [OF _ assms(3)]) (use planned_negative in \<open>auto intro: less_imp_le\<close>)
    ultimately have "ii_quantity i' < 0" using j(3) assms(6) by simp
    with ok i' show False by (auto simp: stock_ok_def)
  qed
  with run show ?thesis by simp
qed

lemma consume_covers:
  assumes "run_each (consume_sku tid taskId items recorded) plan st = Inr st'"
  shows "\<forall>x \<in> set plan. case List.find (\<lambda>i. ii_sku i = fst x) items of None \<Rightarrow> True
     | Some i \<Rightarrow> ii_id i \<in> set recorded \<union> sm_inventoryItemId ` set (cs_moves st')"
proof (rule run_each_post [OF assms])
  show "case List.find (\<lambda>i. ii_sku i = fst x) items of None \<Rightarrow> True
     | Some i \<Rightarrow> ii_id i \<in> set recorded \<union> sm_inventoryItemId ` set (cs_moves s')"
    if "consume_sku tid taskId items recorded x s = Inr s'" for x s s'
  proof (cases x)
    case (Pair sku qty)
    from that show ?thesis
      unfolding Pair by (cases rule: consume_sku_cases) (auto simp: consumption_row_def)
  qed
  show "case List.find (\<lambda>i. ii_sku i = fst x) items of None \<Rightarrow> True
     | Some i \<Rightarrow> ii_id i \<in> set recorded \<union> sm_inventoryItemId ` set (cs_moves s')"
    if "consume_sku tid taskId items recorded y s = Inr s'"
      and "case List.find (\<lambda>i. ii_sku i = fst x) items of None \<Rightarrow> True
        | Some i \<Rightarrow> ii_id i \<in> set recorded \<union> sm_inventoryItemId ` set (cs_moves s)" for x y s s'
  proof (cases y)
    case (Pair sku qty)
    from that show ?thesis
      unfolding Pair by (cases rule: consume_sku_cases) (auto split: option.splits)
  qed
qed

lemma consume_tx_again:
  assumes "consume_tx tid taskId db = Inr (alerts, db1)"
    and "inventory_items db2 = inventory_items db1" and "stock_movements db2 = stock_movements db1"
    and "tasks db2 = tasks db1"
  shows "consume_tx tid taskId db2 = Inr ([], db2)"
proof -
  from assms(1) obtain task st where task: "List.find (\<lambda>t. t_id t = taskId \<and> t_tenantId t = tid) (tasks db) = Some task"
    and run: "run_each (consume_sku tid taskId (plan_items tid (consumption_plan (t_checklist task)) db) (recorded_items tid taskId db))
       (consumption_plan (t_checklist task)) \<lparr>cs_db = db, cs_moves = [], cs_alerts = []\<rparr> = Inr st"
    and db1: "db1 = (cs_db st)\<lparr>stock_movements := stock_movements (cs_db st) @ cs_moves st\<rparr>"
    by (rule consume_tx_Inr)
  let ?plan = "consumption_plan (t_checklist task)"
  from run_each_frame [OF run] obtain its where its: "cs_db st = db\<lparr>inventory_items := its\<rparr>"
        "map no_quantity its = map no_quantity (inventory_items db)"
    and ms: "\<forall>m \<in> set (cs_moves st). sm_tenantId m = tid \<and> sm_taskId m = Some taskId \<and> sm_reason m = TASK_CONSUMPTION"
    by (auto simp: consume_frame_def)
  have tsk: "tasks db2 = tasks db" and inv: "inventory_items db2 = its"
    and mv: "stock_movements db2 = stock_movements db @ cs_moves st"
    using assms(2-4) db1 its(1) by simp_all
  have rec: "set (recorded_items tid taskId db2) = set (recorded_items tid taskId db) \<union> sm_inventoryItemId ` set (cs_moves st)"
    using ms by (auto simp: recorded_items_def mv)
  have fnd: "map_option no_quantity (List.find (\<lambda>i. ii_sku i = sku) (plan_items tid ?plan db2))
      = map_option no_quantity (List.find (\<lambda>i. ii_sku i = sku) (plan_items tid ?plan db))" for sku
    by (rule find_no_quantity(1), unfold plan_items_def inv, rule find_no_quantity(2) [OF its(2)]) simp_all
  have "consume_sku tid taskId (plan_items tid ?plan db2) (recorded_items tid taskId db2) x s = Inr s"
    if "x \<in> set ?plan" for x s
  proof (cases "List.find (\<lambda>i. ii_sku i = fst x) (plan_items tid ?plan db2)")
    case None
    then show ?thesis by (cases x) (simp add: consume_sku_def)
  next
    case (Some i)
    with fnd [of "fst x"] have "map_option no_quantity (List.find (\<lambda>i. ii_sku i = fst x) (plan_items tid ?plan db)) = Some (no_quantity i)"
      by simp
    then obtain j where j: "List.find (\<lambda>i. ii_sku i = fst x) (plan_items tid ?plan db) = Some j"
      "no_quantity i = no_quantity j" by (auto simp: map_option_eq_Some)
    then have "ii_id i = ii_id j" by (metis no_quantity_simps(1))
    with j(1) that consume_covers [OF run] rec have "ii_id i \<in> set (recorded_items tid taskId db2)" by force
    with Some show ?thesis by (cases x) (simp add: consume_sku_def)
  qed
  then have "run_each (consume_sku tid taskId (plan_items tid ?plan db2) (recorded_items tid taskId db2)) ?plan s = Inr s" for s
    by (intro run_each_skip)
  with task tsk show ?thesis by (simp add: consume_tx_def Let_def)
qed

text \<open>Delivering the same task.closed event again deducts nothing and emits no further event.\<close>
theorem task_closed_redelivery:
  assumes "inventory_task_closed e tid taskId db = (r, db')"
  shows "inventory_task_closed e tid taskId db' = (Inr (), db')"
  using assms
proof (cases rule: inventory_task_closed_cases)
  case (failed err)
  then show ?thesis by (simp add: inventory_task_closed_def consume_for_task_def)
next
  case (ran alerts db1)
  with consume_tx_again [OF ran(2), of db'] show ?thesis
    by (simp add: inventory_task_closed_def consume_for_task_def for_tenant_def)
qed

section \<open>The stock invariant\<close>

definition fresh_items :: "env \<Rightarrow> db \<Rightarrow> bool" where
  "fresh_items e db \<longleftrightarrow> (\<forall>i \<in> set (inventory_items db). ii_id i \<noteq> next_id e db)"

lemma stock_ok_add:
  assumes "stock_ok items moves" and "ii_id i \<notin> ii_id ` set items" and "0 \<le> ii_quantity i"
    and "moves' = moves @ (if ii_quantity i \<noteq> 0 then [m] else [])"
    and "sm_inventoryItemId m = ii_id i" and "sm_delta m = ii_quantity i"
  shows "stock_ok (items @ [i]) moves'"
proof -
  have "ledger (ii_id i) moves = 0"
  proof -
    have "filter (\<lambda>m. sm_inventoryItemId m = ii_id i) moves = []"
      using assms(1,2) unfolding filter_empty_conv stock_ok_def by metis
    then show ?thesis by (simp add: ledger_def)
  qed
  with assms show ?thesis by (auto simp: stock_ok_def)
qed

lemma adjust_tx_stock_ok:
  assumes "adjust_tx tid itemId delta note uid db = Inr (row, db')"
    and "stock_ok (inventory_items db) (stock_movements db)"
  shows "stock_ok (inventory_items db') (stock_movements db')"
proof -
  from assms(1) obtain x m where x: "x \<in> set (inventory_items db)" "adjust_where tid itemId delta x"
    and m: "sm_inventoryItemId m = ii_id x" "sm_delta m = delta"
    and db': "db' = add_movement m (db\<lparr>inventory_items := snd (update_rows (adjust_where tid itemId delta)
                        (\<lambda>i. i\<lparr>ii_quantity := ii_quantity i + delta\<rparr>) (inventory_items db))\<rparr>)"
  proof (cases "List.find (adjust_where tid itemId delta) (inventory_items db)")
    case None
    with assms(1) show thesis by (auto simp: adjust_tx_def split: if_splits)
  next
    case (Some x)
    let ?m = "manual_movement tid (ii_id x) delta (ii_quantity x + delta)
      (if delta > 0 then RESTOCK else MANUAL_ADJUSTMENT) note uid"
    from Some find_SomeD [OF Some] assms(1) show thesis
      by (intro that [of x ?m]) (auto simp: adjust_tx_def manual_movement_def Let_def split: if_splits)
  qed
  have "stock_ok (snd (update_rows (adjust_where tid itemId delta)
      (\<lambda>i. i\<lparr>ii_quantity := ii_quantity i + delta\<rparr>) (inventory_items db))) (stock_movements db @ [m])"
    by (rule stock_ok_apply [where x = x, OF assms(2)]) (use x m in \<open>auto simp: adjust_where_def\<close>)
  then show ?thesis by (simp add: db' add_movement_def)
qed

definition stock_inv :: "db \<Rightarrow> bool" where
  "stock_inv db \<longleftrightarrow> stock_ok (inventory_items db) (stock_movements db)"

lemma stock_inv_consume: "stock_inv db \<Longrightarrow> stock_inv (snd (inventory_task_closed e tid taskId db))"
  using task_closed_consumes_exactly_aux [of e tid taskId db] inventory_task_closed_returns [of e tid taskId db]
  unfolding stock_inv_def by (metis prod.collapse)

lemma stock_inv_adjust: "stock_inv db \<Longrightarrow> stock_inv (snd (adjust_quantity tid itemId delta note uid db))"
  unfolding adjust_quantity_def
  by (rule for_tenant_preserves) (auto simp: stock_inv_def intro: adjust_tx_stock_ok)

lemma stock_inv_create:
  assumes "stock_inv db" and "fresh_items e db" and "0 \<le> or_else (ci_quantity d) 0"
  shows "stock_inv (snd (inventory_create e tid d uid db))"
  unfolding inventory_create_def
proof (rule for_tenant_preserves [where I = stock_inv])
  show "stock_inv db" by (rule assms(1))
  let ?i = "item_row e tid d db"
  let ?m = "manual_movement tid (ii_id ?i) (ii_quantity ?i) (ii_quantity ?i) RESTOCK (Some ''initial stock'') uid"
  have "stock_ok (inventory_items db @ [?i]) (stock_movements db @ (if ii_quantity ?i \<noteq> 0 then [?m] else []))"
    by (rule stock_ok_add [where m = ?m])
      (use assms in \<open>auto simp: stock_inv_def fresh_items_def item_row_def manual_movement_def\<close>)
  then show "stock_inv db'" if "(if list_ex (\<lambda>i. ii_tenantId i = tid \<and> ii_sku i = ci_sku' d) (inventory_items db)
       then Inl (BadRequest ''SKU already exists for this tenant'')
       else let item = item_row e tid d db;
                db1 = (bump_id db)\<lparr>inventory_items := inventory_items db @ [item]\<rparr>
            in Inr (item,
                 if ii_quantity item \<noteq> 0
                 then add_movement (manual_movement tid (ii_id item) (ii_quantity item)
                        (ii_quantity item) RESTOCK (Some ''initial stock'') uid) db1
                 else db1)) = Inr (a, db')" for a db'
    using that by (auto simp: Let_def stock_inv_def add_movement_def split: if_splits)
qed

lemma stock_ok_cong_cost:
  "stock_ok (snd (update_rows P (\<lambda>i. i\<lparr>ii_unitCost := c\<rparr>) items)) moves = stock_ok items moves"
proof -
  let ?its = "snd (update_rows P (\<lambda>i. i\<lparr>ii_unitCost := c\<rparr>) items)"
  have m: "map (\<lambda>i. (ii_id i, ii_quantity i)) ?its = map (\<lambda>i. (ii_id i, ii_quantity i)) items"
    by (rule map_update_rows) simp
  from arg_cong [OF m, of "map fst"] have ids: "map ii_id ?its = map ii_id items" by (simp add: comp_def)
  then have "ii_id ` set ?its = ii_id ` set items" by (metis list.set_map)
  moreover have "(\<forall>i \<in> set ?its. Q (ii_id i, ii_quantity i)) = (\<forall>i \<in> set items. Q (ii_id i, ii_quantity i))" for Q
    using arg_cong [OF m, of "list_all Q"] by (simp add: list_all_iff)
  from this [of "\<lambda>(j, q). 0 \<le> q \<and> q = ledger j moves"]
  have "(\<forall>i \<in> set ?its. 0 \<le> ii_quantity i \<and> ii_quantity i = ledger (ii_id i) moves)
      = (\<forall>i \<in> set items. 0 \<le> ii_quantity i \<and> ii_quantity i = ledger (ii_id i) moves)" by simp
  ultimately show ?thesis using ids by (simp add: stock_ok_def)
qed

lemma stock_inv_cost: "stock_inv db \<Longrightarrow> stock_inv (snd (set_cost tid itemId cost uid db))"
  unfolding set_cost_def
  by (rule for_tenant_preserves) (auto simp: stock_inv_def stock_ok_cong_cost split: option.splits)

text \<open>C5. Every operation keeps the ledger: no quantity is negative and each equals the sum of
  its recorded movements.\<close>
theorem stock_never_negative:
  assumes "stock_inv db" and "fresh_items e db" and "0 \<le> or_else (ci_quantity d) 0"
  shows "stock_inv (snd (inventory_task_closed e tid taskId db))
    \<and> stock_inv (snd (adjust_quantity tid itemId delta note uid db))
    \<and> stock_inv (snd (inventory_create e tid d uid db))
    \<and> stock_inv (snd (set_cost tid itemId cost uid db))"
  using assms by (simp add: stock_inv_consume stock_inv_adjust stock_inv_create stock_inv_cost)

section \<open>Instances\<close>

definition demo_item :: inventory_item where
  "demo_item = \<lparr>ii_id = ''i1'', ii_tenantId = demo_tenant, ii_sku = ''F1'', ii_name = ''Filter'',
     ii_quantity = 3, ii_lowStockThreshold = 0, ii_unitPrice = None, ii_unitCost = None,
     ii_category = None, ii_isActive = True\<rparr>"

definition demo_checklist :: "int \<Rightarrow> json" where
  "demo_checklist n = checklist_json [\<lparr>ci_label = ''Filter'', ci_done = True, ci_priceCode = None,
     ci_sku = Some ''F1'', ci_qty = Some n\<rparr>]"

definition demo_stock_db :: "int \<Rightarrow> db" where
  "demo_stock_db n = demo_db\<lparr>inventory_items := [demo_item],
     stock_movements := [manual_movement demo_tenant ''i1'' 3 3 RESTOCK None None],
     tasks := [demo_task\<lparr>t_checklist := Some (demo_checklist n)\<rparr>]\<rparr>"

lemma demo_stock_inv: "stock_inv (demo_stock_db n)"
  by (simp add: stock_inv_def stock_ok_def demo_stock_db_def demo_item_def manual_movement_def ledger_def)

lemma demo_plan: "0 < n \<Longrightarrow> consumption_plan (Some (demo_checklist n)) = [(''F1'', n)]"
  by (simp add: consumption_plan_def demo_checklist_def checklist_json_def List.map_filter_simps
      plan_item_def add_qty_def)

lemma demo_find_task:
  "List.find (\<lambda>t. t_id t = ''t1'' \<and> t_tenantId t = demo_tenant) (tasks (demo_stock_db n))
     = Some (demo_task\<lparr>t_checklist := Some (demo_checklist n)\<rparr>)"
  by (simp add: demo_stock_db_def demo_defs)

lemma demo_planned: "0 < n \<Longrightarrow> planned demo_tenant ''t1'' (Some (demo_checklist n)) (demo_stock_db n) = [(''i1'', - n)]"
  by (simp add: planned_def demo_plan plan_items_def recorded_items_def demo_stock_db_def demo_item_def
      manual_movement_def List.map_filter_simps)

theorem task_closed_consumes_exactly_witness:
  "inventory_task_closed demo_env demo_tenant ''t1'' (demo_stock_db 2) \<noteq> (Inr (), demo_stock_db 2)
   \<and> stock_ok (inventory_items (snd (inventory_task_closed demo_env demo_tenant ''t1'' (demo_stock_db 2))))
       (stock_movements (snd (inventory_task_closed demo_env demo_tenant ''t1'' (demo_stock_db 2))))"
proof -
  have moved: "length (stock_movements (snd (inventory_task_closed demo_env demo_tenant ''t1'' (demo_stock_db 2)))) = 2"
    by (simp add: inventory_task_closed_def consume_for_task_def for_tenant_def consume_tx_def demo_find_task
        demo_plan Let_def consume_sku_def plan_items_def recorded_items_def demo_stock_db_def demo_item_def
        manual_movement_def decrement_or_fail_def decrement_where_def int4_def update_rows_def
        consumption_row_def same_movement_key_def)
      (simp add: demo_defs)?
  then have ne: "snd (inventory_task_closed demo_env demo_tenant ''t1'' (demo_stock_db 2)) \<noteq> demo_stock_db 2"
    by (auto simp: demo_stock_db_def)
  have "inventory_task_closed demo_env demo_tenant ''t1'' (demo_stock_db 2) =
      (Inr (), snd (inventory_task_closed demo_env demo_tenant ''t1'' (demo_stock_db 2)))"
    using inventory_task_closed_returns by (metis prod.collapse)
  from task_closed_consumes_exactly [OF this] ne demo_stock_inv [of 2] show ?thesis
    by (auto simp: stock_inv_def)
qed

theorem insufficient_stock_deducts_nothing_witness:
  "inventory_task_closed demo_env demo_tenant ''t1'' (demo_stock_db 5) = (Inr (), demo_stock_db 5)"
proof (rule insufficient_stock_deducts_nothing)
  show "stock_ok (inventory_items (demo_stock_db 5)) (stock_movements (demo_stock_db 5))"
    using demo_stock_inv [of 5] by (simp add: stock_inv_def)
  show "(''i1'', - 5) \<in> set (planned demo_tenant ''t1'' (t_checklist (demo_task\<lparr>t_checklist := Some (demo_checklist 5)\<rparr>)) (demo_stock_db 5))"
    by (simp add: demo_planned)
  show "demo_item \<in> set (inventory_items (demo_stock_db 5))" by (simp add: demo_stock_db_def)
qed (simp_all add: demo_find_task demo_item_def)

theorem task_closed_redelivery_witness:
  "\<exists>db'. inventory_task_closed demo_env demo_tenant ''t1'' (demo_stock_db 2) = (Inr (), db')
     \<and> inventory_task_closed demo_env demo_tenant ''t1'' db' = (Inr (), db')"
  using task_closed_redelivery [of demo_env demo_tenant "''t1''" "demo_stock_db 2"]
    inventory_task_closed_returns by (metis prod.collapse)

definition demo_new_item :: create_item_dto where
  "demo_new_item = \<lparr>ci_sku' = ''G1'', ci_name = ''Gasket'', ci_quantity = Some 4,
     ci_lowStockThreshold = None, ci_unitPrice = None, ci_unitCost = None, ci_category = None\<rparr>"

theorem stock_never_negative_witness:
  "stock_inv (snd (inventory_create demo_env demo_tenant demo_new_item None (demo_stock_db 2)))"
proof -
  have "fresh_items demo_env (demo_stock_db 2)"
    by (simp add: fresh_items_def demo_stock_db_def demo_item_def next_id_def demo_defs)
  moreover have "0 \<le> or_else (ci_quantity demo_new_item) 0" by (simp add: demo_new_item_def)
  ultimately show ?thesis
    using stock_never_negative [OF demo_stock_inv, of demo_env 2 demo_new_item demo_tenant] by blast
qed

section \<open>Tenant isolation\<close>

lemma others_adjust_tx:
  assumes "adjust_tx tid itemId delta note uid db = Inr (row, db')"
  shows "others tid db' = others tid db"
proof -
  have "filter (\<lambda>i. ii_tenantId i \<noteq> tid) (snd (update_rows (adjust_where tid itemId delta)
      (\<lambda>i. i\<lparr>ii_quantity := ii_quantity i + delta\<rparr>) (inventory_items db)))
    = filter (\<lambda>i. ii_tenantId i \<noteq> tid) (inventory_items db)"
    by (rule filter_update_rows) (simp add: adjust_where_def)
  with assms show ?thesis
    by (auto simp: adjust_tx_def add_movement_def manual_movement_def others_def Let_def
        split: if_splits option.splits)
qed

interpretation consume_op: tenant_op tid "consume_tx tid taskId" for tid taskId
  by unfold_locales (rule others_consume_tx)

interpretation adjust_op: tenant_op tid "adjust_tx tid itemId delta memo uid" for tid itemId delta memo uid
  by unfold_locales (rule others_adjust_tx)

lemma others_inventory_create: "others tid (snd (inventory_create e tid d uid db)) = others tid db"
  unfolding inventory_create_def
  by (rule tenant_op.isolated, unfold_locales)
    (auto simp: Let_def add_movement_def manual_movement_def others_def item_row_def bump_id_def split: if_splits)

lemma others_set_cost: "others tid (snd (set_cost tid itemId cost uid db)) = others tid db"
  unfolding set_cost_def
proof (rule tenant_op.isolated, unfold_locales)
  fix db r db'
  assume "(case List.find (\<lambda>i. ii_id i = itemId \<and> ii_tenantId i = tid) (inventory_items db) of
         None \<Rightarrow> Inl (NotFound ''Inventory item not found'')
       | Some i \<Rightarrow>
           Inr ((ii_id i, ii_sku i, ii_name i, cost),
             audit_create \<lparr>al_tenantId = tid, al_userId = uid, al_action = ''inventory.cost_set'',
                al_entityType = ''InventoryItem'', al_entityId = itemId,
                al_metadata = Some (JObj [(''from'', jopt (map_option decimal_text (ii_unitCost i))),
                                          (''to'', jopt (map_option decimal_text cost))])\<rparr>
               (db\<lparr>inventory_items := snd (update_rows (\<lambda>i. ii_id i = itemId \<and> ii_tenantId i = tid)
                   (\<lambda>i. i\<lparr>ii_unitCost := cost\<rparr>) (inventory_items db))\<rparr>))) = Inr (r, db')"
  moreover have "filter (\<lambda>i. ii_tenantId i \<noteq> tid) (snd (update_rows (\<lambda>i. ii_id i = itemId \<and> ii_tenantId i = tid)
      (\<lambda>i. i\<lparr>ii_unitCost := cost\<rparr>) (inventory_items db))) = filter (\<lambda>i. ii_tenantId i \<noteq> tid) (inventory_items db)"
    by (rule filter_update_rows) simp
  ultimately show "others tid db' = others tid db"
    by (auto simp: others_def audit_create_def split: option.splits)
qed

lemma others_inventory_task_closed:
  "others tid (snd (inventory_task_closed e tid taskId db)) = others tid db"
proof -
  obtain r db' where run: "inventory_task_closed e tid taskId db = (r, db')" by fastforce
  then show ?thesis
    by (cases rule: inventory_task_closed_cases) (simp_all add: run others_consume_tx)
qed

end
