(* ===== verification/Geo.thy ===== *)
theory Geo
  imports Prelude
begin

text \<open>
  common/geo.util.ts: the haversine distance in kilometres, over the reals (the code uses
  doubles). \<open>atan2\<close> is the two-argument arc tangent of the JavaScript Math object.
\<close>

definition to_rad :: "real \<Rightarrow> real" where
  "to_rad deg = (deg * pi) / 180"

definition atan2 :: "real \<Rightarrow> real \<Rightarrow> real" where
  "atan2 y x =
     (if x > 0 then arctan (y / x)
      else if x < 0 then (if y \<ge> 0 then arctan (y / x) + pi else arctan (y / x) - pi)
      else if y > 0 then pi / 2 else if y < 0 then - (pi / 2) else 0)"

definition haversine_a :: "real \<Rightarrow> real \<Rightarrow> real \<Rightarrow> real \<Rightarrow> real" where
  "haversine_a lat1 lng1 lat2 lng2 =
     (let dLat = to_rad (lat2 - lat1); dLng = to_rad (lng2 - lng1)
      in (sin (dLat / 2))\<^sup>2 + cos (to_rad lat1) * cos (to_rad lat2) * (sin (dLng / 2))\<^sup>2)"

definition haversine_km :: "real \<Rightarrow> real \<Rightarrow> real \<Rightarrow> real \<Rightarrow> real" where
  "haversine_km lat1 lng1 lat2 lng2 =
     (let a = haversine_a lat1 lng1 lat2 lng2
      in 6371 * (2 * atan2 (sqrt a) (sqrt (1 - a))))"

lemma sin_half_squared: "(sin (x / 2))\<^sup>2 = (1 - cos x) / (2::real)"
proof -
  have "cos x = 1 - 2 * (sin (x / 2))\<^sup>2" using cos_double_sin [of "x / 2"] by simp
  then show ?thesis by simp
qed

lemma cos_prod_bounds:
  "- ((1 - cos (x - y)) / 2) \<le> cos x * cos (y::real)" "cos x * cos y \<le> (1 + cos (x - y)) / (2::real)"
proof -
  have "cos x * cos y = (cos (x - y) + cos (x + y)) / 2" by (simp add: cos_times_cos)
  moreover have "cos (x + y) \<le> 1" "0 \<le> 1 + cos (x + y)"
    using cos_ge_minus_one [of "x + y"] by (simp, linarith)
  ultimately show "- ((1 - cos (x - y)) / 2) \<le> cos x * cos y" "cos x * cos y \<le> (1 + cos (x - y)) / 2"
    by (simp_all add: field_simps)
qed

lemma haversine_a_bounds: "0 \<le> haversine_a lat1 lng1 lat2 lng2" "haversine_a lat1 lng1 lat2 lng2 \<le> 1"
proof -
  let ?x = "to_rad lat1" and ?y = "to_rad lat2" and ?d = "(sin (to_rad (lng2 - lng1) / 2))\<^sup>2"
  have d: "0 \<le> ?d" "?d \<le> 1" by (simp_all add: abs_square_le_1)
  have eq: "haversine_a lat1 lng1 lat2 lng2 = (1 - cos (?x - ?y)) / 2 + cos ?x * cos ?y * ?d"
  proof -
    have "to_rad (lat2 - lat1) = - (?x - ?y)" by (simp add: to_rad_def field_simps)
    then show ?thesis by (simp only: haversine_a_def Let_def sin_half_squared cos_minus)
  qed
  have "0 \<le> 1 + cos (?x - ?y)" using cos_ge_minus_one [of "?x - ?y"] by linarith
  then have c: "0 \<le> (1 - cos (?x - ?y)) / 2" "0 \<le> (1 + cos (?x - ?y)) / 2" by simp_all
  have "(- ((1 - cos (?x - ?y)) / 2)) * ?d \<le> cos ?x * cos ?y * ?d"
    by (rule mult_right_mono [OF cos_prod_bounds(1) d(1)])
  moreover have "((1 - cos (?x - ?y)) / 2) * ?d \<le> ((1 - cos (?x - ?y)) / 2) * 1"
    by (rule mult_left_mono [OF d(2) c(1)])
  ultimately show "0 \<le> haversine_a lat1 lng1 lat2 lng2" unfolding eq by linarith
  have "cos ?x * cos ?y * ?d \<le> (1 + cos (?x - ?y)) / 2 * ?d"
    by (rule mult_right_mono [OF cos_prod_bounds(2) d(1)])
  moreover have "(1 + cos (?x - ?y)) / 2 * ?d \<le> (1 + cos (?x - ?y)) / 2 * 1"
    by (rule mult_left_mono [OF d(2) c(2)])
  ultimately have "cos ?x * cos ?y * ?d \<le> (1 + cos (?x - ?y)) / 2" by simp
  then show "haversine_a lat1 lng1 lat2 lng2 \<le> 1" unfolding eq by (simp add: field_simps)
qed

lemma atan2_quadrant: "0 \<le> y \<Longrightarrow> 0 \<le> x \<Longrightarrow> 0 \<le> atan2 y x \<and> atan2 y x \<le> pi / 2"
  using arctan_ubound [of "y / x"] by (auto simp: atan2_def less_imp_le)

lemma haversine_a_sym: "haversine_a lat2 lng2 lat1 lng1 = haversine_a lat1 lng1 lat2 lng2"
proof -
  have half: "to_rad (x - y) / 2 = - (to_rad (y - x) / 2)" for x y by (simp add: to_rad_def field_simps)
  have "(sin (to_rad (x - y) / 2))\<^sup>2 = (sin (to_rad (y - x) / 2))\<^sup>2" for x y
    by (subst half) (simp only: sin_minus power2_minus)
  note swap = this [of lat1 lat2] this [of lng1 lng2]
  show ?thesis
    unfolding haversine_a_def Let_def swap by (simp add: mult.commute)
qed

lemma haversine_km_bounds: "0 \<le> haversine_km lat1 lng1 lat2 lng2" "haversine_km lat1 lng1 lat2 lng2 \<le> 6371 * pi"
  using atan2_quadrant [of "sqrt (haversine_a lat1 lng1 lat2 lng2)" "sqrt (1 - haversine_a lat1 lng1 lat2 lng2)"]
    haversine_a_bounds [of lat1 lng1 lat2 lng2]
  by (simp_all add: haversine_km_def Let_def)

text \<open>The distance is symmetric, zero from a point to itself, and always between 0 and half
  the circumference (6371 pi km).\<close>
theorem haversine_distance:
  "0 \<le> haversine_km lat1 lng1 lat2 lng2
   \<and> haversine_km lat1 lng1 lat2 lng2 \<le> 6371 * pi
   \<and> haversine_km lat2 lng2 lat1 lng1 = haversine_km lat1 lng1 lat2 lng2
   \<and> haversine_km lat1 lng1 lat1 lng1 = 0"
  by (simp add: haversine_km_bounds)
    (simp add: haversine_km_def haversine_a_sym, simp add: haversine_a_def to_rad_def atan2_def)

end
