(* ===== verification/Scheduling.thy ===== *)
theory Scheduling
  imports Tasks Geo
begin

text \<open>
  modules/scheduling/scheduling.service.ts: the scored choice of a technician for a task,
  with the required skill as a hard filter, and the conditional write that assigns it.
  The candidates' row locks make the transaction serial, which is how it is modelled.
\<close>

section \<open>Weights and candidates\<close>

record weights =
  w_skill :: real
  w_distance :: real
  w_load :: real

definition default_weights :: weights where
  "default_weights = \<lparr>w_skill = 0.5, w_distance = 0.3, w_load = 0.2\<rparr>"

definition pick_weight :: "string \<Rightarrow> real \<Rightarrow> json \<Rightarrow> real" where
  "pick_weight key d v = (case jget key v of Some (JNum n) \<Rightarrow> of_rat n | _ \<Rightarrow> d)"

definition to_weights :: "json option \<Rightarrow> weights" where
  "to_weights v =
     (case v of
        Some (JObj kvs) \<Rightarrow>
          \<lparr>w_skill = pick_weight ''skillWeight'' (w_skill default_weights) (JObj kvs),
           w_distance = pick_weight ''distanceWeight'' (w_distance default_weights) (JObj kvs),
           w_load = pick_weight ''loadWeight'' (w_load default_weights) (JObj kvs)\<rparr>
      | _ \<Rightarrow> default_weights)"

definition to_string_array :: "json option \<Rightarrow> string list" where
  "to_string_array v =
     (case v of Some (JArr xs) \<Rightarrow> List.map_filter (\<lambda>x. jstr_opt (Some x)) xs | _ \<Rightarrow> [])"

definition lock_eligible_candidates :: "string \<Rightarrow> db \<Rightarrow> user list" where
  "lock_eligible_candidates tid db =
     sort_key u_id (filter (\<lambda>u. u_tenantId u = tid \<and> u_role u = FIELD \<and> u_isActive u) (users db))"

section \<open>The score\<close>

definition load_of :: "string \<Rightarrow> db \<Rightarrow> string \<Rightarrow> nat" where
  "load_of tid db uid = length (filter (\<lambda>t. t_tenantId t = tid
     \<and> t_status t \<in> {ASSIGNED, IN_PROGRESS} \<and> t_assignedToUserId t = Some uid) (tasks db))"

definition distance_score :: "task \<Rightarrow> user \<Rightarrow> real" where
  "distance_score t u =
     (case (t_locationLat t, t_locationLng t, u_homeLat u, u_homeLng u) of
        (Some lat1, Some lng1, Some lat2, Some lng2) \<Rightarrow> 1 / (1 + haversine_km lat1 lng1 lat2 lng2)
      | _ \<Rightarrow> 0.5)"

definition score :: "weights \<Rightarrow> string option \<Rightarrow> task \<Rightarrow> nat \<Rightarrow> user \<Rightarrow> real" where
  "score w skill t load u =
     w_skill w * (if truthy skill then 1 else 0.5)
     + w_distance w * distance_score t u
     + w_load w * (1 / (1 + real load))"

text \<open>The loop keeps the best so far and replaces it only on a strictly higher score.\<close>

definition best_step :: "(user \<Rightarrow> real) \<Rightarrow> (user \<times> real) option \<Rightarrow> user \<Rightarrow> (user \<times> real) option" where
  "best_step f best u =
     (case best of
        None \<Rightarrow> Some (u, f u)
      | Some (b, s) \<Rightarrow> if f u > s then Some (u, f u) else Some (b, s))"

definition pick_best :: "(user \<Rightarrow> real) \<Rightarrow> user list \<Rightarrow> (user \<times> real) option" where
  "pick_best f us = foldl (best_step f) None us"

section \<open>Assignment\<close>

record assign_result =
  as_assigned :: bool
  as_userId :: "string option"
  as_reason :: "string option"

definition not_assigned :: "string \<Rightarrow> assign_result" where
  "not_assigned r = \<lparr>as_assigned = False, as_userId = None, as_reason = Some r\<rparr>"

fun status_lower :: "task_status \<Rightarrow> string" where
  "status_lower NEW = ''new''"
| "status_lower ASSIGNED = ''assigned''"
| "status_lower IN_PROGRESS = ''in_progress''"
| "status_lower CLOSED = ''closed''"
| "status_lower CANCELLED = ''cancelled''"

definition required_skill :: "db \<Rightarrow> task \<Rightarrow> string option" where
  "required_skill db t =
     (case t_jobTypeTemplateId t of
        None \<Rightarrow> None
      | Some jid \<Rightarrow>
          (case List.find (\<lambda>j. jt_id j = jid \<and> jt_tenantId j = t_tenantId t) (job_type_templates db) of
             None \<Rightarrow> None | Some j \<Rightarrow> jt_requiredSkill j))"

definition eligible :: "string option \<Rightarrow> user list \<Rightarrow> user list" where
  "eligible skill us = (if truthy skill then filter (\<lambda>u. the skill \<in> set (u_skills u)) us else us)"

definition assign_where :: "string \<Rightarrow> string \<Rightarrow> task \<Rightarrow> bool" where
  "assign_where tid taskId t \<longleftrightarrow> t_id t = taskId \<and> t_tenantId t = tid \<and> t_status t \<in> {NEW, ASSIGNED}"

definition assign_write :: "string \<Rightarrow> string \<Rightarrow> string \<Rightarrow> db \<Rightarrow> assign_result \<times> db" where
  "assign_write tid taskId uid db =
     (let (count, ts) = update_rows (assign_where tid taskId)
            (\<lambda>t. t\<lparr>t_assignedToUserId := Some uid, t_status := ASSIGNED\<rparr>) (tasks db)
      in if count = 0 then (not_assigned ''task changed state while assigning'', db)
         else (\<lparr>as_assigned = True, as_userId = Some uid, as_reason = None\<rparr>, db\<lparr>tasks := ts\<rparr>))"

definition tenant_config_of :: "string \<Rightarrow> db \<Rightarrow> tenant_config option" where
  "tenant_config_of tid db = List.find (\<lambda>c. cf_tenantId c = tid) (tenant_configs db)"

definition scheduling_enabled :: "string \<Rightarrow> db \<Rightarrow> bool" where
  "scheduling_enabled tid db \<longleftrightarrow>
     ''scheduling'' \<in> set (to_string_array (map_option cf_enabledModules (tenant_config_of tid db)))"

definition assign_score :: "string \<Rightarrow> db \<Rightarrow> task \<Rightarrow> user \<Rightarrow> real" where
  "assign_score tid db t u =
     score (to_weights (Option.bind (tenant_config_of tid db) cf_schedulingWeights))
       (required_skill db t) t (load_of tid db (u_id u)) u"

definition assign_within :: "string \<Rightarrow> string \<Rightarrow> assign_result tx" where
  "assign_within tid taskId db =
     (if \<not> scheduling_enabled tid db
      then Inr (not_assigned ''scheduling module not enabled for this tenant (vertical)'', db)
      else case List.find (\<lambda>t. t_id t = taskId \<and> t_tenantId t = tid) (tasks db) of
          None \<Rightarrow> Inl (NotFound ''Task not found'')
        | Some t \<Rightarrow>
            if t_status t = CLOSED \<or> t_status t = CANCELLED
            then Inr (not_assigned (''task is '' @ status_lower (t_status t)), db)
            else
              let candidates = lock_eligible_candidates tid db;
                  skill = required_skill db t;
                  us = eligible skill candidates
              in if candidates = [] then Inr (not_assigned ''no active field technicians'', db)
                 else if us = [] then Inr (not_assigned ''no technician with required skill'', db)
                 else case pick_best (assign_score tid db t) us of
                     None \<Rightarrow> Inr (not_assigned ''no candidate scored'', db)
                   | Some (u, _) \<Rightarrow> Inr (assign_write tid taskId (u_id u) db))"

definition assigned_payload :: "string \<Rightarrow> string \<Rightarrow> json" where
  "assigned_payload taskId uid = JObj [(''taskId'', JStr taskId), (''userId'', JStr uid)]"

definition assign_task :: "env \<Rightarrow> string \<Rightarrow> string \<Rightarrow> assign_result svc" where
  "assign_task e tid taskId db =
     (case for_tenant tid (assign_within tid taskId) db of
        (Inl err, db1) \<Rightarrow> (Inl err, db1)
      | (Inr r, db1) \<Rightarrow>
          if as_assigned r \<and> truthy (as_userId r)
          then (case for_tenant tid (\<lambda>db. Inr ((), outbox_create e tid ''task.assigned''
                        (assigned_payload taskId (the (as_userId r))) db)) db1 of
                  (Inl err, db2) \<Rightarrow> (Inl err, db2)
                | (Inr _, db2) \<Rightarrow> (Inr r, db2))
          else (Inr r, db1))"

text \<open>The event handler logs a failure and returns.\<close>

definition scheduling_task_created :: "env \<Rightarrow> string \<Rightarrow> string \<Rightarrow> unit svc" where
  "scheduling_task_created e tid taskId db = (Inr (), snd (assign_task e tid taskId db))"

text \<open>The manual endpoint turns \<open>not assigned\<close> into a 400.\<close>

definition assign_endpoint :: "env \<Rightarrow> string \<Rightarrow> string \<Rightarrow> assign_result svc" where
  "assign_endpoint e tid taskId db =
     (case assign_task e tid taskId db of
        (Inl err, db1) \<Rightarrow> (Inl err, db1)
      | (Inr r, db1) \<Rightarrow>
          if as_assigned r then (Inr r, db1)
          else (Inl (BadRequest (or_else (as_reason r) ''Could not assign task'')), db1))"

section \<open>What the choice is\<close>

lemma best_step_max:
  assumes "foldl (best_step f) acc us = Some (b, s)"
    and "\<And>a x. acc = Some (a, x) \<Longrightarrow> x = f a"
  shows "s = f b \<and> (\<forall>u \<in> set us. f u \<le> s) \<and> (\<forall>a x. acc = Some (a, x) \<longrightarrow> f a \<le> s)
    \<and> (b \<in> set us \<or> acc = Some (b, s))"
  using assms
proof (induction us arbitrary: acc)
  case Nil
  then show ?case by auto
next
  case (Cons u us)
  have step: "\<And>a x. best_step f acc u = Some (a, x) \<Longrightarrow> x = f a"
    using Cons.prems(2) by (auto simp: best_step_def split: option.splits if_splits)
  have "foldl (best_step f) (best_step f acc u) us = Some (b, s)" using Cons.prems(1) by simp
  note IH = Cons.IH [OF this step]
  obtain a x where a: "best_step f acc u = Some (a, x)" "f u \<le> f a"
    "\<And>c y. acc = Some (c, y) \<Longrightarrow> f c \<le> f a" "a = u \<or> acc = Some (a, x)"
  proof (cases acc)
    case None
    then show thesis by (intro that [of u "f u"]) (auto simp: best_step_def)
  next
    case (Some c)
    obtain d y where c: "c = (d, y)" by (cases c)
    with Some Cons.prems(2) have "y = f d" by simp
    with Some c show thesis
      by (cases "f u > y") (auto simp: best_step_def intro: that [of u "f u"] that [of d y])
  qed
  from IH a have "f a \<le> s" by blast
  with IH a show ?case by (auto dest: order_trans)
qed

lemma pick_best_max:
  assumes "pick_best f us = Some (b, s)"
  shows "b \<in> set us" "s = f b" "\<forall>u \<in> set us. f u \<le> f b"
  using best_step_max [of f None us b s] assms by (auto simp: pick_best_def)

lemma pick_best_None: "pick_best f us = None \<longleftrightarrow> us = []"
proof -
  have "foldl (best_step f) (Some a) vs \<noteq> None" for a vs
  proof (induction vs arbitrary: a)
    case (Cons u vs)
    have "best_step f (Some a) u \<noteq> None" by (auto simp: best_step_def split: prod.splits)
    then obtain b where "best_step f (Some a) u = Some b" by blast
    with Cons.IH [of b] show ?case by simp
  qed simp
  note some = this
  show ?thesis
  proof (cases us)
    case Nil
    then show ?thesis by (simp add: pick_best_def)
  next
    case (Cons u vs)
    with some [of "(u, f u)"] show ?thesis by (simp add: pick_best_def best_step_def [where best = None])
  qed
qed

lemma set_lock_eligible:
  "set (lock_eligible_candidates tid db) = {u \<in> set (users db). u_tenantId u = tid \<and> u_role u = FIELD \<and> u_isActive u}"
  by (auto simp: lock_eligible_candidates_def)

definition can_do :: "string \<Rightarrow> string option \<Rightarrow> user \<Rightarrow> bool" where
  "can_do tid skill u \<longleftrightarrow> u_tenantId u = tid \<and> u_role u = FIELD \<and> u_isActive u
     \<and> (truthy skill \<longrightarrow> the skill \<in> set (u_skills u))"

lemma set_eligible:
  "set (eligible skill (lock_eligible_candidates tid db)) = {u \<in> set (users db). can_do tid skill u}"
  by (auto simp: eligible_def set_lock_eligible can_do_def)

lemma assign_within_assigned:
  assumes "assign_within tid taskId db = Inr (r, db')" and "as_assigned r"
  obtains t u where "List.find (\<lambda>t. t_id t = taskId \<and> t_tenantId t = tid) (tasks db) = Some t"
    "u \<in> set (users db)" "can_do tid (required_skill db t) u"
    "\<forall>v \<in> set (users db). can_do tid (required_skill db t) v \<longrightarrow> assign_score tid db t v \<le> assign_score tid db t u"
    "(r, db') = assign_write tid taskId (u_id u) db"
proof -
  from assms obtain t where t: "List.find (\<lambda>t. t_id t = taskId \<and> t_tenantId t = tid) (tasks db) = Some t"
    by (auto simp: assign_within_def not_assigned_def split: if_splits option.splits)
  let ?us = "eligible (required_skill db t) (lock_eligible_candidates tid db)"
  from assms t obtain u s where u: "pick_best (assign_score tid db t) ?us = Some (u, s)"
    and w: "(r, db') = assign_write tid taskId (u_id u) db"
    by (auto simp: assign_within_def not_assigned_def Let_def split: if_splits option.splits)
  from pick_best_max [OF u] have "u \<in> set ?us" "\<forall>v \<in> set ?us. assign_score tid db t v \<le> assign_score tid db t u"
    by auto
  with t w show thesis by (intro that [OF t]) (auto simp: set_eligible)
qed

lemma assign_within_cases:
  assumes "assign_within tid taskId db = Inr (r, db')"
  obtains (kept) "\<not> as_assigned r" "db' = db"
  | (written) uid where "(r, db') = assign_write tid taskId uid db" "as_assigned r"
proof (cases "as_assigned r")
  case True
  from assms True show thesis by (rule assign_within_assigned) (rule written [OF _ True])
next
  case False
  with assms have "db' = db"
    by (auto simp: assign_within_def assign_write_def Let_def split: if_splits option.splits prod.splits)
  with False show thesis by (rule kept)
qed

lemma others_assign_within:
  assumes "assign_within tid taskId db = Inr (r, db')"
  shows "others tid db' = others tid db"
  using assms
proof (cases rule: assign_within_cases)
  case (written uid)
  have "filter (\<lambda>r. t_tenantId r \<noteq> tid) (snd (update_rows (assign_where tid taskId)
      (\<lambda>t. t\<lparr>t_assignedToUserId := Some uid, t_status := ASSIGNED\<rparr>) (tasks db))) = filter (\<lambda>r. t_tenantId r \<noteq> tid) (tasks db)"
    by (rule filter_update_rows) (simp add: assign_where_def)
  with written show ?thesis
    by (auto simp: assign_write_def split_beta split: if_splits intro: others_tasks_update)
qed simp

interpretation assign_op: tenant_op tid "assign_within tid taskId" for tid taskId
  by unfold_locales (rule others_assign_within)

lemma assign_task_cases:
  assumes "assign_task e tid taskId db = (res, db')"
  obtains (failed) err where "res = Inl err" "db' = db"
  | (ran) r db1 where "is_uuid tid" "assign_within tid taskId db = Inr (r, db1)" "res = Inr r"
      "db' = (if as_assigned r \<and> truthy (as_userId r)
              then outbox_create e tid ''task.assigned'' (assigned_payload taskId (the (as_userId r))) db1 else db1)"
proof (cases "for_tenant tid (assign_within tid taskId) db")
  case (Pair r1 db1)
  show thesis
  proof (cases r1)
    case (Inl err)
    with Pair have "db1 = db" by (simp add: for_tenant_Inl)
    with assms Pair Inl show thesis by (intro failed [of err]) (simp_all add: assign_task_def)
  next
    case (Inr r)
    with Pair have w: "is_uuid tid" "assign_within tid taskId db = Inr (r, db1)" by (simp_all add: for_tenant_Inr)
    with assms Pair Inr show thesis
      by (intro ran [OF w]) (auto simp: assign_task_def for_tenant_def split: if_splits)
  qed
qed

lemma others_assign_task: "others tid (snd (assign_task e tid taskId db)) = others tid db"
proof -
  obtain r db' where run: "assign_task e tid taskId db = (r, db')" by fastforce
  then show ?thesis
    by (cases rule: assign_task_cases) (simp_all add: run others_assign_within)
qed

text \<open>C6. A successful assignment goes to an active technician of the tenant who has the required
  skill and whose score no other such technician exceeds; exactly the waiting task row changes
  and one task.assigned event names the technician.\<close>
theorem assign_task_picks_best:
  assumes "assign_task e tid taskId db = (Inr r, db')" and "as_assigned r"
    and "\<forall>u \<in> set (users db). u_id u \<noteq> []"
  shows "\<exists>t u. List.find (\<lambda>t. t_id t = taskId \<and> t_tenantId t = tid) (tasks db) = Some t
    \<and> u \<in> set (users db) \<and> as_userId r = Some (u_id u) \<and> can_do tid (required_skill db t) u
    \<and> (\<forall>v \<in> set (users db). can_do tid (required_skill db t) v
          \<longrightarrow> assign_score tid db t v \<le> assign_score tid db t u)
    \<and> tasks db' = map (\<lambda>t. if assign_where tid taskId t
          then t\<lparr>t_assignedToUserId := Some (u_id u), t_status := ASSIGNED\<rparr> else t) (tasks db)
    \<and> (\<exists>row. outbox_events db' = outbox_events db @ [row] \<and> ob_eventName row = ''task.assigned''
          \<and> ob_payload row = assigned_payload taskId (u_id u))"
  using assms(1)
proof (cases rule: assign_task_cases)
  case (ran r' db1)
  with assms(2) have a: "assign_within tid taskId db = Inr (r, db1)" by simp
  from a assms(2) obtain t u where t: "List.find (\<lambda>t. t_id t = taskId \<and> t_tenantId t = tid) (tasks db) = Some t"
    and u: "u \<in> set (users db)" "can_do tid (required_skill db t) u"
    "\<forall>v \<in> set (users db). can_do tid (required_skill db t) v \<longrightarrow> assign_score tid db t v \<le> assign_score tid db t u"
    and w: "(r, db1) = assign_write tid taskId (u_id u) db"
    by (rule assign_within_assigned)
  from w assms(2) have "as_userId r = Some (u_id u)"
    and db1: "db1 = db\<lparr>tasks := snd (update_rows (assign_where tid taskId)
            (\<lambda>t. t\<lparr>t_assignedToUserId := Some (u_id u), t_status := ASSIGNED\<rparr>) (tasks db))\<rparr>"
    by (auto simp: assign_write_def not_assigned_def split_beta split: if_splits)
  with ran assms(2,3) u(1) have "db' = outbox_create e tid ''task.assigned'' (assigned_payload taskId (u_id u)) db1"
    by auto
  with t u \<open>as_userId r = Some (u_id u)\<close> db1 show ?thesis
    by (intro exI [of _ t] exI [of _ u]) (auto simp: update_rows_def new_outbox_row_def)
qed simp

text \<open>Assignment changes at most the addressed task, only its assignee and status, and only
  while it is NEW or ASSIGNED: closed, cancelled and started tasks are never reassigned.\<close>
theorem assign_task_only_waiting:
  "list_all2 (\<lambda>t t'. t' = t \<or>
      (t_id t = taskId \<and> t_tenantId t = tid \<and> t_status t \<in> {NEW, ASSIGNED} \<and> t_status t' = ASSIGNED
       \<and> t' = t\<lparr>t_assignedToUserId := t_assignedToUserId t', t_status := ASSIGNED\<rparr>))
     (tasks db) (tasks (snd (assign_task e tid taskId db)))"
proof -
  obtain r db' where run: "assign_task e tid taskId db = (r, db')" by fastforce
  then show ?thesis
  proof (cases rule: assign_task_cases)
    case failed
    with run show ?thesis by (simp add: list_all2_same)
  next
    case (ran r' db1)
    from ran(4) have "tasks db' = tasks db1" by simp
    with ran(2) run show ?thesis
      by (auto elim!: assign_within_cases
          simp: list_all2_conv_all_nth assign_write_def update_rows_def assign_where_def split: if_splits)
  qed
qed

section \<open>Instances\<close>

definition demo_worker :: "string \<Rightarrow> string list \<Rightarrow> user" where
  "demo_worker uid skills = \<lparr>u_id = uid, u_tenantId = demo_tenant, u_email = uid, u_passwordHash = [],
     u_name = uid, u_role = FIELD, u_isActive = True, u_skills = skills, u_homeLat = None,
     u_homeLng = None, u_mustChangePassword = False, u_lastLoginAt = None, u_createdAt = 0\<rparr>"

definition demo_config :: tenant_config where
  "demo_config = \<lparr>cf_tenantId = demo_tenant, cf_enabledModules = JArr [JStr ''scheduling''],
     cf_theme = JObj [], cf_schedulingWeights = None, cf_emailTemplates = JObj [],
     cf_llmMonthlyBudgetMinor = None\<rparr>"

definition demo_sched_db :: db where
  "demo_sched_db = demo_db\<lparr>users := [demo_worker ''u1'' [], demo_worker ''u2'' []],
     tenant_configs := [demo_config]\<rparr>"

theorem assign_task_picks_best_witness:
  "\<exists>r db'. assign_task demo_env demo_tenant ''t1'' demo_sched_db = (Inr r, db')
     \<and> as_assigned r \<and> (\<exists>row. outbox_events db' = [row] \<and> ob_eventName row = ''task.assigned'')"
proof -
  obtain u s where u: "pick_best (assign_score demo_tenant demo_sched_db demo_task)
      [demo_worker ''u1'' [], demo_worker ''u2'' []] = Some (u, s)"
    using pick_best_None by (metis list.distinct(1) not_None_eq prod.collapse)
  have "assign_within demo_tenant ''t1'' demo_sched_db = Inr (assign_write demo_tenant ''t1'' (u_id u) demo_sched_db)"
    using u
    by (simp add: assign_within_def scheduling_enabled_def tenant_config_of_def to_string_array_def
        List.map_filter_simps required_skill_def eligible_def lock_eligible_candidates_def
        demo_sched_db_def demo_config_def demo_defs demo_worker_def Let_def)
  moreover have "assign_write demo_tenant ''t1'' (u_id u) demo_sched_db =
     (\<lparr>as_assigned = True, as_userId = Some (u_id u), as_reason = None\<rparr>, snd (assign_write demo_tenant ''t1'' (u_id u) demo_sched_db))"
    by (simp add: assign_write_def update_rows_def assign_where_def demo_sched_db_def demo_defs)
  ultimately have run: "assign_task demo_env demo_tenant ''t1'' demo_sched_db =
     (Inr \<lparr>as_assigned = True, as_userId = Some (u_id u), as_reason = None\<rparr>,
      snd (assign_task demo_env demo_tenant ''t1'' demo_sched_db))"
    by (auto simp: assign_task_def for_tenant_def split: prod.splits)
  have "\<forall>u \<in> set (users demo_sched_db). u_id u \<noteq> []" by (simp add: demo_sched_db_def demo_worker_def)
  from assign_task_picks_best [OF run _ this] run show ?thesis
    by (fastforce simp: demo_sched_db_def demo_db_def empty_db_def)
qed

end
