(* ===== verification/FieldRoute.thy ===== *)
theory FieldRoute
  imports Tasks Geo
begin

text \<open>
  modules/field-route: the order of a technician's stops, the day's query, and learning the
  location of a site. Time zone arithmetic is the database's: its functions are the fields
  of \<open>tz\<close>.
\<close>

section \<open>The order of the stops\<close>

record stop =
  st_taskId :: string
  st_scheduledStart :: "int option"
  st_lat :: "real option"
  st_lng :: "real option"
  st_address :: "string option"

definition has_point :: "'a stop_scheme \<Rightarrow> bool" where
  "has_point s \<longleftrightarrow> st_lat s \<noteq> None \<and> st_lng s \<noteq> None"

definition point_of :: "'a stop_scheme \<Rightarrow> real \<times> real" where
  "point_of s = (the (st_lat s), the (st_lng s))"

definition km_from :: "real \<times> real \<Rightarrow> 'a stop_scheme \<Rightarrow> real" where
  "km_from here s = haversine_km (fst here) (snd here) (fst (point_of s)) (snd (point_of s))"

text \<open>The index of the first nearest stop: \<open>bestKm\<close> starts at infinity (None).\<close>

fun nearest_from :: "('a stop_scheme \<Rightarrow> real) \<Rightarrow> nat \<Rightarrow> real option \<Rightarrow> nat \<Rightarrow> 'a stop_scheme list \<Rightarrow> nat" where
  "nearest_from f best bestKm i [] = best"
| "nearest_from f best bestKm i (s # ss) =
     (if (case bestKm of None \<Rightarrow> True | Some b \<Rightarrow> f s < b)
      then nearest_from f i (Some (f s)) (Suc i) ss
      else nearest_from f best bestKm (Suc i) ss)"

definition nearest :: "(real \<times> real) option \<Rightarrow> 'a stop_scheme list \<Rightarrow> nat" where
  "nearest here pool = (case here of None \<Rightarrow> 0 | Some h \<Rightarrow> nearest_from (km_from h) 0 None 0 pool)"

definition remove_at :: "nat \<Rightarrow> 'a list \<Rightarrow> 'a list" where
  "remove_at i xs = take i xs @ drop (Suc i) xs"

lemma nearest_from_less: "best < i + length ss \<Longrightarrow> nearest_from f best b i ss < i + length ss"
  by (induction f best b i ss rule: nearest_from.induct) (auto split: option.splits)

lemma nearest_less: "pool \<noteq> [] \<Longrightarrow> nearest here pool < length pool"
  using nearest_from_less [of 0 0 pool] by (auto simp: nearest_def split: option.splits)

lemma length_remove_at [simp]: "i < length xs \<Longrightarrow> length (remove_at i xs) = length xs - 1"
  by (simp add: remove_at_def)

lemma mset_remove_at: "i < length xs \<Longrightarrow> add_mset (xs ! i) (mset (remove_at i xs)) = mset xs"
  by (metis id_take_nth_drop mset.simps(2) mset_append remove_at_def union_mset_add_mset_right)

function nearest_neighbour :: "(real \<times> real) option \<Rightarrow> 'a stop_scheme list \<Rightarrow> 'a stop_scheme list" where
  "nearest_neighbour here pool =
     (if pool = [] then []
      else let i = nearest here pool
           in pool ! i # nearest_neighbour (Some (point_of (pool ! i))) (remove_at i pool))"
  by pat_completeness auto
termination
  by (relation "measure (\<lambda>(h, pool). length pool)") (auto simp: nearest_less)

declare nearest_neighbour.simps [simp del]

definition order_stops :: "'a stop_scheme list \<Rightarrow> (real \<times> real) option \<Rightarrow> 'a stop_scheme list" where
  "order_stops stops start =
     (let scheduled = sort_key (\<lambda>s. the (st_scheduledStart s)) (filter (\<lambda>s. st_scheduledStart s \<noteq> None) stops);
          floating = filter (\<lambda>s. st_scheduledStart s = None) stops;
          located = filter has_point floating;
          unlocated = filter (\<lambda>s. \<not> has_point s) floating;
          here = (case List.find has_point (rev scheduled) of Some s \<Rightarrow> Some (point_of s) | None \<Rightarrow> start)
      in scheduled @ nearest_neighbour here located @ unlocated)"

section \<open>Navigation links\<close>

text \<open>\<open>toFixed(6)\<close>: the nearest millionth, the larger one in a tie.\<close>

definition pad6 :: "nat \<Rightarrow> string" where
  "pad6 n = (let s = show_nat n in replicate (6 - length s) CHR ''0'' @ s)"

definition to_fixed6 :: "real \<Rightarrow> string" where
  "to_fixed6 x =
     (let n = nat \<lfloor>\<bar>x\<bar> * 1000000 + 1 / 2\<rfloor>
      in (if x < 0 then ''-'' else []) @ show_nat (n div 1000000) @ ''.'' @ pad6 (n mod 1000000))"

definition waze_url :: "'a stop_scheme \<Rightarrow> string option" where
  "waze_url s =
     (case (st_lat s, st_lng s) of
        (Some lat, Some lng) \<Rightarrow>
          Some (''https://waze.com/ul?ll='' @ to_fixed6 lat @ '','' @ to_fixed6 lng @ ''&navigate=yes'')
      | _ \<Rightarrow>
          (let address = map_option trim (st_address s)
           in if truthy address
              then Some (''https://waze.com/ul?q='' @ encode_uri_component (the address) @ ''&navigate=yes'')
              else None))"

section \<open>The day\<close>

record tz =
  tz_date :: "int \<Rightarrow> string"
  tz_day_start :: "string \<Rightarrow> int"
  tz_day_end :: "string \<Rightarrow> int"

record day_row = stop +
  dr_title :: string
  dr_status :: task_status
  dr_priority :: int
  dr_createdAt :: int
  dr_scheduledEnd :: "int option"
  dr_confirmed :: bool
  dr_rescheduleRequested :: bool
  dr_onTheWay :: bool
  dr_customerName :: string
  dr_phone :: "string option"
  dr_overdue :: bool

definition coalesce :: "'a option \<Rightarrow> 'a option \<Rightarrow> 'a option" where
  "coalesce x y = (case x of None \<Rightarrow> y | Some v \<Rightarrow> Some v)"

definition day_where :: "string \<Rightarrow> string \<Rightarrow> bool \<Rightarrow> int \<Rightarrow> int \<Rightarrow> task \<Rightarrow> bool" where
  "day_where tid uid isToday s e t \<longleftrightarrow>
     t_tenantId t = tid \<and> t_assignedToUserId t = Some uid
     \<and> (case t_scheduledStart t of
          None \<Rightarrow> isToday \<and> t_status t \<in> {NEW, ASSIGNED, IN_PROGRESS}
        | Some at' \<Rightarrow> (s \<le> at' \<and> at' < e \<and> t_status t \<noteq> CANCELLED)
            \<or> (isToday \<and> t_status t \<in> {NEW, ASSIGNED, IN_PROGRESS} \<and> at' < s))"

definition day_row_of :: "int \<Rightarrow> task \<Rightarrow> customer \<Rightarrow> day_row" where
  "day_row_of s t c = \<lparr>st_taskId = t_id t, st_scheduledStart = t_scheduledStart t,
     st_lat = coalesce (t_locationLat t) (c_lat c), st_lng = coalesce (t_locationLng t) (c_lng c),
     st_address = c_address c, dr_title = t_title t, dr_status = t_status t,
     dr_priority = t_priority t, dr_createdAt = t_createdAt t, dr_scheduledEnd = t_scheduledEnd t,
     dr_confirmed = (t_customerConfirmedAt t \<noteq> None),
     dr_rescheduleRequested = (t_rescheduleRequest t \<noteq> None),
     dr_onTheWay = (t_onTheWayAt t \<noteq> None), dr_customerName = c_name c, dr_phone = c_phone c,
     dr_overdue = (case t_scheduledStart t of None \<Rightarrow> False | Some at' \<Rightarrow> at' < s)\<rparr>"

definition max_stops :: nat where
  "max_stops = 50"

definition day_rows :: "string \<Rightarrow> string \<Rightarrow> bool \<Rightarrow> int \<Rightarrow> int \<Rightarrow> db \<Rightarrow> day_row list" where
  "day_rows tid uid isToday s e db =
     take max_stops
       (sort_key (\<lambda>r. (nulls_last (st_scheduledStart r), dr_priority r, dr_createdAt r))
         (List.map_filter (\<lambda>t. map_option (day_row_of s t)
              (List.find (\<lambda>c. c_id c = t_customerId t \<and> c_tenantId c = tid) (customers db)))
           (filter (day_where tid uid isToday s e) (tasks db))))"

text \<open>What a stop looks like to the client: an unfinished overdue job is marked as such.\<close>

record day_stop =
  ds_row :: day_row
  ds_overdue :: bool
  ds_hasLocation :: bool
  ds_wazeUrl :: "string option"

definition to_stop :: "day_row \<Rightarrow> day_stop" where
  "to_stop r = \<lparr>ds_row = r, ds_overdue = (dr_overdue r \<and> dr_status r \<noteq> CLOSED),
     ds_hasLocation = has_point r, ds_wazeUrl = waze_url r\<rparr>"

record my_day_view =
  md_date :: string
  md_isToday :: bool
  md_stops :: "day_stop list"
  md_done :: "day_stop list"

definition home_of :: "string \<Rightarrow> string \<Rightarrow> db \<Rightarrow> (real \<times> real) option" where
  "home_of tid uid db =
     (case List.find (\<lambda>u. u_id u = uid \<and> u_tenantId u = tid) (users db) of
        None \<Rightarrow> None
      | Some u \<Rightarrow> (case (u_homeLat u, u_homeLng u) of (Some lat, Some lng) \<Rightarrow> Some (lat, lng) | _ \<Rightarrow> None))"

definition my_day :: "tz \<Rightarrow> env \<Rightarrow> string \<Rightarrow> string \<Rightarrow> string option \<Rightarrow> my_day_view svc" where
  "my_day z e tid uid date db =
     for_tenant tid (\<lambda>db.
       let today = tz_date z (now e);
           day = or_else date today;
           isToday = (day = today);
           rows = day_rows tid uid isToday (tz_day_start z day) (tz_day_end z day) db;
           finished = filter (\<lambda>r. dr_status r = CLOSED) rows;
           pending = order_stops (filter (\<lambda>r. dr_status r \<noteq> CLOSED) rows) (home_of tid uid db)
       in Inr (\<lparr>md_date = day, md_isToday = isToday, md_stops = map to_stop pending,
                md_done = map to_stop finished\<rparr>, db)) db"

section \<open>Learning a site's location\<close>

record site_location =
  sl_lat :: real
  sl_lng :: real
  sl_accuracyM :: real

definition max_accuracy_m :: real where
  "max_accuracy_m = 100"

record saved_result =
  sv_saved :: bool
  sv_reason :: "string option"

definition learn_customer :: "string \<Rightarrow> string \<Rightarrow> site_location \<Rightarrow> db \<Rightarrow> nat \<times> db" where
  "learn_customer tid cid loc db =
     (let (count, cs) = update_rows
            (\<lambda>c. c_id c = cid \<and> c_tenantId c = tid \<and> c_lat c = None \<and> c_lng c = None)
            (\<lambda>c. c\<lparr>c_lat := Some (sl_lat loc), c_lng := Some (sl_lng loc)\<rparr>) (customers db)
      in (count, db\<lparr>customers := cs\<rparr>))"

definition learn_task :: "string \<Rightarrow> string \<Rightarrow> site_location \<Rightarrow> db \<Rightarrow> db" where
  "learn_task tid taskId loc db = db\<lparr>tasks := snd (update_rows
     (\<lambda>t. t_id t = taskId \<and> t_tenantId t = tid \<and> t_locationLat t = None \<and> t_locationLng t = None)
     (\<lambda>t. t\<lparr>t_locationLat := Some (sl_lat loc), t_locationLng := Some (sl_lng loc)\<rparr>) (tasks db))\<rparr>"

definition learn_tx :: "string \<Rightarrow> string \<Rightarrow> site_location \<Rightarrow> actor \<Rightarrow> saved_result tx" where
  "learn_tx tid taskId loc act db =
     (case List.find (\<lambda>t. t_id t = taskId \<and> t_tenantId t = tid \<and> task_scope (Some act) t) (tasks db) of
        None \<Rightarrow> Inl (NotFound ''Task not found'')
      | Some t \<Rightarrow>
          if sl_accuracyM loc > max_accuracy_m
          then Inr (\<lparr>sv_saved = False, sv_reason = Some ''inaccurate''\<rparr>, db)
          else
            let (count, db1) = learn_customer tid (t_customerId t) loc db;
                db2 = learn_task tid (t_id t) loc db1;
                db3 = (if count > 0
                       then audit_create \<lparr>al_tenantId = tid, al_userId = Some (a_id act),
                              al_action = ''customer.location_learned'', al_entityType = ''Customer'',
                              al_entityId = t_customerId t,
                              al_metadata = Some (JObj [(''taskId'', JStr taskId),
                                (''accuracyM'', jint \<lfloor>sl_accuracyM loc + 1 / 2\<rfloor>)])\<rparr> db2
                       else db2)
            in Inr (\<lparr>sv_saved = count > 0,
                     sv_reason = (if count > 0 then None else Some ''already_known'')\<rparr>, db3))"

definition learn_site_location ::
  "string \<Rightarrow> string \<Rightarrow> site_location \<Rightarrow> actor \<Rightarrow> saved_result svc" where
  "learn_site_location tid taskId loc act db = for_tenant tid (learn_tx tid taskId loc act) db"

section \<open>Properties\<close>

lemma mset_nearest_neighbour: "mset (nearest_neighbour here pool) = mset pool"
proof (induction here pool rule: nearest_neighbour.induct)
  case (1 here pool)
  show ?case
  proof (cases "pool = []")
    case True
    then show ?thesis by (simp add: nearest_neighbour.simps)
  next
    case False
    with 1 [OF False refl] nearest_less [OF False, of here] show ?thesis
      by (subst nearest_neighbour.simps) (simp add: Let_def mset_remove_at)
  qed
qed

lemma mset_filter_split: "mset (filter P xs) + mset (filter (\<lambda>x. \<not> P x) xs) = mset xs"
  by (induction xs) auto

text \<open>Ordering a day's stops loses and invents none, keeps the appointments first in time
  order, and puts only unscheduled stops after them.\<close>
theorem order_stops_permutes:
  "mset (order_stops stops start) = mset stops
   \<and> (\<exists>rest. order_stops stops start
        = sort_key (\<lambda>s. the (st_scheduledStart s)) (filter (\<lambda>s. st_scheduledStart s \<noteq> None) stops) @ rest
        \<and> list_all (\<lambda>s. st_scheduledStart s = None) rest)"
proof
  let ?sch = "filter (\<lambda>s. st_scheduledStart s \<noteq> None) stops"
  let ?flo = "filter (\<lambda>s. \<not> st_scheduledStart s \<noteq> None) stops"
  have "mset (order_stops stops start) = mset ?sch + (mset (filter has_point ?flo) + mset (filter (\<lambda>s. \<not> has_point s) ?flo))"
    by (simp add: order_stops_def Let_def mset_nearest_neighbour)
  also have "\<dots> = mset ?sch + mset ?flo" by (simp only: mset_filter_split)
  also have "\<dots> = mset stops" by (rule mset_filter_split)
  finally show "mset (order_stops stops start) = mset stops" .
  have set: "set (nearest_neighbour h pool) = set pool" for h and pool :: "'a stop_scheme list"
    by (metis mset_nearest_neighbour set_mset_mset)
  show "\<exists>rest. order_stops stops start
        = sort_key (\<lambda>s. the (st_scheduledStart s)) ?sch @ rest
        \<and> list_all (\<lambda>s. st_scheduledStart s = None) rest"
    unfolding order_stops_def Let_def
    by (intro exI conjI, rule refl) (auto simp: set list_all_iff)
qed

lemma others_learn_tx:
  assumes "learn_tx tid taskId loc act db = Inr (r, db')"
  shows "others tid db' = others tid db"
proof -
  have "filter (\<lambda>c. c_tenantId c \<noteq> tid) (snd (update_rows
     (\<lambda>c. c_id c = cid \<and> c_tenantId c = tid \<and> c_lat c = None \<and> c_lng c = None) g cs)) = filter (\<lambda>c. c_tenantId c \<noteq> tid) cs"
    if "\<And>c. c_tenantId (g c) = c_tenantId c" for cid cs and g :: "customer \<Rightarrow> customer"
    by (rule filter_update_rows) (simp add: that)
  moreover have "filter (\<lambda>t. t_tenantId t \<noteq> tid) (snd (update_rows
     (\<lambda>t. t_id t = i \<and> t_tenantId t = tid \<and> t_locationLat t = None \<and> t_locationLng t = None) g ts)) = filter (\<lambda>t. t_tenantId t \<noteq> tid) ts"
    if "\<And>c. t_tenantId (g c) = t_tenantId c" for i ts and g :: "task \<Rightarrow> task"
    by (rule filter_update_rows) (simp add: that)
  ultimately show ?thesis
    using assms by (auto simp: learn_tx_def learn_customer_def learn_task_def others_def audit_create_def
        split_beta Let_def split: option.splits if_splits)
qed

interpretation learn_op: tenant_op tid "learn_tx tid taskId loc act" for tid taskId loc act
  by unfold_locales (rule others_learn_tx)

definition learned_only :: "string \<Rightarrow> site_location \<Rightarrow> db \<Rightarrow> db \<Rightarrow> bool" where
  "learned_only tid loc db db' \<longleftrightarrow>
     list_all2 (\<lambda>c c'. c' = c \<or> (c_lat c = None \<and> c_lng c = None \<and> c_tenantId c = tid
        \<and> sl_accuracyM loc \<le> max_accuracy_m
        \<and> c' = c\<lparr>c_lat := Some (sl_lat loc), c_lng := Some (sl_lng loc)\<rparr>))
       (customers db) (customers db')
     \<and> list_all2 (\<lambda>t t'. t' = t \<or> (t_locationLat t = None \<and> t_locationLng t = None \<and> t_tenantId t = tid
        \<and> sl_accuracyM loc \<le> max_accuracy_m
        \<and> t' = t\<lparr>t_locationLat := Some (sl_lat loc), t_locationLng := Some (sl_lng loc)\<rparr>))
       (tasks db) (tasks db')"

lemma learn_tx_only:
  assumes "learn_tx tid taskId loc act db = Inr (r, db')"
  shows "learned_only tid loc db db'"
  using assms
  by (auto simp: learned_only_def learn_tx_def learn_customer_def learn_task_def update_rows_def
      list_all2_conv_all_nth Let_def audit_create_def not_less split: option.splits if_splits)

text \<open>Learning a site's location only fills rows of the tenant that have no location at all,
  and only from a sample accurate to 100 m; no stored location is ever replaced.\<close>
theorem learn_never_overwrites:
  "learned_only tid loc db (snd (learn_site_location tid taskId loc act db))"
proof -
  have "learned_only tid loc db db" by (simp add: learned_only_def list_all2_same)
  then show ?thesis
    by (auto simp: learn_site_location_def for_tenant_def learn_tx_only split: sum.splits prod.splits)
qed

end
