(* ===== verification/Catalog.thy ===== *)
theory Catalog
  imports Database
begin

text \<open>
  The two catalogues a manager edits: the price list (modules/price-list) with how many
  templates use each code, and the job type templates (modules/job-type-templates) with
  their normalised skill.
\<close>

section \<open>Price list\<close>

text \<open>The price codes named in a checklist; an entry without a textual code counts for none.\<close>

definition checklist_codes :: "json \<Rightarrow> string list" where
  "checklist_codes v =
     (case v of JArr items \<Rightarrow> List.map_filter (\<lambda>i. jstr_opt (jget ''priceCode'' i)) items | _ \<Rightarrow> [])"

definition template_usage :: "string \<Rightarrow> db \<Rightarrow> string \<Rightarrow> nat" where
  "template_usage tid db code = length (filter (\<lambda>j. jt_tenantId j = tid \<and> jt_isActive j
     \<and> code \<in> set (checklist_codes (jt_defaultChecklist j))) (job_type_templates db))"

definition price_find_all :: "string \<Rightarrow> bool \<Rightarrow> (price_list_item \<times> nat) list svc" where
  "price_find_all tid includeInactive db =
     for_tenant tid (\<lambda>db. Inr (map (\<lambda>p. (p, template_usage tid db (pl_code p)))
       (sort_key (\<lambda>p. (if pl_isActive p then 0 else 1 :: nat, pl_code p))
         (filter (\<lambda>p. pl_tenantId p = tid \<and> (includeInactive \<or> pl_isActive p)) (price_list_items db))), db)) db"

definition price_audit :: "string \<Rightarrow> string option \<Rightarrow> string \<Rightarrow> string \<Rightarrow> json \<Rightarrow> db \<Rightarrow> db" where
  "price_audit tid uid action itemId meta =
     audit_create \<lparr>al_tenantId = tid, al_userId = uid, al_action = action,
       al_entityType = ''PriceListItem'', al_entityId = itemId, al_metadata = Some meta\<rparr>"

definition price_create_tx ::
  "env \<Rightarrow> string \<Rightarrow> string \<Rightarrow> string \<Rightarrow> int \<Rightarrow> string option \<Rightarrow> (price_list_item \<times> nat) tx" where
  "price_create_tx e tid code desc price uid db =
     (if list_ex (\<lambda>p. pl_tenantId p = tid \<and> pl_code p = code) (price_list_items db)
      then Inl (Conflict ''Price code already exists'')
      else let item = \<lparr>pl_id = next_id e db, pl_tenantId = tid, pl_code = code, pl_description = desc,
                       pl_price = price, pl_isActive = True\<rparr>
           in Inr ((item, 0), price_audit tid uid ''price_list_item.created'' (pl_id item)
                (JObj [(''code'', JStr code), (''price'', JStr (decimal_text price))])
                ((bump_id db)\<lparr>price_list_items := price_list_items db @ [item]\<rparr>)))"

definition price_create ::
  "env \<Rightarrow> string \<Rightarrow> string \<Rightarrow> string \<Rightarrow> int \<Rightarrow> string option \<Rightarrow> (price_list_item \<times> nat) svc" where
  "price_create e tid code desc price uid db = for_tenant tid (price_create_tx e tid code desc price uid) db"

record price_patch =
  pp_description :: "string option"
  pp_price :: "int option"
  pp_isActive :: "bool option"

definition apply_patch :: "price_patch \<Rightarrow> price_list_item \<Rightarrow> price_list_item" where
  "apply_patch d p = p\<lparr>pl_description := or_else (pp_description d) (pl_description p),
     pl_price := or_else (pp_price d) (pl_price p), pl_isActive := or_else (pp_isActive d) (pl_isActive p)\<rparr>"

definition change_json :: "json \<Rightarrow> json \<Rightarrow> json" where
  "change_json from to' = JObj [(''from'', from), (''to'', to')]"

definition price_changes :: "price_list_item \<Rightarrow> price_list_item \<Rightarrow> (string \<times> json) list" where
  "price_changes before item =
     (if pl_description item \<noteq> pl_description before
      then [(''description'', change_json (JStr (pl_description before)) (JStr (pl_description item)))] else [])
     @ (if pl_price item \<noteq> pl_price before
        then [(''price'', change_json (JStr (decimal_text (pl_price before))) (JStr (decimal_text (pl_price item))))] else [])
     @ (if pl_isActive item \<noteq> pl_isActive before
        then [(''isActive'', change_json (JBool (pl_isActive before)) (JBool (pl_isActive item)))] else [])"

definition price_update_tx ::
  "string \<Rightarrow> string \<Rightarrow> price_patch \<Rightarrow> string option \<Rightarrow> (price_list_item \<times> nat) tx" where
  "price_update_tx tid itemId d uid db =
     (case List.find (\<lambda>p. pl_id p = itemId \<and> pl_tenantId p = tid) (price_list_items db) of
        None \<Rightarrow> Inl (NotFound ''Price list item not found'')
      | Some before \<Rightarrow>
          let item = apply_patch d before;
              db1 = db\<lparr>price_list_items := snd (update_rows (\<lambda>p. pl_id p = itemId \<and> pl_tenantId p = tid)
                (apply_patch d) (price_list_items db))\<rparr>;
              changes = price_changes before item;
              db2 = (if changes \<noteq> []
                     then price_audit tid uid ''price_list_item.updated'' itemId
                       (JObj [(''code'', JStr (pl_code item)), (''changes'', JObj changes)]) db1
                     else db1)
          in Inr ((item, template_usage tid db2 (pl_code item)), db2))"

definition price_update ::
  "string \<Rightarrow> string \<Rightarrow> price_patch \<Rightarrow> string option \<Rightarrow> (price_list_item \<times> nat) svc" where
  "price_update tid itemId d uid db =
     (if pp_description d = None \<and> pp_price d = None \<and> pp_isActive d = None
      then (Inl (BadRequest ''Nothing to update''), db)
      else for_tenant tid (price_update_tx tid itemId d uid) db)"

section \<open>Job type templates\<close>

definition normalize_skill :: "string option \<Rightarrow> string option" where
  "normalize_skill skill =
     (let n = map_option (to_lower \<circ> trim) skill in if truthy n then n else None)"

definition templates_active :: "string \<Rightarrow> job_type_template list svc" where
  "templates_active tid db = for_tenant tid (\<lambda>db. Inr (sort_key jt_name
     (filter (\<lambda>j. jt_tenantId j = tid \<and> jt_isActive j) (job_type_templates db)), db)) db"

definition template_find_one :: "string \<Rightarrow> string \<Rightarrow> job_type_template option svc" where
  "template_find_one tid jid db = for_tenant tid (\<lambda>db.
     Inr (List.find (\<lambda>j. jt_id j = jid \<and> jt_tenantId j = tid) (job_type_templates db), db)) db"

record template_params =
  tp_name :: string
  tp_requiredSkill :: "string option"
  tp_fields :: json
  tp_defaultChecklist :: json
  tp_defaultPriority :: "int option"

text \<open>The entry of the log of an action on a template.\<close>

definition template_audit :: "string \<Rightarrow> string option \<Rightarrow> string \<Rightarrow> string \<Rightarrow> json option \<Rightarrow> db \<Rightarrow> db" where
  "template_audit tid uid action entityId meta db =
     audit_create \<lparr>al_tenantId = tid, al_userId = uid, al_action = action, al_entityType = ''JobTypeTemplate'',
       al_entityId = entityId, al_metadata = meta\<rparr> db"

declare template_audit_def [simp]

definition template_create_tx ::
  "env \<Rightarrow> string \<Rightarrow> template_params \<Rightarrow> string option \<Rightarrow> job_type_template tx" where
  "template_create_tx e tid p uid db =
     (if list_ex (\<lambda>j. jt_tenantId j = tid \<and> jt_name j = trim (tp_name p)) (job_type_templates db)
      then Inl (PrismaKnown ''P2002'')
      else let j = \<lparr>jt_id = next_id e db, jt_tenantId = tid, jt_name = trim (tp_name p),
                    jt_requiredSkill = normalize_skill (tp_requiredSkill p), jt_fields = tp_fields p,
                    jt_defaultPriority = or_else (tp_defaultPriority p) 2,
                    jt_defaultChecklist = tp_defaultChecklist p, jt_isActive = True,
                    jt_createdAt = now e\<rparr>
           in Inr (j, template_audit tid uid ''job_type_template.created'' (jt_id j)
                (Some (JObj [(''name'', JStr (jt_name j)), (''requiredSkill'', jopt (jt_requiredSkill j))]))
              ((bump_id db)\<lparr>job_type_templates := job_type_templates db @ [j]\<rparr>)))"

definition template_create ::
  "env \<Rightarrow> string \<Rightarrow> template_params \<Rightarrow> string option \<Rightarrow> job_type_template svc" where
  "template_create e tid p uid db = for_tenant tid (template_create_tx e tid p uid) db"

section \<open>Isolation\<close>

lemma others_price_create_tx:
  "price_create_tx e tid code desc price uid db = Inr (r, db') \<Longrightarrow> others tid db' = others tid db"
  by (auto simp: price_create_tx_def price_audit_def Let_def others_def audit_create_def bump_id_def split: if_splits)

lemma others_price_update_tx:
  assumes "price_update_tx tid itemId d uid db = Inr (r, db')"
  shows "others tid db' = others tid db"
proof -
  have "filter (\<lambda>p. pl_tenantId p \<noteq> tid) (snd (update_rows (\<lambda>p. pl_id p = itemId \<and> pl_tenantId p = tid)
      (apply_patch d) (price_list_items db))) = filter (\<lambda>p. pl_tenantId p \<noteq> tid) (price_list_items db)"
    by (rule filter_update_rows) (simp add: apply_patch_def)
  with assms show ?thesis
    by (auto simp: price_update_tx_def price_audit_def Let_def others_def audit_create_def split: option.splits if_splits)
qed

lemma others_template_create_tx:
  "template_create_tx e tid p uid db = Inr (r, db') \<Longrightarrow> others tid db' = others tid db"
  by (auto simp: template_create_tx_def Let_def others_def audit_create_def bump_id_def split: if_splits)

interpretation price_create_op: tenant_op tid "price_create_tx e tid code desc price uid" for e tid code desc price uid
  by unfold_locales (rule others_price_create_tx)

interpretation price_update_op: tenant_op tid "price_update_tx tid itemId d uid" for tid itemId d uid
  by unfold_locales (rule others_price_update_tx)

interpretation template_create_op: tenant_op tid "template_create_tx e tid p uid" for e tid p uid
  by unfold_locales (rule others_template_create_tx)

section \<open>Properties\<close>

lemma price_changes_empty: "price_changes before (apply_patch d before) = [] \<longleftrightarrow> apply_patch d before = before"
  by (cases before) (auto simp: price_changes_def apply_patch_def)

text \<open>Updating a price list item changes only that item, never its code nor any invoice or
  quote line, and writes one audit entry exactly when a value really changed.\<close>
theorem price_update_effect:
  assumes "price_update tid itemId d uid db = (Inr (item, used), db')"
  shows "\<exists>before \<in> set (price_list_items db). pl_id before = itemId \<and> pl_tenantId before = tid
    \<and> item = apply_patch d before \<and> pl_code item = pl_code before
    \<and> price_list_items db' = map (\<lambda>p. if pl_id p = itemId \<and> pl_tenantId p = tid then apply_patch d p else p) (price_list_items db)
    \<and> invoice_line_items db' = invoice_line_items db \<and> quote_lines db' = quote_lines db
    \<and> (if item = before then audit_logs db' = audit_logs db
       else \<exists>entry. audit_logs db' = audit_logs db @ [entry] \<and> al_action entry = ''price_list_item.updated''
              \<and> al_entityId entry = itemId \<and> al_userId entry = uid)"
proof -
  from assms have "price_update_tx tid itemId d uid db = Inr ((item, used), db')"
    by (auto simp: price_update_def for_tenant_Inr split: if_splits)
  then obtain before where b: "List.find (\<lambda>p. pl_id p = itemId \<and> pl_tenantId p = tid) (price_list_items db) = Some before"
    and i: "item = apply_patch d before"
    and db': "db' = (let db1 = db\<lparr>price_list_items := snd (update_rows (\<lambda>p. pl_id p = itemId \<and> pl_tenantId p = tid)
                (apply_patch d) (price_list_items db))\<rparr>
       in if price_changes before item \<noteq> []
                     then price_audit tid uid ''price_list_item.updated'' itemId
                       (JObj [(''code'', JStr (pl_code item)), (''changes'', JObj (price_changes before item))]) db1
                     else db1)"
    by (auto simp: price_update_tx_def Let_def split: option.splits)
  have audit: "if item = before then audit_logs db' = audit_logs db
       else \<exists>entry. audit_logs db' = audit_logs db @ [entry] \<and> al_action entry = ''price_list_item.updated''
              \<and> al_entityId entry = itemId \<and> al_userId entry = uid"
    using db' price_changes_empty [of before d] by (auto simp: i price_audit_def Let_def)
  have rows: "price_list_items db' = map (\<lambda>p. if pl_id p = itemId \<and> pl_tenantId p = tid then apply_patch d p else p) (price_list_items db)"
    "invoice_line_items db' = invoice_line_items db" "quote_lines db' = quote_lines db"
    using db' by (auto simp: update_rows_def price_audit_def Let_def)
  from find_SomeD [OF b] audit rows i show ?thesis
    by (intro bexI [of _ before]) (auto simp: apply_patch_def)
qed

text \<open>A normalised skill is absent or a non-empty, trimmed, lower-case text; normalising
  again changes nothing, and surrounding spaces and case do not matter.\<close>
theorem normalize_skill_canonical:
  "normalize_skill (normalize_skill s) = normalize_skill s
   \<and> (normalize_skill s = None \<or> (\<exists>n. normalize_skill s = Some n \<and> n \<noteq> [] \<and> trim n = n \<and> to_lower n = n))
   \<and> normalize_skill (Some (trim a)) = normalize_skill (Some a)
   \<and> normalize_skill (Some (to_lower a)) = normalize_skill (Some a)"
  by (cases s) (auto simp: normalize_skill_def Let_def trim_to_lower)

section \<open>Instances\<close>

definition demo_price :: price_list_item where
  "demo_price = \<lparr>pl_id = ''p1'', pl_tenantId = demo_tenant, pl_code = ''V1'', pl_description = ''Visit'',
     pl_price = 1500, pl_isActive = True\<rparr>"

definition demo_price_db :: db where
  "demo_price_db = demo_db\<lparr>price_list_items := [demo_price]\<rparr>"

definition demo_patch :: price_patch where
  "demo_patch = \<lparr>pp_description = None, pp_price = Some 2000, pp_isActive = None\<rparr>"

theorem price_update_effect_witness:
  "\<exists>item used db'. price_update demo_tenant ''p1'' demo_patch (Some ''u1'') demo_price_db = (Inr (item, used), db')
     \<and> pl_code item = ''V1'' \<and> pl_price item = 2000"
proof -
  obtain item used db' where
    run: "price_update demo_tenant ''p1'' demo_patch (Some ''u1'') demo_price_db = (Inr (item, used), db')"
    by (simp add: price_update_def for_tenant_def price_update_tx_def Let_def demo_patch_def demo_price_db_def demo_price_def)
  from price_update_effect [OF run] obtain before where
    "before \<in> set (price_list_items demo_price_db)" "item = apply_patch demo_patch before" by blast
  then have "item = apply_patch demo_patch demo_price" by (simp add: demo_price_db_def)
  then show ?thesis using run by (auto simp: apply_patch_def demo_patch_def demo_price_def)
qed

end
