(* ===== verification/Customers.thy ===== *)
theory Customers
  imports Database
begin

text \<open>
  modules/customers/customers.service.ts: listing, exact lookup by e-mail, creation with
  normalised contact data, and the autocomplete search.
\<close>

definition customers_page_size :: nat where
  "customers_page_size = 50"

definition search_limit :: nat where
  "search_limit = 10"

definition customers_find_all ::
  "string \<Rightarrow> nat option \<Rightarrow> string option \<Rightarrow> (customer list \<times> string option) svc" where
  "customers_find_all tid k cursor db =
     for_tenant tid (\<lambda>db.
       let n = or_else k customers_page_size;
           rows = sort_key (\<lambda>c. (Desc (c_createdAt c), Desc (c_id c)))
             (filter (\<lambda>c. c_tenantId c = tid) (customers db));
           items = take n (after_cursor c_id (if truthy cursor then cursor else None) rows)
       in Inr ((items, if length items = n \<and> items \<noteq> [] then Some (c_id (last items)) else None), db)) db"

definition customer_find_one :: "string \<Rightarrow> string \<Rightarrow> customer option svc" where
  "customer_find_one tid cid db =
     for_tenant tid (\<lambda>db. Inr (List.find (\<lambda>c. c_id c = cid \<and> c_tenantId c = tid) (customers db), db)) db"

text \<open>Exact match, the oldest customer first.\<close>

definition find_by_email :: "string \<Rightarrow> string \<Rightarrow> customer option svc" where
  "find_by_email tid email db =
     (let n = to_lower (trim email)
      in if n = [] then (Inr None, db)
         else for_tenant tid (\<lambda>db. Inr (List.find (\<lambda>_. True) (sort_key c_createdAt
           (filter (\<lambda>c. c_tenantId c = tid \<and> c_email c = Some n) (customers db))), db)) db)"

record customer_params =
  cp_name :: string
  cp_email :: "string option"
  cp_phone :: "string option"
  cp_address :: "string option"

definition customer_row :: "env \<Rightarrow> string \<Rightarrow> customer_params \<Rightarrow> db \<Rightarrow> customer" where
  "customer_row e tid p db = \<lparr>c_id = next_id e db, c_tenantId = tid, c_name = trim (cp_name p),
     c_email = map_option (to_lower \<circ> trim) (cp_email p), c_phone = map_option trim (cp_phone p),
     c_address = map_option trim (cp_address p), c_lat = None, c_lng = None, c_isActive = True,
     c_createdAt = now e\<rparr>"

text \<open>The entry of the log of an action on a customer.\<close>

definition customer_audit :: "string \<Rightarrow> string option \<Rightarrow> string \<Rightarrow> string \<Rightarrow> json option \<Rightarrow> db \<Rightarrow> db" where
  "customer_audit tid uid action entityId meta db =
     audit_create \<lparr>al_tenantId = tid, al_userId = uid, al_action = action, al_entityType = ''Customer'',
       al_entityId = entityId, al_metadata = meta\<rparr> db"

declare customer_audit_def [simp]

definition customer_create_tx ::
  "env \<Rightarrow> string \<Rightarrow> customer_params \<Rightarrow> string option \<Rightarrow> customer tx" where
  "customer_create_tx e tid p uid db =
     (let c = customer_row e tid p db
      in Inr (c, customer_audit tid uid ''customer.created'' (c_id c) (Some (JObj [(''name'', JStr (c_name c))]))
         ((bump_id db)\<lparr>customers := customers db @ [c]\<rparr>)))"

definition customer_create :: "env \<Rightarrow> string \<Rightarrow> customer_params \<Rightarrow> string option \<Rightarrow> customer svc" where
  "customer_create e tid p uid db = for_tenant tid (customer_create_tx e tid p uid) db"

text \<open>\<open>contains\<close>: a substring anywhere; \<open>mode: insensitive\<close> compares lower case.\<close>

fun contains_sub :: "string \<Rightarrow> string \<Rightarrow> bool" where
  "contains_sub p [] = (p = [])"
| "contains_sub p (x # xs) = (starts_with p (x # xs) \<or> contains_sub p xs)"

definition search_match :: "string \<Rightarrow> customer \<Rightarrow> bool" where
  "search_match q c \<longleftrightarrow>
     contains_sub (to_lower q) (to_lower (c_name c))
     \<or> (case c_phone c of None \<Rightarrow> False | Some p \<Rightarrow> contains_sub q p)
     \<or> (case c_email c of None \<Rightarrow> False | Some m \<Rightarrow> contains_sub (to_lower q) (to_lower m))"

definition customer_search_rows :: "string \<Rightarrow> string \<Rightarrow> nat \<Rightarrow> db \<Rightarrow> customer list" where
  "customer_search_rows tid q k db = take (min k search_limit)
     (sort_key (\<lambda>c. Desc (c_createdAt c))
       (filter (\<lambda>c. c_tenantId c = tid \<and> c_isActive c \<and> search_match q c) (customers db)))"

definition customer_search :: "string \<Rightarrow> string \<Rightarrow> nat option \<Rightarrow> customer list svc" where
  "customer_search tid query k db =
     (let q = trim query
      in if length q < 2 then (Inr [], db)
         else for_tenant tid (\<lambda>db. Inr (customer_search_rows tid q (or_else k search_limit) db, db)) db)"

lemma others_customer_create_tx:
  "customer_create_tx e tid p uid db = Inr (r, db') \<Longrightarrow> others tid db' = others tid db"
  by (auto simp: customer_create_tx_def customer_row_def Let_def others_def audit_create_def bump_id_def)

interpretation customer_create_op: tenant_op tid "customer_create_tx e tid p uid" for e tid p uid
  by unfold_locales (rule others_customer_create_tx)

lemma starts_with_self: "starts_with p (p @ s)"
  by (simp add: starts_with_def)

lemma contains_sub_refl: "contains_sub p p"
  by (cases p) (simp_all add: starts_with_def)

text \<open>A customer created with an e-mail nobody of the tenant had yet is what the exact lookup
  of that e-mail returns, however it was spaced or capitalised.\<close>
theorem created_customer_is_found:
  assumes "customer_create e tid p uid db = (Inr c, db')" and "cp_email p = Some m" and "trim m \<noteq> []"
    and "\<forall>x \<in> set (customers db). c_tenantId x = tid \<longrightarrow> c_email x \<noteq> Some (to_lower (trim m))"
  shows "find_by_email tid m db' = (Inr (Some c), db')"
proof -
  from assms(1) have tid: "is_uuid tid" and c: "c = customer_row e tid p db"
    and rows: "customers db' = customers db @ [c]"
    by (auto simp: customer_create_def for_tenant_Inr customer_create_tx_def Let_def)
  have "filter (\<lambda>x. c_tenantId x = tid \<and> c_email x = Some (to_lower (trim m))) (customers db) = []"
    using assms(4) by (auto simp: filter_empty_conv)
  then have f: "filter (\<lambda>x. c_tenantId x = tid \<and> c_email x = Some (to_lower (trim m))) (customers db') = [c]"
    using assms(2) by (simp add: rows c customer_row_def)
  have ne: "to_lower (trim m) \<noteq> []" using assms(3) by (simp add: to_lower_def)
  show ?thesis
    unfolding find_by_email_def Let_def f for_tenant_def using tid ne by (simp add: f)
qed

definition demo_params :: customer_params where
  "demo_params = \<lparr>cp_name = ''Rami'', cp_email = Some '' RAMI@x.com '', cp_phone = None, cp_address = None\<rparr>"

lemma demo_customer_created:
  "\<exists>c db'. customer_create demo_env demo_tenant demo_params None demo_db = (Inr c, db')"
  by (simp add: customer_create_def for_tenant_Inr customer_create_tx_def Let_def)

theorem created_customer_is_found_witness:
  "\<exists>c db'. customer_create demo_env demo_tenant demo_params None demo_db = (Inr c, db')
     \<and> find_by_email demo_tenant '' RAMI@x.com '' db' = (Inr (Some c), db')"
proof -
  from demo_customer_created obtain c db' where
    run: "customer_create demo_env demo_tenant demo_params None demo_db = (Inr c, db')" by blast
  have "trim '' RAMI@x.com '' \<noteq> []" "to_lower (trim '' RAMI@x.com '') \<noteq> ''dana@example.com''" by code_simp+
  then have "find_by_email demo_tenant '' RAMI@x.com '' db' = (Inr (Some c), db')"
    by (intro created_customer_is_found [OF run]) (auto simp: demo_params_def demo_defs)
  with run show ?thesis by blast
qed

end
