(* ===== verification/Tenancy.thy ===== *)
theory Tenancy
  imports Database
begin

text \<open>
  How a request finds its tenant (common/tenant-context.middleware.ts) and how a tenant is
  created and looked up (modules/tenants/tenants.service.ts, and the function
  \<open>resolve_tenant_by_subdomain\<close> of migration 0002).
\<close>

section \<open>From the host name to the tenant\<close>

definition reserved :: "string list" where
  "reserved = [''www'', ''bi'', ''api'', ''admin'', ''static'', ''cdn'', ''mail'']"

definition extract_subdomain :: "string \<Rightarrow> string \<Rightarrow> string option" where
  "extract_subdomain base hostHeader =
     (let host = trim (to_lower (hd (split_on CHR '':'' hostHeader)))
      in if host = [] then None
         else if host = ''localhost'' \<or> host = ''127.0.0.1'' \<or> host = ''[::1]'' then None
         else if host = base then None
         else if \<not> ends_with (CHR ''.'' # base) host then None
         else let label = take (length host - (length base + 1)) host
              in if label = [] \<or> CHR ''.'' \<in> set label then None
                 else if label \<in> set reserved then None
                 else Some label)"

text \<open>\<open>/^[a-z0-9]([a-z0-9-]{0,61}[a-z0-9])?$/\<close>\<close>

definition label_char :: "char \<Rightarrow> bool" where
  "label_char c \<longleftrightarrow> is_digit c \<or> is_lower c"

definition is_label :: "string \<Rightarrow> bool" where
  "is_label s \<longleftrightarrow> s \<noteq> [] \<and> length s \<le> 63 \<and> label_char (hd s) \<and> label_char (last s)
     \<and> list_all (\<lambda>c. label_char c \<or> c = CHR ''-'') s"

record http_request =
  rq_host :: "string option"
  rq_xTenant :: "string option"

definition resolve_subdomain :: "string \<Rightarrow> http_request \<Rightarrow> string option" where
  "resolve_subdomain base r =
     (case extract_subdomain base (or_else (rq_host r) []) of
        Some s \<Rightarrow> Some s
      | None \<Rightarrow>
          if \<not> truthy (rq_xTenant r) then None
          else let candidate = to_lower (trim (the (rq_xTenant r)))
               in if \<not> is_label candidate then None
                  else if candidate \<in> set reserved then None
                  else Some candidate)"

definition resolve_tenant_by_subdomain :: "db \<Rightarrow> string \<Rightarrow> string option" where
  "resolve_tenant_by_subdomain db s =
     map_option tn_id (List.find (\<lambda>t. tn_subdomain t = s \<and> tn_isActive t) (tenants db))"

text \<open>The tenant id of the request: the empty string stands for no tenant.\<close>

definition tenant_of_request :: "string \<Rightarrow> http_request \<Rightarrow> db \<Rightarrow> http_error + string option" where
  "tenant_of_request base r db =
     (case resolve_subdomain base r of
        None \<Rightarrow> Inr None
      | Some s \<Rightarrow>
          (case resolve_tenant_by_subdomain db s of
             None \<Rightarrow> Inl (NotFound ''Tenant not found'')
           | Some tid \<Rightarrow> if tid = [] then Inl (NotFound ''Tenant not found'') else Inr (Some tid)))"

section \<open>Tenants\<close>

fun modules_by_vertical :: "vertical \<Rightarrow> string list" where
  "modules_by_vertical MAINTENANCE =
     [''intake'', ''tasks'', ''scheduling'', ''inventory'', ''invoicing'', ''comms'']"
| "modules_by_vertical CARPENTRY = [''intake'', ''tasks'', ''scheduling'', ''invoicing'', ''comms'']"
| "modules_by_vertical RETAIL = [''intake'', ''tasks'', ''inventory'', ''invoicing'', ''comms'']"

fun vertical_name :: "vertical \<Rightarrow> string" where
  "vertical_name MAINTENANCE = ''MAINTENANCE''"
| "vertical_name CARPENTRY = ''CARPENTRY''"
| "vertical_name RETAIL = ''RETAIL''"

definition default_theme :: json where
  "default_theme = JObj [(''primaryColor'', JStr ''#2563eb''), (''logoUrl'', JNull)]"

definition default_email_templates :: json where
  "default_email_templates = JObj
     [(''taskCreated'', JStr (utf8 [1513, 1500, 1493, 1501] @ '' {customerName}, ''
         @ utf8 [1511, 1497, 1489, 1500, 1504, 1493, 32, 1488, 1514, 32, 1508, 1504, 1497, 1497, 1514, 1498,
                 32, 1493, 1504, 1495, 1494, 1493, 1512, 32, 1488, 1500, 1497, 1498, 32, 1489, 1492, 1511, 1491, 1501, 46])),
      (''taskClosed'', JStr (utf8 [1513, 1500, 1493, 1501] @ '' {customerName}, ''
         @ utf8 [1492, 1496, 1497, 1508, 1493, 1500, 32, 1489, 1508, 1504, 1497, 1497, 1514, 1498, 32,
                 1492, 1493, 1513, 1500, 1501, 46, 32, 1508, 1497, 1512, 1493, 1496, 58, 32]
         @ ''{checklistSummary}''))]"

record create_tenant_input =
  ti_name :: string
  ti_vertical :: vertical
  ti_subdomain :: string
  ti_enabledModules :: "string list option"
  ti_theme :: "json option"
  ti_emailTemplates :: "json option"
  ti_llmMonthlyBudgetMinor :: "int option"

definition default_weights_json :: json where
  "default_weights_json = JObj [(''skillWeight'', JNum (1 / 2)), (''distanceWeight'', JNum (3 / 10)),
     (''loadWeight'', JNum (1 / 5))]"

definition tenant_config_row :: "string \<Rightarrow> create_tenant_input \<Rightarrow> tenant_config" where
  "tenant_config_row tid i =
     (let mods = or_else (ti_enabledModules i) (modules_by_vertical (ti_vertical i))
      in \<lparr>cf_tenantId = tid, cf_enabledModules = JArr (map JStr mods),
          cf_theme = or_else (ti_theme i) default_theme,
          cf_schedulingWeights = (if ''scheduling'' \<in> set mods then Some default_weights_json else None),
          cf_emailTemplates = or_else (ti_emailTemplates i) default_email_templates,
          cf_llmMonthlyBudgetMinor = ti_llmMonthlyBudgetMinor i\<rparr>)"

text \<open>The id is generated before the transaction, which runs for that very tenant.\<close>

definition create_tenant_tx ::
  "env \<Rightarrow> string \<Rightarrow> create_tenant_input \<Rightarrow> (tenant \<times> tenant_config) tx" where
  "create_tenant_tx e tid i db =
     (let sub = to_lower (trim (ti_subdomain i))
      in if list_ex (\<lambda>t. tn_subdomain t = sub \<or> tn_id t = tid) (tenants db) then Inl (PrismaKnown ''P2002'')
         else let t = \<lparr>tn_id = tid, tn_name = trim (ti_name i), tn_vertical = ti_vertical i,
                       tn_subdomain = sub, tn_isActive = True, tn_createdAt = now e\<rparr>;
                  cf = tenant_config_row tid i
              in Inr ((t, cf), audit_create \<lparr>al_tenantId = tid, al_userId = None,
                   al_action = ''tenant.created'', al_entityType = ''Tenant'', al_entityId = tid,
                   al_metadata = Some (JObj [(''subdomain'', JStr sub),
                     (''vertical'', JStr (vertical_name (ti_vertical i))),
                     (''enabledModules'', cf_enabledModules cf)])\<rparr>
                 (db\<lparr>tenants := tenants db @ [t], tenant_configs := tenant_configs db @ [cf]\<rparr>)))"

definition create_tenant :: "env \<Rightarrow> create_tenant_input \<Rightarrow> (tenant \<times> tenant_config) svc" where
  "create_tenant e i db =
     (let tid = next_id e db in for_tenant tid (create_tenant_tx e tid i) (bump_id db))"

definition find_tenant :: "string \<Rightarrow> (tenant \<times> tenant_config option) option svc" where
  "find_tenant tid db = for_tenant tid (\<lambda>db.
     Inr (map_option (\<lambda>t. (t, List.find (\<lambda>c. cf_tenantId c = tid) (tenant_configs db)))
       (List.find (\<lambda>t. tn_id t = tid) (tenants db)), db)) db"

definition find_by_subdomain :: "string \<Rightarrow> (tenant \<times> tenant_config option) option svc" where
  "find_by_subdomain s db =
     (case resolve_tenant_by_subdomain db (to_lower (trim s)) of
        None \<Rightarrow> (Inr None, db)
      | Some tid \<Rightarrow> find_tenant tid db)"

section \<open>Properties\<close>

lemma others_create_tenant_tx:
  "create_tenant_tx e tid i db = Inr (r, db') \<Longrightarrow> others tid db' = others tid db"
  by (auto simp: create_tenant_tx_def tenant_config_row_def Let_def others_def audit_create_def split: if_splits)

interpretation create_tenant_op: tenant_op tid "create_tenant_tx e tid i" for e tid i
  by unfold_locales (rule others_create_tenant_tx)

lemma extract_subdomain_Some:
  assumes "extract_subdomain base h = Some s"
  shows "trim (to_lower (hd (split_on CHR '':'' h))) = s @ CHR ''.'' # base"
    and "CHR ''.'' \<notin> set s" and "s \<noteq> []" and "s \<notin> set reserved"
proof -
  let ?h = "trim (to_lower (hd (split_on CHR '':'' h)))"
  from assms have e: "ends_with (CHR ''.'' # base) ?h" and s: "s = take (length ?h - (length base + 1)) ?h"
    by (auto simp: extract_subdomain_def Let_def split: if_splits)
  from e have "drop (length ?h - (length base + 1)) ?h = CHR ''.'' # base" by (simp add: ends_with_def)
  with s show "?h = s @ CHR ''.'' # base" by (metis append_take_drop_id)
  from assms show "CHR ''.'' \<notin> set s" "s \<noteq> []" "s \<notin> set reserved"
    by (auto simp: extract_subdomain_def Let_def split: if_splits)
qed

text \<open>C7. A request is given a tenant only if that tenant is active and its subdomain, never a
  reserved or dotted one, is exactly the label of the host or the declared header.\<close>
theorem tenant_of_request_sound:
  assumes "tenant_of_request base r db = Inr (Some tid)"
  shows "\<exists>t \<in> set (tenants db). tn_id t = tid \<and> tn_isActive t \<and> tn_subdomain t \<notin> set reserved
     \<and> CHR ''.'' \<notin> set (tn_subdomain t)
     \<and> (trim (to_lower (hd (split_on CHR '':'' (or_else (rq_host r) [])))) = tn_subdomain t @ CHR ''.'' # base
        \<or> (\<exists>x. rq_xTenant r = Some x \<and> to_lower (trim x) = tn_subdomain t))"
proof -
  from assms obtain s t where s: "resolve_subdomain base r = Some s"
    and t: "List.find (\<lambda>t. tn_subdomain t = s \<and> tn_isActive t) (tenants db) = Some t" "tn_id t = tid"
    by (auto simp: tenant_of_request_def resolve_tenant_by_subdomain_def split: option.splits if_splits)
  have "s \<notin> set reserved \<and> CHR ''.'' \<notin> set s
     \<and> (trim (to_lower (hd (split_on CHR '':'' (or_else (rq_host r) [])))) = s @ CHR ''.'' # base
        \<or> (\<exists>x. rq_xTenant r = Some x \<and> to_lower (trim x) = s))"
  proof (cases "extract_subdomain base (or_else (rq_host r) [])")
    case None
    with s obtain x where x: "rq_xTenant r = Some x" "s = to_lower (trim x)" "is_label s" "s \<notin> set reserved"
      by (cases "rq_xTenant r") (auto simp: resolve_subdomain_def Let_def split: if_splits)
    have "\<not> label_char CHR ''.''" by (simp add: label_char_def is_digit_def is_lower_def)
    with x(3) have "CHR ''.'' \<notin> set s" by (auto simp: is_label_def list_all_iff)
    with x show ?thesis by auto
  next
    case (Some s')
    with s have "s' = s" by (simp add: resolve_subdomain_def)
    with extract_subdomain_Some [OF Some] show ?thesis by simp
  qed
  with find_SomeD [OF t(1)] t(2) show ?thesis by (intro bexI [of _ t]) auto
qed

definition demo_tenant_row :: tenant where
  "demo_tenant_row = \<lparr>tn_id = demo_tenant, tn_name = ''Acme'', tn_vertical = MAINTENANCE,
     tn_subdomain = ''acme'', tn_isActive = True, tn_createdAt = 0\<rparr>"

theorem tenant_of_request_sound_witness:
  "\<exists>t \<in> set [demo_tenant_row]. tn_id t = demo_tenant \<and> tn_isActive t"
proof -
  have "resolve_subdomain ''example.com'' \<lparr>rq_host = Some ''Acme.example.com:443'', rq_xTenant = None\<rparr> = Some ''acme''"
    by code_simp
  then have "tenant_of_request ''example.com'' \<lparr>rq_host = Some ''Acme.example.com:443'', rq_xTenant = None\<rparr>
      (empty_db\<lparr>tenants := [demo_tenant_row]\<rparr>) = Inr (Some demo_tenant)"
    by (simp add: tenant_of_request_def resolve_tenant_by_subdomain_def demo_tenant_row_def demo_tenant_def)
  from tenant_of_request_sound [OF this] show ?thesis by auto
qed

end
