(* ===== verification/PublicLinks.thy ===== *)
theory PublicLinks
  imports Database
begin

text \<open>
  modules/public-links: the links a customer opens without logging in. Random tokens and
  SHA-256 are Node's: the fields of \<open>link_keys\<close>. Only the hash of a token is
  stored, and one link per subject and purpose is live.
\<close>

record link_keys =
  lk_token :: "nat \<Rightarrow> string"
  lk_hash :: "string \<Rightarrow> string"
  lk_baseUrl :: string

fun ttl_days :: "link_purpose \<Rightarrow> int" where
  "ttl_days TASK_STATUS = 30"
| "ttl_days BOOKING = 14"
| "ttl_days QUOTE_LINK = 30"

fun purpose_path :: "link_purpose \<Rightarrow> string" where
  "purpose_path TASK_STATUS = ''s''"
| "purpose_path BOOKING = ''b''"
| "purpose_path QUOTE_LINK = ''q''"

text \<open>\<open>/^[A-Za-z0-9_-]{43}$/\<close>\<close>

definition well_formed_token :: "string \<Rightarrow> bool" where
  "well_formed_token t \<longleftrightarrow> length t = 43 \<and> list_all (\<lambda>c. is_alnum c \<or> c \<in> set ''_-'') t"

record link_input =
  li_tenantId :: string
  li_purpose :: link_purpose
  li_customerId :: string
  li_taskId :: "string option"
  li_equipmentId :: "string option"
  li_quoteId :: "string option"

text \<open>The links a new one replaces: an absent id does not restrict.\<close>

definition same_subject :: "link_input \<Rightarrow> public_link \<Rightarrow> bool" where
  "same_subject i l \<longleftrightarrow> pk_tenantId l = li_tenantId i \<and> pk_purpose l = li_purpose i
     \<and> (truthy (li_taskId i) \<longrightarrow> pk_taskId l = li_taskId i)
     \<and> (truthy (li_equipmentId i) \<longrightarrow> pk_equipmentId l = li_equipmentId i)
     \<and> (truthy (li_quoteId i) \<longrightarrow> pk_quoteId l = li_quoteId i)"

definition revoke_previous :: "env \<Rightarrow> link_input \<Rightarrow> db \<Rightarrow> db" where
  "revoke_previous e i db = db\<lparr>public_links := snd (update_rows
     (\<lambda>l. same_subject i l \<and> pk_revokedAt l = None)
     (\<lambda>l. l\<lparr>pk_revokedAt := Some (now e)\<rparr>) (public_links db))\<rparr>"

definition expires_at :: "env \<Rightarrow> link_purpose \<Rightarrow> int" where
  "expires_at e p = now e + ttl_days p * 86400000"

definition new_link :: "link_keys \<Rightarrow> env \<Rightarrow> link_input \<Rightarrow> db \<Rightarrow> public_link" where
  "new_link k e i db = \<lparr>pk_id = next_id e db, pk_tenantId = li_tenantId i,
     pk_tokenHash = lk_hash k (lk_token k (id_ctr db)), pk_purpose = li_purpose i,
     pk_customerId = li_customerId i, pk_taskId = li_taskId i, pk_equipmentId = li_equipmentId i,
     pk_quoteId = li_quoteId i, pk_expiresAt = expires_at e (li_purpose i), pk_usedAt = None,
     pk_revokedAt = None, pk_createdAt = now e\<rparr>"

record created_link =
  cl_token :: string
  cl_url :: string
  cl_expiresAt :: int

definition link_create :: "link_keys \<Rightarrow> env \<Rightarrow> link_input \<Rightarrow> created_link tx" where
  "link_create k e i db =
     (let db1 = revoke_previous e i db;
          l = new_link k e i db;
          token = lk_token k (id_ctr db)
      in if list_ex (\<lambda>x. pk_tokenHash x = pk_tokenHash l) (public_links db1) then Inl (PrismaKnown ''P2002'')
         else Inr (\<lparr>cl_token = token,
                cl_url = lk_baseUrl k @ ''/c/'' @ purpose_path (li_purpose i) @ ''/'' @ token,
                cl_expiresAt = expires_at e (li_purpose i)\<rparr>,
              (bump_id db1)\<lparr>public_links := public_links db1 @ [l]\<rparr>))"

text \<open>The function \<open>resolve_public_link\<close> of migration 0006.\<close>

definition live_link :: "env \<Rightarrow> public_link \<Rightarrow> bool" where
  "live_link e l \<longleftrightarrow> pk_revokedAt l = None \<and> now e < pk_expiresAt l"

definition resolve_public_link :: "env \<Rightarrow> db \<Rightarrow> string \<Rightarrow> string option" where
  "resolve_public_link e db h = map_option pk_tenantId (List.find (\<lambda>l. pk_tokenHash l = h \<and> live_link e l
     \<and> list_ex (\<lambda>t. tn_id t = pk_tenantId l \<and> tn_isActive t) (tenants db)) (public_links db))"

definition link_not_found :: http_error where
  "link_not_found = NotFound ''Link not found or expired''"

definition link_resolve ::
  "link_keys \<Rightarrow> env \<Rightarrow> string \<Rightarrow> link_purpose \<Rightarrow> (string \<times> public_link) svc" where
  "link_resolve k e token purpose db =
     (if \<not> well_formed_token token then (Inl link_not_found, db)
      else case resolve_public_link e db (lk_hash k token) of
          None \<Rightarrow> (Inl link_not_found, db)
        | Some tid \<Rightarrow>
            for_tenant tid (\<lambda>db.
              case List.find (\<lambda>l. pk_tokenHash l = lk_hash k token \<and> pk_tenantId l = tid
                     \<and> pk_purpose l = purpose \<and> live_link e l) (public_links db) of
                None \<Rightarrow> Inl link_not_found
              | Some l \<Rightarrow> Inr ((tid, l), db)) db)"

section \<open>Properties\<close>

lemma link_resolve_db [simp]: "snd (link_resolve k e token purpose db) = db"
  by (auto simp: link_resolve_def for_tenant_def split: option.splits sum.splits)

lemma link_resolve_Inr:
  assumes "link_resolve k e token purpose db = (Inr (tid, l), db')"
  shows "db' = db" "is_uuid tid" "l \<in> set (public_links db)" "pk_tenantId l = tid"
    "pk_purpose l = purpose" "live_link e l" "pk_tokenHash l = lk_hash k token" "well_formed_token token"
  using assms
  by (auto simp: link_resolve_def for_tenant_Inr split: if_splits option.splits dest!: find_SomeD)

lemma others_revoke_previous: "others (li_tenantId i) (revoke_previous e i db) = others (li_tenantId i) db"
proof -
  have "filter (\<lambda>l. pk_tenantId l \<noteq> li_tenantId i) (public_links (revoke_previous e i db))
      = filter (\<lambda>l. pk_tenantId l \<noteq> li_tenantId i) (public_links db)"
    unfolding revoke_previous_def by (simp, rule filter_update_rows) (simp add: same_subject_def)
  then show ?thesis by (simp add: others_def revoke_previous_def)
qed

lemma others_link_create:
  "link_create k e i db = Inr (c, db') \<Longrightarrow> li_tenantId i = tid \<Longrightarrow> others tid db' = others tid db"
  using others_revoke_previous [of i e db]
  by (auto simp: link_create_def Let_def others_def bump_id_def new_link_def split: if_splits)

lemma link_create_tables:
  assumes "link_create k e i db = Inr (c, db')"
  shows "tasks db' = tasks db" "quotes db' = quotes db" "equipment db' = equipment db"
    "customers db' = customers db" "tenants db' = tenants db" "users db' = users db"
    "outbox_events db' = outbox_events db" "audit_logs db' = audit_logs db" "quote_lines db' = quote_lines db"
    "public_links db' = public_links (revoke_previous e i db) @ [new_link k e i db]"
  using assms by (auto simp: link_create_def revoke_previous_def Let_def bump_id_def split: if_splits)

text \<open>What a provider of links promises to the pages that use it.\<close>

locale link_provider =
  fixes revoke :: "env \<Rightarrow> link_input \<Rightarrow> db \<Rightarrow> db"
    and fresh :: "env \<Rightarrow> link_input \<Rightarrow> db \<Rightarrow> public_link"
    and issue :: "env \<Rightarrow> link_input \<Rightarrow> db \<Rightarrow> (string \<times> db) option"
    and lookup :: "env \<Rightarrow> string \<Rightarrow> link_purpose \<Rightarrow> db \<Rightarrow> public_link option"
  assumes revoke_revokes: "x \<in> set (public_links (revoke e i db)) \<Longrightarrow> same_subject i x \<Longrightarrow> pk_revokedAt x \<noteq> None"
    and issue_appends: "issue e i db = Some (token, db') \<Longrightarrow> public_links db' = public_links (revoke e i db) @ [fresh e i db]"
    and lookup_sound: "lookup e token p db = Some l \<Longrightarrow>
      l \<in> set (public_links db) \<and> pk_purpose l = p \<and> live_link e l"
begin

lemma only_the_new_link:
  assumes "issue e i db = Some (token, db')" and "lookup e' t p db' = Some x" and "same_subject i x"
  shows "x = fresh e i db"
proof -
  from lookup_sound [OF assms(2)] have "x \<in> set (public_links db')" and live: "pk_revokedAt x = None"
    by (simp_all add: live_link_def)
  then have "x \<in> set (public_links (revoke e i db)) \<or> x = fresh e i db"
    using issue_appends [OF assms(1)] by auto
  with revoke_revokes [OF _ assms(3)] live show ?thesis by auto
qed

end

definition issue_link :: "link_keys \<Rightarrow> env \<Rightarrow> link_input \<Rightarrow> db \<Rightarrow> (string \<times> db) option" where
  "issue_link k e i db = (case link_create k e i db of Inl _ \<Rightarrow> None | Inr (c, db') \<Rightarrow> Some (cl_token c, db'))"

definition lookup_link :: "link_keys \<Rightarrow> env \<Rightarrow> string \<Rightarrow> link_purpose \<Rightarrow> db \<Rightarrow> public_link option" where
  "lookup_link k e token p db = (case fst (link_resolve k e token p db) of Inl _ \<Rightarrow> None | Inr (_, l) \<Rightarrow> Some l)"

lemma lookup_link_Some:
  assumes "lookup_link k e token p db = Some l"
  obtains tid where "link_resolve k e token p db = (Inr (tid, l), db)"
proof -
  from assms obtain tid where "fst (link_resolve k e token p db) = Inr (tid, l)"
    by (auto simp: lookup_link_def split: sum.splits prod.splits)
  then have "link_resolve k e token p db = (Inr (tid, l), db)"
    by (metis link_resolve_db prod.collapse)
  then show thesis by (rule that)
qed

lemma same_subject_new: "same_subject i (new_link k e i db)"
  by (simp add: same_subject_def new_link_def)

lemma revoked_previous:
  "x \<in> set (public_links (revoke_previous e i db)) \<Longrightarrow> same_subject i x \<Longrightarrow> pk_revokedAt x \<noteq> None"
proof -
  have "same_subject i (l\<lparr>pk_revokedAt := r\<rparr>) = same_subject i l" for l r by (simp add: same_subject_def)
  then show "x \<in> set (public_links (revoke_previous e i db)) \<Longrightarrow> same_subject i x \<Longrightarrow> pk_revokedAt x \<noteq> None"
    by (auto simp: revoke_previous_def set_update_rows)
qed

interpretation pl: link_provider revoke_previous "new_link k" "issue_link k" "lookup_link k" for k
proof unfold_locales
  show "public_links db' = public_links (revoke_previous e i db) @ [new_link k e i db]"
    if "issue_link k e i db = Some (token, db')" for e i db token db'
    using that by (auto simp: issue_link_def split: sum.splits prod.splits dest: link_create_tables(10))
  show "l \<in> set (public_links db) \<and> pk_purpose l = p \<and> live_link e l"
    if "lookup_link k e token p db = Some l" for e token p db l
    using that by (rule lookup_link_Some) (auto dest: link_resolve_Inr)
qed (rule revoked_previous)

text \<open>Until it expires, a new link's token resolves to that link and its tenant, for its own
  purpose only.\<close>
theorem created_link_resolves:
  assumes "link_create k e i db = Inr (c, db')"
    and "is_uuid (li_tenantId i)" and "\<exists>t \<in> set (tenants db). tn_id t = li_tenantId i \<and> tn_isActive t"
    and "well_formed_token (cl_token c)" and "now e' < cl_expiresAt c"
  shows "link_resolve k e' (cl_token c) (li_purpose i) db' = (Inr (li_tenantId i, new_link k e i db), db')
    \<and> (p = li_purpose i \<or> link_resolve k e' (cl_token c) p db' = (Inl link_not_found, db'))"
proof -
  let ?l = "new_link k e i db"
  from assms(1) have c: "cl_token c = lk_token k (id_ctr db)" "cl_expiresAt c = expires_at e (li_purpose i)"
    and fresh: "\<forall>x \<in> set (public_links (revoke_previous e i db)). pk_tokenHash x \<noteq> pk_tokenHash ?l"
    by (auto simp: link_create_def Let_def list_ex_iff split: if_splits)
  note rows = link_create_tables(10) [OF assms(1)] and tn = link_create_tables(5) [OF assms(1)]
  have h: "lk_hash k (cl_token c) = pk_tokenHash ?l" by (simp add: c new_link_def)
  have live: "live_link e' ?l" using assms(5) by (simp add: live_link_def c new_link_def)
  have only: "x = ?l" if "x \<in> set (public_links db')" "pk_tokenHash x = pk_tokenHash ?l" for x
    using that fresh by (auto simp: rows)
  have mem: "?l \<in> set (public_links db')" by (simp add: rows)
  have "List.find (\<lambda>l. pk_tokenHash l = pk_tokenHash ?l \<and> live_link e' l
     \<and> list_ex (\<lambda>t. tn_id t = pk_tenantId l \<and> tn_isActive t) (tenants db')) (public_links db') = Some ?l"
  proof (rule find_unique [OF mem])
    show "pk_tokenHash ?l = pk_tokenHash ?l \<and> live_link e' ?l
     \<and> list_ex (\<lambda>t. tn_id t = pk_tenantId ?l \<and> tn_isActive t) (tenants db')"
      using live assms(3) by (simp add: tn new_link_def list_ex_iff)
  qed (use only in blast)
  then have r: "resolve_public_link e' db' (lk_hash k (cl_token c)) = Some (li_tenantId i)"
    by (simp add: resolve_public_link_def h) (simp add: new_link_def)
  have "List.find (\<lambda>l. pk_tokenHash l = lk_hash k (cl_token c) \<and> pk_tenantId l = li_tenantId i
                     \<and> pk_purpose l = li_purpose i \<and> live_link e' l) (public_links db') = Some ?l"
    by (rule find_unique [OF mem]) (use only live h in \<open>auto simp: new_link_def\<close>)
  moreover have "List.find (\<lambda>l. pk_tokenHash l = lk_hash k (cl_token c) \<and> pk_tenantId l = li_tenantId i
                     \<and> pk_purpose l = p \<and> live_link e' l) (public_links db') = None" if "p \<noteq> li_purpose i"
    unfolding find_None_iff_all
  proof (intro ballI notI)
    fix x assume "x \<in> set (public_links db')" and "pk_tokenHash x = lk_hash k (cl_token c)
      \<and> pk_tenantId x = li_tenantId i \<and> pk_purpose x = p \<and> live_link e' x"
    then have "x = ?l" "pk_purpose x = p" using only h by auto
    moreover have "pk_purpose ?l = li_purpose i" by (simp add: new_link_def)
    ultimately show False using that by simp
  qed
  ultimately show ?thesis
    using r assms(2,4) by (cases "p = li_purpose i") (simp_all add: link_resolve_def for_tenant_def)
qed

text \<open>C16. Until it expires, a new link's token resolves to that link, which names the subject it was
  created for, and no other token resolves any longer to a link of that subject and purpose.\<close>
theorem one_live_link_per_subject:
  assumes "link_create k e i db = Inr (c, db')"
    and "is_uuid (li_tenantId i)" and "\<exists>t \<in> set (tenants db). tn_id t = li_tenantId i \<and> tn_isActive t"
    and "well_formed_token (cl_token c)" and "now e' < cl_expiresAt c"
  shows "\<exists>l. link_resolve k e' (cl_token c) (li_purpose i) db' = (Inr (li_tenantId i, l), db')
    \<and> pk_tenantId l = li_tenantId i \<and> pk_purpose l = li_purpose i \<and> pk_customerId l = li_customerId i
    \<and> pk_taskId l = li_taskId i \<and> pk_equipmentId l = li_equipmentId i \<and> pk_quoteId l = li_quoteId i
    \<and> (\<forall>e'' token tid x. link_resolve k e'' token (li_purpose i) db' = (Inr (tid, x), db') \<and> same_subject i x
         \<longrightarrow> x = l \<and> lk_hash k token = lk_hash k (cl_token c))"
proof -
  let ?l = "new_link k e i db"
  note here = created_link_resolves [OF assms, of "li_purpose i", THEN conjunct1]
  have "x = ?l \<and> lk_hash k token = lk_hash k (cl_token c)"
    if r: "link_resolve k e'' token (li_purpose i) db' = (Inr (tid, x), db')" and s: "same_subject i x" for e'' token tid x
  proof
    have "issue_link k e i db = Some (cl_token c, db')" using assms(1) by (simp add: issue_link_def)
    moreover have "lookup_link k e'' token (li_purpose i) db' = Some x" using r by (simp add: lookup_link_def)
    ultimately show "x = ?l" using s by (rule pl.only_the_new_link)
    then show "lk_hash k token = lk_hash k (cl_token c)"
      using link_resolve_Inr(7) [OF r] link_resolve_Inr(7) [OF here] by simp
  qed
  with here show ?thesis by (intro exI [of _ ?l]) (auto simp: new_link_def)
qed

section \<open>Instances\<close>

definition demo_keys :: link_keys where
  "demo_keys = \<lparr>lk_token = (\<lambda>n. replicate 43 (if even n then CHR ''x'' else CHR ''y'')),
     lk_hash = (\<lambda>t. ''h'' @ t), lk_baseUrl = ''https://app''\<rparr>"

definition demo_link_db :: db where
  "demo_link_db = demo_db\<lparr>tenants := [\<lparr>tn_id = demo_tenant, tn_name = ''Acme'', tn_vertical = MAINTENANCE,
        tn_subdomain = ''acme'', tn_isActive = True, tn_createdAt = 0\<rparr>]\<rparr>"

definition demo_link_input :: link_input where
  "demo_link_input = \<lparr>li_tenantId = demo_tenant, li_purpose = TASK_STATUS, li_customerId = ''c1'',
     li_taskId = Some ''t1'', li_equipmentId = None, li_quoteId = None\<rparr>"

lemma demo_link_created:
  "\<exists>c db'. link_create demo_keys demo_env demo_link_input demo_link_db = Inr (c, db')
     \<and> cl_token c = lk_token demo_keys 0 \<and> cl_expiresAt c = expires_at demo_env TASK_STATUS"
  by (simp add: link_create_def Let_def revoke_previous_def update_rows_def demo_link_db_def demo_defs
      demo_link_input_def)

lemma demo_token_ok: "well_formed_token (lk_token demo_keys 0)"
  by (simp add: demo_keys_def well_formed_token_def is_alnum_def is_lower_def list_all_iff)

theorem created_link_resolves_witness:
  "\<exists>c db'. link_create demo_keys demo_env demo_link_input demo_link_db = Inr (c, db')
     \<and> link_resolve demo_keys demo_env (cl_token c) TASK_STATUS db'
       = (Inr (demo_tenant, new_link demo_keys demo_env demo_link_input demo_link_db), db')"
proof -
  from demo_link_created obtain c db' where
    run: "link_create demo_keys demo_env demo_link_input demo_link_db = Inr (c, db')"
    and c: "cl_token c = lk_token demo_keys 0" "cl_expiresAt c = expires_at demo_env TASK_STATUS" by blast
  have "is_uuid (li_tenantId demo_link_input)"
    "\<exists>t \<in> set (tenants demo_link_db). tn_id t = li_tenantId demo_link_input \<and> tn_isActive t"
    by (simp_all add: demo_link_input_def demo_link_db_def)
  moreover have "well_formed_token (cl_token c)" "now demo_env < cl_expiresAt c"
    using c demo_token_ok by (simp_all add: expires_at_def)
  ultimately show ?thesis
    using created_link_resolves [OF run, of demo_env] run by (auto simp: demo_link_input_def)
qed

text \<open>A task that has a link already: the old token stops resolving.\<close>

definition old_token :: string where
  "old_token = replicate 43 CHR ''y''"

definition old_link :: public_link where
  "old_link = new_link (demo_keys\<lparr>lk_token := \<lambda>_. old_token\<rparr>) demo_env demo_link_input demo_link_db"

definition linked_db :: db where
  "linked_db = demo_link_db\<lparr>public_links := [old_link]\<rparr>"

lemma old_link_fields: "pk_tokenHash old_link = lk_hash demo_keys old_token" "pk_tenantId old_link = demo_tenant"
    "pk_purpose old_link = TASK_STATUS" "live_link demo_env old_link" "same_subject demo_link_input old_link"
  by (simp_all add: old_link_def new_link_def demo_link_input_def demo_keys_def live_link_def expires_at_def same_subject_def)

lemma relinked:
  "\<exists>c db'. link_create demo_keys demo_env demo_link_input linked_db = Inr (c, db')
     \<and> cl_token c = lk_token demo_keys 0 \<and> cl_expiresAt c = expires_at demo_env TASK_STATUS"
proof -
  have "lk_hash demo_keys (lk_token demo_keys 0) \<noteq> lk_hash demo_keys old_token"
    by (simp add: demo_keys_def old_token_def)
  moreover have "pk_tokenHash (old_link\<lparr>pk_revokedAt := r\<rparr>) = lk_hash demo_keys old_token" for r
    using old_link_fields(1) by (cases old_link) simp
  ultimately show ?thesis
    by (simp add: link_create_def Let_def revoke_previous_def update_rows_def linked_db_def demo_link_db_def demo_defs
        old_link_fields(1) new_link_def) (simp add: demo_link_input_def)
qed

theorem one_live_link_per_subject_witness:
  "\<exists>c db' l. link_create demo_keys demo_env demo_link_input linked_db = Inr (c, db')
     \<and> link_resolve demo_keys demo_env old_token TASK_STATUS linked_db = (Inr (demo_tenant, old_link), linked_db)
     \<and> link_resolve demo_keys demo_env (cl_token c) TASK_STATUS db' = (Inr (demo_tenant, l), db') \<and> pk_taskId l = Some ''t1''
     \<and> \<not> (\<exists>x. link_resolve demo_keys demo_env old_token TASK_STATUS db' = (Inr (demo_tenant, x), db') \<and> same_subject demo_link_input x)"
proof -
  from relinked obtain c db' where
    run: "link_create demo_keys demo_env demo_link_input linked_db = Inr (c, db')"
    and c: "cl_token c = lk_token demo_keys 0" "cl_expiresAt c = expires_at demo_env TASK_STATUS" by blast
  have i: "li_tenantId demo_link_input = demo_tenant" "li_purpose demo_link_input = TASK_STATUS" "li_taskId demo_link_input = Some ''t1''"
    by (simp_all add: demo_link_input_def)
  have u: "is_uuid (li_tenantId demo_link_input)" by (simp add: i)
  have a: "\<exists>t \<in> set (tenants linked_db). tn_id t = li_tenantId demo_link_input \<and> tn_isActive t"
    by (simp add: i linked_db_def demo_link_db_def)
  have w: "well_formed_token (cl_token c)" "now demo_env < cl_expiresAt c"
    using c demo_token_ok by (simp_all add: expires_at_def)
  have old: "well_formed_token old_token"
    by (simp add: old_token_def well_formed_token_def is_alnum_def is_lower_def list_all_iff)
  have before: "link_resolve demo_keys demo_env old_token TASK_STATUS linked_db = (Inr (demo_tenant, old_link), linked_db)"
    using old old_link_fields
    by (simp add: link_resolve_def resolve_public_link_def for_tenant_def linked_db_def demo_link_db_def)
  have ne: "lk_hash demo_keys old_token \<noteq> lk_hash demo_keys (cl_token c)"
    unfolding c by (simp add: demo_keys_def old_token_def)
  from one_live_link_per_subject [OF run u a w] obtain l where
    l: "link_resolve demo_keys demo_env (cl_token c) TASK_STATUS db' = (Inr (demo_tenant, l), db')" "pk_taskId l = Some ''t1''"
    and o: "\<And>x. link_resolve demo_keys demo_env old_token TASK_STATUS db' = (Inr (demo_tenant, x), db') \<Longrightarrow> same_subject demo_link_input x
      \<Longrightarrow> lk_hash demo_keys old_token = lk_hash demo_keys (cl_token c)"
    unfolding i by blast
  from run before l o ne show ?thesis by blast
qed

end
