(* ===== verification/Validation.thy ===== *)
theory Validation
  imports Json
begin

text \<open>
  The input checks of src/common: real calendar dates, Israeli phone numbers, NUL characters
  anywhere in a request body, and decimal prices.
\<close>

section \<open>Calendar dates\<close>

definition leap_year :: "int \<Rightarrow> bool" where
  "leap_year y \<longleftrightarrow> y mod 4 = 0 \<and> (y mod 100 \<noteq> 0 \<or> y mod 400 = 0)"

definition days_in_month :: "int \<Rightarrow> int \<Rightarrow> int" where
  "days_in_month y m =
     (if m = 2 then (if leap_year y then 29 else 28)
      else if m \<in> {4, 6, 9, 11} then 30 else 31)"

lemma days_in_month_bounds: "28 \<le> days_in_month y m" "days_in_month y m \<le> 31"
  by (simp_all add: days_in_month_def)

lemma days_in_month_pos: "0 < days_in_month y m" "d < 1 \<Longrightarrow> 2 * d + days_in_month y m < 32"
  using days_in_month_bounds [of y m] by linarith+

text \<open>
  The carry of \<open>Date.UTC\<close>: a day outside its month moves into the neighbouring months.
\<close>

function roll :: "int \<Rightarrow> int \<Rightarrow> int \<Rightarrow> int \<times> int \<times> int" where
  "roll y m d =
     (if d < 1 then
        (let y' = (if m = 1 then y - 1 else y); m' = (if m = 1 then 12 else m - 1)
         in roll y' m' (d + days_in_month y' m'))
      else if d > days_in_month y m then
        roll (if m = 12 then y + 1 else y) (if m = 12 then 1 else m + 1) (d - days_in_month y m)
      else (y, m, d))"
  by pat_completeness auto
termination
  by (relation "measure (\<lambda>(y, m, d). if d < 1 then nat (32 - d) else nat d)")
    (auto simp: Let_def not_less days_in_month_pos)

declare roll.simps [simp del]

definition make_utc :: "int \<Rightarrow> int \<Rightarrow> int \<Rightarrow> int \<times> int \<times> int" where
  "make_utc y mo d = roll (y + (mo - 1) div 12) ((mo - 1) mod 12 + 1) d"

text \<open>\<open>/^(\d{4})-(\d{2})-(\d{2})$/\<close>\<close>

definition parse_iso :: "string \<Rightarrow> (int \<times> int \<times> int) option" where
  "parse_iso s =
     (if length s = 10 \<and> s ! 4 = CHR ''-'' \<and> s ! 7 = CHR ''-''
         \<and> list_all is_digit (take 4 s) \<and> list_all is_digit (take 2 (drop 5 s)) \<and> list_all is_digit (drop 8 s)
      then Some (int (read_nat (take 4 s)), int (read_nat (take 2 (drop 5 s))), int (read_nat (drop 8 s)))
      else None)"

definition is_calendar_date :: "string \<Rightarrow> bool" where
  "is_calendar_date s =
     (case parse_iso s of
        None \<Rightarrow> False
      | Some (y, mo, d) \<Rightarrow> 1900 \<le> y \<and> make_utc y mo d = (y, mo, d))"

lemma roll_valid:
  "1 \<le> m \<Longrightarrow> m \<le> 12 \<Longrightarrow> roll y m d = (y', m', d') \<Longrightarrow>
     1 \<le> m' \<and> m' \<le> 12 \<and> 1 \<le> d' \<and> d' \<le> days_in_month y' m'"
proof (induction y m d rule: roll.induct)
  case (1 y m d)
  show ?case
  proof (cases "d < 1")
    case True
    with 1 show ?thesis by (simp add: roll.simps [of y m d] Let_def split: if_splits)
  next
    case False
    with 1 show ?thesis by (auto simp: roll.simps [of y m d] split: if_splits)
  qed
qed

lemma roll_id: "1 \<le> d \<Longrightarrow> d \<le> days_in_month y m \<Longrightarrow> roll y m d = (y, m, d)"
  by (simp add: roll.simps)

lemma calendar_date_iff:
  "is_calendar_date s \<longleftrightarrow>
     (\<exists>y m d. parse_iso s = Some (y, m, d) \<and> 1900 \<le> y \<and> 1 \<le> m \<and> m \<le> 12 \<and> 1 \<le> d \<and> d \<le> days_in_month y m)"
proof (cases "parse_iso s")
  case None
  then show ?thesis by (simp add: is_calendar_date_def)
next
  case (Some p)
  obtain y m d where p: "p = (y, m, d)" by (cases p)
  have "make_utc y m d = (y, m, d) \<longleftrightarrow> 1 \<le> m \<and> m \<le> 12 \<and> 1 \<le> d \<and> d \<le> days_in_month y m"
  proof
    assume "make_utc y m d = (y, m, d)"
    then have r: "roll (y + (m - 1) div 12) ((m - 1) mod 12 + 1) d = (y, m, d)" by (simp add: make_utc_def)
    have "1 \<le> (m - 1) mod 12 + 1" "(m - 1) mod 12 + 1 \<le> 12" by simp_all
    from roll_valid [OF this r] show "1 \<le> m \<and> m \<le> 12 \<and> 1 \<le> d \<and> d \<le> days_in_month y m" by simp
  next
    assume v: "1 \<le> m \<and> m \<le> 12 \<and> 1 \<le> d \<and> d \<le> days_in_month y m"
    then have "(m - 1) div 12 = 0" "(m - 1) mod 12 = m - 1" by simp_all
    with v show "make_utc y m d = (y, m, d)" by (simp add: make_utc_def roll_id)
  qed
  with Some p show ?thesis by (auto simp: is_calendar_date_def)
qed

text \<open>C15. The calendar-date check, which goes through the carrying date arithmetic of Date.UTC,
  accepts exactly the texts of ten characters that name a day that exists, from 1900 on.\<close>
theorem calendar_date_exact:
  "is_calendar_date s \<longleftrightarrow>
     (\<exists>y m d. parse_iso s = Some (y, m, d) \<and> 1900 \<le> y \<and> 1 \<le> m \<and> m \<le> 12 \<and> 1 \<le> d \<and> d \<le> days_in_month y m)"
  by (rule calendar_date_iff)

section \<open>Dates as text and as instants\<close>

definition pad2 :: "nat \<Rightarrow> string" where
  "pad2 n = (if n < 10 then CHR ''0'' # show_nat n else show_nat n)"

definition iso_text :: "int \<times> int \<times> int \<Rightarrow> string" where
  "iso_text p = (let (y, m, d) = p
     in show_nat (nat y) @ ''-'' @ pad2 (nat m) @ ''-'' @ pad2 (nat d))"

text \<open>\<open>addDays\<close> of equipment.service.ts, on a valid date.\<close>

definition add_days :: "string \<Rightarrow> int \<Rightarrow> string" where
  "add_days isod n = (case parse_iso isod of None \<Rightarrow> isod | Some (y, m, d) \<Rightarrow> iso_text (make_utc y m (d + n)))"

text \<open>The day number of a date (1970-01-01 is 0), and noon of that day in milliseconds.\<close>

definition days_before_year :: "int \<Rightarrow> int" where
  "days_before_year y = 365 * (y - 1970) + ((y - 1) div 4 - 492) - ((y - 1) div 100 - 19) + ((y - 1) div 400 - 4)"

fun days_before_month :: "int \<Rightarrow> nat \<Rightarrow> int" where
  "days_before_month y 0 = 0"
| "days_before_month y (Suc m) = days_before_month y m + (if m = 0 then 0 else days_in_month y (int m))"

definition noon_utc :: "string \<Rightarrow> int" where
  "noon_utc isod =
     (case parse_iso isod of
        None \<Rightarrow> 0
      | Some (y, m, d) \<Rightarrow>
          (days_before_year y + days_before_month y (nat m) + (d - 1)) * 86400000 + 43200000)"

section \<open>Phone numbers\<close>

definition strip_prefix :: "string \<Rightarrow> string \<Rightarrow> string option" where
  "strip_prefix p s = (if starts_with p s then Some (drop (length p) s) else None)"

definition national_part :: "string \<Rightarrow> string option" where
  "national_part digits =
     (case strip_prefix ''+972'' digits of Some r \<Rightarrow> Some r | None \<Rightarrow>
     (case strip_prefix ''00972'' digits of Some r \<Rightarrow> Some r | None \<Rightarrow>
     (case strip_prefix ''972'' digits of Some r \<Rightarrow> Some r | None \<Rightarrow>
      strip_prefix ''0'' digits)))"

text \<open>\<open>/^(5\d{8}|[23489]\d{7}|7\d{8})$/\<close>\<close>

definition israeli_national :: "string \<Rightarrow> bool" where
  "israeli_national n \<longleftrightarrow> list_all is_digit n \<and> n \<noteq> []
     \<and> (hd n \<in> set ''57'' \<and> length n = 9 \<or> hd n \<in> set ''23489'' \<and> length n = 8)"

definition to_wa_number :: "string option \<Rightarrow> string option" where
  "to_wa_number phone =
     (if \<not> truthy phone then None
      else case national_part (filter (\<lambda>c. is_digit c \<or> c = CHR ''+'') (the phone)) of
          None \<Rightarrow> None
        | Some n \<Rightarrow>
            (let national = (case strip_prefix ''0'' n of Some r \<Rightarrow> r | None \<Rightarrow> n)
             in if israeli_national national then Some (''972'' @ national) else None))"

definition build_wa_link :: "string option \<Rightarrow> string \<Rightarrow> string option" where
  "build_wa_link phone text' =
     (case to_wa_number phone of
        None \<Rightarrow> None
      | Some n \<Rightarrow> if n = [] then None
                  else Some (''https://wa.me/'' @ n @ ''?text='' @ encode_uri_component text'))"

lemma to_wa_number_form:
  assumes "to_wa_number phone = Some n"
  shows "\<exists>national. n = ''972'' @ national \<and> israeli_national national"
  using assms by (auto simp: to_wa_number_def Let_def split: if_splits option.splits)

lemma encode_uri_safe: "c \<in> set (encode_uri_component s) \<Longrightarrow> unreserved c \<or> c = CHR ''%'' \<or> is_hex c"
proof -
  have hex: "is_hex (hex_digit k)" if "k < 16" for k :: nat
    using that by (auto simp: hex_digit_def is_hex_def is_digit_def)
  have "(of_char x :: nat) div 16 < 16" for x :: char
  proof -
    have "(of_char x :: nat) < 256" by (metis of_char_mod_256 mod_less_divisor zero_less_numeral)
    then show ?thesis by (rule less_mult_imp_div_less [of _ 16 16, simplified])
  qed
  moreover have "(of_char x :: nat) mod 16 < 16" for x :: char by simp
  moreover assume "c \<in> set (encode_uri_component s)"
  ultimately show ?thesis using hex by (auto simp: encode_uri_component_def split: if_splits)
qed

section \<open>NUL characters\<close>

definition max_depth :: nat where
  "max_depth = 32"

definition has_nul :: "string \<Rightarrow> bool" where
  "has_nul s \<longleftrightarrow> CHR 0x00 \<in> set s"

fun contains_nul :: "nat \<Rightarrow> json \<Rightarrow> bool" where
  "contains_nul depth (JStr s) = has_nul s"
| "contains_nul depth (JArr xs) = (depth \<le> max_depth \<and> list_ex (contains_nul (Suc depth)) xs)"
| "contains_nul depth (JObj kvs) =
     (depth \<le> max_depth \<and> list_ex (\<lambda>kv. has_nul (fst kv) \<or> contains_nul (Suc depth) (snd kv)) kvs)"
| "contains_nul depth _ = False"

definition reject_nul :: "json \<Rightarrow> http_error + json" where
  "reject_nul v = (if contains_nul 0 v
     then Inl (BadRequest ''Text may not contain NUL (U+0000) characters'') else Inr v)"

text \<open>Every text of a value, keys included, and how deep a value is.\<close>

fun json_texts :: "json \<Rightarrow> string list" where
  "json_texts (JStr s) = [s]"
| "json_texts (JArr xs) = concat (map json_texts xs)"
| "json_texts (JObj kvs) = concat (map (\<lambda>kv. fst kv # json_texts (snd kv)) kvs)"
| "json_texts _ = []"

fun json_depth :: "json \<Rightarrow> nat" where
  "json_depth (JArr xs) = Suc (fold max (map json_depth xs) 0)"
| "json_depth (JObj kvs) = Suc (fold max (map (\<lambda>kv. json_depth (snd kv)) kvs) 0)"
| "json_depth _ = 0"

lemma depth_child: "x \<in> set xs \<Longrightarrow> f x \<le> fold max (map f xs) (m :: nat)"
  using fold_max_eq [of "map f xs" m] by simp

lemma contains_nul_iff:
  "d + json_depth v \<le> Suc max_depth \<Longrightarrow> contains_nul d v \<longleftrightarrow> list_ex has_nul (json_texts v)"
proof (induction d v rule: contains_nul.induct)
  case (2 depth xs)
  have "contains_nul (Suc depth) x \<longleftrightarrow> list_ex has_nul (json_texts x)" if "x \<in> set xs" for x
  proof -
    have "json_depth x \<le> fold max (map json_depth xs) 0" by (rule depth_child [OF that])
    with 2(2) have "Suc depth + json_depth x \<le> Suc max_depth" "depth \<le> max_depth" by simp_all
    with 2(1) that show ?thesis by blast
  qed
  with 2(2) show ?case by (auto simp: list_ex_iff)
next
  case (3 depth kvs)
  have "contains_nul (Suc depth) (snd kv) \<longleftrightarrow> list_ex has_nul (json_texts (snd kv))" if "kv \<in> set kvs" for kv
  proof -
    have "json_depth (snd kv) \<le> fold max (map (\<lambda>kv. json_depth (snd kv)) kvs) 0"
      by (rule depth_child [OF that])
    with 3(2) have "Suc depth + json_depth (snd kv) \<le> Suc max_depth" "depth \<le> max_depth" by simp_all
    with 3(1) that show ?thesis by blast
  qed
  with 3(2) show ?case by (auto simp: list_ex_iff)
qed auto

text \<open>A request body nested at most 33 levels deep that passes the NUL pipe is unchanged and
  contains no NUL in any key or text.\<close>
theorem nul_never_passes:
  assumes "reject_nul v = Inr w" and "json_depth v \<le> Suc max_depth"
  shows "w = v \<and> list_all (\<lambda>s. \<not> has_nul s) (json_texts w)"
  using assms contains_nul_iff [of 0 v]
  by (auto simp: reject_nul_def list_all_iff list_ex_iff split: if_splits)

theorem nul_never_passes_witness:
  "list_all (\<lambda>s. \<not> has_nul s) (json_texts (JObj [(''note'', JStr ''abc'')]))"
proof -
  have "reject_nul (JObj [(''note'', JStr ''abc'')]) = Inr (JObj [(''note'', JStr ''abc'')])"
    by (simp add: reject_nul_def max_depth_def has_nul_def)
  from nul_never_passes [OF this] show ?thesis by (simp add: max_depth_def)
qed

section \<open>Prices\<close>

text \<open>\<open>PRICE_PATTERN\<close>, \<open>/^\d{1,10}(\.\d{1,2})?$/\<close>, and the hundredths it denotes.\<close>

definition is_price :: "string \<Rightarrow> bool" where
  "is_price s \<longleftrightarrow>
     (case split_on CHR ''.'' s of
        [a] \<Rightarrow> list_all is_digit a \<and> 1 \<le> length a \<and> length a \<le> 10
      | [a, b] \<Rightarrow> list_all is_digit a \<and> 1 \<le> length a \<and> length a \<le> 10
                  \<and> list_all is_digit b \<and> 1 \<le> length b \<and> length b \<le> 2
      | _ \<Rightarrow> False)"

end
