(* ===== verification/Calendar.thy ===== *)
theory Calendar
  imports Validation
begin

text \<open>
  The part of the JavaScript \<open>Date\<close> the services use: an instant is its number of
  milliseconds, \<open>civil_of_day\<close> its UTC date, \<open>iso_instant\<close> its
  \<open>toISOString\<close>; and Postgres' addition of months, which stays inside the month.
\<close>

definition day_number :: "int \<times> int \<times> int \<Rightarrow> int" where
  "day_number p = (let (y, m, d) = p in days_before_year y + days_before_month y (nat m) + (d - 1))"

definition civil_of_day :: "int \<Rightarrow> int \<times> int \<times> int" where
  "civil_of_day n = roll 1970 1 (n + 1)"

definition ms_per_day :: int where
  "ms_per_day = 86400000"

definition utc_date :: "int \<Rightarrow> int \<times> int \<times> int" where
  "utc_date t = civil_of_day (t div ms_per_day)"

definition pad3 :: "nat \<Rightarrow> string" where
  "pad3 n = (if n < 10 then ''00'' @ show_nat n else if n < 100 then CHR ''0'' # show_nat n else show_nat n)"

definition iso_instant :: "int \<Rightarrow> string" where
  "iso_instant t =
     (let r = t mod ms_per_day
      in iso_text (utc_date t) @ ''T'' @ pad2 (nat (r div 3600000)) @ '':''
         @ pad2 (nat (r div 60000 mod 60)) @ '':'' @ pad2 (nat (r div 1000 mod 60)) @ ''.''
         @ pad3 (nat (r mod 1000)) @ ''Z'')"

definition add_months :: "int \<Rightarrow> int \<Rightarrow> int" where
  "add_months k t =
     (let (y, m, d) = utc_date t; y' = y + (m - 1 + k) div 12; m' = (m - 1 + k) mod 12 + 1
      in day_number (y', m', min d (days_in_month y' m')) * ms_per_day + t mod ms_per_day)"

section \<open>Laws\<close>

lemma leap_step: "days_before_year (y + 1) = days_before_year y + (if leap_year y then 366 else 365)"
proof -
  have a: "(y + 1 - 1) div k - (y - 1) div k = (if y mod k = 0 then 1 else 0 :: int)" if "1 < k" for k :: int
  proof (cases "y mod k = 0")
    case True
    then obtain q where q: "y = k * q" by (auto simp: mod_eq_0_iff_dvd elim: dvdE)
    have "(k * q - 1) div k = q - 1"
      using that by (intro int_div_pos_eq [of _ _ _ "k - 1"]) (auto simp: algebra_simps)
    with True q that show ?thesis by simp
  next
    case False
    have "y - 1 = k * (y div k) + (y mod k - 1)" by (simp add: algebra_simps)
    moreover have "0 \<le> y mod k" "y mod k < k" using that by simp_all
    ultimately have "(y - 1) div k = y div k"
      using False by (intro int_div_pos_eq [of _ _ _ "y mod k - 1"]) auto
    with False show ?thesis by simp
  qed
  define A B C where n: "A = (y - 1) div 4" "B = (y - 1) div 100" "C = (y - 1) div 400"
  define p q r where m: "p = (y mod 4 = 0)" "q = (y mod 100 = 0)" "r = (y mod 400 = 0)"
  have i: "r \<longrightarrow> q" "q \<longrightarrow> p"
    using dvd_trans [of 100 400 y] dvd_trans [of 4 100 y] by (simp_all add: m mod_eq_0_iff_dvd)
  have d: "(y + 1 - 1) div 4 = A + (if p then 1 else 0)" "(y + 1 - 1) div 100 = B + (if q then 1 else 0)"
    "(y + 1 - 1) div 400 = C + (if r then 1 else 0)"
    using a [of 4] a [of 100] a [of 400] unfolding n m by (simp_all only: one_less_numeral_iff semiring_norm diff_eq_eq add.commute)
  have l: "leap_year y = (p \<and> (\<not> q \<or> r))" by (simp only: leap_year_def m)
  show ?thesis
    unfolding days_before_year_def d n [symmetric] l using i by (cases p; cases q; cases r) simp_all
qed

lemma month_step:
  "1 \<le> m \<Longrightarrow> m \<le> 11 \<Longrightarrow>
     days_before_month y (nat (m + 1)) = days_before_month y (nat m) + days_in_month y m"
proof -
  assume m: "1 \<le> m" "m \<le> 11"
  then have "nat (m + 1) = Suc (nat m)" "nat m \<noteq> 0" "int (nat m) = m" by simp_all
  then show ?thesis by simp
qed

lemma whole_year: "days_before_month y 12 = (if leap_year y then 335 else 334)"
  by (simp add: numeral_eq_Suc days_in_month_def)

lemma day_number_next:
  assumes "1 \<le> m" and "m \<le> 12"
  shows "day_number (if m = 12 then y + 1 else y, if m = 12 then 1 else m + 1, d) =
    day_number (y, m, d + days_in_month y m)"
proof (cases "m = 12")
  case True
  have "days_in_month y 12 = 31" by (simp add: days_in_month_def)
  with True show ?thesis
    by (simp add: day_number_def leap_step whole_year days_before_month.simps(2) [of _ 0, simplified])
next
  case False
  with assms month_step [of m y] show ?thesis by (simp add: day_number_def)
qed

lemma day_number_roll:
  "1 \<le> m \<Longrightarrow> m \<le> 12 \<Longrightarrow> day_number (roll y m d) = day_number (y, m, d)"
proof (induction y m d rule: roll.induct)
  case (1 y m d)
  let ?yp = "if m = 1 then y - 1 else y" and ?mp = "if m = 1 then 12 else m - 1"
  consider "d < 1" | "1 \<le> d" "d \<le> days_in_month y m" | "1 \<le> d" "days_in_month y m < d" by linarith
  then show ?case
  proof cases
    case a: 1
    have mp: "1 \<le> ?mp" "?mp \<le> 12" using 1(3,4) by auto
    from a have "roll y m d = roll ?yp ?mp (d + days_in_month ?yp ?mp)"
      by (simp add: roll.simps [of y m d] Let_def)
    moreover have "day_number (roll ?yp ?mp (d + days_in_month ?yp ?mp)) =
        day_number (?yp, ?mp, d + days_in_month ?yp ?mp)"
      by (rule 1(1) [OF a refl refl mp])
    moreover have "day_number (?yp, ?mp, d + days_in_month ?yp ?mp) = day_number (y, m, d)"
      using day_number_next [OF mp, of ?yp d] 1(3,4) by auto
    ultimately show ?thesis by simp
  next
    case 2
    then show ?thesis by (simp add: roll_id)
  next
    case b: 3
    let ?yn = "if m = 12 then y + 1 else y" and ?mn = "if m = 12 then 1 else m + 1"
    have mn: "1 \<le> ?mn" "?mn \<le> 12" using 1(3,4) by auto
    from b have "roll y m d = roll ?yn ?mn (d - days_in_month y m)" by (simp add: roll.simps [of y m d])
    moreover have "day_number (roll ?yn ?mn (d - days_in_month y m)) = day_number (?yn, ?mn, d - days_in_month y m)"
      by (rule 1(2)) (use b mn in auto)
    moreover have "day_number (?yn, ?mn, d - days_in_month y m) = day_number (y, m, d)"
      using day_number_next [OF 1(3,4), of y "d - days_in_month y m"] by simp
    ultimately show ?thesis by simp
  qed
qed

lemma day_number_make_utc: "day_number (make_utc y m d) = day_number (y + (m - 1) div 12, (m - 1) mod 12 + 1, d)"
  unfolding make_utc_def by (rule day_number_roll) simp_all

lemma day_number_civil: "day_number (civil_of_day n) = n"
proof -
  have "day_number (civil_of_day n) = day_number (1970, 1, n + 1)"
    unfolding civil_of_day_def by (rule day_number_roll) simp_all
  then show ?thesis by (simp add: day_number_def days_before_year_def)
qed

section \<open>Dates as text\<close>

lemma read_nat_CHR_0 [simp]: "read_nat (CHR ''0'' # s) = read_nat s"
  by (simp add: read_nat_def digit_val_def)

lemma read_pad2 [simp]: "read_nat (pad2 n) = n"
  by (simp add: pad2_def)

lemma show_nat_1: "n < 10 \<Longrightarrow> length (show_nat n) = 1"
  by (simp add: show_nat.simps [of n])

lemma show_nat_Suc: "10 \<le> n \<Longrightarrow> length (show_nat n) = Suc (length (show_nat (n div 10)))"
  by (subst show_nat.simps) simp

lemma length_pad2: "n < 100 \<Longrightarrow> length (pad2 n) = 2"
  by (simp add: pad2_def show_nat_1 show_nat_Suc)

lemma length_year: "1000 \<le> n \<Longrightarrow> n \<le> 9999 \<Longrightarrow> length (show_nat n) = 4"
  by (simp add: show_nat_1 show_nat_Suc)

lemma digits_pad2: "list_all is_digit (pad2 n)"
  using show_nat_digits [of n] by (simp add: pad2_def is_digit_def)

lemma parse_iso_text:
  assumes "1000 \<le> y" "y \<le> 9999" "1 \<le> m" "m \<le> 12" "1 \<le> d" "d \<le> days_in_month y m"
  shows "parse_iso (iso_text (y, m, d)) = Some (y, m, d)"
proof -
  have d: "d \<le> 31" using assms(6) days_in_month_bounds(2) [of y m] by linarith
  have n: "1000 \<le> nat y" "nat y \<le> 9999" "nat m < 100" "nat d < 100" using assms d by simp_all
  define a b c where t: "a = show_nat (nat y)" "b = pad2 (nat m)" "c = pad2 (nat d)"
  have l: "length a = 4" "length b = 2" "length c = 2"
    using n by (simp_all add: t length_year length_pad2)
  have g: "list_all is_digit a" "list_all is_digit b" "list_all is_digit c"
    by (simp_all add: t show_nat_digits digits_pad2)
  have r: "int (read_nat a) = y" "int (read_nat b) = m" "int (read_nat c) = d"
    using assms by (simp_all add: t)
  have e: "iso_text (y, m, d) = a @ ''-'' @ b @ ''-'' @ c" by (simp add: iso_text_def t)
  have "take 4 (a @ ''-'' @ b @ ''-'' @ c) = a" "take 2 (drop 5 (a @ ''-'' @ b @ ''-'' @ c)) = b"
    "drop 8 (a @ ''-'' @ b @ ''-'' @ c) = c" "(a @ ''-'' @ b @ ''-'' @ c) ! 4 = CHR ''-''"
    "(a @ ''-'' @ b @ ''-'' @ c) ! 7 = CHR ''-''" "length (a @ ''-'' @ b @ ''-'' @ c) = 10"
    using l by (simp_all add: nth_append)
  then show ?thesis unfolding parse_iso_def e by (simp add: g r)
qed

definition valid_date :: "int \<times> int \<times> int \<Rightarrow> bool" where
  "valid_date p = (case p of (y, m, d) \<Rightarrow> 1 \<le> m \<and> m \<le> 12 \<and> 1 \<le> d \<and> d \<le> days_in_month y m)"

lemma valid_make_utc: "valid_date (make_utc y m d)"
proof -
  obtain y' m' d' where p: "make_utc y m d = (y', m', d')" by (cases "make_utc y m d")
  then have "roll (y + (m - 1) div 12) ((m - 1) mod 12 + 1) d = (y', m', d')" by (simp add: make_utc_def)
  from roll_valid [OF _ _ this] show ?thesis by (simp add: p valid_date_def)
qed

text \<open>Adding days to a date text, across month and year ends, gives a real date whose noon is
  exactly that many days later.\<close>
theorem add_days_shifts_noon:
  assumes "is_calendar_date s" and "parse_iso s = Some (y, m, d)"
    and "fst (make_utc y m (d + n)) \<in> {1900..9999}"
  shows "noon_utc (add_days s n) = noon_utc s + n * 86400000 \<and> is_calendar_date (add_days s n)"
proof -
  obtain y' m' d' where p: "make_utc y m (d + n) = (y', m', d')" by (cases "make_utc y m (d + n)")
  have v: "1 \<le> m" "m \<le> 12" "1 \<le> d" "d \<le> days_in_month y m"
    using assms(1,2) by (auto simp: calendar_date_iff)
  have v': "1 \<le> m'" "m' \<le> 12" "1 \<le> d'" "d' \<le> days_in_month y' m'"
    using valid_make_utc [of y m "d + n"] by (simp_all add: p valid_date_def)
  have y': "1900 \<le> y'" "y' \<le> 9999" using assms(3) by (simp_all add: p)
  have a: "add_days s n = iso_text (y', m', d')" by (simp add: add_days_def assms(2) p)
  have q: "parse_iso (add_days s n) = Some (y', m', d')"
    unfolding a by (rule parse_iso_text) (use v' y' in simp_all)
  have "(m - 1) div 12 = 0" "(m - 1) mod 12 = m - 1" using v by simp_all
  then have "day_number (y', m', d') = day_number (y, m, d + n)"
    using day_number_make_utc [of y m "d + n"] by (simp add: p)
  then have "noon_utc (add_days s n) = noon_utc s + n * 86400000"
    by (simp add: noon_utc_def q assms(2) day_number_def)
  moreover have "is_calendar_date (add_days s n)" using q y' v' by (auto simp: calendar_date_iff)
  ultimately show ?thesis by blast
qed

theorem add_days_shifts_noon_witness:
  "noon_utc (add_days ''2028-02-28'' 1) = noon_utc ''2028-02-28'' + 86400000
   \<and> add_days ''2028-02-28'' 1 = ''2028-02-29''"
proof -
  have p: "parse_iso ''2028-02-28'' = Some (2028, 2, 28)" by code_simp
  have m: "make_utc 2028 2 (28 + 1) = (2028, 2, 29)" "is_calendar_date ''2028-02-28''" by code_simp+
  have "add_days ''2028-02-28'' 1 = ''2028-02-29''" by code_simp
  with add_days_shifts_noon [OF m(2) p, of 1] m(1) show ?thesis by simp
qed

end
