(* ===== verification/Pages.thy ===== *)
theory Pages
  imports PublicLinks Calendar
begin

text \<open>
  What the three public pages (task status, booking, quotes) share: the answer of a share
  button, work done on behalf of a link, the amount as the message shows it. The names of
  weekdays and the time zone rules of Asia/Jerusalem are data of the runtime (ICU): the
  fields of \<open>intl\<close>.
\<close>

record intl =
  il_visit_day :: "int \<Rightarrow> string"
  il_visit_time :: "int \<Rightarrow> string"
  il_utc_day :: "int \<Rightarrow> string"
  il_israel_today :: "int \<Rightarrow> string"

record share_result =
  sr_url :: string
  sr_waUrl :: "string option"
  sr_message :: string

definition not_null :: "string option \<Rightarrow> http_error + string" where
  "not_null x = (case x of None \<Rightarrow> Inl (Thrown ''PrismaClientValidationError'') | Some v \<Rightarrow> Inr v)"

text \<open>Resolve the link, then run a transaction of its tenant; then answer with the page again.\<close>

definition on_link ::
  "link_keys \<Rightarrow> env \<Rightarrow> string \<Rightarrow> link_purpose \<Rightarrow> (string \<Rightarrow> public_link \<Rightarrow> 'a tx) \<Rightarrow> 'a svc" where
  "on_link k e token purpose f db =
     (case link_resolve k e token purpose db of
        (Inl err, db1) \<Rightarrow> (Inl err, db1)
      | (Inr (tid, l), db1) \<Rightarrow> for_tenant tid (f tid l) db1)"

definition and_then :: "'a svc \<Rightarrow> 'b svc \<Rightarrow> 'b svc" where
  "and_then f g db = (case f db of (Inl err, db1) \<Rightarrow> (Inl err, db1) | (Inr _, db1) \<Rightarrow> g db1)"

lemma on_link_Inr:
  "on_link k e token purpose f db = (Inr a, db') \<longleftrightarrow>
     (\<exists>tid l. link_resolve k e token purpose db = (Inr (tid, l), db) \<and> f tid l db = Inr (a, db'))"
proof -
  obtain r d where r: "link_resolve k e token purpose db = (r, d)" by fastforce
  then have d: "d = db" using link_resolve_db [of k e token purpose db] by simp
  show ?thesis
  proof (cases r)
    case (Inl err)
    then show ?thesis by (simp add: on_link_def r)
  next
    case (Inr p)
    obtain tid l where p: "p = (tid, l)" by fastforce
    from r Inr p have "is_uuid tid" using link_resolve_Inr(2) by blast
    then show ?thesis using r Inr p d by (auto simp: on_link_def for_tenant_Inr)
  qed
qed

lemma link_resolve_state: "link_resolve k e token purpose db = (r, db') \<Longrightarrow> db' = db"
  by (metis link_resolve_db snd_conv)

lemma on_link_Inl: "on_link k e token purpose f db = (Inl err, db') \<Longrightarrow> db' = db"
  by (auto simp: on_link_def for_tenant_Inl split: prod.splits sum.splits dest: link_resolve_state)

lemma on_link_resolved:
  "link_resolve k e token purpose db = (Inr (tid, l), db) \<Longrightarrow>
     on_link k e token purpose f db = for_tenant tid (f tid l) db"
  by (simp add: on_link_def)

lemma on_link_isolated:
  assumes "link_resolve k e token purpose db = (Inr (tid, l), db1)"
    and "\<And>a db'. f tid l db = Inr (a, db') \<Longrightarrow> others tid db' = others tid db"
  shows "others tid (snd (on_link k e token purpose f db)) = others tid db"
proof -
  have "db1 = db" using link_resolve_Inr(1) [OF assms(1)] .
  with assms show ?thesis
    by (auto simp: on_link_def for_tenant_def split: sum.splits prod.splits)
qed

lemma and_then_Inr:
  "and_then f g db = (Inr b, db') \<longleftrightarrow> (\<exists>a db1. f db = (Inr a, db1) \<and> g db1 = (Inr b, db'))"
  by (auto simp: and_then_def split: prod.splits sum.splits)

lemma link_resolve_cong:
  assumes "public_links db' = public_links db" and "tenants db' = tenants db"
  shows "fst (link_resolve k e token p db') = fst (link_resolve k e token p db)"
  using assms
  by (auto simp: link_resolve_def resolve_public_link_def for_tenant_def split: option.splits)

lemma link_resolve_again:
  assumes "link_resolve k e token p db = (r, db)"
    and "public_links db' = public_links db" and "tenants db' = tenants db"
  shows "link_resolve k e token p db' = (r, db')"
  using link_resolve_cong [OF assms(2,3), of k e token p] assms(1)
    link_resolve_db [of k e token p db'] by (metis fst_conv prod.collapse)

section \<open>A page that answers and then shows itself\<close>

text \<open>
  The contract of the three pages: the view reads and never writes. Then an answer through
  the page either failed and changed nothing, or is one transaction of the link's tenant.
\<close>

locale link_page =
  fixes purpose :: link_purpose and view :: "link_keys \<Rightarrow> env \<Rightarrow> string \<Rightarrow> 'v svc"
  assumes view_reads: "view k e token db = (r, db') \<Longrightarrow> db' = db"
begin

lemma answer_outcome:
  assumes "and_then (on_link k e token purpose f) (view k e token) db = (r, db')"
  shows "db' = db \<or> (\<exists>tid l u. link_resolve k e token purpose db = (Inr (tid, l), db) \<and> f tid l db = Inr (u, db'))"
proof -
  obtain r1 db1 where 1: "on_link k e token purpose f db = (r1, db1)" by fastforce
  show ?thesis
  proof (cases r1)
    case (Inl err)
    with 1 assms on_link_Inl show ?thesis by (auto simp: and_then_def)
  next
    case (Inr u)
    with 1 assms have "view k e token db1 = (r, db')" by (simp add: and_then_def)
    then have "db' = db1" by (rule view_reads)
    with 1 Inr show ?thesis by (auto simp: on_link_Inr)
  qed
qed

lemma answer_Inr:
  assumes "and_then (on_link k e token purpose f) (view k e token) db = (Inr v, db')"
  obtains tid l u where "link_resolve k e token purpose db = (Inr (tid, l), db)"
    "f tid l db = Inr (u, db')" "view k e token db' = (Inr v, db')"
proof -
  from assms obtain u db1 where o: "on_link k e token purpose f db = (Inr u, db1)"
    "view k e token db1 = (Inr v, db')"
    by (auto simp: and_then_Inr)
  moreover have "db' = db1" by (rule view_reads [OF o(2)])
  ultimately show thesis using that by (auto simp: on_link_Inr)
qed

lemma answer_isolated:
  assumes "link_resolve k e token purpose db = (Inr (tid, l), db)"
    and "\<And>u db'. f tid l db = Inr (u, db') \<Longrightarrow> others tid db' = others tid db"
    and "and_then (on_link k e token purpose f) (view k e token) db = (r, db')"
  shows "others tid db' = others tid db"
  using answer_outcome [OF assms(3)] assms(1,2) by auto

end

section \<open>Amounts in messages\<close>

fun commas :: "string \<Rightarrow> string" where
  "commas (a # b # c # d # s) = a # b # c # CHR '','' # commas (d # s)"
| "commas s = s"

text \<open>\<open>Intl.NumberFormat('he-IL')\<close> with at most two decimals, of an amount in hundredths.\<close>

definition format_ils :: "int \<Rightarrow> string" where
  "format_ils c =
     (let a = nat (abs c); f = a mod 100
      in (if c < 0 then utf8 [8206] @ ''-'' else [])
         @ rev (commas (rev (show_nat (a div 100))))
         @ (if f = 0 then []
            else if f mod 10 = 0 then ''.'' @ show_nat (f div 10)
            else ''.'' @ show_nat (f div 10) @ show_nat (f mod 10))
         @ (utf8 [32, 8362]))"

definition demo_intl :: intl where
  "demo_intl = \<lparr>il_visit_day = (\<lambda>t. ''day''), il_visit_time = (\<lambda>t. ''10:00''), il_utc_day = (\<lambda>t. ''day''),
     il_israel_today = (\<lambda>t. ''2026-09-20'')\<rparr>"

end
