(* ===== verification/Invoicing.thy ===== *)
theory Invoicing
  imports Database "HOL-Library.Word"
begin

unbundle bit_operations_syntax

text \<open>
  modules/invoicing/invoicing.service.ts: the check of a closed task's price codes and the
  three stages of an invoice: read and compute, write under the tenant's lock with the next
  running number, render and upload. Rendering and the Drive upload are code outside the
  repository (pdfkit, Google) reached through the integrations: they are the parameter
  \<open>deliver\<close>, an operation that returns the id of the uploaded file.
\<close>

section \<open>The advisory lock key\<close>

text \<open>FNV-1a over the code units of the tenant id; \<open>Math.imul\<close> wraps at 32 bits.\<close>

definition fnv_step :: "32 word \<Rightarrow> char \<Rightarrow> 32 word" where
  "fnv_step hash c = (hash XOR word_of_nat (of_char c)) * 16777619"

definition tenant_lock_key :: "string \<Rightarrow> int" where
  "tenant_lock_key tid = uint (foldl fnv_step 2166136261 tid)"

section \<open>Checking a closed task\<close>

definition type_error :: http_error where
  "type_error = Thrown ''TypeError''"

text \<open>The codes of the done items; a null entry or a value without \<open>filter\<close> throws.\<close>

definition item_code :: "json \<Rightarrow> string option" where
  "item_code item =
     (if jtruthy (jget ''done'' item) \<and> jtruthy (jget ''priceCode'' item)
      then jstr_opt (jget ''priceCode'' item) else None)"

text \<open>A truthy code that is no text is passed on, and the query refuses it.\<close>

definition unsearchable :: "json \<Rightarrow> bool" where
  "unsearchable item \<longleftrightarrow> jtruthy (jget ''done'' item) \<and> jtruthy (jget ''priceCode'' item) \<and> item_code item = None"

definition validate_tx :: "string \<Rightarrow> string \<Rightarrow> string list tx" where
  "validate_tx tid taskId db =
     (case List.find (\<lambda>t. t_id t = taskId \<and> t_tenantId t = tid) (tasks db) of
        None \<Rightarrow> Inr ([], db)
      | Some t \<Rightarrow>
          if \<not> jtruthy (t_checklist t) then Inr ([], db)
          else (case t_checklist t of
              Some (JArr items) \<Rightarrow>
                if JNull \<in> set items then Inl type_error
                else if list_ex unsearchable items then Inl (Thrown ''PrismaClientValidationError'')
                else let codes = List.map_filter item_code items;
                         found = map pl_code (filter (\<lambda>p. pl_tenantId p = tid \<and> pl_code p \<in> set codes
                                   \<and> pl_isActive p) (price_list_items db))
                     in Inr (filter (\<lambda>c. c \<notin> set found) codes, db)
            | _ \<Rightarrow> Inl type_error))"

text \<open>The missing codes are only logged; the result is the codes that were missing.\<close>

definition validate_closed_task :: "string \<Rightarrow> string \<Rightarrow> string list svc" where
  "validate_closed_task tid taskId db = for_tenant tid (validate_tx tid taskId) db"

section \<open>Stage 1: read and compute\<close>

record invoice_params =
  ip_customerId :: string
  ip_periodStart :: int
  ip_periodEnd :: int

record pending_line =
  ln_taskId :: string
  ln_priceCode :: string
  ln_description :: string
  ln_amount :: int

definition billed_tasks :: "string \<Rightarrow> string \<Rightarrow> db \<Rightarrow> string list" where
  "billed_tasks tid cid db = List.map_filter (\<lambda>l.
     if list_ex (\<lambda>i. iv_id i = il_invoiceId l \<and> iv_tenantId i = tid \<and> iv_customerId i = cid) (invoices db)
     then il_taskId l else None) (invoice_line_items db)"

definition closed_tasks :: "string \<Rightarrow> invoice_params \<Rightarrow> db \<Rightarrow> task list" where
  "closed_tasks tid p db = filter (\<lambda>t. t_tenantId t = tid \<and> t_customerId t = ip_customerId p
     \<and> t_status t = CLOSED
     \<and> (case t_closedAt t of None \<Rightarrow> False | Some c \<Rightarrow> ip_periodStart p \<le> c \<and> c \<le> ip_periodEnd p)
     \<and> t_id t \<notin> set (billed_tasks tid (ip_customerId p) db)) (tasks db)"

text \<open>Iterating a checklist: null is empty, a string has no done entries, another value throws.\<close>

definition checklist_entries :: "json option \<Rightarrow> http_error + json list" where
  "checklist_entries v =
     (case v of
        None \<Rightarrow> Inr [] | Some JNull \<Rightarrow> Inr [] | Some (JStr _) \<Rightarrow> Inr []
      | Some (JArr items) \<Rightarrow> (if JNull \<in> set items then Inl type_error else Inr items)
      | Some _ \<Rightarrow> Inl type_error)"

definition price_by_code :: "string \<Rightarrow> db \<Rightarrow> string \<Rightarrow> price_list_item option" where
  "price_by_code tid db code =
     List.find (\<lambda>p. pl_tenantId p = tid \<and> pl_isActive p \<and> pl_code p = code) (price_list_items db)"

definition line_of_item :: "string \<Rightarrow> db \<Rightarrow> string \<Rightarrow> json \<Rightarrow> pending_line option" where
  "line_of_item tid db taskId item =
     (case item_code item of
        None \<Rightarrow> None
      | Some code \<Rightarrow>
          map_option (\<lambda>p. \<lparr>ln_taskId = taskId, ln_priceCode = code, ln_description = pl_description p,
                            ln_amount = pl_price p\<rparr>) (price_by_code tid db code))"

fun collect_lines :: "string \<Rightarrow> db \<Rightarrow> task list \<Rightarrow> http_error + pending_line list" where
  "collect_lines tid db [] = Inr []"
| "collect_lines tid db (t # ts) =
     (case checklist_entries (t_checklist t) of
        Inl e \<Rightarrow> Inl e
      | Inr items \<Rightarrow>
          (case collect_lines tid db ts of
             Inl e \<Rightarrow> Inl e
           | Inr ls \<Rightarrow> Inr (List.map_filter (line_of_item tid db (t_id t)) items @ ls)))"

record prepared =
  pr_lineItems :: "pending_line list"
  pr_totalAmount :: int

definition prepare_tx :: "string \<Rightarrow> invoice_params \<Rightarrow> prepared tx" where
  "prepare_tx tid p db =
     (if \<not> list_ex (\<lambda>c. c_id c = ip_customerId p \<and> c_tenantId c = tid) (customers db)
      then Inl (NotFound ''Customer not found for this tenant'')
      else if \<not> list_ex (\<lambda>t. tn_id t = tid) (tenants db) then Inl (PrismaKnown ''P2025'')
      else let ts = closed_tasks tid p db
           in if ts = []
              then Inl (BadRequest ''No un-invoiced closed tasks found for this customer in the given period'')
              else case collect_lines tid db ts of
                  Inl e \<Rightarrow> Inl e
                | Inr ls \<Rightarrow>
                    if ls = []
                    then Inl (BadRequest ''Found closed tasks but no billable checklist items matched an active price list entry'')
                    else Inr (\<lparr>pr_lineItems = ls, pr_totalAmount = foldl (\<lambda>s l. s + ln_amount l) 0 ls\<rparr>, db))"

section \<open>Stage 2: write\<close>

definition invoice_numbers :: "string \<Rightarrow> db \<Rightarrow> nat list" where
  "invoice_numbers tid db = map iv_invoiceNumber (filter (\<lambda>i. iv_tenantId i = tid) (invoices db))"

definition allocate_invoice_number :: "string \<Rightarrow> db \<Rightarrow> nat" where
  "allocate_invoice_number tid db = next_number (invoice_numbers tid db)"

text \<open>\<open>@@unique([taskId, priceCode])\<close> on invoice lines; one createMany is all or nothing.\<close>

definition line_row :: "string \<Rightarrow> pending_line \<Rightarrow> invoice_line_item" where
  "line_row ivId l = \<lparr>il_invoiceId = ivId, il_taskId = Some (ln_taskId l), il_priceCode = ln_priceCode l,
     il_description = ln_description l, il_amount = ln_amount l\<rparr>"

definition line_key :: "invoice_line_item \<Rightarrow> (string \<times> string) option" where
  "line_key r = map_option (\<lambda>t. (t, il_priceCode r)) (il_taskId r)"

definition billed_keys :: "db \<Rightarrow> (string \<times> string) list" where
  "billed_keys db = List.map_filter line_key (invoice_line_items db)"

definition pending_key :: "pending_line \<Rightarrow> string \<times> string" where
  "pending_key l = (ln_taskId l, ln_priceCode l)"

definition lines_create_many :: "string \<Rightarrow> pending_line list \<Rightarrow> db \<Rightarrow> http_error + db" where
  "lines_create_many ivId ls db =
     (if distinct (map pending_key ls) \<and> set (map pending_key ls) \<inter> set (billed_keys db) = {}
      then Inr (db\<lparr>invoice_line_items := invoice_line_items db @ map (line_row ivId) ls\<rparr>)
      else Inl (PrismaKnown ''P2002''))"

definition new_invoice :: "env \<Rightarrow> string \<Rightarrow> invoice_params \<Rightarrow> int \<Rightarrow> db \<Rightarrow> invoice" where
  "new_invoice e tid p amount db = \<lparr>iv_id = next_id e db, iv_tenantId = tid,
     iv_customerId = ip_customerId p, iv_invoiceNumber = allocate_invoice_number tid db,
     iv_periodStart = ip_periodStart p, iv_periodEnd = ip_periodEnd p, iv_totalAmount = amount,
     iv_status = INV_DRAFT, iv_pdfDriveFileId = None, iv_finalizedAt = None\<rparr>"

definition write_tx :: "env \<Rightarrow> string \<Rightarrow> invoice_params \<Rightarrow> prepared \<Rightarrow> invoice tx" where
  "write_tx e tid p pr db =
     (let iv = new_invoice e tid p (pr_totalAmount pr) db
      in case lines_create_many (iv_id iv) (pr_lineItems pr)
             ((bump_id db)\<lparr>invoices := invoices db @ [iv]\<rparr>) of
           Inl err \<Rightarrow>
             (if is_unique_violation err
              then Inl (Conflict ''One or more work items were already billed by a concurrent invoice run'')
              else Inl err)
         | Inr db1 \<Rightarrow> Inr (iv, db1))"

section \<open>Stage 3: deliver, and the whole\<close>

definition finalize_row :: "env \<Rightarrow> string \<Rightarrow> invoice \<Rightarrow> invoice" where
  "finalize_row e fileId i = i\<lparr>iv_status := FINALIZED, iv_finalizedAt := Some (now e),
     iv_pdfDriveFileId := Some fileId\<rparr>"

definition lines_of :: "string \<Rightarrow> db \<Rightarrow> invoice_line_item list" where
  "lines_of ivId db = filter (\<lambda>l. il_invoiceId l = ivId) (invoice_line_items db)"

definition find_invoice :: "string \<Rightarrow> string \<Rightarrow> db \<Rightarrow> invoice option" where
  "find_invoice tid ivId db = List.find (\<lambda>i. iv_id i = ivId \<and> iv_tenantId i = tid) (invoices db)"

definition finalize_tx ::
  "env \<Rightarrow> string \<Rightarrow> string \<Rightarrow> string \<Rightarrow> (invoice \<times> invoice_line_item list) tx" where
  "finalize_tx e tid ivId fileId db =
     (let db1 = db\<lparr>invoices := snd (update_rows (\<lambda>i. iv_id i = ivId \<and> iv_tenantId i = tid)
           (finalize_row e fileId) (invoices db))\<rparr>
      in case find_invoice tid ivId db1 of
           None \<Rightarrow> Inl (PrismaKnown ''P2025'')
         | Some i \<Rightarrow> Inr ((i, lines_of ivId db1), db1))"

definition reload_tx :: "string \<Rightarrow> string \<Rightarrow> (invoice \<times> invoice_line_item list) tx" where
  "reload_tx tid ivId db =
     (case find_invoice tid ivId db of
        None \<Rightarrow> Inl (PrismaKnown ''P2025'')
      | Some i \<Rightarrow> Inr ((i, lines_of ivId db), db))"

type_synonym deliver = "string \<Rightarrow> invoice \<Rightarrow> pending_line list \<Rightarrow> string svc"

definition generate_invoice ::
  "deliver \<Rightarrow> env \<Rightarrow> string \<Rightarrow> invoice_params \<Rightarrow> (invoice \<times> invoice_line_item list) svc" where
  "generate_invoice deliver e tid p db =
     (case for_tenant tid (prepare_tx tid p) db of
        (Inl err, db1) \<Rightarrow> (Inl err, db1)
      | (Inr pr, db1) \<Rightarrow>
          (case for_tenant tid (write_tx e tid p pr) db1 of
             (Inl err, db2) \<Rightarrow> (Inl err, db2)
           | (Inr iv, db2) \<Rightarrow>
               (case deliver tid iv (pr_lineItems pr) db2 of
                  (Inr fileId, db3) \<Rightarrow> for_tenant tid (finalize_tx e tid (iv_id iv) fileId) db3
                | (Inl _, db3) \<Rightarrow> for_tenant tid (reload_tx tid (iv_id iv)) db3)))"

definition invoices_find_all ::
  "string \<Rightarrow> string option \<Rightarrow> (invoice \<times> invoice_line_item list \<times> customer option) list svc" where
  "invoices_find_all tid cid db =
     for_tenant tid (\<lambda>db. Inr (map (\<lambda>i. (i, lines_of (iv_id i) db,
          List.find (\<lambda>c. c_id c = iv_customerId i) (customers db)))
       (sort_key (\<lambda>i. Desc (iv_invoiceNumber i))
         (filter (\<lambda>i. iv_tenantId i = tid \<and> (truthy cid \<longrightarrow> Some (iv_customerId i) = cid)) (invoices db))), db)) db"

definition invoice_find_one ::
  "string \<Rightarrow> string \<Rightarrow> (invoice \<times> invoice_line_item list \<times> customer option) svc" where
  "invoice_find_one tid ivId db =
     for_tenant tid (\<lambda>db.
       case find_invoice tid ivId db of
         None \<Rightarrow> Inl (NotFound ''Invoice not found'')
       | Some i \<Rightarrow> Inr ((i, lines_of ivId db, List.find (\<lambda>c. c_id c = iv_customerId i) (customers db)), db)) db"

section \<open>The outcomes of one run\<close>

text \<open>What the delivery may do: anything but touch invoices and their lines.\<close>

definition keeps_invoices :: "deliver \<Rightarrow> bool" where
  "keeps_invoices deliver \<longleftrightarrow> (\<forall>tid iv ls db.
     invoices (snd (deliver tid iv ls db)) = invoices db
     \<and> invoice_line_items (snd (deliver tid iv ls db)) = invoice_line_items db)"

lemma prepare_tx_Inr:
  assumes "prepare_tx tid p db = Inr (pr, db')"
  shows "db' = db" "collect_lines tid db (closed_tasks tid p db) = Inr (pr_lineItems pr)"
    "pr_totalAmount pr = sum_list (map ln_amount (pr_lineItems pr))" "pr_lineItems pr \<noteq> []"
proof -
  have fold: "foldl (\<lambda>s l. s + ln_amount l) a ls = a + sum_list (map ln_amount ls)" for a ls
    by (induction ls arbitrary: a) simp_all
  show "db' = db" "collect_lines tid db (closed_tasks tid p db) = Inr (pr_lineItems pr)"
    "pr_totalAmount pr = sum_list (map ln_amount (pr_lineItems pr))" "pr_lineItems pr \<noteq> []"
    using assms by (auto simp: prepare_tx_def Let_def fold split: if_splits sum.splits)
qed

lemma write_tx_Inr:
  assumes "write_tx e tid p pr db = Inr (iv, db')"
  shows "iv = new_invoice e tid p (pr_totalAmount pr) db"
    and "invoices db' = invoices db @ [iv]"
    and "invoice_line_items db' = invoice_line_items db @ map (line_row (iv_id iv)) (pr_lineItems pr)"
    and "distinct (map pending_key (pr_lineItems pr))"
    and "set (map pending_key (pr_lineItems pr)) \<inter> set (billed_keys db) = {}"
  using assms
  by (auto simp: write_tx_def lines_create_many_def billed_keys_def bump_id_def Let_def split: if_splits)

lemma generate_invoice_cases:
  assumes "generate_invoice deliver e tid p db = (res, db')" and "keeps_invoices deliver"
  obtains (failed) err where "res = Inl err" "db' = db"
  | (written) pr iv db2 where "is_uuid tid" "prepare_tx tid p db = Inr (pr, db)" "write_tx e tid p pr db = Inr (iv, db2)"
      "invoices db' = invoices db2 \<or> (\<exists>fileId. invoices db' =
         map (\<lambda>i. if iv_id i = iv_id iv \<and> iv_tenantId i = tid then finalize_row e fileId i else i) (invoices db2))"
      "invoice_line_items db' = invoice_line_items db2"
      "(\<exists>err. res = Inl err) \<or>
       (\<exists>i. res = Inr (i, lines_of (iv_id iv) db') \<and> find_invoice tid (iv_id iv) db' = Some i)"
proof (cases "for_tenant tid (prepare_tx tid p) db")
  case (Pair r1 db1)
  show thesis
  proof (cases r1)
    case (Inl err)
    with Pair have "db1 = db" by (simp add: for_tenant_Inl)
    with assms(1) Pair Inl show thesis by (intro failed [of err]) (simp_all add: generate_invoice_def)
  next
    case (Inr pr)
    with Pair have tid: "is_uuid tid" and p1: "prepare_tx tid p db = Inr (pr, db1)" by (simp_all add: for_tenant_Inr)
    from prepare_tx_Inr(1) [OF p1] have db1: "db1 = db" .
    show thesis
    proof (cases "for_tenant tid (write_tx e tid p pr) db")
      case (Pair r2 db2)
      show thesis
      proof (cases r2)
        case (Inl err)
        with Pair have "db2 = db" by (simp add: for_tenant_Inl)
        with assms(1) Pair Inl Inr p1 db1 tid show thesis
          by (intro failed [of err]) (simp_all add: generate_invoice_def for_tenant_def)
      next
        case (Inr iv)
        with Pair have w: "write_tx e tid p pr db = Inr (iv, db2)" by (simp add: for_tenant_Inr)
        obtain r3 db3 where d: "deliver tid iv (pr_lineItems pr) db2 = (r3, db3)" by fastforce
        with assms(2) have keep: "invoices db3 = invoices db2" "invoice_line_items db3 = invoice_line_items db2"
          unfolding keeps_invoices_def by (metis snd_conv)+
        have fin: "invoices db' = invoices db2 \<or> (\<exists>fileId. invoices db' =
             map (\<lambda>i. if iv_id i = iv_id iv \<and> iv_tenantId i = tid then finalize_row e fileId i else i) (invoices db2))"
          "invoice_line_items db' = invoice_line_items db2"
          "(\<exists>err. res = Inl err) \<or>
           (\<exists>i. res = Inr (i, lines_of (iv_id iv) db') \<and> find_invoice tid (iv_id iv) db' = Some i)"
        proof -
          from assms(1) p1 db1 tid w d have "(res, db') = (case r3 of
              Inr fileId \<Rightarrow> for_tenant tid (finalize_tx e tid (iv_id iv) fileId) db3
            | Inl _ \<Rightarrow> for_tenant tid (reload_tx tid (iv_id iv)) db3)"
            by (simp add: generate_invoice_def for_tenant_def split: sum.splits)
          then show "invoices db' = invoices db2 \<or> (\<exists>fileId. invoices db' =
             map (\<lambda>i. if iv_id i = iv_id iv \<and> iv_tenantId i = tid then finalize_row e fileId i else i) (invoices db2))"
            "invoice_line_items db' = invoice_line_items db2"
            "(\<exists>err. res = Inl err) \<or>
             (\<exists>i. res = Inr (i, lines_of (iv_id iv) db') \<and> find_invoice tid (iv_id iv) db' = Some i)"
            using keep tid
            by (auto simp: for_tenant_def finalize_tx_def reload_tx_def update_rows_def Let_def
                split: sum.splits option.splits)
        qed
        from p1 db1 have "prepare_tx tid p db = Inr (pr, db)" by simp
        from written [OF tid this w fin] show thesis .
      qed
    qed
  qed
qed

section \<open>Totals\<close>

definition fresh_invoice :: "env \<Rightarrow> db \<Rightarrow> bool" where
  "fresh_invoice e db \<longleftrightarrow> (\<forall>i \<in> set (invoices db). iv_id i \<noteq> next_id e db)
     \<and> (\<forall>l \<in> set (invoice_line_items db). il_invoiceId l \<noteq> next_id e db)"

lemma new_invoice_simps [simp]:
  "iv_id (new_invoice e tid p a db) = next_id e db"
  "iv_tenantId (new_invoice e tid p a db) = tid"
  "iv_totalAmount (new_invoice e tid p a db) = a"
  "iv_customerId (new_invoice e tid p a db) = ip_customerId p"
  "iv_invoiceNumber (new_invoice e tid p a db) = allocate_invoice_number tid db"
  by (simp_all add: new_invoice_def)

lemma finalize_row_simps [simp]:
  "iv_id (finalize_row e f i) = iv_id i" "iv_tenantId (finalize_row e f i) = iv_tenantId i"
  "iv_totalAmount (finalize_row e f i) = iv_totalAmount i" "iv_invoiceNumber (finalize_row e f i) = iv_invoiceNumber i"
  "iv_customerId (finalize_row e f i) = iv_customerId i"
  by (simp_all add: finalize_row_def)

lemma lines_written:
  assumes "fresh_invoice e db" and "invoice_line_items db' = invoice_line_items db @ map (line_row (next_id e db)) ls"
  shows "lines_of (next_id e db) db' = map (line_row (next_id e db)) ls"
proof -
  have "filter (\<lambda>l. il_invoiceId l = next_id e db) (invoice_line_items db) = []"
    using assms(1) by (auto simp: fresh_invoice_def filter_empty_conv)
  moreover have "filter (\<lambda>l. il_invoiceId l = next_id e db) (map (line_row (next_id e db)) ls) = map (line_row (next_id e db)) ls"
    by (induction ls) (simp_all add: line_row_def)
  ultimately show ?thesis by (simp add: lines_of_def assms(2))
qed

text \<open>C10. A generated invoice belongs to the tenant and customer asked for, its lines are exactly
  the billable items of the selected closed tasks, and its total is the sum of its lines.\<close>
theorem generated_invoice_adds_up:
  assumes "generate_invoice deliver e tid p db = (Inr (iv, ls), db')"
    and "keeps_invoices deliver" and "fresh_invoice e db"
  shows "iv_totalAmount iv = sum_list (map il_amount ls) \<and> ls \<noteq> []
    \<and> iv_tenantId iv = tid \<and> iv_customerId iv = ip_customerId p
    \<and> iv_invoiceNumber iv = allocate_invoice_number tid db
    \<and> (\<exists>pending. collect_lines tid db (closed_tasks tid p db) = Inr pending
         \<and> ls = map (line_row (iv_id iv)) pending
         \<and> invoice_line_items db' = invoice_line_items db @ ls)"
  using assms(1,2)
proof (cases rule: generate_invoice_cases)
  case (written pr iv0 db2)
  note prep = prepare_tx_Inr [OF written(2)] and w = write_tx_Inr [OF written(3)]
  have id: "iv_id iv0 = next_id e db" using w(1) by simp
  from written(6) have res: "ls = lines_of (next_id e db) db'" "find_invoice tid (next_id e db) db' = Some iv"
    using id by auto
  have ls: "ls = map (line_row (next_id e db)) (pr_lineItems pr)"
    using res(1) lines_written [OF assms(3), of db' "pr_lineItems pr"] written(5) w(3) id by simp
  from find_SomeD [OF res(2) [unfolded find_invoice_def]] have iv: "iv \<in> set (invoices db')" "iv_id iv = next_id e db" by auto
  have old: "iv_id i \<noteq> next_id e db" if "i \<in> set (invoices db)" for i
    using that assms(3) by (simp add: fresh_invoice_def)
  from written(4) iv w(2) have "iv = iv0 \<or> (\<exists>f. iv = finalize_row e f iv0)"
    using old id by (auto split: if_splits)
  then have "iv_totalAmount iv = iv_totalAmount iv0" "iv_tenantId iv = iv_tenantId iv0"
    "iv_customerId iv = iv_customerId iv0" "iv_invoiceNumber iv = iv_invoiceNumber iv0" by auto
  moreover have "sum_list (map il_amount ls) = sum_list (map ln_amount (pr_lineItems pr))"
    by (simp add: ls line_row_def comp_def)
  ultimately show ?thesis
    using prep w(1,3) written(5) ls iv(2) id by auto
qed simp

section \<open>Running numbers\<close>

definition invoice_step :: "db \<Rightarrow> db \<Rightarrow> bool" where
  "invoice_step db db' \<longleftrightarrow> (\<exists>deliver e tid p r. keeps_invoices deliver \<and> generate_invoice deliver e tid p db = (r, db'))"

lemma invoice_numbers_generate:
  assumes "generate_invoice deliver e tid p db = (r, db')" and "keeps_invoices deliver"
  shows "invoice_numbers owner db' = invoice_numbers owner db
    \<or> invoice_numbers owner db' = invoice_numbers owner db @ [next_number (invoice_numbers owner db)]"
  using assms
proof (cases rule: generate_invoice_cases)
  case failed
  then show ?thesis by simp
next
  case (written pr iv db2)
  note w = write_tx_Inr [OF written(3)]
  have keep: "map iv_invoiceNumber (filter (\<lambda>i. iv_tenantId i = owner)
      (map (\<lambda>i. if iv_id i = iv_id iv \<and> iv_tenantId i = tid then finalize_row e f i else i) is))
    = map iv_invoiceNumber (filter (\<lambda>i. iv_tenantId i = owner) is)" for f "is"
    by (induction "is") auto
  have "invoice_numbers owner db' = invoice_numbers owner db2"
    using written(4) by (auto simp: invoice_numbers_def keep)
  with w(1,2) show ?thesis
    by (auto simp: invoice_numbers_def allocate_invoice_number_def)
qed

interpretation invoice_book: number_book invoice_numbers invoice_step
  by unfold_locales (auto simp: invoice_step_def dest: invoice_numbers_generate)

text \<open>C11. Over any sequence of invoice runs of any tenants, successful or not, every tenant's
  invoice numbers stay 1..n without gap or repetition.\<close>
theorem invoice_numbers_gapless:
  assumes "invoice_step\<^sup>*\<^sup>* db db'" and "gapless (invoice_numbers owner db)"
  shows "gapless (invoice_numbers owner db')"
  using assms by (rule invoice_book.stays_gapless_run)

section \<open>Billing once\<close>

lemma pending_of_tasks:
  "collect_lines tid db ts = Inr ls \<Longrightarrow> l \<in> set ls \<Longrightarrow> \<exists>t \<in> set ts. ln_taskId l = t_id t"
  by (induction ts arbitrary: ls)
    (auto simp: map_filter_def line_of_item_def split: sum.splits option.splits)

text \<open>C12. No (task, price code) pair is ever billed twice, and a run only bills closed tasks of
  the tenant that no invoice of that customer has billed before.\<close>
theorem work_is_billed_once:
  assumes "generate_invoice deliver e tid p db = (r, db')" and "keeps_invoices deliver"
    and "distinct (billed_keys db)"
  shows "distinct (billed_keys db')
    \<and> (\<exists>new. invoice_line_items db' = invoice_line_items db @ new
         \<and> (\<forall>l \<in> set new. \<exists>t \<in> set (tasks db). il_taskId l = Some (t_id t) \<and> t_tenantId t = tid
              \<and> t_status t = CLOSED \<and> t_id t \<notin> set (billed_tasks tid (ip_customerId p) db)))"
  using assms(1,2)
proof (cases rule: generate_invoice_cases)
  case failed
  with assms(3) show ?thesis by simp
next
  case (written pr iv db2)
  note w = write_tx_Inr [OF written(3)] and prep = prepare_tx_Inr [OF written(2)]
  have keys: "List.map_filter line_key (map (line_row i) ls) = map pending_key ls" for i ls
    by (induction ls) (simp_all add: map_filter_def line_key_def line_row_def pending_key_def)
  have "billed_keys db' = billed_keys db @ map pending_key (pr_lineItems pr)"
    using written(5) w(3) keys by (simp add: billed_keys_def map_filter_def)
  moreover have "\<exists>t \<in> set (tasks db). il_taskId l = Some (t_id t) \<and> t_tenantId t = tid
      \<and> t_status t = CLOSED \<and> t_id t \<notin> set (billed_tasks tid (ip_customerId p) db)"
    if "l \<in> set (map (line_row (iv_id iv)) (pr_lineItems pr))" for l
  proof -
    from that obtain q where q: "q \<in> set (pr_lineItems pr)" "l = line_row (iv_id iv) q" by auto
    from pending_of_tasks [OF prep(2) q(1)] obtain t where "t \<in> set (closed_tasks tid p db)" "ln_taskId q = t_id t" by blast
    with q(2) show ?thesis by (intro bexI [of _ t]) (auto simp: closed_tasks_def line_row_def)
  qed
  ultimately show ?thesis
    using assms(3) w(3-5) written(5) by auto
qed

lemma collect_lines_task:
  assumes "collect_lines tid db ts = Inr ls" and "t \<in> set ts"
  shows "\<exists>items pre post. checklist_entries (t_checklist t) = Inr items
     \<and> ls = pre @ List.map_filter (line_of_item tid db (t_id t)) items @ post"
  using assms
proof (induction ts arbitrary: ls)
  case Nil
  then show ?case by simp
next
  case (Cons u ts)
  from Cons.prems(1) obtain items ls' where u: "checklist_entries (t_checklist u) = Inr items"
    "collect_lines tid db ts = Inr ls'" "ls = List.map_filter (line_of_item tid db (t_id u)) items @ ls'"
    by (auto split: sum.splits)
  show ?case
  proof (cases "t = u")
    case True
    with u show ?thesis by (metis append_Nil)
  next
    case False
    with Cons.prems(2) Cons.IH [OF u(2)] obtain its pre post where
      "checklist_entries (t_checklist t) = Inr its" "ls' = pre @ List.map_filter (line_of_item tid db (t_id t)) its @ post"
      by auto
    with u(3) show ?thesis by (metis append.assoc)
  qed
qed

lemma map_filter_append [simp]: "List.map_filter f (xs @ ys) = List.map_filter f xs @ List.map_filter f ys"
  by (simp add: map_filter_def)

text \<open>A closed task whose checklist names one price code in two done items makes every run
  over its period fail with the conflict error and write nothing.\<close>
theorem repeated_code_blocks_invoicing:
  assumes "prepare_tx tid p db = Inr (pr, db)" and "is_uuid tid"
    and "t \<in> set (closed_tasks tid p db)"
    and "checklist_entries (t_checklist t) = Inr (xs @ a # ys @ b # zs)"
    and "item_code a = Some code" and "item_code b = Some code" and "price_by_code tid db code \<noteq> None"
  shows "generate_invoice deliver e tid p db =
    (Inl (Conflict ''One or more work items were already billed by a concurrent invoice run''), db)"
proof -
  obtain items pre post where i: "checklist_entries (t_checklist t) = Inr items"
    "pr_lineItems pr = pre @ List.map_filter (line_of_item tid db (t_id t)) items @ post"
    using collect_lines_task [OF prepare_tx_Inr(2) [OF assms(1)] assms(3)] by blast
  with assms(4) have "items = xs @ a # ys @ b # zs" by simp
  moreover obtain q where "line_of_item tid db (t_id t) a = Some q" "line_of_item tid db (t_id t) b = Some q"
    using assms(5-7) by (auto simp: line_of_item_def)
  ultimately have "\<not> distinct (map pending_key (pr_lineItems pr))"
    using i(2) by (simp add: List.map_filter_simps)
  then have "write_tx e tid p pr db =
      Inl (Conflict ''One or more work items were already billed by a concurrent invoice run'')"
    by (auto simp: write_tx_def lines_create_many_def Let_def)
  with assms(1,2) show ?thesis by (simp add: generate_invoice_def for_tenant_def)
qed

section \<open>Instances\<close>

definition demo_done :: "string \<Rightarrow> json" where
  "demo_done code = item_json \<lparr>ci_label = ''Visit'', ci_done = True, ci_priceCode = Some code, ci_sku = None, ci_qty = None\<rparr>"

definition demo_invoice_db :: "json list \<Rightarrow> db" where
  "demo_invoice_db items = demo_db\<lparr>
     tenants := [\<lparr>tn_id = demo_tenant, tn_name = ''Acme'', tn_vertical = MAINTENANCE,
        tn_subdomain = ''acme'', tn_isActive = True, tn_createdAt = 0\<rparr>],
     price_list_items := [\<lparr>pl_id = ''p1'', pl_tenantId = demo_tenant, pl_code = ''V1'',
        pl_description = ''Visit'', pl_price = 1500, pl_isActive = True\<rparr>],
     tasks := [demo_task\<lparr>t_status := CLOSED, t_closedAt := Some 2000, t_checklist := Some (JArr items)\<rparr>]\<rparr>"

definition demo_period :: invoice_params where
  "demo_period = \<lparr>ip_customerId = ''c1'', ip_periodStart = 0, ip_periodEnd = 3000\<rparr>"

definition demo_deliver :: deliver where
  "demo_deliver tid iv ls db = (Inr ''file-1'', db)"

lemma demo_deliver_keeps: "keeps_invoices demo_deliver"
  by (simp add: keeps_invoices_def demo_deliver_def)

lemma demo_item_code [simp]: "code \<noteq> [] \<Longrightarrow> item_code (demo_done code) = Some code"
  by (simp add: item_code_def demo_done_def)

lemma demo_done_not_null [simp]: "JNull \<noteq> demo_done c" "demo_done c \<noteq> JNull"
  by (simp_all add: demo_done_def item_json_def)

lemmas demo_invoice_simps = demo_invoice_db_def demo_period_def demo_defs

lemma demo_line: "line_of_item demo_tenant (demo_invoice_db its) tk (demo_done ''V1'') =
    Some \<lparr>ln_taskId = tk, ln_priceCode = ''V1'', ln_description = ''Visit'', ln_amount = 1500\<rparr>"
  by (simp add: line_of_item_def price_by_code_def demo_invoice_db_def)

lemma demo_prepare:
  assumes "its = replicate (Suc n) (demo_done ''V1'')"
  shows "prepare_tx demo_tenant demo_period (demo_invoice_db its) =
    Inr (\<lparr>pr_lineItems = replicate (Suc n) \<lparr>ln_taskId = ''t1'', ln_priceCode = ''V1'', ln_description = ''Visit'', ln_amount = 1500\<rparr>,
         pr_totalAmount = 1500 * int (Suc n)\<rparr>, demo_invoice_db its)"
proof -
  let ?l = "\<lparr>ln_taskId = ''t1'', ln_priceCode = ''V1'', ln_description = ''Visit'', ln_amount = 1500\<rparr>"
  have lines: "List.map_filter (line_of_item demo_tenant (demo_invoice_db its) ''t1'') (replicate k (demo_done ''V1'')) = replicate k ?l" for k
    by (induction k) (simp_all add: List.map_filter_simps demo_line)
  have sum: "foldl (\<lambda>s l. s + ln_amount l) a (replicate k ?l) = a + 1500 * int k" for a k
    by (induction k arbitrary: a) (simp_all add: algebra_simps)
  have cl: "closed_tasks demo_tenant demo_period (demo_invoice_db its) =
     [demo_task\<lparr>t_status := CLOSED, t_closedAt := Some 2000, t_checklist := Some (JArr its)\<rparr>]"
    by (simp add: closed_tasks_def billed_tasks_def demo_invoice_simps map_filter_def)
  have "collect_lines demo_tenant (demo_invoice_db its) (closed_tasks demo_tenant demo_period (demo_invoice_db its))
     = Inr (replicate (Suc n) ?l)"
    unfolding cl using lines [of "Suc n"]
    by (simp add: checklist_entries_def assms demo_task_def del: replicate_Suc)
  then show ?thesis
    using sum [of 0 "Suc n"] cl
    by (simp add: prepare_tx_def Let_def del: replicate_Suc)
      (simp add: demo_invoice_simps)
qed

lemma demo_generate:
  "\<exists>iv ls db'. generate_invoice demo_deliver demo_env demo_tenant demo_period (demo_invoice_db [demo_done ''V1''])
     = (Inr (iv, ls), db')"
proof -
  have "prepare_tx demo_tenant demo_period (demo_invoice_db [demo_done ''V1'']) =
    Inr (\<lparr>pr_lineItems = [\<lparr>ln_taskId = ''t1'', ln_priceCode = ''V1'', ln_description = ''Visit'', ln_amount = 1500\<rparr>],
         pr_totalAmount = 1500\<rparr>, demo_invoice_db [demo_done ''V1''])"
    using demo_prepare [of "[demo_done ''V1'']" 0] by simp
  then show ?thesis
    by (simp add: generate_invoice_def for_tenant_def write_tx_def lines_create_many_def billed_keys_def
        demo_deliver_def finalize_tx_def find_invoice_def update_rows_def Let_def
        demo_invoice_simps bump_id_def map_filter_def)
qed

theorem generated_invoice_adds_up_witness:
  "\<exists>iv ls db'. generate_invoice demo_deliver demo_env demo_tenant demo_period (demo_invoice_db [demo_done ''V1''])
     = (Inr (iv, ls), db') \<and> iv_totalAmount iv = sum_list (map il_amount ls)"
proof -
  from demo_generate obtain iv ls db' where
    run: "generate_invoice demo_deliver demo_env demo_tenant demo_period (demo_invoice_db [demo_done ''V1'']) = (Inr (iv, ls), db')"
    by blast
  have "fresh_invoice demo_env (demo_invoice_db [demo_done ''V1''])"
    by (simp add: fresh_invoice_def demo_invoice_simps)
  from generated_invoice_adds_up [OF run demo_deliver_keeps this] run show ?thesis by blast
qed

theorem invoice_numbers_gapless_witness:
  "\<exists>iv ls db'. generate_invoice demo_deliver demo_env demo_tenant demo_period (demo_invoice_db [demo_done ''V1''])
     = (Inr (iv, ls), db') \<and> gapless (invoice_numbers demo_tenant db')"
proof -
  from demo_generate obtain iv ls db' where
    run: "generate_invoice demo_deliver demo_env demo_tenant demo_period (demo_invoice_db [demo_done ''V1'']) = (Inr (iv, ls), db')"
    by blast
  then have "invoice_step (demo_invoice_db [demo_done ''V1'']) db'"
    unfolding invoice_step_def using demo_deliver_keeps by blast
  then have "invoice_step\<^sup>*\<^sup>* (demo_invoice_db [demo_done ''V1'']) db'" by (rule r_into_rtranclp)
  moreover have "gapless (invoice_numbers demo_tenant (demo_invoice_db [demo_done ''V1'']))"
    by (simp add: invoice_numbers_def demo_invoice_simps)
  ultimately show ?thesis using invoice_numbers_gapless run by blast
qed

theorem work_is_billed_once_witness:
  "\<exists>iv ls db'. generate_invoice demo_deliver demo_env demo_tenant demo_period (demo_invoice_db [demo_done ''V1''])
     = (Inr (iv, ls), db') \<and> distinct (billed_keys db')"
proof -
  from demo_generate obtain iv ls db' where
    run: "generate_invoice demo_deliver demo_env demo_tenant demo_period (demo_invoice_db [demo_done ''V1'']) = (Inr (iv, ls), db')"
    by blast
  have "distinct (billed_keys (demo_invoice_db [demo_done ''V1'']))"
    by (simp add: billed_keys_def demo_invoice_simps map_filter_def)
  from work_is_billed_once [OF run demo_deliver_keeps this] run show ?thesis by blast
qed

theorem repeated_code_blocks_invoicing_witness:
  "fst (generate_invoice demo_deliver demo_env demo_tenant demo_period (demo_invoice_db [demo_done ''V1'', demo_done ''V1'']))
     = Inl (Conflict ''One or more work items were already billed by a concurrent invoice run'')"
proof -
  let ?its = "[demo_done ''V1'', demo_done ''V1'']"
  let ?t = "demo_task\<lparr>t_status := CLOSED, t_closedAt := Some 2000, t_checklist := Some (JArr ?its)\<rparr>"
  have p: "prepare_tx demo_tenant demo_period (demo_invoice_db ?its) = Inr (\<lparr>pr_lineItems =
      replicate 2 \<lparr>ln_taskId = ''t1'', ln_priceCode = ''V1'', ln_description = ''Visit'', ln_amount = 1500\<rparr>,
      pr_totalAmount = 3000\<rparr>, demo_invoice_db ?its)"
    using demo_prepare [of ?its 1] by (simp add: numeral_2_eq_2)
  have t: "?t \<in> set (closed_tasks demo_tenant demo_period (demo_invoice_db ?its))"
    by (simp add: closed_tasks_def billed_tasks_def demo_invoice_simps map_filter_def)
  have c: "checklist_entries (t_checklist ?t) = Inr ([] @ demo_done ''V1'' # [] @ demo_done ''V1'' # [])"
    by (simp add: checklist_entries_def)
  have "price_by_code demo_tenant (demo_invoice_db ?its) ''V1'' \<noteq> None"
    by (simp add: price_by_code_def demo_invoice_db_def)
  with repeated_code_blocks_invoicing [OF p demo_tenant_uuid t c, of "''V1''"] show ?thesis by simp
qed

end
