(* ===== verification/Quotes.thy ===== *)
theory Quotes
  imports Pages Invoicing
begin

text \<open>
  modules/quotes/quotes.service.ts: quotes priced from the price list, numbered per tenant,
  sent by link, and answered by the customer. An approval creates the task that will be
  billed.
\<close>

section \<open>The business side\<close>

text \<open>The lock space of quotes: FNV-1a of \<open>quote:<tenantId>\<close>.\<close>

definition quote_lock_key :: "string \<Rightarrow> int" where
  "quote_lock_key tid = uint (foldl fnv_step 2166136261 (''quote:'' @ tid))"

definition default_valid_days :: int where
  "default_valid_days = 30"

definition max_amount :: int where
  "max_amount = 999999999999"

record quote_view =
  qv_quote :: quote
  qv_customerName :: "string option"
  qv_lines :: "quote_line list"

definition quote_lines_of :: "string \<Rightarrow> db \<Rightarrow> quote_line list" where
  "quote_lines_of qid db = sort_key ql_position (filter (\<lambda>l. ql_quoteId l = qid) (quote_lines db))"

definition quote_include :: "db \<Rightarrow> quote \<Rightarrow> quote_view" where
  "quote_include db q = \<lparr>qv_quote = q,
     qv_customerName = map_option c_name (List.find (\<lambda>c. c_id c = q_customerId q) (customers db)),
     qv_lines = quote_lines_of (q_id q) db\<rparr>"

definition find_quote :: "string \<Rightarrow> string \<Rightarrow> db \<Rightarrow> quote option" where
  "find_quote tid qid db = List.find (\<lambda>q. q_id q = qid \<and> q_tenantId q = tid) (quotes db)"

definition quote_list :: "string \<Rightarrow> quote_view list svc" where
  "quote_list tid db = for_tenant tid (\<lambda>db. Inr (map (quote_include db)
     (take 100 (sort_key (\<lambda>q. Desc (q_createdAt q)) (filter (\<lambda>q. q_tenantId q = tid) (quotes db)))), db)) db"

definition quote_get :: "string \<Rightarrow> string \<Rightarrow> quote_view svc" where
  "quote_get tid qid db =
     (case for_tenant tid (\<lambda>db. Inr (map_option (quote_include db) (find_quote tid qid db), db)) db of
        (Inl err, db1) \<Rightarrow> (Inl err, db1)
      | (Inr None, db1) \<Rightarrow> (Inl (NotFound ''Quote not found''), db1)
      | (Inr (Some v), db1) \<Rightarrow> (Inr v, db1))"

definition quote_audit :: "string \<Rightarrow> string option \<Rightarrow> string \<Rightarrow> string \<Rightarrow> json \<Rightarrow> db \<Rightarrow> db" where
  "quote_audit tid uid action entityId meta = audit_create \<lparr>al_tenantId = tid, al_userId = uid,
     al_action = action, al_entityType = ''Quote'', al_entityId = entityId, al_metadata = Some meta\<rparr>"

record create_quote_dto =
  cq_customerId :: string
  cq_priceCodes :: "string list"
  cq_notes :: "string option"
  cq_validDays :: "int option"

definition by_code :: "string \<Rightarrow> string list \<Rightarrow> db \<Rightarrow> string \<Rightarrow> price_list_item option" where
  "by_code tid codes db = map_of (rev (map (\<lambda>i. (pl_code i, i))
     (filter (\<lambda>i. pl_tenantId i = tid \<and> pl_isActive i \<and> pl_code i \<in> set codes) (price_list_items db))))"

definition quote_line_of :: "string \<Rightarrow> string \<Rightarrow> (string \<Rightarrow> price_list_item option) \<Rightarrow> nat \<times> string \<Rightarrow> quote_line" where
  "quote_line_of tid qid items pc =
     (let item = the (items (snd pc))
      in \<lparr>ql_tenantId = tid, ql_quoteId = qid, ql_priceCode = snd pc, ql_description = pl_description item,
          ql_qty = 1, ql_unitPrice = pl_price item, ql_amount = pl_price item, ql_position = fst pc\<rparr>)"

definition quote_numbers :: "string \<Rightarrow> db \<Rightarrow> nat list" where
  "quote_numbers tid db = map q_quoteNumber (filter (\<lambda>q. q_tenantId q = tid) (quotes db))"

text \<open>\<open>dto.notes?.trim() || null\<close>\<close>

definition trimmed_or_null :: "string option \<Rightarrow> string option" where
  "trimmed_or_null x = (let t = map_option trim x in if truthy t then t else None)"

definition new_quote :: "env \<Rightarrow> string \<Rightarrow> create_quote_dto \<Rightarrow> int \<Rightarrow> db \<Rightarrow> quote" where
  "new_quote e tid d amount db = \<lparr>q_id = next_id e db, q_tenantId = tid, q_customerId = cq_customerId d,
     q_quoteNumber = next_number (quote_numbers tid db), q_status = Q_DRAFT,
     q_notes = trimmed_or_null (cq_notes d), q_totalAmount = amount,
     q_validUntil = now e + or_else (cq_validDays d) default_valid_days * 86400000,
     q_approvedAt = None, q_declinedAt = None, q_taskId = None, q_createdAt = now e\<rparr>"

definition quote_create_tx :: "env \<Rightarrow> string \<Rightarrow> create_quote_dto \<Rightarrow> string \<Rightarrow> quote_view tx" where
  "quote_create_tx e tid d actorId db =
     (if \<not> list_ex (\<lambda>c. c_id c = cq_customerId d \<and> c_tenantId c = tid) (customers db)
      then Inl (NotFound ''Customer not found'')
      else let items = by_code tid (cq_priceCodes d) db;
               missing = filter (\<lambda>c. items c = None) (cq_priceCodes d)
      in if missing \<noteq> []
         then Inl (BadRequest (''Unknown or inactive price codes: '' @ join_with '', '' missing))
      else let lines = map (quote_line_of tid (next_id e db) items) (enumerate 0 (cq_priceCodes d));
               amount = foldl (\<lambda>s l. s + ql_amount l) 0 lines
      in if max_amount < amount
         then Inl (BadRequest ''The quote total is larger than the maximum amount (9,999,999,999.99)'')
      else let q = new_quote e tid d amount db;
               db1 = (bump_id db)\<lparr>quotes := quotes db @ [q], quote_lines := quote_lines db @ lines\<rparr>
      in Inr (quote_include db1 q, quote_audit tid (Some actorId) ''quote.created'' (q_id q)
           (JObj [(''quoteNumber'', jint (int (q_quoteNumber q))), (''total'', JStr (decimal_text amount))]) db1))"

definition quote_create :: "env \<Rightarrow> string \<Rightarrow> create_quote_dto \<Rightarrow> string \<Rightarrow> quote_view svc" where
  "quote_create e tid d actorId db = for_tenant tid (quote_create_tx e tid d actorId) db"

text \<open>An update by id alone reaches the rows of the tenant only: row-level security.\<close>

definition set_quote :: "(quote \<Rightarrow> bool) \<Rightarrow> (quote \<Rightarrow> quote) \<Rightarrow> db \<Rightarrow> db" where
  "set_quote P f db = db\<lparr>quotes := snd (update_rows P f (quotes db))\<rparr>"

definition quote_message :: "string \<Rightarrow> quote \<Rightarrow> string \<Rightarrow> string" where
  "quote_message business q url =
     (utf8 [1513, 1500, 1493, 1501, 44, 32, 1499, 1488, 1503, 32]) @ business @ (utf8 [46, 32, 1502, 1510, 1493, 1512, 1508, 1514, 32, 1492, 1510, 1506, 1514, 32, 1502, 1495, 1497, 1512, 32, 1502, 1505, 39, 32]) @ show_nat (q_quoteNumber q)
     @ (utf8 [32, 1506, 1500, 32, 1505, 1498, 32]) @ format_ils (q_totalAmount q)
     @ (utf8 [46, 32, 1488, 1508, 1513, 1512, 32, 1500, 1512, 1488, 1493, 1514, 32, 1488, 1514, 32, 1492, 1508, 1497, 1512, 1493, 1496, 32, 1493, 1500, 1488, 1513, 1512, 32, 1499, 1488, 1503, 58, 32]) @ url"

definition inconsistent :: http_error where
  "inconsistent = Thrown ''Inconsistent query result''"

definition quote_send_tx :: "link_keys \<Rightarrow> env \<Rightarrow> string \<Rightarrow> string \<Rightarrow> string \<Rightarrow> share_result tx" where
  "quote_send_tx k e tid qid actorId db =
     (case find_quote tid qid db of
        None \<Rightarrow> Inl (NotFound ''Quote not found'')
      | Some q \<Rightarrow>
     (case (List.find (\<lambda>c. c_id c = q_customerId q) (customers db), List.find (\<lambda>t. tn_id t = tid) (tenants db)) of
        (Some c, Some t) \<Rightarrow>
          if q_status q = Q_APPROVED \<or> q_status q = Q_DECLINED
          then Inl (Conflict ''This quote was already answered'')
          else if q_validUntil q \<le> now e then Inl (Conflict ''This quote has expired'')
          else (case link_create k e \<lparr>li_tenantId = tid, li_purpose = QUOTE_LINK, li_customerId = q_customerId q,
                  li_taskId = None, li_equipmentId = None, li_quoteId = Some qid\<rparr> db of
              Inl err \<Rightarrow> Inl err
            | Inr (link, db1) \<Rightarrow>
                let db2 = (if q_status q = Q_DRAFT
                           then set_quote (\<lambda>r. q_id r = qid \<and> q_tenantId r = tid) (\<lambda>r. r\<lparr>q_status := Q_SENT\<rparr>) db1 else db1);
                    db3 = quote_audit tid (Some actorId) ''quote.sent'' qid (JObj []) db2;
                    message = quote_message (tn_name t) q (cl_url link)
                in Inr (\<lparr>sr_url = cl_url link, sr_waUrl = build_wa_link (c_phone c) message,
                        sr_message = message\<rparr>, db3))
      | _ \<Rightarrow> Inl inconsistent))"

definition quote_send :: "link_keys \<Rightarrow> env \<Rightarrow> string \<Rightarrow> string \<Rightarrow> string \<Rightarrow> share_result svc" where
  "quote_send k e tid qid actorId db = for_tenant tid (quote_send_tx k e tid qid actorId) db"

section \<open>The customer's side\<close>

record public_quote =
  pq_businessName :: string
  pq_quoteNumber :: nat
  pq_createdAt :: int
  pq_validUntil :: int
  pq_notes :: "string option"
  pq_lines :: "(string \<times> string) list"
  pq_totalAmount :: string
  pq_status :: quote_status
  pq_canRespond :: bool

definition public_quote_of :: "env \<Rightarrow> string \<Rightarrow> quote_line list \<Rightarrow> quote \<Rightarrow> public_quote" where
  "public_quote_of e business ls q =
     (let lapsed = q_validUntil q \<le> now e
      in \<lparr>pq_businessName = business, pq_quoteNumber = q_quoteNumber q, pq_createdAt = q_createdAt q,
          pq_validUntil = q_validUntil q, pq_notes = q_notes q,
          pq_lines = map (\<lambda>l. (ql_description l, decimal_text (ql_amount l))) ls,
          pq_totalAmount = decimal_text (q_totalAmount q),
          pq_status = (if lapsed \<and> q_status q = Q_SENT then Q_EXPIRED else q_status q),
          pq_canRespond = (q_status q = Q_SENT \<and> \<not> lapsed)\<rparr>)"

definition quote_view_tx :: "env \<Rightarrow> string \<Rightarrow> public_link \<Rightarrow> public_quote tx" where
  "quote_view_tx e tid l db =
     (case not_null (pk_quoteId l) of
        Inl err \<Rightarrow> Inl err
      | Inr qid \<Rightarrow>
          (case find_quote tid qid db of
             None \<Rightarrow> Inl link_not_found
           | Some q \<Rightarrow>
               (case List.find (\<lambda>t. tn_id t = tid) (tenants db) of
                  None \<Rightarrow> Inl inconsistent
                | Some t \<Rightarrow> Inr (public_quote_of e (tn_name t) (quote_lines_of qid db) q, db))))"

definition quote_public_view :: "link_keys \<Rightarrow> env \<Rightarrow> string \<Rightarrow> public_quote svc" where
  "quote_public_view k e token = on_link k e token QUOTE_LINK (quote_view_tx e)"

definition answerable :: "env \<Rightarrow> string \<Rightarrow> string \<Rightarrow> quote \<Rightarrow> bool" where
  "answerable e tid qid q \<longleftrightarrow>
     q_id q = qid \<and> q_tenantId q = tid \<and> q_status q = Q_SENT \<and> now e < q_validUntil q"

definition quote_checklist :: "quote_line list \<Rightarrow> json" where
  "quote_checklist ls = checklist_json (map (\<lambda>l. \<lparr>ci_label = ql_description l, ci_done = False,
     ci_priceCode = Some (ql_priceCode l), ci_sku = None, ci_qty = None\<rparr>) ls)"

definition quote_task :: "string \<Rightarrow> quote \<Rightarrow> quote_line list \<Rightarrow> task" where
  "quote_task tid q ls = blank_task\<lparr>t_tenantId := tid, t_customerId := q_customerId q,
     t_title := (utf8 [1492, 1510, 1506, 1514, 32, 1502, 1495, 1497, 1512, 32, 1502, 1505, 39, 32]) @ show_nat (q_quoteNumber q) @ (utf8 [32, 8212, 32, 1488, 1493, 1513, 1512, 1492]),
     t_description := q_notes q, t_source := QUOTE_SOURCE, t_status := NEW,
     t_checklist := Some (quote_checklist ls)\<rparr>"

definition approve_tx :: "env \<Rightarrow> string \<Rightarrow> public_link \<Rightarrow> unit tx" where
  "approve_tx e tid l db =
     (case not_null (pk_quoteId l) of
        Inl err \<Rightarrow> Inl err
      | Inr qid \<Rightarrow>
     (if \<not> list_ex (answerable e tid qid) (quotes db)
      then (case find_quote tid qid db of
              Some q \<Rightarrow> if q_status q = Q_APPROVED then Inr ((), db)
                        else Inl (Conflict ''This quote can no longer be approved'')
            | None \<Rightarrow> Inl (Conflict ''This quote can no longer be approved''))
      else let db1 = set_quote (answerable e tid qid) (\<lambda>q. q\<lparr>q_status := Q_APPROVED, q_approvedAt := Some (now e)\<rparr>) db
      in (case find_quote tid qid db1 of
            None \<Rightarrow> Inl (PrismaKnown ''P2025'')
          | Some q \<Rightarrow>
         (case task_create e (quote_task tid q (quote_lines_of qid db1)) db1 of
            Inl err \<Rightarrow> Inl err
          | Inr (t, db2) \<Rightarrow>
              let db3 = set_quote (\<lambda>r. q_id r = q_id q \<and> q_tenantId r = tid) (\<lambda>r. r\<lparr>q_taskId := Some (t_id t)\<rparr>) db2;
                  db4 = quote_audit tid None ''quote.approved'' (q_id q)
                    (JObj [(''via'', JStr ''public_link''), (''taskId'', JStr (t_id t))]) db3
              in Inr ((), outbox_create e tid ''task.created'' (task_payload tid (t_id t) (Some QUOTE_SOURCE)) db4)))))"

definition quote_approve :: "link_keys \<Rightarrow> env \<Rightarrow> string \<Rightarrow> public_quote svc" where
  "quote_approve k e token =
     and_then (on_link k e token QUOTE_LINK (approve_tx e)) (quote_public_view k e token)"

definition decline_tx :: "env \<Rightarrow> string \<Rightarrow> public_link \<Rightarrow> unit tx" where
  "decline_tx e tid l db =
     (case not_null (pk_quoteId l) of
        Inl err \<Rightarrow> Inl err
      | Inr qid \<Rightarrow>
          if \<not> list_ex (answerable e tid qid) (quotes db)
          then Inl (Conflict ''This quote can no longer be declined'')
          else Inr ((), quote_audit tid None ''quote.declined'' qid (JObj [(''via'', JStr ''public_link'')])
            (set_quote (answerable e tid qid) (\<lambda>q. q\<lparr>q_status := Q_DECLINED, q_declinedAt := Some (now e)\<rparr>) db)))"

definition quote_decline :: "link_keys \<Rightarrow> env \<Rightarrow> string \<Rightarrow> public_quote svc" where
  "quote_decline k e token =
     and_then (on_link k e token QUOTE_LINK (decline_tx e)) (quote_public_view k e token)"

section \<open>What the operations do to the rows\<close>

definition answered :: "quote \<Rightarrow> bool" where
  "answered q \<longleftrightarrow> q_status q = Q_APPROVED \<or> q_status q = Q_DECLINED"

lemma set_quote_tables [simp]:
  "tasks (set_quote P f db) = tasks db"
  "quote_lines (set_quote P f db) = quote_lines db"
  "public_links (set_quote P f db) = public_links db"
  "tenants (set_quote P f db) = tenants db"
  "customers (set_quote P f db) = customers db"
  "outbox_events (set_quote P f db) = outbox_events db"
  "id_ctr (set_quote P f db) = id_ctr db"
  "quotes (set_quote P f db) = map (\<lambda>q. if P q then f q else q) (quotes db)"
  by (simp_all add: set_quote_def update_rows_def)

lemma quote_audit_tables [simp]:
  "quotes (quote_audit tid u a i m db) = quotes db"
  "quote_lines (quote_audit tid u a i m db) = quote_lines db"
  "tasks (quote_audit tid u a i m db) = tasks db"
  "public_links (quote_audit tid u a i m db) = public_links db"
  "tenants (quote_audit tid u a i m db) = tenants db"
  "outbox_events (quote_audit tid u a i m db) = outbox_events db"
  by (simp_all add: quote_audit_def)

lemma quote_lines_of_cong: "quote_lines db' = quote_lines db \<Longrightarrow> quote_lines_of qid db' = quote_lines_of qid db"
  by (simp add: quote_lines_of_def)

lemma task_create_quotes:
  assumes "task_create e t db = Inr (row, db')"
  shows "quotes db' = quotes db" "quote_lines db' = quote_lines db" "public_links db' = public_links db"
    "tenants db' = tenants db" "tasks db' = tasks db @ [row]" "outbox_events db' = outbox_events db"
    "row = t\<lparr>t_id := next_id e db, t_createdAt := now e\<rparr>"
  using task_create_row [OF assms] by (simp_all add: bump_id_def)

text \<open>The row a customer answers, and what approving makes of it.\<close>

definition approved_row :: "env \<Rightarrow> string \<Rightarrow> quote \<Rightarrow> quote" where
  "approved_row e taskId q = q\<lparr>q_status := Q_APPROVED, q_approvedAt := Some (now e), q_taskId := Some taskId\<rparr>"

definition declined_row :: "env \<Rightarrow> quote \<Rightarrow> quote" where
  "declined_row e q = q\<lparr>q_status := Q_DECLINED, q_declinedAt := Some (now e)\<rparr>"

lemma answerable_only:
  assumes "distinct (map q_id (quotes db))" and "q \<in> set (quotes db)" and "answerable e tid qid q"
    and "r \<in> set (quotes db)"
  shows "answerable e tid qid r \<longleftrightarrow> q_id r = qid" and "q_id r = qid \<longleftrightarrow> r = q"
proof -
  have q: "q_id q = qid" using assms(3) by (simp add: answerable_def)
  show "q_id r = qid \<longleftrightarrow> r = q" using distinct_map_eq [OF assms(1,4,2)] q by metis
  then show "answerable e tid qid r \<longleftrightarrow> q_id r = qid"
    using assms(3) by (metis answerable_def)
qed

lemma approve_tx_cases:
  assumes "approve_tx e tid l db = Inr (u, db')" and "distinct (map q_id (quotes db))"
  obtains (again) qid q where "pk_quoteId l = Some qid" "db' = db" "find_quote tid qid db = Some q"
      "q_status q = Q_APPROVED"
  | (approved) qid q t where "pk_quoteId l = Some qid" "q \<in> set (quotes db)" "answerable e tid qid q"
      "t = (quote_task tid q (quote_lines_of qid db))\<lparr>t_id := next_id e db, t_createdAt := now e\<rparr>"
      "tasks db' = tasks db @ [t]"
      "quotes db' = map (\<lambda>r. if q_id r = qid then approved_row e (t_id t) r else r) (quotes db)"
      "quote_lines db' = quote_lines db" "public_links db' = public_links db" "tenants db' = tenants db"
      "\<exists>ev. outbox_events db' = outbox_events db @ [ev] \<and> ob_eventName ev = ''task.created'' \<and> ob_tenantId ev = tid
         \<and> ob_payload ev = task_payload tid (t_id t) (Some QUOTE_SOURCE)"
proof (cases "pk_quoteId l")
  case None
  with assms show thesis by (simp add: approve_tx_def not_null_def)
next
  case (Some qid)
  show thesis
  proof (cases "list_ex (answerable e tid qid) (quotes db)")
    case False
    with assms Some show thesis
      by (auto simp: approve_tx_def not_null_def split: option.splits if_splits intro: again)
  next
    case True
    then obtain q where q: "q \<in> set (quotes db)" "answerable e tid qid q" by (auto simp: list_ex_iff)
    let ?f = "\<lambda>q. q\<lparr>q_status := Q_APPROVED, q_approvedAt := Some (now e)\<rparr>"
    let ?db1 = "set_quote (answerable e tid qid) ?f db"
    have rows: "quotes ?db1 = map (\<lambda>r. if q_id r = qid then ?f r else r) (quotes db)"
      using answerable_only(1) [OF assms(2) q] by simp
    have id: "q_id q = qid" "q_tenantId q = tid" using q(2) by (simp_all add: answerable_def)
    have "find_quote tid qid ?db1 = Some (?f q)"
      unfolding find_quote_def rows
    proof (rule find_unique)
      show "?f q \<in> set (map (\<lambda>r. if q_id r = qid then ?f r else r) (quotes db))"
        using q(1) id by (auto intro!: image_eqI [of _ _ q])
      show "q_id (?f q) = qid \<and> q_tenantId (?f q) = tid" using id by simp
      show "y = ?f q" if "y \<in> set (map (\<lambda>r. if q_id r = qid then ?f r else r) (quotes db))"
        "q_id y = qid \<and> q_tenantId y = tid" for y
        using that answerable_only(2) [OF assms(2) q] by (auto split: if_splits)
    qed
    with assms(1) Some True obtain t db2 where
      t: "task_create e (quote_task tid (?f q) (quote_lines_of qid ?db1)) ?db1 = Inr (t, db2)"
      and db': "db' = outbox_create e tid ''task.created'' (task_payload tid (t_id t) (Some QUOTE_SOURCE))
        (quote_audit tid None ''quote.approved'' (q_id q)
          (JObj [(''via'', JStr ''public_link''), (''taskId'', JStr (t_id t))])
          (set_quote (\<lambda>r. q_id r = q_id q \<and> q_tenantId r = tid) (\<lambda>r. r\<lparr>q_taskId := Some (t_id t)\<rparr>) db2))"
      by (auto simp: approve_tx_def not_null_def Let_def split: sum.splits)
    note tc = task_create_quotes [OF t]
    have qt: "quote_task tid (?f q) (quote_lines_of qid ?db1) = quote_task tid q (quote_lines_of qid db)"
      by (simp add: quote_task_def quote_lines_of_def)
    show thesis
    proof (rule approved [of qid q t])
      show "t = (quote_task tid q (quote_lines_of qid db))\<lparr>t_id := next_id e db, t_createdAt := now e\<rparr>"
        using tc(7) by (simp only: qt) (simp add: next_id_def)
      show "quotes db' = map (\<lambda>r. if q_id r = qid then approved_row e (t_id t) r else r) (quotes db)"
        unfolding db' using answerable_only [OF assms(2) q] tc(1) id by (auto simp: approved_row_def)
      show "\<exists>ev. outbox_events db' = outbox_events db @ [ev] \<and> ob_eventName ev = ''task.created'' \<and> ob_tenantId ev = tid
         \<and> ob_payload ev = task_payload tid (t_id t) (Some QUOTE_SOURCE)"
        unfolding db' using tc(6) by (simp add: new_outbox_row_def)
    qed (use Some q tc db' in simp_all)
  qed
qed

lemma decline_tx_rows:
  assumes "decline_tx e tid l db = Inr (u, db')" and "distinct (map q_id (quotes db))"
  obtains qid q where "pk_quoteId l = Some qid" "q \<in> set (quotes db)" "answerable e tid qid q"
    "quotes db' = map (\<lambda>r. if q_id r = qid then declined_row e r else r) (quotes db)"
    "quote_lines db' = quote_lines db"
proof -
  from assms(1) obtain qid where l: "pk_quoteId l = Some qid" "list_ex (answerable e tid qid) (quotes db)"
    and db': "db' = quote_audit tid None ''quote.declined'' qid (JObj [(''via'', JStr ''public_link'')])
            (set_quote (answerable e tid qid) (\<lambda>q. q\<lparr>q_status := Q_DECLINED, q_declinedAt := Some (now e)\<rparr>) db)"
    by (auto simp: decline_tx_def not_null_def split: option.splits if_splits)
  then obtain q where q: "q \<in> set (quotes db)" "answerable e tid qid q" by (auto simp: list_ex_iff)
  have "quotes db' = map (\<lambda>r. if q_id r = qid then declined_row e r else r) (quotes db)"
    unfolding db' using answerable_only(1) [OF assms(2) q] by (simp add: declined_row_def)
  with l(1) q show thesis by (rule that) (simp add: db')
qed

lemma send_tx_rows:
  assumes "quote_send_tx k e tid qid u db = Inr (r, db')"
  shows "quotes db' = map (\<lambda>r. if q_id r = qid \<and> q_tenantId r = tid \<and> q_status (the (find_quote tid qid db)) = Q_DRAFT
           then r\<lparr>q_status := Q_SENT\<rparr> else r) (quotes db)"
    and "quote_lines db' = quote_lines db" and "find_quote tid qid db \<noteq> None"
  using assms
  by (auto simp: quote_send_tx_def Let_def link_create_tables map_idI
      split: option.splits if_splits sum.splits prod.splits)

lemma create_tx_rows:
  assumes "quote_create_tx e tid d u db = Inr (v, db')"
  obtains items amount where "quotes db' = quotes db @ [new_quote e tid d amount db]"
    "quote_lines db' = quote_lines db @ map (quote_line_of tid (next_id e db) items) (enumerate 0 (cq_priceCodes d))"
    "amount = sum_list (map ql_amount (map (quote_line_of tid (next_id e db) items) (enumerate 0 (cq_priceCodes d))))"
    "list_all (\<lambda>c. items c \<noteq> None) (cq_priceCodes d)" "items = by_code tid (cq_priceCodes d) db"
    "amount \<le> max_amount" "v = quote_include db' (new_quote e tid d amount db)"
proof -
  have fold: "foldl (\<lambda>s l. s + ql_amount l) a ls = a + sum_list (map ql_amount ls)" for a ls
    by (induction ls arbitrary: a) simp_all
  show thesis
    using assms
    by (intro that [OF _ _ refl _ refl])
      (auto simp: quote_create_tx_def Let_def fold bump_id_def filter_empty_conv list_all_iff
        quote_include_def quote_lines_of_def quote_audit_def audit_create_def split: if_splits)
qed

section \<open>The life of a quote\<close>

text \<open>The states of a quote, as its row moves through them.\<close>

inductive quote_step :: "quote \<Rightarrow> quote \<Rightarrow> bool" where
  sent: "q_status q = Q_DRAFT \<Longrightarrow> quote_step q (q\<lparr>q_status := Q_SENT\<rparr>)"
| approved: "q_status q = Q_SENT \<Longrightarrow> quote_step q (approved_row e taskId q)"
| declined: "q_status q = Q_SENT \<Longrightarrow> quote_step q (declined_row e q)"

inductive_cases quote_stepE: "quote_step q q'"

text \<open>Everything that happens in the system: the operations of this service, and any other
  operation, which leaves the quotes alone.\<close>

definition fresh_quote :: "env \<Rightarrow> db \<Rightarrow> bool" where
  "fresh_quote e db \<longleftrightarrow> (\<forall>q \<in> set (quotes db). q_id q \<noteq> next_id e db)
     \<and> (\<forall>l \<in> set (quote_lines db). ql_quoteId l \<noteq> next_id e db)"

inductive quote_op :: "link_keys \<Rightarrow> db \<Rightarrow> db \<Rightarrow> bool" for k where
  create: "quote_create e tid d u db = (r, db') \<Longrightarrow> fresh_quote e db \<Longrightarrow> quote_op k db db'"
| send: "quote_send k e tid qid u db = (r, db') \<Longrightarrow> quote_op k db db'"
| approve: "quote_approve k e token db = (v, db') \<Longrightarrow> quote_op k db db'"
| decline: "quote_decline k e token db = (v, db') \<Longrightarrow> quote_op k db db'"
| other: "quotes db' = quotes db \<Longrightarrow> quote_lines db' = quote_lines db \<Longrightarrow> quote_op k db db'"

text \<open>The shape of every operation: rows step, and at most one draft is added.\<close>

definition evolves :: "db \<Rightarrow> db \<Rightarrow> bool" where
  "evolves db db' \<longleftrightarrow> (\<exists>f new ls. quotes db' = map f (quotes db) @ new
     \<and> quote_lines db' = quote_lines db @ ls
     \<and> (\<forall>q \<in> set (quotes db). f q = q \<or> quote_step q (f q))
     \<and> distinct (map q_id new)
     \<and> (\<forall>q \<in> set new. q_status q = Q_DRAFT \<and> q_taskId q = None \<and> (\<forall>p \<in> set (quotes db). q_id p \<noteq> q_id q)
          \<and> q_totalAmount q = sum_list (map ql_amount (quote_lines_of (q_id q) db')))
     \<and> (\<forall>l \<in> set ls. \<exists>q \<in> set new. ql_quoteId l = q_id q))"

lemma evolves_rows:
  assumes "quotes db' = map f (quotes db)" and "quote_lines db' = quote_lines db"
    and "\<And>q. q \<in> set (quotes db) \<Longrightarrow> f q = q \<or> quote_step q (f q)"
  shows "evolves db db'"
  unfolding evolves_def using assms by (intro exI [of _ f] exI [of _ "[]"]) simp

lemma evolves_refl: "quotes db' = quotes db \<Longrightarrow> quote_lines db' = quote_lines db \<Longrightarrow> evolves db db'"
  by (rule evolves_rows [of _ id]) simp_all

lemma evolves_create:
  assumes "quote_create_tx e tid d u db = Inr (v, db')" and "fresh_quote e db"
  shows "evolves db db'"
  using assms(1)
proof (rule create_tx_rows)
  fix items amount
  let ?ls = "map (quote_line_of tid (next_id e db) items) (enumerate 0 (cq_priceCodes d))"
  let ?q = "new_quote e tid d amount db"
  assume rows: "quotes db' = quotes db @ [?q]" "quote_lines db' = quote_lines db @ ?ls"
    and sum: "amount = sum_list (map ql_amount ?ls)"
  have id: "q_id ?q = next_id e db" "q_status ?q = Q_DRAFT" "q_taskId ?q = None" "q_totalAmount ?q = amount"
    by (simp_all add: new_quote_def)
  have "filter (\<lambda>l. ql_quoteId l = next_id e db) (quote_lines db) = []"
    using assms(2) by (auto simp: fresh_quote_def filter_empty_conv)
  moreover have "filter (\<lambda>l. ql_quoteId l = next_id e db) ?ls = ?ls"
    by (rule filter_True) (auto simp: quote_line_of_def Let_def)
  ultimately have "mset (quote_lines_of (next_id e db) db') = mset ?ls"
    by (simp add: quote_lines_of_def rows)
  then have "sum_list (map ql_amount (quote_lines_of (next_id e db) db')) = amount"
    using sum by (metis mset_map sum_mset_sum_list)
  then show ?thesis
    unfolding evolves_def using rows id assms(2)
    by (intro exI [of _ id] exI [of _ "[?q]"] exI [of _ ?ls])
      (auto simp: fresh_quote_def quote_line_of_def Let_def)
qed

lemma quote_view_tx_state: "quote_view_tx e tid l db = Inr (v, db') \<Longrightarrow> db' = db"
  by (auto simp: quote_view_tx_def split: sum.splits option.splits)

lemma view_state: "quote_public_view k e token db = (r, db') \<Longrightarrow> db' = db"
  unfolding quote_public_view_def
  by (cases r) (auto simp: on_link_Inr dest: on_link_Inl quote_view_tx_state)

interpretation quote_page: link_page QUOTE_LINK quote_public_view
  by unfold_locales (rule view_state)

lemma answerable_step:
  assumes "distinct (map q_id (quotes db))" and "q \<in> set (quotes db)" and "answerable e tid qid q"
    and "\<And>r. q_status r = Q_SENT \<Longrightarrow> quote_step r (g r)" and "r \<in> set (quotes db)"
  shows "(if q_id r = qid then g r else r) = r \<or> quote_step r (if q_id r = qid then g r else r)"
  using answerable_only(1) [OF assms(1-3,5)] assms(4) by (auto simp: answerable_def)

lemma quote_op_evolves:
  assumes "quote_op k db db'" and "distinct (map q_id (quotes db))"
  shows "evolves db db'"
  using assms(1)
proof cases
  case (create e tid d u r)
  then show ?thesis
    using evolves_create evolves_refl
    by (cases r) (auto simp: quote_create_def for_tenant_Inr for_tenant_Inl)
next
  case (send e tid qid u r)
  show ?thesis
  proof (cases r)
    case (Inl err)
    with send show ?thesis by (auto simp: quote_send_def for_tenant_Inl intro: evolves_refl)
  next
    case (Inr v)
    with send have s: "quote_send_tx k e tid qid u db = Inr (v, db')" by (simp add: quote_send_def for_tenant_Inr)
    from send_tx_rows(3) [OF s] obtain q where q: "find_quote tid qid db = Some q" by blast
    from find_SomeD [OF q [unfolded find_quote_def]] have m: "q \<in> set (quotes db)" "q_id q = qid" by auto
    show ?thesis
    proof (rule evolves_rows [OF send_tx_rows(1) [OF s] send_tx_rows(2) [OF s]])
      fix r assume "r \<in> set (quotes db)"
      then have "q_id r = qid \<longrightarrow> r = q" using distinct_map_eq [OF assms(2) _ m(1)] m(2) by metis
      then show "(if q_id r = qid \<and> q_tenantId r = tid \<and> q_status (the (find_quote tid qid db)) = Q_DRAFT then r\<lparr>q_status := Q_SENT\<rparr> else r) = r
         \<or> quote_step r (if q_id r = qid \<and> q_tenantId r = tid \<and> q_status (the (find_quote tid qid db)) = Q_DRAFT then r\<lparr>q_status := Q_SENT\<rparr> else r)"
        using q quote_step.sent by auto
    qed
  qed
next
  case (approve e token v)
  from quote_page.answer_outcome [OF approve [unfolded quote_approve_def]] consider "db' = db"
    | tid l u where "approve_tx e tid l db = Inr (u, db')" by blast
  then show ?thesis
  proof cases
    case 1
    then show ?thesis by (simp add: evolves_refl)
  next
    case a: 2
    show ?thesis
      using a assms(2)
    proof (cases rule: approve_tx_cases)
      case again
      then show ?thesis by (simp add: evolves_refl)
    next
      case (approved qid q t)
      show ?thesis
        by (rule evolves_rows [OF approved(6,7)])
          (rule answerable_step [OF assms(2) approved(2,3) quote_step.approved])
    qed
  qed
next
  case (decline e token v)
  from quote_page.answer_outcome [OF decline [unfolded quote_decline_def]] consider "db' = db"
    | tid l u where "decline_tx e tid l db = Inr (u, db')" by blast
  then show ?thesis
  proof cases
    case 1
    then show ?thesis by (simp add: evolves_refl)
  next
    case 2
    then show ?thesis
      using assms(2)
    proof (rule decline_tx_rows)
      fix qid q assume d: "q \<in> set (quotes db)" "answerable e tid qid q"
        "quotes db' = map (\<lambda>r. if q_id r = qid then declined_row e r else r) (quotes db)"
        "quote_lines db' = quote_lines db"
      show ?thesis
        by (rule evolves_rows [OF d(3,4)])
          (rule answerable_step [OF assms(2) d(1,2) quote_step.declined])
    qed
  qed
next
  case other
  then show ?thesis by (rule evolves_refl)
qed

text \<open>What no step changes, and what an answered row can still do: nothing.\<close>

lemma quote_step_frame:
  "quote_step q q' \<Longrightarrow> q_id q' = q_id q \<and> q_tenantId q' = q_tenantId q \<and> q_totalAmount q' = q_totalAmount q
     \<and> q_quoteNumber q' = q_quoteNumber q \<and> q_customerId q' = q_customerId q
     \<and> q_validUntil q' = q_validUntil q \<and> \<not> answered q"
  by (erule quote_stepE) (simp_all add: approved_row_def declined_row_def answered_def)

definition same_offer :: "quote \<Rightarrow> quote \<Rightarrow> bool" where
  "same_offer q q' \<longleftrightarrow> q_id q' = q_id q \<and> q_tenantId q' = q_tenantId q \<and> q_totalAmount q' = q_totalAmount q
     \<and> q_quoteNumber q' = q_quoteNumber q \<and> q_customerId q' = q_customerId q \<and> q_validUntil q' = q_validUntil q
     \<and> (answered q \<longrightarrow> q' = q)"

lemma evolvesE:
  assumes "evolves db db'"
  obtains f new ls where "quotes db' = map f (quotes db) @ new" "quote_lines db' = quote_lines db @ ls"
    "\<And>q. q \<in> set (quotes db) \<Longrightarrow> f q = q \<or> quote_step q (f q)" "distinct (map q_id new)"
    "\<And>q. q \<in> set new \<Longrightarrow> q_status q = Q_DRAFT \<and> q_taskId q = None
       \<and> q_totalAmount q = sum_list (map ql_amount (quote_lines_of (q_id q) db'))"
    "\<And>p q. q \<in> set new \<Longrightarrow> p \<in> set (quotes db) \<Longrightarrow> q_id p \<noteq> q_id q"
    "\<And>l. l \<in> set ls \<Longrightarrow> \<exists>q \<in> set new. ql_quoteId l = q_id q"
proof -
  note e = assms [unfolded evolves_def]
  from e obtain f new ls where f: "quotes db' = map f (quotes db) @ new" "quote_lines db' = quote_lines db @ ls"
    and steps: "\<forall>q \<in> set (quotes db). f q = q \<or> quote_step q (f q)" and d: "distinct (map q_id new)"
    and n: "\<forall>q \<in> set new. q_status q = Q_DRAFT \<and> q_taskId q = None \<and> (\<forall>p \<in> set (quotes db). q_id p \<noteq> q_id q)
          \<and> q_totalAmount q = sum_list (map ql_amount (quote_lines_of (q_id q) db'))"
    and l: "\<forall>l \<in> set ls. \<exists>q \<in> set new. ql_quoteId l = q_id q" by (elim exE conjE)
  show thesis by (rule that [OF f _ d]) (use steps n l in blast)+
qed

lemma evolves_frame:
  assumes "evolves db db'" and "q \<in> set (quotes db)"
  shows "\<exists>q' \<in> set (quotes db'). same_offer q q' \<and> (q' = q \<or> quote_step q q')"
  using assms(1)
proof (cases rule: evolvesE)
  case (1 f new ls)
  note f = 1(1) and ls = 1(2) and st = 1(3) and new = 1(4,5) and fresh = 1(6) and lines = 1(7)
  show ?thesis
  proof (rule bexI [of _ "f q"])
    show "same_offer q (f q) \<and> (f q = q \<or> quote_step q (f q))"
      using st [OF assms(2)] quote_step_frame [of q "f q"] by (auto simp: same_offer_def)
  qed (use f assms(2) in simp)
qed

lemma evolves_lines:
  assumes "evolves db db'" and "q \<in> set (quotes db)"
  shows "quote_lines_of (q_id q) db' = quote_lines_of (q_id q) db"
  using assms(1)
proof (cases rule: evolvesE)
  case (1 f new ls)
  note f = 1(1) and ls = 1(2) and st = 1(3) and new = 1(4,5) and fresh = 1(6) and lines = 1(7)
  have "\<forall>l \<in> set ls. ql_quoteId l \<noteq> q_id q" using lines fresh assms(2) by metis
  then have "filter (\<lambda>l. ql_quoteId l = q_id q) ls = []" by (simp add: filter_empty_conv)
  with ls show ?thesis by (simp add: quote_lines_of_def)
qed

lemma evolves_ids:
  assumes "evolves db db'" and "distinct (map q_id (quotes db))"
  shows "distinct (map q_id (quotes db'))"
  using assms(1)
proof (cases rule: evolvesE)
  case (1 f new ls)
  note f = 1(1) and ls = 1(2) and st = 1(3) and new = 1(4,5) and fresh = 1(6) and lines = 1(7)
  have "q_id (f q) = q_id q" if "q \<in> set (quotes db)" for q
    using st [OF that] quote_step_frame [of q "f q"] by auto
  then have "map q_id (map f (quotes db)) = map q_id (quotes db)" by simp
  then have "map q_id (quotes db') = map q_id (quotes db) @ map q_id new" by (simp only: f map_append)
  moreover have "set (map q_id (quotes db)) \<inter> set (map q_id new) = {}" using fresh by fastforce
  ultimately show ?thesis using new(1) assms(2) by (simp only: distinct_append)
qed

text \<open>The consistency of the quotes table.\<close>

definition quote_ok :: "db \<Rightarrow> quote \<Rightarrow> bool" where
  "quote_ok db q \<longleftrightarrow> q_totalAmount q = sum_list (map ql_amount (quote_lines_of (q_id q) db))
     \<and> (q_status q = Q_APPROVED \<longleftrightarrow> q_taskId q \<noteq> None)"

definition quotes_ok :: "db \<Rightarrow> bool" where
  "quotes_ok db \<longleftrightarrow> distinct (map q_id (quotes db)) \<and> list_all (quote_ok db) (quotes db)"

lemma quote_step_ok:
  assumes "quote_step q q'" and "q_status q = Q_APPROVED \<longleftrightarrow> q_taskId q \<noteq> None"
  shows "q_status q' = Q_APPROVED \<longleftrightarrow> q_taskId q' \<noteq> None"
  using assms by cases (auto simp: approved_row_def declined_row_def)

lemma evolves_ok:
  assumes "evolves db db'" and "quotes_ok db"
  shows "quotes_ok db'"
  using assms(1)
proof (cases rule: evolvesE)
  case (1 f new ls)
  have d: "distinct (map q_id (quotes db'))" using evolves_ids [OF assms(1)] assms(2) by (simp add: quotes_ok_def)
  note f = 1(1) and ls = 1(2) and st = 1(3) and new = 1(4,5)
  have "quote_ok db' (f q)" if q: "q \<in> set (quotes db)" for q
  proof -
    have ok: "quote_ok db q" using assms(2) q by (simp add: quotes_ok_def list_all_iff)
    from st [OF q] consider "f q = q" | "quote_step q (f q)" by blast
    then show ?thesis
    proof cases
      case 1
      with ok evolves_lines [OF assms(1) q] show ?thesis by (simp add: quote_ok_def)
    next
      case 2
      from quote_step_frame [OF 2] quote_step_ok [OF 2] ok evolves_lines [OF assms(1) q]
      show ?thesis by (simp add: quote_ok_def)
    qed
  qed
  moreover have "quote_ok db' q" if "q \<in> set new" for q using new(2) [OF that] by (simp add: quote_ok_def)
  ultimately show ?thesis using d f by (auto simp: quotes_ok_def list_all_iff)
qed

lemma quote_op_ok: "quote_op k db db' \<Longrightarrow> quotes_ok db \<Longrightarrow> quotes_ok db'"
  using evolves_ok [OF quote_op_evolves] by (simp add: quotes_ok_def)

lemma quote_ops_ok: "(quote_op k)\<^sup>*\<^sup>* db db' \<Longrightarrow> quotes_ok db \<Longrightarrow> quotes_ok db'"
  by (induction rule: rtranclp_induct) (auto intro: quote_op_ok)

lemma quote_ops_keep:
  assumes "(quote_op k)\<^sup>*\<^sup>* db db'" and "quotes_ok db" and "q \<in> set (quotes db)"
  shows "\<exists>q' \<in> set (quotes db'). same_offer q q' \<and> quote_lines_of (q_id q) db' = quote_lines_of (q_id q) db"
  using assms(1)
proof (induction rule: rtranclp_induct)
  case base
  show ?case using assms(3) by (auto simp: same_offer_def)
next
  case (step db1 db2)
  then obtain q1 where q1: "q1 \<in> set (quotes db1)" "same_offer q q1"
    "quote_lines_of (q_id q) db1 = quote_lines_of (q_id q) db" by blast
  have "quotes_ok db1" by (rule quote_ops_ok [OF step.hyps(1) assms(2)])
  then have ev: "evolves db1 db2" using quote_op_evolves [OF step.hyps(2)] by (simp add: quotes_ok_def)
  from evolves_frame [OF ev q1(1)] obtain q2 where q2: "q2 \<in> set (quotes db2)" "same_offer q1 q2" by blast
  have "same_offer q q2" using q1(2) q2(2) by (auto simp: same_offer_def)
  moreover have "quote_lines_of (q_id q) db2 = quote_lines_of (q_id q) db"
    using evolves_lines [OF ev q1(1)] q1(2,3) by (simp add: same_offer_def)
  ultimately show ?case using q2(1) by blast
qed

text \<open>Over any sequence of operations a quote keeps its number, its total and its lines, and
  an answered quote never changes again.\<close>
theorem offer_never_changes:
  assumes "(quote_op k)\<^sup>*\<^sup>* db db'" and "quotes_ok db" and "q \<in> set (quotes db)"
  shows "\<exists>q' \<in> set (quotes db'). q_id q' = q_id q \<and> q_totalAmount q' = q_totalAmount q
    \<and> quote_lines_of (q_id q) db' = quote_lines_of (q_id q) db
    \<and> q_quoteNumber q' = q_quoteNumber q \<and> (answered q \<longrightarrow> q' = q)"
  using quote_ops_keep [OF assms] by (auto simp: same_offer_def)

text \<open>In every state reachable from the empty database, quote ids are distinct, each total is
  the sum of its lines, and a quote is approved exactly when it names its task.\<close>
theorem quotes_consistent:
  assumes "(quote_op k)\<^sup>*\<^sup>* empty_db db"
  shows "distinct (map q_id (quotes db)) \<and> list_all (\<lambda>q.
    q_totalAmount q = sum_list (map ql_amount (quote_lines_of (q_id q) db))
    \<and> (q_status q = Q_APPROVED) = (q_taskId q \<noteq> None)) (quotes db)"
proof -
  have "quotes_ok empty_db" by (simp add: quotes_ok_def empty_db_def)
  from quote_ops_ok [OF assms this] show ?thesis by (auto simp: quotes_ok_def quote_ok_def list_all_iff)
qed

section \<open>Numbers\<close>

lemma quote_numbers_step:
  assumes "quote_op k db db' \<and> distinct (map q_id (quotes db))"
  shows "quote_numbers owner db' = quote_numbers owner db
    \<or> quote_numbers owner db' = quote_numbers owner db @ [next_number (quote_numbers owner db)]"
proof -
  have same: "quote_numbers owner db' = quote_numbers owner db"
    if "quotes db' = map f (quotes db)" "\<And>q. q_tenantId (f q) = q_tenantId q \<and> q_quoteNumber (f q) = q_quoteNumber q"
    for f db'
    using that by (induction "quotes db" arbitrary: db db') (auto simp: quote_numbers_def filter_map comp_def)
  from assms have "quote_op k db db'" by blast
  then show ?thesis
  proof cases
    case (create e tid d u r)
    show ?thesis
    proof (cases r)
      case (Inl err)
      with create show ?thesis by (simp add: quote_create_def for_tenant_Inl)
    next
      case (Inr v)
      with create have "quote_create_tx e tid d u db = Inr (v, db')" by (simp add: quote_create_def for_tenant_Inr)
      then show ?thesis
        by (rule create_tx_rows) (auto simp: quote_numbers_def new_quote_def)
    qed
  next
    case (send e tid qid u r)
    show ?thesis
    proof (cases r)
      case (Inl err)
      with send show ?thesis by (simp add: quote_send_def for_tenant_Inl)
    next
      case (Inr v)
      with send have s: "quote_send_tx k e tid qid u db = Inr (v, db')" by (simp add: quote_send_def for_tenant_Inr)
      show ?thesis by (rule disjI1, rule same [OF send_tx_rows(1) [OF s]]) simp
    qed
  next
    case (approve e token v)
    from quote_page.answer_outcome [OF approve [unfolded quote_approve_def]] consider "db' = db"
      | tid l u where "approve_tx e tid l db = Inr (u, db')" by blast
    then show ?thesis
    proof cases
      case a: 2
      show ?thesis using a conjunct2 [OF assms]
      proof (cases rule: approve_tx_cases)
        case (approved qid q t)
        show ?thesis by (rule disjI1, rule same [OF approved(6)]) (simp add: approved_row_def)
      qed simp
    qed simp
  next
    case (decline e token v)
    from quote_page.answer_outcome [OF decline [unfolded quote_decline_def]] consider "db' = db"
      | tid l u where "decline_tx e tid l db = Inr (u, db')" by blast
    then show ?thesis
    proof cases
      case a: 2
      show ?thesis using a conjunct2 [OF assms]
      proof (rule decline_tx_rows)
        fix qid q assume d: "quotes db' = map (\<lambda>r. if q_id r = qid then declined_row e r else r) (quotes db)"
        show ?thesis by (rule disjI1, rule same [OF d]) (simp add: declined_row_def)
      qed
    qed simp
  next
    case other
    then show ?thesis by (simp add: quote_numbers_def)
  qed
qed

interpretation quote_book: number_book quote_numbers "\<lambda>db db'. quote_op k db db' \<and> distinct (map q_id (quotes db))" for k
  by unfold_locales (rule quote_numbers_step)

text \<open>In every state reachable from the empty database every tenant's quote numbers are 1..n
  without gap or repetition.\<close>
theorem quote_numbers_gapless:
  assumes "(quote_op k)\<^sup>*\<^sup>* empty_db db"
  shows "gapless (quote_numbers owner db)"
proof -
  have "quotes_ok empty_db" by (simp add: quotes_ok_def empty_db_def)
  with assms have "(\<lambda>db db'. quote_op k db db' \<and> distinct (map q_id (quotes db)))\<^sup>*\<^sup>* empty_db db"
  proof (induction rule: rtranclp_induct)
    case (step y z)
    then have "distinct (map q_id (quotes y))" using quote_ops_ok by (auto simp: quotes_ok_def)
    with step show ?case by (metis (mono_tags, lifting) rtranclp.rtrancl_into_rtrancl)
  qed simp
  then show ?thesis by (rule quote_book.stays_gapless_run) (simp add: quote_numbers_def empty_db_def)
qed

section \<open>Approving\<close>

lemma find_quote_unique:
  assumes "distinct (map q_id (quotes db))" and "q \<in> set (quotes db)" and "q_tenantId q = tid" and "q_id q = qid"
  shows "find_quote tid qid db = Some q"
  unfolding find_quote_def
  by (rule find_unique [OF assms(2)]) (use assms distinct_map_eq [OF assms(1)] in auto)

lemma approve_approved:
  assumes "distinct (map q_id (quotes db))" and "q \<in> set (quotes db)" and "q_tenantId q = tid" and "q_id q = qid"
    and "q_status q = Q_APPROVED" and "pk_quoteId l = Some qid"
  shows "approve_tx e tid l db = Inr ((), db)"
proof -
  have "\<not> answerable e tid qid r" if "r \<in> set (quotes db)" for r
    using distinct_map_eq [OF assms(1) that assms(2)] assms(4,5) by (auto simp: answerable_def)
  then have "\<not> list_ex (answerable e tid qid) (quotes db)" by (auto simp: list_ex_iff)
  with find_quote_unique [OF assms(1-4)] assms(5,6) show ?thesis by (simp add: approve_tx_def not_null_def)
qed

text \<open>After a successful approval the quote behind the link is an approved row.\<close>

lemma approve_tx_after:
  assumes "approve_tx e tid l db = Inr (u, db')" and "distinct (map q_id (quotes db))"
  shows "\<exists>qid q. pk_quoteId l = Some qid \<and> q \<in> set (quotes db') \<and> q_id q = qid \<and> q_tenantId q = tid
    \<and> q_status q = Q_APPROVED \<and> distinct (map q_id (quotes db'))
    \<and> public_links db' = public_links db \<and> tenants db' = tenants db"
  using assms
proof (cases rule: approve_tx_cases)
  case (again qid q)
  with find_SomeD [OF again(3) [unfolded find_quote_def]] assms(2) show ?thesis by auto
next
  case (approved qid q t)
  have "distinct (map q_id (quotes db'))"
    unfolding approved(6) using assms(2) by (simp add: comp_def if_distrib approved_row_def cong: if_cong)
  moreover have "approved_row e (t_id t) q \<in> set (quotes db')"
    unfolding approved(6) using approved(2,3) by (auto simp: answerable_def intro!: image_eqI [of _ _ q])
  ultimately show ?thesis
    using approved(1,3,8,9)
    by (intro exI [of _ qid] exI [of _ "approved_row e (t_id t) q"]) (auto simp: answerable_def approved_row_def)
qed

lemma quote_approve_Inr:
  assumes "quote_approve k e token db = (Inr v, db')"
  obtains tid l where "link_resolve k e token QUOTE_LINK db = (Inr (tid, l), db)"
    "approve_tx e tid l db = Inr ((), db')" "quote_public_view k e token db' = (Inr v, db')"
  using quote_page.answer_Inr [OF assms [unfolded quote_approve_def]] by (metis (full_types) old.unit.exhaust)

lemma approved_view:
  assumes "quote_public_view k e token db' = (Inr v, db')" and "link_resolve k e token QUOTE_LINK db' = (Inr (tid, l), db')"
    and "pk_quoteId l = Some qid" and "r \<in> set (quotes db')" and "q_id r = qid" and "q_tenantId r = tid"
    and "distinct (map q_id (quotes db'))" and "q_status r = Q_APPROVED"
  shows "pq_quoteNumber v = q_quoteNumber r \<and> pq_status v = Q_APPROVED \<and> \<not> pq_canRespond v"
proof -
  have "find_quote tid qid db' = Some r" by (rule find_quote_unique) (use assms in simp_all)
  moreover from assms(1,2) have "quote_view_tx e tid l db' = Inr (v, db')"
    by (auto simp: quote_public_view_def on_link_resolved for_tenant_Inr)
  ultimately show ?thesis
    using assms(3,8) by (auto simp: quote_view_tx_def not_null_def public_quote_of_def Let_def split: option.splits)
qed

text \<open>C17. A successful approval is of the quote that the token's live link names: if it was approved
  already nothing changes, otherwise it was sent and not expired, exactly its row becomes approved
  and exactly one task is created, with the quote's lines as its open checklist and its task.created
  event; the customer is shown the approved quote.\<close>
theorem approval_creates_the_task:
  assumes "quote_approve k e token db = (Inr v, db')" and "distinct (map q_id (quotes db))"
  shows "\<exists>l q. l \<in> set (public_links db) \<and> pk_tokenHash l = lk_hash k token \<and> pk_purpose l = QUOTE_LINK \<and> live_link e l
    \<and> q \<in> set (quotes db) \<and> pk_quoteId l = Some (q_id q) \<and> pk_tenantId l = q_tenantId q
    \<and> pq_quoteNumber v = q_quoteNumber q \<and> pq_status v = Q_APPROVED \<and> \<not> pq_canRespond v
    \<and> (if q_status q = Q_APPROVED then db' = db
       else q_status q = Q_SENT \<and> now e < q_validUntil q
         \<and> (\<exists>t ev. tasks db' = tasks db @ [t] \<and> t_tenantId t = q_tenantId q \<and> t_customerId t = q_customerId q
              \<and> t_status t = NEW \<and> t_source t = QUOTE_SOURCE \<and> t_description t = q_notes q
              \<and> t_checklist t = Some (checklist_json (map (\<lambda>l. \<lparr>ci_label = ql_description l, ci_done = False,
                   ci_priceCode = Some (ql_priceCode l), ci_sku = None, ci_qty = None\<rparr>) (quote_lines_of (q_id q) db)))
              \<and> quotes db' = map (\<lambda>r. if q_id r = q_id q then r\<lparr>q_status := Q_APPROVED, q_approvedAt := Some (now e),
                   q_taskId := Some (t_id t)\<rparr> else r) (quotes db)
              \<and> outbox_events db' = outbox_events db @ [ev] \<and> ob_eventName ev = ''task.created'' \<and> ob_tenantId ev = q_tenantId q
              \<and> ob_payload ev = task_payload (q_tenantId q) (t_id t) (Some QUOTE_SOURCE)))"
proof -
  from assms(1) obtain tid l where res: "link_resolve k e token QUOTE_LINK db = (Inr (tid, l), db)"
    and app: "approve_tx e tid l db = Inr ((), db')" and view: "quote_public_view k e token db' = (Inr v, db')"
    by (rule quote_approve_Inr)
  note link = link_resolve_Inr [OF res]
  from approve_tx_after [OF app assms(2)] have keep: "public_links db' = public_links db" "tenants db' = tenants db"
    and d': "distinct (map q_id (quotes db'))" by auto
  note seen = approved_view [OF view link_resolve_again [OF res keep] _ _ _ _ d']
  from app assms(2) show ?thesis
  proof (cases rule: approve_tx_cases)
    case (again qid q)
    from find_SomeD [OF again(3) [unfolded find_quote_def]] have q: "q \<in> set (quotes db)" "q_id q = qid" "q_tenantId q = tid" by auto
    with seen [of qid q] again link show ?thesis by (intro exI [of _ l] exI [of _ q]) simp
  next
    case (approved qid q t)
    then have q: "q_id q = qid" "q_tenantId q = tid" "q_status q = Q_SENT" "now e < q_validUntil q"
      by (simp_all add: answerable_def)
    have row: "approved_row e (t_id t) q \<in> set (quotes db')"
      unfolding approved(6) using approved(2) q(1) by (auto intro!: image_eqI [of _ _ q])
    have v: "pq_quoteNumber v = q_quoteNumber q \<and> pq_status v = Q_APPROVED \<and> \<not> pq_canRespond v"
      using seen [OF approved(1) row] q by (simp add: approved_row_def)
    from approved(10) obtain ev where ev: "outbox_events db' = outbox_events db @ [ev]" "ob_eventName ev = ''task.created''"
      "ob_tenantId ev = tid" "ob_payload ev = task_payload tid (t_id t) (Some QUOTE_SOURCE)" by blast
    have t: "t_tenantId t = tid" "t_customerId t = q_customerId q" "t_status t = NEW" "t_source t = QUOTE_SOURCE"
      "t_description t = q_notes q" "t_checklist t = Some (quote_checklist (quote_lines_of qid db))"
      unfolding approved(4) by (simp_all add: quote_task_def)
    have rows: "quotes db' = map (\<lambda>r. if q_id r = q_id q then r\<lparr>q_status := Q_APPROVED, q_approvedAt := Some (now e),
        q_taskId := Some (t_id t)\<rparr> else r) (quotes db)"
      unfolding approved(6) q(1) approved_row_def ..
    have ids: "pk_quoteId l = Some (q_id q)" "pk_tenantId l = q_tenantId q" using approved(1) q link(4) by simp_all
    have n: "q_status q \<noteq> Q_APPROVED" using q(3) by simp
    have made: "\<exists>t ev. tasks db' = tasks db @ [t] \<and> t_tenantId t = q_tenantId q \<and> t_customerId t = q_customerId q
        \<and> t_status t = NEW \<and> t_source t = QUOTE_SOURCE \<and> t_description t = q_notes q
        \<and> t_checklist t = Some (checklist_json (map (\<lambda>l. \<lparr>ci_label = ql_description l, ci_done = False,
             ci_priceCode = Some (ql_priceCode l), ci_sku = None, ci_qty = None\<rparr>) (quote_lines_of (q_id q) db)))
        \<and> quotes db' = map (\<lambda>r. if q_id r = q_id q then r\<lparr>q_status := Q_APPROVED, q_approvedAt := Some (now e),
             q_taskId := Some (t_id t)\<rparr> else r) (quotes db)
        \<and> outbox_events db' = outbox_events db @ [ev] \<and> ob_eventName ev = ''task.created'' \<and> ob_tenantId ev = q_tenantId q
        \<and> ob_payload ev = task_payload (q_tenantId q) (t_id t) (Some QUOTE_SOURCE)"
      using approved(5) t ev rows by (intro exI [of _ t] exI [of _ ev] conjI) (simp_all only: q quote_checklist_def)
    show ?thesis
      by (rule exI [of _ l], rule exI [of _ q], intro conjI)
        (use link(3,5,6,7) approved(2) ids v made q(3,4) n in \<open>simp_all only: if_False simp_thms\<close>)
  qed
qed

text \<open>Approving again through the same link, at any time the link is live, answers the same
  and changes nothing: one approval never makes two tasks.\<close>
theorem approval_is_idempotent:
  assumes "quote_approve k e token db = (Inr v, db')" and "distinct (map q_id (quotes db))"
    and "distinct (map pk_tokenHash (public_links db))"
    and "link_resolve k e' token QUOTE_LINK db = (Inr (tid, l), db)"
  shows "quote_approve k e' token db' = (Inr v, db')"
proof -
  from assms(1) obtain tid0 l0 where r0: "link_resolve k e token QUOTE_LINK db = (Inr (tid0, l0), db)"
    and a: "approve_tx e tid0 l0 db = Inr ((), db')" and v: "quote_public_view k e token db' = (Inr v, db')"
    by (rule quote_approve_Inr)
  note r = link_resolve_Inr [OF r0] link_resolve_Inr [OF assms(4)]
  have "l = l0" by (rule distinct_map_eq [OF assms(3)]) (use r in simp_all)
  then have same: "l = l0" "tid = tid0" using r by simp_all
  from approve_tx_after [OF a assms(2)] obtain qid q where
    q: "pk_quoteId l0 = Some qid" "q \<in> set (quotes db')" "q_id q = qid" "q_tenantId q = tid0"
      "q_status q = Q_APPROVED" "distinct (map q_id (quotes db'))"
    and keep: "public_links db' = public_links db" "tenants db' = tenants db" by blast
  note r1 = link_resolve_again [OF r0 keep] and r2 = link_resolve_again [OF assms(4) keep]
  have f: "find_quote tid0 qid db' = Some q" by (rule find_quote_unique) (use q in simp_all)
  have pv: "public_quote_of e b ls q = public_quote_of e' b ls q" for b ls
    using q(5) by (simp add: public_quote_of_def Let_def)
  have "quote_view_tx e' tid0 l0 db' = quote_view_tx e tid0 l0 db'"
    by (simp add: quote_view_tx_def q(1) not_null_def f pv split: option.splits)
  then have "for_tenant tid0 (quote_view_tx e' tid0 l0) db' = for_tenant tid0 (quote_view_tx e tid0 l0) db'"
    by (simp add: for_tenant_def)
  then have "quote_public_view k e' token db' = (Inr v, db')"
    using v r1 r2 same by (simp add: quote_public_view_def on_link_resolved)
  moreover have "approve_tx e' tid0 l0 db' = Inr ((), db')" by (rule approve_approved) (use q in simp_all)
  ultimately show ?thesis
    using r2 same link_resolve_Inr(2) [OF r0]
    by (simp add: quote_approve_def and_then_def on_link_resolved for_tenant_def)
qed

section \<open>Isolation\<close>

lemma others_set_quote:
  assumes "\<And>q. q \<in> set (quotes db) \<Longrightarrow> P q \<Longrightarrow> q_tenantId q = tid" and "\<And>q. q_tenantId (f q) = q_tenantId q"
  shows "others tid (set_quote P f db) = others tid db"
proof -
  have "filter (\<lambda>q. q_tenantId q \<noteq> tid) (quotes (set_quote P f db)) = filter (\<lambda>q. q_tenantId q \<noteq> tid) (quotes db)"
    unfolding set_quote_tables by (rule filter_map_frame) (use assms in auto)
  then show ?thesis by (simp add: others_def set_quote_def)
qed

lemma others_quote_audit [simp]: "others tid (quote_audit tid u a i m db) = others tid db"
  by (simp add: quote_audit_def)

lemma others_quote_create:
  "quote_create_tx e tid d u db = Inr (v, db') \<Longrightarrow> others tid db' = others tid db"
  by (auto simp: quote_create_tx_def Let_def others_def bump_id_def quote_audit_def audit_create_def new_quote_def
      quote_line_of_def split: if_splits)

lemma others_decline_tx:
  "decline_tx e tid l db = Inr (u, db') \<Longrightarrow> others tid db' = others tid db"
  by (auto simp: decline_tx_def answerable_def intro!: others_set_quote split: sum.splits if_splits)

lemma others_quote_send:
  "quote_send_tx k e tid qid u db = Inr (r, db') \<Longrightarrow> others tid db' = others tid db"
  by (auto simp: quote_send_tx_def Let_def split: option.splits if_splits sum.splits
      dest!: others_link_create intro!: others_set_quote [THEN trans])

lemma others_approve_tx:
  "approve_tx e tid l db = Inr (u, db') \<Longrightarrow> others tid db' = others tid db"
  by (auto simp: approve_tx_def Let_def answerable_def quote_task_def split: option.splits if_splits sum.splits
      dest!: others_task_create intro!: others_set_quote [THEN trans])

interpretation quote_send_op: tenant_op tid "quote_send_tx k e tid qid u" for tid k e qid u
  by unfold_locales (rule others_quote_send)

interpretation quote_create_op: tenant_op tid "quote_create_tx e tid d u" for tid e d u
  by unfold_locales (rule others_quote_create)

section \<open>Instances\<close>

definition demo_quote_base :: db where
  "demo_quote_base = demo_link_db\<lparr>price_list_items := [\<lparr>pl_id = ''p1'', pl_tenantId = demo_tenant,
     pl_code = ''V1'', pl_description = ''Visit'', pl_price = 1500, pl_isActive = True\<rparr>]\<rparr>"

definition demo_quote_dto :: create_quote_dto where
  "demo_quote_dto = \<lparr>cq_customerId = ''c1'', cq_priceCodes = [''V1''], cq_notes = None, cq_validDays = None\<rparr>"

lemma demo_created:
  "\<exists>v db'. quote_create demo_env demo_tenant demo_quote_dto ''u1'' demo_quote_base = (Inr v, db')"
  by (simp add: quote_create_def for_tenant_def quote_create_tx_def Let_def by_code_def quote_line_of_def
      max_amount_def demo_quote_base_def demo_quote_dto_def demo_link_db_def demo_defs enumerate_eq_zip)

lemma demo_quote_run:
  assumes "quote_create demo_env demo_tenant demo_quote_dto ''u1'' demo_quote_base = (Inr v, db')"
  shows "(quote_op demo_keys)\<^sup>*\<^sup>* empty_db db'"
proof -
  have "quote_op demo_keys empty_db demo_quote_base"
    by (rule quote_op.other) (simp_all add: demo_quote_base_def demo_link_db_def demo_defs)
  moreover have "fresh_quote demo_env demo_quote_base"
    by (simp add: fresh_quote_def demo_quote_base_def demo_link_db_def demo_defs)
  then have "quote_op demo_keys demo_quote_base db'" by (rule quote_op.create [OF assms])
  ultimately show ?thesis by (metis converse_rtranclp_into_rtranclp r_into_rtranclp)
qed

theorem quotes_consistent_witness:
  "\<exists>v db'. quote_create demo_env demo_tenant demo_quote_dto ''u1'' demo_quote_base = (Inr v, db')
     \<and> list_all (\<lambda>q. q_totalAmount q = sum_list (map ql_amount (quote_lines_of (q_id q) db'))) (quotes db')"
proof -
  from demo_created obtain v db' where run: "quote_create demo_env demo_tenant demo_quote_dto ''u1'' demo_quote_base = (Inr v, db')" by blast
  from quotes_consistent [OF demo_quote_run [OF run]] run show ?thesis by (auto simp: list_all_iff)
qed

theorem quote_numbers_gapless_witness:
  "\<exists>v db'. quote_create demo_env demo_tenant demo_quote_dto ''u1'' demo_quote_base = (Inr v, db')
     \<and> gapless (quote_numbers demo_tenant db')"
proof -
  from demo_created obtain v db' where run: "quote_create demo_env demo_tenant demo_quote_dto ''u1'' demo_quote_base = (Inr v, db')" by blast
  from quote_numbers_gapless [OF demo_quote_run [OF run], of demo_tenant] run show ?thesis by blast
qed

definition demo_quote :: quote where
  "demo_quote = \<lparr>q_id = ''q1'', q_tenantId = demo_tenant, q_customerId = ''c1'', q_quoteNumber = 1,
     q_status = Q_SENT, q_notes = None, q_totalAmount = 1500, q_validUntil = 9000, q_approvedAt = None,
     q_declinedAt = None, q_taskId = None, q_createdAt = 1000\<rparr>"

definition demo_quote_link :: public_link where
  "demo_quote_link = \<lparr>pk_id = ''l1'', pk_tenantId = demo_tenant, pk_tokenHash = lk_hash demo_keys (lk_token demo_keys 0),
     pk_purpose = QUOTE_LINK, pk_customerId = ''c1'', pk_taskId = None, pk_equipmentId = None,
     pk_quoteId = Some ''q1'', pk_expiresAt = 9000, pk_usedAt = None, pk_revokedAt = None, pk_createdAt = 1000\<rparr>"

definition demo_sent_db :: db where
  "demo_sent_db = demo_quote_base\<lparr>quotes := [demo_quote], public_links := [demo_quote_link],
     quote_lines := [\<lparr>ql_tenantId = demo_tenant, ql_quoteId = ''q1'', ql_priceCode = ''V1'', ql_description = ''Visit'',
        ql_qty = 1, ql_unitPrice = 1500, ql_amount = 1500, ql_position = 0\<rparr>]\<rparr>"

lemma demo_resolved:
  "link_resolve demo_keys demo_env (lk_token demo_keys 0) QUOTE_LINK demo_sent_db
     = (Inr (demo_tenant, demo_quote_link), demo_sent_db)"
  by (simp add: link_resolve_def demo_token_ok resolve_public_link_def for_tenant_def live_link_def
      demo_sent_db_def demo_quote_link_def demo_quote_base_def demo_link_db_def demo_env_def)

lemma demo_approve_tx: "\<exists>db'. approve_tx demo_env demo_tenant demo_quote_link demo_sent_db = Inr ((), db')
     \<and> db' \<noteq> demo_sent_db"
proof -
  have "\<exists>db'. approve_tx demo_env demo_tenant demo_quote_link demo_sent_db = Inr ((), db')
     \<and> tasks db' \<noteq> tasks demo_sent_db"
    by (simp add: approve_tx_def not_null_def answerable_def find_quote_def task_create_def quote_task_def Let_def
      demo_quote_link_def demo_sent_db_def demo_quote_def demo_quote_base_def demo_link_db_def demo_defs)
  then show ?thesis by auto
qed

lemma demo_approved:
  "\<exists>v db'. quote_approve demo_keys demo_env (lk_token demo_keys 0) demo_sent_db = (Inr v, db') \<and> db' \<noteq> demo_sent_db"
proof -
  from demo_approve_tx obtain db' where a: "approve_tx demo_env demo_tenant demo_quote_link demo_sent_db = Inr ((), db')"
    and new: "db' \<noteq> demo_sent_db" by blast
  have d: "distinct (map q_id (quotes demo_sent_db))" by (simp add: demo_sent_db_def)
  from approve_tx_after [OF a d] obtain q where q: "pk_quoteId demo_quote_link = Some (q_id q)" "q \<in> set (quotes db')"
    "q_tenantId q = demo_tenant" "distinct (map q_id (quotes db'))"
    and keep: "public_links db' = public_links demo_sent_db" "tenants db' = tenants demo_sent_db" by auto
  have t: "List.find (\<lambda>t. tn_id t = demo_tenant) (tenants db') \<noteq> None"
    unfolding keep by (simp add: demo_sent_db_def demo_quote_base_def demo_link_db_def)
  have "\<exists>v. quote_view_tx demo_env demo_tenant demo_quote_link db' = Inr (v, db')"
    using find_quote_unique [OF q(4,2,3) refl] q(1) t by (auto simp: quote_view_tx_def not_null_def)
  then have "\<exists>v. quote_public_view demo_keys demo_env (lk_token demo_keys 0) db' = (Inr v, db')"
    using link_resolve_again [OF demo_resolved keep]
    by (auto simp: quote_public_view_def on_link_resolved for_tenant_def)
  with a new show ?thesis
    by (auto simp: quote_approve_def and_then_def on_link_resolved [OF demo_resolved] for_tenant_def)
qed

lemma demo_sent_distinct: "distinct (map q_id (quotes demo_sent_db))"
  "distinct (map pk_tokenHash (public_links demo_sent_db))"
  by (simp_all add: demo_sent_db_def)

theorem approval_creates_the_task_witness:
  "\<exists>v db' t. quote_approve demo_keys demo_env (lk_token demo_keys 0) demo_sent_db = (Inr v, db')
     \<and> pq_status v = Q_APPROVED \<and> tasks db' = tasks demo_sent_db @ [t] \<and> t_status t = NEW"
proof -
  from demo_approved obtain v db' where
    run: "quote_approve demo_keys demo_env (lk_token demo_keys 0) demo_sent_db = (Inr v, db')" and new: "db' \<noteq> demo_sent_db" by blast
  from approval_creates_the_task [OF run demo_sent_distinct(1)] obtain t where
    "pq_status v = Q_APPROVED" "tasks db' = tasks demo_sent_db @ [t]" "t_status t = NEW"
    using new by (auto split: if_splits)
  with run show ?thesis by blast
qed

theorem approval_is_idempotent_witness:
  "\<exists>v db'. quote_approve demo_keys demo_env (lk_token demo_keys 0) demo_sent_db = (Inr v, db')
     \<and> quote_approve demo_keys demo_env (lk_token demo_keys 0) db' = (Inr v, db')"
proof -
  from demo_approved obtain v db' where
    run: "quote_approve demo_keys demo_env (lk_token demo_keys 0) demo_sent_db = (Inr v, db')" by blast
  from approval_is_idempotent [OF run demo_sent_distinct demo_resolved] run show ?thesis by blast
qed

theorem offer_never_changes_witness:
  "\<exists>v db' q'. quote_approve demo_keys demo_env (lk_token demo_keys 0) demo_sent_db = (Inr v, db')
     \<and> q' \<in> set (quotes db') \<and> q_totalAmount q' = 1500"
proof -
  from demo_approved obtain v db' where
    run: "quote_approve demo_keys demo_env (lk_token demo_keys 0) demo_sent_db = (Inr v, db')" by blast
  then have ops: "(quote_op demo_keys)\<^sup>*\<^sup>* demo_sent_db db'" by (blast intro: quote_op.approve)
  have "quotes_ok demo_sent_db"
    by (simp add: quotes_ok_def quote_ok_def quote_lines_of_def demo_sent_db_def demo_quote_def)
  moreover have "demo_quote \<in> set (quotes demo_sent_db)" by (simp add: demo_sent_db_def)
  ultimately have "\<exists>q' \<in> set (quotes db'). q_totalAmount q' = q_totalAmount demo_quote"
    using offer_never_changes [OF ops] by blast
  moreover have "q_totalAmount demo_quote = 1500" by (simp add: demo_quote_def)
  ultimately show ?thesis using run by auto
qed

end
