(* ===== verification/TaskStatus.thy ===== *)
theory TaskStatus
  imports Pages Tasks
begin

text \<open>
  modules/task-status: the visit of a task as its customer sees it through a link, and what
  both sides do with it: share, schedule, on the way; view, confirm, ask for another time.
\<close>

section \<open>customer-status.ts\<close>

datatype customer_status = Received | Scheduled | On_the_way | Finished | Cancelled_status

definition derive_customer_status :: "task \<Rightarrow> customer_status" where
  "derive_customer_status t =
     (if t_status t = CLOSED then Finished
      else if t_status t = CANCELLED then Cancelled_status
      else if t_onTheWayAt t \<noteq> None then On_the_way
      else if t_scheduledStart t \<noteq> None then Scheduled
      else Received)"

definition first_name :: "string option \<Rightarrow> string option" where
  "first_name full = map_option (\<lambda>s. takeWhile (\<lambda>c. \<not> is_ws c) (trim s)) full"

definition format_visit :: "intl \<Rightarrow> int \<Rightarrow> int option \<Rightarrow> string" where
  "format_visit il start end' =
     (case end' of
        Some en \<Rightarrow> il_visit_day il start @ (utf8 [44, 32, 1489, 1497, 1503, 32]) @ il_visit_time il start @ (utf8 [32, 1500] @ ''-'') @ il_visit_time il en
      | None \<Rightarrow> il_visit_day il start @ (utf8 [32, 1489, 1513, 1506, 1492, 32]) @ il_visit_time il start)"

section \<open>The business side\<close>

definition max_visit_hours :: int where
  "max_visit_hours = 12"

definition status_audit :: "string \<Rightarrow> string option \<Rightarrow> string \<Rightarrow> string \<Rightarrow> json \<Rightarrow> db \<Rightarrow> db" where
  "status_audit tid uid action taskId meta = audit_create \<lparr>al_tenantId = tid, al_userId = uid,
     al_action = action, al_entityType = ''Task'', al_entityId = taskId, al_metadata = Some meta\<rparr>"

record actor_task =
  at_task :: task
  at_customer :: customer
  at_assignee :: "string option"
  at_tenantName :: string

definition assignee_name :: "db \<Rightarrow> task \<Rightarrow> string option" where
  "assignee_name db t = (case t_assignedToUserId t of
     None \<Rightarrow> None | Some u \<Rightarrow> map_option u_name (List.find (\<lambda>r. u_id r = u) (users db)))"

definition find_for_actor :: "string \<Rightarrow> string \<Rightarrow> actor \<Rightarrow> db \<Rightarrow> http_error + actor_task" where
  "find_for_actor tid taskId act db =
     (case List.find (\<lambda>t. t_id t = taskId \<and> t_tenantId t = tid
             \<and> (a_role act = FIELD \<longrightarrow> t_assignedToUserId t = Some (a_id act))) (tasks db) of
        None \<Rightarrow> Inl (NotFound ''Task not found'')
      | Some t \<Rightarrow>
          (case (List.find (\<lambda>c. c_id c = t_customerId t) (customers db), List.find (\<lambda>r. tn_id r = tid) (tenants db)) of
             (Some c, Some r) \<Rightarrow> Inr \<lparr>at_task = t, at_customer = c, at_assignee = assignee_name db t, at_tenantName = tn_name r\<rparr>
           | _ \<Rightarrow> Inl (Thrown ''Inconsistent query result'')))"

definition status_link :: "string \<Rightarrow> actor_task \<Rightarrow> link_input" where
  "status_link tid a = \<lparr>li_tenantId = tid, li_purpose = TASK_STATUS, li_customerId = t_customerId (at_task a),
     li_taskId = Some (t_id (at_task a)), li_equipmentId = None, li_quoteId = None\<rparr>"

definition share_message :: "intl \<Rightarrow> actor_task \<Rightarrow> string \<Rightarrow> string" where
  "share_message il a url =
     (let whn = (case t_scheduledStart (at_task a) of
                   None \<Rightarrow> []
                 | Some s \<Rightarrow> (utf8 [32, 1492, 1489, 1497, 1511, 1493, 1512, 32, 1504, 1511, 1489, 1506, 32, 1500]) @ format_visit il s (t_scheduledEnd (at_task a)) @ ''.'')
      in (utf8 [1513, 1500, 1493, 1501, 44, 32, 1499, 1488, 1503, 32]) @ at_tenantName a @ ''.'' @ whn
         @ (utf8 [32, 1488, 1508, 1513, 1512, 32, 1500, 1512, 1488, 1493, 1514, 32, 1488, 1514, 32, 1502, 1510, 1489, 32, 1492, 1506, 1489, 1493, 1491, 1492, 32, 1493, 1500, 1488, 1513, 1512, 32, 1488, 1514, 32, 1492, 1502, 1493, 1506, 1491, 32, 1499, 1488, 1503, 58, 32]) @ url)"

definition share_tx :: "intl \<Rightarrow> link_keys \<Rightarrow> env \<Rightarrow> string \<Rightarrow> string \<Rightarrow> actor \<Rightarrow> share_result tx" where
  "share_tx il k e tid taskId act db =
     (case find_for_actor tid taskId act db of
        Inl err \<Rightarrow> Inl err
      | Inr a \<Rightarrow>
          (case link_create k e (status_link tid a) db of
             Inl err \<Rightarrow> Inl err
           | Inr (link, db1) \<Rightarrow>
               let message = share_message il a (cl_url link)
               in Inr (\<lparr>sr_url = cl_url link, sr_waUrl = build_wa_link (c_phone (at_customer a)) message,
                       sr_message = message\<rparr>,
                  status_audit tid (Some (a_id act)) ''task.status_link_shared'' taskId (JObj []) db1)))"

definition share :: "intl \<Rightarrow> link_keys \<Rightarrow> env \<Rightarrow> string \<Rightarrow> string \<Rightarrow> actor \<Rightarrow> share_result svc" where
  "share il k e tid taskId act db = for_tenant tid (share_tx il k e tid taskId act) db"

definition set_task :: "(task \<Rightarrow> bool) \<Rightarrow> (task \<Rightarrow> task) \<Rightarrow> db \<Rightarrow> db" where
  "set_task P f db = db\<lparr>tasks := snd (update_rows P f (tasks db))\<rparr>"

definition scheduled_row :: "int \<Rightarrow> int option \<Rightarrow> task \<Rightarrow> task" where
  "scheduled_row start end' t = t\<lparr>t_scheduledStart := Some start, t_scheduledEnd := end',
     t_customerConfirmedAt := None, t_rescheduleRequest := None, t_rescheduleRequestedAt := None,
     t_onTheWayAt := None\<rparr>"

definition open_task :: "string \<Rightarrow> string \<Rightarrow> task \<Rightarrow> bool" where
  "open_task tid taskId t \<longleftrightarrow> t_id t = taskId \<and> t_tenantId t = tid \<and> open_status (t_status t)"

definition schedule_tx :: "string \<Rightarrow> string \<Rightarrow> int \<Rightarrow> int option \<Rightarrow> string \<Rightarrow> (string \<times> int \<times> int option) tx" where
  "schedule_tx tid taskId start end' actorId db =
     (if \<not> list_ex (open_task tid taskId) (tasks db)
      then if list_ex (\<lambda>t. t_id t = taskId \<and> t_tenantId t = tid) (tasks db)
           then Inl (Conflict ''Task is already finished'')
           else Inl (NotFound ''Task not found'')
      else Inr ((taskId, start, end'),
        status_audit tid (Some actorId) ''task.scheduled'' taskId
          (JObj [(''scheduledStart'', JStr (iso_instant start)),
                 (''scheduledEnd'', jopt (map_option iso_instant end'))])
          (set_task (open_task tid taskId) (scheduled_row start end') db)))"

text \<open>The two instants come from the validated ISO texts of the request.\<close>

definition schedule_visit ::
  "string \<Rightarrow> string \<Rightarrow> int \<Rightarrow> int option \<Rightarrow> string \<Rightarrow> (string \<times> int \<times> int option) svc" where
  "schedule_visit tid taskId start end' actorId db =
     (case end' of
        Some en \<Rightarrow>
          if en \<le> start then (Inl (BadRequest ''scheduledEnd must be after scheduledStart''), db)
          else if max_visit_hours * 3600000 < en - start
          then (Inl (BadRequest ''A visit cannot be longer than 12 hours''), db)
          else for_tenant tid (schedule_tx tid taskId start end' actorId) db
      | None \<Rightarrow> for_tenant tid (schedule_tx tid taskId start end' actorId) db)"

definition on_the_way_message :: "actor_task \<Rightarrow> string \<Rightarrow> string" where
  "on_the_way_message a url =
     (let tech = or_else (first_name (at_assignee a)) (utf8 [1492, 1496, 1499, 1504, 1488, 1497])
      in (utf8 [1513, 1500, 1493, 1501, 44, 32]) @ tech @ (utf8 [32, 1502]) @ at_tenantName a @ (utf8 [32, 1489, 1491, 1512, 1498, 32, 1488, 1500, 1497, 1498, 46, 32, 1508, 1512, 1496, 1497, 1501, 58, 32]) @ url)"

definition on_the_way_tx ::
  "link_keys \<Rightarrow> env \<Rightarrow> string \<Rightarrow> string \<Rightarrow> actor \<Rightarrow> (share_result \<times> int) tx" where
  "on_the_way_tx k e tid taskId act db =
     (case find_for_actor tid taskId act db of
        Inl err \<Rightarrow> Inl err
      | Inr a \<Rightarrow>
          if \<not> open_status (t_status (at_task a)) then Inl (Conflict ''Task is already finished'')
          else (case link_create k e (status_link tid a)
                  (set_task (\<lambda>t. t_id t = taskId \<and> t_tenantId t = tid) (\<lambda>t. t\<lparr>t_onTheWayAt := Some (now e)\<rparr>) db) of
                  Inl err \<Rightarrow> Inl err
                | Inr (link, db1) \<Rightarrow>
                    let message = on_the_way_message a (cl_url link)
                    in Inr ((\<lparr>sr_url = cl_url link, sr_waUrl = build_wa_link (c_phone (at_customer a)) message,
                             sr_message = message\<rparr>, now e),
                       status_audit tid (Some (a_id act)) ''task.on_the_way'' taskId (JObj []) db1)))"

definition on_the_way :: "link_keys \<Rightarrow> env \<Rightarrow> string \<Rightarrow> string \<Rightarrow> actor \<Rightarrow> (share_result \<times> int) svc" where
  "on_the_way k e tid taskId act db = for_tenant tid (on_the_way_tx k e tid taskId act) db"

section \<open>The customer's side\<close>

record public_task_view =
  pv_businessName :: string
  pv_title :: string
  pv_status :: customer_status
  pv_scheduledStart :: "int option"
  pv_scheduledEnd :: "int option"
  pv_technicianFirstName :: "string option"
  pv_customerConfirmedAt :: "int option"
  pv_rescheduleRequested :: bool
  pv_canConfirm :: bool
  pv_canRequestReschedule :: bool

definition task_view :: "string \<Rightarrow> string option \<Rightarrow> task \<Rightarrow> public_task_view" where
  "task_view business tech t =
     (let st = derive_customer_status t; opn = (st \<noteq> Finished \<and> st \<noteq> Cancelled_status)
      in \<lparr>pv_businessName = business, pv_title = t_title t, pv_status = st,
          pv_scheduledStart = t_scheduledStart t, pv_scheduledEnd = t_scheduledEnd t,
          pv_technicianFirstName = first_name tech, pv_customerConfirmedAt = t_customerConfirmedAt t,
          pv_rescheduleRequested = (t_rescheduleRequest t \<noteq> None),
          pv_canConfirm = (opn \<and> t_scheduledStart t \<noteq> None), pv_canRequestReschedule = opn\<rparr>)"

definition view_tx :: "string \<Rightarrow> public_link \<Rightarrow> public_task_view tx" where
  "view_tx tid l db =
     (case not_null (pk_taskId l) of
        Inl err \<Rightarrow> Inl err
      | Inr taskId \<Rightarrow>
          (case List.find (\<lambda>t. t_id t = taskId \<and> t_tenantId t = tid) (tasks db) of
             None \<Rightarrow> Inl link_not_found
           | Some t \<Rightarrow>
               (case List.find (\<lambda>r. tn_id r = tid) (tenants db) of
                  None \<Rightarrow> Inl (Thrown ''Inconsistent query result'')
                | Some r \<Rightarrow> Inr (task_view (tn_name r) (assignee_name db t) t, db))))"

definition status_view :: "link_keys \<Rightarrow> env \<Rightarrow> string \<Rightarrow> public_task_view svc" where
  "status_view k e token = on_link k e token TASK_STATUS view_tx"

definition confirmable :: "string \<Rightarrow> string \<Rightarrow> task \<Rightarrow> bool" where
  "confirmable tid taskId t \<longleftrightarrow> open_task tid taskId t \<and> t_scheduledStart t \<noteq> None"

definition confirmed_row :: "env \<Rightarrow> task \<Rightarrow> task" where
  "confirmed_row e t = t\<lparr>t_customerConfirmedAt := Some (now e), t_rescheduleRequest := None,
     t_rescheduleRequestedAt := None\<rparr>"

definition confirm_tx :: "env \<Rightarrow> string \<Rightarrow> public_link \<Rightarrow> unit tx" where
  "confirm_tx e tid l db =
     (case not_null (pk_taskId l) of
        Inl err \<Rightarrow> Inl err
      | Inr taskId \<Rightarrow>
          (if \<not> list_ex (\<lambda>t. confirmable tid taskId t \<and> t_customerConfirmedAt t = None) (tasks db)
           then if list_ex (\<lambda>t. confirmable tid taskId t \<and> t_customerConfirmedAt t \<noteq> None) (tasks db)
                then Inr ((), db)
                else Inl (Conflict ''There is no visit time to confirm'')
           else Inr ((), status_audit tid None ''task.customer_confirmed'' taskId (JObj [(''via'', JStr ''public_link'')])
                  (set_task (\<lambda>t. confirmable tid taskId t \<and> t_customerConfirmedAt t = None) (confirmed_row e) db))))"

definition confirm :: "link_keys \<Rightarrow> env \<Rightarrow> string \<Rightarrow> public_task_view svc" where
  "confirm k e token = and_then (on_link k e token TASK_STATUS (confirm_tx e)) (status_view k e token)"

definition reschedule_row :: "env \<Rightarrow> string \<Rightarrow> task \<Rightarrow> task" where
  "reschedule_row e txt t = t\<lparr>t_rescheduleRequest := Some (trim txt), t_rescheduleRequestedAt := Some (now e),
     t_customerConfirmedAt := None\<rparr>"

definition reschedule_tx :: "env \<Rightarrow> string \<Rightarrow> string \<Rightarrow> public_link \<Rightarrow> unit tx" where
  "reschedule_tx e txt tid l db =
     (case not_null (pk_taskId l) of
        Inl err \<Rightarrow> Inl err
      | Inr taskId \<Rightarrow>
          (if \<not> list_ex (open_task tid taskId) (tasks db) then Inl (Conflict ''This job is already finished'')
           else Inr ((), status_audit tid None ''task.customer_requested_reschedule'' taskId
                  (JObj [(''via'', JStr ''public_link'')])
                  (set_task (open_task tid taskId) (reschedule_row e txt) db))))"

definition request_reschedule :: "link_keys \<Rightarrow> env \<Rightarrow> string \<Rightarrow> string \<Rightarrow> public_task_view svc" where
  "request_reschedule k e token txt =
     and_then (on_link k e token TASK_STATUS (reschedule_tx e txt)) (status_view k e token)"

section \<open>Rows\<close>

lemma set_task_tables [simp]:
  "tasks (set_task P f db) = map (\<lambda>t. if P t then f t else t) (tasks db)"
  "public_links (set_task P f db) = public_links db"
  "tenants (set_task P f db) = tenants db"
  "users (set_task P f db) = users db"
  "customers (set_task P f db) = customers db"
  by (simp_all add: set_task_def update_rows_def)

lemma status_audit_tables [simp]:
  "tasks (status_audit tid u a i m db) = tasks db"
  "public_links (status_audit tid u a i m db) = public_links db"
  "tenants (status_audit tid u a i m db) = tenants db"
  "users (status_audit tid u a i m db) = users db"
  "customers (status_audit tid u a i m db) = customers db"
  by (simp_all add: status_audit_def)

lemma others_set_task:
  assumes "\<And>t. P t \<Longrightarrow> t_tenantId t = tid" and "\<And>t. t_tenantId (f t) = t_tenantId t"
  shows "others tid (set_task P f db) = others tid db"
proof -
  have "filter (\<lambda>t. t_tenantId t \<noteq> tid) (tasks (set_task P f db)) = filter (\<lambda>t. t_tenantId t \<noteq> tid) (tasks db)"
    unfolding set_task_tables by (rule filter_map_frame) (use assms in auto)
  then show ?thesis by (simp add: others_def set_task_def)
qed

lemma others_status_audit [simp]: "others tid (status_audit tid u a i m db) = others tid db"
  by (simp add: status_audit_def)

lemma status_link_tenant [simp]: "li_tenantId (status_link tid a) = tid"
  by (simp add: status_link_def)

interpretation share_op: tenant_op tid "share_tx il k e tid taskId act" for tid il k e taskId act
  by unfold_locales
    (auto simp: share_tx_def Let_def split: sum.splits dest: others_link_create)

interpretation schedule_op: tenant_op tid "schedule_tx tid taskId start en u" for tid taskId start en u
  by unfold_locales
    (auto simp: schedule_tx_def open_task_def scheduled_row_def intro!: others_set_task split: if_splits)

interpretation on_the_way_op: tenant_op tid "on_the_way_tx k e tid taskId act" for tid k e taskId act
  by unfold_locales
    (auto simp: on_the_way_tx_def Let_def split: sum.splits if_splits
      dest!: others_link_create intro!: others_set_task [THEN trans])

section \<open>The page of a task\<close>

lemma status_view_state: "status_view k e token db = (r, db') \<Longrightarrow> db' = db"
proof -
  have "view_tx tid l db = Inr (v, db') \<Longrightarrow> db' = db" for tid l db v db'
    by (auto simp: view_tx_def split: sum.splits option.splits)
  then show "status_view k e token db = (r, db') \<Longrightarrow> db' = db"
    unfolding status_view_def by (cases r) (auto simp: on_link_Inr dest: on_link_Inl)
qed

interpretation status_page: link_page TASK_STATUS status_view
  by unfold_locales (rule status_view_state)

lemma confirm_tx_cases:
  assumes "confirm_tx e tid l db = Inr (u, db')"
  obtains (again) taskId t where "pk_taskId l = Some taskId" "db' = db" "t \<in> set (tasks db)"
      "confirmable tid taskId t" "t_customerConfirmedAt t \<noteq> None"
      "\<And>x. x \<in> set (tasks db) \<Longrightarrow> confirmable tid taskId x \<Longrightarrow> t_customerConfirmedAt x \<noteq> None"
  | (confirmed) taskId t where "pk_taskId l = Some taskId" "t \<in> set (tasks db)" "confirmable tid taskId t"
      "t_customerConfirmedAt t = None"
      "tasks db' = map (\<lambda>x. if confirmable tid taskId x \<and> t_customerConfirmedAt x = None then confirmed_row e x else x) (tasks db)"
      "public_links db' = public_links db" "tenants db' = tenants db"
  using assms
  by (fastforce simp: confirm_tx_def not_null_def list_ex_iff split: option.splits if_splits)

lemma confirmable_confirmed [simp]: "confirmable tid taskId (confirmed_row e t) = confirmable tid taskId t"
  by (simp add: confirmable_def open_task_def confirmed_row_def)

lemma confirmed_row_at [simp]: "t_customerConfirmedAt (confirmed_row e t) = Some (now e)"
  by (simp add: confirmed_row_def)

text \<open>Once confirmed, confirming again is the identity.\<close>

lemma confirm_tx_again:
  assumes "confirm_tx e tid l db = Inr (u, db')"
  shows "confirm_tx e' tid l db' = Inr ((), db')"
  using assms
proof (cases rule: confirm_tx_cases)
  case (again taskId t)
  then have "\<not> list_ex (\<lambda>t. confirmable tid taskId t \<and> t_customerConfirmedAt t = None) (tasks db)"
    "list_ex (\<lambda>t. confirmable tid taskId t \<and> t_customerConfirmedAt t \<noteq> None) (tasks db)"
    by (auto simp: list_ex_iff)
  with again(1,2) show ?thesis by (simp add: confirm_tx_def not_null_def)
next
  case (confirmed taskId t)
  have "confirmed_row e t \<in> set (tasks db')"
    unfolding confirmed(5) using confirmed(2-4) by (auto intro!: image_eqI [of _ _ t])
  then have "list_ex (\<lambda>t. confirmable tid taskId t \<and> t_customerConfirmedAt t \<noteq> None) (tasks db')"
    using confirmed(3) by (auto simp: list_ex_iff intro!: bexI [of _ "confirmed_row e t"])
  moreover have "\<not> list_ex (\<lambda>t. confirmable tid taskId t \<and> t_customerConfirmedAt t = None) (tasks db')"
    unfolding confirmed(5) by (auto simp: list_ex_iff)
  ultimately have "\<not> list_ex (\<lambda>t. confirmable tid taskId t \<and> t_customerConfirmedAt t = None) (tasks db')"
    "list_ex (\<lambda>t. confirmable tid taskId t \<and> t_customerConfirmedAt t \<noteq> None) (tasks db')" by blast+
  with confirmed(1) show ?thesis by (simp add: confirm_tx_def not_null_def)
qed

text \<open>Confirming a visit again, at any time the link is live, answers the same and changes
  nothing, so the first confirmation time stays.\<close>
theorem confirming_is_idempotent:
  assumes "confirm k e token db = (Inr v, db')"
    and "distinct (map pk_tokenHash (public_links db))"
    and "link_resolve k e' token TASK_STATUS db = (Inr (tid, l), db)"
  shows "confirm k e' token db' = (Inr v, db')"
proof -
  from status_page.answer_Inr [OF assms(1) [unfolded confirm_def]] obtain tid0 l0 u where
    r0: "link_resolve k e token TASK_STATUS db = (Inr (tid0, l0), db)"
    and c: "confirm_tx e tid0 l0 db = Inr (u, db')" and v: "status_view k e token db' = (Inr v, db')" by blast
  note r = link_resolve_Inr [OF r0] link_resolve_Inr [OF assms(3)]
  have "l = l0" by (rule distinct_map_eq [OF assms(2)]) (use r in simp_all)
  then have same: "l = l0" "tid = tid0" using r by simp_all
  have keep: "public_links db' = public_links db \<and> tenants db' = tenants db"
    using c by (cases rule: confirm_tx_cases) simp_all
  note r1 = link_resolve_again [OF r0 conjunct1 [OF keep] conjunct2 [OF keep]]
    and r2 = link_resolve_again [OF assms(3) conjunct1 [OF keep] conjunct2 [OF keep]]
  have "status_view k e' token db' = (Inr v, db')"
    using v r1 r2 same by (simp add: status_view_def on_link_resolved)
  moreover have "confirm_tx e' tid0 l0 db' = Inr ((), db')" by (rule confirm_tx_again [OF c])
  ultimately show ?thesis
    using r2 same link_resolve_Inr(2) [OF r0]
    by (simp add: confirm_def and_then_def on_link_resolved for_tenant_def)
qed

section \<open>Scheduling a visit\<close>

text \<open>Scheduling a visit succeeds only for an open task and an end after the start within
  twelve hours; it then replaces the visit and clears the customer's confirmation and request,
  and a failure changes nothing.\<close>
theorem scheduling_resets_the_answer:
  assumes "schedule_visit tid taskId start en actorId db = (r, db')"
  shows "(case r of
      Inr res \<Rightarrow> res = (taskId, start, en) \<and> list_ex (open_task tid taskId) (tasks db)
        \<and> tasks db' = map (\<lambda>t. if open_task tid taskId t then scheduled_row start en t else t) (tasks db)
        \<and> (case en of None \<Rightarrow> True | Some x \<Rightarrow> start < x \<and> x \<le> start + 12 * 3600000)
    | Inl err \<Rightarrow> db' = db)
    \<and> list_all (\<lambda>t. pv_customerConfirmedAt (task_view b w (scheduled_row start en t)) = None
         \<and> \<not> pv_rescheduleRequested (task_view b w (scheduled_row start en t))
         \<and> pv_canConfirm (task_view b w (scheduled_row start en t)) = open_status (t_status t)) (tasks db)"
proof -
  have "case r of
      Inr res \<Rightarrow> res = (taskId, start, en) \<and> list_ex (open_task tid taskId) (tasks db)
        \<and> tasks db' = map (\<lambda>t. if open_task tid taskId t then scheduled_row start en t else t) (tasks db)
        \<and> (case en of None \<Rightarrow> True | Some x \<Rightarrow> start < x \<and> x \<le> start + 12 * 3600000)
    | Inl err \<Rightarrow> db' = db"
  proof (cases r)
    case (Inl err)
    with assms show ?thesis
      by (auto simp: schedule_visit_def for_tenant_Inl split: option.splits if_splits)
  next
    case (Inr res)
    with assms have "schedule_tx tid taskId start en actorId db = Inr (res, db')"
      and "case en of None \<Rightarrow> True | Some x \<Rightarrow> start < x \<and> x \<le> start + 12 * 3600000"
      by (auto simp: schedule_visit_def for_tenant_Inr max_visit_hours_def split: option.splits if_splits)
    with Inr show ?thesis by (auto simp: schedule_tx_def split: if_splits)
  qed
  moreover have "pv_customerConfirmedAt (task_view b w (scheduled_row start en t)) = None
         \<and> \<not> pv_rescheduleRequested (task_view b w (scheduled_row start en t))
         \<and> pv_canConfirm (task_view b w (scheduled_row start en t)) = open_status (t_status t)" for t
    by (simp add: task_view_def scheduled_row_def derive_customer_status_def Let_def open_status_def)
  ultimately show ?thesis by (simp add: list_all_iff)
qed

section \<open>What a link holder can change\<close>

text \<open>Whatever a link holder confirms or requests changes at most the link's own open task,
  only its answer fields, and no data of another tenant.\<close>
theorem customer_changes_one_task_only:
  assumes "confirm k e token db = (r, db') \<or> request_reschedule k e token txt db = (r, db')"
  shows "db' = db \<or> (\<exists>tid l. link_resolve k e token TASK_STATUS db = (Inr (tid, l), db)
    \<and> others tid db' = others tid db
    \<and> (\<exists>f. tasks db' = map f (tasks db) \<and> (\<forall>t. f t = t
         \<or> (Some (t_id t) = pk_taskId l \<and> t_tenantId t = tid \<and> open_status (t_status t)
            \<and> (\<exists>c q w. f t = t\<lparr>t_customerConfirmedAt := c, t_rescheduleRequest := q, t_rescheduleRequestedAt := w\<rparr>)))))"
    (is "_ \<or> (\<exists>tid l. ?P tid l)")
  using assms
proof
  assume "confirm k e token db = (r, db')"
  from status_page.answer_outcome [OF this [unfolded confirm_def]] show ?thesis
  proof (elim disjE exE conjE)
    fix tid l u assume rs: "link_resolve k e token TASK_STATUS db = (Inr (tid, l), db)"
      and c: "confirm_tx e tid l db = Inr (u, db')"
    have o: "others tid db' = others tid db"
      using c by (auto simp: confirm_tx_def confirmable_def open_task_def confirmed_row_def
        intro!: others_set_task split: sum.splits if_splits)
    from c show ?thesis
    proof (cases rule: confirm_tx_cases)
      case (confirmed taskId t)
      let ?f = "\<lambda>x. if confirmable tid taskId x \<and> t_customerConfirmedAt x = None then confirmed_row e x else x"
      have "?f x = x \<or> (Some (t_id x) = pk_taskId l \<and> t_tenantId x = tid \<and> open_status (t_status x)
            \<and> (\<exists>c q w. ?f x = x\<lparr>t_customerConfirmedAt := c, t_rescheduleRequest := q, t_rescheduleRequestedAt := w\<rparr>))" for x
        by (auto simp: confirmed(1) confirmable_def open_task_def confirmed_row_def)
      with confirmed(5) rs o show ?thesis by blast
    qed simp
  qed simp
next
  assume "request_reschedule k e token txt db = (r, db')"
  from status_page.answer_outcome [OF this [unfolded request_reschedule_def]] show ?thesis
  proof (elim disjE exE conjE)
    fix tid l u assume rs: "link_resolve k e token TASK_STATUS db = (Inr (tid, l), db)"
      and c: "reschedule_tx e txt tid l db = Inr (u, db')"
    have o: "others tid db' = others tid db"
      using c by (auto simp: reschedule_tx_def open_task_def reschedule_row_def
        intro!: others_set_task split: sum.splits if_splits)
    from c obtain taskId where t: "pk_taskId l = Some taskId"
      "tasks db' = map (\<lambda>x. if open_task tid taskId x then reschedule_row e txt x else x) (tasks db)"
      by (auto simp: reschedule_tx_def not_null_def split: option.splits if_splits)
    have "reschedule_row e txt x = x\<lparr>t_customerConfirmedAt := None, t_rescheduleRequest := Some (trim txt),
        t_rescheduleRequestedAt := Some (now e)\<rparr>" for x by (cases x) (simp add: reschedule_row_def)
    note row = this
    let ?f = "\<lambda>x. if open_task tid taskId x then reschedule_row e txt x else x"
    have "?f x = x \<or> (Some (t_id x) = pk_taskId l \<and> t_tenantId x = tid \<and> open_status (t_status x)
            \<and> (\<exists>c q w. ?f x = x\<lparr>t_customerConfirmedAt := c, t_rescheduleRequest := q, t_rescheduleRequestedAt := w\<rparr>))" for x
      by (auto simp: t(1) open_task_def row)
    with t(2) rs o show ?thesis by blast
  qed simp
qed

section \<open>Instances\<close>

definition demo_visit_link :: public_link where
  "demo_visit_link = \<lparr>pk_id = ''l1'', pk_tenantId = demo_tenant, pk_tokenHash = lk_hash demo_keys (lk_token demo_keys 0),
     pk_purpose = TASK_STATUS, pk_customerId = ''c1'', pk_taskId = Some ''t1'', pk_equipmentId = None,
     pk_quoteId = None, pk_expiresAt = 9000, pk_usedAt = None, pk_revokedAt = None, pk_createdAt = 1000\<rparr>"

definition demo_visit_db :: db where
  "demo_visit_db = demo_link_db\<lparr>public_links := [demo_visit_link],
     tasks := [demo_task\<lparr>t_scheduledStart := Some 7000\<rparr>]\<rparr>"

lemma demo_visit_resolved:
  "link_resolve demo_keys demo_env (lk_token demo_keys 0) TASK_STATUS demo_visit_db
     = (Inr (demo_tenant, demo_visit_link), demo_visit_db)"
  by (simp add: link_resolve_def demo_token_ok resolve_public_link_def for_tenant_def live_link_def
      demo_visit_db_def demo_visit_link_def demo_link_db_def demo_env_def)

lemma demo_confirmed:
  "\<exists>v db'. confirm demo_keys demo_env (lk_token demo_keys 0) demo_visit_db = (Inr v, db')
     \<and> map t_customerConfirmedAt (tasks db') = [Some 5000]"
proof -
  let ?t = "confirmed_row demo_env (demo_task\<lparr>t_scheduledStart := Some 7000\<rparr>)"
  have "\<exists>db'. confirm_tx demo_env demo_tenant demo_visit_link demo_visit_db = Inr ((), db') \<and> tasks db' = [?t]
     \<and> public_links db' = public_links demo_visit_db \<and> tenants db' = tenants demo_visit_db"
    by (simp add: confirm_tx_def not_null_def confirmable_def open_task_def
      demo_visit_link_def demo_visit_db_def demo_link_db_def demo_defs)
  then obtain db' where a: "confirm_tx demo_env demo_tenant demo_visit_link demo_visit_db = Inr ((), db')"
    and t: "tasks db' = [?t]"
    and keep: "public_links db' = public_links demo_visit_db" "tenants db' = tenants demo_visit_db" by blast
  have i: "t_id ?t = ''t1''" "t_tenantId ?t = demo_tenant" "t_customerConfirmedAt ?t = Some 5000"
    by (simp_all add: confirmed_row_def demo_defs)
  have "pk_taskId demo_visit_link = Some ''t1''" by (simp add: demo_visit_link_def)
  moreover have "List.find (\<lambda>r. tn_id r = demo_tenant) (tenants db') \<noteq> None"
    unfolding keep by (simp add: demo_visit_db_def demo_link_db_def)
  ultimately have "\<exists>v. view_tx demo_tenant demo_visit_link db' = Inr (v, db')"
    using t i by (auto simp: view_tx_def not_null_def)
  then have "\<exists>v. status_view demo_keys demo_env (lk_token demo_keys 0) db' = (Inr v, db')"
    using link_resolve_again [OF demo_visit_resolved keep]
    by (auto simp: status_view_def on_link_resolved for_tenant_def)
  with a t i show ?thesis
    by (auto simp: confirm_def and_then_def on_link_resolved [OF demo_visit_resolved] for_tenant_def)
qed

theorem confirming_is_idempotent_witness:
  "\<exists>v db'. confirm demo_keys demo_env (lk_token demo_keys 0) demo_visit_db = (Inr v, db')
     \<and> confirm demo_keys demo_env (lk_token demo_keys 0) db' = (Inr v, db')"
proof -
  from demo_confirmed obtain v db' where run: "confirm demo_keys demo_env (lk_token demo_keys 0) demo_visit_db = (Inr v, db')" by blast
  have "distinct (map pk_tokenHash (public_links demo_visit_db))" by (simp add: demo_visit_db_def)
  from confirming_is_idempotent [OF run this demo_visit_resolved] run show ?thesis by blast
qed

theorem scheduling_resets_the_answer_witness:
  "\<exists>db'. schedule_visit demo_tenant ''t1'' 7000 (Some 8000) ''u1'' demo_visit_db = (Inr (''t1'', 7000, Some 8000), db')
     \<and> map t_scheduledEnd (tasks db') = [Some 8000]"
proof -
  have "\<exists>db'. schedule_visit demo_tenant ''t1'' 7000 (Some 8000) ''u1'' demo_visit_db = (Inr (''t1'', 7000, Some 8000), db')"
    by (simp add: schedule_visit_def max_visit_hours_def for_tenant_def schedule_tx_def open_task_def
      demo_visit_db_def demo_link_db_def demo_defs)
  then obtain db' where run: "schedule_visit demo_tenant ''t1'' 7000 (Some 8000) ''u1'' demo_visit_db = (Inr (''t1'', 7000, Some 8000), db')" by blast
  from scheduling_resets_the_answer [OF run] run show ?thesis
    by (simp add: demo_visit_db_def open_task_def scheduled_row_def demo_defs)
qed

theorem customer_changes_one_task_only_witness:
  "\<exists>v db'. confirm demo_keys demo_env (lk_token demo_keys 0) demo_visit_db = (Inr v, db')
     \<and> others demo_tenant db' = others demo_tenant demo_visit_db"
proof -
  from demo_confirmed obtain v db' where run: "confirm demo_keys demo_env (lk_token demo_keys 0) demo_visit_db = (Inr v, db')" by blast
  from customer_changes_one_task_only [OF disjI1 [OF run]] run demo_visit_resolved show ?thesis by auto
qed

end
