(* ===== verification/Equipment.thy ===== *)
theory Equipment
  imports Pages
begin

text \<open>
  modules/equipment/equipment.service.ts: the equipment of a customer, which of it is due for
  service, reminders by link, and the visit a customer books through one.
\<close>

definition reminder_cooldown_days :: int where
  "reminder_cooldown_days = 14"

definition max_booking_days_ahead :: int where
  "max_booking_days_ahead = 60"

definition max_due_rows :: nat where
  "max_due_rows = 200"

datatype day_part = Morning | Noon | Evening

fun part_label :: "day_part \<Rightarrow> string" where
  "part_label Morning = (utf8 [1489, 1493, 1511, 1512])"
| "part_label Noon = (utf8 [1510, 1492, 1512, 1497, 1497, 1501])"
| "part_label Evening = (utf8 [1488, 1495, 1492, 1524, 1510] @ ''-'' @ utf8 [1506, 1512, 1489])"

definition equipment_audit :: "string \<Rightarrow> string option \<Rightarrow> string \<Rightarrow> string \<Rightarrow> json \<Rightarrow> db \<Rightarrow> db" where
  "equipment_audit tid uid action entityId meta = audit_create \<lparr>al_tenantId = tid, al_userId = uid,
     al_action = action, al_entityType = (if starts_with ''task.'' action then ''Task'' else ''Equipment''),
     al_entityId = entityId, al_metadata = Some meta\<rparr>"

definition list_for_customer :: "string \<Rightarrow> string \<Rightarrow> equipment_row list svc" where
  "list_for_customer tid cid db = for_tenant tid (\<lambda>db.
     if \<not> list_ex (\<lambda>c. c_id c = cid \<and> c_tenantId c = tid) (customers db)
     then Inl (NotFound ''Customer not found'')
     else Inr (sort_key (\<lambda>q. (if eq_isActive q then 0 else 1 :: nat, eq_createdAt q))
       (filter (\<lambda>q. eq_tenantId q = tid \<and> eq_customerId q = cid) (equipment db)), db)) db"

text \<open>A date of a past service: a real date, not after today in Israel.\<close>

definition past_date :: "intl \<Rightarrow> env \<Rightarrow> string \<Rightarrow> http_error + int" where
  "past_date il e isod =
     (if \<not> is_calendar_date isod
      then Inl (BadRequest ''lastServicedOn must be a real date in YYYY-MM-DD format'')
      else if il_israel_today il (now e) < isod then Inl (BadRequest ''Last service date cannot be in the future'')
      else Inr (noon_utc isod))"

definition past_date_opt :: "intl \<Rightarrow> env \<Rightarrow> string option \<Rightarrow> http_error + int option" where
  "past_date_opt il e x =
     (case x of None \<Rightarrow> Inr None
      | Some s \<Rightarrow> (case past_date il e s of Inl err \<Rightarrow> Inl err | Inr d \<Rightarrow> Inr (Some d)))"

record equipment_dto =
  ed_kind :: "string option"
  ed_model :: "string option"
  ed_location :: "string option"
  ed_serviceIntervalMonths :: "int option"
  ed_isActive :: "bool option"
  ed_lastServicedOn :: "string option"

text \<open>In a create request the kind is mandatory; an empty date text counts as absent.\<close>

definition equipment_create_tx ::
  "intl \<Rightarrow> env \<Rightarrow> string \<Rightarrow> string \<Rightarrow> string \<Rightarrow> equipment_dto \<Rightarrow> string \<Rightarrow> equipment_row tx" where
  "equipment_create_tx il e tid cid kind d actorId db =
     (if \<not> list_ex (\<lambda>c. c_id c = cid \<and> c_tenantId c = tid) (customers db)
      then Inl (NotFound ''Customer not found'')
      else case past_date_opt il e (if truthy (ed_lastServicedOn d) then ed_lastServicedOn d else None) of
          Inl err \<Rightarrow> Inl err
        | Inr serviced \<Rightarrow>
            let q = \<lparr>eq_id = next_id e db, eq_tenantId = tid, eq_customerId = cid, eq_kind = trim kind,
                     eq_model = map_option trim (ed_model d), eq_location = map_option trim (ed_location d),
                     eq_serviceIntervalMonths = or_else (ed_serviceIntervalMonths d) 6,
                     eq_lastServicedAt = serviced, eq_lastReminderAt = None, eq_isActive = True, eq_createdAt = now e\<rparr>
            in Inr (q, equipment_audit tid (Some actorId) ''equipment.created'' (eq_id q)
                 (JObj [(''customerId'', JStr cid)]) ((bump_id db)\<lparr>equipment := equipment db @ [q]\<rparr>)))"

definition equipment_create ::
  "intl \<Rightarrow> env \<Rightarrow> string \<Rightarrow> string \<Rightarrow> string \<Rightarrow> equipment_dto \<Rightarrow> string \<Rightarrow> equipment_row svc" where
  "equipment_create il e tid cid kind d actorId db = for_tenant tid (equipment_create_tx il e tid cid kind d actorId) db"

definition dto_fields :: "equipment_dto \<Rightarrow> string list" where
  "dto_fields d =
     (if ed_kind d \<noteq> None then [''kind''] else []) @ (if ed_model d \<noteq> None then [''model''] else [])
     @ (if ed_location d \<noteq> None then [''location''] else [])
     @ (if ed_serviceIntervalMonths d \<noteq> None then [''serviceIntervalMonths''] else [])
     @ (if ed_isActive d \<noteq> None then [''isActive''] else [])
     @ (if ed_lastServicedOn d \<noteq> None then [''lastServicedOn''] else [])"

definition apply_dto :: "equipment_dto \<Rightarrow> int option \<Rightarrow> equipment_row \<Rightarrow> equipment_row" where
  "apply_dto d serviced q = q\<lparr>
     eq_kind := or_else (map_option trim (ed_kind d)) (eq_kind q),
     eq_model := (if ed_model d = None then eq_model q else map_option trim (ed_model d)),
     eq_location := (if ed_location d = None then eq_location q else map_option trim (ed_location d)),
     eq_serviceIntervalMonths := or_else (ed_serviceIntervalMonths d) (eq_serviceIntervalMonths q),
     eq_isActive := or_else (ed_isActive d) (eq_isActive q),
     eq_lastServicedAt := (if ed_lastServicedOn d = None then eq_lastServicedAt q else serviced)\<rparr>"

definition set_equipment :: "(equipment_row \<Rightarrow> bool) \<Rightarrow> (equipment_row \<Rightarrow> equipment_row) \<Rightarrow> db \<Rightarrow> db" where
  "set_equipment P f db = db\<lparr>equipment := snd (update_rows P f (equipment db))\<rparr>"

definition own_equipment :: "string \<Rightarrow> string \<Rightarrow> equipment_row \<Rightarrow> bool" where
  "own_equipment tid eid q \<longleftrightarrow> eq_id q = eid \<and> eq_tenantId q = tid"

definition update_equipment_tx ::
  "intl \<Rightarrow> env \<Rightarrow> string \<Rightarrow> string \<Rightarrow> equipment_dto \<Rightarrow> string \<Rightarrow> equipment_row tx" where
  "update_equipment_tx il e tid eid d actorId db =
     (case past_date_opt il e (ed_lastServicedOn d) of
        Inl err \<Rightarrow> Inl err
      | Inr serviced \<Rightarrow>
          (if \<not> list_ex (own_equipment tid eid) (equipment db) then Inl (NotFound ''Equipment not found'')
           else let db1 = equipment_audit tid (Some actorId) ''equipment.updated'' eid
                     (JObj [(''fields'', JArr (map JStr (dto_fields d)))])
                     (set_equipment (own_equipment tid eid) (apply_dto d serviced) db)
                in case List.find (own_equipment tid eid) (equipment db1) of
                     None \<Rightarrow> Inl (PrismaKnown ''P2025'')
                   | Some q \<Rightarrow> Inr (q, db1)))"

definition update_equipment ::
  "intl \<Rightarrow> env \<Rightarrow> string \<Rightarrow> string \<Rightarrow> equipment_dto \<Rightarrow> string \<Rightarrow> equipment_row svc" where
  "update_equipment il e tid eid d actorId db =
     (if dto_fields d = [] then (Inl (BadRequest ''Nothing to update''), db)
      else for_tenant tid (update_equipment_tx il e tid eid d actorId) db)"

section \<open>What is due\<close>

definition has_open_task :: "string \<Rightarrow> string \<Rightarrow> db \<Rightarrow> bool" where
  "has_open_task tid eid db \<longleftrightarrow>
     list_ex (\<lambda>t. t_tenantId t = tid \<and> t_equipmentId t = Some eid \<and> open_status (t_status t)) (tasks db)"

definition due_at :: "equipment_row \<Rightarrow> int" where
  "due_at q = add_months (eq_serviceIntervalMonths q)
     (case eq_lastServicedAt q of None \<Rightarrow> eq_createdAt q | Some t \<Rightarrow> t)"

record due_row =
  du_equipmentId :: string
  du_kind :: string
  du_location :: "string option"
  du_customerId :: string
  du_customerName :: string
  du_hasPhone :: bool
  du_lastServicedAt :: "int option"
  du_dueAt :: int
  du_daysOverdue :: int
  du_lastReminderAt :: "int option"
  du_remindedRecently :: bool

definition due_customer :: "db \<Rightarrow> equipment_row \<Rightarrow> customer option" where
  "due_customer db q = List.find (\<lambda>c. c_id c = eq_customerId q \<and> c_tenantId c = eq_tenantId q) (customers db)"

text \<open>The subquery on tasks sees the rows of the tenant only: row-level security.\<close>

definition is_due :: "env \<Rightarrow> string \<Rightarrow> int \<Rightarrow> db \<Rightarrow> equipment_row \<Rightarrow> bool" where
  "is_due e tid withinDays db q \<longleftrightarrow> eq_tenantId q = tid \<and> eq_isActive q
     \<and> (case due_customer db q of None \<Rightarrow> False | Some c \<Rightarrow> c_isActive c)
     \<and> due_at q \<le> now e + withinDays * ms_per_day
     \<and> \<not> has_open_task tid (eq_id q) db"

definition due_row_of :: "env \<Rightarrow> db \<Rightarrow> equipment_row \<Rightarrow> due_row" where
  "due_row_of e db q =
     (let c = the (due_customer db q)
      in \<lparr>du_equipmentId = eq_id q, du_kind = eq_kind q, du_location = eq_location q,
          du_customerId = c_id c, du_customerName = c_name c,
          du_hasPhone = (build_wa_link (c_phone c) ''x'' \<noteq> None),
          du_lastServicedAt = eq_lastServicedAt q, du_dueAt = due_at q,
          du_daysOverdue = max 0 ((now e - due_at q) div 86400000),
          du_lastReminderAt = eq_lastReminderAt q,
          du_remindedRecently = (case eq_lastReminderAt q of None \<Rightarrow> False
             | Some r \<Rightarrow> now e - r < reminder_cooldown_days * 86400000)\<rparr>)"

definition due :: "env \<Rightarrow> string \<Rightarrow> int option \<Rightarrow> due_row list svc" where
  "due e tid withinDays db = for_tenant tid (\<lambda>db. Inr (map (due_row_of e db)
     (take max_due_rows (sort_key due_at (filter (is_due e tid (or_else withinDays 14) db) (equipment db)))), db)) db"

section \<open>Reminding\<close>

definition what_of :: "equipment_row \<Rightarrow> string" where
  "what_of q = (if truthy (eq_location q) then eq_kind q @ '' ('' @ the (eq_location q) @ '')'' else eq_kind q)"

definition remind_message :: "string \<Rightarrow> equipment_row \<Rightarrow> string \<Rightarrow> string" where
  "remind_message business q url =
     (utf8 [1513, 1500, 1493, 1501, 44, 32, 1499, 1488, 1503, 32]) @ business @ (utf8 [46, 32, 1492, 1490, 1497, 1506, 32, 1492, 1494, 1502, 1503, 32, 1500, 1496, 1497, 1508, 1493, 1500, 32, 1492, 1514, 1511, 1493, 1508, 1514, 1497, 32, 1489]) @ what_of q
     @ (utf8 [46, 32, 1496, 1497, 1508, 1493, 1500, 32, 1489, 1494, 1502, 1503, 32, 1495, 1493, 1505, 1498, 32, 1514, 1511, 1500, 1493, 1514, 32, 1493, 1495, 1513, 1502, 1500, 46, 32, 1488, 1508, 1513, 1512, 32, 1500, 1489, 1495, 1493, 1512, 32, 1502, 1493, 1506, 1491, 32, 1504, 1493, 1495, 32, 1499, 1488, 1503, 58, 32]) @ url"

definition booking_link :: "string \<Rightarrow> string \<Rightarrow> equipment_row \<Rightarrow> link_input" where
  "booking_link tid eid q = \<lparr>li_tenantId = tid, li_purpose = BOOKING, li_customerId = eq_customerId q,
     li_taskId = None, li_equipmentId = Some eid, li_quoteId = None\<rparr>"

definition remind_tx :: "link_keys \<Rightarrow> env \<Rightarrow> string \<Rightarrow> string \<Rightarrow> string \<Rightarrow> share_result tx" where
  "remind_tx k e tid eid actorId db =
     (case List.find (\<lambda>q. own_equipment tid eid q \<and> eq_isActive q) (equipment db) of
        None \<Rightarrow> Inl (NotFound ''Equipment not found'')
      | Some q \<Rightarrow>
     (case (List.find (\<lambda>c. c_id c = eq_customerId q) (customers db), List.find (\<lambda>r. tn_id r = tid) (tenants db)) of
        (Some c, Some r) \<Rightarrow>
          if has_open_task tid eid db then Inl (Conflict ''This equipment already has an open task'')
          else (case link_create k e (booking_link tid eid q) db of
              Inl err \<Rightarrow> Inl err
            | Inr (link, db1) \<Rightarrow>
                let db2 = set_equipment (own_equipment tid eid) (\<lambda>x. x\<lparr>eq_lastReminderAt := Some (now e)\<rparr>) db1;
                    message = remind_message (tn_name r) q (cl_url link)
                in Inr (\<lparr>sr_url = cl_url link, sr_waUrl = build_wa_link (c_phone c) message, sr_message = message\<rparr>,
                   equipment_audit tid (Some actorId) ''equipment.reminder_sent'' eid (JObj []) db2))
      | _ \<Rightarrow> Inl (Thrown ''Inconsistent query result'')))"

definition remind :: "link_keys \<Rightarrow> env \<Rightarrow> string \<Rightarrow> string \<Rightarrow> string \<Rightarrow> share_result svc" where
  "remind k e tid eid actorId db = for_tenant tid (remind_tx k e tid eid actorId) db"

section \<open>Booking\<close>

record booking_view_result =
  bv_businessName :: string
  bv_kind :: string
  bv_location :: "string option"
  bv_alreadyBooked :: bool
  bv_minDate :: string
  bv_maxDate :: string

definition booking_view_tx :: "intl \<Rightarrow> env \<Rightarrow> string \<Rightarrow> public_link \<Rightarrow> booking_view_result tx" where
  "booking_view_tx il e tid l db =
     (case not_null (pk_equipmentId l) of
        Inl err \<Rightarrow> Inl err
      | Inr eid \<Rightarrow>
     (case List.find (\<lambda>q. own_equipment tid eid q \<and> eq_isActive q) (equipment db) of
        None \<Rightarrow> Inl link_not_found
      | Some q \<Rightarrow>
     (case List.find (\<lambda>r. tn_id r = tid) (tenants db) of
        None \<Rightarrow> Inl (Thrown ''Inconsistent query result'')
      | Some r \<Rightarrow>
          let today = il_israel_today il (now e)
          in Inr (\<lparr>bv_businessName = tn_name r, bv_kind = eq_kind q, bv_location = eq_location q,
                bv_alreadyBooked = (pk_usedAt l \<noteq> None \<or> has_open_task tid eid db),
                bv_minDate = add_days today 1, bv_maxDate = add_days today max_booking_days_ahead\<rparr>, db))))"

definition booking_view :: "intl \<Rightarrow> link_keys \<Rightarrow> env \<Rightarrow> string \<Rightarrow> booking_view_result svc" where
  "booking_view il k e token = on_link k e token BOOKING (booking_view_tx il e)"

record booking_request =
  br_windows :: "(string \<times> day_part) list"
  br_note :: "string option"

definition window_ok :: "string \<Rightarrow> string \<times> day_part \<Rightarrow> bool" where
  "window_ok today w \<longleftrightarrow> is_calendar_date (fst w) \<and> add_days today 1 \<le> fst w
     \<and> fst w \<le> add_days today max_booking_days_ahead"

definition newline :: string where
  "newline = [char_of (10 :: nat)]"

definition booking_description :: "intl \<Rightarrow> booking_request \<Rightarrow> string" where
  "booking_description il d =
     (let windows = join_with newline (map (\<lambda>w. (utf8 [8226, 32]) @ il_utc_day il (noon_utc (fst w)) @ '', '' @ part_label (snd w)) (br_windows d))
      in (utf8 [1492, 1500, 1511, 1493, 1495, 32, 1511, 1489, 1506, 32, 1496, 1497, 1508, 1493, 1500, 32, 1514, 1511, 1493, 1508, 1514, 1497, 32, 1502, 1511, 1497, 1513, 1493, 1512, 32, 1492, 1514, 1494, 1499, 1493, 1512, 1514, 46]) @ newline @ newline @ (utf8 [1502, 1493, 1506, 1491, 1497, 1501, 32, 1502, 1493, 1506, 1491, 1508, 1497, 1501, 58]) @ newline @ windows
         @ (if truthy (map_option trim (br_note d))
            then newline @ newline @ (utf8 [1492, 1506, 1512, 1514, 32, 1492, 1500, 1511, 1493, 1495, 58]) @ newline @ trim (the (br_note d)) else []))"

definition booking_task :: "intl \<Rightarrow> string \<Rightarrow> equipment_row \<Rightarrow> booking_request \<Rightarrow> task" where
  "booking_task il tid q d = blank_task\<lparr>t_tenantId := tid, t_customerId := eq_customerId q,
     t_equipmentId := Some (eq_id q), t_title := (utf8 [1496, 1497, 1508, 1493, 1500, 32, 1514, 1511, 1493, 1508, 1514, 1497, 58, 32]) @ what_of q,
     t_description := Some (booking_description il d), t_source := CUSTOMER_LINK, t_status := NEW\<rparr>"

definition unused_link :: "string \<Rightarrow> public_link \<Rightarrow> public_link \<Rightarrow> bool" where
  "unused_link tid l x \<longleftrightarrow> pk_id x = pk_id l \<and> pk_tenantId x = tid \<and> pk_usedAt x = None"

definition use_link :: "env \<Rightarrow> string \<Rightarrow> public_link \<Rightarrow> db \<Rightarrow> db" where
  "use_link e tid l db = db\<lparr>public_links := snd (update_rows (unused_link tid l)
     (\<lambda>x. x\<lparr>pk_usedAt := Some (now e)\<rparr>) (public_links db))\<rparr>"

definition book_tx :: "intl \<Rightarrow> env \<Rightarrow> booking_request \<Rightarrow> string \<Rightarrow> public_link \<Rightarrow> bool tx" where
  "book_tx il e d tid l db =
     (if \<not> list_ex (unused_link tid l) (public_links db)
      then Inl (Conflict ''This link was already used to book a visit'')
      else let db1 = use_link e tid l db
      in case not_null (pk_equipmentId l) of
           Inl err \<Rightarrow> Inl err
         | Inr eid \<Rightarrow>
             (case List.find (\<lambda>q. own_equipment tid eid q \<and> eq_isActive q) (equipment db1) of
                None \<Rightarrow> Inl link_not_found
              | Some _ \<Rightarrow>
             (if has_open_task tid eid db1 then Inl (Conflict ''A visit for this equipment is already being arranged'')
              else (case List.find (own_equipment tid eid) (equipment db1) of
                 None \<Rightarrow> Inl (PrismaKnown ''P2025'')
               | Some q \<Rightarrow>
                   (case task_create e (booking_task il tid q d) db1 of
                      Inl err \<Rightarrow> Inl err
                    | Inr (t, db2) \<Rightarrow>
                        Inr (True, outbox_create e tid ''task.created'' (task_payload tid (t_id t) (Some CUSTOMER_LINK))
                          (equipment_audit tid None ''task.booked_by_customer'' (t_id t)
                            (JObj [(''via'', JStr ''public_link''), (''equipmentId'', JStr (eq_id q))]) db2)))))))"

definition book :: "intl \<Rightarrow> link_keys \<Rightarrow> env \<Rightarrow> string \<Rightarrow> booking_request \<Rightarrow> bool svc" where
  "book il k e token d db =
     (case link_resolve k e token BOOKING db of
        (Inl err, db1) \<Rightarrow> (Inl err, db1)
      | (Inr (tid, l), db1) \<Rightarrow>
          if \<not> list_all (window_ok (il_israel_today il (now e))) (br_windows d)
          then (Inl (BadRequest ''Please choose dates within the next two months''), db1)
          else for_tenant tid (book_tx il e d tid l) db1)"

section \<open>Rows\<close>

lemma equipment_audit_tables [simp]:
  "tasks (equipment_audit tid u a i m db) = tasks db"
  "equipment (equipment_audit tid u a i m db) = equipment db"
  "public_links (equipment_audit tid u a i m db) = public_links db"
  "tenants (equipment_audit tid u a i m db) = tenants db"
  "others tid (equipment_audit tid u a i m db) = others tid db"
  by (simp_all add: equipment_audit_def)

lemma set_equipment_tables [simp]:
  "tasks (set_equipment P f db) = tasks db"
  "equipment (set_equipment P f db) = map (\<lambda>q. if P q then f q else q) (equipment db)"
  "public_links (set_equipment P f db) = public_links db"
  by (simp_all add: set_equipment_def update_rows_def)

lemma use_link_tables [simp]:
  "tasks (use_link e tid l db) = tasks db" "equipment (use_link e tid l db) = equipment db"
  "customers (use_link e tid l db) = customers db" "tenants (use_link e tid l db) = tenants db"
  "outbox_events (use_link e tid l db) = outbox_events db"
  "public_links (use_link e tid l db) =
     map (\<lambda>x. if unused_link tid l x then x\<lparr>pk_usedAt := Some (now e)\<rparr> else x) (public_links db)"
  by (simp_all add: use_link_def update_rows_def)

lemma unused_after_use: "\<not> list_ex (unused_link tid l) (public_links (use_link e tid l db))"
proof -
  have "\<not> unused_link tid l (x\<lparr>pk_usedAt := Some w\<rparr>)" for x w by (simp add: unused_link_def)
  then show ?thesis by (auto simp: list_ex_iff)
qed

lemma others_set_equipment:
  assumes "\<And>q. P q \<Longrightarrow> eq_tenantId q = tid" and "\<And>q. eq_tenantId (f q) = eq_tenantId q"
  shows "others tid (set_equipment P f db) = others tid db"
proof -
  have "filter (\<lambda>q. eq_tenantId q \<noteq> tid) (equipment (set_equipment P f db)) = filter (\<lambda>q. eq_tenantId q \<noteq> tid) (equipment db)"
    unfolding set_equipment_tables by (rule filter_map_frame) (use assms in auto)
  then show ?thesis by (simp add: others_def set_equipment_def)
qed

lemma others_use_link: "others tid (use_link e tid l db) = others tid db"
proof -
  have "filter (\<lambda>x. pk_tenantId x \<noteq> tid) (public_links (use_link e tid l db)) = filter (\<lambda>x. pk_tenantId x \<noteq> tid) (public_links db)"
    unfolding use_link_tables by (rule filter_map_frame) (auto simp: unused_link_def)
  then show ?thesis by (simp add: others_def use_link_def)
qed

interpretation equipment_create_op: tenant_op tid "equipment_create_tx il e tid cid kind d u" for tid il e cid kind d u
  by unfold_locales
    (auto simp: equipment_create_tx_def Let_def others_def bump_id_def equipment_audit_def audit_create_def
      split: if_splits sum.splits)

interpretation update_equipment_op: tenant_op tid "update_equipment_tx il e tid eid d u" for tid il e eid d u
  by unfold_locales
    (auto simp: update_equipment_tx_def Let_def own_equipment_def apply_dto_def intro!: others_set_equipment
      split: if_splits sum.splits option.splits)

interpretation remind_op: tenant_op tid "remind_tx k e tid eid u" for tid k e eid u
  by unfold_locales
    (auto simp: remind_tx_def Let_def own_equipment_def booking_link_def
      split: if_splits sum.splits option.splits prod.splits
      dest!: others_link_create intro!: others_set_equipment [THEN trans])

lemma book_tx_Inr:
  assumes "book_tx il e d tid l db = Inr (b, db')"
  obtains eid q t where "pk_equipmentId l = Some eid" "q \<in> set (equipment db)" "own_equipment tid eid q"
    "\<not> has_open_task tid eid db" "list_ex (unused_link tid l) (public_links db)"
    "t = (booking_task il tid q d)\<lparr>t_id := next_id e db, t_createdAt := now e\<rparr>"
    "tasks db' = tasks db @ [t]" "public_links db' = public_links (use_link e tid l db)"
    "tenants db' = tenants db" "others tid db' = others tid db" "b = True"
    "\<exists>ev. outbox_events db' = outbox_events db @ [ev] \<and> ob_eventName ev = ''task.created''
       \<and> ob_payload ev = task_payload tid (t_id t) (Some CUSTOMER_LINK)"
proof -
  from assms obtain eid q t db2 where l: "pk_equipmentId l = Some eid" "list_ex (unused_link tid l) (public_links db)"
    and q: "List.find (own_equipment tid eid) (equipment db) = Some q"
    and no: "\<not> has_open_task tid eid (use_link e tid l db)"
    and t: "task_create e (booking_task il tid q d) (use_link e tid l db) = Inr (t, db2)"
    and db': "b = True" "db' = outbox_create e tid ''task.created'' (task_payload tid (t_id t) (Some CUSTOMER_LINK))
        (equipment_audit tid None ''task.booked_by_customer'' (t_id t)
          (JObj [(''via'', JStr ''public_link''), (''equipmentId'', JStr (eq_id q))]) db2)"
    by (auto simp: book_tx_def Let_def not_null_def split: if_splits option.splits sum.splits)
  note row = task_create_row [OF t]
  have "others tid db2 = others tid (use_link e tid l db)"
    by (rule others_task_create [OF t]) (simp add: booking_task_def)
  then have o: "others tid db' = others tid db" by (simp add: db'(2) others_use_link)
  have bt: "tenants (bump_id d) = tenants d" for d by (simp add: bump_id_def)
  have id: "next_id e (use_link e tid l db) = next_id e db" by (simp add: next_id_def use_link_def)
  from find_SomeD [OF q] no l row db'(1) o show thesis
    by (intro that [of eid q t]) (auto simp: db'(2) has_open_task_def id bt new_outbox_row_def equipment_audit_def)
qed

lemma book_cases:
  assumes "book il k e token d db = (r, db')"
  obtains (failed) err where "r = Inl err" "db' = db"
  | (booked) tid l b where "r = Inr b" "link_resolve k e token BOOKING db = (Inr (tid, l), db)"
      "list_all (window_ok (il_israel_today il (now e))) (br_windows d)" "book_tx il e d tid l db = Inr (b, db')"
proof -
  obtain r1 db1 where 1: "link_resolve k e token BOOKING db = (r1, db1)" by fastforce
  then have "db1 = db" by (rule link_resolve_state)
  with 1 assms show thesis
    by (cases r)
      (auto simp: book_def for_tenant_Inr for_tenant_Inl split: sum.splits prod.splits if_splits
        intro: failed booked)
qed

definition open_visits :: "string \<Rightarrow> string \<Rightarrow> db \<Rightarrow> task list" where
  "open_visits tid eid db = filter (\<lambda>t. t_tenantId t = tid \<and> t_equipmentId t = Some eid \<and> open_status (t_status t)) (tasks db)"

lemma has_open_task_visits: "has_open_task tid eid db \<longleftrightarrow> open_visits tid eid db \<noteq> []"
  by (auto simp: has_open_task_def open_visits_def list_ex_iff filter_empty_conv)

lemma booking_task_simps [simp]:
  "t_tenantId (booking_task il tid q d) = tid" "t_equipmentId (booking_task il tid q d) = Some (eq_id q)"
  "t_status (booking_task il tid q d) = NEW" "t_customerId (booking_task il tid q d) = eq_customerId q"
  by (simp_all add: booking_task_def)

text \<open>C18. No booking, whatever its outcome, takes any equipment beyond one open visit.\<close>
theorem booking_never_doubles:
  assumes "book il k e token d db = (r, db')" and "length (open_visits tid eid db) \<le> 1"
  shows "length (open_visits tid eid db') \<le> 1"
  using assms(1)
proof (cases rule: book_cases)
  case failed
  with assms(2) show ?thesis by simp
next
  case (booked tid' l b)
  from booked(4) show ?thesis
  proof (rule book_tx_Inr)
    fix eid' q t assume q: "own_equipment tid' eid' q" and no: "\<not> has_open_task tid' eid' db"
      and t: "t = (booking_task il tid' q d)\<lparr>t_id := next_id e db, t_createdAt := now e\<rparr>" "tasks db' = tasks db @ [t]"
    from no have "open_visits tid' eid' db = []" by (simp add: has_open_task_visits)
    moreover have "t_tenantId t = tid'" "t_equipmentId t = Some eid'"
      using q by (simp_all add: t(1) own_equipment_def)
    ultimately show ?thesis
      using assms(2) by (cases "tid = tid' \<and> eid = eid'") (auto simp: open_visits_def t(2))
  qed
qed

text \<open>A successful booking, for allowed dates only, opens exactly one visit for an equipment
  that had none, uses the link up, and a second booking through the same link is refused.\<close>
theorem booking_opens_one_visit:
  assumes "book il k e token d db = (Inr b, db')"
  shows "\<exists>tid l eid t. link_resolve k e token BOOKING db = (Inr (tid, l), db)
    \<and> pk_equipmentId l = Some eid \<and> open_visits tid eid db = [] \<and> open_visits tid eid db' = [t]
    \<and> tasks db' = tasks db @ [t] \<and> t_status t = NEW \<and> others tid db' = others tid db
    \<and> list_all (window_ok (il_israel_today il (now e))) (br_windows d)
    \<and> (\<exists>err. book_tx il e' d' tid l db' = Inl (Conflict err))"
  using assms(1)
proof (cases rule: book_cases)
  case (booked tid l b')
  from booked(4) show ?thesis
  proof (rule book_tx_Inr)
    fix eid q t assume l: "pk_equipmentId l = Some eid" and q: "own_equipment tid eid q"
      and no: "\<not> has_open_task tid eid db" and un: "list_ex (unused_link tid l) (public_links db)"
      and t: "t = (booking_task il tid q d)\<lparr>t_id := next_id e db, t_createdAt := now e\<rparr>" "tasks db' = tasks db @ [t]"
      and pl: "public_links db' = public_links (use_link e tid l db)" and o: "others tid db' = others tid db"
    have visits: "open_visits tid eid db = []" using no by (simp add: has_open_task_visits)
    then have "open_visits tid eid db' = [t]"
      using q by (simp add: open_visits_def t(2)) (simp add: t(1) own_equipment_def)
    moreover have "\<not> list_ex (unused_link tid l) (public_links db')"
      unfolding pl by (rule unused_after_use)
    then have "\<exists>err. book_tx il e' d' tid l db' = Inl (Conflict err)" by (simp add: book_tx_def)
    moreover have "t_status t = NEW" by (simp add: t(1))
    ultimately show ?thesis using booked(2,3) l visits t(2) o by blast
  qed
qed simp

text \<open>The due list is sorted by due date, capped at 200, contains only active equipment of
  the tenant that is due and has no open visit, and all of it when the cap is not reached.\<close>
theorem due_list_exact:
  assumes "due e tid w db = (Inr rows, db')"
  shows "db' = db \<and> sorted (map du_dueAt rows) \<and> length rows \<le> 200
    \<and> (\<forall>r \<in> set rows. \<exists>q \<in> set (equipment db). r = due_row_of e db q \<and> is_due e tid (or_else w 14) db q)
    \<and> (length rows < 200 \<longrightarrow> du_equipmentId ` set rows = {eq_id q |q. q \<in> set (equipment db) \<and> is_due e tid (or_else w 14) db q})"
proof -
  let ?qs = "sort_key due_at (filter (is_due e tid (or_else w 14) db) (equipment db))"
  from assms have r: "db' = db" "rows = map (due_row_of e db) (take max_due_rows ?qs)"
    by (auto simp: due_def for_tenant_Inr)
  have at_: "du_dueAt (due_row_of e db q) = due_at q" "du_equipmentId (due_row_of e db q) = eq_id q" for q
    by (simp_all add: due_row_of_def Let_def)
  have "map du_dueAt rows = take max_due_rows (map due_at ?qs)"
    by (simp add: r(2) comp_def at_ take_map)
  then have "sorted (map du_dueAt rows)" by (metis sorted_sort_key sorted_wrt_take)
  moreover have "\<forall>r \<in> set rows. \<exists>q \<in> set (equipment db). r = due_row_of e db q \<and> is_due e tid (or_else w 14) db q"
    using r(2) by (auto dest!: in_set_takeD)
  moreover have "length rows < 200 \<longrightarrow> du_equipmentId ` set rows = {eq_id q |q. q \<in> set (equipment db) \<and> is_due e tid (or_else w 14) db q}"
  proof
    assume "length rows < 200"
    then have "take max_due_rows ?qs = ?qs" by (simp add: r(2) max_due_rows_def)
    then have "set rows = due_row_of e db ` set ?qs" by (simp add: r(2))
    then show "du_equipmentId ` set rows = {eq_id q |q. q \<in> set (equipment db) \<and> is_due e tid (or_else w 14) db q}"
      by (auto simp: image_image at_)
  qed
  ultimately show ?thesis using r by (auto simp: max_due_rows_def)
qed

section \<open>Instances\<close>

definition demo_equipment :: equipment_row where
  "demo_equipment = \<lparr>eq_id = ''e1'', eq_tenantId = demo_tenant, eq_customerId = ''c1'', eq_kind = ''AC'',
     eq_model = None, eq_location = None, eq_serviceIntervalMonths = 6, eq_lastServicedAt = None,
     eq_lastReminderAt = None, eq_isActive = True, eq_createdAt = 0\<rparr>"

definition demo_booking_link :: public_link where
  "demo_booking_link = \<lparr>pk_id = ''l1'', pk_tenantId = demo_tenant, pk_tokenHash = lk_hash demo_keys (lk_token demo_keys 0),
     pk_purpose = BOOKING, pk_customerId = ''c1'', pk_taskId = None, pk_equipmentId = Some ''e1'',
     pk_quoteId = None, pk_expiresAt = 9000, pk_usedAt = None, pk_revokedAt = None, pk_createdAt = 1000\<rparr>"

definition demo_booking_db :: db where
  "demo_booking_db = demo_link_db\<lparr>public_links := [demo_booking_link], equipment := [demo_equipment]\<rparr>"

definition demo_request :: booking_request where
  "demo_request = \<lparr>br_windows = [(''2026-09-25'', Noon)], br_note = None\<rparr>"

lemma demo_booking_resolved:
  "link_resolve demo_keys demo_env (lk_token demo_keys 0) BOOKING demo_booking_db
     = (Inr (demo_tenant, demo_booking_link), demo_booking_db)"
  by (simp add: link_resolve_def demo_token_ok resolve_public_link_def for_tenant_def live_link_def
      demo_booking_db_def demo_booking_link_def demo_link_db_def demo_env_def)

lemma demo_window: "window_ok ''2026-09-20'' (''2026-09-25'', Noon)"
  by code_simp

lemma demo_booked:
  "\<exists>b db'. book demo_intl demo_keys demo_env (lk_token demo_keys 0) demo_request demo_booking_db = (Inr b, db')"
proof -
  have "\<exists>db'. book_tx demo_intl demo_env demo_request demo_tenant demo_booking_link demo_booking_db = Inr (True, db')"
    by (simp add: book_tx_def Let_def unused_link_def not_null_def own_equipment_def has_open_task_def task_create_def
      booking_task_def use_link_def update_rows_def demo_booking_link_def demo_booking_db_def demo_link_db_def
      demo_equipment_def demo_defs)
  moreover have "list_all (window_ok (il_israel_today demo_intl (now demo_env))) (br_windows demo_request)"
    using demo_window by (simp add: demo_intl_def demo_request_def)
  ultimately show ?thesis by (auto simp: book_def demo_booking_resolved for_tenant_def)
qed

lemma demo_no_visits: "open_visits demo_tenant ''e1'' demo_booking_db = []"
  by (simp add: open_visits_def demo_booking_db_def demo_link_db_def demo_defs)

theorem booking_never_doubles_witness:
  "\<exists>b db'. book demo_intl demo_keys demo_env (lk_token demo_keys 0) demo_request demo_booking_db = (Inr b, db')
     \<and> length (open_visits demo_tenant ''e1'' db') \<le> 1"
proof -
  from demo_booked obtain b db' where
    run: "book demo_intl demo_keys demo_env (lk_token demo_keys 0) demo_request demo_booking_db = (Inr b, db')" by blast
  have "length (open_visits demo_tenant ''e1'' demo_booking_db) \<le> 1" by (simp add: demo_no_visits)
  from booking_never_doubles [OF run this] run show ?thesis by blast
qed

theorem booking_opens_one_visit_witness:
  "\<exists>b db' t. book demo_intl demo_keys demo_env (lk_token demo_keys 0) demo_request demo_booking_db = (Inr b, db')
     \<and> tasks db' = tasks demo_booking_db @ [t] \<and> t_status t = NEW"
proof -
  from demo_booked obtain b db' where
    run: "book demo_intl demo_keys demo_env (lk_token demo_keys 0) demo_request demo_booking_db = (Inr b, db')" by blast
  from booking_opens_one_visit [OF run, of demo_env demo_request] run show ?thesis by blast
qed

theorem due_list_exact_witness:
  "\<exists>rows db'. due \<lparr>now = 20000000000, uuid = (\<lambda>n. [])\<rparr> demo_tenant None demo_booking_db = (Inr rows, db')
     \<and> rows \<noteq> [] \<and> length rows \<le> 200"
proof -
  let ?e = "\<lparr>now = 20000000000, uuid = (\<lambda>n. [])\<rparr> :: env"
  obtain rows db' where run: "due ?e demo_tenant None demo_booking_db = (Inr rows, db')"
    by (simp add: due_def for_tenant_def)
  have "add_months 6 0 \<le> 20000000000 + 14 * ms_per_day" by code_simp
  then have "is_due ?e demo_tenant 14 demo_booking_db demo_equipment"
    by (simp add: is_due_def due_at_def due_customer_def has_open_task_def demo_equipment_def demo_booking_db_def
      demo_link_db_def demo_defs)
  moreover have "demo_equipment \<in> set (equipment demo_booking_db)" by (simp add: demo_booking_db_def)
  ultimately have "rows \<noteq> []" using due_list_exact [OF run] by auto
  with due_list_exact [OF run] run show ?thesis by blast
qed

end
