(* ===== verification/Bytes.thy ===== *)
theory Bytes
  imports Prelude
begin

text \<open>
  Texts as bytes: UTF-16 lengths and cuts of UTF-8 texts, substrings, and the hexadecimal
  form of Node's Buffer.
\<close>

text \<open>The number of UTF-16 units of a UTF-8 text.\<close>

definition js_length :: "string \<Rightarrow> nat" where
  "js_length s = length (filter (\<lambda>c. (of_char c :: nat) div 64 \<noteq> 2) s) + length (filter (\<lambda>c. 240 \<le> (of_char c :: nat)) s)"

fun has_infix :: "string \<Rightarrow> string \<Rightarrow> bool" where
  "has_infix p [] = (p = [])"
| "has_infix p (c # s) = (starts_with p (c # s) \<or> has_infix p s)"

text \<open>
  \<open>slice(0, n)\<close>, which counts UTF-16 units: the whole characters within the first
  \<open>n\<close> units. (Half of a surrogate pair, which JavaScript would keep, is no text.)
\<close>

definition point_bytes :: "char \<Rightarrow> nat" where
  "point_bytes c = (let n = (of_char c :: nat) in if n < 192 then 1 else if n < 224 then 2 else if n < 240 then 3 else 4)"

function js_take :: "nat \<Rightarrow> string \<Rightarrow> string" where
  "js_take n [] = []"
| "js_take n (c # s) =
     (let k = point_bytes c; u = (if k = 4 then 2 else 1)
      in if n < u then [] else take k (c # s) @ js_take (n - u) (drop k (c # s)))"
  by pat_completeness auto
termination
  by (relation "measure (length \<circ> snd)") (auto simp: point_bytes_def Let_def)

definition contains_ci :: "string \<Rightarrow> string \<Rightarrow> bool" where
  "contains_ci p s \<longleftrightarrow> has_infix p (to_lower s)"

section \<open>Hexadecimal\<close>

definition hex_lower :: "nat \<Rightarrow> char" where
  "hex_lower n = (if n < 10 then char_of (48 + n) else char_of (87 + n))"

definition hex_val :: "char \<Rightarrow> nat" where
  "hex_val c = (let n = (of_char c :: nat) in if n < 58 then n - 48 else if n < 71 then n - 55 else n - 87)"

definition hex_encode :: "string \<Rightarrow> string" where
  "hex_encode s = concat (map (\<lambda>c. [hex_lower (of_char c div 16), hex_lower (of_char c mod 16)]) s)"

text \<open>\<open>Buffer.from(text, 'hex')\<close> stops at the first pair that is not hexadecimal.\<close>

fun hex_decode :: "string \<Rightarrow> string" where
  "hex_decode (a # b # s) = (if is_hex a \<and> is_hex b then char_of (16 * hex_val a + hex_val b) # hex_decode s else [])"
| "hex_decode _ = []"

lemma hex_lower_facts:
  assumes "d < 16"
  shows "is_hex (hex_lower d)" and "hex_val (hex_lower d) = d" and "hex_lower d \<noteq> CHR '':''"
    and "is_digit (hex_lower d) \<or> is_lower (hex_lower d)"
proof -
  have n: "(of_char (hex_lower d) :: nat) = (if d < 10 then 48 + d else 87 + d)"
    using assms by (simp add: hex_lower_def)
  show "is_hex (hex_lower d)" "hex_val (hex_lower d) = d" "is_digit (hex_lower d) \<or> is_lower (hex_lower d)"
    using assms by (simp_all add: is_hex_def hex_val_def is_digit_def is_lower_def n)
  show "hex_lower d \<noteq> CHR '':''"
  proof
    assume "hex_lower d = CHR '':''"
    then have "(of_char (hex_lower d) :: nat) = 58" by simp
    with n show False by (simp split: if_splits)
  qed
qed

lemma byte_halves: "(of_char (c :: char) :: nat) div 16 < 16" "(of_char (c :: char) :: nat) mod 16 < 16"
proof -
  have "(of_char c :: nat) \<in> {0..<256}" using range_nat_of_char by (metis rangeI)
  then show "(of_char c :: nat) div 16 < 16" by (auto intro: less_mult_imp_div_less)
qed simp

lemma hex_roundtrip [simp]: "hex_decode (hex_encode s) = s"
proof (induction s)
  case (Cons c s)
  have "16 * ((of_char c :: nat) div 16) + of_char c mod 16 = of_char c" by simp
  then show ?case
    using Cons hex_lower_facts [OF byte_halves(1) [of c]] hex_lower_facts [OF byte_halves(2) [of c]]
    by (simp add: hex_encode_def)
qed (simp add: hex_encode_def)

lemma hex_encode_chars:
  assumes "x \<in> set (hex_encode s)"
  shows "x \<noteq> CHR '':'' \<and> (is_digit x \<or> is_lower x)"
proof -
  from assms obtain c where "x = hex_lower (of_char c div 16) \<or> x = hex_lower (of_char c mod 16)"
    by (auto simp: hex_encode_def)
  then show ?thesis
    using hex_lower_facts(3,4) [OF byte_halves(1) [of c]] hex_lower_facts(3,4) [OF byte_halves(2) [of c]] by metis
qed

lemma hex_encode_empty [simp]: "hex_encode s = [] \<longleftrightarrow> s = []"
  by (auto simp add: hex_encode_def concat_eq_Nil_conv)

end
