(* ===== verification/Comms.thy ===== *)
theory Comms
  imports Database Bytes
begin

text \<open>
  modules/comms: the e-mails to customers. The recipient check, the template substitution and
  the draft are the repository's; sending goes through the Google connector of the tenant and
  is the parameter \<open>mailer\<close>.
\<close>

section \<open>email-address.util.ts\<close>

definition atom_specials :: string where
  "atom_specials = ''!#$%&*+/=?^_`{|}~-'' @ [CHR 0x27]"

definition atom_char :: "char \<Rightarrow> bool" where
  "atom_char c \<longleftrightarrow> is_alnum c \<or> c \<in> set atom_specials"

definition local_part :: "string \<Rightarrow> bool" where
  "local_part s \<longleftrightarrow> list_all (\<lambda>p. p \<noteq> [] \<and> list_all atom_char p) (split_on CHR ''.'' s)"

definition domain_label :: "string \<Rightarrow> bool" where
  "domain_label p \<longleftrightarrow> p \<noteq> [] \<and> is_alnum (hd p) \<and> is_alnum (last p)
     \<and> list_all (\<lambda>c. is_alnum c \<or> c = CHR ''-'') p"

definition mail_domain :: "string \<Rightarrow> bool" where
  "mail_domain s \<longleftrightarrow> 2 \<le> length (split_on CHR ''.'' s) \<and> list_all domain_label (split_on CHR ''.'' s)"

definition address_re :: "string \<Rightarrow> bool" where
  "address_re s = (case split_on CHR ''@'' s of [l, d] \<Rightarrow> local_part l \<and> mail_domain d | _ \<Rightarrow> False)"

text \<open>CR, LF, NUL, and U+2028 and U+2029 as their UTF-8 bytes.\<close>

definition forbidden_re :: "string \<Rightarrow> bool" where
  "forbidden_re s \<longleftrightarrow> list_ex (\<lambda>c. c \<in> {CHR 0x00, CHR 0x0A, CHR 0x0D}) s
     \<or> has_infix [CHR 0xE2, CHR 0x80, CHR 0xA8] s \<or> has_infix [CHR 0xE2, CHR 0x80, CHR 0xA9] s"

text \<open>\<open>/^[^<>]*<([^<>]+)>$/\<close>, with its group.\<close>

definition angled :: "string \<Rightarrow> string option" where
  "angled s =
     (case dropWhile (\<lambda>c. c \<notin> set ''<>'') s of
        [] \<Rightarrow> None
      | c # r \<Rightarrow>
          if c = CHR ''<'' \<and> r \<noteq> [] \<and> last r = CHR ''>'' \<and> butlast r \<noteq> []
             \<and> list_all (\<lambda>c. c \<notin> set ''<>'') (butlast r)
          then Some (butlast r) else None)"

definition normalize_recipient :: "string option \<Rightarrow> string option" where
  "normalize_recipient raw =
     (case raw of
        None \<Rightarrow> None
      | Some r \<Rightarrow>
          if r = [] \<or> 320 < js_length r then None
          else if forbidden_re r then None
          else let trimmed = trim r; address = trim (or_else (angled trimmed) trimmed)
               in if address = [] \<or> 254 < js_length address then None
                  else if list_ex (\<lambda>c. c \<in> set '',;'' \<or> is_ws c) address then None
                  else if \<not> address_re address then None
                  else Some address)"

section \<open>template-renderer.util.ts\<close>

definition word_char :: "char \<Rightarrow> bool" where
  "word_char c \<longleftrightarrow> is_alnum c \<or> c = CHR ''_''"

text \<open>
  \<open>vars[key]\<close> on an object literal: its own keys, then what every object inherits, as
  \<open>replace\<close> turns it into text.
\<close>

definition prototype_functions :: "string list" where
  "prototype_functions = [''toString'', ''toLocaleString'', ''valueOf'', ''hasOwnProperty'', ''isPrototypeOf'',
     ''propertyIsEnumerable'', ''__defineGetter__'', ''__defineSetter__'', ''__lookupGetter__'', ''__lookupSetter__'']"

definition js_property :: "(string \<times> string) list \<Rightarrow> string \<Rightarrow> string option" where
  "js_property vars key =
     (case map_of vars key of
        Some v \<Rightarrow> Some v
      | None \<Rightarrow>
          if key = ''constructor'' then Some ''function Object() { [native code] }''
          else if key = ''__proto__'' then Some ''[object Object]''
          else if key \<in> set prototype_functions then Some (''function '' @ key @ ''() { [native code] }'')
          else None)"

function render_template :: "(string \<times> string) list \<Rightarrow> string \<Rightarrow> string" where
  "render_template vars [] = []"
| "render_template vars (c # s) =
     (let key = takeWhile word_char s; r = dropWhile word_char s
      in if c = CHR ''{'' \<and> key \<noteq> [] \<and> r \<noteq> [] \<and> hd r = CHR ''}''
         then or_else (js_property vars key) (''{'' @ key @ ''}'') @ render_template vars (tl r)
         else c # render_template vars s)"
  by pat_completeness auto
termination
  by (relation "measure (length \<circ> snd)")
    (auto simp: less_Suc_eq_le intro: le_trans [OF diff_le_self] length_dropWhile_le)

section \<open>comms.service.ts\<close>

datatype template_key = Task_created_mail | Task_closed_mail

fun key_name :: "template_key \<Rightarrow> string" where
  "key_name Task_created_mail = ''taskCreated''"
| "key_name Task_closed_mail = ''taskClosed''"

record email_draft =
  dm_to :: string
  dm_subject :: string
  dm_body :: string

fun subject_for :: "template_key \<Rightarrow> string \<Rightarrow> string" where
  "subject_for Task_closed_mail title = (utf8 [1492, 1506, 1489, 1493, 1491, 1492, 32, 1492, 1493, 1513, 1500, 1502, 1492, 58, 32]) @ title"
| "subject_for Task_created_mail title = (utf8 [1511, 1497, 1489, 1500, 1504, 1493, 32, 1488, 1514, 32, 1508, 1504, 1497, 1497, 1514, 1498, 58, 32]) @ title"

text \<open>The checklist entries that are objects with a textual label: label and done.\<close>

definition to_checklist :: "json option \<Rightarrow> (string \<times> bool) list" where
  "to_checklist v =
     (case v of
        Some (JArr items) \<Rightarrow> List.map_filter (\<lambda>i. case jget ''label'' i of
            Some (JStr s) \<Rightarrow> Some (s, jtruthy (jget ''done'' i)) | _ \<Rightarrow> None) items
      | _ \<Rightarrow> [])"

definition checklist_summary :: "json option \<Rightarrow> string" where
  "checklist_summary v =
     (let s = join_with '', '' (map fst (filter snd (to_checklist v)))
      in if s = [] then (utf8 [1500, 1500, 1488, 32, 1508, 1497, 1512, 1493, 1496, 32, 1494, 1502, 1497, 1503]) else s)"

definition draft_source :: "string \<Rightarrow> string \<Rightarrow> (task \<times> customer \<times> json option) tx" where
  "draft_source tid taskId db =
     (case List.find (\<lambda>t. t_id t = taskId \<and> t_tenantId t = tid) (tasks db) of
        None \<Rightarrow> Inl (NotFound ''Task not found'')
      | Some t \<Rightarrow>
          (case List.find (\<lambda>c. c_id c = t_customerId t) (customers db) of
             None \<Rightarrow> Inl (Thrown ''Inconsistent query result'')
           | Some c \<Rightarrow> Inr ((t, c, map_option cf_emailTemplates
               (List.find (\<lambda>f. cf_tenantId f = tid) (tenant_configs db))), db)))"

definition no_recipient :: "customer \<Rightarrow> string" where
  "no_recipient c =
     (if truthy (c_email c)
      then ''customer email address is not a single valid address - refusing to build an outgoing header from it''
      else ''customer has no email address on file'')"

definition template_of :: "template_key \<Rightarrow> json option \<Rightarrow> string option" where
  "template_of key templates =
     (let s = (case templates of Some j \<Rightarrow> jstr_opt (jget (key_name key) j) | None \<Rightarrow> None)
      in if truthy s then s else None)"

definition no_template :: "template_key \<Rightarrow> string" where
  "no_template key = ''no '' @ [CHR 0x22] @ key_name key @ [CHR 0x22] @ '' template configured in TenantConfig.emailTemplates''"

definition draft_of :: "template_key \<Rightarrow> task \<times> customer \<times> json option \<Rightarrow> string + email_draft" where
  "draft_of key src =
     (let (t, c, templates) = src
      in case normalize_recipient (c_email c) of
           None \<Rightarrow> Inl (no_recipient c)
         | Some to' \<Rightarrow>
             (case template_of key templates of
                None \<Rightarrow> Inl (no_template key)
              | Some template \<Rightarrow>
                  Inr \<lparr>dm_to = to', dm_subject = subject_for key (t_title t),
                       dm_body = render_template [(''customerName'', c_name c),
                         (''checklistSummary'', checklist_summary (t_checklist t)), (''taskTitle'', t_title t)] template\<rparr>))"

definition build_draft :: "string \<Rightarrow> string \<Rightarrow> template_key \<Rightarrow> (string + email_draft) svc" where
  "build_draft tid taskId key db =
     (case for_tenant tid (draft_source tid taskId) db of
        (Inl err, db1) \<Rightarrow> (Inl err, db1)
      | (Inr src, db1) \<Rightarrow> (Inr (draft_of key src), db1))"

type_synonym mailer = "string \<Rightarrow> email_draft \<Rightarrow> unit svc"

record send_result =
  sd_sent :: bool
  sd_reason :: "string option"

definition send_template_email :: "mailer \<Rightarrow> string \<Rightarrow> string \<Rightarrow> template_key \<Rightarrow> send_result svc" where
  "send_template_email mailer tid taskId key db =
     (case build_draft tid taskId key db of
        (Inl err, db1) \<Rightarrow> (Inl err, db1)
      | (Inr (Inl reason), db1) \<Rightarrow> (Inr \<lparr>sd_sent = False, sd_reason = Some reason\<rparr>, db1)
      | (Inr (Inr draft), db1) \<Rightarrow>
          (case mailer tid draft db1 of
             (Inr _, db2) \<Rightarrow> (Inr \<lparr>sd_sent = True, sd_reason = None\<rparr>, db2)
           | (Inl _, db2) \<Rightarrow> (Inr \<lparr>sd_sent = False, sd_reason =
               Some ''send failed - see server logs (likely Gmail not connected for this tenant)''\<rparr>, db2)))"

definition resend_closed_email :: "mailer \<Rightarrow> string \<Rightarrow> string \<Rightarrow> send_result svc" where
  "resend_closed_email mailer tid taskId = send_template_email mailer tid taskId Task_closed_mail"

definition comms_task_created :: "mailer \<Rightarrow> string \<Rightarrow> string \<Rightarrow> string \<Rightarrow> unit svc" where
  "comms_task_created mailer tid taskId source db =
     (if source \<noteq> ''EMAIL'' then (Inr (), db)
      else (Inr (), snd (send_template_email mailer tid taskId Task_created_mail db)))"

definition comms_task_closed :: "mailer \<Rightarrow> string \<Rightarrow> string \<Rightarrow> unit svc" where
  "comms_task_closed mailer tid taskId db =
     (Inr (), snd (send_template_email mailer tid taskId Task_closed_mail db))"

section \<open>Recipients\<close>

text \<open>The characters that may stand in an address: none of them can end or split a header.\<close>

definition address_char :: "char \<Rightarrow> bool" where
  "address_char c \<longleftrightarrow> atom_char c \<or> c = CHR ''.'' \<or> c = CHR ''@''"

lemma atom_chars: "is_alnum c \<Longrightarrow> atom_char c" "atom_char CHR ''-''"
  by (simp add: atom_char_def) code_simp

text \<open>What a harmless character is, and that only such characters occur in an address.\<close>

definition harmless :: "char \<Rightarrow> bool" where
  "harmless c \<longleftrightarrow> 32 < (of_char c :: nat) \<and> (of_char c :: nat) < 127 \<and> c \<notin> set ''<>,;''"

lemma alnum_range: "is_alnum c \<Longrightarrow> 47 < (of_char c :: nat) \<and> (of_char c :: nat) < 123"
  by (auto simp: is_alnum_def is_digit_def is_upper_def is_lower_def)

lemma not_alnum: "list_all (\<lambda>c. \<not> is_alnum c) ''<>,;@''"
  by code_simp

lemma specials_harmless: "list_all (\<lambda>c. harmless c \<and> c \<noteq> CHR ''@'') (''.'' @ atom_specials)"
  by code_simp

lemma atom_harmless: "atom_char c \<Longrightarrow> harmless c \<and> c \<noteq> CHR ''@''"
proof -
  assume "atom_char c"
  then consider "is_alnum c" | "c \<in> set atom_specials" by (auto simp: atom_char_def)
  then show ?thesis
  proof cases
    case 1
    with alnum_range [OF 1] not_alnum show ?thesis by (auto simp: harmless_def)
  next
    case 2
    with specials_harmless show ?thesis by (simp add: list_all_iff)
  qed
qed

lemma address_harmless: "address_char c \<Longrightarrow> harmless c"
proof -
  have "harmless CHR ''@''" "harmless CHR ''.''" by code_simp+
  then show "address_char c \<Longrightarrow> harmless c" using atom_harmless by (auto simp: address_char_def)
qed

lemma domain_label_chars: "domain_label p \<Longrightarrow> list_all atom_char p"
  using atom_chars by (auto simp: domain_label_def list_all_iff)

lemma split_on_all:
  assumes "list_all (list_all P) (split_on c s)"
  shows "list_all (\<lambda>x. P x \<or> x = c) s"
  using assms by (induction s) (auto split: list.splits if_splits)

lemma split_on_two: "split_on c s = [l, d] \<Longrightarrow> s = l @ c # d"
proof (induction s arbitrary: l)
  case Nil
  then show ?case by simp
next
  case (Cons x s)
  show ?case
  proof (cases "x = c")
    case True
    with Cons.prems have l: "l = []" "split_on c s = [d]" by auto
    have "s = d" using l(2)
    proof (induction s arbitrary: d)
      case (Cons y s)
      then show ?case by (auto split: if_splits list.splits)
    qed simp
    with True l show ?thesis by simp
  next
    case False
    with Cons.prems obtain p ps where p: "split_on c s = p # ps" "l = x # p" "ps = [d]"
      by (auto split: list.splits)
    with Cons.IH [of p] show ?thesis by simp
  qed
qed

lemma address_re_form:
  assumes "address_re s"
  shows "\<exists>l d. s = l @ CHR ''@'' # d \<and> CHR ''@'' \<notin> set l \<and> CHR ''@'' \<notin> set d \<and> list_all address_char s"
proof -
  from assms obtain l d where p: "split_on CHR ''@'' s = [l, d]" "local_part l" "mail_domain d"
    by (auto simp: address_re_def split: list.splits)
  have l: "list_all (\<lambda>x. atom_char x \<or> x = CHR ''.'') l"
    by (rule split_on_all) (use p(2) in \<open>auto simp: local_part_def list_all_iff\<close>)
  have d: "list_all (\<lambda>x. atom_char x \<or> x = CHR ''.'') d"
    by (rule split_on_all) (use p(3) domain_label_chars in \<open>auto simp: mail_domain_def list_all_iff\<close>)
  have "list_all address_char l" "list_all address_char d"
    using l d by (auto simp: list_all_iff address_char_def)
  moreover have "address_char CHR ''@''" by (simp add: address_char_def)
  moreover have "s = l @ CHR ''@'' # d" by (rule split_on_two [OF p(1)])
  moreover have "CHR ''@'' \<notin> set l" "CHR ''@'' \<notin> set d"
    by (rule split_on_parts [of _ _ s]; simp add: p(1))+
  ultimately show ?thesis by (intro exI [of _ l] exI [of _ d]) simp
qed

lemma harmless_not: "harmless c \<Longrightarrow> c \<notin> set ''<>'' \<and> c \<notin> set '',;'' \<and> \<not> is_ws c \<and> (of_char c :: nat) < 128"
proof -
  assume h: "harmless c"
  have sub: "set ''<>'' \<subseteq> set ''<>,;''" "set '',;'' \<subseteq> set ''<>,;''" by simp_all
  have r: "32 < (of_char c :: nat)" "(of_char c :: nat) < 127" and n: "c \<notin> set ''<>,;''"
    using h unfolding harmless_def by blast+
  from r(1) have "\<not> is_ws c" unfolding is_ws_def by (intro notI) (elim insertE, simp_all)
  with r(2) n sub show ?thesis by (intro conjI) (blast, blast, blast, linarith)
qed

lemma normalize_recipient_Some:
  assumes "normalize_recipient raw = Some a"
  shows "address_re a" "a \<noteq> []" "js_length a \<le> 254"
  using assms by (auto simp: normalize_recipient_def Let_def split: option.splits if_splits)

lemma js_length_ascii: "list_all (\<lambda>c. (of_char c :: nat) < 128) s \<Longrightarrow> js_length s = length s"
proof -
  assume a: "list_all (\<lambda>c. (of_char c :: nat) < 128) s"
  have "(n :: nat) < 128 \<Longrightarrow> n div 64 \<noteq> 2" for n by simp
  with a have "filter (\<lambda>c. (of_char c :: nat) div 64 \<noteq> 2) s = s"
    by (intro filter_True) (auto simp: list_all_iff)
  moreover have "filter (\<lambda>c. 240 \<le> (of_char c :: nat)) s = []"
    using a by (auto simp: list_all_iff filter_empty_conv)
  ultimately show ?thesis by (simp add: js_length_def)
qed

lemma has_infix_high:
  assumes "list_all (\<lambda>c. (of_char c :: nat) < 128) s" and "p \<noteq> []" and "128 \<le> (of_char (hd p) :: nat)"
  shows "\<not> has_infix p s"
  using assms
proof (induction s)
  case (Cons x s)
  then have "\<not> starts_with p (x # s)" by (cases p) (auto simp: starts_with_def)
  with Cons show ?case by simp
qed simp

lemma forbidden_address: "list_all harmless a \<Longrightarrow> \<not> forbidden_re a"
proof -
  assume "list_all harmless a"
  then have r: "list_all (\<lambda>c. (of_char c :: nat) < 128) a" "\<forall>c \<in> set a. 32 < (of_char c :: nat)"
    unfolding list_all_iff harmless_def by force+
  have "\<not> has_infix [CHR 0xE2, CHR 0x80, CHR 0xA8] a" "\<not> has_infix [CHR 0xE2, CHR 0x80, CHR 0xA9] a"
    by (rule has_infix_high [OF r(1)]; simp)+
  moreover have "\<not> list_ex (\<lambda>c. c \<in> {CHR 0x00, CHR 0x0A, CHR 0x0D}) a"
  proof
    assume "list_ex (\<lambda>c. c \<in> {CHR 0x00, CHR 0x0A, CHR 0x0D}) a"
    then obtain c where "c \<in> set a" "c \<in> {CHR 0x00, CHR 0x0A, CHR 0x0D}" unfolding list_ex_iff by blast
    with r(2) show False by auto
  qed
  ultimately show ?thesis by (simp add: forbidden_re_def)
qed

lemma angled_none: "list_all (\<lambda>c. c \<notin> set ''<>'') s \<Longrightarrow> angled s = None"
proof -
  assume a: "list_all (\<lambda>c. c \<notin> set ''<>'') s"
  then have "dropWhile (\<lambda>c. c \<notin> set ''<>'') s = []" by (simp only: dropWhile_eq_Nil_conv list_all_iff)
  then show ?thesis unfolding angled_def by (simp only: list.case)
qed

lemma recipient_chars:
  assumes "normalize_recipient raw = Some a"
  shows "list_all harmless a \<and> count_list a CHR ''@'' = 1 \<and> length a \<le> 254 \<and> normalize_recipient (Some a) = Some a"
proof -
  note n = normalize_recipient_Some [OF assms]
  from address_re_form [OF n(1)] obtain l d where
    a: "a = l @ CHR ''@'' # d" "CHR ''@'' \<notin> set l" "CHR ''@'' \<notin> set d" "list_all address_char a" by blast
  have h: "list_all harmless a" using a(4) address_harmless by (auto simp: list_all_iff)
  have asc: "list_all (\<lambda>c. (of_char c :: nat) < 128) a" and ws: "list_all (\<lambda>c. \<not> is_ws c) a"
    and br: "list_all (\<lambda>c. c \<notin> set ''<>'') a" and sep: "\<not> list_ex (\<lambda>c. c \<in> set '',;'' \<or> is_ws c) a"
    using h harmless_not unfolding list_all_iff list_ex_iff by blast+
  have len: "js_length a = length a" by (rule js_length_ascii [OF asc])
  have "normalize_recipient (Some a) = Some a"
    using n len sep forbidden_address [OF h]
    by (simp add: normalize_recipient_def Let_def trim_no_ws [OF ws] angled_none [OF br])
  moreover have "count_list a CHR ''@'' = 1" using a(2,3) by (simp add: a(1) count_notin)
  ultimately show ?thesis using n(3) len h by simp
qed

text \<open>An address that passes the recipient check has exactly one @ and only characters that
  can neither end nor split a mail header.\<close>
theorem recipient_is_one_address:
  assumes "normalize_recipient raw = Some a"
  shows "list_all (\<lambda>c. 32 < (of_char c :: nat) \<and> (of_char c :: nat) < 127 \<and> c \<notin> set ''<>,;'') a
    \<and> count_list a CHR ''@'' = 1 \<and> length a \<le> 254 \<and> normalize_recipient (Some a) = Some a"
  using recipient_chars [OF assms] unfolding harmless_def .

section \<open>Templates\<close>

text \<open>A template as its author sees it: literal text without braces, and named holes.\<close>

datatype segment = Lit string | Hole string

fun unparse :: "segment \<Rightarrow> string" where
  "unparse (Lit s) = s"
| "unparse (Hole k) = ''{'' @ k @ ''}''"

fun segment_ok :: "segment \<Rightarrow> bool" where
  "segment_ok (Lit s) = (CHR ''{'' \<notin> set s)"
| "segment_ok (Hole k) = (k \<noteq> [] \<and> list_all word_char k)"

fun segment_value :: "(string \<times> string) list \<Rightarrow> segment \<Rightarrow> string" where
  "segment_value vars (Lit s) = s"
| "segment_value vars (Hole k) = or_else (js_property vars k) (''{'' @ k @ ''}'')"

lemma render_literal: "CHR ''{'' \<notin> set s \<Longrightarrow> render_template vars (s @ t) = s @ render_template vars t"
  by (induction s) (auto simp: Let_def)

lemma render_hole:
  assumes "k \<noteq> []" and "list_all word_char k"
  shows "render_template vars (''{'' @ k @ ''}'' @ t) = or_else (js_property vars k) (''{'' @ k @ ''}'') @ render_template vars t"
proof -
  have w: "\<not> word_char CHR ''}''" by code_simp
  have "takeWhile word_char (k @ CHR ''}'' # t) = k" "dropWhile word_char (k @ CHR ''}'' # t) = CHR ''}'' # t"
    using assms(2) w by (simp_all add: list_all_iff takeWhile_append2 dropWhile_append2)
  with assms(1) show ?thesis by (simp add: Let_def)
qed

text \<open>Rendering a template replaces each placeholder once, from left to right, and never
  looks at a substituted value again.\<close>
theorem render_is_one_substitution:
  assumes "list_all segment_ok segs"
  shows "render_template vars (concat (map unparse segs)) = concat (map (segment_value vars) segs)"
  using assms
proof (induction segs)
  case (Cons g segs)
  then show ?case
  proof (cases g)
    case (Hole k)
    with Cons render_hole [of k vars "concat (map unparse segs)"] show ?thesis by simp
  qed (simp add: render_literal)
qed simp

section \<open>Drafts\<close>

lemma draft_source_Inr:
  assumes "draft_source tid taskId db = Inr (src, db')"
  shows "db' = db \<and> List.find (\<lambda>t. t_id t = taskId \<and> t_tenantId t = tid) (tasks db) = Some (fst src)
    \<and> List.find (\<lambda>c. c_id c = t_customerId (fst src)) (customers db) = Some (fst (snd src))"
  using assms by (auto simp: draft_source_def split: option.splits)

lemma build_draft_db: "snd (build_draft tid taskId key db) = db"
  by (auto simp: build_draft_def for_tenant_def draft_source_def split: option.splits sum.splits)

text \<open>A draft is addressed to the customer of the tenant's own task, at the checked form of
  the stored address.\<close>
theorem draft_goes_to_the_customer:
  assumes "build_draft tid taskId key db = (Inr (Inr d), db')"
  shows "db' = db \<and> (\<exists>t \<in> set (tasks db). \<exists>c \<in> set (customers db). t_id t = taskId \<and> t_tenantId t = tid
    \<and> c_id c = t_customerId t \<and> normalize_recipient (c_email c) = Some (dm_to d)
    \<and> dm_subject d = subject_for key (t_title t)
    \<and> list_all harmless (dm_to d))"
proof -
  from assms obtain src where s: "for_tenant tid (draft_source tid taskId) db = (Inr src, db')" "draft_of key src = Inr d"
    by (auto simp: build_draft_def split: prod.splits sum.splits)
  from s(1) have src: "draft_source tid taskId db = Inr (src, db')" by (simp add: for_tenant_Inr)
  obtain t c templates where p: "src = (t, c, templates)" by (cases src)
  from draft_source_Inr [OF src] have t: "List.find (\<lambda>t. t_id t = taskId \<and> t_tenantId t = tid) (tasks db) = Some t"
      "List.find (\<lambda>c. c_id c = t_customerId t) (customers db) = Some c" and "db' = db" by (simp_all add: p)
  from s(2) have n: "normalize_recipient (c_email c) = Some (dm_to d) \<and> dm_subject d = subject_for key (t_title t)"
    by (auto simp: p draft_of_def split: option.splits)
  then have "list_all harmless (dm_to d)" using recipient_chars by blast
  with n \<open>db' = db\<close> find_SomeD [OF t(1)] find_SomeD [OF t(2)] show ?thesis by blast
qed

section \<open>Instances\<close>

lemma demo_recipient: "normalize_recipient (Some ''Dana <dana@example.com>'') = Some ''dana@example.com''"
  by code_simp

theorem recipient_is_one_address_witness:
  "normalize_recipient (Some ''Dana <dana@example.com>'') = Some ''dana@example.com''
   \<and> count_list ''dana@example.com'' CHR ''@'' = 1"
  using recipient_is_one_address [OF demo_recipient] demo_recipient by blast

theorem render_is_one_substitution_witness:
  "render_template [(''name'', ''{x}'')] ''Hi {name}!'' = ''Hi {x}!''"
proof -
  have "list_all segment_ok [Lit ''Hi '', Hole ''name'', Lit ''!'']" by code_simp
  from render_is_one_substitution [OF this, of "[(''name'', ''{x}'')]"] show ?thesis by (simp add: js_property_def)
qed

definition demo_mail_db :: db where
  "demo_mail_db = demo_db\<lparr>tenant_configs := [\<lparr>cf_tenantId = demo_tenant, cf_enabledModules = JArr [], cf_theme = JObj [],
     cf_schedulingWeights = None, cf_emailTemplates = JObj [(''taskClosed'', JStr ''Hi'')],
     cf_llmMonthlyBudgetMinor = None\<rparr>]\<rparr>"

lemma demo_mail_address: "normalize_recipient (Some ''dana@example.com'') = Some ''dana@example.com''"
  by code_simp

theorem draft_goes_to_the_customer_witness:
  "\<exists>d. build_draft demo_tenant ''t1'' Task_closed_mail demo_mail_db = (Inr (Inr d), demo_mail_db)
     \<and> list_all harmless (dm_to d)"
proof -
  obtain d where run: "build_draft demo_tenant ''t1'' Task_closed_mail demo_mail_db = (Inr (Inr d), demo_mail_db)"
    by (simp add: build_draft_def for_tenant_def draft_source_def draft_of_def template_of_def demo_mail_address
      demo_mail_db_def demo_defs)
  from draft_goes_to_the_customer [OF run] run show ?thesis by blast
qed

end
