(* ===== verification/Outbox.thy ===== *)
theory Outbox
  imports Inventory Scheduling Invoicing Comms
begin

text \<open>
  src/queue: from an outbox row to its handlers. The publisher claims due rows
  (\<open>claim_outbox_batch\<close> of migration 0004) and pushes one job per row; the processor
  runs the handlers of a job and settles the row. The queue itself is BullMQ: a list of
  waiting jobs and the ids it still knows, with which it ignores a second job of the same id;
  whether a push succeeds is an input. \<open>mailer\<close> sends a draft and
  \<open>zod_uuid\<close> is zod's check of a UUID text.
\<close>

section \<open>queue.constants.ts\<close>

definition retry_attempts :: nat where
  "retry_attempts = 5"

record job =
  jb_outboxEventId :: string
  jb_tenantId :: string
  jb_eventName :: string
  jb_payload :: json
  jb_attemptsMade :: nat

section \<open>Claiming and settling rows\<close>

definition batch_size :: nat where
  "batch_size = 50"

definition claimable :: "env \<Rightarrow> outbox_event \<Rightarrow> bool" where
  "claimable e o' \<longleftrightarrow> ob_status o' = PENDING \<and> ob_nextAttemptAt o' \<le> now e"

definition claim_rows :: "env \<Rightarrow> nat \<Rightarrow> db \<Rightarrow> outbox_event list" where
  "claim_rows e limit db = take (max 1 (min limit 500)) (sort_key ob_createdAt (filter (claimable e) (outbox_events db)))"

definition claim_outbox_batch :: "env \<Rightarrow> nat \<Rightarrow> db \<Rightarrow> outbox_event list \<times> db" where
  "claim_outbox_batch e limit db =
     (let ids = map ob_id (claim_rows e limit db)
      in (map (\<lambda>o'. o'\<lparr>ob_status := PROCESSING\<rparr>) (claim_rows e limit db),
          db\<lparr>outbox_events := map (\<lambda>o'. if ob_id o' \<in> set ids then o'\<lparr>ob_status := PROCESSING\<rparr> else o') (outbox_events db)\<rparr>))"

definition settle_row ::
  "env \<Rightarrow> outbox_status \<Rightarrow> nat option \<Rightarrow> string option \<Rightarrow> int option \<Rightarrow> outbox_event \<Rightarrow> outbox_event" where
  "settle_row e st attempts err retryAfter o' = o'\<lparr>ob_status := st, ob_attempts := or_else attempts (ob_attempts o'),
     ob_lastError := err, ob_processedAt := (if st = DONE then Some (now e) else ob_processedAt o'),
     ob_nextAttemptAt := (case retryAfter of None \<Rightarrow> ob_nextAttemptAt o' | Some d \<Rightarrow> now e + d)\<rparr>"

definition settle ::
  "env \<Rightarrow> string \<Rightarrow> outbox_status \<Rightarrow> nat option \<Rightarrow> string option \<Rightarrow> int option \<Rightarrow> db \<Rightarrow> db" where
  "settle e id' st attempts err retryAfter db = db\<lparr>outbox_events :=
     map (\<lambda>o'. if ob_id o' = id' then settle_row e st attempts err retryAfter o' else o') (outbox_events db)\<rparr>"

section \<open>The system and its publisher\<close>

record sys =
  s_db :: db
  s_queue :: "job list"
  s_jobIds :: "string list"
  s_inflight :: "outbox_event list"
  s_alerts :: "(string \<times> nat) list"

definition job_of :: "outbox_event \<Rightarrow> job" where
  "job_of o' = \<lparr>jb_outboxEventId = ob_id o', jb_tenantId = ob_tenantId o', jb_eventName = ob_eventName o',
     jb_payload = ob_payload o', jb_attemptsMade = 0\<rparr>"

definition job_id :: "job \<Rightarrow> string" where
  "job_id j = ''outbox-'' @ jb_outboxEventId j"

text \<open>\<open>Queue.add\<close>: a job whose id is known is ignored.\<close>

definition queue_add :: "job \<Rightarrow> sys \<Rightarrow> sys" where
  "queue_add j s = (if job_id j \<in> set (s_jobIds s) then s
     else s\<lparr>s_queue := s_queue s @ [j], s_jobIds := s_jobIds s @ [job_id j]\<rparr>)"

definition publish_one :: "env \<Rightarrow> bool \<Rightarrow> outbox_event \<Rightarrow> sys \<Rightarrow> sys" where
  "publish_one e pushed row s =
     (if pushed then queue_add (job_of row) s
      else s\<lparr>s_db := settle e (ob_id row) PENDING None None (Some 10000) (s_db s)\<rparr>)"

definition claim_batch :: "env \<Rightarrow> sys \<Rightarrow> sys" where
  "claim_batch e s = (let (rows, db') = claim_outbox_batch e batch_size (s_db s)
     in s\<lparr>s_db := db', s_inflight := s_inflight s @ rows\<rparr>)"

definition publish_next :: "env \<Rightarrow> bool \<Rightarrow> outbox_event \<Rightarrow> sys \<Rightarrow> sys" where
  "publish_next e pushed row s = (publish_one e pushed row s)\<lparr>s_inflight := remove1 row (s_inflight s)\<rparr>"

text \<open>One whole batch: claim, then push row by row.\<close>

fun publish_rows :: "env \<Rightarrow> (string \<Rightarrow> bool) \<Rightarrow> outbox_event list \<Rightarrow> sys \<Rightarrow> sys" where
  "publish_rows e ok [] s = s"
| "publish_rows e ok (row # rows) s = publish_rows e ok rows (publish_next e (ok (ob_id row)) row s)"

definition publish_batch :: "env \<Rightarrow> (string \<Rightarrow> bool) \<Rightarrow> sys \<Rightarrow> sys" where
  "publish_batch e ok s =
     publish_rows e ok (fst (claim_outbox_batch e batch_size (s_db s))) (claim_batch e s)"

section \<open>The processor\<close>

text \<open>\<open>taskEventSchema.parse\<close>: the task id, and the source when there is one.\<close>

definition parse_task_event :: "(string \<Rightarrow> bool) \<Rightarrow> json \<Rightarrow> http_error + (string \<times> string option)" where
  "parse_task_event zod_uuid payload =
     (case jget ''taskId'' payload of
        Some (JStr taskId) \<Rightarrow>
          if \<not> zod_uuid taskId then Inl (Thrown ''ZodError'')
          else (case jget ''source'' payload of
                  None \<Rightarrow> Inr (taskId, None)
                | Some (JStr src) \<Rightarrow> Inr (taskId, Some src)
                | Some _ \<Rightarrow> Inl (Thrown ''ZodError''))
      | _ \<Rightarrow> Inl (Thrown ''ZodError''))"

type_synonym handler = "string \<times> unit svc"

definition validate_handler :: "string \<Rightarrow> string \<Rightarrow> unit svc" where
  "validate_handler tid taskId db =
     (case validate_closed_task tid taskId db of (Inl err, db1) \<Rightarrow> (Inl err, db1) | (Inr _, db1) \<Rightarrow> (Inr (), db1))"

definition noop :: "unit svc" where
  "noop db = (Inr (), db)"

definition handlers_for ::
  "mailer \<Rightarrow> (string \<Rightarrow> bool) \<Rightarrow> env \<Rightarrow> string \<Rightarrow> string \<Rightarrow> json \<Rightarrow> http_error + handler list" where
  "handlers_for mailer zod_uuid e name tid payload =
     (if name = ''task.created'' then
        (case parse_task_event zod_uuid payload of
           Inl err \<Rightarrow> Inl err
         | Inr (taskId, src) \<Rightarrow> Inr
             [(''scheduling.assign'', scheduling_task_created e tid taskId),
              (''comms.taskCreated'', comms_task_created mailer tid taskId (or_else src ''MANUAL''))])
      else if name = ''task.closed'' then
        (case parse_task_event zod_uuid payload of
           Inl err \<Rightarrow> Inl err
         | Inr (taskId, src) \<Rightarrow> Inr
             [(''inventory.consume'', inventory_task_closed e tid taskId),
              (''invoicing.validate'', validate_handler tid taskId),
              (''comms.taskClosed'', comms_task_closed mailer tid taskId)])
      else if name \<in> {''task.assigned'', ''user.invited'', ''inventory.low_stock''} then Inr [(''noop'', noop)]
      else Inr [])"

text \<open>\<open>Promise.allSettled\<close>: every handler runs, the failures are collected.\<close>

fun run_all :: "handler list \<Rightarrow> db \<Rightarrow> string list \<times> db" where
  "run_all [] db = ([], db)"
| "run_all ((name, h) # hs) db =
     (let (r, db1) = h db; (failed, db2) = run_all hs db1
      in ((case r of Inl _ \<Rightarrow> name # failed | Inr _ \<Rightarrow> failed), db2))"

definition dispatch ::
  "mailer \<Rightarrow> (string \<Rightarrow> bool) \<Rightarrow> env \<Rightarrow> string \<Rightarrow> string \<Rightarrow> json \<Rightarrow> unit svc" where
  "dispatch mailer zod_uuid e name tid payload db =
     (case handlers_for mailer zod_uuid e name tid payload of
        Inl err \<Rightarrow> (Inl err, db)
      | Inr hs \<Rightarrow>
          (let (failed, db1) = run_all hs db
           in if failed = [] then (Inr (), db1)
              else (Inl (Thrown (show_nat (length failed) @ '' handler(s) failed for '' @ name @ '': ''
                     @ join_with '', '' failed)), db1)))"

fun error_message :: "http_error \<Rightarrow> string" where
  "error_message (BadRequest m) = m"
| "error_message (Unauthorized m) = m"
| "error_message (Forbidden m) = m"
| "error_message (NotFound m) = m"
| "error_message (Conflict m) = m"
| "error_message (Unprocessable m) = m"
| "error_message (ServiceUnavailable m) = m"
| "error_message (TooManyRequests m) = m"
| "error_message (BadGateway m) = m"
| "error_message (PrismaKnown m) = m"
| "error_message (Thrown m) = m"

definition record_failure :: "env \<Rightarrow> job \<Rightarrow> http_error \<Rightarrow> sys \<Rightarrow> sys" where
  "record_failure e j err s =
     (let attempts = jb_attemptsMade j + 1; exhausted = (retry_attempts \<le> attempts);
          s1 = s\<lparr>s_db := settle e (jb_outboxEventId j) (if exhausted then DEAD else PROCESSING) (Some attempts)
                 (Some (take 1000 (error_message err))) None (s_db s)\<rparr>
      in if exhausted then s1\<lparr>s_alerts := s_alerts s1 @ [(jb_outboxEventId j, attempts)]\<rparr> else s1)"

text \<open>
  One delivery of a job. A thrown error makes BullMQ keep the job with one more attempt made,
  until the attempts are used up.
\<close>

definition process_job :: "mailer \<Rightarrow> (string \<Rightarrow> bool) \<Rightarrow> env \<Rightarrow> job \<Rightarrow> sys \<Rightarrow> sys" where
  "process_job mailer zod_uuid e j s =
     (case dispatch mailer zod_uuid e (jb_eventName j) (jb_tenantId j) (jb_payload j) (s_db s) of
        (Inr _, db1) \<Rightarrow> s\<lparr>s_db := settle e (jb_outboxEventId j) DONE None None None db1,
                         s_queue := remove1 j (s_queue s)\<rparr>
      | (Inl err, db1) \<Rightarrow>
          (let s1 = record_failure e j err (s\<lparr>s_db := db1\<rparr>)
           in if retry_attempts \<le> jb_attemptsMade j + 1 then s1\<lparr>s_queue := remove1 j (s_queue s1)\<rparr>
              else s1\<lparr>s_queue := remove1 j (s_queue s1) @ [j\<lparr>jb_attemptsMade := jb_attemptsMade j + 1\<rparr>]\<rparr>))"

section \<open>Handlers only append events\<close>

definition appends_pending :: "db \<Rightarrow> db \<Rightarrow> bool" where
  "appends_pending db db' \<longleftrightarrow> (\<exists>new. outbox_events db' = outbox_events db @ new
     \<and> (\<forall>o' \<in> set new. ob_status o' = PENDING))"

lemma appends_pending_refl [simp]: "appends_pending db db"
  by (simp add: appends_pending_def)

lemma appends_pending_same: "outbox_events db' = outbox_events db \<Longrightarrow> appends_pending db db'"
  by (simp add: appends_pending_def)

lemma appends_pending_trans: "appends_pending a b \<Longrightarrow> appends_pending b c \<Longrightarrow> appends_pending a c"
  unfolding appends_pending_def by (metis Un_iff append.assoc set_append)

lemma appends_pending_create: "appends_pending db (outbox_create e tid name p db)"
  by (simp add: appends_pending_def new_outbox_row_def)

text \<open>The contract of a handler of the processor.\<close>

locale event_handler =
  fixes h :: "unit svc"
  assumes appends: "appends_pending db (snd (h db))"
begin

lemma keeps_rows: "h db = (r, db') \<Longrightarrow> o' \<in> set (outbox_events db) \<Longrightarrow> o' \<in> set (outbox_events db')"
  using appends [of db] by (auto simp: appends_pending_def)

end

interpretation noop: event_handler noop
  by unfold_locales (simp add: noop_def)

lemma assign_within_outbox: "assign_within tid taskId db = Inr (r, db') \<Longrightarrow> outbox_events db' = outbox_events db"
  by (auto simp: assign_within_def assign_write_def Let_def split: option.splits if_splits sum.splits prod.splits)

interpretation scheduling: event_handler "scheduling_task_created e tid taskId" for e tid taskId
proof
  fix db
  obtain r db' where run: "assign_task e tid taskId db = (r, db')" by fastforce
  then have "appends_pending db db'"
  proof (cases rule: assign_task_cases)
    case (ran r1 db1)
    from assign_within_outbox [OF ran(2)] have "appends_pending db db1" by (rule appends_pending_same)
    with ran(4) appends_pending_create appends_pending_trans show ?thesis by auto
  qed simp
  then show "appends_pending db (snd (scheduling_task_created e tid taskId db))"
    using run by (simp add: scheduling_task_created_def)
qed

lemma consume_tx_outbox: "consume_tx tid taskId db = Inr (alerts, db') \<Longrightarrow> outbox_events db' = outbox_events db"
proof (erule consume_tx_Inr)
  fix task st
  assume run: "run_each (consume_sku tid taskId (plan_items tid (consumption_plan (t_checklist task)) db) (recorded_items tid taskId db))
       (consumption_plan (t_checklist task)) \<lparr>cs_db = db, cs_moves = [], cs_alerts = []\<rparr> = Inr st"
    and db': "db' = (cs_db st)\<lparr>stock_movements := stock_movements (cs_db st) @ cs_moves st\<rparr>"
  from run_each_frame [OF run] obtain its where "cs_db st = db\<lparr>inventory_items := its\<rparr>"
    by (auto simp: consume_frame_def)
  then show ?thesis by (simp add: db')
qed

lemma appends_pending_alerts: "appends_pending db (fold (emit_alert e tid) alerts db)"
proof (induction alerts arbitrary: db)
  case (Cons a alerts)
  have "appends_pending db (emit_alert e tid a db)"
    using appends_pending_create by (auto simp: emit_alert_def for_tenant_def)
  with Cons show ?case using appends_pending_trans by auto
qed simp

interpretation inventory: event_handler "inventory_task_closed e tid taskId" for e tid taskId
proof
  fix db
  obtain r db' where run: "inventory_task_closed e tid taskId db = (r, db')" by fastforce
  then have "appends_pending db db'"
  proof (cases rule: inventory_task_closed_cases)
    case (ran alerts db1)
    from consume_tx_outbox [OF ran(2)] have "appends_pending db db1" by (rule appends_pending_same)
    with ran(3) appends_pending_alerts appends_pending_trans show ?thesis by auto
  qed simp
  then show "appends_pending db (snd (inventory_task_closed e tid taskId db))" using run by simp
qed

lemma validate_state: "snd (validate_closed_task tid taskId db) = db"
  by (auto simp: validate_closed_task_def for_tenant_def validate_tx_def Let_def
      split: option.splits sum.splits json.splits if_splits)

interpretation invoicing: event_handler "validate_handler tid taskId" for tid taskId
  by unfold_locales
    (metis (mono_tags, lifting) validate_state validate_handler_def appends_pending_refl case_prod_beta' old.sum.exhaust
      old.sum.simps(5,6) snd_conv)

text \<open>A mailer may record what it likes about the connection, but writes no outbox row.\<close>

definition quiet_mailer :: "mailer \<Rightarrow> bool" where
  "quiet_mailer mailer \<longleftrightarrow> (\<forall>tid d db. outbox_events (snd (mailer tid d db)) = outbox_events db)"

lemma send_outbox:
  assumes "quiet_mailer mailer"
  shows "outbox_events (snd (send_template_email mailer tid taskId key db)) = outbox_events db"
proof -
  obtain r db1 where b: "build_draft tid taskId key db = (r, db1)" by fastforce
  then have "db1 = db" using build_draft_db [of tid taskId key db] by simp
  moreover have "outbox_events db2 = outbox_events db" if "mailer tid d db = (x, db2)" for d x db2
    using assms that unfolding quiet_mailer_def by (metis snd_conv)
  ultimately show ?thesis using b by (auto simp: send_template_email_def split: sum.splits prod.splits)
qed

lemma comms_handlers:
  assumes "quiet_mailer mailer"
  shows "event_handler (comms_task_created mailer tid taskId src)" "event_handler (comms_task_closed mailer tid taskId)"
  using send_outbox [OF assms]
  by (unfold_locales, auto simp: comms_task_created_def comms_task_closed_def intro: appends_pending_same)

lemma run_all_appends:
  assumes "\<And>name h. (name, h) \<in> set hs \<Longrightarrow> event_handler h"
  shows "appends_pending db (snd (run_all hs db))"
  using assms
proof (induction hs arbitrary: db)
  case (Cons nh hs)
  obtain name h where nh: "nh = (name, h)" by fastforce
  have "event_handler h" using Cons.prems nh by auto
  then have "appends_pending db (snd (h db))" by (rule event_handler.appends)
  moreover have "appends_pending (snd (h db)) (snd (run_all hs (snd (h db))))"
    by (rule Cons.IH) (use Cons.prems in auto)
  ultimately show ?case by (auto simp: nh Let_def split: prod.splits intro: appends_pending_trans)
qed simp

lemma handlers_for_ok:
  assumes "handlers_for mailer zu e name tid payload = Inr hs" and "quiet_mailer mailer" and "(n, h) \<in> set hs"
  shows "event_handler h"
proof -
  note ok = comms_handlers [OF assms(2)] scheduling.event_handler_axioms inventory.event_handler_axioms
    invoicing.event_handler_axioms noop.event_handler_axioms
  have "list_all (\<lambda>p. event_handler (snd p)) hs"
  proof (cases "name = ''task.created'' \<or> name = ''task.closed''")
    case True
    with assms(1) obtain taskId src where "parse_task_event zu payload = Inr (taskId, src)"
      by (auto simp: handlers_for_def split: sum.splits)
    with True assms(1) have "hs = (if name = ''task.created''
        then [(''scheduling.assign'', scheduling_task_created e tid taskId),
              (''comms.taskCreated'', comms_task_created mailer tid taskId (or_else src ''MANUAL''))]
        else [(''inventory.consume'', inventory_task_closed e tid taskId),
              (''invoicing.validate'', validate_handler tid taskId),
              (''comms.taskClosed'', comms_task_closed mailer tid taskId)])"
      by (auto simp: handlers_for_def)
    then show ?thesis by (simp add: ok)
  next
    case False
    with assms(1) have "hs = [(''noop'', noop)] \<or> hs = []"
      by (simp add: handlers_for_def split: if_split_asm)
    then show ?thesis by (auto simp: ok)
  qed
  then have "event_handler (snd (n, h))" using assms(3) unfolding list_all_iff by blast
  then show ?thesis by simp
qed

lemma dispatch_appends:
  assumes "quiet_mailer mailer"
  shows "appends_pending db (snd (dispatch mailer zu e name tid payload db))"
proof (cases "handlers_for mailer zu e name tid payload")
  case (Inr hs)
  have "appends_pending db (snd (run_all hs db))"
    by (rule run_all_appends) (rule handlers_for_ok [OF Inr assms])
  then show ?thesis by (auto simp: dispatch_def Inr Let_def split: prod.splits)
qed (simp add: dispatch_def)

section \<open>The steps of the system\<close>

text \<open>
  Business transactions append rows with new ids (the primary key); a publisher claims and
  pushes; the processor delivers a waiting job; the queue forgets ids of jobs it no longer has.
\<close>

inductive sys_step :: "mailer \<Rightarrow> (string \<Rightarrow> bool) \<Rightarrow> sys \<Rightarrow> sys \<Rightarrow> bool" for mailer zod_uuid where
  business: "appends_pending (s_db s) db' \<Longrightarrow> distinct (map ob_id (outbox_events db')) \<Longrightarrow>
     sys_step mailer zod_uuid s (s\<lparr>s_db := db'\<rparr>)"
| claim: "sys_step mailer zod_uuid s (claim_batch e s)"
| push: "row \<in> set (s_inflight s) \<Longrightarrow> sys_step mailer zod_uuid s (publish_next e pushed row s)"
| deliver: "j \<in> set (s_queue s) \<Longrightarrow>
     distinct (map ob_id (outbox_events (s_db (process_job mailer zod_uuid e j s)))) \<Longrightarrow>
     sys_step mailer zod_uuid s (process_job mailer zod_uuid e j s)"
| forget: "set ids \<subseteq> set (s_jobIds s) \<Longrightarrow> job_id ` set (s_queue s) \<subseteq> set ids \<Longrightarrow>
     sys_step mailer zod_uuid s (s\<lparr>s_jobIds := ids\<rparr>)"

inductive_cases sys_stepE: "sys_step mailer zod_uuid s s'"

text \<open>A publisher that dies between claiming and pushing takes its claimed rows with it.\<close>

inductive crash_step :: "sys \<Rightarrow> sys \<Rightarrow> bool" where
  crash: "crash_step s (s\<lparr>s_inflight := []\<rparr>)"

inductive_simps crash_step_iff: "crash_step s s'"

definition event_ids :: "sys \<Rightarrow> string set" where
  "event_ids s = ob_id ` set (outbox_events (s_db s))"

definition queued_ids :: "sys \<Rightarrow> string set" where
  "queued_ids s = jb_outboxEventId ` set (s_queue s)"

definition inflight_ids :: "sys \<Rightarrow> string set" where
  "inflight_ids s = ob_id ` set (s_inflight s)"

definition known_ids :: "sys \<Rightarrow> string set" where
  "known_ids s = {i. ''outbox-'' @ i \<in> set (s_jobIds s)}"

definition alerted_ids :: "sys \<Rightarrow> string set" where
  "alerted_ids s = fst ` set (s_alerts s)"

text \<open>Where an event in each status stands.\<close>

definition row_ok :: "string set \<Rightarrow> string set \<Rightarrow> string set \<Rightarrow> string set \<Rightarrow> outbox_event \<Rightarrow> bool" where
  "row_ok Q I J A o' = (case ob_status o' of
       PENDING \<Rightarrow> ob_id o' \<notin> Q \<and> ob_id o' \<notin> I \<and> ob_id o' \<notin> J
     | PROCESSING \<Rightarrow> (ob_id o' \<in> I \<and> ob_id o' \<notin> Q \<and> ob_id o' \<notin> J) \<or> (ob_id o' \<in> Q \<and> ob_id o' \<notin> I)
     | DONE \<Rightarrow> ob_id o' \<notin> Q \<and> ob_id o' \<notin> I
     | DEAD \<Rightarrow> ob_id o' \<notin> Q \<and> ob_id o' \<notin> I \<and> ob_id o' \<in> A
     | FAILED \<Rightarrow> False)"

definition sys_ok :: "sys \<Rightarrow> bool" where
  "sys_ok s \<longleftrightarrow> distinct (map ob_id (outbox_events (s_db s)))
     \<and> list_all (row_ok (queued_ids s) (inflight_ids s) (known_ids s) (alerted_ids s)) (outbox_events (s_db s))
     \<and> queued_ids s \<union> inflight_ids s \<union> known_ids s \<subseteq> event_ids s
     \<and> queued_ids s \<subseteq> known_ids s
     \<and> distinct (map jb_outboxEventId (s_queue s)) \<and> distinct (map ob_id (s_inflight s))
     \<and> list_all (\<lambda>j. jb_attemptsMade j < retry_attempts) (s_queue s)"

lemma row_ok_cong:
  assumes "ob_id o' \<in> Q' \<longleftrightarrow> ob_id o' \<in> Q" "ob_id o' \<in> I' \<longleftrightarrow> ob_id o' \<in> I"
    "ob_id o' \<in> J' \<longleftrightarrow> ob_id o' \<in> J" "ob_id o' \<in> A \<Longrightarrow> ob_id o' \<in> A'"
    and "row_ok Q I J A o'"
  shows "row_ok Q' I' J' A' o'"
  using assms by (auto simp: row_ok_def split: outbox_status.splits)

text \<open>A change of one event: its row and its place may change, everything else stays.\<close>

lemma rows_change_one:
  assumes "list_all (row_ok Q I J A) rows"
    and "\<And>o'. ob_id (g o') = ob_id o'"
    and "\<And>x. x \<noteq> i \<Longrightarrow> (x \<in> Q' \<longleftrightarrow> x \<in> Q) \<and> (x \<in> I' \<longleftrightarrow> x \<in> I) \<and> (x \<in> J' \<longleftrightarrow> x \<in> J) \<and> (x \<in> A \<longrightarrow> x \<in> A')"
    and "\<And>o'. o' \<in> set rows \<Longrightarrow> ob_id o' = i \<Longrightarrow> row_ok Q' I' J' A' (g o')"
  shows "list_all (row_ok Q' I' J' A') (map (\<lambda>o'. if ob_id o' = i then g o' else o') rows)"
proof -
  have "row_ok Q' I' J' A' o'" if "o' \<in> set rows" "ob_id o' \<noteq> i" for o'
  proof (rule row_ok_cong)
    show "row_ok Q I J A o'" using assms(1) that(1) by (simp add: list_all_iff)
  qed (use assms(3) [OF that(2)] in blast)+
  with assms(4) show ?thesis by (auto simp: list_all_iff)
qed

lemma ids_change_one:
  assumes "\<And>o'. ob_id (g o') = ob_id o'"
  shows "map ob_id (map (\<lambda>o'. if ob_id o' = i then g o' else o') rows) = map ob_id rows"
    and "ob_id ` set (map (\<lambda>o'. if ob_id o' = i then g o' else o') rows) = ob_id ` set rows"
proof -
  show m: "map ob_id (map (\<lambda>o'. if ob_id o' = i then g o' else o') rows) = map ob_id rows"
    using assms by (simp add: comp_def if_distrib cong: if_cong)
  show "ob_id ` set (map (\<lambda>o'. if ob_id o' = i then g o' else o') rows) = ob_id ` set rows"
    using arg_cong [OF m, of set] by (simp only: set_map)
qed

lemma settle_row_simps [simp]:
  "ob_id (settle_row e st a err r o') = ob_id o'" "ob_status (settle_row e st a err r o') = st"
  by (simp_all add: settle_row_def)

lemma settle_outbox [simp]: "outbox_events (settle e i st a err r db) =
    map (\<lambda>o'. if ob_id o' = i then settle_row e st a err r o' else o') (outbox_events db)"
  by (simp add: settle_def)

lemma sys_ok_row:
  assumes "sys_ok s" and "o' \<in> set (outbox_events (s_db s))"
  shows "row_ok (queued_ids s) (inflight_ids s) (known_ids s) (alerted_ids s) o'"
  using assms by (simp add: sys_ok_def list_all_iff)

section \<open>Every step keeps the books\<close>

lemma appended_rows:
  assumes "sys_ok s" and "outbox_events db' = outbox_events (s_db s) @ new"
    and "\<forall>o' \<in> set new. ob_status o' = PENDING" and "distinct (map ob_id (outbox_events db'))"
  shows "sys_ok (s\<lparr>s_db := db'\<rparr>)"
proof -
  have fresh: "ob_id o' \<notin> event_ids s" if "o' \<in> set new" for o'
    using assms(2,4) that by (auto simp: event_ids_def)
  have sub: "queued_ids s \<union> inflight_ids s \<union> known_ids s \<subseteq> event_ids s" using assms(1) by (simp add: sys_ok_def)
  have "row_ok (queued_ids s) (inflight_ids s) (known_ids s) (alerted_ids s) o'" if "o' \<in> set new" for o'
    using fresh [OF that] sub assms(3) that by (auto simp: row_ok_def)
  then show ?thesis
    using assms unfolding sys_ok_def
    by (auto simp: list_all_iff event_ids_def queued_ids_def inflight_ids_def known_ids_def alerted_ids_def)
qed

lemma business_ok:
  assumes "sys_ok s" and "appends_pending (s_db s) db'" and "distinct (map ob_id (outbox_events db'))"
  shows "sys_ok (s\<lparr>s_db := db'\<rparr>)"
  using assms(2) appended_rows [OF assms(1) _ _ assms(3)] unfolding appends_pending_def by blast

lemma claim_ok:
  assumes "sys_ok s"
  shows "sys_ok (claim_batch e s)"
proof -
  let ?rows = "claim_rows e batch_size (s_db s)" and ?f = "\<lambda>o'. o'\<lparr>ob_status := PROCESSING\<rparr>"
  let ?s = "claim_batch e s"
  have s: "?s = s\<lparr>s_db := (s_db s)\<lparr>outbox_events := map (\<lambda>o'. if ob_id o' \<in> ob_id ` set ?rows then ?f o' else o') (outbox_events (s_db s))\<rparr>,
      s_inflight := s_inflight s @ map ?f ?rows\<rparr>"
    by (simp add: claim_batch_def claim_outbox_batch_def Let_def)
  have rows: "outbox_events (s_db ?s) = map (\<lambda>o'. if ob_id o' \<in> ob_id ` set ?rows then ?f o' else o') (outbox_events (s_db s))"
    by (simp add: s)
  have mem: "r \<in> set (outbox_events (s_db s))" "ob_status r = PENDING" if "r \<in> set ?rows" for r
    using that by (auto simp: claim_rows_def claimable_def dest!: in_set_takeD)
  have d: "distinct (map ob_id ?rows)"
  proof -
    have "distinct (map ob_id (filter (claimable e) (outbox_events (s_db s))))"
      using assms by (simp add: sys_ok_def distinct_map_filter)
    then show ?thesis by (simp add: claim_rows_def distinct_map_sort_key take_map [symmetric])
  qed
  have ids: "map ob_id (outbox_events (s_db ?s)) = map ob_id (outbox_events (s_db s))"
    by (simp add: s comp_def if_distrib cong: if_cong)
  have infl: "inflight_ids ?s = inflight_ids s \<union> ob_id ` set ?rows"
    by (simp add: s inflight_ids_def image_Un image_image)
  have same: "queued_ids ?s = queued_ids s" "known_ids ?s = known_ids s" "alerted_ids ?s = alerted_ids s"
    by (simp_all add: s queued_ids_def known_ids_def alerted_ids_def)
  have pend: "ob_id r \<notin> queued_ids s \<and> ob_id r \<notin> inflight_ids s \<and> ob_id r \<notin> known_ids s" if "r \<in> set ?rows" for r
    using sys_ok_row [OF assms mem(1) [OF that]] mem(2) [OF that] by (simp add: row_ok_def)
  have "row_ok (queued_ids s) (inflight_ids ?s) (known_ids s) (alerted_ids s)
      (if ob_id o' \<in> ob_id ` set ?rows then ?f o' else o')" if o': "o' \<in> set (outbox_events (s_db s))" for o'
  proof (cases "ob_id o' \<in> ob_id ` set ?rows")
    case True
    with pend have "ob_id o' \<notin> queued_ids s \<and> ob_id o' \<notin> known_ids s" by auto
    with True show ?thesis by (simp add: row_ok_def infl)
  next
    case False
    with sys_ok_row [OF assms o'] show ?thesis by (auto simp: infl intro: row_ok_cong)
  qed
  then have la: "list_all (row_ok (queued_ids s) (inflight_ids ?s) (known_ids s) (alerted_ids s)) (outbox_events (s_db ?s))"
    unfolding rows list.pred_map comp_def unfolding list_all_iff by blast
  have ev: "event_ids ?s = event_ids s" using arg_cong [OF ids, of set] by (simp add: event_ids_def)
  have sub: "ob_id ` set ?rows \<subseteq> event_ids s" using mem(1) by (auto simp: event_ids_def)
  have "map ob_id (s_inflight ?s) = map ob_id (s_inflight s) @ map ob_id ?rows" by (simp add: s)
  moreover have "inflight_ids s \<inter> ob_id ` set ?rows = {}" using pend by blast
  ultimately have di: "distinct (map ob_id (s_inflight ?s))"
    using assms d by (simp add: sys_ok_def inflight_ids_def)
  have q: "s_queue ?s = s_queue s" by (simp add: s)
  show ?thesis
    using assms la ev sub di unfolding sys_ok_def ids same infl q by blast
qed

lemma remove1_ids:
  assumes "distinct (map f xs)" and "x \<in> set xs"
  shows "f ` set (remove1 x xs) = f ` set xs - {f x}" and "distinct (map f (remove1 x xs))"
proof -
  have "distinct xs" using assms(1) by (simp add: distinct_map)
  then show "f ` set (remove1 x xs) = f ` set xs - {f x}"
    using assms by (auto simp: distinct_map inj_on_def)
  show "distinct (map f (remove1 x xs))"
    using assms(1) \<open>distinct xs\<close> by (auto simp: distinct_map inj_on_def)
qed

lemma publish_next_ok:
  assumes "sys_ok s" and "row \<in> set (s_inflight s)"
  shows "sys_ok (publish_next e pushed row s)"
proof -
  let ?s = "publish_next e pushed row s" and ?i = "ob_id row"
  have dI: "distinct (map ob_id (s_inflight s))" using assms(1) by (simp add: sys_ok_def)
  have I: "inflight_ids ?s = inflight_ids s - {?i}" and dI': "distinct (map ob_id (s_inflight ?s))"
    using remove1_ids [OF dI assms(2)] by (simp_all add: publish_next_def inflight_ids_def)
  have i: "?i \<in> inflight_ids s" using assms(2) by (simp add: inflight_ids_def)
  then have ev: "?i \<in> event_ids s" using assms(1) by (auto simp: sys_ok_def)
  have st: "row_ok (queued_ids s) (inflight_ids s) (known_ids s) (alerted_ids s) o'"
    if "o' \<in> set (outbox_events (s_db s))" for o' using sys_ok_row [OF assms(1) that] .
  obtain o0 where o0: "o0 \<in> set (outbox_events (s_db s))" "ob_id o0 = ?i" using ev by (auto simp: event_ids_def)
  have free: "?i \<notin> known_ids s \<and> ?i \<notin> queued_ids s"
    using st [OF o0(1)] o0(2) i by (auto simp: row_ok_def split: outbox_status.splits)
  have old: "list_all (row_ok (queued_ids s) (inflight_ids s) (known_ids s) (alerted_ids s)) (outbox_events (s_db s))"
    using assms(1) by (simp add: sys_ok_def)
  show ?thesis
  proof (cases pushed)
    case True
    have s: "?s = s\<lparr>s_queue := s_queue s @ [job_of row], s_jobIds := s_jobIds s @ [job_id (job_of row)],
        s_inflight := remove1 row (s_inflight s)\<rparr>"
      using free True by (simp add: publish_next_def publish_one_def queue_add_def known_ids_def job_id_def job_of_def)
    have sets: "queued_ids ?s = insert ?i (queued_ids s)" "known_ids ?s = insert ?i (known_ids s)"
      "alerted_ids ?s = alerted_ids s" "event_ids ?s = event_ids s"
      by (auto simp: s queued_ids_def known_ids_def alerted_ids_def event_ids_def job_of_def job_id_def)
    have "list_all (row_ok (queued_ids ?s) (inflight_ids ?s) (known_ids ?s) (alerted_ids ?s))
        (map (\<lambda>o'. if ob_id o' = ?i then id o' else o') (outbox_events (s_db s)))"
    proof (rule rows_change_one [OF old])
      fix o' assume o': "o' \<in> set (outbox_events (s_db s))" "ob_id o' = ?i"
      show "row_ok (queued_ids ?s) (inflight_ids ?s) (known_ids ?s) (alerted_ids ?s) (id o')"
        using st [OF o'(1)] i free o'(2) by (auto simp: row_ok_def sets I split: outbox_status.splits)
    qed (auto simp: sets I)
    moreover have "map (\<lambda>o'. if ob_id o' = ?i then id o' else o') (outbox_events (s_db s)) = outbox_events (s_db ?s)"
      by (simp add: s map_idI)
    ultimately have la: "list_all (row_ok (queued_ids ?s) (inflight_ids ?s) (known_ids ?s) (alerted_ids ?s)) (outbox_events (s_db ?s))"
      by (simp only:)
    have dQ: "distinct (map jb_outboxEventId (s_queue ?s))"
      using assms(1) free by (simp add: s sys_ok_def job_of_def queued_ids_def)
    have att: "list_all (\<lambda>j. jb_attemptsMade j < retry_attempts) (s_queue ?s)"
      using assms(1) by (simp add: s sys_ok_def job_of_def retry_attempts_def)
    have dE: "distinct (map ob_id (outbox_events (s_db ?s)))" using assms(1) by (simp add: s sys_ok_def)
    from assms(1) ev have sub: "insert ?i (queued_ids s) \<union> (inflight_ids s - {?i}) \<union> insert ?i (known_ids s) \<subseteq> event_ids s"
      "insert ?i (queued_ids s) \<subseteq> insert ?i (known_ids s)" by (auto simp: sys_ok_def)
    show ?thesis unfolding sys_ok_def using la dQ att dE dI' sub by (simp add: sets I)
  next
    case False
    let ?g = "settle_row e PENDING None None (Some 10000)"
    have s: "?s = s\<lparr>s_db := settle e ?i PENDING None None (Some 10000) (s_db s), s_inflight := remove1 row (s_inflight s)\<rparr>"
      using False by (simp add: publish_next_def publish_one_def)
    have sets: "queued_ids ?s = queued_ids s" "known_ids ?s = known_ids s" "alerted_ids ?s = alerted_ids s"
      by (simp_all add: s queued_ids_def known_ids_def alerted_ids_def)
    have rows: "outbox_events (s_db ?s) = map (\<lambda>o'. if ob_id o' = ?i then ?g o' else o') (outbox_events (s_db s))"
      by (simp add: s)
    have ids: "map ob_id (outbox_events (s_db ?s)) = map ob_id (outbox_events (s_db s))"
      by (simp add: s ids_change_one del: map_map)
    then have evs: "event_ids ?s = event_ids s" unfolding event_ids_def by (metis set_map)
    have la: "list_all (row_ok (queued_ids ?s) (inflight_ids ?s) (known_ids ?s) (alerted_ids ?s)) (outbox_events (s_db ?s))"
      unfolding sets I rows
    proof (rule rows_change_one [OF old])
      fix o' assume "o' \<in> set (outbox_events (s_db s))" "ob_id o' = ?i"
      then show "row_ok (queued_ids s) (inflight_ids s - {?i}) (known_ids s) (alerted_ids s) (?g o')"
        using free by (simp add: row_ok_def)
    qed auto
    have q: "s_queue ?s = s_queue s" by (simp add: s)
    show ?thesis using assms(1) la dI' unfolding sys_ok_def ids evs sets I q by blast
  qed
qed

text \<open>Settling a delivered job, and what becomes of it in the queue.\<close>

lemma settled_ok:
  assumes "sys_ok s" and "j \<in> set (s_queue s)" and "st \<in> {DONE, DEAD, PROCESSING}"
    and "again = (if st = PROCESSING then [j\<lparr>jb_attemptsMade := n\<rparr>] else [])"
    and "st = PROCESSING \<longrightarrow> n < retry_attempts" and "st = DEAD \<longrightarrow> jb_outboxEventId j \<in> fst ` set al"
  shows "sys_ok (s\<lparr>s_db := settle e (jb_outboxEventId j) st a err None (s_db s),
     s_queue := remove1 j (s_queue s) @ again, s_alerts := s_alerts s @ al\<rparr>)" (is "sys_ok ?s")
proof -
  let ?i = "jb_outboxEventId j" and ?g = "settle_row e st a err None"
  have dQ: "distinct (map jb_outboxEventId (s_queue s))" using assms(1) by (simp add: sys_ok_def)
  have i: "?i \<in> queued_ids s" using assms(2) by (simp add: queued_ids_def)
  have Q: "queued_ids ?s = (if st = PROCESSING then queued_ids s else queued_ids s - {?i})"
    using remove1_ids(1) [OF dQ assms(2)] i assms(4) by (auto simp: queued_ids_def)
  have dQ': "distinct (map jb_outboxEventId (s_queue ?s))"
    using remove1_ids [OF dQ assms(2)] assms(4) by auto
  have sets: "inflight_ids ?s = inflight_ids s" "known_ids ?s = known_ids s"
    "alerted_ids ?s = alerted_ids s \<union> fst ` set al"
    by (auto simp: inflight_ids_def known_ids_def alerted_ids_def)
  have ids: "map ob_id (outbox_events (s_db ?s)) = map ob_id (outbox_events (s_db s))"
    by (simp add: ids_change_one del: map_map)
  then have evs: "event_ids ?s = event_ids s" unfolding event_ids_def by (metis set_map)
  have old: "list_all (row_ok (queued_ids s) (inflight_ids s) (known_ids s) (alerted_ids s)) (outbox_events (s_db s))"
    using assms(1) by (simp add: sys_ok_def)
  have dead: "st = DEAD \<longrightarrow> ?i \<in> alerted_ids ?s" using assms(6) unfolding sets by blast
  have "list_all (row_ok (queued_ids ?s) (inflight_ids ?s) (known_ids ?s) (alerted_ids ?s))
      (map (\<lambda>o'. if ob_id o' = ?i then ?g o' else o') (outbox_events (s_db s)))"
  proof (rule rows_change_one [OF old])
    fix o' assume o': "o' \<in> set (outbox_events (s_db s))" "ob_id o' = ?i"
    have "row_ok (queued_ids s) (inflight_ids s) (known_ids s) (alerted_ids s) o'" by (rule sys_ok_row [OF assms(1) o'(1)])
    then have "?i \<notin> inflight_ids s" using i o'(2) by (auto simp: row_ok_def split: outbox_status.splits)
    then show "row_ok (queued_ids ?s) (inflight_ids ?s) (known_ids ?s) (alerted_ids ?s) (?g o')"
      using assms(3) i o'(2) dead by (auto simp: row_ok_def Q sets(1,2))
  qed (auto simp: Q sets)
  then have la: "list_all (row_ok (queued_ids ?s) (inflight_ids ?s) (known_ids ?s) (alerted_ids ?s)) (outbox_events (s_db ?s))"
    by simp
  have att: "list_all (\<lambda>j. jb_attemptsMade j < retry_attempts) (s_queue ?s)"
    using assms(1,4,5) by (auto simp: sys_ok_def list_all_iff dest!: notin_set_remove1 [THEN contrapos_pp, rotated] set_remove1_subset [THEN subsetD])
  have infl: "s_inflight ?s = s_inflight s" by simp
  have sub: "queued_ids ?s \<subseteq> queued_ids s" by (auto simp: Q)
  show ?thesis
    using assms(1) la dQ' att sub unfolding sys_ok_def ids evs sets(1,2) infl by blast
qed

lemma process_ok:
  assumes "sys_ok s" and "j \<in> set (s_queue s)" and "quiet_mailer mailer"
    and "distinct (map ob_id (outbox_events (s_db (process_job mailer zu e j s))))"
  shows "sys_ok (process_job mailer zu e j s)"
proof -
  obtain r db1 where d: "dispatch mailer zu e (jb_eventName j) (jb_tenantId j) (jb_payload j) (s_db s) = (r, db1)" by fastforce
  moreover have "appends_pending (s_db s) (snd (dispatch mailer zu e (jb_eventName j) (jb_tenantId j) (jb_payload j) (s_db s)))"
    by (rule dispatch_appends [OF assms(3)])
  ultimately have app: "appends_pending (s_db s) db1" by simp
  have dist: "distinct (map ob_id (outbox_events db1))"
    using assms(4) d by (auto simp: process_job_def record_failure_def Let_def ids_change_one simp del: map_map split: sum.splits if_splits)
  have ok1: "sys_ok (s\<lparr>s_db := db1\<rparr>)" by (rule business_ok [OF assms(1) app dist])
  have j1: "j \<in> set (s_queue (s\<lparr>s_db := db1\<rparr>))" using assms(2) by simp
  show ?thesis
  proof (cases r)
    case (Inr u)
    have "process_job mailer zu e j s = s\<lparr>s_db := settle e (jb_outboxEventId j) DONE None None None db1,
        s_queue := remove1 j (s_queue s) @ [], s_alerts := s_alerts s @ []\<rparr>"
      by (simp add: process_job_def d Inr)
    with settled_ok [OF ok1 j1, of DONE "[]" 0 "[]" e None None] show ?thesis by simp
  next
    case (Inl err)
    let ?n = "jb_attemptsMade j + 1" and ?m = "Some (take 1000 (error_message err))"
    show ?thesis
    proof (cases "retry_attempts \<le> ?n")
      case True
      then have "process_job mailer zu e j s = s\<lparr>s_db := settle e (jb_outboxEventId j) DEAD (Some ?n) ?m None db1,
          s_queue := remove1 j (s_queue s) @ [], s_alerts := s_alerts s @ [(jb_outboxEventId j, ?n)]\<rparr>"
        by (simp add: process_job_def d Inl record_failure_def Let_def)
      with settled_ok [OF ok1 j1, of DEAD "[]" 0 "[(jb_outboxEventId j, ?n)]" e "Some ?n" ?m] show ?thesis by simp
    next
      case False
      then have "process_job mailer zu e j s = s\<lparr>s_db := settle e (jb_outboxEventId j) PROCESSING (Some ?n) ?m None db1,
          s_queue := remove1 j (s_queue s) @ [j\<lparr>jb_attemptsMade := ?n\<rparr>], s_alerts := s_alerts s @ []\<rparr>"
        by (simp add: process_job_def d Inl record_failure_def Let_def)
      with settled_ok [OF ok1 j1, of PROCESSING "[j\<lparr>jb_attemptsMade := ?n\<rparr>]" ?n "[]" e "Some ?n" ?m] False
      show ?thesis by simp
    qed
  qed
qed

lemma forget_ok:
  assumes "sys_ok s" and "set ids \<subseteq> set (s_jobIds s)" and "job_id ` set (s_queue s) \<subseteq> set ids"
  shows "sys_ok (s\<lparr>s_jobIds := ids\<rparr>)"
proof -
  let ?s = "s\<lparr>s_jobIds := ids\<rparr>"
  have K: "known_ids ?s \<subseteq> known_ids s" "queued_ids s \<subseteq> known_ids ?s"
    using assms(2,3) by (auto simp: known_ids_def queued_ids_def job_id_def)
  have same: "queued_ids ?s = queued_ids s" "inflight_ids ?s = inflight_ids s" "alerted_ids ?s = alerted_ids s"
    "event_ids ?s = event_ids s" by (simp_all add: queued_ids_def inflight_ids_def alerted_ids_def event_ids_def)
  have "row_ok (queued_ids s) (inflight_ids s) (known_ids ?s) (alerted_ids s) o'" if "o' \<in> set (outbox_events (s_db s))" for o'
    using sys_ok_row [OF assms(1) that] K(1) by (auto simp: row_ok_def split: outbox_status.splits)
  with assms(1) K same show ?thesis by (auto simp: sys_ok_def list_all_iff)
qed

lemma sys_step_ok:
  assumes "sys_step mailer zu s s'" and "quiet_mailer mailer" and "sys_ok s"
  shows "sys_ok s'"
  using assms(1)
proof cases
  case (business db')
  then show ?thesis using business_ok [OF assms(3)] by simp
next
  case (claim e)
  then show ?thesis using claim_ok [OF assms(3)] by simp
next
  case (push row e pushed)
  then show ?thesis using publish_next_ok [OF assms(3)] by simp
next
  case (deliver j e)
  then show ?thesis using process_ok [OF assms(3) _ assms(2)] by simp
next
  case (forget ids)
  then show ?thesis using forget_ok [OF assms(3)] by simp
qed

lemma sys_steps_ok: "(sys_step mailer zu)\<^sup>*\<^sup>* s s' \<Longrightarrow> quiet_mailer mailer \<Longrightarrow> sys_ok s \<Longrightarrow> sys_ok s'"
  by (induction rule: rtranclp_induct) (auto intro: sys_step_ok)

end
