(* ===== verification/Delivery.thy ===== *)
theory Delivery
  imports Outbox
begin

text \<open>
  What the outbox promises, over every interleaving of the steps of Outbox: no event is lost
  while publishers do not crash, a crash between claiming and pushing strands the claimed
  events for good, every queued event is settled after at most five deliveries, and a
  deduction that failed is settled like one that succeeded.
\<close>

section \<open>No event is lost\<close>

definition empty_sys :: sys where
  "empty_sys = \<lparr>s_db = empty_db, s_queue = [], s_jobIds = [], s_inflight = [], s_alerts = []\<rparr>"

lemma empty_sys_ok: "sys_ok empty_sys"
  by (simp add: sys_ok_def empty_sys_def empty_db_def queued_ids_def inflight_ids_def known_ids_def event_ids_def)

text \<open>C13. In every state reachable while no publisher crashes, an event is PROCESSING exactly
  when a publisher still holds it or its job waits in the queue, a DEAD one was alerted, and
  no job waits twice.\<close>
theorem no_event_is_lost:
  assumes "(sys_step mailer zu)\<^sup>*\<^sup>* empty_sys s" and "quiet_mailer mailer"
  shows "distinct (map jb_outboxEventId (s_queue s)) \<and> list_all (\<lambda>o'.
      ob_status o' \<noteq> FAILED
      \<and> (ob_status o' = PROCESSING) = (ob_id o' \<in> inflight_ids s \<union> queued_ids s)
      \<and> (ob_status o' \<noteq> DEAD \<or> ob_id o' \<in> alerted_ids s)) (outbox_events (s_db s))"
proof -
  have ok: "sys_ok s" by (rule sys_steps_ok [OF assms empty_sys_ok])
  have "ob_status o' \<noteq> FAILED
      \<and> (ob_status o' = PROCESSING) = (ob_id o' \<in> inflight_ids s \<union> queued_ids s)
      \<and> (ob_status o' \<noteq> DEAD \<or> ob_id o' \<in> alerted_ids s)" if "o' \<in> set (outbox_events (s_db s))" for o'
    using sys_ok_row [OF ok that] by (auto simp: row_ok_def split: outbox_status.splits)
  with ok show ?thesis unfolding sys_ok_def list_all_iff by blast
qed

section \<open>A crash between claiming and pushing\<close>

definition orphan :: "string \<Rightarrow> sys \<Rightarrow> bool" where
  "orphan i s \<longleftrightarrow> distinct (map ob_id (outbox_events (s_db s)))
     \<and> (\<exists>o' \<in> set (outbox_events (s_db s)). ob_id o' = i \<and> ob_status o' = PROCESSING)
     \<and> i \<notin> queued_ids s \<and> i \<notin> inflight_ids s"

lemma orphan_change_other:
  assumes "orphan i s" and "k \<noteq> i" and "\<And>o'. ob_id (g o') = ob_id o'"
    and "outbox_events (s_db s') = map (\<lambda>o'. if ob_id o' = k then g o' else o') (outbox_events (s_db s))"
    and "i \<notin> queued_ids s'" and "i \<notin> inflight_ids s'"
  shows "orphan i s'"
proof -
  from assms(1) obtain o' where o': "o' \<in> set (outbox_events (s_db s))" "ob_id o' = i" "ob_status o' = PROCESSING"
    by (auto simp: orphan_def)
  then have "o' \<in> set (outbox_events (s_db s'))" using assms(2) by (auto simp: assms(4) intro!: image_eqI [of _ _ o'])
  moreover have "distinct (map ob_id (outbox_events (s_db s')))"
    using assms(1) by (simp add: assms(4) ids_change_one(1) [OF assms(3)] orphan_def del: map_map)
  ultimately show ?thesis using o' assms(5,6) by (auto simp: orphan_def)
qed

lemma orphan_claim:
  assumes "orphan i s"
  shows "orphan i (claim_batch e s)"
proof -
  let ?rows = "claim_rows e batch_size (s_db s)"
  from assms obtain o' where o': "o' \<in> set (outbox_events (s_db s))" "ob_id o' = i" "ob_status o' = PROCESSING"
    and d: "distinct (map ob_id (outbox_events (s_db s)))" by (auto simp: orphan_def)
  have "i \<notin> ob_id ` set ?rows"
  proof
    assume "i \<in> ob_id ` set ?rows"
    then obtain r where r: "r \<in> set ?rows" "ob_id r = i" by blast
    then have "r \<in> set (outbox_events (s_db s))" "ob_status r = PENDING"
      by (auto simp: claim_rows_def claimable_def dest!: in_set_takeD)
    with distinct_map_eq [OF d this(1) o'(1)] r(2) o'(2,3) show False by simp
  qed
  then have ni: "i \<notin> ob_id ` set ?rows" .
  let ?f = "\<lambda>o'. o'\<lparr>ob_status := PROCESSING\<rparr>"
  have s: "claim_batch e s = s\<lparr>s_db := (s_db s)\<lparr>outbox_events := map (\<lambda>o'. if ob_id o' \<in> set (map ob_id ?rows) then ?f o' else o')
      (outbox_events (s_db s))\<rparr>, s_inflight := s_inflight s @ map ?f ?rows\<rparr>"
    by (simp add: claim_batch_def claim_outbox_batch_def Let_def)
  have "map ob_id (outbox_events (s_db (claim_batch e s))) = map ob_id (outbox_events (s_db s))"
    by (simp add: s comp_def if_distrib cong: if_cong)
  moreover have "o' \<in> set (outbox_events (s_db (claim_batch e s)))"
    using o'(1,2) ni by (auto simp: s intro!: image_eqI [of _ _ o'])
  moreover have "inflight_ids (claim_batch e s) = inflight_ids s \<union> ob_id ` set ?rows"
    by (simp add: s inflight_ids_def image_Un image_image)
  moreover have "queued_ids (claim_batch e s) = queued_ids s" by (simp add: s queued_ids_def)
  ultimately show ?thesis using assms ni o'(2,3) d unfolding orphan_def by auto
qed

lemma image_remove1: "i \<notin> f ` set xs \<Longrightarrow> i \<notin> f ` set (remove1 x xs)"
  using set_remove1_subset [of x xs] by blast

lemma orphan_grows:
  assumes "orphan i s" and "appends_pending (s_db s) db'" and "distinct (map ob_id (outbox_events db'))"
  shows "orphan i (s\<lparr>s_db := db'\<rparr>)"
  using assms unfolding orphan_def appends_pending_def by (auto simp: queued_ids_def inflight_ids_def)

lemma orphan_push:
  assumes "orphan i s" and "row \<in> set (s_inflight s)"
  shows "orphan i (publish_next e pushed row s)"
proof -
  have "ob_id row \<in> inflight_ids s" using assms(2) by (simp add: inflight_ids_def)
  then have i: "ob_id row \<noteq> i" using assms(1) unfolding orphan_def by blast
  show ?thesis
  proof (rule orphan_change_other [OF assms(1) i, of "if pushed then id else settle_row e PENDING None None (Some 10000)"])
    show "outbox_events (s_db (publish_next e pushed row s)) = map (\<lambda>o'. if ob_id o' = ob_id row
        then (if pushed then id else settle_row e PENDING None None (Some 10000)) o' else o') (outbox_events (s_db s))"
      by (auto simp: publish_next_def publish_one_def queue_add_def map_idI)
    show "i \<notin> queued_ids (publish_next e pushed row s)"
      using assms(1) i by (auto simp: publish_next_def publish_one_def queue_add_def queued_ids_def orphan_def job_of_def)
    show "i \<notin> inflight_ids (publish_next e pushed row s)"
      using assms(1) by (simp add: publish_next_def publish_one_def queue_add_def inflight_ids_def orphan_def image_remove1)
  qed simp
qed

text \<open>What one delivery does to the rows: handlers append, then the job's row is settled.\<close>

lemma process_job_rows:
  assumes "quiet_mailer mailer" and "s' = process_job mailer zu e j s"
  obtains db1 st a err where "appends_pending (s_db s) db1" "st \<in> {DONE, DEAD, PROCESSING}"
    "outbox_events (s_db s') = map (\<lambda>o'. if ob_id o' = jb_outboxEventId j then settle_row e st a err None o' else o') (outbox_events db1)"
    "s_queue s' = remove1 j (s_queue s) @ (if st = PROCESSING then [j\<lparr>jb_attemptsMade := jb_attemptsMade j + 1\<rparr>] else [])"
    "s_inflight s' = s_inflight s"
    "st = PROCESSING \<longrightarrow> jb_attemptsMade j + 1 < retry_attempts"
    "st = DEAD \<longrightarrow> retry_attempts \<le> jb_attemptsMade j + 1"
proof -
  obtain r db1 where d: "dispatch mailer zu e (jb_eventName j) (jb_tenantId j) (jb_payload j) (s_db s) = (r, db1)" by fastforce
  moreover have "appends_pending (s_db s) (snd (dispatch mailer zu e (jb_eventName j) (jb_tenantId j) (jb_payload j) (s_db s)))"
    by (rule dispatch_appends [OF assms(1)])
  ultimately have app: "appends_pending (s_db s) db1" by simp
  show thesis
  proof (cases r)
    case (Inr u)
    show thesis
      by (rule that [OF app, of DONE None None]) (simp_all add: assms(2) process_job_def d Inr)
  next
    case (Inl err)
    let ?n = "jb_attemptsMade j + 1"
    show thesis
      by (rule that [OF app, of "if retry_attempts \<le> ?n then DEAD else PROCESSING" "Some ?n" "Some (take 1000 (error_message err))"])
        (simp_all add: assms(2) process_job_def d Inl record_failure_def Let_def)
  qed
qed

lemma orphan_deliver:
  assumes "orphan i s" and "j \<in> set (s_queue s)" and "quiet_mailer mailer"
    and "distinct (map ob_id (outbox_events (s_db (process_job mailer zu e j s))))"
  shows "orphan i (process_job mailer zu e j s)"
  using assms(3) refl
proof (rule process_job_rows)
  fix db1 st a err assume app: "appends_pending (s_db s) db1"
    and rows: "outbox_events (s_db (process_job mailer zu e j s)) =
      map (\<lambda>o'. if ob_id o' = jb_outboxEventId j then settle_row e st a err None o' else o') (outbox_events db1)"
    and q: "s_queue (process_job mailer zu e j s) = remove1 j (s_queue s) @ (if st = PROCESSING then [j\<lparr>jb_attemptsMade := jb_attemptsMade j + 1\<rparr>] else [])"
    and infl: "s_inflight (process_job mailer zu e j s) = s_inflight s"
  have "jb_outboxEventId j \<in> queued_ids s" using assms(2) by (simp add: queued_ids_def)
  then have i: "jb_outboxEventId j \<noteq> i" using assms(1) unfolding orphan_def by blast
  have dist: "distinct (map ob_id (outbox_events db1))"
    using assms(4) unfolding rows by (simp add: ids_change_one(1) del: map_map)
  have o1: "orphan i (s\<lparr>s_db := db1\<rparr>)" by (rule orphan_grows [OF assms(1) app dist])
  have "i \<notin> queued_ids (process_job mailer zu e j s)"
    using assms(1) i image_remove1 [of i jb_outboxEventId "s_queue s" j] by (auto simp: queued_ids_def q orphan_def)
  moreover have "i \<notin> inflight_ids (process_job mailer zu e j s)"
    using assms(1) by (simp add: inflight_ids_def infl orphan_def)
  ultimately show ?thesis
    by (intro orphan_change_other [OF o1 i, of "settle_row e st a err None"]) (simp_all add: rows)
qed

lemma orphan_step:
  assumes "sys_step mailer zu s s' \<or> crash_step s s'" and "quiet_mailer mailer" and "orphan i s"
  shows "orphan i s'"
  using assms(1)
proof
  assume "crash_step s s'"
  then show ?thesis using assms(3) by (auto simp: crash_step_iff orphan_def queued_ids_def inflight_ids_def)
next
  assume "sys_step mailer zu s s'"
  then show ?thesis
  proof cases
    case (forget ids)
    then show ?thesis using assms(3) by (simp add: orphan_def queued_ids_def inflight_ids_def)
  qed (simp_all add: orphan_grows [OF assms(3)] orphan_claim [OF assms(3)] orphan_push [OF assms(3)] orphan_deliver [OF assms(3) _ assms(2)])
qed

text \<open>When a publisher dies between claiming and pushing, the events it had claimed stay
  PROCESSING and unqueued for ever, whatever the system does afterwards.\<close>
theorem crash_strands_claimed_events:
  assumes "sys_ok s" and "row \<in> set (s_inflight s)" and "crash_step s s1"
    and "(\<lambda>a b. sys_step mailer zu a b \<or> crash_step a b)\<^sup>*\<^sup>* s1 s2" and "quiet_mailer mailer"
  shows "\<exists>o' \<in> set (outbox_events (s_db s2)). ob_id o' = ob_id row \<and> ob_status o' = PROCESSING
    \<and> ob_id row \<notin> queued_ids s2 \<and> ob_id row \<notin> inflight_ids s2"
proof -
  have i: "ob_id row \<in> inflight_ids s" using assms(2) by (simp add: inflight_ids_def)
  then have "ob_id row \<in> event_ids s" using assms(1) by (auto simp: sys_ok_def)
  then obtain o' where o': "o' \<in> set (outbox_events (s_db s))" "ob_id o' = ob_id row"
    by (auto simp: event_ids_def)
  from sys_ok_row [OF assms(1) o'(1)] i o'(2) have "ob_status o' = PROCESSING" "ob_id row \<notin> queued_ids s"
    by (auto simp: row_ok_def split: outbox_status.splits)
  moreover have "distinct (map ob_id (outbox_events (s_db s)))" using assms(1) by (simp add: sys_ok_def)
  ultimately have "orphan (ob_id row) s1"
    using assms(3) o' by (auto simp: crash_step_iff orphan_def queued_ids_def inflight_ids_def)
  with assms(4) have "orphan (ob_id row) s2"
    by (induction rule: rtranclp_induct) (blast intro: orphan_step [OF _ assms(5)])+
  then show ?thesis by (auto simp: orphan_def)
qed

section \<open>Every queued event is settled\<close>

text \<open>Deliver the job of one event, as often as it is there and at most \<open>n\<close> times.\<close>

fun deliver_event :: "mailer \<Rightarrow> (string \<Rightarrow> bool) \<Rightarrow> env \<Rightarrow> string \<Rightarrow> nat \<Rightarrow> sys \<Rightarrow> sys" where
  "deliver_event mailer zu e i 0 s = s"
| "deliver_event mailer zu e i (Suc n) s =
     (case List.find (\<lambda>j. jb_outboxEventId j = i) (s_queue s) of
        None \<Rightarrow> s
      | Some j \<Rightarrow> deliver_event mailer zu e i n (process_job mailer zu e j s))"

definition settled :: "string \<Rightarrow> sys \<Rightarrow> bool" where
  "settled i s \<longleftrightarrow> i \<notin> queued_ids s
     \<and> list_all (\<lambda>o'. ob_id o' \<noteq> i \<or> ob_status o' = DONE \<or> ob_status o' = DEAD) (outbox_events (s_db s))"

lemma deliver_settled: "settled i s \<Longrightarrow> deliver_event mailer zu e i n s = s"
proof -
  assume "settled i s"
  then have "List.find (\<lambda>j. jb_outboxEventId j = i) (s_queue s) = None"
    by (auto simp: settled_def queued_ids_def find_None_iff_all)
  then show ?thesis by (cases n) simp_all
qed

lemma deliver_settles:
  assumes "List.find (\<lambda>j. jb_outboxEventId j = i) (s_queue s) = Some j" and "retry_attempts \<le> jb_attemptsMade j + n"
    and "jb_attemptsMade j < retry_attempts" and "distinct (map jb_outboxEventId (s_queue s))" and "quiet_mailer mailer"
  shows "settled i (deliver_event mailer zu e i n s)"
  using assms(1-4)
proof (induction n arbitrary: s j)
  case 0
  then show ?case by simp
next
  case (Suc n)
  let ?s' = "process_job mailer zu e j s"
  from find_SomeD [OF Suc.prems(1)] have j: "j \<in> set (s_queue s)" "jb_outboxEventId j = i" by simp_all
  note rm = remove1_ids [OF Suc.prems(4) j(1)]
  from assms(5) refl show ?case
  proof (rule process_job_rows)
    fix db1 st a err assume st: "st \<in> {DONE, DEAD, PROCESSING}"
      and rows: "outbox_events (s_db ?s') =
        map (\<lambda>o'. if ob_id o' = jb_outboxEventId j then settle_row e st a err None o' else o') (outbox_events db1)"
      and q: "s_queue ?s' = remove1 j (s_queue s) @ (if st = PROCESSING then [j\<lparr>jb_attemptsMade := jb_attemptsMade j + 1\<rparr>] else [])"
      and lt: "st = PROCESSING \<longrightarrow> jb_attemptsMade j + 1 < retry_attempts"
    have gone: "i \<notin> jb_outboxEventId ` set (remove1 j (s_queue s))" using rm(1) j(2) by simp
    show ?thesis
    proof (cases "st = PROCESSING")
      case False
      then have "settled i ?s'" using st gone j(2) by (auto simp: settled_def queued_ids_def q rows list_all_iff)
      then show ?thesis using Suc.prems(1) by (simp add: deliver_settled)
    next
      case True
      let ?j = "j\<lparr>jb_attemptsMade := jb_attemptsMade j + 1\<rparr>"
      have "List.find (\<lambda>j. jb_outboxEventId j = i) (s_queue ?s') = Some ?j"
        by (rule find_unique) (use True gone j(2) in \<open>auto simp: q\<close>)
      moreover have "distinct (map jb_outboxEventId (s_queue ?s'))" using rm gone j(2) True by (auto simp: q)
      ultimately have "settled i (deliver_event mailer zu e i n ?s')"
        using Suc.IH [of ?s' ?j] Suc.prems(2) lt True by simp
      then show ?thesis using Suc.prems(1) by simp
    qed
  qed
qed

text \<open>C14. Delivering the job of a queued event at most five times settles the event: it ends DONE
  or DEAD and leaves the queue.\<close>
theorem queued_event_is_settled:
  assumes "sys_ok s" and "i \<in> queued_ids s" and "quiet_mailer mailer"
  shows "settled i (deliver_event mailer zu e i retry_attempts s)"
proof -
  from assms(2) have "List.find (\<lambda>j. jb_outboxEventId j = i) (s_queue s) \<noteq> None"
    by (auto simp: queued_ids_def find_None_iff_all)
  then obtain j where j: "List.find (\<lambda>j. jb_outboxEventId j = i) (s_queue s) = Some j" by blast
  have "jb_attemptsMade j < retry_attempts"
    using assms(1) find_SomeD [OF j] by (auto simp: sys_ok_def list_all_iff)
  with assms(1,3) show ?thesis by (intro deliver_settles [OF j]) (simp_all add: sys_ok_def)
qed

section \<open>A swallowed failure settles the event\<close>

text \<open>
  For a closed task only the validation can fail the delivery: the deduction and the mail
  catch their errors.
\<close>

lemma task_closed_dispatch:
  assumes "parse_task_event zu payload = Inr (taskId, src)"
    and "inventory_task_closed e tid taskId db = (Inr (), db1)"
    and "fst (validate_handler tid taskId db1) = Inr ()"
  shows "dispatch mailer zu e ''task.closed'' tid payload db = (Inr (), snd (comms_task_closed mailer tid taskId db1))"
proof -
  have "validate_handler tid taskId db1 = (Inr (), db1)"
    using assms(3) validate_state [of tid taskId db1]
    by (auto simp: validate_handler_def split: prod.splits sum.splits)
  then show ?thesis
    by (simp add: dispatch_def handlers_for_def assms(1,2) comms_task_closed_def)
qed

text \<open>A task.closed event whose stock deduction fails is settled DONE on that very delivery,
  without any retry or alert, because the handler reports success.\<close>
theorem failed_deduction_is_settled:
  assumes "sys_ok s" and "j \<in> set (s_queue s)" and "jb_eventName j = ''task.closed''"
    and "parse_task_event zu (jb_payload j) = Inr (taskId, src)" and "is_uuid (jb_tenantId j)"
    and "consume_tx (jb_tenantId j) taskId (s_db s) = Inl err"
    and "fst (validate_handler (jb_tenantId j) taskId (s_db s)) = Inr ()" and "quiet_mailer mailer"
  shows "inventory_task_closed e (jb_tenantId j) taskId (s_db s) = (Inr (), s_db s)
    \<and> list_all (\<lambda>o'. ob_id o' \<noteq> jb_outboxEventId j \<or> ob_status o' = DONE)
        (outbox_events (s_db (process_job mailer zu e j s)))
    \<and> jb_outboxEventId j \<notin> queued_ids (process_job mailer zu e j s)
    \<and> s_alerts (process_job mailer zu e j s) = s_alerts s"
proof -
  have inv: "inventory_task_closed e (jb_tenantId j) taskId (s_db s) = (Inr (), s_db s)"
    using assms(5,6) by (simp add: inventory_task_closed_def consume_for_task_def for_tenant_def)
  note d = task_closed_dispatch [OF assms(4) inv assms(7), of mailer]
  have dQ: "distinct (map jb_outboxEventId (s_queue s))" using assms(1) by (simp add: sys_ok_def)
  have "jb_outboxEventId j \<notin> jb_outboxEventId ` set (remove1 j (s_queue s))"
    using remove1_ids(1) [OF dQ assms(2)] by simp
  with inv show ?thesis
    by (auto simp: process_job_def assms(3) d queued_ids_def list_all_iff)
qed

section \<open>Instances\<close>

definition demo_event :: outbox_event where
  "demo_event = \<lparr>ob_id = ''e1'', ob_tenantId = demo_tenant, ob_eventName = ''task.closed'',
     ob_payload = task_payload demo_tenant ''t1'' None, ob_status = PENDING, ob_attempts = 0,
     ob_lastError = None, ob_nextAttemptAt = 4000, ob_createdAt = 4000, ob_processedAt = None\<rparr>"

definition demo_mailer :: mailer where
  "demo_mailer tid d db = (Inr (), db)"

definition demo_appended :: sys where
  "demo_appended = empty_sys\<lparr>s_db := (demo_stock_db 5)\<lparr>outbox_events := [demo_event]\<rparr>\<rparr>"

definition demo_claimed :: sys where
  "demo_claimed = claim_batch demo_env demo_appended"

definition demo_pushed :: sys where
  "demo_pushed = publish_next demo_env True (demo_event\<lparr>ob_status := PROCESSING\<rparr>) demo_claimed"

lemma demo_quiet: "quiet_mailer demo_mailer"
  by (simp add: quiet_mailer_def demo_mailer_def)

lemma demo_claimed: "demo_claimed = demo_appended\<lparr>s_db := (demo_stock_db 5)\<lparr>outbox_events := [demo_event\<lparr>ob_status := PROCESSING\<rparr>]\<rparr>,
    s_inflight := [demo_event\<lparr>ob_status := PROCESSING\<rparr>]\<rparr>"
  by (simp add: demo_claimed_def demo_appended_def claim_batch_def claim_outbox_batch_def claim_rows_def claimable_def
      demo_event_def demo_env_def empty_sys_def batch_size_def Let_def)

lemma demo_pushed: "demo_pushed = demo_claimed\<lparr>s_queue := [job_of demo_event], s_jobIds := [''outbox-e1''], s_inflight := []\<rparr>"
  by (simp add: demo_pushed_def publish_next_def publish_one_def queue_add_def demo_claimed demo_appended_def empty_sys_def
      job_of_def job_id_def demo_event_def)

lemma demo_reached: "(sys_step m zu)\<^sup>*\<^sup>* empty_sys demo_claimed" "(sys_step m zu)\<^sup>*\<^sup>* empty_sys demo_pushed"
proof -
  have "sys_step m zu empty_sys demo_appended"
    unfolding demo_appended_def
    by (rule sys_step.business) (simp_all add: appends_pending_def empty_sys_def empty_db_def demo_event_def)
  moreover have "sys_step m zu demo_appended demo_claimed"
    unfolding demo_claimed_def by (rule sys_step.claim)
  ultimately show c: "(sys_step m zu)\<^sup>*\<^sup>* empty_sys demo_claimed" by auto
  have "sys_step m zu demo_claimed demo_pushed"
    unfolding demo_pushed_def by (rule sys_step.push) (simp add: demo_claimed)
  with c show "(sys_step m zu)\<^sup>*\<^sup>* empty_sys demo_pushed" by auto
qed

lemma demo_sys_ok: "sys_ok demo_claimed" "sys_ok demo_pushed"
  using sys_steps_ok [OF demo_reached(1) demo_quiet empty_sys_ok] sys_steps_ok [OF demo_reached(2) demo_quiet empty_sys_ok]
  by blast+

theorem no_event_is_lost_witness:
  "outbox_events (s_db demo_pushed) = [demo_event\<lparr>ob_status := PROCESSING\<rparr>]
   \<and> ''e1'' \<in> inflight_ids demo_pushed \<union> queued_ids demo_pushed"
  using no_event_is_lost [OF demo_reached(2) demo_quiet]
  by (simp add: demo_pushed demo_claimed demo_event_def)

theorem crash_strands_claimed_events_witness:
  "\<exists>s. crash_step demo_claimed s \<and> (\<exists>o' \<in> set (outbox_events (s_db s)). ob_id o' = ''e1'' \<and> ob_status o' = PROCESSING
    \<and> ''e1'' \<notin> queued_ids s \<and> ''e1'' \<notin> inflight_ids s)"
proof -
  have c: "crash_step demo_claimed (demo_claimed\<lparr>s_inflight := []\<rparr>)" by (simp add: crash_step_iff)
  have "demo_event\<lparr>ob_status := PROCESSING\<rparr> \<in> set (s_inflight demo_claimed)" by (simp add: demo_claimed)
  from crash_strands_claimed_events [OF demo_sys_ok(1) this c rtranclp.rtrancl_refl demo_quiet]
  show ?thesis by (intro exI [of _ "demo_claimed\<lparr>s_inflight := []\<rparr>"] conjI c) (simp add: demo_event_def)
qed

theorem queued_event_is_settled_witness:
  "settled ''e1'' (deliver_event demo_mailer (\<lambda>t. t = ''t1'') demo_env ''e1'' retry_attempts demo_pushed)"
  by (rule queued_event_is_settled [OF demo_sys_ok(2) _ demo_quiet])
    (simp add: demo_pushed queued_ids_def job_of_def demo_event_def)

theorem failed_deduction_is_settled_witness:
  "list_all (\<lambda>o'. ob_id o' \<noteq> ''e1'' \<or> ob_status o' = DONE)
     (outbox_events (s_db (process_job demo_mailer (\<lambda>t. t = ''t1'') demo_env (job_of demo_event) demo_pushed)))"
proof -
  have db: "s_db demo_pushed = (demo_stock_db 5)\<lparr>outbox_events := [demo_event\<lparr>ob_status := PROCESSING\<rparr>]\<rparr>"
    by (simp add: demo_pushed demo_claimed)
  have plan: "consumption_plan (Some (demo_checklist 5)) = [(''F1'', 5)]" by (simp add: demo_plan)
  obtain err where c: "consume_tx demo_tenant ''t1'' (s_db demo_pushed) = Inl err"
    by (simp add: db consume_tx_def plan Let_def consume_sku_def plan_items_def recorded_items_def demo_stock_db_def demo_item_def
        manual_movement_def decrement_or_fail_def decrement_where_def int4_def update_rows_def demo_defs)
  have v: "fst (validate_handler demo_tenant ''t1'' (s_db demo_pushed)) = Inr ()"
    by (simp add: db validate_handler_def validate_closed_task_def for_tenant_def validate_tx_def unsearchable_def demo_stock_db_def
        demo_checklist_def checklist_json_def item_json_def Let_def demo_defs)
  have j: "job_of demo_event \<in> set (s_queue demo_pushed)" by (simp add: demo_pushed)
  have f: "jb_eventName (job_of demo_event) = ''task.closed''" "jb_tenantId (job_of demo_event) = demo_tenant"
    "jb_outboxEventId (job_of demo_event) = ''e1''"
    by (simp_all add: job_of_def demo_event_def)
  have p: "parse_task_event (\<lambda>t. t = ''t1'') (jb_payload (job_of demo_event)) = Inr (''t1'', None)"
    by (simp add: job_of_def demo_event_def task_payload_def parse_task_event_def)
  from failed_deduction_is_settled [OF demo_sys_ok(2) j f(1) p _ _ _ demo_quiet] c v
  show ?thesis by (simp add: f)
qed

end
