(* ===== verification/Access.thy ===== *)
theory Access
  imports Database
begin

text \<open>
  modules/auth and common/guards: the users of a tenant, the tokens they get, and the two
  guards every request passes. bcrypt and the JWT library are parameters: one call of
  \<open>bcrypt.hash\<close>, \<open>bcrypt.compare\<close>, and signing and verifying a payload under an
  audience and an issuer at a time.
\<close>

section \<open>auth.service.ts\<close>

record auth_lib =
  cx_hash :: "string \<Rightarrow> string"
  cx_compare :: "string \<Rightarrow> string \<Rightarrow> bool"
  cx_sign :: "int \<Rightarrow> json \<Rightarrow> string \<Rightarrow> string \<Rightarrow> string"
  cx_verify :: "int \<Rightarrow> string \<Rightarrow> string \<Rightarrow> string \<Rightarrow> json option"

definition access_audience :: string where
  "access_audience = ''craftmind:api''"

definition access_issuer :: string where
  "access_issuer = ''craftmind:auth''"

definition access_purpose :: string where
  "access_purpose = ''access''"

record session_user =
  su_id :: string
  su_name :: string
  su_email :: string
  su_role :: user_role
  su_mustChangePassword :: bool

record session_tenant =
  sn_id :: string
  sn_name :: string
  sn_subdomain :: string
  sn_vertical :: vertical

record session_response =
  sr_mustChangePassword :: bool
  sr_user :: session_user
  sr_tenant :: session_tenant

record auth_response = session_response +
  ar_accessToken :: string

definition dummy_hash :: string where
  "dummy_hash = ''$2b$12$C6UzMDM.H6dfI/f/IKcEeO1Lb0dOWyNlmL0aTD.fFY0m7fV1fW2Vy''"

fun role_text :: "user_role \<Rightarrow> string" where
  "role_text OWNER = ''OWNER''"
| "role_text MANAGER = ''MANAGER''"
| "role_text FIELD = ''FIELD''"

text \<open>\<open>Object.values(UserRole).includes(role)\<close>, with the role.\<close>

definition role_of :: "json option \<Rightarrow> user_role option" where
  "role_of v = List.find (\<lambda>r. v = Some (JStr (role_text r))) [OWNER, MANAGER, FIELD]"

definition jwt_payload :: "user \<Rightarrow> json" where
  "jwt_payload u = JObj [(''sub'', JStr (u_id u)), (''tenantId'', JStr (u_tenantId u)),
     (''role'', JStr (role_text (u_role u))), (''purpose'', JStr access_purpose),
     (''mustChangePassword'', JBool (u_mustChangePassword u))]"

definition session_user_of :: "user \<Rightarrow> session_user" where
  "session_user_of u = \<lparr>su_id = u_id u, su_name = u_name u, su_email = u_email u, su_role = u_role u,
     su_mustChangePassword = u_mustChangePassword u\<rparr>"

definition build_auth_response :: "auth_lib \<Rightarrow> env \<Rightarrow> user \<Rightarrow> session_tenant \<Rightarrow> auth_response" where
  "build_auth_response lib e u tn = \<lparr>sr_mustChangePassword = u_mustChangePassword u,
     sr_user = session_user_of u, sr_tenant = tn,
     ar_accessToken = cx_sign lib (now e) (jwt_payload u) access_audience access_issuer\<rparr>"

definition load_tenant_tx :: "string \<Rightarrow> tenant option tx" where
  "load_tenant_tx tid db = Inr (List.find (\<lambda>n. tn_id n = tid) (tenants db), db)"

definition load_tenant :: "string \<Rightarrow> session_tenant svc" where
  "load_tenant tid db =
     (case for_tenant tid (load_tenant_tx tid) db of
        (Inl err, db1) \<Rightarrow> (Inl err, db1)
      | (Inr None, db1) \<Rightarrow> (Inl (Unauthorized ''Tenant not found''), db1)
      | (Inr (Some n), db1) \<Rightarrow>
          (Inr \<lparr>sn_id = tn_id n, sn_name = tn_name n, sn_subdomain = tn_subdomain n, sn_vertical = tn_vertical n\<rparr>, db1))"

definition normalize_email :: "string \<Rightarrow> string" where
  "normalize_email s = to_lower (trim s)"

text \<open>\<open>user.create\<close>: the e-mail is unique within the tenant; the rest are column defaults.\<close>

definition user_create :: "env \<Rightarrow> string \<Rightarrow> string \<Rightarrow> string \<Rightarrow> string \<Rightarrow> user_role \<Rightarrow> user tx" where
  "user_create e tid email hash name role db =
     (if \<exists>u \<in> set (users db). u_tenantId u = tid \<and> u_email u = email then Inl (PrismaKnown ''P2002'')
      else let u = \<lparr>u_id = next_id e db, u_tenantId = tid, u_email = email, u_passwordHash = hash, u_name = name,
                    u_role = role, u_isActive = True, u_skills = [], u_homeLat = None, u_homeLng = None,
                    u_mustChangePassword = False, u_lastLoginAt = None, u_createdAt = now e\<rparr>
           in Inr (u, (bump_id db)\<lparr>users := users db @ [u]\<rparr>))"

record register_params =
  rp_email :: string
  rp_password :: string
  rp_name :: string

definition register :: "auth_lib \<Rightarrow> env \<Rightarrow> string \<Rightarrow> register_params \<Rightarrow> auth_response svc" where
  "register lib e tid p db =
     (case for_tenant tid (user_create e tid (normalize_email (rp_email p)) (cx_hash lib (rp_password p)) (rp_name p) FIELD) db of
        (Inl err, db1) \<Rightarrow>
          (Inl (if is_unique_violation err then Conflict ''User with this email already exists for this tenant'' else err), db1)
      | (Inr u, db1) \<Rightarrow>
          (case load_tenant tid db1 of
             (Inl err, db2) \<Rightarrow> (Inl err, db2)
           | (Inr n, db2) \<Rightarrow> (Inr (build_auth_response lib e u n), db2)))"

definition find_user_tx :: "(user \<Rightarrow> bool) \<Rightarrow> user option tx" where
  "find_user_tx P db = Inr (List.find P (users db), db)"

definition stamp_login_tx :: "env \<Rightarrow> string \<Rightarrow> string \<Rightarrow> unit tx" where
  "stamp_login_tx e tid uid db = Inr ((), db\<lparr>users := snd (update_rows (\<lambda>u. u_id u = uid \<and> u_tenantId u = tid)
     (\<lambda>u. u\<lparr>u_lastLoginAt := Some (now e)\<rparr>) (users db))\<rparr>)"

definition invalid_credentials :: http_error where
  "invalid_credentials = Unauthorized ''Invalid credentials''"

definition login :: "auth_lib \<Rightarrow> env \<Rightarrow> string \<Rightarrow> string \<Rightarrow> string \<Rightarrow> auth_response svc" where
  "login lib e tid email password db =
     (case for_tenant tid (find_user_tx (\<lambda>u. u_tenantId u = tid \<and> u_email u = normalize_email email)) db of
        (Inl err, db1) \<Rightarrow> (Inl err, db1)
      | (Inr found, db1) \<Rightarrow>
          (let valid = cx_compare lib password (case found of None \<Rightarrow> dummy_hash | Some u \<Rightarrow> u_passwordHash u)
           in case found of
                None \<Rightarrow> (Inl invalid_credentials, db1)
              | Some u \<Rightarrow>
                  if \<not> u_isActive u \<or> \<not> valid then (Inl invalid_credentials, db1)
                  else (case for_tenant tid (stamp_login_tx e tid (u_id u)) db1 of
                          (Inl err, db2) \<Rightarrow> (Inl err, db2)
                        | (Inr _, db2) \<Rightarrow>
                            (case load_tenant tid db2 of
                               (Inl err, db3) \<Rightarrow> (Inl err, db3)
                             | (Inr n, db3) \<Rightarrow> (Inr (build_auth_response lib e u n), db3)))))"

definition set_password_tx :: "string \<Rightarrow> string \<Rightarrow> user tx" where
  "set_password_tx uid hash db =
     (case List.find (\<lambda>u. u_id u = uid) (users db) of
        None \<Rightarrow> Inl (PrismaKnown ''P2025'')
      | Some u \<Rightarrow> Inr (u\<lparr>u_passwordHash := hash, u_mustChangePassword := False\<rparr>,
          db\<lparr>users := snd (update_rows (\<lambda>u. u_id u = uid)
            (\<lambda>u. u\<lparr>u_passwordHash := hash, u_mustChangePassword := False\<rparr>) (users db))\<rparr>))"

definition change_password :: "auth_lib \<Rightarrow> env \<Rightarrow> string \<Rightarrow> string \<Rightarrow> string \<Rightarrow> string \<Rightarrow> auth_response svc" where
  "change_password lib e tid uid current new db =
     (case for_tenant tid (find_user_tx (\<lambda>u. u_id u = uid \<and> u_tenantId u = tid)) db of
        (Inl err, db1) \<Rightarrow> (Inl err, db1)
      | (Inr None, db1) \<Rightarrow> (Inl invalid_credentials, db1)
      | (Inr (Some u), db1) \<Rightarrow>
          (if \<not> u_isActive u then (Inl invalid_credentials, db1)
           else if \<not> cx_compare lib current (u_passwordHash u) then (Inl invalid_credentials, db1)
           else (case for_tenant tid (set_password_tx (u_id u) (cx_hash lib new)) db1 of
                   (Inl err, db2) \<Rightarrow> (Inl err, db2)
                 | (Inr updated, db2) \<Rightarrow>
                     (case load_tenant tid db2 of
                        (Inl err, db3) \<Rightarrow> (Inl err, db3)
                      | (Inr n, db3) \<Rightarrow> (Inr (build_auth_response lib e updated n), db3)))))"

text \<open>Both reads always run; a missing tenant is reported before a missing user.\<close>

definition get_session :: "string \<Rightarrow> string \<Rightarrow> session_response svc" where
  "get_session tid uid db =
     (case for_tenant tid (find_user_tx (\<lambda>u. u_id u = uid \<and> u_tenantId u = tid \<and> u_isActive u)) db of
        (Inl err, db1) \<Rightarrow> (Inl err, db1)
      | (Inr found, db1) \<Rightarrow>
          (case load_tenant tid db1 of
             (Inl err, db2) \<Rightarrow> (Inl err, db2)
           | (Inr n, db2) \<Rightarrow>
               (case found of
                  None \<Rightarrow> (Inl (Unauthorized ''User is no longer active''), db2)
                | Some u \<Rightarrow> (Inr \<lparr>sr_mustChangePassword = u_mustChangePassword u,
                    sr_user = session_user_of u, sr_tenant = n\<rparr>, db2))))"

definition bad_token :: http_error where
  "bad_token = Unauthorized ''Invalid or expired token''"

definition verify_token :: "auth_lib \<Rightarrow> int \<Rightarrow> string \<Rightarrow> http_error + json" where
  "verify_token lib time token =
     (case cx_verify lib time token access_audience access_issuer of
        None \<Rightarrow> Inl bad_token
      | Some p \<Rightarrow>
          if jget ''purpose'' p \<noteq> Some (JStr access_purpose) then Inl bad_token
          else if \<not> jtruthy (jget ''sub'' p) \<or> \<not> jtruthy (jget ''tenantId'' p) \<or> role_of (jget ''role'' p) = None
          then Inl bad_token
          else Inr p)"

section \<open>The guards\<close>

text \<open>What the decorators attach to a route, after \<open>getAllAndOverride\<close> of handler and class.\<close>

record route =
  rt_public :: bool
  rt_roles :: "user_role list option"
  rt_anyRole :: bool
  rt_passwordChange :: bool

record guarded_request =
  gr_tenantId :: "string option"
  gr_authorization :: "string option"

record request_user =
  ru_id :: "json option"
  ru_tenantId :: "json option"
  ru_role :: user_role
  ru_mustChangePassword :: bool

definition jwt_auth_guard :: "auth_lib \<Rightarrow> int \<Rightarrow> route \<Rightarrow> guarded_request \<Rightarrow> http_error + request_user option" where
  "jwt_auth_guard lib time rt r =
     (if rt_public rt then Inr None
      else case gr_authorization r of
          None \<Rightarrow> Inl (Unauthorized ''Missing bearer token'')
        | Some h \<Rightarrow>
            if \<not> starts_with ''Bearer '' h then Inl (Unauthorized ''Missing bearer token'')
            else (case verify_token lib time (trim (drop (length ''Bearer '') h)) of
                Inl err \<Rightarrow> Inl err
              | Inr p \<Rightarrow>
                  if \<not> truthy (gr_tenantId r) \<or> jget ''tenantId'' p \<noteq> map_option JStr (gr_tenantId r)
                  then Inl (Forbidden ''Token does not match tenant for this request'')
                  else if jtruthy (jget ''mustChangePassword'' p) \<and> \<not> rt_passwordChange rt
                  then Inl (Forbidden ''Password change required before using the API'')
                  else Inr (Some \<lparr>ru_id = jget ''sub'' p, ru_tenantId = jget ''tenantId'' p,
                         ru_role = the (role_of (jget ''role'' p)),
                         ru_mustChangePassword = jtruthy (jget ''mustChangePassword'' p)\<rparr>)))"

definition no_roles :: "route \<Rightarrow> bool" where
  "no_roles rt \<longleftrightarrow> rt_roles rt = None \<or> rt_roles rt = Some []"

definition roles_guard :: "route \<Rightarrow> request_user option \<Rightarrow> http_error + unit" where
  "roles_guard rt usr =
     (if rt_public rt \<and> \<not> no_roles rt then Inl (Forbidden ''Route is marked @Public() but also requires a role'')
      else if rt_public rt then Inr ()
      else if no_roles rt
      then (if rt_anyRole rt then Inr ()
            else Inl (Forbidden ''This route declares no access policy. Add @Roles(...), @AnyRole() or @Public().''))
      else case usr of
          None \<Rightarrow> Inl (Unauthorized ''Authentication required'')
        | Some u \<Rightarrow> if ru_role u \<notin> set (the (rt_roles rt))
                    then Inl (Forbidden ''Your role is not permitted to perform this action'') else Inr ())"

text \<open>app.module.ts: the JWT guard, then the roles guard, on every route.\<close>

definition guards :: "auth_lib \<Rightarrow> int \<Rightarrow> route \<Rightarrow> guarded_request \<Rightarrow> http_error + request_user option" where
  "guards lib time rt r =
     (case jwt_auth_guard lib time rt r of
        Inl err \<Rightarrow> Inl err
      | Inr usr \<Rightarrow> (case roles_guard rt usr of Inl err \<Rightarrow> Inl err | Inr _ \<Rightarrow> Inr usr))"

section \<open>What the guards let through\<close>

lemma role_of_text: "role_of v = Some r \<longleftrightarrow> v = Some (JStr (role_text r))"
  by (cases r) (auto simp: role_of_def split: if_splits)

lemma jwt_auth_guard_Some:
  assumes "jwt_auth_guard lib time rt r = Inr (Some u)"
  obtains token p tid where "\<not> rt_public rt" "gr_authorization r = Some (''Bearer '' @ token)"
    "cx_verify lib time (trim token) access_audience access_issuer = Some p"
    "jget ''purpose'' p = Some (JStr access_purpose)" "gr_tenantId r = Some tid" "tid \<noteq> []"
    "jget ''tenantId'' p = Some (JStr tid)" "role_of (jget ''role'' p) = Some (ru_role u)"
    "jtruthy (jget ''mustChangePassword'' p) \<longrightarrow> rt_passwordChange rt"
    "ru_id u = jget ''sub'' p" "ru_tenantId u = Some (JStr tid)" "jtruthy (ru_id u)"
proof -
  from assms obtain h p where h: "\<not> rt_public rt" "gr_authorization r = Some h" "starts_with ''Bearer '' h"
    and v: "verify_token lib time (trim (drop (length ''Bearer '') h)) = Inr p"
    and t: "truthy (gr_tenantId r)" "jget ''tenantId'' p = map_option JStr (gr_tenantId r)"
    and m: "jtruthy (jget ''mustChangePassword'' p) \<longrightarrow> rt_passwordChange rt"
    and u: "u = \<lparr>ru_id = jget ''sub'' p, ru_tenantId = jget ''tenantId'' p, ru_role = the (role_of (jget ''role'' p)),
      ru_mustChangePassword = jtruthy (jget ''mustChangePassword'' p)\<rparr>"
    by (auto simp: jwt_auth_guard_def split: if_splits option.splits sum.splits)
  have "h = ''Bearer '' @ drop (length ''Bearer '') h"
    using h(3) unfolding starts_with_def by (metis append_take_drop_id)
  moreover from v have "cx_verify lib time (trim (drop (length ''Bearer '') h)) access_audience access_issuer = Some p"
    "jget ''purpose'' p = Some (JStr access_purpose)" "role_of (jget ''role'' p) \<noteq> None" "jtruthy (jget ''sub'' p)"
    by (auto simp: verify_token_def split: option.splits if_splits)
  moreover from t(1) obtain tid where "gr_tenantId r = Some tid" "tid \<noteq> []" by (auto simp: truthy_def)
  ultimately show thesis using h t m u by (intro that) auto
qed

text \<open>C19. A guarded request reaches its handler as a user only with a token that verifies, of the
  very tenant of the request, in a role the route admits, and past a forced password change
  only where the route allows it.\<close>
theorem guarded_access:
  assumes "guards lib time rt r = Inr usr"
  shows "(case usr of
      None \<Rightarrow> rt_public rt \<and> no_roles rt
    | Some u \<Rightarrow> \<not> rt_public rt
        \<and> (ru_role u \<in> set (or_else (rt_roles rt) []) \<or> no_roles rt \<and> rt_anyRole rt)
        \<and> (\<exists>token p tid. gr_authorization r = Some (''Bearer '' @ token)
             \<and> cx_verify lib time (trim token) access_audience access_issuer = Some p
             \<and> jget ''purpose'' p = Some (JStr access_purpose)
             \<and> gr_tenantId r = Some tid \<and> jget ''tenantId'' p = Some (JStr tid)
             \<and> jget ''role'' p = Some (JStr (role_text (ru_role u)))
             \<and> (jtruthy (jget ''mustChangePassword'' p) \<longrightarrow> rt_passwordChange rt)))"
proof -
  from assms have g: "jwt_auth_guard lib time rt r = Inr usr" "roles_guard rt usr = Inr ()"
    by (auto simp: guards_def split: sum.splits)
  show ?thesis
  proof (cases usr)
    case None
    from g(1) None have "rt_public rt"
      by (auto simp: jwt_auth_guard_def split: if_splits option.splits sum.splits)
    with g(2) None show ?thesis by (auto simp: roles_guard_def split: if_splits)
  next
    case (Some u)
    from g(1) Some have "jwt_auth_guard lib time rt r = Inr (Some u)" by simp
    then show ?thesis
    proof (rule jwt_auth_guard_Some)
      fix token p tid
      assume a: "\<not> rt_public rt" "gr_authorization r = Some (''Bearer '' @ token)"
        "cx_verify lib time (trim token) access_audience access_issuer = Some p"
        "jget ''purpose'' p = Some (JStr access_purpose)" "gr_tenantId r = Some tid"
        "jget ''tenantId'' p = Some (JStr tid)" "role_of (jget ''role'' p) = Some (ru_role u)"
        "jtruthy (jget ''mustChangePassword'' p) \<longrightarrow> rt_passwordChange rt"
      from a(7) have role: "jget ''role'' p = Some (JStr (role_text (ru_role u)))"
        by (simp add: role_of_text)
      from g(2) a(1) Some have "ru_role u \<in> set (or_else (rt_roles rt) []) \<or> no_roles rt \<and> rt_anyRole rt"
        by (auto simp: roles_guard_def no_roles_def split: if_splits)
      with a role Some show ?thesis by auto
    qed
  qed
qed

section \<open>Sessions\<close>

lemma load_tenant_state [simp]: "snd (load_tenant tid db) = db"
  by (auto simp: load_tenant_def for_tenant_def load_tenant_tx_def split: option.splits)

lemma load_tenant_cong: "tenants db' = tenants db \<Longrightarrow> fst (load_tenant tid db') = fst (load_tenant tid db)"
  by (auto simp: load_tenant_def for_tenant_def load_tenant_tx_def split: option.splits)

lemma load_tenant_Inr: "load_tenant tid db = (Inr n, db') \<Longrightarrow> db' = db \<and> sn_id n = tid \<and> is_uuid tid"
  by (auto simp: load_tenant_def for_tenant_def load_tenant_tx_def split: option.splits if_splits dest: find_SomeD)

theorem login_exact:
  assumes "distinct (map (\<lambda>u. (u_tenantId u, u_email u)) (users db))"
    and "is_uuid tid" and "load_tenant tid db = (Inr n, db)"
  shows "(case login lib e tid email password db of
      (Inr r, db') \<Rightarrow> (\<exists>u \<in> set (users db). u_tenantId u = tid \<and> u_email u = normalize_email email \<and> u_isActive u
          \<and> cx_compare lib password (u_passwordHash u) \<and> r = build_auth_response lib e u n)
    | (Inl err, db') \<Rightarrow> db' = db \<and> err = invalid_credentials
        \<and> \<not> (\<exists>u \<in> set (users db). u_tenantId u = tid \<and> u_email u = normalize_email email \<and> u_isActive u
              \<and> cx_compare lib password (u_passwordHash u)))"
proof -
  let ?P = "\<lambda>u. u_tenantId u = tid \<and> u_email u = normalize_email email"
  have uniq: "u = v" if "u \<in> set (users db)" "?P u" "v \<in> set (users db)" "?P v" for u v
    using distinct_map_eq [OF assms(1) that(1,3)] that by simp
  have lt: "load_tenant tid (db\<lparr>users := us\<rparr>) = (Inr n, db\<lparr>users := us\<rparr>)" for us
    using load_tenant_cong [of "db\<lparr>users := us\<rparr>" db tid] assms(3) by (simp add: prod_eq_iff)
  show ?thesis
  proof (cases "List.find ?P (users db)")
    case None
    then have "login lib e tid email password db = (Inl invalid_credentials, db)"
      using assms(2) by (simp add: login_def for_tenant_def find_user_tx_def)
    moreover have "\<not> ?P u" if "u \<in> set (users db)" for u
      using None that by (simp add: find_None_iff_all)
    ultimately show ?thesis by auto
  next
    case (Some u)
    from find_SomeD [OF Some] have u: "u \<in> set (users db)" "?P u" by auto
    show ?thesis
    proof (cases "u_isActive u \<and> cx_compare lib password (u_passwordHash u)")
      case True
      then have "login lib e tid email password db =
          (Inr (build_auth_response lib e u n), snd (login lib e tid email password db))"
        using assms(2) Some by (simp add: login_def for_tenant_def find_user_tx_def stamp_login_tx_def lt)
      with u True show ?thesis by (metis (mono_tags, lifting) case_prod_conv old.sum.simps(6))
    next
      case False
      then have "login lib e tid email password db = (Inl invalid_credentials, db)"
        using assms(2) Some by (simp add: login_def for_tenant_def find_user_tx_def)
      with u False uniq show ?thesis by auto
    qed
  qed
qed

section \<open>Passwords\<close>

lemma find_update_users:
  assumes "List.find P us = Some u" and "\<And>v. v \<in> set us \<Longrightarrow> P (f v) = P v"
  shows "List.find P (snd (update_rows Q f us)) = Some (if Q u then f u else u)"
  using assms by (induction us) (auto simp: update_rows_def split: if_splits)

text \<open>After a successful password change the user logs in with the new password and is no
  longer forced to change it.\<close>
theorem changed_password_logs_in:
  assumes "change_password lib e tid uid current new db = (Inr r, db')"
    and "cx_compare lib new (cx_hash lib new)"
    and "distinct (map u_id (users db))" and "distinct (map (\<lambda>u. (u_tenantId u, u_email u)) (users db))"
    and "List.find (\<lambda>u. u_id u = uid \<and> u_tenantId u = tid) (users db) = Some u"
    and "normalize_email email = u_email u"
  shows "\<not> sr_mustChangePassword r
    \<and> (\<exists>r'. fst (login lib e' tid email new db') = Inr r' \<and> su_id (sr_user r') = uid \<and> \<not> sr_mustChangePassword r')
    \<and> (\<forall>old. \<not> cx_compare lib old (cx_hash lib new) \<longrightarrow> fst (login lib e' tid email old db') = Inl invalid_credentials)"
proof -
  let ?f = "\<lambda>u. u\<lparr>u_passwordHash := cx_hash lib new, u_mustChangePassword := False\<rparr>"
  let ?P = "\<lambda>v. u_tenantId v = tid \<and> u_email v = normalize_email email"
  from find_SomeD [OF assms(5)] have u: "u \<in> set (users db)" "u_id u = uid" "u_tenantId u = tid" by auto
  have found: "List.find (\<lambda>v. u_id v = u_id u) (users db) = Some u"
    using u(1) distinct_map_eq [OF assms(3)] by (intro find_unique) auto
  from assms(1) obtain n where tid: "is_uuid tid" and act: "u_isActive u"
    and db': "db' = db\<lparr>users := snd (update_rows (\<lambda>v. u_id v = u_id u) ?f (users db))\<rparr>"
    and lt: "load_tenant tid db' = (Inr n, db')" and r: "r = build_auth_response lib e (?f u) n"
    using found assms(5)
    by (auto simp: change_password_def for_tenant_def find_user_tx_def set_password_tx_def
        split: if_splits sum.splits prod.splits dest!: load_tenant_Inr)
  have "List.find ?P (users db) = Some u"
    using u distinct_map_eq [OF assms(4)] assms(6) by (intro find_unique) auto
  from find_update_users [OF this, of ?f] have fu: "List.find ?P (users db') = Some (?f u)"
    by (simp add: db')
  have lt': "load_tenant tid (db'\<lparr>users := us\<rparr>) = (Inr n, db'\<lparr>users := us\<rparr>)" for us
    using load_tenant_cong [of "db'\<lparr>users := us\<rparr>" db' tid] lt by (simp add: prod_eq_iff)
  have "fst (login lib e' tid email new db') = Inr (build_auth_response lib e' (?f u) n)"
    using tid act assms(2) fu lt' by (simp add: login_def for_tenant_def find_user_tx_def stamp_login_tx_def)
  moreover have "fst (login lib e' tid email old db') = Inl invalid_credentials"
    if "\<not> cx_compare lib old (cx_hash lib new)" for old
    using tid act that fu by (simp add: login_def for_tenant_def find_user_tx_def)
  ultimately show ?thesis using u(2) by (simp add: r build_auth_response_def session_user_of_def)
qed

section \<open>Registration and tokens\<close>

theorem registered_user_is_field:
  assumes "register lib e tid p db = (Inr r, db')"
  shows "others tid db' = others tid db
    \<and> (\<exists>u. users db' = users db @ [u] \<and> u_tenantId u = tid \<and> u_role u = FIELD \<and> u_isActive u
        \<and> u_email u = normalize_email (rp_email p) \<and> u_passwordHash u = cx_hash lib (rp_password p)
        \<and> (\<forall>v \<in> set (users db). u_tenantId v = tid \<longrightarrow> u_email v \<noteq> u_email u)
        \<and> su_role (sr_user r) = FIELD \<and> sn_id (sr_tenant r) = tid)"
  using assms
  by (auto simp: register_def for_tenant_def user_create_def Let_def bump_id_def others_def build_auth_response_def
      session_user_of_def split: if_splits sum.splits prod.splits dest!: load_tenant_Inr)

theorem issued_token_is_accepted:
  assumes "cx_verify lib time (ar_accessToken (build_auth_response lib e u n)) access_audience access_issuer = Some p"
    and "list_all (\<lambda>k. jget k p = jget k (jwt_payload u)) [''sub'', ''tenantId'', ''role'', ''purpose'', ''mustChangePassword'']"
    and "u_id u \<noteq> []" and "u_tenantId u \<noteq> []"
    and "trim (ar_accessToken (build_auth_response lib e u n)) = ar_accessToken (build_auth_response lib e u n)"
    and "\<not> rt_public rt" and "u_mustChangePassword u \<longrightarrow> rt_passwordChange rt"
  shows "jwt_auth_guard lib time rt \<lparr>gr_tenantId = Some tid,
      gr_authorization = Some (''Bearer '' @ ar_accessToken (build_auth_response lib e u n))\<rparr> =
    (if tid = u_tenantId u
     then Inr (Some \<lparr>ru_id = Some (JStr (u_id u)), ru_tenantId = Some (JStr (u_tenantId u)), ru_role = u_role u,
            ru_mustChangePassword = u_mustChangePassword u\<rparr>)
     else Inl (Forbidden ''Token does not match tenant for this request''))"
proof -
  let ?t = "ar_accessToken (build_auth_response lib e u n)"
  from assms(2) have g: "jget ''sub'' p = Some (JStr (u_id u))" "jget ''tenantId'' p = Some (JStr (u_tenantId u))"
    "jget ''role'' p = Some (JStr (role_text (u_role u)))" "jget ''purpose'' p = Some (JStr access_purpose)"
    "jget ''mustChangePassword'' p = Some (JBool (u_mustChangePassword u))"
    by (simp_all add: jwt_payload_def)
  then have r: "role_of (jget ''role'' p) = Some (u_role u)" by (simp add: role_of_text)
  have v: "verify_token lib time ?t = Inr p"
    using assms(3,4) r by (simp add: verify_token_def assms(1) g)
  show ?thesis
    using assms(4,6,7) r by (auto simp: jwt_auth_guard_def starts_with_def assms(5) v g)
qed

section \<open>Instances\<close>

definition demo_owner :: user where
  "demo_owner = \<lparr>u_id = ''u1'', u_tenantId = demo_tenant, u_email = ''dana@example.com'', u_passwordHash = ''h:old'',
     u_name = ''Dana'', u_role = OWNER, u_isActive = True, u_skills = [], u_homeLat = None, u_homeLng = None,
     u_mustChangePassword = True, u_lastLoginAt = None, u_createdAt = 100\<rparr>"

definition demo_auth_db :: db where
  "demo_auth_db = empty_db\<lparr>users := [demo_owner], tenants := [\<lparr>tn_id = demo_tenant, tn_name = ''Acme'', tn_vertical = MAINTENANCE,
     tn_subdomain = ''acme'', tn_isActive = True, tn_createdAt = 100\<rparr>]\<rparr>"

definition demo_auth :: auth_lib where
  "demo_auth = \<lparr>cx_hash = (\<lambda>p. ''h:'' @ p), cx_compare = (\<lambda>p h. h = ''h:'' @ p), cx_sign = (\<lambda>_ _ _ _. ''tok''),
     cx_verify = (\<lambda>_ t a i. if t = ''tok'' \<and> a = access_audience \<and> i = access_issuer
       then Some (jwt_payload (demo_owner\<lparr>u_mustChangePassword := False\<rparr>)) else None)\<rparr>"

definition demo_session :: session_tenant where
  "demo_session = \<lparr>sn_id = demo_tenant, sn_name = ''Acme'', sn_subdomain = ''acme'', sn_vertical = MAINTENANCE\<rparr>"

definition demo_owner_route :: route where
  "demo_owner_route = \<lparr>rt_public = False, rt_roles = Some [OWNER], rt_anyRole = False, rt_passwordChange = False\<rparr>"

lemma demo_load: "load_tenant demo_tenant demo_auth_db = (Inr demo_session, demo_auth_db)"
  by (simp add: load_tenant_def for_tenant_def load_tenant_tx_def demo_auth_db_def demo_session_def)

lemma demo_email: "normalize_email '' Dana@Example.com'' = ''dana@example.com''"
  by code_simp

lemma demo_trim: "trim ''tok'' = ''tok''"
  by code_simp

lemma demo_keys_distinct:
  "distinct (map u_id (users demo_auth_db))" "distinct (map (\<lambda>u. (u_tenantId u, u_email u)) (users demo_auth_db))"
  by (simp_all add: demo_auth_db_def)

lemma demo_find_owner:
  "List.find (\<lambda>u. u_id u = ''u1'' \<and> u_tenantId u = demo_tenant) (users demo_auth_db) = Some demo_owner"
  by (simp add: demo_auth_db_def demo_owner_def)

theorem login_exact_witness:
  "\<exists>r db'. login demo_auth demo_env demo_tenant '' Dana@Example.com'' ''old'' demo_auth_db = (Inr r, db')
     \<and> sr_mustChangePassword r
     \<and> login demo_auth demo_env demo_tenant '' Dana@Example.com'' ''no'' demo_auth_db = (Inl invalid_credentials, demo_auth_db)"
proof -
  have ok: "\<exists>u \<in> set (users demo_auth_db). u_tenantId u = demo_tenant \<and> u_email u = normalize_email '' Dana@Example.com''
      \<and> u_isActive u \<and> cx_compare demo_auth ''old'' (u_passwordHash u)"
    and no: "\<not> (\<exists>u \<in> set (users demo_auth_db). u_tenantId u = demo_tenant \<and> u_email u = normalize_email '' Dana@Example.com''
      \<and> u_isActive u \<and> cx_compare demo_auth ''no'' (u_passwordHash u))"
    unfolding demo_email by (simp_all add: demo_auth_db_def demo_owner_def demo_auth_def)
  note exact = login_exact [OF demo_keys_distinct(2) demo_tenant_uuid demo_load, where lib = demo_auth and e = demo_env and email = "'' Dana@Example.com''"]
  obtain x db' where run: "login demo_auth demo_env demo_tenant '' Dana@Example.com'' ''old'' demo_auth_db = (x, db')" by fastforce
  obtain y db'' where bad: "login demo_auth demo_env demo_tenant '' Dana@Example.com'' ''no'' demo_auth_db = (y, db'')" by fastforce
  from exact [where password = "''old''"] run ok obtain r where r: "x = Inr r" "\<exists>u \<in> set (users demo_auth_db). r = build_auth_response demo_auth demo_env u demo_session"
    by (cases x) auto
  from exact [where password = "''no''"] bad no have "y = Inl invalid_credentials \<and> db'' = demo_auth_db"
    by (cases y) auto
  moreover from r(2) have "sr_mustChangePassword r"
    by (simp add: demo_auth_db_def build_auth_response_def demo_owner_def)
  ultimately show ?thesis using run bad r(1) by blast
qed

lemma demo_changed: "\<exists>r db'. change_password demo_auth demo_env demo_tenant ''u1'' ''old'' ''new'' demo_auth_db = (Inr r, db')"
  using demo_load
  by (simp add: change_password_def for_tenant_def find_user_tx_def set_password_tx_def load_tenant_def load_tenant_tx_def
      demo_auth_db_def demo_owner_def demo_auth_def)

theorem changed_password_logs_in_witness:
  "\<exists>r db'. change_password demo_auth demo_env demo_tenant ''u1'' ''old'' ''new'' demo_auth_db = (Inr r, db')
     \<and> (\<exists>r'. fst (login demo_auth demo_env demo_tenant '' Dana@Example.com'' ''new'' db') = Inr r')
     \<and> fst (login demo_auth demo_env demo_tenant '' Dana@Example.com'' ''old'' db') = Inl invalid_credentials"
proof -
  obtain r db' where run: "change_password demo_auth demo_env demo_tenant ''u1'' ''old'' ''new'' demo_auth_db = (Inr r, db')"
    using demo_changed by blast
  have "cx_compare demo_auth ''new'' (cx_hash demo_auth ''new'')" "\<not> cx_compare demo_auth ''old'' (cx_hash demo_auth ''new'')"
    by (simp_all add: demo_auth_def)
  moreover have "normalize_email '' Dana@Example.com'' = u_email demo_owner" by (simp add: demo_email demo_owner_def)
  ultimately show ?thesis
    using changed_password_logs_in [OF run _ demo_keys_distinct demo_find_owner, where email = "'' Dana@Example.com''" and e' = demo_env] run by blast
qed

theorem registered_user_is_field_witness:
  "\<exists>r db'. register demo_auth demo_env demo_tenant \<lparr>rp_email = ''New@Example.com'', rp_password = ''pw'', rp_name = ''New''\<rparr> demo_auth_db
      = (Inr r, db') \<and> su_role (sr_user r) = FIELD \<and> others demo_tenant db' = others demo_tenant demo_auth_db"
proof -
  have "normalize_email ''New@Example.com'' = ''new@example.com''" by code_simp
  then obtain r db' where run: "register demo_auth demo_env demo_tenant
      \<lparr>rp_email = ''New@Example.com'', rp_password = ''pw'', rp_name = ''New''\<rparr> demo_auth_db = (Inr r, db')"
    by (simp add: register_def for_tenant_def user_create_def load_tenant_def load_tenant_tx_def Let_def bump_id_def
        demo_auth_db_def demo_owner_def)
  from registered_user_is_field [OF this] run show ?thesis by blast
qed

theorem issued_token_is_accepted_witness:
  "\<exists>u. jwt_auth_guard demo_auth 7 demo_owner_route \<lparr>gr_tenantId = Some demo_tenant,
      gr_authorization = Some (''Bearer '' @ ''tok'')\<rparr> = Inr (Some u) \<and> ru_role u = OWNER"
proof -
  let ?u = "demo_owner\<lparr>u_mustChangePassword := False\<rparr>"
  have t: "ar_accessToken (build_auth_response demo_auth demo_env ?u demo_session) = ''tok''"
    by (simp add: build_auth_response_def demo_auth_def)
  have v: "cx_verify demo_auth 7 (ar_accessToken (build_auth_response demo_auth demo_env ?u demo_session))
      access_audience access_issuer = Some (jwt_payload ?u)"
    unfolding t by (simp add: demo_auth_def)
  from issued_token_is_accepted [OF v, where rt = demo_owner_route and tid = demo_tenant] t demo_trim show ?thesis
    by (simp add: demo_owner_def demo_owner_route_def demo_tenant_def)
qed

theorem guarded_access_witness:
  "\<exists>u. guards demo_auth 7 demo_owner_route \<lparr>gr_tenantId = Some demo_tenant, gr_authorization = Some ''Bearer tok''\<rparr>
      = Inr (Some u) \<and> ru_role u \<in> {OWNER}"
proof -
  have f: "jget ''purpose'' (jwt_payload (demo_owner\<lparr>u_mustChangePassword := False\<rparr>)) = Some (JStr access_purpose)"
    "jget ''sub'' (jwt_payload (demo_owner\<lparr>u_mustChangePassword := False\<rparr>)) = Some (JStr ''u1'')"
    "jget ''tenantId'' (jwt_payload (demo_owner\<lparr>u_mustChangePassword := False\<rparr>)) = Some (JStr demo_tenant)"
    "jget ''role'' (jwt_payload (demo_owner\<lparr>u_mustChangePassword := False\<rparr>)) = Some (JStr (role_text OWNER))"
    "jget ''mustChangePassword'' (jwt_payload (demo_owner\<lparr>u_mustChangePassword := False\<rparr>)) = Some (JBool False)"
    by (simp_all add: jwt_payload_def demo_owner_def)
  have v: "verify_token demo_auth 7 ''tok'' = Inr (jwt_payload (demo_owner\<lparr>u_mustChangePassword := False\<rparr>))"
    using role_of_text [of "Some (JStr (role_text OWNER))" OWNER]
    by (simp add: verify_token_def demo_auth_def f demo_tenant_def)
  have "guards demo_auth 7 demo_owner_route \<lparr>gr_tenantId = Some demo_tenant, gr_authorization = Some ''Bearer tok''\<rparr>
      = Inr (Some \<lparr>ru_id = Some (JStr ''u1''), ru_tenantId = Some (JStr demo_tenant), ru_role = OWNER, ru_mustChangePassword = False\<rparr>)"
    using role_of_text [of "Some (JStr (role_text OWNER))" OWNER]
    by (simp add: guards_def jwt_auth_guard_def roles_guard_def no_roles_def demo_owner_route_def starts_with_def demo_trim v f demo_tenant_def)
  from guarded_access [OF this] this show ?thesis by (simp add: demo_owner_route_def)
qed

end
