(* ===== verification/Routes.thy ===== *)
theory Routes
  imports Access
begin

text \<open>
  The HTTP interface: every route of every controller with its verb, path and handler, and the
  access policy its decorators give it. Together with the guards of Access this says who can
  reach what.
\<close>

section \<open>Decorators\<close>

definition unmarked :: route where
  "unmarked = \<lparr>rt_public = False, rt_roles = None, rt_anyRole = False, rt_passwordChange = False\<rparr>"

definition public_mark :: "route \<Rightarrow> route" where
  "public_mark rt = rt\<lparr>rt_public := True\<rparr>"

definition roles_mark :: "user_role list \<Rightarrow> route \<Rightarrow> route" where
  "roles_mark rs rt = rt\<lparr>rt_roles := Some rs\<rparr>"

definition any_role_mark :: "route \<Rightarrow> route" where
  "any_role_mark rt = rt\<lparr>rt_anyRole := True\<rparr>"

definition password_change_mark :: "route \<Rightarrow> route" where
  "password_change_mark rt = rt\<lparr>rt_passwordChange := True\<rparr>"

section \<open>Controllers\<close>

record api_route =
  ap_verb :: string
  ap_path :: string
  ap_handler :: string
  ap_policy :: route

definition api :: "string \<Rightarrow> string \<Rightarrow> string \<Rightarrow> route \<Rightarrow> api_route" where
  "api verb path handler policy = \<lparr>ap_verb = verb, ap_path = path, ap_handler = handler, ap_policy = policy\<rparr>"

definition health_routes :: "api_route list" where
  "health_routes =
     [api ''GET'' ''health/live'' ''HealthController.live'' (public_mark unmarked),
      api ''GET'' ''health/ready'' ''HealthController.ready'' (public_mark unmarked)]"

definition auth_routes :: "api_route list" where
  "auth_routes =
     [api ''POST'' ''auth/register'' ''AuthController.register'' (public_mark unmarked),
      api ''GET'' ''auth/me'' ''AuthController.me'' (any_role_mark unmarked),
      api ''POST'' ''auth/login'' ''AuthController.login'' (public_mark unmarked),
      api ''POST'' ''auth/change-password'' ''AuthController.changePassword'' (any_role_mark (password_change_mark unmarked))]"

definition comms_routes :: "api_route list" where
  "comms_routes =
     [api ''POST'' ''comms/tasks/:id/resend-closed-email'' ''CommsController.resend'' (roles_mark [OWNER, MANAGER] unmarked)]"

definition customers_routes :: "api_route list" where
  "customers_routes =
     [api ''GET'' ''customers'' ''CustomersController.findAll'' (any_role_mark unmarked),
      api ''GET'' ''customers/search'' ''CustomersController.search'' (any_role_mark unmarked),
      api ''GET'' ''customers/:id'' ''CustomersController.findOne'' (any_role_mark unmarked),
      api ''POST'' ''customers'' ''CustomersController.create'' (roles_mark [OWNER, MANAGER] unmarked)]"

definition dashboard_routes :: "api_route list" where
  "dashboard_routes =
     [api ''GET'' ''dashboard/stats'' ''DashboardController.stats'' (roles_mark [OWNER, MANAGER] unmarked),
      api ''GET'' ''dashboard/brief'' ''DashboardController.brief'' (roles_mark [OWNER, MANAGER] unmarked),
      api ''GET'' ''dashboard/activation'' ''DashboardController.activation'' (roles_mark [OWNER, MANAGER] unmarked)]"

definition equipment_routes :: "api_route list" where
  "equipment_routes =
     [api ''GET'' ''customers/:customerId/equipment'' ''EquipmentController.list'' (roles_mark [OWNER, MANAGER] unmarked),
      api ''POST'' ''customers/:customerId/equipment'' ''EquipmentController.create'' (roles_mark [OWNER, MANAGER] unmarked),
      api ''PATCH'' ''equipment/:id'' ''EquipmentController.update'' (roles_mark [OWNER, MANAGER] unmarked),
      api ''GET'' ''maintenance/due'' ''EquipmentController.due'' (roles_mark [OWNER, MANAGER] unmarked),
      api ''POST'' ''equipment/:id/remind'' ''EquipmentController.remind'' (roles_mark [OWNER, MANAGER] unmarked)]"

definition public_booking_routes :: "api_route list" where
  "public_booking_routes =
     [api ''GET'' ''public/booking/:token'' ''PublicBookingController.view'' (public_mark unmarked),
      api ''POST'' ''public/booking/:token'' ''PublicBookingController.book'' (public_mark unmarked)]"

definition field_route_routes :: "api_route list" where
  "field_route_routes =
     [api ''GET'' ''field/my-day'' ''FieldRouteController.myDay'' (any_role_mark unmarked),
      api ''POST'' ''tasks/:id/site-location'' ''FieldRouteController.siteLocation'' (any_role_mark unmarked)]"

definition inbound_email_webhook_routes :: "api_route list" where
  "inbound_email_webhook_routes =
     [api ''POST'' ''intake/inbound'' ''InboundEmailWebhookController.receive'' (public_mark unmarked)]"

definition inbound_mailbox_routes :: "api_route list" where
  "inbound_mailbox_routes =
     [api ''GET'' ''intake/mailbox'' ''InboundMailboxController.get'' (roles_mark [OWNER, MANAGER] unmarked),
      api ''POST'' ''intake/mailbox/rotate'' ''InboundMailboxController.rotate'' (roles_mark [OWNER] unmarked)]"

definition intake_routes :: "api_route list" where
  "intake_routes =
     [api ''POST'' ''intake/gmail/sync'' ''IntakeController.syncGmail'' (roles_mark [OWNER, MANAGER] unmarked)]"

definition integrations_routes :: "api_route list" where
  "integrations_routes =
     [api ''GET'' ''integrations'' ''IntegrationsController.listStatus'' (roles_mark [OWNER, MANAGER] unmarked),
      api ''GET'' ''integrations/google/connect'' ''IntegrationsController.connectGoogle'' (roles_mark [OWNER] unmarked),
      api ''GET'' ''integrations/google/callback'' ''IntegrationsController.googleCallback'' (public_mark unmarked)]"

definition disconnect_routes :: "api_route list" where
  "disconnect_routes =
     [api ''DELETE'' ''integrations/:provider'' ''IntegrationsController.disconnect'' (roles_mark [OWNER] unmarked)]"

definition inventory_routes :: "api_route list" where
  "inventory_routes =
     [api ''GET'' ''inventory'' ''InventoryController.findAll'' (any_role_mark unmarked),
      api ''GET'' ''inventory/low-stock'' ''InventoryController.findLowStock'' (roles_mark [OWNER, MANAGER] unmarked),
      api ''POST'' ''inventory'' ''InventoryController.create'' (roles_mark [OWNER, MANAGER] unmarked),
      api ''PATCH'' ''inventory/:id/adjust'' ''InventoryController.adjust'' (roles_mark [OWNER, MANAGER] unmarked),
      api ''PATCH'' ''inventory/:id/cost'' ''InventoryController.setCost'' (roles_mark [OWNER, MANAGER] unmarked)]"

definition invoicing_routes :: "api_route list" where
  "invoicing_routes =
     [api ''GET'' ''invoices'' ''InvoicingController.findAll'' (roles_mark [OWNER, MANAGER] unmarked),
      api ''GET'' ''invoices/:id'' ''InvoicingController.findOne'' (roles_mark [OWNER, MANAGER] unmarked),
      api ''POST'' ''invoices/generate'' ''InvoicingController.generate'' (roles_mark [OWNER, MANAGER] unmarked)]"

definition job_type_templates_routes :: "api_route list" where
  "job_type_templates_routes =
     [api ''GET'' ''job-type-templates'' ''JobTypeTemplatesController.findAll'' (any_role_mark unmarked),
      api ''GET'' ''job-type-templates/:id'' ''JobTypeTemplatesController.findOne'' (any_role_mark unmarked),
      api ''POST'' ''job-type-templates'' ''JobTypeTemplatesController.create'' (roles_mark [OWNER, MANAGER] unmarked)]"

definition onboarding_routes :: "api_route list" where
  "onboarding_routes =
     [api ''POST'' ''onboarding/start'' ''OnboardingController.start'' (public_mark unmarked),
      api ''POST'' ''onboarding/:id/message'' ''OnboardingController.sendMessage'' (public_mark unmarked),
      api ''GET'' ''onboarding/:id/summary'' ''OnboardingController.getSummary'' (public_mark unmarked),
      api ''POST'' ''onboarding/:id/documents'' ''OnboardingController.uploadDocument'' (public_mark unmarked)]"

definition finalize_routes :: "api_route list" where
  "finalize_routes =
     [api ''POST'' ''onboarding/:id/finalize'' ''OnboardingController.finalize'' (public_mark unmarked)]"

definition price_list_routes :: "api_route list" where
  "price_list_routes =
     [api ''GET'' ''price-list'' ''PriceListController.findAll'' (roles_mark [OWNER, MANAGER] unmarked),
      api ''POST'' ''price-list'' ''PriceListController.create'' (roles_mark [OWNER, MANAGER] unmarked),
      api ''PATCH'' ''price-list/:id'' ''PriceListController.update'' (roles_mark [OWNER, MANAGER] unmarked)]"

definition quotes_routes :: "api_route list" where
  "quotes_routes =
     [api ''GET'' ''quotes'' ''QuotesController.list'' (roles_mark [OWNER, MANAGER] unmarked),
      api ''GET'' ''quotes/:id'' ''QuotesController.get'' (roles_mark [OWNER, MANAGER] unmarked),
      api ''POST'' ''quotes'' ''QuotesController.create'' (roles_mark [OWNER, MANAGER] unmarked),
      api ''POST'' ''quotes/:id/send'' ''QuotesController.send'' (roles_mark [OWNER, MANAGER] unmarked)]"

definition public_quote_routes :: "api_route list" where
  "public_quote_routes =
     [api ''GET'' ''public/quote/:token'' ''PublicQuoteController.view'' (public_mark unmarked),
      api ''POST'' ''public/quote/:token/approve'' ''PublicQuoteController.approve'' (public_mark unmarked),
      api ''POST'' ''public/quote/:token/decline'' ''PublicQuoteController.decline'' (public_mark unmarked)]"

definition reports_routes :: "api_route list" where
  "reports_routes =
     [api ''GET'' ''reports/profitability'' ''ReportsController.profitability'' (roles_mark [OWNER, MANAGER] unmarked)]"

definition scheduling_routes :: "api_route list" where
  "scheduling_routes =
     [api ''POST'' ''scheduling/:taskId/assign'' ''SchedulingController.assign'' (roles_mark [OWNER, MANAGER] unmarked)]"

definition task_status_routes :: "api_route list" where
  "task_status_routes =
     [api ''POST'' ''tasks/:id/share-link'' ''TaskStatusController.share'' (any_role_mark unmarked),
      api ''PATCH'' ''tasks/:id/schedule'' ''TaskStatusController.schedule'' (roles_mark [OWNER, MANAGER] unmarked),
      api ''POST'' ''tasks/:id/on-the-way'' ''TaskStatusController.onTheWay'' (any_role_mark unmarked)]"

definition public_task_status_routes :: "api_route list" where
  "public_task_status_routes =
     [api ''GET'' ''public/status/:token'' ''PublicTaskStatusController.view'' (public_mark unmarked),
      api ''POST'' ''public/status/:token/confirm'' ''PublicTaskStatusController.confirm'' (public_mark unmarked),
      api ''POST'' ''public/status/:token/reschedule'' ''PublicTaskStatusController.reschedule'' (public_mark unmarked)]"

definition tasks_routes :: "api_route list" where
  "tasks_routes =
     [api ''GET'' ''tasks'' ''TasksController.findAll'' (any_role_mark unmarked),
      api ''GET'' ''tasks/:id'' ''TasksController.findOne'' (any_role_mark unmarked),
      api ''POST'' ''tasks/manual'' ''TasksController.createManual'' (roles_mark [OWNER, MANAGER] unmarked),
      api ''POST'' ''tasks/:id/close'' ''TasksController.close'' (any_role_mark unmarked)]"

definition all_routes :: "api_route list" where
  "all_routes =
     health_routes @ auth_routes @ comms_routes @ customers_routes @
     dashboard_routes @ equipment_routes @ public_booking_routes @ field_route_routes @
     inbound_email_webhook_routes @ inbound_mailbox_routes @ intake_routes @ integrations_routes @
     disconnect_routes @ inventory_routes @ invoicing_routes @ job_type_templates_routes @
     onboarding_routes @ finalize_routes @ price_list_routes @ quotes_routes @
     public_quote_routes @ reports_routes @ scheduling_routes @ task_status_routes @
     public_task_status_routes @ tasks_routes"

section \<open>Who reaches what\<close>

definition public_handlers :: "string list" where
  "public_handlers =
     [''HealthController.live'', ''HealthController.ready'', ''AuthController.register'', ''AuthController.login'',
      ''PublicBookingController.view'', ''PublicBookingController.book'', ''InboundEmailWebhookController.receive'',
      ''IntegrationsController.googleCallback'', ''OnboardingController.start'', ''OnboardingController.sendMessage'',
      ''OnboardingController.getSummary'', ''OnboardingController.uploadDocument'', ''OnboardingController.finalize'',
      ''PublicQuoteController.view'', ''PublicQuoteController.approve'', ''PublicQuoteController.decline'',
      ''PublicTaskStatusController.view'', ''PublicTaskStatusController.confirm'', ''PublicTaskStatusController.reschedule'']"

definition technician_handlers :: "string list" where
  "technician_handlers =
     [''AuthController.me'', ''AuthController.changePassword'', ''CustomersController.findAll'', ''CustomersController.search'',
      ''CustomersController.findOne'', ''FieldRouteController.myDay'', ''FieldRouteController.siteLocation'',
      ''InventoryController.findAll'', ''JobTypeTemplatesController.findAll'', ''JobTypeTemplatesController.findOne'',
      ''TaskStatusController.share'', ''TaskStatusController.onTheWay'', ''TasksController.findAll'',
      ''TasksController.findOne'', ''TasksController.close'']"

definition owner_handlers :: "string list" where
  "owner_handlers = [''InboundMailboxController.rotate'', ''IntegrationsController.connectGoogle'', ''IntegrationsController.disconnect'']"

definition admits :: "user_role \<Rightarrow> api_route \<Rightarrow> bool" where
  "admits role a \<longleftrightarrow> roles_guard (ap_policy a) (Some \<lparr>ru_id = None, ru_tenantId = None, ru_role = role,
     ru_mustChangePassword = False\<rparr>) = Inr () \<and> \<not> rt_public (ap_policy a)"

lemma admits_any: "\<not> rt_public (ap_policy a) \<Longrightarrow> roles_guard (ap_policy a) (Some u) = Inr () \<longleftrightarrow> admits (ru_role u) a"
  by (simp add: admits_def roles_guard_def)

lemma admitted:
  "map ap_handler (filter (\<lambda>a. rt_public (ap_policy a)) all_routes) = public_handlers"
  "map ap_handler (filter (admits FIELD) all_routes) = technician_handlers"
  "map ap_handler (filter (\<lambda>a. admits OWNER a \<and> \<not> admits MANAGER a) all_routes) = owner_handlers"
  "map ap_handler (filter (\<lambda>a. rt_passwordChange (ap_policy a)) all_routes) = [''AuthController.changePassword'']"
  "list_all (\<lambda>a. rt_public (ap_policy a) \<longleftrightarrow> \<not> admits OWNER a) all_routes"
  "list_all (\<lambda>a. rt_public (ap_policy a) \<longrightarrow> no_roles (ap_policy a)) all_routes"
  "list_all (\<lambda>a. admits MANAGER a \<longrightarrow> admits OWNER a) all_routes"
  "distinct (map ap_handler all_routes)"
  by code_simp+

lemma filtered_handler:
  assumes "map ap_handler (filter P all_routes) = hs" and "a \<in> set all_routes"
  shows "P a \<longleftrightarrow> ap_handler a \<in> set hs"
proof
  show "P a \<Longrightarrow> ap_handler a \<in> set hs" using assms by auto
  assume "ap_handler a \<in> set hs"
  then obtain b where "b \<in> set all_routes" "P b" "ap_handler b = ap_handler a" using assms(1) by auto
  with distinct_map_eq [OF admitted(8) this(1) assms(2)] show "P a" by simp
qed

lemma owner_not_technician: "list_all (\<lambda>h. h \<notin> set technician_handlers) owner_handlers"
  by code_simp

lemma guard_password:
  "jwt_auth_guard lib time rt r = Inr (Some u) \<Longrightarrow> \<not> rt_public rt \<and> (ru_mustChangePassword u \<longrightarrow> rt_passwordChange rt)"
  by (auto simp: jwt_auth_guard_def split: if_splits option.splits sum.splits)

text \<open>C20. A technician reaches only the fifteen technician routes, the three owner routes admit
  owners only, only the listed public routes are reached without a user, and a user who must
  change the password reaches that route alone.\<close>
theorem route_reach:
  assumes "a \<in> set all_routes" and "guards lib time (ap_policy a) r = Inr usr"
  shows "(usr = None \<longleftrightarrow> ap_handler a \<in> set public_handlers)
    \<and> (\<forall>u. usr = Some u \<longrightarrow>
        (ru_role u = FIELD \<longrightarrow> ap_handler a \<in> set technician_handlers)
      \<and> (ap_handler a \<in> set owner_handlers \<longrightarrow> ru_role u = OWNER)
      \<and> (ru_mustChangePassword u \<longrightarrow> ap_handler a = ''AuthController.changePassword''))"
proof -
  from assms(2) have g: "jwt_auth_guard lib time (ap_policy a) r = Inr usr" "roles_guard (ap_policy a) usr = Inr ()"
    by (auto simp: guards_def split: sum.splits)
  note in_lists = admitted(1-4) [THEN filtered_handler, OF assms(1)]
  show ?thesis
  proof (cases usr)
    case None
    with g(1) have "rt_public (ap_policy a)"
      by (auto simp: jwt_auth_guard_def split: if_splits option.splits sum.splits)
    with None in_lists(1) show ?thesis by simp
  next
    case (Some u)
    with g(1) guard_password have pub: "\<not> rt_public (ap_policy a)"
      and pw: "ru_mustChangePassword u \<longrightarrow> rt_passwordChange (ap_policy a)" by blast+
    have adm: "admits (ru_role u) a" using g(2) Some admits_any [OF pub, of u] by simp
    have "ru_role u = OWNER" if "ap_handler a \<in> set owner_handlers"
    proof (cases "ru_role u")
      case FIELD
      with adm in_lists(2) owner_not_technician that show ?thesis by (auto simp: list_all_iff)
    next
      case MANAGER
      with adm in_lists(3) that show ?thesis by auto
    qed
    with Some pub pw adm in_lists show ?thesis by auto
  qed
qed

definition demo_tasks_route :: api_route where
  "demo_tasks_route = api ''GET'' ''tasks'' ''TasksController.findAll'' (any_role_mark unmarked)"

theorem route_reach_witness:
  "\<exists>u. guards demo_auth 7 (ap_policy demo_tasks_route) \<lparr>gr_tenantId = Some demo_tenant, gr_authorization = Some ''Bearer tok''\<rparr>
      = Inr (Some u) \<and> ap_handler demo_tasks_route \<notin> set public_handlers"
proof -
  let ?r = "\<lparr>gr_tenantId = Some demo_tenant, gr_authorization = Some ''Bearer tok''\<rparr>"
  have p: "ap_policy demo_tasks_route = \<lparr>rt_public = False, rt_roles = None, rt_anyRole = True, rt_passwordChange = False\<rparr>"
    by (simp add: demo_tasks_route_def api_def any_role_mark_def unmarked_def)
  have "verify_token demo_auth 7 ''tok'' = Inr (jwt_payload (demo_owner\<lparr>u_mustChangePassword := False\<rparr>))"
    by (simp add: verify_token_def demo_auth_def jwt_payload_def demo_owner_def demo_tenant_def role_of_def)
  then obtain u where run: "guards demo_auth 7 (ap_policy demo_tasks_route) ?r = Inr (Some u)"
    by (simp add: p guards_def jwt_auth_guard_def roles_guard_def no_roles_def starts_with_def demo_trim demo_tenant_def
        jwt_payload_def demo_owner_def)
  have "demo_tasks_route \<in> set all_routes" by (simp add: all_routes_def tasks_routes_def demo_tasks_route_def)
  from route_reach [OF this run] run show ?thesis by blast
qed

end
