(* ===== verification/Idempotency.thy ===== *)
theory Idempotency
  imports Database Bytes
begin

text \<open>
  common/interceptors/idempotency.interceptor.ts: the Idempotency-Key of a request. A request
  claims its key, runs its handler and stores the answer, or gives the key back when the
  handler fails; a later request with the key gets the stored answer. SHA-256, the text of a
  JavaScript number and the locale order of texts are parameters.
\<close>

section \<open>Hashing a body\<close>

record body_lib =
  hl_sha256 :: "string \<Rightarrow> string"
  hl_number :: "rat \<Rightarrow> string"
  hl_le :: "string \<Rightarrow> string \<Rightarrow> bool"

text \<open>\<open>JSON.stringify\<close> of a text.\<close>

definition json_escape :: "char \<Rightarrow> string" where
  "json_escape c =
     (let n = (of_char c :: nat); esc = CHR 0x5C
      in if n = 34 then [esc, CHR 0x22]
         else if n = 92 then [esc, esc]
         else if n = 8 then [esc, CHR ''b'']
         else if n = 9 then [esc, CHR ''t'']
         else if n = 10 then [esc, CHR ''n'']
         else if n = 12 then [esc, CHR ''f'']
         else if n = 13 then [esc, CHR ''r'']
         else if n < 32 then [esc, CHR ''u'', CHR ''0'', CHR ''0'', hex_lower (n div 16), hex_lower (n mod 16)]
         else [c])"

definition json_quote :: "string \<Rightarrow> string" where
  "json_quote s = [CHR 0x22] @ concat (map json_escape s) @ [CHR 0x22]"

fun stable_stringify :: "body_lib \<Rightarrow> json \<Rightarrow> string" where
  "stable_stringify lib JNull = ''null''"
| "stable_stringify lib (JBool b) = (if b then ''true'' else ''false'')"
| "stable_stringify lib (JNum q) = hl_number lib q"
| "stable_stringify lib (JStr s) = json_quote s"
| "stable_stringify lib (JArr xs) = ''['' @ join_with '','' (map (stable_stringify lib) xs) @ '']''"
| "stable_stringify lib (JObj kvs) = ''{'' @ join_with '',''
     (map (\<lambda>(k, t). json_quote k @ '':'' @ t)
        (sort_by (\<lambda>x y. hl_le lib (fst x) (fst y)) (map (\<lambda>(k, v). (k, stable_stringify lib v)) kvs))) @ ''}''"

definition hash_body :: "body_lib \<Rightarrow> json option \<Rightarrow> string" where
  "hash_body lib body = hl_sha256 lib (case body of None \<Rightarrow> ''null'' | Some j \<Rightarrow> stable_stringify lib j)"

section \<open>The interceptor\<close>

record idem_request =
  iq_method :: string
  iq_path :: string
  iq_routePath :: "string option"
  iq_key :: "string option"
  iq_tenantId :: "string option"
  iq_body :: "json option"

definition mutating :: "string list" where
  "mutating = [''POST'', ''PUT'', ''PATCH'', ''DELETE'']"

definition ttl_ms :: int where
  "ttl_ms = 24 * 3600000"

type_synonym idem_key = "string \<times> string \<times> string"

text \<open>The tenant, key and endpoint of a request that carries a key; None when it passes through.\<close>

definition idem_key_of :: "idem_request \<Rightarrow> idem_key option" where
  "idem_key_of r =
     (let key = map_option trim (iq_key r)
      in if \<not> truthy key \<or> iq_method r \<notin> set mutating \<or> \<not> truthy (iq_tenantId r) then None
         else Some (the (iq_tenantId r), the key, iq_method r @ '' '' @ or_else (iq_routePath r) (iq_path r)))"

definition same_idem_key :: "idem_key \<Rightarrow> idempotency_key \<Rightarrow> bool" where
  "same_idem_key k row \<longleftrightarrow> (ik_tenantId row, ik_key row, ik_endpoint row) = k"

definition key_create_tx :: "env \<Rightarrow> idem_key \<Rightarrow> string \<Rightarrow> unit tx" where
  "key_create_tx e k hash db =
     (if list_ex (same_idem_key k) (idempotency_keys db) then Inl (PrismaKnown ''P2002'')
      else Inr ((), db\<lparr>idempotency_keys := idempotency_keys db @
        [\<lparr>ik_tenantId = fst k, ik_key = fst (snd k), ik_endpoint = snd (snd k), ik_requestHash = hash,
          ik_responseBody = None, ik_statusCode = None, ik_expiresAt = now e + ttl_ms\<rparr>]\<rparr>))"

definition key_find_tx :: "idem_key \<Rightarrow> idempotency_key option tx" where
  "key_find_tx k db = Inr (List.find (same_idem_key k) (idempotency_keys db), db)"

text \<open>None: the key is now ours. A result: the answer to give again.\<close>

definition claim_key :: "env \<Rightarrow> idem_key \<Rightarrow> string \<Rightarrow> (nat \<times> json option) option svc" where
  "claim_key e k hash db =
     (case for_tenant (fst k) (key_create_tx e k hash) db of
        (Inr _, db1) \<Rightarrow> (Inr None, db1)
      | (Inl err, db1) \<Rightarrow>
          if \<not> is_unique_violation err then (Inl err, db1)
          else (case for_tenant (fst k) (key_find_tx k) db1 of
             (Inl err, db2) \<Rightarrow> (Inl err, db2)
           | (Inr None, db2) \<Rightarrow> (Inl (Conflict (''Idempotency key is being processed '' @ utf8 [8212] @ '' retry shortly'')), db2)
           | (Inr (Some prior), db2) \<Rightarrow>
               if ik_requestHash prior \<noteq> hash
               then (Inl (Unprocessable ''This Idempotency-Key was already used with a different request body''), db2)
               else (case ik_statusCode prior of
                   None \<Rightarrow> (Inl (Conflict ''A request with this Idempotency-Key is still in progress''), db2)
                 | Some code \<Rightarrow> (Inr (Some (code, ik_responseBody prior)), db2))))"

text \<open>What happens to a request before its handler.\<close>

datatype idem_outcome = Pass | Run | Replay nat "json option" | Refuse http_error

definition begin_request :: "body_lib \<Rightarrow> env \<Rightarrow> idem_request \<Rightarrow> db \<Rightarrow> idem_outcome \<times> db" where
  "begin_request lib e r db =
     (case idem_key_of r of
        None \<Rightarrow> (Pass, db)
      | Some k \<Rightarrow>
          if length (fst (snd k)) < 8 \<or> 200 < length (fst (snd k))
          then (Refuse (Unprocessable ''Idempotency-Key must be between 8 and 200 characters''), db)
          else (case claim_key e k (hash_body lib (iq_body r)) db of
                  (Inl err, db1) \<Rightarrow> (Refuse err, db1)
                | (Inr None, db1) \<Rightarrow> (Run, db1)
                | (Inr (Some (code, body)), db1) \<Rightarrow> (Replay code body, db1)))"

text \<open>Prisma refuses a bare null for a JSON column; the error is logged and the row stays as it is.\<close>

definition store_tx :: "idem_key \<Rightarrow> nat \<Rightarrow> json option \<Rightarrow> unit tx" where
  "store_tx k code body db =
     (if body = Some JNull then Inl (Thrown ''PrismaClientValidationError'')
      else Inr ((), db\<lparr>idempotency_keys := snd (update_rows (same_idem_key k)
        (\<lambda>row. row\<lparr>ik_statusCode := Some code, ik_responseBody := (case body of None \<Rightarrow> ik_responseBody row | Some _ \<Rightarrow> body)\<rparr>)
        (idempotency_keys db))\<rparr>))"

definition store_answer :: "idem_key \<Rightarrow> nat \<Rightarrow> json option \<Rightarrow> db \<Rightarrow> db" where
  "store_answer k code body db = snd (for_tenant (fst k) (store_tx k code body) db)"

definition release_tx :: "idem_key \<Rightarrow> unit tx" where
  "release_tx k db = Inr ((), db\<lparr>idempotency_keys :=
     filter (\<lambda>row. \<not> (same_idem_key k row \<and> ik_statusCode row = None)) (idempotency_keys db)\<rparr>)"

definition release_key :: "idem_key \<Rightarrow> db \<Rightarrow> db" where
  "release_key k db = snd (for_tenant (fst k) (release_tx k) db)"

text \<open>One whole request whose handler answers or throws, with nothing in between.\<close>

type_synonym handler_fn = "db \<Rightarrow> (http_error + json option) \<times> db"

definition intercept :: "body_lib \<Rightarrow> env \<Rightarrow> nat \<Rightarrow> handler_fn \<Rightarrow> idem_request \<Rightarrow> db \<Rightarrow> (http_error + nat \<times> json option) \<times> db" where
  "intercept lib e code h r db =
     (case begin_request lib e r db of
        (Refuse err, db1) \<Rightarrow> (Inl err, db1)
      | (Replay c body, db1) \<Rightarrow> (Inr (c, body), db1)
      | (Pass, db1) \<Rightarrow> (case h db1 of (Inl err, db2) \<Rightarrow> (Inl err, db2) | (Inr body, db2) \<Rightarrow> (Inr (code, body), db2))
      | (Run, db1) \<Rightarrow>
          (case h db1 of
             (Inl err, db2) \<Rightarrow> (Inl err, release_key (the (idem_key_of r)) db2)
           | (Inr body, db2) \<Rightarrow> (Inr (code, body), store_answer (the (idem_key_of r)) code body db2)))"

section \<open>Overlapping requests\<close>

text \<open>
  The requests of all clients as steps: a request begins; a running handler finishes or throws,
  having changed anything but the keys; a process dies with its running requests; anything else
  changes the database. \<open>im_completed\<close> is the history of completed handlers.
\<close>

record idem_sys =
  im_db :: db
  im_running :: "idem_key list"
  im_completed :: "idem_key list"

definition same_keys :: "db \<Rightarrow> db \<Rightarrow> bool" where
  "same_keys db db' \<longleftrightarrow> idempotency_keys db' = idempotency_keys db"

inductive idem_step :: "body_lib \<Rightarrow> idem_sys \<Rightarrow> idem_sys \<Rightarrow> bool" for lib where
  begin_run: "begin_request lib e r (im_db s) = (Run, db') \<Longrightarrow> idem_key_of r = Some k \<Longrightarrow>
     idem_step lib s (s\<lparr>im_db := db', im_running := k # im_running s\<rparr>)"
| begin_other: "begin_request lib e r (im_db s) = (oc, db') \<Longrightarrow> oc \<noteq> Run \<Longrightarrow> idem_step lib s (s\<lparr>im_db := db'\<rparr>)"
| finish: "k \<in> set (im_running s) \<Longrightarrow> same_keys (im_db s) db' \<Longrightarrow> body \<noteq> Some JNull \<Longrightarrow>
     idem_step lib s (s\<lparr>im_db := store_answer k code body db', im_running := remove1 k (im_running s),
       im_completed := k # im_completed s\<rparr>)"
| throw: "k \<in> set (im_running s) \<Longrightarrow> same_keys (im_db s) db' \<Longrightarrow>
     idem_step lib s (s\<lparr>im_db := release_key k db', im_running := remove1 k (im_running s)\<rparr>)"
| dies: "idem_step lib s (s\<lparr>im_running := filter P (im_running s)\<rparr>)"
| business: "same_keys (im_db s) db' \<Longrightarrow> idem_step lib s (s\<lparr>im_db := db'\<rparr>)"

inductive_cases idem_stepE: "idem_step lib s s'"

section \<open>One completion per key\<close>

definition row_key :: "idempotency_key \<Rightarrow> idem_key" where
  "row_key row = (ik_tenantId row, ik_key row, ik_endpoint row)"

definition row_of :: "idem_key \<Rightarrow> db \<Rightarrow> idempotency_key option" where
  "row_of k db = List.find (\<lambda>row. row_key row = k) (idempotency_keys db)"

lemma same_idem_key_eq: "same_idem_key k = (\<lambda>row. row_key row = k)"
  by (simp add: fun_eq_iff same_idem_key_def row_key_def)

lemma row_key_update [simp]:
  "row_key (row\<lparr>ik_statusCode := c\<rparr>) = row_key row" "row_key (row\<lparr>ik_responseBody := b\<rparr>) = row_key row"
  by (simp_all add: row_key_def)

lemma row_of_cong: "same_keys db db' \<Longrightarrow> row_of k db' = row_of k db"
  by (simp add: same_keys_def row_of_def)

lemma row_of_None: "row_of k db = None \<longleftrightarrow> k \<notin> row_key ` set (idempotency_keys db)"
  by (auto simp: row_of_def find_None_iff_all same_idem_key_eq)

lemma find_map_keep:
  assumes "\<And>x. P (f x) = P x"
  shows "List.find P (map f xs) = map_option f (List.find P xs)"
  using assms by (induction xs) auto

lemma find_append: "List.find P (xs @ ys) = (case List.find P xs of None \<Rightarrow> List.find P ys | Some x \<Rightarrow> Some x)"
  by (induction xs) auto

lemma store_rows:
  assumes "is_uuid (fst k)" and "body \<noteq> Some JNull"
  shows "row_of k' (store_answer k code body db) =
      (if k' = k then map_option (\<lambda>row. row\<lparr>ik_statusCode := Some code,
          ik_responseBody := (case body of None \<Rightarrow> ik_responseBody row | Some _ \<Rightarrow> body)\<rparr>) (row_of k db) else row_of k' db)"
    and "map row_key (idempotency_keys (store_answer k code body db)) = map row_key (idempotency_keys db)"
proof -
  let ?f = "\<lambda>row. row\<lparr>ik_statusCode := Some code, ik_responseBody := (case body of None \<Rightarrow> ik_responseBody row | Some _ \<Rightarrow> body)\<rparr>"
  have s: "idempotency_keys (store_answer k code body db) = map (\<lambda>row. if same_idem_key k row then ?f row else row) (idempotency_keys db)"
    using assms by (simp add: store_answer_def for_tenant_def store_tx_def update_rows_def)
  have same: "row_key (if same_idem_key k row then ?f row else row) = row_key row" for row
    by simp
  then show "map row_key (idempotency_keys (store_answer k code body db)) = map row_key (idempotency_keys db)"
    by (simp add: s)
  have "row_of k' (store_answer k code body db) = map_option (\<lambda>row. if same_idem_key k row then ?f row else row) (row_of k' db)"
    unfolding row_of_def s by (rule find_map_keep) (simp only: same)
  then show "row_of k' (store_answer k code body db) = (if k' = k then map_option ?f (row_of k db) else row_of k' db)"
    by (cases "row_of k' db") (auto simp: row_of_def same_idem_key_eq dest: find_SomeD)
qed

lemma release_rows:
  assumes "is_uuid (fst k)" and "distinct (map row_key (idempotency_keys db))"
  shows "row_of k' (release_key k db) =
      (if k' = k then (case row_of k db of Some row \<Rightarrow> if ik_statusCode row = None then None else Some row | None \<Rightarrow> None)
       else row_of k' db)"
    and "distinct (map row_key (idempotency_keys (release_key k db)))"
proof -
  let ?keep = "\<lambda>row. \<not> (same_idem_key k row \<and> ik_statusCode row = None)"
  have s: "idempotency_keys (release_key k db) = filter ?keep (idempotency_keys db)"
    using assms(1) by (simp add: release_key_def for_tenant_def release_tx_def)
  show "distinct (map row_key (idempotency_keys (release_key k db)))"
    unfolding s by (rule distinct_map_filter [OF assms(2)])
  have "List.find (\<lambda>row. row_key row = k') (filter ?keep rows) =
      (if k' = k then (case List.find (\<lambda>row. row_key row = k) rows of Some row \<Rightarrow> if ik_statusCode row = None then None else Some row | None \<Rightarrow> None)
       else List.find (\<lambda>row. row_key row = k') rows)" if "distinct (map row_key rows)" for rows
    using that
  proof (induction rows)
    case (Cons row rows)
    have "List.find (\<lambda>row. row_key row = k) (filter ?keep rows) = None" if "row_key row = k"
      using Cons.prems that by (auto simp: find_None_iff_all same_idem_key_eq) (metis imageI)+
    with Cons show ?case by (auto simp: same_idem_key_eq)
  qed simp
  from this [OF assms(2)] show "row_of k' (release_key k db) =
      (if k' = k then (case row_of k db of Some row \<Rightarrow> if ik_statusCode row = None then None else Some row | None \<Rightarrow> None)
       else row_of k' db)"
    by (simp add: row_of_def s)
qed

lemma begin_request_cases:
  assumes "begin_request lib e r db = (oc, db')"
  obtains (quiet) "db' = db" "oc \<noteq> Run"
  | (claimed) k where "oc = Run" "idem_key_of r = Some k" "is_uuid (fst k)" "row_of k db = None"
      "idempotency_keys db' = idempotency_keys db @ [\<lparr>ik_tenantId = fst k, ik_key = fst (snd k), ik_endpoint = snd (snd k),
         ik_requestHash = hash_body lib (iq_body r), ik_responseBody = None, ik_statusCode = None, ik_expiresAt = now e + ttl_ms\<rparr>]"
proof (cases "\<exists>k. idem_key_of r = Some k \<and> \<not> (length (fst (snd k)) < 8 \<or> 200 < length (fst (snd k)))
    \<and> is_uuid (fst k) \<and> \<not> list_ex (same_idem_key k) (idempotency_keys db)")
  case True
  then obtain k where k: "idem_key_of r = Some k" "\<not> (length (fst (snd k)) < 8 \<or> 200 < length (fst (snd k)))"
    "is_uuid (fst k)" "\<not> list_ex (same_idem_key k) (idempotency_keys db)" by blast
  then have "row_of k db = None" by (auto simp: row_of_def find_None_iff_all list_ex_iff same_idem_key_eq)
  with k assms claimed [of k] show ?thesis
    by (auto simp: begin_request_def claim_key_def for_tenant_def key_create_tx_def)
next
  case False
  then have "oc \<noteq> Run \<and> db' = db" using assms
    by (auto simp: begin_request_def claim_key_def for_tenant_def key_create_tx_def key_find_tx_def
        split: option.splits if_splits)
  with quiet show ?thesis by simp
qed

definition idem_ok :: "idem_sys \<Rightarrow> bool" where
  "idem_ok s \<longleftrightarrow> distinct (map row_key (idempotency_keys (im_db s)))
     \<and> distinct (im_running s) \<and> distinct (im_completed s)
     \<and> list_all (\<lambda>k. is_uuid (fst k) \<and> (\<exists>row. row_of k (im_db s) = Some row \<and> ik_statusCode row = None)) (im_running s)
     \<and> list_all (\<lambda>k. \<exists>row. row_of k (im_db s) = Some row \<and> ik_statusCode row \<noteq> None) (im_completed s)"

text \<open>A step about one key.\<close>

lemma idem_ok_change:
  assumes "idem_ok s" and "distinct (map row_key (idempotency_keys db'))"
    and "\<And>j. j \<noteq> k \<Longrightarrow> row_of j db' = row_of j (im_db s)" and "distinct run" and "distinct fin"
    and "\<And>j. j \<in> set run \<Longrightarrow> j \<noteq> k \<Longrightarrow> j \<in> set (im_running s)"
    and "\<And>j. j \<in> set fin \<Longrightarrow> j \<noteq> k \<Longrightarrow> j \<in> set (im_completed s)"
    and "k \<in> set run \<Longrightarrow> is_uuid (fst k) \<and> (\<exists>row. row_of k db' = Some row \<and> ik_statusCode row = None)"
    and "k \<in> set fin \<Longrightarrow> \<exists>row. row_of k db' = Some row \<and> ik_statusCode row \<noteq> None"
  shows "idem_ok \<lparr>im_db = db', im_running = run, im_completed = fin\<rparr>"
proof -
  have "is_uuid (fst j) \<and> (\<exists>row. row_of j db' = Some row \<and> ik_statusCode row = None)" if "j \<in> set run" for j
  proof (cases "j = k")
    case False
    then show ?thesis using assms(1,3,6) that unfolding idem_ok_def list_all_iff by metis
  qed (use assms(8) that in simp)
  moreover have "\<exists>row. row_of j db' = Some row \<and> ik_statusCode row \<noteq> None" if "j \<in> set fin" for j
  proof (cases "j = k")
    case False
    then show ?thesis using assms(1,3,7) that unfolding idem_ok_def list_all_iff by metis
  qed (use assms(9) that in simp)
  ultimately show ?thesis using assms(2,4,5) by (simp add: idem_ok_def list_all_iff)
qed

lemma running_row:
  "idem_ok s \<Longrightarrow> k \<in> set (im_running s) \<Longrightarrow>
    is_uuid (fst k) \<and> (\<exists>row. row_of k (im_db s) = Some row \<and> ik_statusCode row = None) \<and> k \<notin> set (im_completed s)"
  unfolding idem_ok_def list_all_iff by (metis option.inject)

lemma not_started: "idem_ok s \<Longrightarrow> row_of k (im_db s) = None \<Longrightarrow> k \<notin> set (im_running s) \<and> k \<notin> set (im_completed s)"
  unfolding idem_ok_def list_all_iff by (metis option.distinct(1))

lemma idem_step_ok:
  assumes "idem_step lib s s'" and "idem_ok s"
  shows "idem_ok s'"
  using assms(1)
proof cases
  case (begin_run e r db' k)
  from begin_run(2) show ?thesis
  proof (cases rule: begin_request_cases)
    case (claimed k')
    with begin_run(3) have k: "k' = k" by simp
    note c = claimed(3-5) [unfolded k]
    have new: "row_of k db' \<noteq> None \<and> (\<forall>row. row_of k db' = Some row \<longrightarrow> ik_statusCode row = None)"
      using c(2) by (simp add: row_of_def c(3) find_append row_key_def)
    have "k \<notin> row_key ` set (idempotency_keys (im_db s))" using c(2) by (simp add: row_of_None)
    then have d: "distinct (map row_key (idempotency_keys db'))"
      using assms(2) by (simp add: c(3) idem_ok_def row_key_def image_iff)
    have "idem_ok \<lparr>im_db = db', im_running = k # im_running s, im_completed = im_completed s\<rparr>"
    proof (rule idem_ok_change [OF assms(2) d, where k = k])
      show "row_of j db' = row_of j (im_db s)" if "j \<noteq> k" for j
        using that by (auto simp: row_of_def c(3) find_append row_key_def split: option.splits)
    qed (use not_started [OF assms(2) c(2)] assms(2) new c(1) in \<open>auto simp: idem_ok_def\<close>)
    moreover have "s' = \<lparr>im_db = db', im_running = k # im_running s, im_completed = im_completed s\<rparr>"
      by (simp add: begin_run(1))
    ultimately show ?thesis by simp
  qed simp
next
  case (begin_other e r oc db')
  from begin_other(2) show ?thesis
    using assms(2) begin_other(1,3) by (cases rule: begin_request_cases) simp_all
next
  case (finish k db' body code)
  let ?db = "store_answer k code body db'"
  from running_row [OF assms(2) finish(2)] obtain row where u: "is_uuid (fst k)" and row: "row_of k (im_db s) = Some row"
    and nc: "k \<notin> set (im_completed s)" by blast
  note st = store_rows [OF u finish(4), where code = code and db = db'] and same = row_of_cong [OF finish(3)]
  have d: "distinct (map row_key (idempotency_keys ?db))"
    using assms(2) finish(3) by (simp only: st) (simp add: same_keys_def idem_ok_def)
  have new: "\<exists>r'. row_of k ?db = Some r' \<and> ik_statusCode r' \<noteq> None" by (simp add: st same row)
  have "idem_ok \<lparr>im_db = ?db, im_running = remove1 k (im_running s), im_completed = k # im_completed s\<rparr>"
  proof (rule idem_ok_change [OF assms(2) d, where k = k])
    show "row_of j ?db = row_of j (im_db s)" if "j \<noteq> k" for j using that by (simp add: st same)
  qed (use assms(2) nc new in \<open>auto simp: idem_ok_def\<close>)
  moreover have "s' = \<lparr>im_db = ?db, im_running = remove1 k (im_running s), im_completed = k # im_completed s\<rparr>"
    by (simp add: finish(1))
  ultimately show ?thesis by simp
next
  case (throw k db')
  let ?db = "release_key k db'"
  from running_row [OF assms(2) throw(2)] have u: "is_uuid (fst k)" and nc: "k \<notin> set (im_completed s)" by blast+
  have d: "distinct (map row_key (idempotency_keys db'))"
    using assms(2) throw(3) by (simp add: same_keys_def idem_ok_def)
  note rl = release_rows [OF u d] and same = row_of_cong [OF throw(3)]
  have "idem_ok \<lparr>im_db = ?db, im_running = remove1 k (im_running s), im_completed = im_completed s\<rparr>"
  proof (rule idem_ok_change [OF assms(2) rl(2), where k = k])
    show "row_of j ?db = row_of j (im_db s)" if "j \<noteq> k" for j using that by (simp add: rl same)
  qed (use assms(2) nc in \<open>auto simp: idem_ok_def\<close>)
  moreover have "s' = \<lparr>im_db = ?db, im_running = remove1 k (im_running s), im_completed = im_completed s\<rparr>"
    by (simp add: throw(1))
  ultimately show ?thesis by simp
next
  case (dies P)
  then show ?thesis using assms(2) by (auto simp: idem_ok_def list_all_iff)
next
  case (business db')
  then show ?thesis using assms(2) row_of_cong [OF business(2)] by (simp add: idem_ok_def same_keys_def)
qed

lemma idem_steps_ok: "(idem_step lib)\<^sup>*\<^sup>* s s' \<Longrightarrow> idem_ok s \<Longrightarrow> idem_ok s'"
  by (induction rule: rtranclp_induct) (auto intro: idem_step_ok)

definition idem_start :: "idem_sys \<Rightarrow> bool" where
  "idem_start s \<longleftrightarrow> idempotency_keys (im_db s) = [] \<and> im_running s = [] \<and> im_completed s = []"

lemma idem_start_ok: "idem_start s \<Longrightarrow> idem_ok s"
  by (simp add: idem_start_def idem_ok_def)

text \<open>C21. Over any interleaving of requests, crashes included, no handler runs while another one
  runs or has completed under the same tenant, key and endpoint.\<close>
theorem handler_completes_once:
  assumes "idem_start s0" and "(idem_step lib)\<^sup>*\<^sup>* s0 s"
  shows "distinct (im_completed s) \<and> distinct (im_running s) \<and> set (im_running s) \<inter> set (im_completed s) = {}
    \<and> (\<forall>e r k db'. begin_request lib e r (im_db s) = (Run, db') \<and> idem_key_of r = Some k \<longrightarrow>
         k \<notin> set (im_running s) \<and> k \<notin> set (im_completed s))"
proof -
  have ok: "idem_ok s" by (rule idem_steps_ok [OF assms(2) idem_start_ok [OF assms(1)]])
  have "k \<notin> set (im_running s) \<and> k \<notin> set (im_completed s)"
    if "begin_request lib e r (im_db s) = (Run, db')" "idem_key_of r = Some k" for e r k db'
    using that(1)
  proof (cases rule: begin_request_cases)
    case (claimed k')
    with that(2) not_started [OF ok] show ?thesis by simp
  qed simp
  moreover have "set (im_running s) \<inter> set (im_completed s) = {}" using running_row [OF ok] by blast
  ultimately show ?thesis using ok unfolding idem_ok_def by blast
qed

text \<open>A row that has its answer, or that nobody works on any more, is never touched again.\<close>

lemma resting_row:
  assumes "idem_step lib s s'" and "idem_ok s" and "row_of k (im_db s) = Some row" and "k \<notin> set (im_running s)"
  shows "row_of k (im_db s') = Some row \<and> k \<notin> set (im_running s')"
  using assms(1)
proof cases
  case (begin_run e r db' k')
  from begin_run(2) show ?thesis
  proof (cases rule: begin_request_cases)
    case (claimed j)
    with begin_run(3) assms(3) have "k' \<noteq> k" by auto
    moreover have "row_of k db' = Some row"
      using assms(3) by (simp add: row_of_def claimed(5) find_append)
    ultimately show ?thesis using assms(4) begin_run(1) by simp
  qed simp
next
  case (begin_other e r oc db')
  from begin_other(2) show ?thesis
    using assms(3,4) begin_other(1,3) by (cases rule: begin_request_cases) simp_all
next
  case (finish k' db' body code)
  then have "k' \<noteq> k" using assms(4) by blast
  then show ?thesis
    using store_rows(1) [of k' body k code db'] finish running_row [OF assms(2) finish(2)] row_of_cong [OF finish(3)] assms(3,4)
    by (auto dest: in_set_remove1 [THEN iffD1, rotated])
next
  case (throw k' db')
  then have "k' \<noteq> k" using assms(4) by blast
  moreover have "distinct (map row_key (idempotency_keys db'))"
    using assms(2) throw(3) by (simp add: same_keys_def idem_ok_def)
  ultimately show ?thesis
    using release_rows(1) [of k' db' k] throw running_row [OF assms(2) throw(2)] row_of_cong [OF throw(3)] assms(3,4)
    by auto
next
  case (dies P)
  then show ?thesis using assms(3,4) by simp
next
  case (business db')
  then show ?thesis using assms(3,4) row_of_cong [OF business(2)] by simp
qed

lemma resting_rows:
  assumes "(idem_step lib)\<^sup>*\<^sup>* s s'" and "idem_ok s" and "row_of k (im_db s) = Some row" and "k \<notin> set (im_running s)"
  shows "row_of k (im_db s') = Some row"
proof -
  from assms(1) have "idem_ok s' \<and> row_of k (im_db s') = Some row \<and> k \<notin> set (im_running s')"
    by (induction rule: rtranclp_induct) (use assms(2-4) resting_row idem_step_ok in blast)+
  then show ?thesis by blast
qed

lemma begin_known:
  assumes "idem_key_of r = Some k" and "is_uuid (fst k)" and "8 \<le> length (fst (snd k)) \<and> length (fst (snd k)) \<le> 200"
    and "row_of k db = Some row"
  shows "begin_request lib e r db = (if ik_requestHash row \<noteq> hash_body lib (iq_body r)
      then Refuse (Unprocessable ''This Idempotency-Key was already used with a different request body'')
      else (case ik_statusCode row of None \<Rightarrow> Refuse (Conflict ''A request with this Idempotency-Key is still in progress'')
            | Some code \<Rightarrow> Replay code (ik_responseBody row)), db)"
proof -
  have f: "List.find (same_idem_key k) (idempotency_keys db) = Some row"
    using assms(4) by (simp add: row_of_def same_idem_key_eq)
  then have "list_ex (same_idem_key k) (idempotency_keys db)" using find_SomeD [OF f] by (auto simp: list_ex_iff)
  with assms f show ?thesis
    by (simp add: begin_request_def claim_key_def for_tenant_def key_create_tx_def key_find_tx_def split: option.splits)
qed

theorem answer_is_replayed:
  assumes "idem_ok s" and "row_of k (im_db s) = Some row" and "ik_statusCode row = Some code"
    and "(idem_step lib)\<^sup>*\<^sup>* s s'" and "idem_key_of r = Some k" and "is_uuid (fst k)"
    and "8 \<le> length (fst (snd k)) \<and> length (fst (snd k)) \<le> 200"
  shows "begin_request lib e r (im_db s') = (if ik_requestHash row = hash_body lib (iq_body r) then Replay code (ik_responseBody row)
      else Refuse (Unprocessable ''This Idempotency-Key was already used with a different request body''), im_db s')"
proof -
  have "k \<notin> set (im_running s)" using running_row [OF assms(1), of k] assms(2,3) by auto
  from begin_known [OF assms(5-7) resting_rows [OF assms(4,1,2) this]] show ?thesis by (simp add: assms(3))
qed

text \<open>When a process dies between claiming a key and answering, every later request with that
  key is refused for ever: the expiry written with the claim is never read.\<close>
theorem dead_claim_locks_its_key:
  assumes "idem_ok s" and "k \<in> set (im_running s)" and "8 \<le> length (fst (snd k)) \<and> length (fst (snd k)) \<le> 200"
    and "(idem_step lib)\<^sup>*\<^sup>* (s\<lparr>im_running := filter (\<lambda>j. j \<noteq> k) (im_running s)\<rparr>) s'" and "idem_key_of r = Some k"
  shows "\<exists>err. begin_request lib e r (im_db s') = (Refuse err, im_db s')"
proof -
  let ?s = "s\<lparr>im_running := filter (\<lambda>j. j \<noteq> k) (im_running s)\<rparr>"
  from running_row [OF assms(1,2)] obtain row where u: "is_uuid (fst k)"
    and row: "row_of k (im_db s) = Some row" "ik_statusCode row = None" by blast
  have "idem_ok ?s" by (rule idem_step_ok [OF idem_step.dies assms(1)])
  with row(1) resting_rows [OF assms(4)] have "row_of k (im_db s') = Some row" by simp
  from begin_known [OF assms(5) u assms(3) this] row(2) show ?thesis by simp
qed

section \<open>Retrying one request\<close>

text \<open>Once a request with a key was answered, a retry with the same key, verb, route pattern
  and body gets the stored answer and changes nothing, even when its path names another
  resource.\<close>
theorem retry_does_not_run_again:
  assumes "intercept lib e code h r db = (Inr (code, body), db')" and "begin_request lib e r db = (Run, db1)"
    and "body \<noteq> Some JNull" and "same_keys db1 (snd (h db1))"
    and "iq_method r' = iq_method r" and "iq_routePath r = Some p" and "iq_routePath r' = Some p"
    and "iq_key r' = iq_key r" and "iq_tenantId r' = iq_tenantId r" and "iq_body r' = iq_body r"
  shows "intercept lib e' code' h' r' db' = (Inr (code, body), db')"
proof -
  from assms(2) show ?thesis
  proof (cases rule: begin_request_cases)
    case (claimed k)
    have k': "idem_key_of r' = Some k"
      using claimed(2) by (simp add: idem_key_of_def assms(5-10) Let_def split: if_splits)
    have len: "8 \<le> length (fst (snd k)) \<and> length (fst (snd k)) \<le> 200"
      using assms(2) claimed(2) by (auto simp: begin_request_def split: if_splits)
    obtain hb db2 where h: "h db1 = (hb, db2)" by fastforce
    with assms(1,2) claimed(2) have hb: "hb = Inr body" and db': "db' = store_answer k code body db2"
      by (auto simp: intercept_def split: sum.splits)
    have same: "same_keys db1 db2" using assms(4) h by simp
    obtain row where row: "row_of k db1 = Some row" "ik_requestHash row = hash_body lib (iq_body r)" "ik_responseBody row = None"
      using claimed(4) by (simp add: row_of_def claimed(5) find_append row_key_def)
    obtain row' where row': "row_of k db' = Some row'" "ik_requestHash row' = hash_body lib (iq_body r)"
      "ik_statusCode row' = Some code" "ik_responseBody row' = body"
      using store_rows(1) [OF claimed(3) assms(3), of k code db2] row row_of_cong [OF same]
      by (auto simp: db' split: option.splits)
    from begin_known [OF k' claimed(3) len row'(1), of lib e'] row'(2-4) show ?thesis
      by (simp add: intercept_def assms(10))
  qed simp
qed

section \<open>Instances\<close>

definition demo_body_lib :: body_lib where
  "demo_body_lib = \<lparr>hl_sha256 = (\<lambda>s. s), hl_number = (\<lambda>q. show_int \<lfloor>q\<rfloor>), hl_le = (\<lambda>x y. length x \<le> length y)\<rparr>"

definition demo_close_request :: "string \<Rightarrow> idem_request" where
  "demo_close_request path = \<lparr>iq_method = ''POST'', iq_path = path, iq_routePath = Some ''/tasks/:id/close'',
     iq_key = Some ''key-0001'', iq_tenantId = Some demo_tenant, iq_body = None\<rparr>"

definition demo_idem_key :: idem_key where
  "demo_idem_key = (demo_tenant, ''key-0001'', ''POST /tasks/:id/close'')"

definition demo_handler :: handler_fn where
  "demo_handler db = (Inr (Some (JBool True)), db)"

definition demo_idem :: idem_sys where
  "demo_idem = \<lparr>im_db = empty_db, im_running = [], im_completed = []\<rparr>"

lemma demo_key_trim: "trim ''key-0001'' = ''key-0001''"
  by code_simp

lemma demo_key_of: "idem_key_of (demo_close_request path) = Some demo_idem_key"
  by (simp add: idem_key_of_def demo_close_request_def demo_key_trim demo_idem_key_def mutating_def demo_tenant_def)

lemma demo_key_ok: "is_uuid (fst demo_idem_key)" "8 \<le> length (fst (snd demo_idem_key)) \<and> length (fst (snd demo_idem_key)) \<le> 200"
  by (simp_all add: demo_idem_key_def)

lemma demo_begin: "\<exists>db1. begin_request demo_body_lib demo_env (demo_close_request path) empty_db = (Run, db1)"
  using demo_key_ok by (simp add: begin_request_def demo_key_of claim_key_def for_tenant_def key_create_tx_def empty_db_def)

lemma demo_idem_start: "idem_start demo_idem"
  by (simp add: idem_start_def demo_idem_def empty_db_def)

lemma demo_claimed_step: "\<exists>db1. begin_request demo_body_lib demo_env (demo_close_request path) empty_db = (Run, db1)
    \<and> idem_step demo_body_lib demo_idem \<lparr>im_db = db1, im_running = [demo_idem_key], im_completed = []\<rparr>"
proof -
  obtain db1 where b: "begin_request demo_body_lib demo_env (demo_close_request path) empty_db = (Run, db1)" using demo_begin by blast
  with idem_step.begin_run [of demo_body_lib demo_env "demo_close_request path" demo_idem db1 demo_idem_key] show ?thesis
    by (simp add: demo_idem_def demo_key_of)
qed

lemma demo_idem_runs: "\<exists>s. (idem_step demo_body_lib)\<^sup>*\<^sup>* demo_idem s \<and> im_completed s = [demo_idem_key]
    \<and> (\<exists>row. row_of demo_idem_key (im_db s) = Some row \<and> ik_statusCode row = Some 201 \<and> ik_requestHash row = ''null'')"
proof -
  obtain db1 where b: "begin_request demo_body_lib demo_env (demo_close_request ''/tasks/1/close'') empty_db = (Run, db1)"
    and st: "idem_step demo_body_lib demo_idem \<lparr>im_db = db1, im_running = [demo_idem_key], im_completed = []\<rparr>"
    using demo_claimed_step by blast
  let ?s1 = "\<lparr>im_db = db1, im_running = [demo_idem_key], im_completed = []\<rparr>"
  let ?s2 = "\<lparr>im_db = store_answer demo_idem_key 201 None db1, im_running = [], im_completed = [demo_idem_key]\<rparr>"
  have "idem_step demo_body_lib ?s1 ?s2"
    using idem_step.finish [of demo_idem_key ?s1 db1 None demo_body_lib 201] by (simp add: same_keys_def)
  with st have steps: "(idem_step demo_body_lib)\<^sup>*\<^sup>* demo_idem ?s2" by auto
  from b have "\<exists>row. row_of demo_idem_key db1 = Some row \<and> ik_requestHash row = ''null''"
  proof (cases rule: begin_request_cases)
    case (claimed k)
    have "k = demo_idem_key" using claimed(2) by (simp add: demo_key_of)
    with claimed(5) show ?thesis
      by (simp add: row_of_def empty_db_def row_key_def hash_body_def demo_body_lib_def demo_close_request_def)
  qed simp
  then have "\<exists>row. row_of demo_idem_key (im_db ?s2) = Some row \<and> ik_statusCode row = Some 201 \<and> ik_requestHash row = ''null''"
    using store_rows(1) [OF demo_key_ok(1), of None demo_idem_key 201 db1] by auto
  with steps show ?thesis by (intro exI [of _ ?s2]) simp
qed

theorem handler_completes_once_witness:
  "\<exists>s. (idem_step demo_body_lib)\<^sup>*\<^sup>* demo_idem s \<and> im_completed s = [demo_idem_key] \<and> distinct (im_completed s)"
  using demo_idem_runs handler_completes_once [OF demo_idem_start] by blast

theorem answer_is_replayed_witness:
  "\<exists>s body. (idem_step demo_body_lib)\<^sup>*\<^sup>* demo_idem s
     \<and> begin_request demo_body_lib demo_env (demo_close_request ''/tasks/2/close'') (im_db s) = (Replay 201 body, im_db s)"
proof -
  from demo_idem_runs obtain s row where s: "(idem_step demo_body_lib)\<^sup>*\<^sup>* demo_idem s"
    "row_of demo_idem_key (im_db s) = Some row" "ik_statusCode row = Some 201" "ik_requestHash row = ''null''" by blast
  from answer_is_replayed [OF idem_steps_ok [OF s(1) idem_start_ok [OF demo_idem_start]] s(2,3) rtranclp.rtrancl_refl
      demo_key_of [of "''/tasks/2/close''"] demo_key_ok, where e = demo_env] s
  show ?thesis by (auto simp: hash_body_def demo_body_lib_def demo_close_request_def)
qed

theorem dead_claim_locks_its_key_witness:
  "\<exists>(s :: idem_sys) err. begin_request demo_body_lib (demo_env\<lparr>now := 10 ^ 15\<rparr>) (demo_close_request ''/tasks/1/close'') (im_db s) = (Refuse err, im_db s)
     \<and> im_running s = []"
proof -
  obtain db1 where st: "idem_step demo_body_lib demo_idem \<lparr>im_db = db1, im_running = [demo_idem_key], im_completed = []\<rparr>"
    using demo_claimed_step by blast
  let ?s1 = "\<lparr>im_db = db1, im_running = [demo_idem_key], im_completed = []\<rparr>"
  have ok: "idem_ok ?s1" by (rule idem_step_ok [OF st idem_start_ok [OF demo_idem_start]])
  have "demo_idem_key \<in> set (im_running ?s1)" by simp
  from dead_claim_locks_its_key [OF ok this demo_key_ok(2) rtranclp.rtrancl_refl demo_key_of [of "''/tasks/1/close''"],
      where e = "demo_env\<lparr>now := 10 ^ 15\<rparr>"]
  obtain err where "begin_request demo_body_lib (demo_env\<lparr>now := 10 ^ 15\<rparr>) (demo_close_request ''/tasks/1/close'') db1
      = (Refuse err, db1)" by auto
  then show ?thesis by (intro exI [of _ "?s1\<lparr>im_running := []\<rparr>"] exI [of _ err]) simp
qed

theorem retry_does_not_run_again_witness:
  "\<exists>db'. intercept demo_body_lib demo_env 201 demo_handler (demo_close_request ''/tasks/1/close'') empty_db = (Inr (201, Some (JBool True)), db')
     \<and> intercept demo_body_lib demo_env 201 (\<lambda>db. (Inl (Conflict ''x''), db)) (demo_close_request ''/tasks/2/close'') db'
         = (Inr (201, Some (JBool True)), db')"
proof -
  obtain db1 where b: "begin_request demo_body_lib demo_env (demo_close_request ''/tasks/1/close'') empty_db = (Run, db1)" using demo_begin by blast
  then obtain db' where run: "intercept demo_body_lib demo_env 201 demo_handler (demo_close_request ''/tasks/1/close'') empty_db
      = (Inr (201, Some (JBool True)), db')"
    by (simp add: intercept_def demo_handler_def)
  have "same_keys db1 (snd (demo_handler db1))" by (simp add: demo_handler_def same_keys_def)
  from retry_does_not_run_again [OF run b _ this, of "demo_close_request ''/tasks/2/close''" "''/tasks/:id/close''" demo_env 201] run
  show ?thesis by (auto simp: demo_close_request_def)
qed

end
