(* ===== verification/Secrets.thy ===== *)
theory Secrets
  imports Bytes
begin

text \<open>
  common/crypto.util.ts: secrets encrypted at rest under versioned keys. AES-256-GCM and the
  reading of a number are parameters; the formats, the choice of the key and the errors are the
  repository's.
\<close>

record cipher_lib =
  cl_number :: "string \<Rightarrow> rat option"
  cl_encrypt :: "string \<Rightarrow> string \<Rightarrow> string \<Rightarrow> string \<times> string"
  cl_decrypt :: "string \<Rightarrow> string \<Rightarrow> string \<Rightarrow> string \<Rightarrow> string option"

text \<open>The environment variables: the version, the current key, and the key of an older version.\<close>

record key_env =
  ke_version :: "string option"
  ke_current :: "string option"
  ke_older :: "nat \<Rightarrow> string option"

datatype secret_error = Key_missing nat string | Secret_error string

definition legacy_key_version :: nat where
  "legacy_key_version = 1"

definition parse_key_hex :: "string option \<Rightarrow> string \<Rightarrow> secret_error + string" where
  "parse_key_hex keyHex envName =
     (case keyHex of
        Some k \<Rightarrow> if length k = 64 \<and> list_all is_hex k then Inr (hex_decode k)
                  else Inl (Secret_error (envName @ '' must be set to a 64-char hex string (32 bytes).''))
      | None \<Rightarrow> Inl (Secret_error (envName @ '' must be set to a 64-char hex string (32 bytes).'')))"

text \<open>\<open>Number(text)\<close> when it is a positive integer.\<close>

definition positive_int :: "cipher_lib \<Rightarrow> string \<Rightarrow> nat option" where
  "positive_int lib s =
     (case cl_number lib s of
        None \<Rightarrow> None
      | Some q \<Rightarrow> if of_int \<lfloor>q\<rfloor> = q \<and> 1 \<le> q then Some (nat \<lfloor>q\<rfloor>) else None)"

definition current_key_version :: "cipher_lib \<Rightarrow> key_env \<Rightarrow> secret_error + nat" where
  "current_key_version lib env =
     (if \<not> truthy (ke_version env) then Inr legacy_key_version
      else case positive_int lib (the (ke_version env)) of
          None \<Rightarrow> Inl (Secret_error ''INTEGRATION_ENCRYPTION_KEY_VERSION must be a positive integer'')
        | Some v \<Rightarrow> Inr v)"

definition older_key_name :: "nat \<Rightarrow> string" where
  "older_key_name v = ''INTEGRATION_ENCRYPTION_KEY_V'' @ show_nat v"

definition key_for_version :: "cipher_lib \<Rightarrow> key_env \<Rightarrow> nat \<Rightarrow> secret_error + string" where
  "key_for_version lib env v =
     (case current_key_version lib env of
        Inl err \<Rightarrow> Inl err
      | Inr c \<Rightarrow>
          if v = c then parse_key_hex (ke_current env) ''INTEGRATION_ENCRYPTION_KEY''
          else if \<not> truthy (ke_older env v) then Inl (Key_missing v (older_key_name v))
          else parse_key_hex (ke_older env v) (older_key_name v))"

text \<open>The blob and the version of its key; \<open>iv\<close> is what \<open>randomBytes\<close> returned.\<close>

definition encrypt_secret_versioned :: "cipher_lib \<Rightarrow> key_env \<Rightarrow> string \<Rightarrow> string \<Rightarrow> secret_error + (string \<times> nat)" where
  "encrypt_secret_versioned lib env iv plain =
     (case current_key_version lib env of
        Inl err \<Rightarrow> Inl err
      | Inr v \<Rightarrow>
          (case key_for_version lib env v of
             Inl err \<Rightarrow> Inl err
           | Inr key \<Rightarrow>
               (let (ct, tag) = cl_encrypt lib key iv plain
                in Inr (''v'' @ show_nat v @ '':'' @ hex_encode iv @ '':'' @ hex_encode tag @ '':'' @ hex_encode ct, v))))"

definition encrypt_secret :: "cipher_lib \<Rightarrow> key_env \<Rightarrow> string \<Rightarrow> string \<Rightarrow> secret_error + string" where
  "encrypt_secret lib env iv plain =
     (case encrypt_secret_versioned lib env iv plain of Inl err \<Rightarrow> Inl err | Inr (blob, _) \<Rightarrow> Inr blob)"

text \<open>Key version, iv, tag and data of a stored blob.\<close>

definition parse_blob :: "cipher_lib \<Rightarrow> string \<Rightarrow> nat option \<Rightarrow> secret_error + (nat \<times> string \<times> string \<times> string)" where
  "parse_blob lib stored rowVersion =
     (case split_on CHR '':'' stored of
        [p0, iv, tag, ct] \<Rightarrow>
          if starts_with ''v'' p0
          then (case positive_int lib (drop 1 p0) of
                  None \<Rightarrow> Inl (Secret_error ''Invalid encrypted secret format: unparseable key version'')
                | Some v \<Rightarrow> Inr (v, iv, tag, ct))
          else Inl (Secret_error ''Invalid encrypted secret format'')
      | [iv, tag, ct] \<Rightarrow> Inr (or_else rowVersion legacy_key_version, iv, tag, ct)
      | _ \<Rightarrow> Inl (Secret_error ''Invalid encrypted secret format''))"

definition decrypt_secret :: "cipher_lib \<Rightarrow> key_env \<Rightarrow> string \<Rightarrow> nat option \<Rightarrow> secret_error + string" where
  "decrypt_secret lib env stored rowVersion =
     (case parse_blob lib stored rowVersion of
        Inl err \<Rightarrow> Inl err
      | Inr (v, iv, tag, ct) \<Rightarrow>
          if iv = [] \<or> tag = [] \<or> ct = [] then Inl (Secret_error ''Invalid encrypted secret format'')
          else (case key_for_version lib env v of
                  Inl err \<Rightarrow> Inl err
                | Inr key \<Rightarrow>
                    (case cl_decrypt lib key (hex_decode iv) (hex_decode tag) (hex_decode ct) of
                       None \<Rightarrow> Inl (Secret_error ''Unsupported state or unable to authenticate data'')
                     | Some plain \<Rightarrow> Inr plain)))"

text \<open>A version that is not a number differs from every version.\<close>

definition blob_version :: "cipher_lib \<Rightarrow> string \<Rightarrow> nat option \<Rightarrow> rat option" where
  "blob_version lib stored rowVersion =
     (case split_on CHR '':'' stored of
        [p0, _, _, _] \<Rightarrow> if starts_with ''v'' p0 then cl_number lib (drop 1 p0)
                         else Some (of_nat (or_else rowVersion legacy_key_version))
      | _ \<Rightarrow> Some (of_nat (or_else rowVersion legacy_key_version)))"

definition needs_re_encryption :: "cipher_lib \<Rightarrow> key_env \<Rightarrow> string \<Rightarrow> nat option \<Rightarrow> secret_error + bool" where
  "needs_re_encryption lib env stored rowVersion =
     (case current_key_version lib env of
        Inl err \<Rightarrow> Inl err
      | Inr c \<Rightarrow> Inr (blob_version lib stored rowVersion \<noteq> Some (of_nat c)))"

section \<open>Round trip and rotation\<close>

lemma blob_parts:
  "split_on CHR '':'' (''v'' @ show_nat v @ '':'' @ hex_encode iv @ '':'' @ hex_encode tag @ '':'' @ hex_encode ct)
    = [''v'' @ show_nat v, hex_encode iv, hex_encode tag, hex_encode ct]"
proof -
  have nh: "CHR '':'' \<notin> set (hex_encode s)" for s using hex_encode_chars by blast
  have "\<not> is_digit CHR '':''" by (simp add: is_digit_def)
  then have nd: "CHR '':'' \<notin> set (''v'' @ show_nat v)"
    using show_nat_digits [of v] by (auto simp: list_all_iff)
  have "split_on CHR '':'' ((''v'' @ show_nat v) @ CHR '':'' # hex_encode iv @ CHR '':'' # hex_encode tag @ CHR '':'' # hex_encode ct)
    = [''v'' @ show_nat v, hex_encode iv, hex_encode tag, hex_encode ct]"
    by (simp only: split_on_append_sep [OF nd] split_on_append_sep [OF nh] split_on_no_sep [OF nh])
  then show ?thesis by simp
qed

lemma encrypted_is_read_back:
  assumes "encrypt_secret_versioned lib env iv plain = Inr (blob, v)"
    and "key_for_version lib env' v = key_for_version lib env v"
    and "cl_number lib (show_nat v) = Some (of_nat v)" and "1 \<le> v"
    and "\<And>key. cl_decrypt lib key iv (snd (cl_encrypt lib key iv plain)) (fst (cl_encrypt lib key iv plain)) = Some plain"
    and "\<And>key. snd (cl_encrypt lib key iv plain) \<noteq> []" and "iv \<noteq> []"
    and "\<And>key. fst (cl_encrypt lib key iv plain) = [] \<longleftrightarrow> plain = []"
  shows "decrypt_secret lib env' blob rowVersion =
      (if plain = [] then Inl (Secret_error ''Invalid encrypted secret format'') else Inr plain)"
    and "blob_version lib blob rowVersion = Some (of_nat v)"
proof -
  from assms(1) obtain key where key: "key_for_version lib env v = Inr key"
    and blob: "blob = ''v'' @ show_nat v @ '':'' @ hex_encode iv @ '':'' @ hex_encode (snd (cl_encrypt lib key iv plain))
       @ '':'' @ hex_encode (fst (cl_encrypt lib key iv plain))"
    by (auto simp: encrypt_secret_versioned_def split: sum.splits prod.splits)
  note parts = blob_parts [of v iv "snd (cl_encrypt lib key iv plain)" "fst (cl_encrypt lib key iv plain)", folded blob]
  have num: "positive_int lib (show_nat v) = Some v"
    using assms(3,4) by (simp add: positive_int_def)
  have st: "starts_with ''v'' (''v'' @ show_nat v)" by (simp add: starts_with_def)
  have "parse_blob lib blob rowVersion = Inr (v, hex_encode iv, hex_encode (snd (cl_encrypt lib key iv plain)),
      hex_encode (fst (cl_encrypt lib key iv plain)))"
    using num st by (simp add: parse_blob_def parts)
  then show "decrypt_secret lib env' blob rowVersion =
      (if plain = [] then Inl (Secret_error ''Invalid encrypted secret format'') else Inr plain)"
    using assms(2,5-8) key by (simp add: decrypt_secret_def)
  show "blob_version lib blob rowVersion = Some (of_nat v)"
    using assms(3) st by (simp add: blob_version_def parts)
qed

text \<open>C22. A secret encrypted under one key version is decrypted under any later environment that
  keeps that version's key, the rotation check says whether it needs re-encryption, and only
  the empty secret cannot be read back.\<close>
theorem secrets_survive_rotation:
  assumes "encrypt_secret_versioned lib env iv plain = Inr (blob, v)"
    and "key_for_version lib env' v = key_for_version lib env v"
    and "cl_number lib (show_nat v) = Some (of_nat v)" and "1 \<le> v"
    and "\<And>key. cl_decrypt lib key iv (snd (cl_encrypt lib key iv plain)) (fst (cl_encrypt lib key iv plain)) = Some plain"
    and "\<And>key. snd (cl_encrypt lib key iv plain) \<noteq> []" and "iv \<noteq> []"
    and "\<And>key. fst (cl_encrypt lib key iv plain) = [] \<longleftrightarrow> plain = []"
  shows "decrypt_secret lib env' blob rowVersion =
      (if plain = [] then Inl (Secret_error ''Invalid encrypted secret format'') else Inr plain)
    \<and> (\<forall>c. current_key_version lib env' = Inr c \<longrightarrow> needs_re_encryption lib env' blob rowVersion = Inr (v \<noteq> c))"
  using encrypted_is_read_back [OF assms, of rowVersion] by (auto simp: needs_re_encryption_def)

section \<open>Instances\<close>

text \<open>A stand-in cipher: the text reversed, with the key as its tag.\<close>

definition demo_cipher :: cipher_lib where
  "demo_cipher = \<lparr>cl_number = (\<lambda>s. if s \<noteq> [] \<and> list_all is_digit s then Some (of_nat (read_nat s)) else None),
     cl_encrypt = (\<lambda>key iv p. (rev p, CHR ''t'' # key)),
     cl_decrypt = (\<lambda>key iv tag ct. if tag = CHR ''t'' # key then Some (rev ct) else None)\<rparr>"

definition demo_key_text :: string where
  "demo_key_text = replicate 64 CHR ''a''"

definition demo_key_env :: "string option \<Rightarrow> key_env" where
  "demo_key_env version = \<lparr>ke_version = version, ke_current = Some demo_key_text,
     ke_older = (\<lambda>v. if v = 1 then Some demo_key_text else None)\<rparr>"

lemma demo_key_text: "length demo_key_text = 64" "list_all is_hex demo_key_text" "demo_key_text \<noteq> []"
  by (simp_all add: demo_key_text_def list_all_iff is_hex_def del: replicate.simps)

lemma demo_versions:
  "current_key_version demo_cipher (demo_key_env None) = Inr 1"
  "current_key_version demo_cipher (demo_key_env (Some ''2'')) = Inr 2"
proof -
  have "read_nat ''2'' = 2" "is_digit CHR ''2''" by (simp_all add: read_nat_def digit_val_def is_digit_def)
  then show "current_key_version demo_cipher (demo_key_env (Some ''2'')) = Inr 2"
    by (simp add: current_key_version_def positive_int_def demo_cipher_def demo_key_env_def)
qed (simp add: current_key_version_def demo_key_env_def legacy_key_version_def)

lemma demo_key:
  "key_for_version demo_cipher (demo_key_env None) 1 = Inr (hex_decode demo_key_text)"
  "key_for_version demo_cipher (demo_key_env (Some ''2'')) 1 = Inr (hex_decode demo_key_text)"
  unfolding key_for_version_def demo_versions
  by (simp_all add: demo_key_env_def parse_key_hex_def demo_key_text)

theorem secrets_survive_rotation_witness:
  "\<exists>blob. encrypt_secret_versioned demo_cipher (demo_key_env None) ''iv'' ''token'' = Inr (blob, 1)
     \<and> decrypt_secret demo_cipher (demo_key_env (Some ''2'')) blob None = Inr ''token''
     \<and> needs_re_encryption demo_cipher (demo_key_env (Some ''2'')) blob None = Inr True"
proof -
  have ct: "cl_encrypt demo_cipher key iv p = (rev p, CHR ''t'' # key)" for key iv p by (simp add: demo_cipher_def)
  obtain blob where run: "encrypt_secret_versioned demo_cipher (demo_key_env None) ''iv'' ''token'' = Inr (blob, 1)"
    using ct demo_key(1) demo_versions(1) by (auto simp add: encrypt_secret_versioned_def split: prod.splits)
  have n: "cl_number demo_cipher (show_nat 1) = Some (of_nat 1)"
    using show_nat_digits [of 1] by (simp add: demo_cipher_def)
  from secrets_survive_rotation [OF run _ n, of "demo_key_env (Some ''2'')" None] run demo_key demo_versions(2)
  show ?thesis by (simp add: demo_cipher_def)
qed

end
