(* ===== verification/External.thy ===== *)
theory External
  imports Database Bytes
begin

text \<open>
  modules/integrations/external-call.util.ts: one outgoing call with its timeout, its retries
  and the classification of its errors. What each attempt does is an input: it returns, throws,
  or does not end within its time.
\<close>

section \<open>Errors of the outside world\<close>

text \<open>A thrown value: its text, and its fields when it is an object.\<close>

record js_error =
  je_isObject :: bool
  je_text :: string
  je_responseStatus :: "json option"
  je_status :: "json option"
  je_code :: "json option"
  je_message :: "json option"
  je_responseData :: "string option"

definition coalesce_json :: "json option \<Rightarrow> json option \<Rightarrow> json option" where
  "coalesce_json a b = (if a = None \<or> a = Some JNull then b else a)"

definition error_fields :: "js_error \<Rightarrow> rat option \<times> string" where
  "error_fields err =
     (if \<not> je_isObject err then (None, je_text err)
      else let raw = coalesce_json (je_responseStatus err) (coalesce_json (je_status err) (je_code err))
           in ((case raw of Some (JNum q) \<Rightarrow> Some q | _ \<Rightarrow> None),
               (case je_message err of Some (JStr m) \<Rightarrow> m | _ \<Rightarrow> []) @ '' '' @ or_else (je_responseData err) []))"

definition auth_failure_texts :: "string list" where
  "auth_failure_texts = [''invalid_grant'', ''unauthorized_client'', ''invalid_client'', ''token has been expired or revoked'']"

definition retryable_texts :: "string list" where
  "retryable_texts = [''etimedout'', ''econnreset'', ''econnrefused'', ''eai_again'', ''enotfound'', ''socket hang up'', ''timed out'']"

definition is_auth_failure :: "js_error \<Rightarrow> bool" where
  "is_auth_failure err =
     (let (status, text) = error_fields err
      in status = Some 401 \<or> status = Some 403 \<or> list_ex (\<lambda>p. contains_ci p text) auth_failure_texts)"

definition is_retryable :: "js_error \<Rightarrow> bool" where
  "is_retryable err =
     (if is_auth_failure err then False
      else let (status, text) = error_fields err
           in status = Some 429 \<or> (case status of None \<Rightarrow> False | Some q \<Rightarrow> 500 \<le> q \<and> q < 600)
              \<or> list_ex (\<lambda>p. contains_ci p text) retryable_texts)"

section \<open>Attempts\<close>

datatype 'a attempt = Returned 'a | Threw js_error | Hangs

datatype 'a call_result = Done_ok 'a | Auth_error string js_error | Transient_error string js_error | Other_error js_error

record retry_options =
  rto_timeoutMs :: nat
  rto_attempts :: nat
  rto_baseDelayMs :: nat
  rto_maxDelayMs :: nat
  rto_label :: string

definition default_options :: retry_options where
  "default_options = \<lparr>rto_timeoutMs = 15000, rto_attempts = 3, rto_baseDelayMs = 300, rto_maxDelayMs = 4000,
     rto_label = ''external call''\<rparr>"

definition plain_error :: "string \<Rightarrow> js_error" where
  "plain_error m = \<lparr>je_isObject = True, je_text = ''Error: '' @ m, je_responseStatus = None, je_status = None, je_code = None,
     je_message = Some (JStr m), je_responseData = None\<rparr>"

text \<open>An attempt within its time: what hangs is an error that names the time.\<close>

definition with_timeout :: "retry_options \<Rightarrow> 'a attempt \<Rightarrow> js_error + 'a" where
  "with_timeout opt a =
     (case a of
        Returned x \<Rightarrow> Inr x
      | Threw err \<Rightarrow> Inl err
      | Hangs \<Rightarrow> Inl (plain_error (rto_label opt @ '' timed out after '' @ show_nat (rto_timeoutMs opt) @ ''ms'')))"

text \<open>The value thrown when the loop body never ran.\<close>

definition undefined_error :: js_error where
  "undefined_error = \<lparr>je_isObject = False, je_text = ''undefined'', je_responseStatus = None, je_status = None, je_code = None,
     je_message = None, je_responseData = None\<rparr>"

definition backoff :: "retry_options \<Rightarrow> nat \<Rightarrow> nat" where
  "backoff opt attempt = min (rto_baseDelayMs opt * 2 ^ (attempt - 1)) (rto_maxDelayMs opt)"

text \<open>\<open>Math.round\<close> rounds halves up.\<close>

definition math_round :: "rat \<Rightarrow> int" where
  "math_round q = \<lfloor>q + 1 / 2\<rfloor>"

definition sleep_ms :: "retry_options \<Rightarrow> nat \<Rightarrow> rat \<Rightarrow> int" where
  "sleep_ms opt attempt random = math_round (of_nat (backoff opt attempt) * (1 / 2 + random * (1 / 2)))"

definition exhausted :: "retry_options \<Rightarrow> js_error \<Rightarrow> 'a call_result" where
  "exhausted opt lastError =
     (if is_retryable lastError
      then Transient_error (rto_label opt @ '' failed after '' @ show_nat (rto_attempts opt) @ '' attempts'') lastError
      else Other_error lastError)"

text \<open>
  The loop from one attempt on: the result, and how long it slept between attempts.
  \<open>run k\<close> is what the k-th attempt does and \<open>random k\<close> the random number drawn after it.
\<close>

function attempt_loop :: "retry_options \<Rightarrow> (nat \<Rightarrow> 'a attempt) \<Rightarrow> (nat \<Rightarrow> rat) \<Rightarrow> nat \<Rightarrow> js_error \<Rightarrow> 'a call_result \<times> int list" where
  "attempt_loop opt run random attempt lastError =
     (if rto_attempts opt < attempt then (exhausted opt lastError, [])
      else case with_timeout opt (run attempt) of
          Inr x \<Rightarrow> (Done_ok x, [])
        | Inl err \<Rightarrow>
            if is_auth_failure err
            then (Auth_error (rto_label opt @ '' failed: credentials rejected by the provider'') err, [])
            else if \<not> is_retryable err \<or> attempt = rto_attempts opt then (exhausted opt err, [])
            else (let (r, slept) = attempt_loop opt run random (Suc attempt) err
                  in (r, sleep_ms opt attempt (random attempt) # slept)))"
  by pat_completeness auto
termination
  by (relation "measure (\<lambda>(opt, _, _, attempt, _). Suc (rto_attempts opt) - attempt)") auto

declare attempt_loop.simps [simp del]

definition call_external :: "retry_options \<Rightarrow> (nat \<Rightarrow> 'a attempt) \<Rightarrow> (nat \<Rightarrow> rat) \<Rightarrow> 'a call_result \<times> int list" where
  "call_external opt run random = attempt_loop opt run random 1 undefined_error"

section \<open>What a call comes to\<close>

text \<open>A reference: the first attempt that does not end in a retryable error decides.\<close>

definition settles :: "retry_options \<Rightarrow> (nat \<Rightarrow> 'a attempt) \<Rightarrow> nat \<Rightarrow> bool" where
  "settles opt run k \<longleftrightarrow> (case with_timeout opt (run k) of Inr _ \<Rightarrow> True | Inl err \<Rightarrow> \<not> is_retryable err)"

definition settled_result :: "retry_options \<Rightarrow> (nat \<Rightarrow> 'a attempt) \<Rightarrow> nat \<Rightarrow> 'a call_result" where
  "settled_result opt run k =
     (case with_timeout opt (run k) of
        Inr x \<Rightarrow> Done_ok x
      | Inl err \<Rightarrow>
          if is_auth_failure err then Auth_error (rto_label opt @ '' failed: credentials rejected by the provider'') err
          else exhausted opt err)"

lemma not_retryable_auth: "is_auth_failure err \<Longrightarrow> \<not> is_retryable err"
  by (simp add: is_retryable_def)

lemma attempt_loop_result:
  assumes "attempt \<le> k" and "k \<le> rto_attempts opt" and "\<And>i. attempt \<le> i \<Longrightarrow> i < k \<Longrightarrow> \<not> settles opt run i"
    and "settles opt run k \<or> k = rto_attempts opt"
  shows "fst (attempt_loop opt run random attempt lastError) = settled_result opt run k
    \<and> length (snd (attempt_loop opt run random attempt lastError)) = k - attempt"
  using assms(1,3)
proof (induction "k - attempt" arbitrary: attempt lastError)
  case 0
  then have "attempt = k" by simp
  with assms(2,4) show ?case
    by (subst (1 2) attempt_loop.simps)
      (auto simp: settled_result_def settles_def split: sum.splits)
next
  case (Suc n)
  then have "attempt < k" and ns: "\<not> settles opt run attempt" by auto
  then obtain err where err: "with_timeout opt (run attempt) = Inl err" "is_retryable err"
    by (auto simp: settles_def split: sum.splits)
  then have "\<not> is_auth_failure err" using not_retryable_auth by blast
  moreover have "fst (attempt_loop opt run random (Suc attempt) err) = settled_result opt run k
      \<and> length (snd (attempt_loop opt run random (Suc attempt) err)) = k - Suc attempt"
    using Suc by (intro Suc(1)) auto
  ultimately show ?case
    using err \<open>attempt < k\<close> assms(2) Suc(2)
    by (subst (1 2) attempt_loop.simps) (auto split: prod.splits)
qed

text \<open>C23. An external call ends within its number of attempts, at the first attempt whose outcome
  decides: success, a rejected credential, an error not worth retrying, or the last attempt.\<close>
theorem call_ends_at_first_decision:
  assumes "1 \<le> rto_attempts opt"
  shows "\<exists>k. 1 \<le> k \<and> k \<le> rto_attempts opt \<and> list_all (\<lambda>i. \<not> settles opt run i) [1..<k]
    \<and> (settles opt run k \<or> k = rto_attempts opt)
    \<and> fst (call_external opt run random) = settled_result opt run k
    \<and> length (snd (call_external opt run random)) = k - 1"
proof -
  let ?P = "\<lambda>k. 1 \<le> k \<and> (settles opt run k \<or> k = rto_attempts opt)"
  define k where "k = (LEAST k. ?P k)"
  have P: "?P k" unfolding k_def by (rule LeastI [of ?P "rto_attempts opt"]) (use assms in simp)
  have le: "k \<le> rto_attempts opt" unfolding k_def by (rule Least_le) (use assms in simp)
  have before: "\<not> settles opt run i" if "1 \<le> i" "i < k" for i
    using not_less_Least [of i ?P] that unfolding k_def by blast
  from attempt_loop_result [of 1 k opt run random undefined_error] P le before
  have "fst (call_external opt run random) = settled_result opt run k
      \<and> length (snd (call_external opt run random)) = k - 1" by (simp add: call_external_def)
  moreover have "list_all (\<lambda>i. \<not> settles opt run i) [1..<k]" using before by (auto simp: list_all_iff)
  ultimately show ?thesis using P le by blast
qed

text \<open>Every sleep is at most the largest delay, so a call waits a bounded time.\<close>

lemma sleep_bounds:
  assumes "0 \<le> random" and "random < 1"
  shows "0 \<le> sleep_ms opt attempt random \<and> sleep_ms opt attempt random \<le> int (rto_maxDelayMs opt)"
proof -
  let ?b = "of_nat (backoff opt attempt) :: rat"
  have b: "0 \<le> ?b" "?b \<le> of_nat (rto_maxDelayMs opt)" by (simp_all add: backoff_def)
  have f: "0 \<le> 1 / 2 + random * (1 / 2)" "1 / 2 + random * (1 / 2) \<le> 1" using assms by simp_all
  have "0 \<le> ?b * (1 / 2 + random * (1 / 2))" using b(1) f(1) by (rule mult_nonneg_nonneg)
  moreover have "?b * (1 / 2 + random * (1 / 2)) \<le> of_nat (rto_maxDelayMs opt)"
    using mult_left_le [OF f(2) b(1)] b(2) by simp
  ultimately show ?thesis
    unfolding sleep_ms_def math_round_def by (simp add: le_floor_iff floor_le_iff)
qed

lemma attempt_loop_sleeps:
  "s \<in> set (snd (attempt_loop opt run random attempt lastError)) \<Longrightarrow> \<exists>i. s = sleep_ms opt i (random i)"
proof (induction opt run random attempt lastError rule: attempt_loop.induct)
  case (1 opt run random attempt lastError)
  show ?case
    using 1(2) by (subst (asm) attempt_loop.simps) (auto split: if_splits sum.splits prod.splits dest: 1(1))
qed

lemma attempt_loop_count:
  "length (snd (attempt_loop opt run random attempt lastError)) \<le> rto_attempts opt - attempt"
proof (induction opt run random attempt lastError rule: attempt_loop.induct)
  case (1 opt run random attempt lastError)
  show ?case
  proof (cases "\<exists>err. with_timeout opt (run attempt) = Inl err \<and> \<not> is_auth_failure err \<and> is_retryable err
      \<and> attempt < rto_attempts opt")
    case True
    then obtain err where "with_timeout opt (run attempt) = Inl err" "\<not> is_auth_failure err" "is_retryable err"
      "attempt < rto_attempts opt" by blast
    with 1 [of err] show ?thesis by (subst attempt_loop.simps) (auto split: prod.splits)
  next
    case False
    then show ?thesis by (subst attempt_loop.simps) (auto split: sum.splits prod.splits)
  qed
qed

theorem call_waits_boundedly:
  assumes "\<And>i. 0 \<le> random i \<and> random i < 1"
  shows "0 \<le> sum_list (snd (call_external opt run random))
    \<and> sum_list (snd (call_external opt run random)) \<le> int (rto_attempts opt - 1) * int (rto_maxDelayMs opt)"
proof -
  let ?sl = "snd (call_external opt run random)"
  have each: "0 \<le> s \<and> s \<le> int (rto_maxDelayMs opt)" if "s \<in> set ?sl" for s
    using that attempt_loop_sleeps sleep_bounds assms unfolding call_external_def by metis
  have "length ?sl \<le> rto_attempts opt - 1"
    using attempt_loop_count unfolding call_external_def .
  moreover have "sum_list ?sl \<le> int (length ?sl) * int (rto_maxDelayMs opt)"
    using sum_list_mono [of ?sl "\<lambda>s. s" "\<lambda>_. int (rto_maxDelayMs opt)"] each by (simp add: sum_list_triv)
  moreover have "int (length ?sl) * int (rto_maxDelayMs opt) \<le> int (rto_attempts opt - 1) * int (rto_maxDelayMs opt)"
    using calculation(1) by (intro mult_right_mono) simp_all
  ultimately show ?thesis using each by (auto intro: sum_list_nonneg)
qed

section \<open>Instances\<close>

definition demo_attempts :: "nat \<Rightarrow> nat attempt" where
  "demo_attempts k = (if k = 1 then Hangs else Returned k)"

theorem call_ends_at_first_decision_witness:
  "\<exists>k \<in> {1, 2, 3}. fst (call_external default_options demo_attempts (\<lambda>_. 0)) = settled_result default_options demo_attempts k"
proof -
  have n: "rto_attempts default_options = 3" by (simp add: default_options_def)
  then have "1 \<le> rto_attempts default_options" by simp
  from call_ends_at_first_decision [OF this, of demo_attempts "\<lambda>_. 0"] obtain k where
    "1 \<le> k" "k \<le> 3" "fst (call_external default_options demo_attempts (\<lambda>_. 0)) = settled_result default_options demo_attempts k"
    unfolding n by blast
  moreover from this have "k \<in> {1, 2, 3}" by auto
  ultimately show ?thesis by blast
qed

theorem call_waits_boundedly_witness:
  "sum_list (snd (call_external default_options (\<lambda>_. Hangs :: nat attempt) (\<lambda>_. 1 / 2))) \<le> 8000"
  using call_waits_boundedly [of "\<lambda>_. 1 / 2" default_options "\<lambda>_. Hangs :: nat attempt"]
  by (simp add: default_options_def)

end
