(* ===== verification/InboundMail.thy ===== *)
theory InboundMail
  imports Bytes
begin

text \<open>
  The pure part of the e-mail intake: integrations/email-parsing.util.ts,
  intake/inbound/inbound-mail.ts and inbound-signature.ts. Each regular expression is written
  as the scan it performs; white space is that of ASCII, and line ends are CR and LF.
  SHA-256, HMAC, random bytes and the reading of a number are parameters.
\<close>

section \<open>The From header\<close>

definition rstrip :: "string \<Rightarrow> string" where
  "rstrip s = rev (dropWhile is_ws (rev s))"

definition is_newline :: "char \<Rightarrow> bool" where
  "is_newline c \<longleftrightarrow> (of_char c :: nat) \<in> {10, 13}"

text \<open>\<open>ADDRESS_RE\<close> on a trimmed text: what stands before the last angle bracket and inside it.\<close>

definition split_address :: "string \<Rightarrow> (string \<times> string) option" where
  "split_address s =
     (let inner = takeWhile (\<lambda>c. c \<noteq> CHR ''<'') (rev s);
          pre = drop (Suc (length inner)) (rev s);
          name = rstrip (rev pre)
      in if length inner < length s \<and> 2 \<le> length inner \<and> hd inner = CHR ''>'' \<and> CHR ''>'' \<notin> set (tl inner)
            \<and> \<not> list_ex is_newline name
         then Some (name, rev (tl inner)) else None)"

definition plain_char :: "char \<Rightarrow> bool" where
  "plain_char c \<longleftrightarrow> \<not> is_ws c \<and> c \<notin> set ''@,;:<>'' \<and> (of_char c :: nat) \<notin> {34, 39}"

text \<open>\<open>EMAIL_RE\<close>.\<close>

definition email_re :: "string \<Rightarrow> bool" where
  "email_re s = (case split_on CHR ''@'' s of
     [l, d] \<Rightarrow> l \<noteq> [] \<and> list_all plain_char l
       \<and> (let ps = split_on CHR ''.'' d in 2 \<le> length ps \<and> list_all (\<lambda>p. p \<noteq> [] \<and> list_all plain_char p) ps)
   | _ \<Rightarrow> False)"

record parsed_from =
  pf_name :: string
  pf_email :: string
  pf_isValidEmail :: bool

definition unknown_customer :: string where
  "unknown_customer = utf8 [1500, 1511, 1493, 1495, 32, 1500, 1488, 32, 1502, 1494, 1493, 1492, 1492]"

definition parse_from_header :: "string \<Rightarrow> parsed_from" where
  "parse_from_header raw =
     (let val = trim raw;
          m = split_address val;
          email = filter (\<lambda>c. \<not> is_newline c) (trim (case m of None \<Rightarrow> val | Some (_, a) \<Rightarrow> a));
          rawName = (case m of None \<Rightarrow> [] | Some (n, _) \<Rightarrow> trim (filter (\<lambda>c. (of_char c :: nat) \<notin> {34, 39}) n))
      in \<lparr>pf_name = (if rawName \<noteq> [] then rawName else if email \<noteq> [] then email else unknown_customer),
          pf_email = email, pf_isValidEmail = email_re email\<rparr>)"

section \<open>Our own addresses\<close>

definition base32 :: string where
  "base32 = ''abcdefghijklmnopqrstuvwxyz234567''"

definition slug_char :: "char \<Rightarrow> bool" where
  "slug_char c \<longleftrightarrow> is_lower c \<or> is_digit c"

text \<open>Every run of other characters becomes one dash.\<close>

function dash_runs :: "string \<Rightarrow> string" where
  "dash_runs [] = []"
| "dash_runs (c # s) =
     (if slug_char c then c # dash_runs s else CHR ''-'' # dash_runs (dropWhile (\<lambda>x. \<not> slug_char x) s))"
  by pat_completeness auto
termination
  by (relation "measure length") (auto simp: le_imp_less_Suc length_dropWhile_le)

definition strip_dashes :: "string \<Rightarrow> string" where
  "strip_dashes s = rev (dropWhile (\<lambda>c. c = CHR ''-'') (rev (dropWhile (\<lambda>c. c = CHR ''-'') s)))"

text \<open>\<open>bytes\<close> are the ten random bytes.\<close>

definition generate_local_part :: "string \<Rightarrow> nat list \<Rightarrow> string" where
  "generate_local_part subdomain bytes =
     (let t = take 30 (strip_dashes (dash_runs (to_lower subdomain)));
          slug = (if t = [] then ''biz'' else t)
      in slug @ ''-'' @ map (\<lambda>b. base32 ! (b mod 32)) bytes)"

definition local_char :: "char \<Rightarrow> bool" where
  "local_char c \<longleftrightarrow> slug_char c \<or> c \<in> set ''._%+-''"

definition domain_char :: "char \<Rightarrow> bool" where
  "domain_char c \<longleftrightarrow> slug_char c \<or> c \<in> set ''.-''"

text \<open>
  The longest \<open>[a-z0-9.-]+\.[a-z]{2,}\<close> at the front of a run of domain characters: its
  length, None when there is none. \<open>n\<close> counts the characters before the text.
\<close>

fun domain_end :: "nat \<Rightarrow> string \<Rightarrow> nat option" where
  "domain_end n [] = None"
| "domain_end n (c # s) =
     (case domain_end (Suc n) s of
        Some k \<Rightarrow> Some k
      | None \<Rightarrow> (let tld = takeWhile is_lower s
                 in if 0 < n \<and> c = CHR ''.'' \<and> 2 \<le> length tld then Some (Suc n + length tld) else None))"

lemma dropWhile_shorter: "length (dropWhile P s) < Suc (length s)" "x # r = dropWhile P s \<Longrightarrow> length r - k < Suc (length s)"
  using length_dropWhile_le [of P s] by (auto dest!: arg_cong [where f = length])

text \<open>All addresses of a text, from left to right.\<close>

function addresses :: "string \<Rightarrow> string list" where
  "addresses [] = []"
| "addresses (c # s) =
     (if \<not> local_char c then addresses s
      else let loc = c # takeWhile local_char s; rest = dropWhile local_char s
           in case rest of
                [] \<Rightarrow> []
              | x # after \<Rightarrow>
                  (case (if x = CHR ''@'' then domain_end 0 (takeWhile domain_char after) else None) of
                     None \<Rightarrow> addresses rest
                   | Some k \<Rightarrow> (loc @ ''@'' @ take k after) # addresses (drop k after)))"
  by pat_completeness auto
termination
  by (relation "measure length") (auto simp: dropWhile_shorter)

definition our_local :: "string \<Rightarrow> string \<Rightarrow> string option" where
  "our_local want addr =
     (if \<not> ends_with want addr then None
      else let l = hd (split_on CHR ''+'' (take (length addr - length want) addr))
           in if 3 \<le> length l \<and> length l \<le> 60 \<and> list_all (\<lambda>c. slug_char c \<or> c = CHR ''-'') l then Some l else None)"

definition local_part_for :: "string \<Rightarrow> string \<Rightarrow> string option" where
  "local_part_for rcpt domain =
     (case List.map_filter (our_local (CHR ''@'' # to_lower domain)) (addresses (to_lower rcpt)) of
        [] \<Rightarrow> None | l # _ \<Rightarrow> Some l)"

section \<open>Kinds of messages\<close>

record inbound_message =
  im_from :: string
  im_subject :: string
  im_text :: string
  im_messageId :: "string option"
  im_autoSubmitted :: "string option"
  im_precedence :: "string option"
  im_listId :: "string option"

text \<open>The first run of exactly nine digits.\<close>

function nine_digits :: "string \<Rightarrow> string option" where
  "nine_digits [] = None"
| "nine_digits (c # s) =
     (if \<not> is_digit c then nine_digits s
      else let run = c # takeWhile is_digit s
           in if length run = 9 then Some run else nine_digits (dropWhile is_digit s))"
  by pat_completeness auto
termination
  by (relation "measure length") (auto simp: dropWhile_shorter)

definition google_hosts :: "string list" where
  "google_hosts = [''https://mail.google.com/'', ''https://mail-settings.google.com/'', ''https://isolated.mail.google.com/'']"

fun google_url :: "string \<Rightarrow> string option" where
  "google_url [] = None"
| "google_url (c # s) =
     (let w = takeWhile (\<lambda>x. \<not> is_ws x) (c # s)
      in if list_ex (\<lambda>p. starts_with p (to_lower (c # s)) \<and> length p < length w) google_hosts then Some w else google_url s)"

definition gmail_verification :: "inbound_message \<Rightarrow> (string option \<times> string option) option" where
  "gmail_verification msg =
     (if \<not> contains_ci ''forwarding-noreply@google.com'' (im_from msg) then None
      else Some (nine_digits (im_subject msg @ [char_of (10 :: nat)] @ im_text msg), google_url (im_text msg)))"

definition no_reply_senders :: "string list" where
  "no_reply_senders = [''mailer-daemon@'', ''postmaster@'', ''noreply@'', ''no-reply@'',
     ''donotreply@'', ''donot-reply@'', ''do-notreply@'', ''do-not-reply@'']"

definition automated_reason :: "inbound_message \<Rightarrow> string option" where
  "automated_reason msg =
     (if truthy (im_autoSubmitted msg) \<and> to_lower (trim (the (im_autoSubmitted msg))) \<noteq> ''no'' then Some ''auto-submitted''
      else if to_lower (or_else (map_option trim (im_precedence msg)) []) \<in> set [''bulk'', ''list'', ''junk'', ''auto_reply''] then Some ''bulk''
      else if truthy (map_option trim (im_listId msg)) then Some ''mailing-list''
      else if list_ex (\<lambda>p. contains_ci p (im_from msg)) no_reply_senders then Some ''no-reply sender''
      else None)"

section \<open>Manually forwarded messages\<close>

definition forward_phrases :: "string list" where
  "forward_phrases = [''forwarded message'',
     utf8 [1492, 1493, 1491, 1506, 1492, 32, 1513, 1492, 1493, 1506, 1489, 1512, 1492],
     utf8 [1492, 1493, 1491, 1506, 1492, 32, 1502, 1493, 1506, 1489, 1512, 1514]]"

definition from_phrases :: "string list" where
  "from_phrases = [''from:'', utf8 [1502, 1488, 1514] @ '':'']"

definition subject_phrases :: "string list" where
  "subject_phrases = [''subject:'', utf8 [1504, 1493, 1513, 1488] @ '':'']"

definition phrase_at :: "string list \<Rightarrow> string \<Rightarrow> string option" where
  "phrase_at ps s = List.find (\<lambda>p. starts_with p (to_lower s)) ps"

definition is_dash :: "char \<Rightarrow> bool" where
  "is_dash c \<longleftrightarrow> c = CHR ''-''"

text \<open>What follows the marker line that starts at the front of the text.\<close>

definition marker_here :: "string \<Rightarrow> string option" where
  "marker_here s =
     (if length (takeWhile is_dash s) < 5 then None
      else let t = dropWhile is_ws (dropWhile is_dash s)
           in case phrase_at forward_phrases t of
                None \<Rightarrow> None
              | Some p \<Rightarrow> (let u = dropWhile is_ws (drop (length p) t)
                          in if length (takeWhile is_dash u) < 5 then None else Some (dropWhile is_dash u)))"

fun after_marker :: "string \<Rightarrow> string option" where
  "after_marker [] = None"
| "after_marker (c # s) = (case marker_here (c # s) of Some r \<Rightarrow> Some r | None \<Rightarrow> after_marker s)"

text \<open>
  \<open>^\s*(phrase)\s*(.+)$\<close> at the start of a line: the rest of the line after the white
  space. When nothing but white space follows to the end of the text, the last blank is taken.
\<close>

definition header_here :: "string list \<Rightarrow> string \<Rightarrow> string option" where
  "header_here ps s =
     (let t = dropWhile is_ws s
      in case phrase_at ps t of
           None \<Rightarrow> None
         | Some p \<Rightarrow> (let u = drop (length p) t; v = dropWhile is_ws u
                     in if v \<noteq> [] then Some (takeWhile (\<lambda>c. \<not> is_newline c) v)
                        else if list_ex (\<lambda>c. \<not> is_newline c) u then Some [] else None))"

fun header_value :: "string list \<Rightarrow> bool \<Rightarrow> string \<Rightarrow> string option" where
  "header_value ps line_start [] = None"
| "header_value ps line_start (c # s) =
     (case (if line_start then header_here ps (c # s) else None) of
        Some v \<Rightarrow> Some (trim v)
      | None \<Rightarrow> header_value ps (is_newline c) s)"

text \<open>From the first line end that white space and another line end follow.\<close>

fun after_blank_line :: "string \<Rightarrow> string option" where
  "after_blank_line [] = None"
| "after_blank_line (c # s) =
     (if (of_char c :: nat) = 10 \<and> list_ex (\<lambda>x. (of_char x :: nat) = 10) (takeWhile is_ws s) then Some (c # s)
      else after_blank_line s)"

definition unwrap_forwarded :: "string \<Rightarrow> (string \<times> string option \<times> string) option" where
  "unwrap_forwarded txt =
     (case after_marker txt of
        None \<Rightarrow> None
      | Some rest \<Rightarrow>
          (let sender = header_value from_phrases True rest
           in if \<not> truthy sender then None
              else Some (the sender, header_value subject_phrases True rest, trim (or_else (after_blank_line rest) rest))))"

section \<open>The identity of a message\<close>

definition strip_brackets :: "string \<Rightarrow> string" where
  "strip_brackets s =
     (let t = (if starts_with ''<'' s then tl s else s)
      in if ends_with ''>'' t then butlast t else t)"

definition source_id_for :: "(string \<Rightarrow> string) \<Rightarrow> inbound_message \<Rightarrow> string" where
  "source_id_for sha256 msg =
     (let mid = map_option (\<lambda>m. to_lower (strip_brackets (trim m))) (im_messageId msg); nl = [char_of (10 :: nat)]
      in if truthy mid \<and> js_length (the mid) \<le> 250 then ''mid:'' @ the mid
         else ''hash:'' @ take 40 (sha256 (im_from msg @ nl @ im_subject msg @ nl @ im_text msg)))"

section \<open>Signatures\<close>

definition max_skew_seconds :: int where
  "max_skew_seconds = 300"

definition sign_inbound :: "(string \<Rightarrow> string \<Rightarrow> string) \<Rightarrow> string \<Rightarrow> int \<Rightarrow> string \<Rightarrow> string" where
  "sign_inbound hmac secret timestamp rawBody =
     ''t='' @ show_int timestamp @ '',v1='' @ hmac secret (show_int timestamp @ ''.'' @ rawBody)"

datatype signature_check = Sig_ok | Sig_missing | Sig_malformed | Sig_stale | Sig_mismatch

text \<open>\<open>split('=', 2)\<close> gives the first two of the parts; a second part may be missing.\<close>

definition signature_part :: "string \<Rightarrow> string \<times> string option" where
  "signature_part p =
     (case split_on CHR ''='' (trim p) of
        [] \<Rightarrow> ([], None) | [k] \<Rightarrow> (k, None) | k # v # _ \<Rightarrow> (k, Some v))"

text \<open>\<open>Object.fromEntries\<close>: the last entry of a name wins.\<close>

definition signature_field :: "string \<Rightarrow> string \<Rightarrow> string option" where
  "signature_field header k =
     (case map_of (rev (map signature_part (split_on CHR '','' header))) k of None \<Rightarrow> None | Some v \<Rightarrow> v)"

definition is_mac_text :: "string \<Rightarrow> bool" where
  "is_mac_text s \<longleftrightarrow> length s = 64 \<and> list_all (\<lambda>c. is_hex c \<and> \<not> is_upper c) s"

definition verify_inbound ::
  "(string \<Rightarrow> string \<Rightarrow> string) \<Rightarrow> (string \<Rightarrow> rat option) \<Rightarrow> string option \<Rightarrow> string option \<Rightarrow> string \<Rightarrow> int \<Rightarrow> signature_check" where
  "verify_inbound hmac number header rawBody secret nowSeconds =
     (if \<not> truthy header \<or> rawBody = None then Sig_missing
      else case (case signature_field (the header) ''t'' of None \<Rightarrow> None | Some x \<Rightarrow> number x) of
          None \<Rightarrow> Sig_malformed
        | Some q \<Rightarrow>
            (case signature_field (the header) ''v1'' of
               None \<Rightarrow> Sig_malformed
             | Some v1 \<Rightarrow>
                 if of_int \<lfloor>q\<rfloor> \<noteq> q \<or> \<not> is_mac_text v1 then Sig_malformed
                 else if max_skew_seconds < \<bar>nowSeconds - \<lfloor>q\<rfloor>\<bar> then Sig_stale
                 else if hex_decode v1 = hex_decode (hmac secret (show_int \<lfloor>q\<rfloor> @ ''.'' @ the rawBody)) then Sig_ok
                 else Sig_mismatch))"

section \<open>Our addresses find their way back\<close>

lemma slug_local [simp]: "slug_char c \<Longrightarrow> local_char c"
  by (simp add: local_char_def)

lemma domain_local: "domain_char c \<Longrightarrow> local_char c"
  by (auto simp: local_char_def domain_char_def)

lemma not_local_at [simp]: "\<not> local_char CHR ''@''"
  by (simp add: local_char_def slug_char_def is_lower_def is_digit_def)

lemma takeWhile_stop: "(\<forall>x \<in> set p. P x) \<Longrightarrow> \<not> P c \<Longrightarrow> takeWhile P (p @ c # s) = p \<and> dropWhile P (p @ c # s) = c # s"
  by (induction p) auto

lemma takeWhile_app_stop: "\<not> P c \<Longrightarrow> takeWhile P (p @ c # s) = takeWhile P p"
  by (induction p) auto

lemma dropWhile_app_stop: "\<not> P c \<Longrightarrow> dropWhile P (p @ c # s) = dropWhile P p @ c # s"
  by (induction p) auto

lemma domain_end_le: "domain_end n s = Some k \<Longrightarrow> k \<le> n + length s"
proof (induction n s rule: domain_end.induct)
  case (2 n c s)
  show ?case
  proof (cases "domain_end (Suc n) s")
    case None
    with 2(2) length_takeWhile_le [of is_lower s] show ?thesis by (auto simp: Let_def split: if_splits)
  next
    case (Some j)
    with 2 show ?thesis by simp
  qed
qed simp

text \<open>An address never reaches over a character that no address has.\<close>

lemma addresses_split:
  assumes "\<not> local_char c" and "c \<noteq> CHR ''@''"
  shows "addresses (p @ c # s) = addresses p @ addresses (c # s)"
proof (induction "length p" arbitrary: p rule: less_induct)
  case less
  have nd: "\<not> domain_char c" using assms(1) domain_local by blast
  show ?case
  proof (cases p)
    case (Cons x q)
    note tw = takeWhile_app_stop [of local_char, OF assms(1), of q s] dropWhile_app_stop [of local_char, OF assms(1), of q s]
    show ?thesis
    proof (cases "local_char x")
      case False
      with Cons less [of q] show ?thesis by simp
    next
      case True
      show ?thesis
      proof (cases "dropWhile local_char q")
        case Nil
        with True Cons assms show ?thesis by (simp add: tw Nil Let_def del: dropWhile_eq_Nil_conv)
      next
        case (Cons y after)
        have len: "length (y # after) \<le> length q" using length_dropWhile_le [of local_char q] Cons by simp
        note dom = takeWhile_app_stop [of domain_char, OF nd, of after s]
        show ?thesis
        proof (cases "if y = CHR ''@'' then domain_end 0 (takeWhile domain_char after) else None")
          case None
          with True Cons \<open>p = x # q\<close> less [of "y # after"] len show ?thesis
            by (cases "y = CHR ''@''") (simp_all add: tw dom Let_def del: addresses.simps add: addresses.simps(2) [of x])
        next
          case (Some k)
          then have "k \<le> length after"
            using domain_end_le [of 0 "takeWhile domain_char after" k] length_takeWhile_le [of domain_char after]
            by (auto split: if_splits)
          with True Cons Some \<open>p = x # q\<close> less [of "drop k after"] len show ?thesis
            by (simp add: tw dom Let_def del: addresses.simps add: addresses.simps(2) [of x] split: if_splits)
        qed
      qed
    qed
  qed simp
qed

lemma no_at_no_address: "CHR ''@'' \<notin> set p \<Longrightarrow> addresses p = []"
proof (induction "length p" arbitrary: p rule: less_induct)
  case less
  show ?case
  proof (cases p)
    case (Cons c s)
    have shorter: "addresses q = []" if "set q \<subseteq> set s" "length q \<le> length s" for q
      using less(1) [of q] less(2) that Cons by auto
    show ?thesis
    proof (cases "local_char c")
      case False
      with Cons shorter [of s] show ?thesis by simp
    next
      case True
      have r: "set (dropWhile local_char s) \<subseteq> set s" by (auto dest: set_dropWhileD)
      with shorter [of "dropWhile local_char s"] length_dropWhile_le [of local_char s]
      have "addresses (dropWhile local_char s) = []" by simp
      moreover have "CHR ''@'' \<notin> set (dropWhile local_char s)" using r less(2) Cons by auto
      ultimately show ?thesis using True Cons
        by (cases "dropWhile local_char s") (auto simp: Let_def simp del: dropWhile_eq_Nil_conv)
    qed
  qed simp
qed

text \<open>A name of at least two labels whose last one is of letters only.\<close>

definition routed_domain :: "string \<Rightarrow> bool" where
  "routed_domain d \<longleftrightarrow> (\<exists>sub tld. d = sub @ ''.'' @ tld \<and> sub \<noteq> [] \<and> list_all domain_char sub \<and> 2 \<le> length tld \<and> list_all is_lower tld)"

lemma domain_end_letters: "list_all is_lower s \<Longrightarrow> domain_end n s = None"
proof (induction s arbitrary: n)
  case (Cons c s)
  then have "c \<noteq> CHR ''.''" by (auto simp: is_lower_def)
  with Cons show ?case by simp
qed simp

lemma domain_end_app: "domain_end (n + length p) s = Some k \<Longrightarrow> domain_end n (p @ s) = Some k"
proof (induction p arbitrary: n)
  case (Cons c p)
  then show ?case using Cons.IH [of "Suc n"] by simp
qed simp

lemma domain_end_domain:
  assumes "routed_domain d"
  shows "domain_end 0 d = Some (length d)"
proof -
  from assms obtain sub tld where d: "d = sub @ ''.'' @ tld" "sub \<noteq> []" "2 \<le> length tld" "list_all is_lower tld"
    by (auto simp: routed_domain_def)
  have tw: "takeWhile is_lower tld = tld" using d(4) by (simp add: takeWhile_eq_all_conv list_all_iff)
  have "domain_end (length sub) (''.'' @ tld) = Some (Suc (length sub) + length tld)"
    using d domain_end_letters [OF d(4)] by (simp add: Let_def tw)
  then show ?thesis using domain_end_app [of 0 sub "''.'' @ tld"] d(1) by simp
qed

lemma routed_domain_chars: "routed_domain d \<Longrightarrow> list_all domain_char d"
  by (auto simp: routed_domain_def domain_char_def slug_char_def list_all_iff)

lemma address_alone:
  assumes "l \<noteq> []" and "list_all local_char l" and "routed_domain d" and "post = [] \<or> \<not> domain_char (hd post)"
  shows "addresses (l @ ''@'' @ d @ post) = (l @ ''@'' @ d) # addresses post"
proof -
  obtain c s where l: "l = c # s" using assms(1) by (cases l) auto
  have c: "local_char c" and s: "\<forall>x \<in> set s. local_char x" using assms(2) l by (auto simp: list_all_iff)
  note tw = takeWhile_stop [OF s not_local_at, of "d @ post"]
  have "takeWhile domain_char (d @ post) = d"
  proof (cases post)
    case Nil
    with routed_domain_chars [OF assms(3)] show ?thesis by (simp add: takeWhile_eq_all_conv list_all_iff)
  next
    case (Cons x r)
    with assms(4) routed_domain_chars [OF assms(3)] takeWhile_stop [of d domain_char x r] show ?thesis by (simp add: list_all_iff)
  qed
  then show ?thesis using c tw domain_end_domain [OF assms(3)] by (simp add: l)
qed

definition box_char :: "char \<Rightarrow> bool" where
  "box_char c \<longleftrightarrow> slug_char c \<or> c = CHR ''-''"

lemma box_local: "box_char c \<Longrightarrow> local_char c"
  by (auto simp: box_char_def local_char_def)

lemma dash_runs_box: "list_all box_char (dash_runs s)"
  by (induction s rule: dash_runs.induct) (auto simp: box_char_def)

lemma strip_dashes_subset: "set (strip_dashes s) \<subseteq> set s"
  by (auto simp: strip_dashes_def dest!: set_dropWhileD)

lemma base32_box: "list_all box_char base32"
  by code_simp

lemma base32_length: "length base32 = 32"
  by (simp add: base32_def)

lemma generated_box:
  assumes "length bytes = 10"
  shows "list_all box_char (generate_local_part sub bytes)"
    and "3 \<le> length (generate_local_part sub bytes)" and "length (generate_local_part sub bytes) \<le> 60"
proof -
  let ?t = "take 30 (strip_dashes (dash_runs (to_lower sub)))"
  have "list_all box_char ?t"
    using dash_runs_box [of "to_lower sub"] strip_dashes_subset [of "dash_runs (to_lower sub)"]
    by (auto simp: list_all_iff dest!: in_set_takeD)
  moreover have "list_all box_char ''biz-''" by code_simp
  moreover have "box_char (base32 ! (b mod 32))" for b
    using base32_box nth_mem [of "b mod 32" base32] base32_length by (simp add: list_all_iff)
  ultimately show "list_all box_char (generate_local_part sub bytes)"
    by (auto simp: generate_local_part_def Let_def list_all_iff)
  show "3 \<le> length (generate_local_part sub bytes)" "length (generate_local_part sub bytes) \<le> 60"
    using assms by (auto simp: generate_local_part_def Let_def)
qed

lemma lower_slug: "slug_char c \<Longrightarrow> lower_char c = c"
  by (auto simp: slug_char_def lower_char_def is_lower_def is_digit_def)

lemma to_lower_box: "list_all box_char s \<Longrightarrow> to_lower s = s"
proof (induction s)
  case (Cons c s)
  have "lower_char CHR ''-'' = CHR ''-''" by code_simp
  with Cons show ?case by (auto simp: to_lower_def box_char_def lower_slug)
qed (simp add: to_lower_def)

lemma lower_local: "local_char c \<Longrightarrow> lower_char c = c"
  by (auto simp: local_char_def lower_slug) (simp_all add: lower_char_def)

lemma to_lower_local: "list_all local_char s \<Longrightarrow> to_lower s = s"
  by (induction s) (auto simp: to_lower_def lower_local)

lemma to_lower_append: "to_lower (s @ t) = to_lower s @ to_lower t"
  by (simp add: to_lower_def)

lemma lower_char_at: "lower_char c = CHR ''@'' \<Longrightarrow> c = CHR ''@''"
proof (cases "65 \<le> (of_char c :: nat) \<and> (of_char c :: nat) \<le> 90")
  case True
  then have "of_char (lower_char c) = (of_char c + 32 :: nat)" by (simp add: lower_char_def Let_def)
  moreover assume "lower_char c = CHR ''@''"
  ultimately show ?thesis using True by simp
qed (auto simp: lower_char_def Let_def)

lemma our_local_ours:
  assumes "list_all box_char l" and "3 \<le> length l" and "length l \<le> 60" and "tag = [] \<or> hd tag = CHR ''+''"
  shows "our_local (CHR ''@'' # d) (l @ tag @ ''@'' @ d) = Some l"
proof -
  have "hd (split_on CHR ''+'' (l @ tag)) = l"
  proof -
    have p: "CHR ''+'' \<notin> set l" using assms(1) by (auto simp: list_all_iff box_char_def slug_char_def is_lower_def is_digit_def)
    show ?thesis
    proof (cases tag)
      case (Cons x r)
      with assms(4) split_on_append_sep [OF p, of r] show ?thesis by simp
    qed (simp add: split_on_no_sep [OF p])
  qed
  then show ?thesis using assms(1-3) by (simp add: our_local_def ends_with_def box_char_def [abs_def])
qed

lemma our_address:
  assumes "list_all box_char l" and "3 \<le> length l" and "length l \<le> 60" and "tag = [] \<or> hd tag = CHR ''+''"
    and "list_all local_char tag" and "routed_domain d" and "post = [] \<or> \<not> domain_char (hd post)"
  shows "List.map_filter (our_local (CHR ''@'' # d)) (addresses ((l @ tag) @ ''@'' @ d @ post)) =
    l # List.map_filter (our_local (CHR ''@'' # d)) (addresses post)"
proof -
  have "l @ tag \<noteq> []" "list_all local_char (l @ tag)"
    using assms(1,2,5) by (auto simp: list_all_iff box_local)
  from address_alone [OF this assms(6,7)] our_local_ours [OF assms(1-4), of d]
  show ?thesis by (simp add: map_filter_simps)
qed

lemma plain_address_found:
  assumes "list_all box_char l" and "3 \<le> length l" and "length l \<le> 60" and "routed_domain (to_lower domain)"
  shows "local_part_for (l @ ''@'' @ domain) domain = Some l"
proof -
  have "to_lower ''@'' = ''@''" by code_simp
  then have "to_lower (l @ ''@'' @ domain) = (l @ []) @ ''@'' @ to_lower domain @ []"
    by (simp only: to_lower_append to_lower_box [OF assms(1)]) simp
  with our_address [OF assms(1-3), of "[]" "to_lower domain" "[]"] assms(4) show ?thesis
    by (simp only: local_part_for_def) simp
qed

theorem inbound_address_is_ours:
  assumes "length bytes = 10" and "routed_domain (to_lower domain)" and "CHR ''@'' \<notin> set name"
    and "tag = [] \<or> hd tag = CHR ''+''" and "list_all local_char tag"
  shows "local_part_for (generate_local_part sub bytes @ tag @ ''@'' @ domain) domain = Some (generate_local_part sub bytes)
    \<and> local_part_for (name @ ''<'' @ generate_local_part sub bytes @ tag @ ''@'' @ domain @ ''>'') domain
        = Some (generate_local_part sub bytes)"
proof -
  let ?l = "generate_local_part sub bytes"
  note g = generated_box [OF assms(1), of sub]
  have low: "to_lower ?l = ?l" by (rule to_lower_box [OF g(1)])
  have one: "lower_char c = c" if "c \<in> {CHR ''<'', CHR ''>'', CHR ''@''}" for c
    using that by (auto simp: lower_char_def)
  have nl: "\<not> local_char CHR ''<''" "\<not> domain_char CHR ''>''"
    by (simp_all add: local_char_def domain_char_def slug_char_def is_lower_def is_digit_def)
  have name: "addresses (to_lower name) = []"
    using assms(3) by (intro no_at_no_address) (auto simp: to_lower_def dest: lower_char_at [OF sym])
  have "addresses (''<'' @ s) = addresses s" for s using nl by simp
  with addresses_split [OF nl(1), of "to_lower name"] name
  have pre: "addresses (to_lower name @ ''<'' @ s) = addresses s" for s by simp
  have "to_lower [c] = [c]" if "c \<in> {CHR ''<'', CHR ''>'', CHR ''@''}" for c
    using one [OF that] by (simp add: to_lower_def)
  then have "to_lower (?l @ tag @ ''@'' @ domain) = (?l @ tag) @ ''@'' @ to_lower domain @ []"
    and "to_lower (name @ ''<'' @ ?l @ tag @ ''@'' @ domain @ ''>'') = to_lower name @ ''<'' @ (?l @ tag) @ ''@'' @ to_lower domain @ ''>''"
    by (simp_all only: to_lower_append low to_lower_local [OF assms(5)]) simp_all
  then show ?thesis
    using our_address [OF g assms(4,5,2), of "[]"] our_address [OF g assms(4,5,2), of "''>''"] pre nl
    by (simp only: local_part_for_def) simp
qed

section \<open>Reading what was written\<close>

lemma email_re_chars:
  assumes "email_re a"
  shows "a \<noteq> [] \<and> list_all (\<lambda>c. plain_char c \<or> c = CHR ''@'' \<or> c = CHR ''.'') a"
proof -
  from assms obtain l d where s: "split_on CHR ''@'' a = [l, d]" and l: "l \<noteq> []" "list_all plain_char l"
    and d: "list_all (\<lambda>p. list_all plain_char p) (split_on CHR ''.'' d)"
    by (auto simp: email_re_def Let_def list_all_iff split: list.splits)
  have cover: "set s \<subseteq> insert c (\<Union> (set ` set (split_on c s)))" for c s
    by (induction s) (auto split: list.splits if_splits, blast)
  have "set d \<subseteq> insert CHR ''.'' {x. plain_char x}" using cover [of d "CHR ''.''"] d by (fastforce simp: list_all_iff)
  with cover [of a "CHR ''@''"] s l have "set a \<subseteq> {CHR ''@'', CHR ''.''} \<union> {x. plain_char x}" by (fastforce simp: list_all_iff)
  moreover have "a \<noteq> []" using s l by auto
  ultimately show ?thesis by (auto simp: list_all_iff)
qed

lemma rstrip_blank: "n \<noteq> [] \<Longrightarrow> \<not> is_ws (last n) \<Longrightarrow> rstrip (n @ '' '') = n"
proof -
  assume "n \<noteq> []" "\<not> is_ws (last n)"
  then obtain m c where "n = m @ [c]" "\<not> is_ws c" by (metis append_butlast_last_id)
  then show ?thesis by (simp add: rstrip_def is_ws_def)
qed

theorem from_header_is_read_back:
  assumes "email_re a" and "n \<noteq> []" and "trim n = n"
    and "list_all (\<lambda>c. \<not> is_newline c \<and> (of_char c :: nat) \<notin> {34, 39}) n"
  shows "parse_from_header (n @ '' <'' @ a @ ''>'') = \<lparr>pf_name = n, pf_email = a, pf_isValidEmail = True\<rparr>
    \<and> parse_from_header a = \<lparr>pf_name = a, pf_email = a, pf_isValidEmail = True\<rparr>"
proof -
  note a = email_re_chars [OF assms(1)]
  have nows: "list_all (\<lambda>c. \<not> is_ws c \<and> \<not> is_newline c \<and> c \<noteq> CHR ''<'' \<and> c \<noteq> CHR ''>'') a"
  proof -
    let ?P = "\<lambda>c. \<not> is_ws c \<and> \<not> is_newline c \<and> c \<noteq> CHR ''<'' \<and> c \<noteq> CHR ''>''"
    have "?P c" if "plain_char c" for c
      using that by (auto simp: plain_char_def is_ws_def is_newline_def)
    moreover have "?P CHR ''@''" "?P CHR ''.''" by code_simp+
    ultimately have "?P c" if "plain_char c \<or> c = CHR ''@'' \<or> c = CHR ''.''" for c using that by blast
    with a show ?thesis unfolding list_all_iff by blast
  qed
  have ta: "trim a = a" by (rule trim_no_ws) (use nows in \<open>simp add: list_all_iff\<close>)
  have fa: "filter (\<lambda>c. \<not> is_newline c) a = a" using nows by (simp add: filter_id_conv list_all_iff)
  obtain x xs where n: "n = x # xs" using assms(2) by (cases n) auto
  with assms(3) have e: "\<not> is_ws x" "\<not> is_ws (last n)" using trim_ends [of n x xs] by simp_all
  let ?v = "n @ '' <'' @ a @ ''>''"
  have gt: "\<not> is_ws CHR ''>''" by code_simp
  have "dropWhile is_ws ?v = ?v" "dropWhile is_ws (rev ?v) = rev ?v" using e(1) gt by (simp_all add: n)
  then have tv: "trim ?v = ?v" by (simp only: trim_def rev_rev_ident)
  have tw: "takeWhile (\<lambda>c. c \<noteq> CHR ''<'') (rev a @ CHR ''<'' # s) = rev a" for s
    using nows takeWhile_stop [of "rev a" "\<lambda>c. c \<noteq> CHR ''<''" "CHR ''<''" s] by (simp add: list_all_iff)
  have sv: "split_address ?v = Some (n, a)"
    using nows a assms(4) rstrip_blank [OF assms(2) e(2)]
    by (auto simp add: split_address_def tw list_ex_iff list_all_iff Suc_le_eq)
  have fn: "filter (\<lambda>c. (of_char c :: nat) \<notin> {34, 39}) n = n"
    using assms(4) by (simp add: filter_id_conv list_all_iff)
  have sa: "split_address a = None"
  proof -
    have "takeWhile (\<lambda>c. c \<noteq> CHR ''<'') (rev a) = rev a" using nows by (intro takeWhile_eq_all_conv [THEN iffD2]) (auto simp: list_all_iff)
    then have "\<not> length (takeWhile (\<lambda>c. c \<noteq> CHR ''<'') (rev a)) < length a" by (metis length_rev less_irrefl)
    then show ?thesis by (simp add: split_address_def Let_def)
  qed
  show ?thesis
    unfolding parse_from_header_def Let_def tv ta sv sa using assms(1-3) a fn by (simp add: ta fa)
qed

section \<open>Signed requests\<close>

lemma show_int_chars: "x \<in> set (show_int t) \<Longrightarrow> is_digit x \<or> x = CHR ''-''"
  using show_nat_digits by (auto simp: show_int_def list_all_iff split: if_splits)

lemma own_signature_checked:
  assumes "number (show_int t) = Some (of_int t)" and "\<And>s. is_mac_text (hmac secret s)"
  shows "verify_inbound hmac number (Some (sign_inbound hmac secret t body)) (Some body) secret nowS
      = (if \<bar>nowS - t\<bar> \<le> max_skew_seconds then Sig_ok else Sig_stale)"
proof -
  let ?mac = "hmac secret (show_int t @ ''.'' @ body)"
  let ?h = "sign_inbound hmac secret t body"
  have num: "list_all (\<lambda>c. \<not> is_ws c \<and> c \<noteq> CHR '','' \<and> c \<noteq> CHR ''='') (show_int t)"
    using show_int_chars by (fastforce simp: list_all_iff is_digit_def is_ws_def)
  have mac: "list_all (\<lambda>c. \<not> is_ws c \<and> c \<noteq> CHR '','' \<and> c \<noteq> CHR ''='') ?mac"
    using assms(2) [of "show_int t @ ''.'' @ body"] by (auto simp: is_mac_text_def list_all_iff is_hex_def is_digit_def is_ws_def)
  have parts: "split_on CHR '','' ?h = [''t='' @ show_int t, ''v1='' @ ?mac]"
  proof -
    have "?h = (''t='' @ show_int t) @ CHR '','' # (''v1='' @ ?mac)" by (simp add: sign_inbound_def)
    moreover have "CHR '','' \<notin> set (''t='' @ show_int t)" "CHR '','' \<notin> set (''v1='' @ ?mac)"
      using num mac by (auto simp: list_all_iff)
    ultimately show ?thesis by (simp only: split_on_append_sep split_on_no_sep not_False_eq_True)
  qed
  have keep: "trim (''t='' @ show_int t) = ''t='' @ show_int t" "trim (''v1='' @ ?mac) = ''v1='' @ ?mac"
  proof -
    have "list_all (\<lambda>c. \<not> is_ws c) ''t='' \<and> list_all (\<lambda>c. \<not> is_ws c) ''v1=''" by code_simp
    then have "list_all (\<lambda>c. \<not> is_ws c) (''t='' @ show_int t)" "list_all (\<lambda>c. \<not> is_ws c) (''v1='' @ ?mac)"
      using num mac unfolding list_all_append by (simp_all add: list_all_iff)
    then show "trim (''t='' @ show_int t) = ''t='' @ show_int t" "trim (''v1='' @ ?mac) = ''v1='' @ ?mac"
      by (simp_all only: trim_no_ws)
  qed
  have "CHR ''='' \<notin> set (show_int t)" "CHR ''='' \<notin> set ?mac" using num mac by (auto simp: list_all_iff)
  then have "split_on CHR ''='' (''t='' @ show_int t) = [''t'', show_int t]" "split_on CHR ''='' (''v1='' @ ?mac) = [''v1'', ?mac]"
    using split_on_append_sep [of "CHR ''=''" "''t''" "show_int t"] split_on_append_sep [of "CHR ''=''" "''v1''" ?mac]
    by (simp_all add: split_on_no_sep)
  then have "signature_part (''t='' @ show_int t) = (''t'', Some (show_int t))" "signature_part (''v1='' @ ?mac) = (''v1'', Some ?mac)"
    unfolding signature_part_def keep by simp_all
  then have "map signature_part (split_on CHR '','' ?h) = [(''t'', Some (show_int t)), (''v1'', Some ?mac)]"
    by (simp only: parts list.map)
  then have "signature_field ?h ''t'' = Some (show_int t)" "signature_field ?h ''v1'' = Some ?mac"
    by (simp_all add: signature_field_def)
  moreover have "?h \<noteq> []" by (simp add: sign_inbound_def)
  ultimately show "verify_inbound hmac number (Some ?h) (Some body) secret nowS = (if \<bar>nowS - t\<bar> \<le> max_skew_seconds then Sig_ok else Sig_stale)"
    using assms by (simp add: verify_inbound_def)
qed

text \<open>
  What \<open>signInbound\<close> signs is accepted for the very body and secret within the window and is
  stale outside of it; whatever is accepted carries the code of this body under its own time.
\<close>

theorem inbound_signature_exact:
  assumes "number (show_int t) = Some (of_int t)" and "\<And>s. is_mac_text (hmac secret s)"
  shows "verify_inbound hmac number (Some (sign_inbound hmac secret t body)) (Some body) secret nowS
      = (if \<bar>nowS - t\<bar> \<le> max_skew_seconds then Sig_ok else Sig_stale)
    \<and> (\<forall>header raw. verify_inbound hmac number header (Some raw) secret nowS = Sig_ok \<longrightarrow>
        (\<exists>h t' v1. header = Some h \<and> \<bar>nowS - t'\<bar> \<le> max_skew_seconds \<and> signature_field h ''v1'' = Some v1
           \<and> hex_decode v1 = hex_decode (hmac secret (show_int t' @ ''.'' @ raw))))"
proof
  show "verify_inbound hmac number (Some (sign_inbound hmac secret t body)) (Some body) secret nowS
      = (if \<bar>nowS - t\<bar> \<le> max_skew_seconds then Sig_ok else Sig_stale)"
    by (rule own_signature_checked) (use assms in simp_all)
next
  show "\<forall>header raw. verify_inbound hmac number header (Some raw) secret nowS = Sig_ok \<longrightarrow>
        (\<exists>h t' v1. header = Some h \<and> \<bar>nowS - t'\<bar> \<le> max_skew_seconds \<and> signature_field h ''v1'' = Some v1
           \<and> hex_decode v1 = hex_decode (hmac secret (show_int t' @ ''.'' @ raw)))"
  proof (intro allI impI)
    fix header raw
    assume ok: "verify_inbound hmac number header (Some raw) secret nowS = Sig_ok"
    then obtain h where h: "header = Some h" by (cases header) (auto simp: verify_inbound_def)
    from ok obtain q where "(case signature_field h ''t'' of None \<Rightarrow> None | Some x \<Rightarrow> number x) = Some q"
      by (auto simp: verify_inbound_def h split: if_splits option.splits)
    with ok h show "\<exists>h t' v1. header = Some h \<and> \<bar>nowS - t'\<bar> \<le> max_skew_seconds \<and> signature_field h ''v1'' = Some v1
           \<and> hex_decode v1 = hex_decode (hmac secret (show_int t' @ ''.'' @ raw))"
      by (intro exI [of _ h], intro exI [of _ "\<lfloor>q\<rfloor>"]) (auto simp: verify_inbound_def split: if_splits option.splits)
  qed
qed

section \<open>Instances\<close>

theorem inbound_address_is_ours_witness:
  "local_part_for (''Cohen '' @ ''<'' @ generate_local_part ''Cohen Ltd'' (replicate 10 0) @ ''+x'' @ ''@'' @ ''In.Example.com'' @ ''>'') ''In.Example.com''
     = Some (generate_local_part ''Cohen Ltd'' (replicate 10 0))"
proof -
  have "list_all domain_char ''in.example'' \<and> list_all is_lower ''com'' \<and> list_all local_char ''+x''" by code_simp
  moreover have "to_lower ''In.Example.com'' = ''in.example'' @ ''.'' @ ''com''" by code_simp
  moreover have "''in.example'' \<noteq> []" "2 \<le> length ''com''" by simp_all
  ultimately have "routed_domain (to_lower ''In.Example.com'')" "list_all local_char ''+x''"
    unfolding routed_domain_def by blast+
  then show ?thesis
    using inbound_address_is_ours [of "replicate 10 0" "''In.Example.com''" "''Cohen ''" "''+x''" "''Cohen Ltd''"] by simp
qed

theorem from_header_is_read_back_witness:
  "pf_email (parse_from_header (''Dana Levi'' @ '' <'' @ ''dana@example.com'' @ ''>'')) = ''dana@example.com''"
proof -
  have "email_re ''dana@example.com'' \<and> trim ''Dana Levi'' = ''Dana Levi''
      \<and> list_all (\<lambda>c. \<not> is_newline c \<and> (of_char c :: nat) \<notin> {34, 39}) ''Dana Levi''" by code_simp
  then show ?thesis using from_header_is_read_back [of "''dana@example.com''" "''Dana Levi''"] by simp
qed

definition demo_hmac :: "string \<Rightarrow> string \<Rightarrow> string" where
  "demo_hmac secret s = replicate 64 CHR ''a''"

theorem inbound_signature_exact_witness:
  "verify_inbound demo_hmac (\<lambda>s. if s = show_int 1000 then Some 1000 else None)
     (Some (sign_inbound demo_hmac ''key'' 1000 ''{}'')) (Some ''{}'') ''key'' 1300 = Sig_ok"
proof -
  have "is_mac_text (demo_hmac ''key'' s)" for s
    by (simp add: is_mac_text_def demo_hmac_def list_all_iff is_hex_def is_upper_def del: replicate.simps)
  from inbound_signature_exact [of "\<lambda>s. if s = show_int 1000 then Some 1000 else None" 1000 demo_hmac "''key''" "''{}''" 1300, OF _ this]
  show ?thesis by (simp add: max_skew_seconds_def)
qed

end
