(* ===== verification/Integrations.thy ===== *)
theory Integrations
  imports Database Secrets External
begin

text \<open>
  modules/integrations/integrations.service.ts, with the token exchange of
  google-oauth.service.ts and the provider pipe: the connection of a tenant to Google, its
  encrypted tokens, its status, and the connector the other components get. Google and the
  cipher are parameters.
\<close>

section \<open>Exchanging the code\<close>

record token_response =
  tr_access_token :: "string option"
  tr_refresh_token :: "string option"
  tr_scope :: "string option"
  tr_expiry_date :: "int option"

record google_tokens =
  gt_accessToken :: string
  gt_refreshToken :: string
  gt_scopes :: "string list"
  gt_expiresAt :: "int option"

definition exchange_options :: retry_options where
  "exchange_options = default_options\<lparr>rto_label := ''Google token exchange'', rto_timeoutMs := 15000, rto_attempts := 3\<rparr>"

definition call_failure :: "'a call_result \<Rightarrow> http_error" where
  "call_failure r = (case r of
     Done_ok _ \<Rightarrow> Thrown [] | Auth_error m _ \<Rightarrow> Thrown m | Transient_error m _ \<Rightarrow> Thrown m | Other_error err \<Rightarrow> Thrown (je_text err))"

definition exchange_code ::
  "(nat \<Rightarrow> token_response attempt) \<Rightarrow> (nat \<Rightarrow> rat) \<Rightarrow> http_error + google_tokens" where
  "exchange_code run random =
     (case fst (call_external exchange_options run random) of
        Done_ok r \<Rightarrow>
          if \<not> truthy (tr_access_token r) then Inl (Thrown ''Google returned no access_token for the authorization code'')
          else if \<not> truthy (tr_refresh_token r) then Inl (Thrown ''No refresh_token returned by Google.'')
          else Inr \<lparr>gt_accessToken = the (tr_access_token r), gt_refreshToken = the (tr_refresh_token r),
                 gt_scopes = filter (\<lambda>s. s \<noteq> []) (split_on CHR '' '' (or_else (tr_scope r) [])),
                 gt_expiresAt = (if tr_expiry_date r = Some 0 then None else tr_expiry_date r)\<rparr>
      | other \<Rightarrow> Inl (call_failure other))"

section \<open>Connecting and disconnecting\<close>

definition google_providers :: "integration_provider list" where
  "google_providers = [GMAIL, DRIVE]"

fun provider_name :: "integration_provider \<Rightarrow> string" where
  "provider_name GMAIL = ''GMAIL''"
| "provider_name DRIVE = ''DRIVE''"
| "provider_name OUTLOOK = ''OUTLOOK''"
| "provider_name GREEN_INVOICE = ''GREEN_INVOICE''"

definition upper_char :: "char \<Rightarrow> char" where
  "upper_char c = (if is_lower c then char_of ((of_char c :: nat) - 32) else c)"

text \<open>\<open>GoogleProviderParamPipe\<close>.\<close>

definition google_provider :: "string \<Rightarrow> http_error + integration_provider" where
  "google_provider val =
     (case List.find (\<lambda>p. provider_name p = map upper_char val) google_providers of
        None \<Rightarrow> Inl (BadRequest ''provider must be one of: GMAIL, DRIVE'')
      | Some p \<Rightarrow> Inr p)"

definition is_integration :: "string \<Rightarrow> integration_provider \<Rightarrow> integration \<Rightarrow> bool" where
  "is_integration tid p r \<longleftrightarrow> in_tenantId r = tid \<and> in_provider r = p"

definition update_integration :: "string \<Rightarrow> integration_provider \<Rightarrow> (integration \<Rightarrow> integration) \<Rightarrow> nat tx" where
  "update_integration tid p f db =
     (let (n, rows) = update_rows (is_integration tid p) f (integrations db)
      in Inr (n, db\<lparr>integrations := rows\<rparr>))"

text \<open>The fields a successful callback writes, and the row it creates when there is none.\<close>

definition connected_row :: "string \<Rightarrow> string \<Rightarrow> nat \<Rightarrow> google_tokens \<Rightarrow> integration \<Rightarrow> integration" where
  "connected_row access refresh version toks r = r\<lparr>in_accessTokenEncrypted := Some access,
     in_refreshTokenEncrypted := Some refresh, in_encryptionKeyVersion := version,
     in_accessTokenExpiresAt := gt_expiresAt toks, in_scopes := gt_scopes toks, in_status := CONNECTED,
     in_lastError := None, in_lastErrorAt := None\<rparr>"

definition new_integration :: "string \<Rightarrow> integration_provider \<Rightarrow> integration" where
  "new_integration tid p = \<lparr>in_tenantId = tid, in_provider = p, in_status = CONNECTED, in_accessTokenEncrypted = None,
     in_refreshTokenEncrypted = None, in_scopes = [], in_encryptionKeyVersion = 1, in_accessTokenExpiresAt = None,
     in_lastErrorAt = None, in_lastError = None, in_lastSyncedAt = None, in_syncCursor = None\<rparr>"

definition upsert_integration :: "string \<Rightarrow> (integration \<Rightarrow> integration) \<Rightarrow> integration_provider \<Rightarrow> db \<Rightarrow> http_error + db" where
  "upsert_integration tid f p db =
     (if list_ex (is_integration tid p) (integrations db)
      then Inr (db\<lparr>integrations := snd (update_rows (is_integration tid p) f (integrations db))\<rparr>)
      else Inr (db\<lparr>integrations := integrations db @ [f (new_integration tid p)]\<rparr>))"

definition connect_tx :: "string \<Rightarrow> (integration \<Rightarrow> integration) \<Rightarrow> unit tx" where
  "connect_tx tid f db =
     (case run_each (upsert_integration tid f) google_providers db of Inl err \<Rightarrow> Inl err | Inr db' \<Rightarrow> Inr ((), db'))"

text \<open>A secret's error as the exception it is.\<close>

fun secret_message :: "secret_error \<Rightarrow> string" where
  "secret_message (Key_missing v name) = (''No encryption key available for version '' @ show_nat v @ ''. Set '' @ name
     @ '' to the key that was active when this secret was written, or re-connect the integration.'')"
| "secret_message (Secret_error m) = m"

definition secret_exception :: "secret_error \<Rightarrow> http_error" where
  "secret_exception err = Thrown (secret_message err)"

text \<open>\<open>iv1\<close> and \<open>iv2\<close> are the two random vectors.\<close>

definition handle_google_callback ::
  "cipher_lib \<Rightarrow> key_env \<Rightarrow> string \<Rightarrow> string \<Rightarrow> string \<Rightarrow> (http_error + google_tokens) \<Rightarrow> unit svc" where
  "handle_google_callback lib kenv iv1 iv2 tid exchanged db =
     (case exchanged of
        Inl err \<Rightarrow> (Inl err, db)
      | Inr toks \<Rightarrow>
          (case encrypt_secret_versioned lib kenv iv1 (gt_accessToken toks) of
             Inl err \<Rightarrow> (Inl (secret_exception err), db)
           | Inr (access, version) \<Rightarrow>
               (case encrypt_secret_versioned lib kenv iv2 (gt_refreshToken toks) of
                  Inl err \<Rightarrow> (Inl (secret_exception err), db)
                | Inr (refresh, _) \<Rightarrow> for_tenant tid (connect_tx tid (connected_row access refresh version toks)) db)))"

definition disconnect_row :: "integration \<Rightarrow> integration" where
  "disconnect_row r = r\<lparr>in_status := DISCONNECTED, in_accessTokenEncrypted := None, in_refreshTokenEncrypted := None,
     in_syncCursor := None\<rparr>"

definition disconnect :: "string \<Rightarrow> integration_provider \<Rightarrow> nat svc" where
  "disconnect tid p db = for_tenant tid (update_integration tid p disconnect_row) db"

record integration_view =
  nv_provider :: integration_provider
  nv_status :: integration_status
  nv_lastError :: "string option"
  nv_lastErrorAt :: "int option"
  nv_lastSyncedAt :: "int option"

definition integration_view_of :: "integration \<Rightarrow> integration_view" where
  "integration_view_of r = \<lparr>nv_provider = in_provider r, nv_status = in_status r, nv_lastError = in_lastError r,
     nv_lastErrorAt = in_lastErrorAt r, nv_lastSyncedAt = in_lastSyncedAt r\<rparr>"

definition list_status :: "string \<Rightarrow> integration_view list svc" where
  "list_status tid db = for_tenant tid (\<lambda>db.
     Inr (map integration_view_of (filter (\<lambda>r. in_tenantId r = tid) (integrations db)), db)) db"

section \<open>Synchronisation state\<close>

definition get_sync_state :: "string \<Rightarrow> integration_provider \<Rightarrow> (int option \<times> string option) svc" where
  "get_sync_state tid p db = for_tenant tid (\<lambda>db.
     Inr (case List.find (is_integration tid p) (integrations db) of
            None \<Rightarrow> (None, None) | Some r \<Rightarrow> (in_lastSyncedAt r, in_syncCursor r), db)) db"

definition synced_row :: "int \<Rightarrow> string option \<Rightarrow> integration \<Rightarrow> integration" where
  "synced_row syncedAt cursor r = r\<lparr>in_lastSyncedAt := Some syncedAt, in_syncCursor := cursor, in_lastError := None,
     in_lastErrorAt := None\<rparr>"

definition record_sync_success :: "string \<Rightarrow> integration_provider \<Rightarrow> int \<Rightarrow> string option \<Rightarrow> nat svc" where
  "record_sync_success tid p syncedAt cursor db = for_tenant tid (update_integration tid p (synced_row syncedAt cursor)) db"

definition failed_row :: "env \<Rightarrow> integration_status \<Rightarrow> string \<Rightarrow> integration \<Rightarrow> integration" where
  "failed_row e st reason r = r\<lparr>in_status := st, in_lastError := Some (js_take 500 reason), in_lastErrorAt := Some (now e)\<rparr>"

text \<open>The alert that follows the update changes no data.\<close>

definition mark_expired :: "env \<Rightarrow> string \<Rightarrow> integration_provider \<Rightarrow> string \<Rightarrow> nat svc" where
  "mark_expired e tid p reason db = for_tenant tid (update_integration tid p (failed_row e INT_EXPIRED reason)) db"

definition mark_error :: "env \<Rightarrow> string \<Rightarrow> integration_provider \<Rightarrow> string \<Rightarrow> nat svc" where
  "mark_error e tid p reason db = for_tenant tid (update_integration tid p (failed_row e INT_ERROR reason)) db"

section \<open>The connector\<close>

record connector =
  cn_provider :: integration_provider
  cn_accessToken :: string
  cn_refreshToken :: string

definition not_connected :: "integration_provider \<Rightarrow> http_error" where
  "not_connected p = NotFound (provider_name p @ '' is not connected for this tenant'')"

definition must_reconnect :: "integration_provider \<Rightarrow> string \<Rightarrow> http_error" where
  "must_reconnect p why = ServiceUnavailable (provider_name p @ '' authorization expired and must be reconnected'' @ why)"

definition decrypt_both :: "cipher_lib \<Rightarrow> key_env \<Rightarrow> integration \<Rightarrow> secret_error + (string \<times> string)" where
  "decrypt_both lib kenv r =
     (case decrypt_secret lib kenv (the (in_accessTokenEncrypted r)) (Some (in_encryptionKeyVersion r)) of
        Inl err \<Rightarrow> Inl err
      | Inr access \<Rightarrow>
          (case decrypt_secret lib kenv (the (in_refreshTokenEncrypted r)) (Some (in_encryptionKeyVersion r)) of
             Inl err \<Rightarrow> Inl err
           | Inr refresh \<Rightarrow> Inr (access, refresh)))"

definition find_integration_tx :: "string \<Rightarrow> integration_provider \<Rightarrow> integration option tx" where
  "find_integration_tx tid p db = Inr (List.find (is_integration tid p) (integrations db), db)"

definition get_connector :: "cipher_lib \<Rightarrow> key_env \<Rightarrow> env \<Rightarrow> string \<Rightarrow> integration_provider \<Rightarrow> connector svc" where
  "get_connector lib kenv e tid p db =
     (case for_tenant tid (find_integration_tx tid p) db of
        (Inl err, db1) \<Rightarrow> (Inl err, db1)
      | (Inr None, db1) \<Rightarrow> (Inl (not_connected p), db1)
      | (Inr (Some r), db1) \<Rightarrow>
          if in_status r = INT_EXPIRED
          then (Inl (must_reconnect p (if truthy (in_lastError r) then '': '' @ the (in_lastError r) else [])), db1)
          else if in_status r \<noteq> CONNECTED \<or> \<not> truthy (in_accessTokenEncrypted r) \<or> \<not> truthy (in_refreshTokenEncrypted r)
          then (Inl (not_connected p), db1)
          else (case decrypt_both lib kenv r of
                  Inr (access, refresh) \<Rightarrow> (Inr \<lparr>cn_provider = p, cn_accessToken = access, cn_refreshToken = refresh\<rparr>, db1)
                | Inl (Key_missing v name) \<Rightarrow>
                    (case mark_error e tid p (secret_message (Key_missing v name)) db1 of
                       (Inl err, db2) \<Rightarrow> (Inl err, db2)
                     | (Inr _, db2) \<Rightarrow> (Inl (ServiceUnavailable (provider_name p
                          @ '' credentials cannot be decrypted with the keys currently configured'')), db2))
                | Inl (Secret_error m) \<Rightarrow> (Inl (Thrown m), db1)))"

section \<open>Refreshed tokens\<close>

record new_tokens =
  nt_accessToken :: "string option"
  nt_refreshToken :: "string option"
  nt_expiryDate :: "int option"

definition refreshed_row :: "(string \<times> nat) option \<Rightarrow> (string \<times> nat) option \<Rightarrow> int option \<Rightarrow> integration \<Rightarrow> integration" where
  "refreshed_row access refresh expiry r =
     (let r1 = (case access of None \<Rightarrow> r
                | Some (blob, v) \<Rightarrow> r\<lparr>in_accessTokenEncrypted := Some blob, in_encryptionKeyVersion := v\<rparr>);
          r2 = (case refresh of None \<Rightarrow> r1
                | Some (blob, v) \<Rightarrow> r1\<lparr>in_refreshTokenEncrypted := Some blob, in_encryptionKeyVersion := v\<rparr>)
      in case expiry of None \<Rightarrow> r2 | Some x \<Rightarrow> if x = 0 then r2 else r2\<lparr>in_accessTokenExpiresAt := Some x\<rparr>)"

definition encrypt_opt :: "cipher_lib \<Rightarrow> key_env \<Rightarrow> string \<Rightarrow> string option \<Rightarrow> secret_error + (string \<times> nat) option" where
  "encrypt_opt lib kenv iv tok =
     (if \<not> truthy tok then Inr None
      else case encrypt_secret_versioned lib kenv iv (the tok) of Inl err \<Rightarrow> Inl err | Inr b \<Rightarrow> Inr (Some b))"

text \<open>
  The caller does not wait and sees no error: the outcome is the database. (The retries of
  the update repeat the same statement.)
\<close>

definition persist_refreshed_tokens ::
  "cipher_lib \<Rightarrow> key_env \<Rightarrow> string \<Rightarrow> string \<Rightarrow> string \<Rightarrow> integration_provider \<Rightarrow> new_tokens \<Rightarrow> db \<Rightarrow> db" where
  "persist_refreshed_tokens lib kenv iv1 iv2 tid p toks db =
     (case encrypt_opt lib kenv iv1 (nt_accessToken toks) of
        Inl _ \<Rightarrow> db
      | Inr access \<Rightarrow>
          (case encrypt_opt lib kenv iv2 (nt_refreshToken toks) of
             Inl _ \<Rightarrow> db
           | Inr refresh \<Rightarrow> snd (for_tenant tid (update_integration tid p (refreshed_row access refresh (nt_expiryDate toks))) db)))"

section \<open>Calling the provider\<close>

text \<open>How an operation on a connector fails: its credentials are rejected, or otherwise.\<close>

datatype provider_failure = Rejected string | Failed http_error

definition ensure_authenticated :: "connector \<Rightarrow> provider_failure + unit" where
  "ensure_authenticated c =
     (if cn_refreshToken c \<noteq> [] then Inr ()
      else Inl (Failed (Thrown ((if cn_provider c = GMAIL then ''GmailConnector'' else ''DriveConnector'')
        @ '': no refresh_token set on auth client''))))"

definition with_connector ::
  "cipher_lib \<Rightarrow> key_env \<Rightarrow> env \<Rightarrow> string \<Rightarrow> integration_provider \<Rightarrow> (connector \<Rightarrow> db \<Rightarrow> (provider_failure + 'a) \<times> db) \<Rightarrow> 'a svc" where
  "with_connector lib kenv e tid p fn db =
     (case get_connector lib kenv e tid p db of
        (Inl err, db1) \<Rightarrow> (Inl err, db1)
      | (Inr c, db1) \<Rightarrow>
          (case (case ensure_authenticated c of Inl err \<Rightarrow> (Inl err, db1) | Inr _ \<Rightarrow> fn c db1) of
             (Inr a, db2) \<Rightarrow> (Inr a, db2)
           | (Inl (Failed err), db2) \<Rightarrow> (Inl err, db2)
           | (Inl (Rejected m), db2) \<Rightarrow>
               (case mark_expired e tid p m db2 of
                  (Inl err, db3) \<Rightarrow> (Inl err, db3)
                | (Inr _, db3) \<Rightarrow> (Inl (must_reconnect p []), db3))))"

section \<open>One row per tenant and provider\<close>

definition integration_of :: "string \<Rightarrow> integration_provider \<Rightarrow> db \<Rightarrow> integration option" where
  "integration_of tid p db = List.find (is_integration tid p) (integrations db)"

text \<open>An update of a row keeps its key.\<close>

definition keeps_key :: "(integration \<Rightarrow> integration) \<Rightarrow> bool" where
  "keeps_key f \<longleftrightarrow> (\<forall>r. in_tenantId (f r) = in_tenantId r \<and> in_provider (f r) = in_provider r)"

lemma keeps_key_rows [simp]:
  "keeps_key disconnect_row" "keeps_key (synced_row syncedAt cursor)" "keeps_key (failed_row e st reason)"
  "keeps_key (connected_row access refresh v toks)" "keeps_key (refreshed_row acc ref expiry)"
  by (auto simp: keeps_key_def disconnect_row_def synced_row_def failed_row_def connected_row_def refreshed_row_def Let_def
      split: option.splits)

lemma find_updated:
  assumes "keeps_key f"
  shows "List.find (is_integration tid' p') (snd (update_rows (is_integration tid p) f rows)) =
    (if tid' = tid \<and> p' = p then map_option f (List.find (is_integration tid p) rows)
     else List.find (is_integration tid' p') rows)"
  using assms by (induction rows) (auto simp: update_rows_def is_integration_def keeps_key_def)

lemma integration_of_update:
  assumes "update_integration tid p f db = Inr (n, db')" and "keeps_key f"
  shows "integration_of tid' p' db' =
    (if tid' = tid \<and> p' = p then map_option f (integration_of tid p db) else integration_of tid' p' db)"
  using assms(1) find_updated [OF assms(2)]
  by (auto simp: update_integration_def integration_of_def case_prod_beta)

lemma others_update_integration:
  assumes "keeps_key f" and "update_integration tid p f db = Inr (n, db')"
  shows "others tid db' = others tid db"
proof -
  have "filter (\<lambda>r. in_tenantId r \<noteq> tid) (snd (update_rows (is_integration tid p) f (integrations db)))
      = filter (\<lambda>r. in_tenantId r \<noteq> tid) (integrations db)"
    using assms(1) by (intro filter_update_rows) (auto simp: is_integration_def keeps_key_def)
  with assms(2) show ?thesis by (auto simp: update_integration_def others_def case_prod_beta)
qed

lemma upsert_find:
  assumes "upsert_integration tid f p db = Inr db'" and "keeps_key f"
  shows "integration_of tid' p' db' =
    (if tid' = tid \<and> p' = p then Some (f (or_else (integration_of tid p db) (new_integration tid p))) else integration_of tid' p' db)"
proof (cases "list_ex (is_integration tid p) (integrations db)")
  case True
  then have "List.find (is_integration tid p) (integrations db) \<noteq> None" by (auto simp: find_None_iff list_ex_iff)
  with True assms find_updated [OF assms(2)] show ?thesis
    by (auto simp: upsert_integration_def integration_of_def)
next
  case False
  then have n: "List.find (is_integration tid p) (integrations db) = None" by (auto simp: find_None_iff list_ex_iff)
  have app: "List.find P (xs @ [x]) = (case List.find P xs of None \<Rightarrow> if P x then Some x else None | Some y \<Rightarrow> Some y)" for P x and xs :: "integration list"
    by (induction xs) auto
  from False assms n show ?thesis
    by (auto simp: upsert_integration_def integration_of_def app is_integration_def keeps_key_def new_integration_def split: option.splits)
qed

lemma others_upsert:
  assumes "upsert_integration tid f p db = Inr db'" and "keeps_key f"
  shows "others tid db' = others tid db"
proof -
  have "filter (\<lambda>r. in_tenantId r \<noteq> tid) (snd (update_rows (is_integration tid p) f (integrations db)))
      = filter (\<lambda>r. in_tenantId r \<noteq> tid) (integrations db)"
    using assms(2) by (intro filter_update_rows) (auto simp: is_integration_def keeps_key_def)
  with assms show ?thesis
    by (auto simp: upsert_integration_def others_def keeps_key_def new_integration_def split: if_splits)
qed

lemma connect_rows:
  assumes "connect_tx tid f db = Inr (u, db')" and "keeps_key f"
  shows "p \<in> set google_providers \<Longrightarrow> \<exists>r. integration_of tid p db' = Some (f r)" and "others tid db' = others tid db"
proof -
  from assms(1) obtain db1 where s: "upsert_integration tid f GMAIL db = Inr db1" "upsert_integration tid f DRIVE db1 = Inr db'"
    by (auto simp: connect_tx_def google_providers_def split: sum.splits)
  note f = upsert_find [OF s(1) assms(2)] upsert_find [OF s(2) assms(2)]
  show "p \<in> set google_providers \<Longrightarrow> \<exists>r. integration_of tid p db' = Some (f r)"
    using f by (auto simp: google_providers_def)
  show "others tid db' = others tid db" using others_upsert [OF _ assms(2)] s by metis
qed

interpretation disconnect_op: tenant_op tid "update_integration tid p disconnect_row" for tid p
  by unfold_locales (rule others_update_integration, simp_all)

interpretation synced_op: tenant_op tid "update_integration tid p (synced_row syncedAt cursor)" for tid p syncedAt cursor
  by unfold_locales (rule others_update_integration, simp_all)

interpretation failed_op: tenant_op tid "update_integration tid p (failed_row e st reason)" for tid p e st reason
  by unfold_locales (rule others_update_integration, simp_all)

interpretation refreshed_op: tenant_op tid "update_integration tid p (refreshed_row acc ref expiry)" for tid p acc ref expiry
  by unfold_locales (rule others_update_integration, simp_all)

interpretation connect_op: tenant_op tid "connect_tx tid (connected_row access refresh v toks)" for tid access refresh v toks
  by unfold_locales (erule connect_rows(2), rule keeps_key_rows)

section \<open>Connecting gives the tokens back\<close>

lemma current_version_pos: "current_key_version lib env = Inr v \<Longrightarrow> 1 \<le> v"
  by (auto simp: current_key_version_def positive_int_def legacy_key_version_def split: if_splits option.splits)

lemma encrypted_version: "encrypt_secret_versioned lib env iv plain = Inr (blob, v) \<Longrightarrow> current_key_version lib env = Inr v \<and> blob \<noteq> []"
  by (auto simp: encrypt_secret_versioned_def split: sum.splits prod.splits)

lemma connector_of_row:
  assumes "is_uuid tid" and "integration_of tid p db = Some r" and "in_status r = CONNECTED"
    and "in_accessTokenEncrypted r = Some a" and "in_refreshTokenEncrypted r = Some b" and "a \<noteq> []" and "b \<noteq> []"
  shows "get_connector lib kenv e tid p db =
    (case decrypt_both lib kenv r of
       Inr (access, refresh) \<Rightarrow> (Inr \<lparr>cn_provider = p, cn_accessToken = access, cn_refreshToken = refresh\<rparr>, db)
     | Inl (Key_missing v name) \<Rightarrow>
         (case mark_error e tid p (secret_message (Key_missing v name)) db of
            (Inl err, db2) \<Rightarrow> (Inl err, db2)
          | (Inr _, db2) \<Rightarrow> (Inl (ServiceUnavailable (provider_name p
               @ '' credentials cannot be decrypted with the keys currently configured'')), db2))
     | Inl (Secret_error m) \<Rightarrow> (Inl (Thrown m), db))"
  using assms by (simp add: get_connector_def for_tenant_def find_integration_tx_def integration_of_def)

text \<open>C26. The tokens Google returns are stored encrypted and come back unchanged from the
  connector, also after a key rotation that keeps the old key, and only the tenant's data
  changes.\<close>
theorem connected_tokens_are_read_back:
  assumes "handle_google_callback lib kenv iv1 iv2 tid (Inr toks) db = (Inr (), db')" and "p \<in> set google_providers"
    and "gt_accessToken toks \<noteq> []" and "gt_refreshToken toks \<noteq> []" and "iv1 \<noteq> []" and "iv2 \<noteq> []"
    and "current_key_version lib kenv = Inr v" and "key_for_version lib kenv' v = key_for_version lib kenv v"
    and "cl_number lib (show_nat v) = Some (of_nat v)"
    and "\<And>key iv plain. cl_decrypt lib key iv (snd (cl_encrypt lib key iv plain)) (fst (cl_encrypt lib key iv plain)) = Some plain"
    and "\<And>key iv plain. snd (cl_encrypt lib key iv plain) \<noteq> []"
    and "\<And>key iv plain. fst (cl_encrypt lib key iv plain) = [] \<longleftrightarrow> plain = []"
  shows "get_connector lib kenv' e tid p db' =
      (Inr \<lparr>cn_provider = p, cn_accessToken = gt_accessToken toks, cn_refreshToken = gt_refreshToken toks\<rparr>, db')
    \<and> others tid db' = others tid db"
proof -
  from assms(1) obtain access v1 refresh v2 where
    a: "encrypt_secret_versioned lib kenv iv1 (gt_accessToken toks) = Inr (access, v1)" and
    b: "encrypt_secret_versioned lib kenv iv2 (gt_refreshToken toks) = Inr (refresh, v2)" and
    run: "for_tenant tid (connect_tx tid (connected_row access refresh v1 toks)) db = (Inr (), db')"
    by (auto simp: handle_google_callback_def split: sum.splits prod.splits)
  from encrypted_version [OF a] encrypted_version [OF b] assms(7)
  have v: "v1 = v" "v2 = v" "access \<noteq> []" "refresh \<noteq> []" by auto
  note pos = current_version_pos [OF assms(7)]
  from run have tid: "is_uuid tid" and tx: "connect_tx tid (connected_row access refresh v1 toks) db = Inr ((), db')"
    by (simp_all add: for_tenant_Inr)
  from connect_rows(1) [OF tx keeps_key_rows(4) assms(2)] obtain r where
    r: "integration_of tid p db' = Some (connected_row access refresh v toks r)" unfolding v by blast
  have "decrypt_secret lib kenv' access row = Inr (gt_accessToken toks)"
    "decrypt_secret lib kenv' refresh row = Inr (gt_refreshToken toks)" for row
    using encrypted_is_read_back(1) [OF a [unfolded v] assms(8,9) pos, of row] encrypted_is_read_back(1) [OF b [unfolded v] assms(8,9) pos, of row]
      assms(3-6,10-12) by simp_all
  then have "decrypt_both lib kenv' (connected_row access refresh v toks r) = Inr (gt_accessToken toks, gt_refreshToken toks)"
    by (simp add: decrypt_both_def connected_row_def)
  with connector_of_row [OF tid r] v have "get_connector lib kenv' e tid p db' =
      (Inr \<lparr>cn_provider = p, cn_accessToken = gt_accessToken toks, cn_refreshToken = gt_refreshToken toks\<rparr>, db')"
    by (simp add: connected_row_def)
  moreover have "others tid db' = others tid db" using connect_op.isolated_result [OF run] .
  ultimately show ?thesis ..
qed

section \<open>A lost connection stays lost\<close>

text \<open>Everything the service does short of a new callback, for any tenant and provider, under any keys.\<close>

inductive integration_step :: "cipher_lib \<Rightarrow> db \<Rightarrow> db \<Rightarrow> bool" for lib where
  disconnects: "integration_step lib db (snd (disconnect tid p db))"
| syncs: "integration_step lib db (snd (record_sync_success tid p syncedAt cursor db))"
| expires: "integration_step lib db (snd (mark_expired e tid p reason db))"
| fails: "integration_step lib db (snd (mark_error e tid p reason db))"
| connects: "integration_step lib db (snd (get_connector lib kenv e tid p db))"
| refreshes: "integration_step lib db (persist_refreshed_tokens lib kenv iv1 iv2 tid p toks db)"

definition lost :: "string \<Rightarrow> integration_provider \<Rightarrow> db \<Rightarrow> bool" where
  "lost tid p db \<longleftrightarrow> (\<exists>r. integration_of tid p db = Some r \<and> in_status r \<noteq> CONNECTED)"

lemma lost_update:
  assumes "lost tid p db" and "keeps_key f" and "\<And>r. in_status r \<noteq> CONNECTED \<Longrightarrow> in_status (f r) \<noteq> CONNECTED"
  shows "lost tid p (snd (for_tenant t (update_integration t q f) db))"
proof (rule for_tenant_preserves)
  show "lost tid p db'" if "update_integration t q f db = Inr (n, db')" for n db'
    using assms integration_of_update [OF that assms(2), of tid p] by (auto simp: lost_def)
qed (rule assms(1))

lemma get_connector_db:
  "snd (get_connector lib kenv e tid p db) = db \<or> (\<exists>m. snd (get_connector lib kenv e tid p db) = snd (mark_error e tid p m db))"
proof (cases "for_tenant tid (find_integration_tx tid p) db")
  case (Pair res db1)
  then have d: "db1 = db" by (auto simp: for_tenant_def find_integration_tx_def split: if_splits sum.splits)
  show ?thesis
  proof (cases res)
    case (Inr found)
    with Pair d show ?thesis
      by (cases found) (auto simp: get_connector_def simp del: secret_message.simps
        split: sum.splits prod.splits secret_error.splits, (metis snd_conv)+)
  qed (use Pair d in \<open>auto simp: get_connector_def\<close>)
qed

lemma refreshed_status [simp]: "in_status (refreshed_row acc ref expiry r) = in_status r"
  by (auto simp: refreshed_row_def Let_def split: option.splits)

lemma lost_step: "integration_step lib db db' \<Longrightarrow> lost tid p db \<Longrightarrow> lost tid p db'"
proof (induction rule: integration_step.induct)
  case (connects db kenv e t q)
  have "lost tid p (snd (mark_error e t q m db))" for m
    unfolding mark_error_def using connects by (rule lost_update) (simp_all add: failed_row_def)
  with connects get_connector_db [of lib kenv e t q db] show ?case by metis
next
  case (refreshes db kenv iv1 iv2 t q toks)
  then show ?case
    by (auto simp: persist_refreshed_tokens_def intro!: lost_update split: sum.splits)
qed (auto simp: disconnect_def record_sync_success_def mark_expired_def mark_error_def disconnect_row_def synced_row_def failed_row_def
      intro!: lost_update)

lemma lost_no_connector:
  assumes "lost tid p db"
  shows "\<exists>err. get_connector lib kenv e tid p db = (Inl err, db)
    \<and> (is_uuid tid \<longrightarrow> err = not_connected p \<or> (\<exists>why. err = must_reconnect p why))"
proof (cases "is_uuid tid")
  case True
  from assms obtain r where "integration_of tid p db = Some r" "in_status r \<noteq> CONNECTED" by (auto simp: lost_def)
  with True show ?thesis
    by (auto simp: get_connector_def for_tenant_def find_integration_tx_def integration_of_def)
qed (simp add: get_connector_def for_tenant_def)

theorem missing_key_disconnects:
  assumes "is_uuid tid" and "integration_of tid p db = Some r" and "in_status r = CONNECTED"
    and "truthy (in_accessTokenEncrypted r)" and "truthy (in_refreshTokenEncrypted r)"
    and "decrypt_both lib kenv r = Inl (Key_missing v name)"
    and "(integration_step lib)\<^sup>*\<^sup>* (snd (get_connector lib kenv e tid p db)) db'"
  shows "\<exists>err. get_connector lib kenv' e' tid p db' = (Inl err, db') \<and> (err = not_connected p \<or> (\<exists>why. err = must_reconnect p why))"
proof -
  from assms(4,5) obtain a b where ab: "in_accessTokenEncrypted r = Some a" "in_refreshTokenEncrypted r = Some b" "a \<noteq> []" "b \<noteq> []"
    by (auto simp: truthy_def)
  let ?m = "secret_message (Key_missing v name)"
  have "snd (get_connector lib kenv e tid p db) = snd (mark_error e tid p ?m db)"
    unfolding connector_of_row [OF assms(1-3) ab] assms(6) by (auto split: prod.splits sum.splits)
  moreover have "lost tid p (snd (mark_error e tid p ?m db))"
  proof -
    obtain db1 n where u: "update_integration tid p (failed_row e INT_ERROR ?m) db = Inr (n, db1)"
      by (auto simp: update_integration_def case_prod_beta)
    with integration_of_update [OF u, of tid p] assms(2) have "integration_of tid p db1 = Some (failed_row e INT_ERROR ?m r)" by simp
    with assms(1) u show ?thesis by (simp add: mark_error_def for_tenant_def lost_def failed_row_def)
  qed
  ultimately have "lost tid p (snd (get_connector lib kenv e tid p db))" by simp
  with assms(7) have "lost tid p db'" by (induction rule: rtranclp_induct) (auto intro: lost_step)
  from lost_no_connector [OF this, of lib kenv' e'] assms(1) show ?thesis by blast
qed

section \<open>A refresh of the access token alone\<close>

theorem partial_refresh_strands_legacy_token:
  assumes "is_uuid tid" and "integration_of tid p db = Some r" and "in_status r = CONNECTED"
    and "in_refreshTokenEncrypted r = Some old" and "split_on CHR '':'' old = [i, t, c]" and "i \<noteq> [] \<and> t \<noteq> [] \<and> c \<noteq> []"
    and "current_key_version lib kenv = Inr v" and "key_for_version lib kenv v = Inr key" and "tok \<noteq> []" and "iv1 \<noteq> []"
    and "cl_decrypt lib key (hex_decode i) (hex_decode t) (hex_decode c) = None"
    and "cl_number lib (show_nat v) = Some (of_nat v)"
    and "\<And>key iv plain. cl_decrypt lib key iv (snd (cl_encrypt lib key iv plain)) (fst (cl_encrypt lib key iv plain)) = Some plain"
    and "\<And>key iv plain. snd (cl_encrypt lib key iv plain) \<noteq> []"
    and "\<And>key iv plain. fst (cl_encrypt lib key iv plain) = [] \<longleftrightarrow> plain = []"
  shows "fst (get_connector lib kenv e tid p
      (persist_refreshed_tokens lib kenv iv1 iv2 tid p \<lparr>nt_accessToken = Some tok, nt_refreshToken = None, nt_expiryDate = x\<rparr> db))
    = Inl (Thrown ''Unsupported state or unable to authenticate data'')"
proof -
  obtain access where a: "encrypt_secret_versioned lib kenv iv1 tok = Inr (access, v)"
    using assms(7,8) by (simp add: encrypt_secret_versioned_def case_prod_beta)
  from encrypted_version [OF a] have ne: "access \<noteq> []" by simp
  let ?f = "refreshed_row (Some (access, v)) None x"
  obtain n db1 where u: "update_integration tid p ?f db = Inr (n, db1)" by (auto simp: update_integration_def case_prod_beta)
  then have db1: "persist_refreshed_tokens lib kenv iv1 iv2 tid p \<lparr>nt_accessToken = Some tok, nt_refreshToken = None, nt_expiryDate = x\<rparr> db = db1"
    using assms(1,9) a by (simp add: persist_refreshed_tokens_def encrypt_opt_def for_tenant_def)
  have row: "integration_of tid p db1 = Some (?f r)" using integration_of_update [OF u, of tid p] assms(2) by simp
  have f: "in_status (?f r) = CONNECTED" "in_accessTokenEncrypted (?f r) = Some access" "in_refreshTokenEncrypted (?f r) = Some old"
    "in_encryptionKeyVersion (?f r) = v"
    using assms(3,4) by (auto simp: refreshed_row_def Let_def split: option.splits)
  have old: "old \<noteq> []" using assms(5) by auto
  have "decrypt_secret lib kenv access (Some v) = Inr tok"
    using encrypted_is_read_back(1) [OF a refl assms(12) current_version_pos [OF assms(7)]] assms(9,10,13-15) by simp
  moreover have "decrypt_secret lib kenv old (Some v) = Inl (Secret_error ''Unsupported state or unable to authenticate data'')"
    using assms(5,6,8,11) by (simp add: decrypt_secret_def parse_blob_def)
  ultimately have "decrypt_both lib kenv (?f r) = Inl (Secret_error ''Unsupported state or unable to authenticate data'')"
    by (simp add: decrypt_both_def f)
  with connector_of_row [OF assms(1) row f(1-3) ne old] show ?thesis by (simp add: db1)
qed

section \<open>Instances\<close>

definition demo_tokens :: google_tokens where
  "demo_tokens = \<lparr>gt_accessToken = ''acc'', gt_refreshToken = ''ref'', gt_scopes = [''mail''], gt_expiresAt = Some 9000\<rparr>"

lemma demo_cipher_laws:
  "cl_decrypt demo_cipher key iv (snd (cl_encrypt demo_cipher key iv plain)) (fst (cl_encrypt demo_cipher key iv plain)) = Some plain"
  "snd (cl_encrypt demo_cipher key iv plain) \<noteq> []"
  "fst (cl_encrypt demo_cipher key iv plain) = [] \<longleftrightarrow> plain = []"
  "cl_number demo_cipher (show_nat v) = Some (of_nat v)"
  using show_nat_digits [of v] by (simp_all add: demo_cipher_def)

lemma demo_connects:
  "\<exists>db'. handle_google_callback demo_cipher (demo_key_env None) ''iv1'' ''iv2'' demo_tenant (Inr demo_tokens) empty_db = (Inr (), db')"
proof -
  obtain a b where "encrypt_secret_versioned demo_cipher (demo_key_env None) ''iv1'' ''acc'' = Inr (a, 1)"
    "encrypt_secret_versioned demo_cipher (demo_key_env None) ''iv2'' ''ref'' = Inr (b, 1)"
    using demo_key(1) demo_versions(1) by (simp add: encrypt_secret_versioned_def case_prod_beta)
  then show ?thesis
    by (simp add: handle_google_callback_def demo_tokens_def for_tenant_Inr connect_tx_def google_providers_def
        upsert_integration_def empty_db_def is_integration_def connected_row_def new_integration_def)
qed

theorem connected_tokens_are_read_back_witness:
  "\<exists>db'. handle_google_callback demo_cipher (demo_key_env None) ''iv1'' ''iv2'' demo_tenant (Inr demo_tokens) empty_db = (Inr (), db')
     \<and> get_connector demo_cipher (demo_key_env (Some ''2'')) demo_env demo_tenant DRIVE db'
         = (Inr \<lparr>cn_provider = DRIVE, cn_accessToken = ''acc'', cn_refreshToken = ''ref''\<rparr>, db')"
proof -
  from demo_connects obtain db' where
    run: "handle_google_callback demo_cipher (demo_key_env None) ''iv1'' ''iv2'' demo_tenant (Inr demo_tokens) empty_db = (Inr (), db')" by blast
  from connected_tokens_are_read_back [OF run _ _ _ _ _ demo_versions(1) _ demo_cipher_laws(4,1,2,3), of DRIVE "demo_key_env (Some ''2'')"]
    demo_key run show ?thesis by (simp add: google_providers_def demo_tokens_def)
qed

definition demo_integration :: integration where
  "demo_integration = (new_integration demo_tenant GMAIL)\<lparr>in_accessTokenEncrypted := Some ''61:62:63'',
     in_refreshTokenEncrypted := Some ''61:62:63'', in_encryptionKeyVersion := 1\<rparr>"

definition demo_google_db :: db where
  "demo_google_db = empty_db\<lparr>integrations := [demo_integration]\<rparr>"

lemma demo_google_row: "integration_of demo_tenant GMAIL demo_google_db = Some demo_integration"
  by (simp add: integration_of_def demo_google_db_def demo_integration_def new_integration_def is_integration_def empty_db_def)

lemma demo_blob: "split_on CHR '':'' ''61:62:63'' = [''61'', ''62'', ''63'']"
  by code_simp

definition demo_lost_key :: key_env where
  "demo_lost_key = \<lparr>ke_version = Some ''2'', ke_current = Some demo_key_text, ke_older = (\<lambda>_. None)\<rparr>"

theorem missing_key_disconnects_witness:
  "\<exists>err. get_connector demo_cipher (demo_key_env (Some ''2'')) demo_env demo_tenant GMAIL
       (snd (get_connector demo_cipher demo_lost_key demo_env demo_tenant GMAIL demo_google_db))
     = (Inl err, snd (get_connector demo_cipher demo_lost_key demo_env demo_tenant GMAIL demo_google_db))"
proof -
  have "current_key_version demo_cipher demo_lost_key = Inr 2"
    using demo_versions(2) by (simp add: current_key_version_def demo_lost_key_def demo_key_env_def)
  then have "key_for_version demo_cipher demo_lost_key 1 = Inl (Key_missing 1 (older_key_name 1))"
    by (simp add: key_for_version_def demo_lost_key_def)
  then have "decrypt_both demo_cipher demo_lost_key demo_integration = Inl (Key_missing 1 (older_key_name 1))"
    by (simp add: decrypt_both_def demo_integration_def decrypt_secret_def parse_blob_def demo_blob)
  from missing_key_disconnects [OF _ demo_google_row _ _ _ this rtranclp.rtrancl_refl, where e = demo_env and kenv' = "demo_key_env (Some ''2'')" and e' = demo_env]
  show ?thesis by (auto simp: demo_integration_def new_integration_def)
qed

theorem partial_refresh_strands_legacy_token_witness:
  "fst (get_connector demo_cipher (demo_key_env (Some ''2'')) demo_env demo_tenant GMAIL
      (persist_refreshed_tokens demo_cipher (demo_key_env (Some ''2'')) ''iv1'' ''iv2'' demo_tenant GMAIL
        \<lparr>nt_accessToken = Some ''new'', nt_refreshToken = None, nt_expiryDate = None\<rparr> demo_google_db))
    = Inl (Thrown ''Unsupported state or unable to authenticate data'')"
proof -
  have key: "key_for_version demo_cipher (demo_key_env (Some ''2'')) 2 = Inr (hex_decode demo_key_text)"
    unfolding key_for_version_def demo_versions by (simp add: demo_key_env_def parse_key_hex_def demo_key_text)
  have hex: "hex_decode ''61'' = ''a''" "hex_decode ''62'' = ''b''" "hex_decode ''63'' = ''c''" by code_simp+
  have "in_status demo_integration = CONNECTED" "in_refreshTokenEncrypted demo_integration = Some ''61:62:63''"
    by (simp_all add: demo_integration_def new_integration_def)
  note row = this
  have dec: "cl_decrypt demo_cipher (hex_decode demo_key_text) (hex_decode ''61'') (hex_decode ''62'') (hex_decode ''63'') = None"
    unfolding hex by (simp add: demo_cipher_def)
  show ?thesis
    by (rule partial_refresh_strands_legacy_token [OF _ demo_google_row row demo_blob _ demo_versions(2) key _ _ dec demo_cipher_laws(4,1,2,3)])
      simp_all
qed

end
