(* ===== verification/OAuth.thy ===== *)
theory OAuth
  imports Integrations
begin

text \<open>
  modules/integrations/oauth-state.service.ts and the Google callback of
  integrations.controller.ts: the signed, single-use state of a connection and the nonce
  cookie it is bound to. The JWT library and SHA-256 are parameters; a clock value is in
  milliseconds.
\<close>

record oauth_lib =
  ox_verify :: "int \<Rightarrow> string \<Rightarrow> string \<Rightarrow> string \<Rightarrow> json option"
  ox_sign :: "json \<Rightarrow> string \<Rightarrow> string \<Rightarrow> string \<Rightarrow> string"
  ox_sha256 :: "string \<Rightarrow> string"

definition oauth_audience :: string where
  "oauth_audience = ''craftmind:oauth-state''"

definition oauth_issuer :: string where
  "oauth_issuer = ''craftmind:api''"

definition oauth_nonce_cookie :: string where
  "oauth_nonce_cookie = ''cm_oauth_nonce''"

definition state_ttl_seconds :: int where
  "state_ttl_seconds = 600"

section \<open>The states already used\<close>

text \<open>Each used \<open>jti\<close> with the time until which it is remembered.\<close>

type_synonym consumed = "(json \<times> rat) list"

definition sweep :: "int \<Rightarrow> consumed \<Rightarrow> consumed" where
  "sweep time st = filter (\<lambda>(j, expiresAt). \<not> expiresAt \<le> of_int time) st"

definition consume :: "int \<Rightarrow> json \<Rightarrow> rat \<Rightarrow> consumed \<Rightarrow> bool \<times> consumed" where
  "consume time jti ttlMs st =
     (let s = sweep time st
      in if jti \<in> set (map fst s) then (False, s) else (True, s @ [(jti, of_int time + ttlMs)]))"

section \<open>Issuing and verifying a state\<close>

definition oauth_claims :: "oauth_lib \<Rightarrow> string \<Rightarrow> string \<Rightarrow> json" where
  "oauth_claims lib tid nonce = JObj [(''tenantId'', JStr tid), (''purpose'', JStr ''google_oauth_state''),
     (''nonceHash'', JStr (ox_sha256 lib nonce))]"

record issued_state =
  is_state :: string
  is_nonce :: string
  is_cookieMaxAgeMs :: int

text \<open>\<open>nonce\<close> and \<open>jti\<close> are the random values.\<close>

definition issue_state :: "oauth_lib \<Rightarrow> string \<Rightarrow> string \<Rightarrow> string \<Rightarrow> issued_state" where
  "issue_state lib tid nonce jti = \<lparr>is_state = ox_sign lib (oauth_claims lib tid nonce) oauth_audience oauth_issuer jti,
     is_nonce = nonce, is_cookieMaxAgeMs = state_ttl_seconds * 1000\<rparr>"

text \<open>The lifetime left, in milliseconds; a claim without a usable \<open>exp\<close> gets the full time.\<close>

definition ttl_of_claims :: "int \<Rightarrow> json \<Rightarrow> rat" where
  "ttl_of_claims time p =
     (case jget ''exp'' p of
        Some (JNum q) \<Rightarrow> if q = 0 then of_int (state_ttl_seconds * 1000) else max (q * 1000 - of_int time) 0
      | _ \<Rightarrow> of_int (state_ttl_seconds * 1000))"

definition verify_and_consume ::
  "oauth_lib \<Rightarrow> int \<Rightarrow> string \<Rightarrow> string option \<Rightarrow> consumed \<Rightarrow> (string + json) \<times> consumed" where
  "verify_and_consume lib time token nonceFromCookie st =
     (if \<not> truthy nonceFromCookie then (Inl ''Missing OAuth nonce cookie'', st)
      else case ox_verify lib time token oauth_audience oauth_issuer of
          None \<Rightarrow> (Inl ''OAuth state failed verification'', st)
        | Some p \<Rightarrow>
            if jget ''purpose'' p \<noteq> Some (JStr ''google_oauth_state'') then (Inl ''OAuth state has the wrong purpose claim'', st)
            else if \<not> jtruthy (jget ''jti'' p) then (Inl ''OAuth state has no jti and cannot be made single-use'', st)
            else if (case jget ''nonceHash'' p of Some (JStr h) \<Rightarrow> h | _ \<Rightarrow> []) \<noteq> ox_sha256 lib (the nonceFromCookie)
            then (Inl ''OAuth nonce does not match the initiating browser'', st)
            else (case consume time (the (jget ''jti'' p)) (ttl_of_claims time p + 60000) st of
                    (False, st') \<Rightarrow> (Inl ''OAuth state has already been used'', st')
                  | (True, st') \<Rightarrow> (Inr p, st')))"

section \<open>Reading the cookie\<close>

text \<open>
  \<open>decodeURIComponent\<close>: every escape is a byte; the escaped bytes of one character follow each
  other and are a valid UTF-8 sequence, anything else throws.
\<close>

definition hex_byte :: "string \<Rightarrow> nat option" where
  "hex_byte s = (case s of a # b # _ \<Rightarrow> if is_hex a \<and> is_hex b then Some (16 * hex_val a + hex_val b) else None | _ \<Rightarrow> None)"

text \<open>The length of a UTF-8 sequence by its first byte, and the range of its second one.\<close>

definition utf8_length :: "nat \<Rightarrow> nat option" where
  "utf8_length b = (if b < 128 then Some 1 else if 194 \<le> b \<and> b < 224 then Some 2 else if 224 \<le> b \<and> b < 240 then Some 3
     else if 240 \<le> b \<and> b < 245 then Some 4 else None)"

definition second_ok :: "nat \<Rightarrow> nat \<Rightarrow> bool" where
  "second_ok b c \<longleftrightarrow> 128 \<le> c \<and> c < 192 \<and> (b = 224 \<longrightarrow> 160 \<le> c) \<and> (b = 237 \<longrightarrow> c < 160) \<and> (b = 240 \<longrightarrow> 144 \<le> c) \<and> (b = 244 \<longrightarrow> c < 144)"

text \<open>\<open>n\<close> further escaped bytes: their values and what follows them.\<close>

fun escaped_bytes :: "nat \<Rightarrow> string \<Rightarrow> (nat list \<times> string) option" where
  "escaped_bytes 0 s = Some ([], s)"
| "escaped_bytes (Suc n) s =
     (if \<not> starts_with ''%'' s then None
      else case hex_byte (drop 1 s) of
          None \<Rightarrow> None
        | Some c \<Rightarrow> (case escaped_bytes n (drop 3 s) of None \<Rightarrow> None | Some (cs, r) \<Rightarrow> Some (c # cs, r)))"

definition escaped_char :: "string \<Rightarrow> (nat list \<times> string) option" where
  "escaped_char s =
     (case hex_byte s of
        None \<Rightarrow> None
      | Some b \<Rightarrow>
          (case utf8_length b of
             None \<Rightarrow> None
           | Some n \<Rightarrow>
               (case escaped_bytes (n - 1) (drop 2 s) of
                  None \<Rightarrow> None
                | Some (cs, r) \<Rightarrow>
                    if cs = [] \<or> second_ok b (hd cs) \<and> list_all (\<lambda>c. 128 \<le> c \<and> c < 192) cs then Some (b # cs, r) else None)))"

function decode_uri_component :: "string \<Rightarrow> string option" where
  "decode_uri_component [] = Some []"
| "decode_uri_component (c # s) =
     (if c \<noteq> CHR ''%'' then (case decode_uri_component s of None \<Rightarrow> None | Some r \<Rightarrow> Some (c # r))
      else case escaped_char s of
          None \<Rightarrow> None
        | Some (bs, rest) \<Rightarrow>
            if length rest \<le> length s then (case decode_uri_component rest of None \<Rightarrow> None | Some r \<Rightarrow> Some (map char_of bs @ r))
            else None)"
  by pat_completeness auto
termination
  by (relation "measure length") auto

text \<open>The first cookie of the name decides, even when it cannot be decoded.\<close>

fun read_cookie_parts :: "string \<Rightarrow> string list \<Rightarrow> string option" where
  "read_cookie_parts name [] = None"
| "read_cookie_parts name (p # ps) =
     (if CHR ''='' \<notin> set p then read_cookie_parts name ps
      else let k = takeWhile (\<lambda>c. c \<noteq> CHR ''='') p
           in if trim k \<noteq> name then read_cookie_parts name ps
              else decode_uri_component (trim (drop (Suc (length k)) p)))"

definition read_cookie :: "string option \<Rightarrow> string \<Rightarrow> string option" where
  "read_cookie header name =
     (if \<not> truthy header then None else read_cookie_parts name (split_on CHR '';'' (the header)))"

section \<open>The callback\<close>

record callback_request =
  cb_code :: "string option"
  cb_state :: "string option"
  cb_error :: "string option"
  cb_cookie :: "string option"

definition subdomain_tx :: "string \<Rightarrow> string tx" where
  "subdomain_tx tid db =
     (case List.find (\<lambda>t. tn_id t = tid) (tenants db) of
        None \<Rightarrow> Inl (PrismaKnown ''P2025'') | Some t \<Rightarrow> Inr (tn_subdomain t, db))"

definition tenant_claim :: "json \<Rightarrow> string" where
  "tenant_claim p = (case jget ''tenantId'' p of Some (JStr tid) \<Rightarrow> tid | _ \<Rightarrow> [])"

text \<open>
  The redirect of a successful callback, and the states used afterwards. Every path clears the
  cookie, except an exception of the last steps. \<open>exchange\<close> is what Google answers to the code.
\<close>

definition google_callback ::
  "oauth_lib \<Rightarrow> cipher_lib \<Rightarrow> key_env \<Rightarrow> string \<Rightarrow> string \<Rightarrow> string \<Rightarrow> (string \<Rightarrow> http_error + google_tokens) \<Rightarrow>
   int \<Rightarrow> callback_request \<Rightarrow> consumed \<Rightarrow> db \<Rightarrow> (http_error + string) \<times> consumed \<times> db" where
  "google_callback lib clib kenv iv1 iv2 base exchange time r st db =
     (if truthy (cb_error r) then (Inl (BadRequest (''Google denied the authorization request: '' @ the (cb_error r))), st, db)
      else if \<not> truthy (cb_code r) \<or> \<not> truthy (cb_state r) then (Inl (BadRequest ''Missing code or state''), st, db)
      else case verify_and_consume lib time (the (cb_state r)) (read_cookie (cb_cookie r) oauth_nonce_cookie) st of
          (Inl _, st1) \<Rightarrow> (Inl (BadRequest ''Invalid or expired OAuth state''), st1, db)
        | (Inr p, st1) \<Rightarrow>
            (let tid = tenant_claim p
             in case handle_google_callback clib kenv iv1 iv2 tid (exchange (the (cb_code r))) db of
                  (Inl err, db1) \<Rightarrow> (Inl err, st1, db1)
                | (Inr _, db1) \<Rightarrow>
                    (case for_tenant tid (subdomain_tx tid) db1 of
                       (Inl err, db2) \<Rightarrow> (Inl err, st1, db2)
                     | (Inr sub, db2) \<Rightarrow>
                         (Inr (''https://'' @ sub @ ''.'' @ base @ ''/settings/integrations?connected=google''), st1, db2))))"

section \<open>A state works once\<close>

text \<open>Verifications of any tokens, at times that do not go back.\<close>

inductive oauth_step :: "oauth_lib \<Rightarrow> int \<times> consumed \<Rightarrow> int \<times> consumed \<Rightarrow> bool" for lib where
  verifies: "t \<le> t' \<Longrightarrow> oauth_step lib (t, st) (t', snd (verify_and_consume lib t' token nonce st))"

text \<open>A used state is remembered until its time.\<close>

definition remembered :: "json \<Rightarrow> rat \<Rightarrow> int \<times> consumed \<Rightarrow> bool" where
  "remembered jti until s \<longleftrightarrow> (jti, until) \<in> set (snd s) \<or> until \<le> of_int (fst s)"

lemma consume_keeps: "(jti, until) \<in> set st \<Longrightarrow> \<not> until \<le> of_int time \<Longrightarrow> (jti, until) \<in> set (snd (consume time j ttl st))"
  by (auto simp: consume_def sweep_def Let_def)

lemma verify_keeps:
  assumes "(jti, until) \<in> set st" and "\<not> until \<le> of_int time"
  shows "(jti, until) \<in> set (snd (verify_and_consume lib time token nonce st))"
proof -
  have "snd (verify_and_consume lib time token nonce st) = st
    \<or> (\<exists>j ttl. snd (verify_and_consume lib time token nonce st) = snd (consume time j ttl st))"
    by (auto simp: verify_and_consume_def split: option.splits prod.splits bool.splits) (metis snd_conv)+
  with assms consume_keeps [OF assms] show ?thesis by metis
qed

lemma remembered_step: "oauth_step lib s s' \<Longrightarrow> remembered jti until s \<Longrightarrow> remembered jti until s'"
proof (induction rule: oauth_step.induct)
  case (verifies t t' st token nonce)
  show ?case
  proof (cases "until \<le> of_int t'")
    case False
    with verifies have "(jti, until) \<in> set st" by (auto simp: remembered_def)
    from verify_keeps [OF this False] show ?thesis by (simp add: remembered_def)
  qed (simp add: remembered_def)
qed

lemma consumed_known:
  assumes "(jti, until) \<in> set st" and "\<not> until \<le> of_int time"
  shows "fst (consume time jti ttl st) = False"
  using assms by (force simp: consume_def sweep_def Let_def)

text \<open>C27. A state token that was accepted once is refused ever after, whatever other states are
  consumed and swept in between.\<close>
theorem oauth_state_is_single_use:
  assumes "verify_and_consume lib t1 token nonce st = (Inr p, st1)" and "jget ''exp'' p = Some (JNum q)" and "q \<noteq> 0"
    and "\<And>t p'. ox_verify lib t token oauth_audience oauth_issuer = Some p' \<Longrightarrow> p' = p \<and> of_int t < q * 1000"
    and "(oauth_step lib)\<^sup>*\<^sup>* (t1, st1) (t2, st2)" and "t2 \<le> t3"
  shows "\<exists>err. fst (verify_and_consume lib t3 token nonce' st2) = Inl err"
proof (rule ccontr)
  assume "\<not> ?thesis"
  then obtain p' st3 where again: "verify_and_consume lib t3 token nonce' st2 = (Inr p', st3)"
    by (metis prod.collapse sum.exhaust)
  from again have v3: "ox_verify lib t3 token oauth_audience oauth_issuer = Some p'"
    and c3: "fst (consume t3 (the (jget ''jti'' p')) (ttl_of_claims t3 p' + 60000) st2)"
    by (auto simp: verify_and_consume_def split: if_splits option.splits prod.splits bool.splits)
  from assms(1) have v1: "ox_verify lib t1 token oauth_audience oauth_issuer = Some p"
    and c1: "consume t1 (the (jget ''jti'' p)) (ttl_of_claims t1 p + 60000) st = (True, st1)"
    by (auto simp: verify_and_consume_def split: if_splits option.splits prod.splits bool.splits)
  let ?j = "the (jget ''jti'' p)" and ?x = "q * 1000 + 60000"
  from assms(4) [OF v1] have "ttl_of_claims t1 p = q * 1000 - of_int t1" using assms(2,3) by (simp add: ttl_of_claims_def)
  with c1 have "(?j, ?x) \<in> set st1" by (auto simp: consume_def Let_def split: if_splits)
  then have "remembered ?j ?x (t1, st1)" by (simp add: remembered_def)
  with assms(5) have "remembered ?j ?x (t2, st2)"
    by (induction rule: rtranclp_induct) (auto intro: remembered_step)
  moreover from assms(4) [OF v3] have p': "p' = p" and lt: "of_int t3 < q * 1000" by auto
  have "\<not> ?x \<le> of_int t2" "\<not> ?x \<le> of_int t3" using lt assms(6) by (auto simp: not_le)
  ultimately have "(?j, ?x) \<in> set st2" by (simp add: remembered_def)
  from consumed_known [OF this \<open>\<not> ?x \<le> of_int t3\<close>] c3 show False by (simp add: p')
qed

section \<open>Who can connect what\<close>

lemma others_handle_callback: "others tid (snd (handle_google_callback lib kenv iv1 iv2 tid exchanged db)) = others tid db"
  using connect_op.isolated by (auto simp: handle_google_callback_def split: sum.splits prod.splits)

lemma subdomain_unchanged: "snd (for_tenant tid (subdomain_tx tid) db) = db"
  by (auto simp: for_tenant_def subdomain_tx_def split: option.splits sum.splits)

lemma verified_claims:
  assumes "verify_and_consume lib time token nonce st = (Inr p, st')" and "\<And>n. ox_sha256 lib n \<noteq> []"
  shows "\<exists>n jti. nonce = Some n \<and> ox_verify lib time token oauth_audience oauth_issuer = Some p
    \<and> jget ''purpose'' p = Some (JStr ''google_oauth_state'') \<and> jget ''nonceHash'' p = Some (JStr (ox_sha256 lib n))
    \<and> jget ''jti'' p = Some jti \<and> jti \<notin> set (map fst (sweep time st)) \<and> jti \<in> set (map fst st')"
proof -
  from assms(1) obtain n where n: "nonce = Some n" by (cases nonce) (auto simp: verify_and_consume_def)
  from assms(1) have v: "ox_verify lib time token oauth_audience oauth_issuer = Some p"
    "jget ''purpose'' p = Some (JStr ''google_oauth_state'')" "jtruthy (jget ''jti'' p)"
    "(case jget ''nonceHash'' p of Some (JStr h) \<Rightarrow> h | _ \<Rightarrow> []) = ox_sha256 lib n"
    "consume time (the (jget ''jti'' p)) (ttl_of_claims time p + 60000) st = (True, st')"
    by (auto simp: verify_and_consume_def n split: if_splits option.splits prod.splits bool.splits)
  from v(3) obtain jti where j: "jget ''jti'' p = Some jti" by (cases "jget ''jti'' p") auto
  from v(4) assms(2) [of n] have "jget ''nonceHash'' p = Some (JStr (ox_sha256 lib n))"
    by (auto split: option.splits json.splits)
  with v j n show ?thesis by (auto simp: consume_def Let_def split: if_splits)
qed

text \<open>C28. The callback changes the database only with a verified state of the right purpose,
  bound to the browser's cookie and not used before, and then only for the tenant the state
  names.\<close>
theorem callback_connects_the_states_tenant:
  assumes "google_callback lib clib kenv iv1 iv2 base exchange time r st db = (res, st', db')" and "db' \<noteq> db"
    and "\<And>n. ox_sha256 lib n \<noteq> []"
  shows "\<exists>token n p jti. cb_state r = Some token \<and> read_cookie (cb_cookie r) oauth_nonce_cookie = Some n
    \<and> ox_verify lib time token oauth_audience oauth_issuer = Some p
    \<and> jget ''purpose'' p = Some (JStr ''google_oauth_state'') \<and> jget ''nonceHash'' p = Some (JStr (ox_sha256 lib n))
    \<and> jget ''jti'' p = Some jti \<and> jti \<notin> set (map fst (sweep time st)) \<and> jti \<in> set (map fst st')
    \<and> others (tenant_claim p) db' = others (tenant_claim p) db"
proof -
  let ?nonce = "read_cookie (cb_cookie r) oauth_nonce_cookie"
  from assms(1,2) obtain token p st1 where tok: "cb_state r = Some token"
    and v: "verify_and_consume lib time token ?nonce st = (Inr p, st1)"
    by (cases "cb_state r") (auto simp: google_callback_def split: if_splits sum.splits prod.splits)
  let ?h = "handle_google_callback clib kenv iv1 iv2 (tenant_claim p) (exchange (the (cb_code r))) db"
  have "db' = snd ?h \<and> st' = st1"
    using assms(1,2) v tok subdomain_unchanged [of "tenant_claim p" "snd ?h"]
    by (auto simp: google_callback_def Let_def split: if_splits sum.splits prod.splits)
  with others_handle_callback [of "tenant_claim p"] verified_claims [OF v assms(3)] tok show ?thesis by metis
qed

section \<open>Instances\<close>

definition demo_oauth_claims :: json where
  "demo_oauth_claims = JObj [(''tenantId'', JStr demo_tenant), (''purpose'', JStr ''google_oauth_state''),
     (''nonceHash'', JStr ''hash''), (''jti'', JStr ''j1''), (''exp'', JNum 100)]"

definition demo_oauth :: oauth_lib where
  "demo_oauth = \<lparr>ox_verify = (\<lambda>time token aud iss. if time < 100000 \<and> token = ''state'' then Some demo_oauth_claims else None),
     ox_sign = (\<lambda>_ _ _ _. ''state''), ox_sha256 = (\<lambda>_. ''hash'')\<rparr>"

lemma demo_oauth_verifies:
  "verify_and_consume demo_oauth 5 ''state'' (Some ''n'') [] = (Inr demo_oauth_claims, [(JStr ''j1'', 160000)])"
  by (simp add: verify_and_consume_def demo_oauth_def demo_oauth_claims_def consume_def sweep_def ttl_of_claims_def)

theorem oauth_state_is_single_use_witness:
  "\<exists>err. fst (verify_and_consume demo_oauth 99000 ''state'' (Some ''n'') [(JStr ''j1'', 160000)]) = Inl err"
proof -
  have "p' = demo_oauth_claims \<and> of_int t < (100 :: rat) * 1000"
    if "ox_verify demo_oauth t ''state'' oauth_audience oauth_issuer = Some p'" for t p'
    using that by (auto simp: demo_oauth_def split: if_splits)
  from oauth_state_is_single_use [OF demo_oauth_verifies _ _ this rtranclp.rtrancl_refl, of 99000 "Some ''n''"]
  show ?thesis by (simp add: demo_oauth_claims_def)
qed

definition demo_callback :: callback_request where
  "demo_callback = \<lparr>cb_code = Some ''code'', cb_state = Some ''state'', cb_error = None, cb_cookie = Some ''cm_oauth_nonce=n''\<rparr>"

theorem callback_connects_the_states_tenant_witness:
  "\<exists>res st' db'. google_callback demo_oauth demo_cipher (demo_key_env None) ''iv1'' ''iv2'' ''x.com'' (\<lambda>_. Inr demo_tokens) 5 demo_callback [] empty_db
      = (res, st', db') \<and> db' \<noteq> empty_db \<and> others demo_tenant db' = others demo_tenant empty_db"
proof -
  let ?run = "google_callback demo_oauth demo_cipher (demo_key_env None) ''iv1'' ''iv2'' ''x.com'' (\<lambda>_. Inr demo_tokens) 5 demo_callback [] empty_db"
  have cookie: "read_cookie (cb_cookie demo_callback) oauth_nonce_cookie = Some ''n''" by code_simp
  from demo_connects obtain db1 where
    h: "handle_google_callback demo_cipher (demo_key_env None) ''iv1'' ''iv2'' demo_tenant (Inr demo_tokens) empty_db = (Inr (), db1)" by blast
  then obtain a b v where "connect_tx demo_tenant (connected_row a b v demo_tokens) empty_db = Inr ((), db1)"
    by (auto simp: handle_google_callback_def for_tenant_Inr split: sum.splits prod.splits)
  from connect_rows(1) [OF this keeps_key_rows(4), of GMAIL] have "integration_of demo_tenant GMAIL db1 \<noteq> None"
    by (auto simp: google_providers_def)
  moreover have "integration_of demo_tenant GMAIL empty_db = None" by (simp add: integration_of_def empty_db_def)
  ultimately have ne: "db1 \<noteq> empty_db" by metis
  have tc: "tenant_claim demo_oauth_claims = demo_tenant" by (simp add: tenant_claim_def demo_oauth_claims_def)
  obtain res st' db' where run: "?run = (res, st', db')" by (metis prod_cases3)
  have "db' = db1"
    using run h subdomain_unchanged [of demo_tenant db1] cookie demo_oauth_verifies
    by (auto simp: google_callback_def demo_callback_def tc Let_def split: prod.splits sum.splits)
  moreover from callback_connects_the_states_tenant [OF run] ne \<open>db' = db1\<close>
  obtain token p where "cb_state demo_callback = Some token" "ox_verify demo_oauth 5 token oauth_audience oauth_issuer = Some p"
    "others (tenant_claim p) db' = others (tenant_claim p) empty_db" by (auto simp: demo_oauth_def)
  moreover from this have "p = demo_oauth_claims" by (auto simp: demo_callback_def demo_oauth_def)
  ultimately show ?thesis using run ne tc by metis
qed

end
