(* ===== verification/MailText.thy ===== *)
theory MailText
  imports Bytes InboundMail
begin

text \<open>
  The text side of integrations/gmail.connector.ts: transfer encodings, encoded words, HTML,
  and the reading and writing of a message. Each regular expression is the scan it performs.
  Base64, the UTF-8 and Latin-1 conversions of Buffer and TextDecoder are parameters; an
  exception (\<open>String.fromCodePoint\<close> of a number that is no code point) is None.
\<close>

record mail_lib =
  ml_base64 :: "string \<Rightarrow> string"
  ml_toBase64 :: "string \<Rightarrow> string"
  ml_utf8 :: "string \<Rightarrow> string"
  ml_latin1Bytes :: "string \<Rightarrow> string"
  ml_textDecoder :: "string \<Rightarrow> (string \<Rightarrow> string) option"

section \<open>Replacing every match\<close>

text \<open>
  \<open>m s\<close> is the match at the front of \<open>s\<close>: its replacement, or None when computing it
  throws, and what follows it.
\<close>

function replace_all :: "(string \<Rightarrow> (string option \<times> string) option) \<Rightarrow> string \<Rightarrow> string option" where
  "replace_all m [] = Some []"
| "replace_all m (c # s) =
     (case m (c # s) of
        None \<Rightarrow> map_option (\<lambda>r. c # r) (replace_all m s)
      | Some (t, rest) \<Rightarrow>
          if length rest \<le> length s
          then (case t of None \<Rightarrow> None | Some x \<Rightarrow> map_option (\<lambda>r. x @ r) (replace_all m rest))
          else None)"
  by pat_completeness auto
termination
  by (relation "measure (length \<circ> snd)") auto

text \<open>When no replacement throws.\<close>

definition replace_each :: "(string \<Rightarrow> (string \<times> string) option) \<Rightarrow> string \<Rightarrow> string" where
  "replace_each m s = or_else (replace_all (\<lambda>x. map_option (\<lambda>(t, r). (Some t, r)) (m x)) s) []"

definition code :: "char \<Rightarrow> nat" where
  "code c = of_char c"

section \<open>Encodings\<close>

definition latin1_text :: "string \<Rightarrow> string" where
  "latin1_text bytes = utf8 (map of_char bytes)"

definition decode_buffer :: "mail_lib \<Rightarrow> string \<Rightarrow> string \<Rightarrow> string" where
  "decode_buffer lib bytes charset =
     (let n = to_lower (trim charset)
      in if n \<in> {''utf-8'', ''utf8'', ''us-ascii''} then ml_utf8 lib bytes
         else case ml_textDecoder lib n of Some d \<Rightarrow> d bytes | None \<Rightarrow> latin1_text bytes)"

definition soft_break :: "string \<Rightarrow> (string \<times> string) option" where
  "soft_break s =
     (if \<not> starts_with ''='' s then None
      else case drop 1 s of
          [] \<Rightarrow> None
        | c # r \<Rightarrow> if code c = 13 then Some ([], if r \<noteq> [] \<and> code (hd r) = 10 then tl r else r)
                   else if code c = 10 then Some ([], r) else None)"

definition hex_escape :: "string \<Rightarrow> (string \<times> string) option" where
  "hex_escape s =
     (case s of
        c # a # b # r \<Rightarrow> if c = CHR ''='' \<and> is_hex a \<and> is_hex b then Some ([char_of (16 * hex_val a + hex_val b)], r) else None
      | _ \<Rightarrow> None)"

definition decode_quoted_printable :: "string \<Rightarrow> string" where
  "decode_quoted_printable bytes = replace_each hex_escape (replace_each soft_break bytes)"

text \<open>\<open>=?charset?B?payload?=\<close>.\<close>

definition mime_word :: "mail_lib \<Rightarrow> string \<Rightarrow> (string \<times> string) option" where
  "mime_word lib s =
     (if \<not> starts_with ''=?'' s then None
      else let q = (\<lambda>c. c \<noteq> CHR ''?''); charset = takeWhile q (drop 2 s); r1 = dropWhile q (drop 2 s)
           in case r1 of
                _ # enc # sep # r2 \<Rightarrow>
                  (let payload = takeWhile q r2; r3 = dropWhile q r2
                   in if charset \<noteq> [] \<and> enc \<in> set ''bBqQ'' \<and> sep = CHR ''?'' \<and> starts_with ''?='' r3
                      then Some (if lower_char enc = CHR ''b'' then decode_buffer lib (ml_base64 lib payload) charset
                                 else decode_buffer lib (decode_quoted_printable
                                        (ml_latin1Bytes lib (map (\<lambda>c. if c = CHR ''_'' then CHR '' '' else c) payload))) charset,
                                 drop 2 r3)
                      else None)
              | _ \<Rightarrow> None)"

definition decode_mime_words :: "mail_lib \<Rightarrow> string \<Rightarrow> string" where
  "decode_mime_words lib s = (if has_infix ''=?'' s then replace_each (mime_word lib) s else s)"

section \<open>HTML\<close>

text \<open>A code point as text; half a surrogate pair is stored as the replacement character.\<close>

definition point_text :: "nat \<Rightarrow> string option" where
  "point_text n =
     (if 1114111 < n then None
      else if 65536 \<le> n then Some [char_of (240 + n div 262144), char_of (128 + (n div 4096) mod 64),
                                  char_of (128 + (n div 64) mod 64), char_of (128 + n mod 64)]
      else if 55296 \<le> n \<and> n < 57344 then Some (utf8_point 65533)
      else Some (utf8_point n))"

definition hex_number :: "string \<Rightarrow> nat" where
  "hex_number s = fold (\<lambda>c acc. 16 * acc + hex_val c) s 0"

definition hex_entity :: "string \<Rightarrow> (string option \<times> string) option" where
  "hex_entity s =
     (if \<not> starts_with ''&#x'' (to_lower s) then None
      else let h = takeWhile is_hex (drop 3 s); r = dropWhile is_hex (drop 3 s)
           in if h \<noteq> [] \<and> starts_with '';'' r then Some (point_text (hex_number h), drop 1 r) else None)"

definition dec_entity :: "string \<Rightarrow> (string option \<times> string) option" where
  "dec_entity s =
     (if \<not> starts_with ''&#'' s then None
      else let d = takeWhile is_digit (drop 2 s); r = dropWhile is_digit (drop 2 s)
           in if d \<noteq> [] \<and> starts_with '';'' r then Some (point_text (read_nat d), drop 1 r) else None)"

definition html_entities :: "(string \<times> string) list" where
  "html_entities = [(''amp'', ''&''), (''lt'', ''<''), (''gt'', ''>''), (''quot'', [char_of (34 :: nat)]),
     (''apos'', [char_of (39 :: nat)]), (''nbsp'', '' '')]"

text \<open>The lookup in an object literal also finds the one inherited name of lower-case letters.\<close>

definition entity_text :: "string \<Rightarrow> string option" where
  "entity_text name = (case map_of html_entities name of
     Some t \<Rightarrow> Some t
   | None \<Rightarrow> if name = ''constructor'' then Some ''function Object() { [native code] }'' else None)"

definition named_entity :: "string \<Rightarrow> (string option \<times> string) option" where
  "named_entity s =
     (if \<not> starts_with ''&'' s then None
      else let letter = (\<lambda>c. is_lower c \<or> is_upper c); n = takeWhile letter (drop 1 s); r = dropWhile letter (drop 1 s)
           in if n \<noteq> [] \<and> starts_with '';'' r then Some (Some (or_else (entity_text (to_lower n)) (''&'' @ n @ '';'')), drop 1 r) else None)"

definition decode_html_entities :: "string \<Rightarrow> string option" where
  "decode_html_entities s =
     (case replace_all hex_entity s of
        None \<Rightarrow> None
      | Some t \<Rightarrow> (case replace_all dec_entity t of None \<Rightarrow> None | Some u \<Rightarrow> replace_all named_entity u))"

text \<open>What follows the first occurrence of a text.\<close>

fun after_infix :: "string \<Rightarrow> string \<Rightarrow> string option" where
  "after_infix p [] = (if p = [] then Some [] else None)"
| "after_infix p (c # s) = (if starts_with p (c # s) then Some (drop (length p) (c # s)) else after_infix p s)"

text \<open>The same without regard to case, on the lower-case copy of the text.\<close>

definition after_infix_ci :: "string \<Rightarrow> string \<Rightarrow> string option" where
  "after_infix_ci p s = map_option (\<lambda>r. drop (length s - length r) s) (after_infix p (to_lower s))"

definition regex_word :: "char \<Rightarrow> bool" where
  "regex_word c \<longleftrightarrow> is_alnum c \<or> c = CHR ''_''"

definition element_of :: "string \<Rightarrow> string \<Rightarrow> (string \<times> string) option" where
  "element_of name s =
     (let r = drop (Suc (length name)) s
      in if \<not> starts_with (CHR ''<'' # name) (to_lower s) \<or> r \<noteq> [] \<and> regex_word (hd r) then None
         else case after_infix ''>'' r of
             None \<Rightarrow> None
           | Some body \<Rightarrow> map_option (\<lambda>rest. ('' '', rest)) (after_infix_ci (''</'' @ name @ ''>'') body))"

definition hidden_element :: "string \<Rightarrow> (string \<times> string) option" where
  "hidden_element s = (case element_of ''script'' s of Some x \<Rightarrow> Some x | None \<Rightarrow> element_of ''style'' s)"

definition html_comment :: "string \<Rightarrow> (string \<times> string) option" where
  "html_comment s = (if starts_with ''<!--'' s then map_option (\<lambda>r. ('' '', r)) (after_infix ''-->'' (drop 4 s)) else None)"

definition line_feed :: string where
  "line_feed = [char_of (10 :: nat)]"

definition br_tag :: "string \<Rightarrow> (string \<times> string) option" where
  "br_tag s =
     (if \<not> starts_with ''<br'' (to_lower s) then None
      else let r = dropWhile is_ws (drop 3 s)
           in if starts_with ''/>'' r then Some (line_feed, drop 2 r)
              else if starts_with ''>'' r then Some (line_feed, drop 1 r) else None)"

definition block_ends :: "string list" where
  "block_ends = [''</p>'', ''</div>'', ''</tr>'', ''</li>'', ''</h1>'', ''</h2>'', ''</h3>'', ''</h4>'', ''</h5>'', ''</h6>'']"

definition block_end :: "string \<Rightarrow> (string \<times> string) option" where
  "block_end s = map_option (\<lambda>p. (line_feed, drop (length p) s)) (List.find (\<lambda>p. starts_with p (to_lower s)) block_ends)"

definition any_tag :: "string \<Rightarrow> (string \<times> string) option" where
  "any_tag s =
     (if \<not> starts_with ''<'' s then None
      else let inner = takeWhile (\<lambda>c. c \<noteq> CHR ''>'') (drop 1 s); r = dropWhile (\<lambda>c. c \<noteq> CHR ''>'') (drop 1 s)
           in if inner \<noteq> [] \<and> r \<noteq> [] then Some ('' '', drop 1 r) else None)"

text \<open>Blanks: space, tab and the two bytes of the no-break space.\<close>

fun drop_blanks :: "string \<Rightarrow> string" where
  "drop_blanks [] = []"
| "drop_blanks (c # s) =
     (if c = CHR '' '' \<or> code c = 9 then drop_blanks s
      else case s of
          [] \<Rightarrow> [c]
        | d # r \<Rightarrow> if code c = 194 \<and> code d = 160 then drop_blanks r else c # s)"

definition blank_run :: "string \<Rightarrow> (string \<times> string) option" where
  "blank_run s = (let r = drop_blanks s in if length r < length s then Some ('' '', r) else None)"

definition newline_run :: "string \<Rightarrow> (string \<times> string) option" where
  "newline_run s =
     (if 3 \<le> length (takeWhile (\<lambda>c. code c = 10) s) then Some (line_feed @ line_feed, dropWhile (\<lambda>c. code c = 10) s) else None)"

definition strip_tags :: "string \<Rightarrow> string" where
  "strip_tags html = replace_each any_tag (replace_each block_end (replace_each br_tag
     (replace_each html_comment (replace_each hidden_element html))))"

definition tidy_lines :: "string \<Rightarrow> string" where
  "tidy_lines t = trim (join_with line_feed (map trim (split_on (char_of (10 :: nat)) (replace_each newline_run (replace_each blank_run t)))))"

definition html_to_text :: "string \<Rightarrow> string option" where
  "html_to_text html = map_option tidy_lines (decode_html_entities (strip_tags html))"

section \<open>Reading a message\<close>

datatype mime_part = Mime_part (mp_mimeType: "string option") (mp_headers: "(string \<times> string) list") (mp_data: "string option") (mp_parts: "mime_part list")

record gmail_message =
  gm_id :: "string option"
  gm_threadId :: "string option"
  gm_snippet :: "string option"
  gm_payload :: "mime_part option"
  gm_internalDate :: "int option"
  gm_historyId :: "string option"

record parsed_email =
  pe_gmailMessageId :: string
  pe_threadId :: string
  pe_from :: string
  pe_subject :: string
  pe_snippet :: string
  pe_bodyText :: string
  pe_receivedAt :: int

definition header_of :: "(string \<times> string) list \<Rightarrow> string \<Rightarrow> string" where
  "header_of hs name = (case List.find (\<lambda>h. to_lower (fst h) = to_lower name) hs of None \<Rightarrow> [] | Some h \<Rightarrow> snd h)"

text \<open>\<open>charset="?([^";]+)"?\<close>, the first match.\<close>

fun charset_of :: "string \<Rightarrow> string option" where
  "charset_of [] = None"
| "charset_of (c # s) =
     (let r = drop 8 (c # s); v = (if r \<noteq> [] \<and> code (hd r) = 34 then tl r else r);
          n = takeWhile (\<lambda>x. code x \<noteq> 34 \<and> x \<noteq> CHR '';'') v
      in if starts_with ''charset='' (to_lower (c # s)) \<and> n \<noteq> [] then Some n else charset_of s)"

definition decode_part_body :: "mail_lib \<Rightarrow> mime_part \<Rightarrow> string" where
  "decode_part_body lib part =
     (if \<not> truthy (mp_data part) then []
      else let raw = ml_base64 lib (the (mp_data part));
               bytes = (if contains_ci ''quoted-printable'' (header_of (mp_headers part) ''content-transfer-encoding'')
                        then decode_quoted_printable raw else raw);
               charset = (case charset_of (or_else (mp_mimeType part) []) of
                            Some n \<Rightarrow> n
                          | None \<Rightarrow> or_else (charset_of (header_of (mp_headers part) ''content-type'')) ''utf-8'')
           in decode_buffer lib bytes charset)"

fun find_part :: "mail_lib \<Rightarrow> string \<Rightarrow> mime_part \<Rightarrow> string"
and find_in_parts :: "mail_lib \<Rightarrow> string \<Rightarrow> mime_part list \<Rightarrow> string" where
  "find_part lib mime (Mime_part mt hs d ps) =
     (if mt = Some mime \<and> truthy d then decode_part_body lib (Mime_part mt hs d ps) else find_in_parts lib mime ps)"
| "find_in_parts lib mime [] = []"
| "find_in_parts lib mime (p # ps) =
     (let found = find_part lib mime p in if found \<noteq> [] then found else find_in_parts lib mime ps)"

definition extract_body_text :: "mail_lib \<Rightarrow> mime_part option \<Rightarrow> string option" where
  "extract_body_text lib payload =
     (case payload of
        None \<Rightarrow> Some []
      | Some part \<Rightarrow>
          (let plain = find_part lib ''text/plain'' part; html = find_part lib ''text/html'' part
           in if plain \<noteq> [] then Some plain else if html \<noteq> [] then html_to_text html else Some []))"

definition parse_message :: "mail_lib \<Rightarrow> int \<Rightarrow> gmail_message \<Rightarrow> parsed_email option" where
  "parse_message lib time msg =
     (let hs = (case gm_payload msg of None \<Rightarrow> [] | Some p \<Rightarrow> mp_headers p)
      in case decode_html_entities (or_else (gm_snippet msg) []) of
           None \<Rightarrow> None
         | Some snip \<Rightarrow>
             (case extract_body_text lib (gm_payload msg) of
                None \<Rightarrow> None
              | Some body \<Rightarrow> Some \<lparr>pe_gmailMessageId = or_else (gm_id msg) [], pe_threadId = or_else (gm_threadId msg) [],
                    pe_from = decode_mime_words lib (header_of hs ''From''), pe_subject = decode_mime_words lib (header_of hs ''Subject''),
                    pe_snippet = snip, pe_bodyText = body, pe_receivedAt = or_else (gm_internalDate msg) time\<rparr>))"

section \<open>Writing a message\<close>

definition header_break :: "string \<Rightarrow> (string \<times> string) option" where
  "header_break s = (if s \<noteq> [] \<and> is_newline (hd s) then Some ('' '', dropWhile is_newline s) else None)"

definition safe_recipient :: "string \<Rightarrow> string" where
  "safe_recipient rcpt = trim (replace_each header_break rcpt)"

definition crlf :: string where
  "crlf = [char_of (13 :: nat), char_of (10 :: nat)]"

definition message_headers :: "mail_lib \<Rightarrow> string \<Rightarrow> string \<Rightarrow> string list" where
  "message_headers lib rcpt subj =
     [''To: '' @ safe_recipient rcpt, ''Subject: =?UTF-8?B?'' @ ml_toBase64 lib subj @ ''?='', ''MIME-Version: 1.0'',
      (let q = [char_of (34 :: nat)] in ''Content-Type: text/plain; charset='' @ q @ ''UTF-8'' @ q)]"

definition build_message :: "mail_lib \<Rightarrow> string \<Rightarrow> string \<Rightarrow> string \<Rightarrow> string" where
  "build_message lib rcpt subj body = join_with crlf (message_headers lib rcpt subj @ [[], body])"

section \<open>A message has exactly the headers the code writes\<close>

lemma replace_all_step:
  "m (c # s) = None \<Longrightarrow> replace_all m (c # s) = map_option (\<lambda>r. c # r) (replace_all m s)"
  by simp

declare replace_all.simps(2) [simp del]

lemma append_Cons_id: "(@) [x] = (#) x"
  by (rule ext) simp

lemma header_break_step:
  "replace_all (\<lambda>x. map_option (\<lambda>(t, r). (Some t, r)) (header_break x)) (c # r) =
     (if is_newline c
      then map_option (\<lambda>x. '' '' @ x) (replace_all (\<lambda>x. map_option (\<lambda>(t, r). (Some t, r)) (header_break x)) (dropWhile is_newline r))
      else map_option (\<lambda>x. c # x) (replace_all (\<lambda>x. map_option (\<lambda>(t, r). (Some t, r)) (header_break x)) r))"
  using length_dropWhile_le [of is_newline r]
  by (cases "is_newline c") (simp_all add: header_break_def replace_all.simps(2) append_Cons_id)

lemma blank_not_newline: "\<not> is_newline (CHR '' '')"
  by code_simp

lemma header_breaks_gone:
  "\<exists>t. replace_all (\<lambda>x. map_option (\<lambda>(t, r). (Some t, r)) (header_break x)) s = Some t \<and> (\<forall>c \<in> set t. \<not> is_newline c)"
proof (induction "length s" arbitrary: s rule: less_induct)
  case less
  show ?case
  proof (cases s)
    case (Cons c r)
    have "length (dropWhile is_newline r) < length s" "length r < length s"
      using Cons length_dropWhile_le [of is_newline r] by simp_all
    from less.hyps [OF this(1)] less.hyps [OF this(2)] show ?thesis
      using blank_not_newline by (cases "is_newline c") (auto simp: Cons header_break_step)
  qed simp
qed

lemma safe_recipient_one_line: "c \<in> set (safe_recipient rcpt) \<Longrightarrow> \<not> is_newline c"
  using header_breaks_gone [of rcpt]
  by (auto simp: safe_recipient_def replace_each_def dest!: subsetD [OF trim_subset])

lemma headers_one_line:
  assumes "\<forall>c \<in> set (ml_toBase64 lib subj). \<not> is_newline c"
  shows "h \<in> set (message_headers lib rcpt subj) \<Longrightarrow> \<forall>c \<in> set h. \<not> is_newline c"
  using assms safe_recipient_one_line [of _ rcpt]
  by (auto simp: message_headers_def is_newline_def)

lemma lf_newline: "is_newline (char_of (10 :: nat))"
  by code_simp

theorem mail_headers_are_fixed:
  assumes "\<forall>c \<in> set (ml_toBase64 lib subj). \<not> is_newline c"
  shows "(\<forall>h \<in> set (message_headers lib rcpt subj). \<forall>c \<in> set h. \<not> is_newline c)
    \<and> take 5 (split_on (char_of (10 :: nat)) (build_message lib rcpt subj body))
        = map (\<lambda>h. h @ [char_of (13 :: nat)]) (message_headers lib rcpt subj @ [[]])"
proof -
  obtain h1 h2 h3 h4 where h: "message_headers lib rcpt subj = [h1, h2, h3, h4]"
    by (simp add: message_headers_def)
  have one: "\<forall>c \<in> set x. \<not> is_newline c" if "x \<in> {h1, h2, h3, h4}" for x
    using headers_one_line [OF assms, where h = x and rcpt = rcpt] that by (auto simp: h)
  have no: "char_of (10 :: nat) \<notin> set (x @ [char_of (13 :: nat)])" if "x \<in> {h1, h2, h3, h4, []}" for x
    using one [of x] that lf_newline by auto
  have msg: "build_message lib rcpt subj body
      = (h1 @ [char_of (13 :: nat)]) @ char_of (10 :: nat) # (h2 @ [char_of (13 :: nat)]) @ char_of (10 :: nat) # (h3 @ [char_of (13 :: nat)]) @ char_of (10 :: nat)
        # (h4 @ [char_of (13 :: nat)]) @ char_of (10 :: nat) # ([] @ [char_of (13 :: nat)]) @ char_of (10 :: nat) # body"
    by (simp add: build_message_def h crlf_def)
  have "split_on (char_of (10 :: nat)) (build_message lib rcpt subj body)
      = (h1 @ [char_of (13 :: nat)]) # (h2 @ [char_of (13 :: nat)]) # (h3 @ [char_of (13 :: nat)]) # (h4 @ [char_of (13 :: nat)]) # ([] @ [char_of (13 :: nat)])
        # split_on (char_of (10 :: nat)) body"
    unfolding msg using no by (simp only: split_on_append_sep insert_iff simp_thms)
  then show ?thesis
    using one by (simp add: h)
qed

section \<open>A number that is no code point makes a text unreadable\<close>

lemma replace_all_skip:
  "(\<And>i. i < length p \<Longrightarrow> m (drop i p @ s) = None) \<Longrightarrow> replace_all m (p @ s) = map_option (\<lambda>r. p @ r) (replace_all m s)"
proof (induction p)
  case Nil
  then show ?case by (simp add: option.map_ident)
next
  case (Cons c p)
  have "m (c # p @ s) = None"
    using Cons.prems [of 0] by simp
  moreover have "replace_all m (p @ s) = map_option (\<lambda>r. p @ r) (replace_all m s)"
    using Cons.prems by (intro Cons.IH) (metis Suc_less_eq drop_Suc_Cons length_Cons)
  ultimately show ?case
    by (simp add: replace_all.simps(2) option.map_comp comp_def)
qed

lemma lower_char_amp: "lower_char c = CHR ''&'' \<Longrightarrow> c = CHR ''&''"
proof (cases "65 \<le> (of_char c :: nat) \<and> (of_char c :: nat) \<le> 90")
  case True
  then have "of_char (lower_char c) = (of_char c + 32 :: nat)" by (simp add: lower_char_def Let_def)
  moreover assume "lower_char c = CHR ''&''"
  ultimately show ?thesis using True by simp
qed (auto simp: lower_char_def Let_def)

lemma plain_front:
  assumes "c \<noteq> CHR ''&''"
  shows "hex_entity (c # r) = None" "dec_entity (c # r) = None"
  using assms lower_char_amp [of c] by (auto simp: hex_entity_def dec_entity_def to_lower_def starts_with_def)

lemma plain_prefix_kept:
  assumes "CHR ''&'' \<notin> set p"
  shows "replace_all hex_entity (p @ s) = map_option (\<lambda>r. p @ r) (replace_all hex_entity s)"
    "replace_all dec_entity (p @ s) = map_option (\<lambda>r. p @ r) (replace_all dec_entity s)"
proof -
  have front: "drop i p @ s = p ! i # drop (Suc i) p @ s \<and> p ! i \<noteq> CHR ''&''" if "i < length p" for i
    using that assms by (metis Cons_nth_drop_Suc append_Cons nth_mem)
  show "replace_all hex_entity (p @ s) = map_option (\<lambda>r. p @ r) (replace_all hex_entity s)"
    by (rule replace_all_skip) (use front in \<open>simp add: plain_front\<close>)
  show "replace_all dec_entity (p @ s) = map_option (\<lambda>r. p @ r) (replace_all dec_entity s)"
    by (rule replace_all_skip) (use front in \<open>simp add: plain_front\<close>)
qed

lemma digit_plain: "list_all is_digit d \<Longrightarrow> CHR ''&'' \<notin> set (CHR ''#'' # d @ '';'')"
  by (auto simp: list_all_iff is_digit_def)

lemma lower_digit: "is_digit c \<Longrightarrow> lower_char c \<noteq> CHR ''x''"
  by (auto simp: is_digit_def lower_char_def Let_def)

lemma numeric_not_hex:
  assumes "list_all is_digit d" "d \<noteq> []"
  shows "hex_entity (CHR ''&'' # CHR ''#'' # d @ r) = None"
proof -
  obtain c e where d: "d = c # e" using assms(2) by (cases d) auto
  then have "lower_char c \<noteq> CHR ''x''" using assms(1) lower_digit by simp
  then show ?thesis by (auto simp: hex_entity_def d to_lower_def starts_with_def)
qed

lemma huge_entity_unreadable:
  assumes "CHR ''&'' \<notin> set p" and d: "list_all is_digit d" "d \<noteq> []" and "1114111 < read_nat d"
  shows "decode_html_entities (p @ ''&#'' @ d @ '';'' @ t) = None"
proof -
  let ?q = "CHR ''#'' # d @ '';''"
  have "replace_all hex_entity (CHR ''&'' # ?q @ t) = map_option (\<lambda>r. CHR ''&'' # ?q @ r) (replace_all hex_entity t)"
    using plain_prefix_kept(1) [OF digit_plain [OF d(1)], of t] numeric_not_hex [OF d, of "CHR '';'' # t"]
    by (simp add: replace_all.simps(2) option.map_comp comp_def)
  then have hex: "replace_all hex_entity (p @ ''&#'' @ d @ '';'' @ t)
      = map_option (\<lambda>r. p @ ''&#'' @ d @ '';'' @ r) (replace_all hex_entity t)"
    using plain_prefix_kept(1) [OF assms(1), of "CHR ''&'' # ?q @ t"] by (simp add: option.map_comp comp_def)
  have "\<not> is_digit CHR '';''" by code_simp
  then have "takeWhile is_digit (d @ CHR '';'' # r) = d" "dropWhile is_digit (d @ CHR '';'' # r) = CHR '';'' # r" for r
    using d(1) by (simp_all add: list_all_iff takeWhile_tail)
  then have "dec_entity (CHR ''&'' # ?q @ r) = Some (None, r)" for r
    using d(2) assms(4) by (simp add: dec_entity_def starts_with_def point_text_def)
  then have "replace_all dec_entity (p @ ''&#'' @ d @ '';'' @ r) = None" for r
    using plain_prefix_kept(2) [OF assms(1), of "CHR ''&'' # ?q @ r"] by (simp add: replace_all.simps(2))
  then show ?thesis
    unfolding decode_html_entities_def hex by (cases "replace_all hex_entity t") simp_all
qed

theorem impossible_entity_breaks_text:
  assumes "CHR ''&'' \<notin> set p" and "list_all is_digit d" "d \<noteq> []" and "1114111 < read_nat d"
  shows "decode_html_entities (p @ ''&#'' @ d @ '';'' @ t) = None
    \<and> (gm_snippet msg = Some (p @ ''&#'' @ d @ '';'' @ t) \<longrightarrow> parse_message lib time msg = None)"
  using huge_entity_unreadable [OF assms] by (simp add: parse_message_def or_else_def Let_def)

section \<open>Witnesses\<close>

definition demo_mail_lib :: mail_lib where
  "demo_mail_lib = \<lparr>ml_base64 = (\<lambda>x. x), ml_toBase64 = (\<lambda>x. filter is_alnum x), ml_utf8 = (\<lambda>x. x),
     ml_latin1Bytes = (\<lambda>x. x), ml_textDecoder = (\<lambda>n. None)\<rparr>"

theorem mail_headers_are_fixed_witness:
  "take 5 (split_on (char_of (10 :: nat)) (build_message demo_mail_lib (''dan@x.com'' @ crlf @ ''Bcc: eve@x.com'') ''hi'' ''text''))
     = map (\<lambda>h. h @ [char_of (13 :: nat)]) (message_headers demo_mail_lib (''dan@x.com'' @ crlf @ ''Bcc: eve@x.com'') ''hi'' @ [[]])
   \<and> safe_recipient (''dan@x.com'' @ crlf @ ''Bcc: eve@x.com'') = ''dan@x.com Bcc: eve@x.com''"
proof
  have "\<forall>c \<in> set (ml_toBase64 demo_mail_lib ''hi''). \<not> is_newline c" by code_simp
  from mail_headers_are_fixed [OF this]
  show "take 5 (split_on (char_of (10 :: nat)) (build_message demo_mail_lib (''dan@x.com'' @ crlf @ ''Bcc: eve@x.com'') ''hi'' ''text''))
     = map (\<lambda>h. h @ [char_of (13 :: nat)]) (message_headers demo_mail_lib (''dan@x.com'' @ crlf @ ''Bcc: eve@x.com'') ''hi'' @ [[]])"
    by blast
  show "safe_recipient (''dan@x.com'' @ crlf @ ''Bcc: eve@x.com'') = ''dan@x.com Bcc: eve@x.com''" by code_simp
qed

definition demo_bad_mail :: gmail_message where
  "demo_bad_mail = \<lparr>gm_id = Some ''m1'', gm_threadId = None, gm_snippet = Some ''price &#1114112; today'', gm_payload = None,
     gm_internalDate = None, gm_historyId = None\<rparr>"

theorem impossible_entity_breaks_text_witness:
  "parse_message demo_mail_lib 0 demo_bad_mail = None"
proof -
  have "CHR ''&'' \<notin> set ''price ''" "list_all is_digit ''1114112''" "''1114112'' \<noteq> []" "1114111 < read_nat ''1114112''"
    by (code_simp, code_simp, simp, simp add: read_nat_def digit_val_def)
  from impossible_entity_breaks_text [OF this, where t = "'' today''" and msg = demo_bad_mail and lib = demo_mail_lib and time = 0]
  show ?thesis by (simp add: demo_bad_mail_def)
qed

end
