(* ===== verification/MailSync.thy ===== *)
theory MailSync
  imports MailText Intake External Outbox
begin

text \<open>
  Reading a mailbox into tasks: the fetch loop, the mark and the query of
  integrations/gmail.connector.ts and syncGmail of intake/email-intake.service.ts. What Google
  answers to a request, attempt by attempt, is a parameter.
\<close>

section \<open>Requests to Gmail\<close>

record message_list =
  ml_messages :: "string option list"
  ml_nextPageToken :: "string option"

record gmail_api =
  ga_list :: "string \<Rightarrow> int \<Rightarrow> string option \<Rightarrow> nat \<Rightarrow> message_list attempt"
  ga_get :: "string \<Rightarrow> nat \<Rightarrow> gmail_message attempt"
  ga_modify :: "string \<Rightarrow> nat \<Rightarrow> unit attempt"
  ga_random :: "nat \<Rightarrow> rat"

definition call_outcome :: "'a call_result \<Rightarrow> provider_failure + 'a" where
  "call_outcome r = (case r of
     Done_ok x \<Rightarrow> Inr x | Auth_error m _ \<Rightarrow> Inl (Rejected m) | other \<Rightarrow> Inl (Failed (call_failure other)))"

definition gmail_options :: "string \<Rightarrow> nat \<Rightarrow> retry_options" where
  "gmail_options label time = default_options\<lparr>rto_label := label, rto_timeoutMs := time\<rparr>"

definition max_pages :: nat where
  "max_pages = 10"

definition default_gmail_page :: int where
  "default_gmail_page = 50"

definition hard_message_cap :: int where
  "hard_message_cap = 200"

definition watermark_overlap_ms :: int where
  "watermark_overlap_ms = 60 * 60 * 1000"

definition build_query :: "int option \<Rightarrow> string" where
  "build_query since =
     (case since of
        None \<Rightarrow> ''is:unread''
      | Some t \<Rightarrow> ''is:unread after:'' @ show_int (max ((t - watermark_overlap_ms) div 1000) 0))"

text \<open>The options of a fetch; an absent or zero number falls back to its default.\<close>

record fetch_filter =
  ff_maxResults :: "int option"
  ff_maxMessages :: "int option"
  ff_since :: "int option"

definition number_or :: "int option \<Rightarrow> int \<Rightarrow> int" where
  "number_or n d = (case n of None \<Rightarrow> d | Some x \<Rightarrow> if x = 0 then d else x)"

definition page_size :: "fetch_filter \<Rightarrow> int" where
  "page_size ff = min (number_or (ff_maxResults ff) default_gmail_page) 100"

definition max_messages :: "fetch_filter \<Rightarrow> int" where
  "max_messages ff = min (number_or (ff_maxMessages ff) hard_message_cap) hard_message_cap"

definition list_page :: "gmail_api \<Rightarrow> fetch_filter \<Rightarrow> string option \<Rightarrow> provider_failure + message_list" where
  "list_page api ff token = call_outcome (fst (call_external (gmail_options ''Gmail messages.list'' 20000)
     (ga_list api (build_query (ff_since ff)) (page_size ff) token) (ga_random api)))"

definition get_message :: "gmail_api \<Rightarrow> string \<Rightarrow> provider_failure + gmail_message" where
  "get_message api i = call_outcome (fst (call_external (gmail_options ''Gmail messages.get'' 20000) (ga_get api i) (ga_random api)))"

definition mark_read :: "gmail_api \<Rightarrow> string \<Rightarrow> provider_failure + unit" where
  "mark_read api i = call_outcome (fst (call_external (gmail_options ''Gmail messages.modify'' 15000) (ga_modify api i) (ga_random api)))"

section \<open>The fetch loop\<close>

record fetch_state =
  fs_emails :: "parsed_email list"
  fs_pages :: nat
  fs_truncated :: bool
  fs_cursor :: "string option"

text \<open>The highest history id, a decimal number, seen so far.\<close>

definition later_cursor :: "string option \<Rightarrow> string option \<Rightarrow> string option" where
  "later_cursor historyId cursor =
     (if truthy historyId \<and> (cursor = None \<or> read_nat (the cursor) < read_nat (the historyId)) then historyId else cursor)"

definition read_message :: "mail_lib \<Rightarrow> gmail_api \<Rightarrow> int \<Rightarrow> string \<Rightarrow> provider_failure + (parsed_email \<times> string option)" where
  "read_message lib api time i =
     (case get_message api i of
        Inl err \<Rightarrow> Inl err
      | Inr full \<Rightarrow>
          (case parse_message lib time full of
             None \<Rightarrow> Inl (Failed (Thrown ''Invalid code point''))
           | Some mail \<Rightarrow> Inr (mail, gm_historyId full)))"

fun fetch_messages :: "mail_lib \<Rightarrow> gmail_api \<Rightarrow> fetch_filter \<Rightarrow> int \<Rightarrow> string option list \<Rightarrow> fetch_state \<Rightarrow> provider_failure + fetch_state" where
  "fetch_messages lib api ff time [] st = Inr st"
| "fetch_messages lib api ff time (i # ids) st =
     (if \<not> truthy i then fetch_messages lib api ff time ids st
      else if max_messages ff \<le> int (length (fs_emails st)) then Inr (st\<lparr>fs_truncated := True\<rparr>)
      else case read_message lib api time (the i) of
          Inl err \<Rightarrow> Inl err
        | Inr (mail, historyId) \<Rightarrow>
            fetch_messages lib api ff time ids
              (st\<lparr>fs_emails := fs_emails st @ [mail], fs_cursor := later_cursor historyId (fs_cursor st)\<rparr>))"

text \<open>One turn of the loop: the state after it, and the token to go on with, if any.\<close>

definition fetch_page :: "mail_lib \<Rightarrow> gmail_api \<Rightarrow> fetch_filter \<Rightarrow> int \<Rightarrow> string option \<Rightarrow> fetch_state \<Rightarrow> provider_failure + (fetch_state \<times> string option)" where
  "fetch_page lib api ff time token st =
     (case list_page api ff token of
        Inl err \<Rightarrow> Inl err
      | Inr l \<Rightarrow>
          (case fetch_messages lib api ff time (ml_messages l) st of
             Inl err \<Rightarrow> Inl err
           | Inr st1 \<Rightarrow>
               (let st2 = st1\<lparr>fs_pages := Suc (fs_pages st)\<rparr>
                in if \<not> truthy (ml_nextPageToken l) then Inr (st2, None)
                   else if max_pages \<le> fs_pages st2 \<or> max_messages ff \<le> int (length (fs_emails st2))
                   then Inr (st2\<lparr>fs_truncated := True\<rparr>, None)
                   else Inr (st2, ml_nextPageToken l))))"

lemma fetch_page_next:
  "fetch_page lib api ff time token st = Inr (st', Some next) \<Longrightarrow> fs_pages st' = Suc (fs_pages st) \<and> fs_pages st' < max_pages"
  by (auto simp: fetch_page_def Let_def split: sum.splits if_splits)

function fetch_pages :: "mail_lib \<Rightarrow> gmail_api \<Rightarrow> fetch_filter \<Rightarrow> int \<Rightarrow> string option \<Rightarrow> fetch_state \<Rightarrow> provider_failure + fetch_state" where
  "fetch_pages lib api ff time token st =
     (case fetch_page lib api ff time token st of
        Inl err \<Rightarrow> Inl err
      | Inr (st', None) \<Rightarrow> Inr st'
      | Inr (st', Some next) \<Rightarrow> fetch_pages lib api ff time (Some next) st')"
  by pat_completeness auto
termination
  by (relation "measure (\<lambda>(_, _, _, _, _, st). max_pages - fs_pages st)") (auto dest: fetch_page_next)

declare fetch_pages.simps [simp del]

definition start_fetch :: fetch_state where
  "start_fetch = \<lparr>fs_emails = [], fs_pages = 0, fs_truncated = False, fs_cursor = None\<rparr>"

definition fetch_unread :: "mail_lib \<Rightarrow> gmail_api \<Rightarrow> int \<Rightarrow> fetch_filter \<Rightarrow> provider_failure + fetch_state" where
  "fetch_unread lib api time ff = fetch_pages lib api ff time None start_fetch"

section \<open>Turning the mails into tasks\<close>

record sync_report =
  sr_created :: "(string \<times> string \<times> bool \<times> rat) list"
  sr_skippedAlreadyProcessed :: nat
  sr_failed :: "(string \<times> string) list"
  sr_totalFetched :: nat
  sr_moreAvailable :: bool

definition mail_of :: "parsed_email \<Rightarrow> inbound_email" where
  "mail_of m = \<lparr>ie_sourceId = pe_gmailMessageId m, ie_from = pe_from m, ie_subject = pe_subject m,
     ie_bodyText = (if pe_bodyText m = [] then pe_snippet m else pe_bodyText m)\<rparr>"

text \<open>The report after one mail, and the ids Gmail really marked as read.\<close>

definition report_outcome :: "parsed_email \<Rightarrow> http_error + ingest_outcome \<Rightarrow> sync_report \<Rightarrow> sync_report" where
  "report_outcome m r rep =
     (case r of
        Inl err \<Rightarrow> rep\<lparr>sr_failed := sr_failed rep @ [(pe_gmailMessageId m, error_message err)]\<rparr>
      | Inr Skipped \<Rightarrow> rep\<lparr>sr_skippedAlreadyProcessed := Suc (sr_skippedAlreadyProcessed rep)\<rparr>
      | Inr (Created taskId matched conf) \<Rightarrow>
          rep\<lparr>sr_created := sr_created rep @ [(taskId, pe_gmailMessageId m, matched, conf)]\<rparr>)"

definition mark_read_quietly :: "gmail_api \<Rightarrow> string \<Rightarrow> string list \<Rightarrow> string list" where
  "mark_read_quietly api i marked = (case mark_read api i of Inl _ \<Rightarrow> marked | Inr _ \<Rightarrow> marked @ [i])"

fun ingest_all :: "brain \<Rightarrow> gmail_api \<Rightarrow> env \<Rightarrow> string \<Rightarrow> parsed_email list \<Rightarrow> sync_report \<times> string list \<Rightarrow> db \<Rightarrow> (sync_report \<times> string list) \<times> db" where
  "ingest_all br api e tid [] acc db = (acc, db)"
| "ingest_all br api e tid (m # ms) (rep, marked) db =
     (case ingest br e tid (mail_of m) db of
        (r, db1) \<Rightarrow>
          ingest_all br api e tid ms
            (report_outcome m r rep, (case r of Inl _ \<Rightarrow> marked | Inr _ \<Rightarrow> mark_read_quietly api (pe_gmailMessageId m) marked)) db1)"

text \<open>Getting the mails: the connector, then the loop. A rejected credential is recorded.\<close>

definition fetch_for_sync ::
  "cipher_lib \<Rightarrow> key_env \<Rightarrow> mail_lib \<Rightarrow> gmail_api \<Rightarrow> env \<Rightarrow> string \<Rightarrow> fetch_filter \<Rightarrow> fetch_state svc" where
  "fetch_for_sync clib kenv lib api e tid ff db =
     (case get_connector clib kenv e tid GMAIL db of
        (Inl err, db1) \<Rightarrow> (Inl err, db1)
      | (Inr c, db1) \<Rightarrow>
          (case (case ensure_authenticated c of Inl err \<Rightarrow> Inl err | Inr _ \<Rightarrow> fetch_unread lib api (now e) ff) of
             Inr st \<Rightarrow> (Inr st, db1)
           | Inl (Failed err) \<Rightarrow> (Inl err, db1)
           | Inl (Rejected m) \<Rightarrow>
               (case mark_expired e tid GMAIL m db1 of
                  (Inl err, db2) \<Rightarrow> (Inl err, db2)
                | (Inr _, db2) \<Rightarrow> (Inl (Thrown m), db2))))"

definition sync_gmail ::
  "cipher_lib \<Rightarrow> key_env \<Rightarrow> mail_lib \<Rightarrow> brain \<Rightarrow> gmail_api \<Rightarrow> env \<Rightarrow> string \<Rightarrow> int option \<Rightarrow> (sync_report \<times> string list) svc" where
  "sync_gmail clib kenv lib br api e tid maxMessages db =
     (case get_sync_state tid GMAIL db of
        (Inl err, db0) \<Rightarrow> (Inl err, db0)
      | (Inr (lastSyncedAt, _), db0) \<Rightarrow>
          (case fetch_for_sync clib kenv lib api e tid \<lparr>ff_maxResults = None, ff_maxMessages = maxMessages, ff_since = lastSyncedAt\<rparr> db0 of
             (Inl err, db1) \<Rightarrow> (Inl err, db1)
           | (Inr st, db1) \<Rightarrow>
               (case ingest_all br api e tid (fs_emails st)
                   (\<lparr>sr_created = [], sr_skippedAlreadyProcessed = 0, sr_failed = [], sr_totalFetched = length (fs_emails st),
                     sr_moreAvailable = fs_truncated st\<rparr>, []) db1 of
                  (res, db2) \<Rightarrow>
                    if fs_truncated st then (Inr res, db2)
                    else (case record_sync_success tid GMAIL (now e) (fs_cursor st) db2 of
                            (Inl err, db3) \<Rightarrow> (Inl err, db3)
                          | (Inr _, db3) \<Rightarrow> (Inr res, db3)))))"

section \<open>The fetch is bounded and, unless cut, complete\<close>

definition page_ids :: "message_list \<Rightarrow> string list" where
  "page_ids l = map the (filter truthy (ml_messages l))"

text \<open>The ids of all pages from a token on.\<close>

inductive listed :: "gmail_api \<Rightarrow> fetch_filter \<Rightarrow> string option \<Rightarrow> string list \<Rightarrow> bool" for api ff where
  last_page: "list_page api ff token = Inr l \<Longrightarrow> \<not> truthy (ml_nextPageToken l) \<Longrightarrow> listed api ff token (page_ids l)"
| more_pages: "list_page api ff token = Inr l \<Longrightarrow> truthy (ml_nextPageToken l) \<Longrightarrow> listed api ff (ml_nextPageToken l) ids
    \<Longrightarrow> listed api ff token (page_ids l @ ids)"

definition read_as :: "mail_lib \<Rightarrow> gmail_api \<Rightarrow> int \<Rightarrow> string \<Rightarrow> parsed_email \<Rightarrow> bool" where
  "read_as lib api time i m \<longleftrightarrow> (\<exists>h. read_message lib api time i = Inr (m, h))"

lemma hard_cap: "max_messages ff \<le> 200"
  by (simp add: max_messages_def hard_message_cap_def)

lemma fetch_messages_result:
  assumes "fetch_messages lib api ff time ids st = Inr st'" and "length (fs_emails st) \<le> 200"
  shows "length (fs_emails st') \<le> 200 \<and> fs_pages st' = fs_pages st
    \<and> (\<exists>ms. fs_emails st' = fs_emails st @ ms
        \<and> (\<not> fs_truncated st' \<longrightarrow> \<not> fs_truncated st \<and> list_all2 (read_as lib api time) (map the (filter truthy ids)) ms))"
  using assms
proof (induction ids arbitrary: st)
  case (Cons i ids)
  consider "\<not> truthy i" | "truthy i" "max_messages ff \<le> int (length (fs_emails st))"
    | m h where "truthy i" "int (length (fs_emails st)) < max_messages ff" "read_message lib api time (the i) = Inr (m, h)"
    using Cons.prems(1) by (force split: if_splits sum.splits)
  then show ?case
  proof cases
    case 3
    then have "length (fs_emails st @ [m]) \<le> 200" using hard_cap [of ff] by simp
    moreover have "fetch_messages lib api ff time ids (st\<lparr>fs_emails := fs_emails st @ [m], fs_cursor := later_cursor h (fs_cursor st)\<rparr>) = Inr st'"
      using 3 Cons.prems(1) by simp
    ultimately have "length (fs_emails st') \<le> 200 \<and> fs_pages st' = fs_pages st \<and> (\<exists>ms. fs_emails st' = (fs_emails st @ [m]) @ ms
        \<and> (\<not> fs_truncated st' \<longrightarrow> \<not> fs_truncated st \<and> list_all2 (read_as lib api time) (map the (filter truthy ids)) ms))"
      using Cons.IH [of "st\<lparr>fs_emails := fs_emails st @ [m], fs_cursor := later_cursor h (fs_cursor st)\<rparr>"] by simp
    then obtain ms where ms: "length (fs_emails st') \<le> 200" "fs_pages st' = fs_pages st" "fs_emails st' = fs_emails st @ [m] @ ms"
      "\<not> fs_truncated st' \<longrightarrow> \<not> fs_truncated st \<and> list_all2 (read_as lib api time) (map the (filter truthy ids)) ms"
      by (elim conjE exE) (rule that; force)
    from 3 have "read_as lib api time (the i) m" by (auto simp: read_as_def)
    with ms 3 show ?thesis by (intro conjI exI [of _ "m # ms"]) auto
  qed (use Cons in auto)
qed simp

lemma fetch_page_result:
  assumes "fetch_page lib api ff time token st = Inr (st', next)" and "length (fs_emails st) \<le> 200"
  shows "length (fs_emails st') \<le> 200 \<and> fs_pages st' = Suc (fs_pages st)
    \<and> (\<exists>l ms. list_page api ff token = Inr l \<and> fs_emails st' = fs_emails st @ ms
        \<and> (next = None \<or> next = ml_nextPageToken l \<and> truthy next)
        \<and> (\<not> fs_truncated st' \<longrightarrow> \<not> fs_truncated st \<and> list_all2 (read_as lib api time) (page_ids l) ms
             \<and> (next = None \<longrightarrow> \<not> truthy (ml_nextPageToken l))))"
proof -
  from assms(1) obtain l st1 where l: "list_page api ff token = Inr l"
    and m: "fetch_messages lib api ff time (ml_messages l) st = Inr st1"
    by (auto simp: fetch_page_def split: sum.splits)
  from fetch_messages_result [OF m assms(2), folded page_ids_def] obtain ms where ms: "length (fs_emails st1) \<le> 200" "fs_emails st1 = fs_emails st @ ms"
    "\<not> fs_truncated st1 \<longrightarrow> \<not> fs_truncated st \<and> list_all2 (read_as lib api time) (page_ids l) ms"
    by (elim conjE exE) (rule that, assumption+)
  show ?thesis
    using assms(1) l m ms by (intro conjI exI [of _ l] exI [of _ ms]) (cases "ml_nextPageToken l"; auto simp: fetch_page_def Let_def split: if_splits)+
qed

lemma fetch_pages_result:
  assumes "fetch_pages lib api ff time token st = Inr st'" and "length (fs_emails st) \<le> 200" and "fs_pages st < max_pages"
  shows "length (fs_emails st') \<le> 200 \<and> fs_pages st' \<le> max_pages
    \<and> (\<exists>ms. fs_emails st' = fs_emails st @ ms
        \<and> (\<not> fs_truncated st' \<longrightarrow> \<not> fs_truncated st \<and> (\<exists>ids. listed api ff token ids \<and> list_all2 (read_as lib api time) ids ms)))"
  using assms
proof (induction lib api ff time token st arbitrary: st' rule: fetch_pages.induct)
  case (1 lib api ff time token st)
  from 1(2) obtain st1 "next" where p: "fetch_page lib api ff time token st = Inr (st1, next)"
    by (subst (asm) fetch_pages.simps) (auto split: sum.splits)
  from fetch_page_result [OF p 1(3)] obtain l ms where
    r: "length (fs_emails st1) \<le> 200" "fs_pages st1 = Suc (fs_pages st)" "list_page api ff token = Inr l"
      "fs_emails st1 = fs_emails st @ ms" "next = None \<or> next = ml_nextPageToken l \<and> truthy next"
    and c: "\<not> fs_truncated st1 \<longrightarrow> \<not> fs_truncated st \<and> list_all2 (read_as lib api time) (page_ids l) ms
             \<and> (next = None \<longrightarrow> \<not> truthy (ml_nextPageToken l))"
    by (elim conjE exE) (rule that, assumption+)
  show ?case
  proof (cases "next")
    case None
    with 1(2) p have "st' = st1" by (subst (asm) fetch_pages.simps) simp
    with r c None 1(4) show ?thesis using listed.last_page [OF r(3)] by auto
  next
    case (Some tok)
    with p 1(2) have go: "fetch_pages lib api ff time (Some tok) st1 = Inr st'" by (subst (asm) fetch_pages.simps) simp
    from fetch_page_next [OF p [unfolded Some]] have "fs_pages st1 < max_pages" by simp
    from 1(1) [OF p refl Some go r(1) this] obtain ms' where
      m: "length (fs_emails st') \<le> 200" "fs_pages st' \<le> max_pages" "fs_emails st' = fs_emails st1 @ ms'"
        "\<not> fs_truncated st' \<longrightarrow> \<not> fs_truncated st1 \<and> (\<exists>ids. listed api ff (Some tok) ids \<and> list_all2 (read_as lib api time) ids ms')"
      by (elim conjE exE) (rule that, assumption+)
    have "\<exists>ids. listed api ff token ids \<and> list_all2 (read_as lib api time) ids (ms @ ms')" if "\<not> fs_truncated st'"
    proof -
      from m(4) that obtain ids where "listed api ff (Some tok) ids" "list_all2 (read_as lib api time) ids ms'" "\<not> fs_truncated st1" by blast
      moreover from r(5) Some have tok: "ml_nextPageToken l = Some tok" by auto
      moreover have "truthy (ml_nextPageToken l)" using r(5) Some tok by simp
      ultimately have "listed api ff token (page_ids l @ ids)" using listed.more_pages [OF r(3)] by simp
      with c \<open>\<not> fs_truncated st1\<close> \<open>list_all2 (read_as lib api time) ids ms'\<close> show ?thesis by (blast intro: list_all2_appendI)
    qed
    with m r c show ?thesis by (intro conjI exI [of _ "ms @ ms'"]) auto
  qed
qed

text \<open>C30. A synchronisation reads at most 200 mails of at most 10 pages, and unless it says it
  was truncated it has read every listed mail.\<close>
theorem fetch_is_bounded_and_complete:
  assumes "fetch_unread lib api time ff = Inr st"
  shows "length (fs_emails st) \<le> 200 \<and> fs_pages st \<le> 10
    \<and> (\<not> fs_truncated st \<longrightarrow> (\<exists>ids. listed api ff None ids \<and> list_all2 (read_as lib api time) ids (fs_emails st)))"
  using fetch_pages_result [OF assms [unfolded fetch_unread_def]] by (auto simp: start_fetch_def max_pages_def)

section \<open>One unreadable mail stops the synchronisation\<close>

lemma unreadable_in_page:
  assumes "i \<in> set (take n (map the (filter truthy ids)))" and "\<And>m h. read_message lib api time i \<noteq> Inr (m, h)"
    and "int (length (fs_emails st)) + int n \<le> max_messages ff"
  shows "\<exists>err. fetch_messages lib api ff time ids st = Inl err"
  using assms(1,3)
proof (induction ids arbitrary: st n)
  case (Cons j ids)
  show ?case
  proof (cases "truthy j")
    case True
    with Cons.prems(1) obtain k where n: "n = Suc k" by (cases n) auto
    show ?thesis
    proof (cases "read_message lib api time (the j)")
      case (Inr mh)
      obtain m h where mh: "mh = (m, h)" by fastforce
      with Inr assms(2) have "the j \<noteq> i" by auto
      with Cons.prems n True have "i \<in> set (take k (map the (filter truthy ids)))" by auto
      from Cons.IH [OF this, of "st\<lparr>fs_emails := fs_emails st @ [m], fs_cursor := later_cursor h (fs_cursor st)\<rparr>"]
      show ?thesis using Cons.prems(2) True Inr mh n by auto
    qed (use True Cons.prems n in auto)
  qed (use Cons in auto)
qed simp

lemma unreadable_fetch:
  assumes "list_page api ff None = Inr l" and "i \<in> set (take n (page_ids l))" and "int n \<le> max_messages ff"
    and "get_message api i = Inr msg" and "parse_message lib time msg = None"
  shows "\<exists>err. fetch_unread lib api time ff = Inl err"
proof -
  have "read_message lib api time i \<noteq> Inr (m, h)" for m h
    using assms(4,5) by (simp add: read_message_def)
  with assms(1,2,3) unreadable_in_page [of i n "ml_messages l" lib api time start_fetch ff] show ?thesis
    by (auto simp: fetch_unread_def fetch_pages.simps fetch_page_def page_ids_def start_fetch_def)
qed

text \<open>What fetching leaves alone: the tasks, the other tenants and the watermark.\<close>

definition same_mark :: "string \<Rightarrow> db \<Rightarrow> db \<Rightarrow> bool" where
  "same_mark tid db db' \<longleftrightarrow> tasks db' = tasks db \<and> others tid db' = others tid db
     \<and> map_option in_lastSyncedAt (integration_of tid GMAIL db') = map_option in_lastSyncedAt (integration_of tid GMAIL db)"

lemma same_mark_refl [simp]: "same_mark tid db db"
  by (simp add: same_mark_def)

lemma same_mark_trans: "same_mark tid db1 db2 \<Longrightarrow> same_mark tid db2 db3 \<Longrightarrow> same_mark tid db1 db3"
  by (simp add: same_mark_def)

lemma update_tasks: "update_integration tid p f db = Inr (n, db') \<Longrightarrow> tasks db' = tasks db"
  by (auto simp: update_integration_def case_prod_beta)

lemma same_mark_failed: "same_mark tid db (snd (for_tenant tid (update_integration tid p (failed_row e st m)) db))"
proof (rule for_tenant_preserves)
  show "same_mark tid db db'" if "update_integration tid p (failed_row e st m) db = Inr (n, db')" for n db'
    using integration_of_update [OF that, of tid GMAIL] update_tasks [OF that] others_update_integration [OF _ that]
    by (auto simp: same_mark_def failed_row_def option.map_comp comp_def)
qed simp

lemma same_mark_connector: "same_mark tid db (snd (get_connector clib kenv e tid p db))"
  using get_connector_db [of clib kenv e tid p db] same_mark_failed by (auto simp: mark_error_def)

lemma connector_unchanged: "get_connector clib kenv e tid p db = (Inr c, db') \<Longrightarrow> db' = db \<and> is_uuid tid"
  by (auto simp: get_connector_def for_tenant_def find_integration_tx_def split: sum.splits if_splits option.splits prod.splits secret_error.splits)

lemma fetch_for_sync_ok:
  "fetch_for_sync clib kenv lib api e tid ff db = (Inr st, db') \<longleftrightarrow>
     db' = db \<and> fetch_unread lib api (now e) ff = Inr st
     \<and> (\<exists>c. get_connector clib kenv e tid GMAIL db = (Inr c, db) \<and> ensure_authenticated c = Inr ())"
  (is "?l \<longleftrightarrow> ?r")
proof
  assume ?l
  then obtain c db1 where c: "get_connector clib kenv e tid GMAIL db = (Inr c, db1)"
    by (auto simp: fetch_for_sync_def split: sum.splits prod.splits)
  with connector_unchanged [OF c] \<open>?l\<close> show ?r
    by (auto simp: fetch_for_sync_def split: sum.splits prod.splits provider_failure.splits)
qed (auto simp: fetch_for_sync_def)

lemma same_mark_fetch: "fetch_for_sync clib kenv lib api e tid ff db = (r, db') \<Longrightarrow> same_mark tid db db'"
proof -
  assume a: "fetch_for_sync clib kenv lib api e tid ff db = (r, db')"
  obtain r1 db1 where c: "get_connector clib kenv e tid GMAIL db = (r1, db1)" by fastforce
  then have s: "same_mark tid db db1" using same_mark_connector [of tid db clib kenv e GMAIL] by simp
  have m: "same_mark tid db1 db2" if "mark_expired e tid GMAIL m db1 = (r2, db2)" for m r2 db2
    using that same_mark_failed [of tid db1 GMAIL e INT_EXPIRED m] by (simp add: mark_expired_def)
  show ?thesis
    using a c s by (auto simp: fetch_for_sync_def split: sum.splits prod.splits provider_failure.splits
      dest!: m intro: same_mark_trans)
qed

lemma sync_state: "is_uuid tid \<Longrightarrow> get_sync_state tid GMAIL db =
    (Inr (case integration_of tid GMAIL db of None \<Rightarrow> (None, None) | Some r \<Rightarrow> (in_lastSyncedAt r, in_syncCursor r)), db)"
  by (simp add: get_sync_state_def for_tenant_def integration_of_def)

text \<open>The options syncGmail fetches with.\<close>

definition sync_filter :: "string \<Rightarrow> int option \<Rightarrow> db \<Rightarrow> fetch_filter" where
  "sync_filter tid maxMessages db = \<lparr>ff_maxResults = None, ff_maxMessages = maxMessages,
     ff_since = (case integration_of tid GMAIL db of None \<Rightarrow> None | Some r \<Rightarrow> in_lastSyncedAt r)\<rparr>"

definition first_report :: "fetch_state \<Rightarrow> sync_report" where
  "first_report st = \<lparr>sr_created = [], sr_skippedAlreadyProcessed = 0, sr_failed = [], sr_totalFetched = length (fs_emails st),
     sr_moreAvailable = fs_truncated st\<rparr>"

lemma sync_gmail_cases:
  assumes "is_uuid tid"
  shows "sync_gmail clib kenv lib br api e tid maxMessages db =
     (case fetch_for_sync clib kenv lib api e tid (sync_filter tid maxMessages db) db of
        (Inl err, db1) \<Rightarrow> (Inl err, db1)
      | (Inr st, db1) \<Rightarrow>
          (case ingest_all br api e tid (fs_emails st) (first_report st, []) db1 of
             (res, db2) \<Rightarrow>
               if fs_truncated st then (Inr res, db2)
               else (case record_sync_success tid GMAIL (now e) (fs_cursor st) db2 of
                       (Inl err, db3) \<Rightarrow> (Inl err, db3) | (Inr _, db3) \<Rightarrow> (Inr res, db3))))"
  unfolding sync_gmail_def sync_filter_def first_report_def sync_state [OF assms]
  by (cases "integration_of tid GMAIL db") simp_all

lemma sync_no_uuid: "\<not> is_uuid tid \<Longrightarrow> \<exists>err. sync_gmail clib kenv lib br api e tid maxMessages db = (Inl err, db)"
  by (simp add: sync_gmail_def get_sync_state_def for_tenant_def)

theorem unreadable_mail_stops_sync:
  assumes "\<And>ff. list_page api ff None = Inr l" and "i \<in> set (take 200 (page_ids l))"
    and "get_message api i = Inr msg" and "parse_message lib (now e) msg = None"
  shows "\<exists>err db'. sync_gmail clib kenv lib br api e tid None db = (Inl err, db') \<and> tasks db' = tasks db
    \<and> map_option in_lastSyncedAt (integration_of tid GMAIL db') = map_option in_lastSyncedAt (integration_of tid GMAIL db)"
proof (cases "is_uuid tid")
  case True
  let ?ff = "sync_filter tid None db"
  have "int 200 \<le> max_messages ?ff" by (simp add: max_messages_def number_or_def hard_message_cap_def sync_filter_def)
  from unreadable_fetch [OF assms(1) assms(2) this assms(3,4)] obtain err where no: "fetch_unread lib api (now e) ?ff = Inl err" by blast
  obtain r db1 where f: "fetch_for_sync clib kenv lib api e tid ?ff db = (r, db1)" by fastforce
  with no fetch_for_sync_ok obtain err' where "r = Inl err'" by (cases r) fastforce+
  with f same_mark_fetch [OF f] show ?thesis by (auto simp: sync_gmail_cases [OF True] same_mark_def)
qed (use sync_no_uuid in fastforce)

section \<open>One failing mail does not stop the others\<close>

definition made_task :: "string \<Rightarrow> string \<times> string \<times> bool \<times> rat \<Rightarrow> db \<Rightarrow> bool" where
  "made_task tid c db \<longleftrightarrow> list_ex (\<lambda>t. t_id t = fst c \<and> t_tenantId t = tid \<and> t_sourceEmailId t = Some (fst (snd c))) (tasks db)"

lemma made_grown: "grown tid db db' \<Longrightarrow> made_task tid c db \<Longrightarrow> made_task tid c db'"
  by (auto simp: made_task_def grown_def)

lemma ingested_made:
  assumes "ingest br e tid mail db = (Inr (Created i matched conf), db')"
  shows "made_task tid (i, ie_sourceId mail, matched, conf) db'"
proof -
  from assms obtain cid x db3 t where made: "create_from_email e tid (mail_task_params mail cid x) db3 = (Inr t, db')" and "i = t_id t"
    by (auto simp: ingest_def split: sum.splits prod.splits bool.splits if_splits)
  with created_from_email [OF made] show ?thesis by (simp add: made_task_def mail_task_params_def)
qed

definition report_ok :: "string \<Rightarrow> sync_report \<times> string list \<Rightarrow> db \<Rightarrow> bool" where
  "report_ok tid acc db \<longleftrightarrow> (\<forall>c \<in> set (sr_created (fst acc)). made_task tid c db) \<and> (\<forall>i \<in> set (snd acc). known_message tid i db)"

definition reported :: "sync_report \<Rightarrow> nat" where
  "reported rep = length (sr_created rep) + sr_skippedAlreadyProcessed rep + length (sr_failed rep)"

definition step_acc :: "gmail_api \<Rightarrow> parsed_email \<Rightarrow> http_error + ingest_outcome \<Rightarrow> sync_report \<times> string list \<Rightarrow> sync_report \<times> string list" where
  "step_acc api m r acc = (report_outcome m r (fst acc),
     (case r of Inl _ \<Rightarrow> snd acc | Inr _ \<Rightarrow> mark_read_quietly api (pe_gmailMessageId m) (snd acc)))"

lemma ingest_all_Cons:
  "ingest br e tid (mail_of m) db = (r, db1) \<Longrightarrow>
     ingest_all br api e tid (m # ms) acc db = ingest_all br api e tid ms (step_acc api m r acc) db1"
  by (cases acc; cases r) (simp_all add: step_acc_def)

declare ingest_all.simps(2) [simp del]

lemma step_acc_ok:
  assumes run: "ingest br e tid (mail_of m) db = (r, db1)" and ok: "report_ok tid acc db"
  shows "report_ok tid (step_acc api m r acc) db1" and "reported (fst (step_acc api m r acc)) = Suc (reported (fst acc))"
    and "known_message tid (pe_gmailMessageId m) db1 \<or> pe_gmailMessageId m \<in> fst ` set (sr_failed (fst (step_acc api m r acc)))"
    and "set (sr_failed (fst acc)) \<subseteq> set (sr_failed (fst (step_acc api m r acc)))"
proof -
  have src: "ie_sourceId (mail_of m) = pe_gmailMessageId m" by (simp add: mail_of_def)
  note g = ingest_grows [OF run]
  have old: "report_ok tid acc db1" using ok made_grown [OF g] known_grown [OF g] by (simp add: report_ok_def)
  have new: "known_message tid (pe_gmailMessageId m) db1" if "r = Inr x" for x
    using ingested_known [OF run [unfolded that]] src by simp
  have made: "made_task tid (i, pe_gmailMessageId m, matched, conf) db1" if "r = Inr (Created i matched conf)" for i matched conf
    using ingested_made [OF run [unfolded that]] src by simp
  show "report_ok tid (step_acc api m r acc) db1"
    using old new made by (auto simp: report_ok_def step_acc_def report_outcome_def mark_read_quietly_def
        split: sum.splits ingest_outcome.splits)
  show "reported (fst (step_acc api m r acc)) = Suc (reported (fst acc))"
    by (simp add: reported_def step_acc_def report_outcome_def split: sum.splits ingest_outcome.splits)
  show "known_message tid (pe_gmailMessageId m) db1 \<or> pe_gmailMessageId m \<in> fst ` set (sr_failed (fst (step_acc api m r acc)))"
    using new by (cases r) (auto simp: step_acc_def report_outcome_def)
  show "set (sr_failed (fst acc)) \<subseteq> set (sr_failed (fst (step_acc api m r acc)))"
    by (auto simp: step_acc_def report_outcome_def split: sum.splits ingest_outcome.splits)
qed

lemma ingest_all_ok:
  assumes "ingest_all br api e tid ms acc db = (acc', db')" and "report_ok tid acc db"
  shows "grown tid db db' \<and> report_ok tid acc' db' \<and> reported (fst acc') = reported (fst acc) + length ms
    \<and> (\<forall>m \<in> set ms. known_message tid (pe_gmailMessageId m) db' \<or> pe_gmailMessageId m \<in> fst ` set (sr_failed (fst acc')))
    \<and> set (sr_failed (fst acc)) \<subseteq> set (sr_failed (fst acc'))
    \<and> sr_totalFetched (fst acc') = sr_totalFetched (fst acc) \<and> sr_moreAvailable (fst acc') = sr_moreAvailable (fst acc)"
  using assms
proof (induction ms arbitrary: acc db)
  case (Cons m ms)
  obtain r db1 where run: "ingest br e tid (mail_of m) db = (r, db1)" by fastforce
  note s = step_acc_ok [OF run Cons.prems(2), of api]
  have "sr_totalFetched (fst (step_acc api m r acc)) = sr_totalFetched (fst acc)"
    "sr_moreAvailable (fst (step_acc api m r acc)) = sr_moreAvailable (fst acc)"
    by (simp_all add: step_acc_def report_outcome_def split: sum.splits ingest_outcome.splits)
  with Cons.IH [OF Cons.prems(1) [unfolded ingest_all_Cons [OF run]] s(1)] s(2,3,4) grown_trans [OF ingest_grows [OF run]]
    known_grown [of tid db1 db' tid] show ?case by auto
qed simp

lemma synced_row_lemma:
  assumes "record_sync_success tid GMAIL time cursor db = (Inr n, db')"
  shows "tasks db' = tasks db \<and> others tid db' = others tid db
    \<and> integration_of tid GMAIL db' = map_option (synced_row time cursor) (integration_of tid GMAIL db)"
proof -
  from assms have u: "update_integration tid GMAIL (synced_row time cursor) db = Inr (n, db')"
    by (simp add: record_sync_success_def for_tenant_Inr)
  from integration_of_update [OF u, of tid GMAIL] update_tasks [OF u] others_update_integration [OF _ u] show ?thesis by simp
qed

text \<open>C31. The report of a synchronisation accounts for every fetched mail, each created entry has
  its task and each marked mail is known, tasks are only added, and the watermark moves on
  exactly when nothing more is available, failed mails or not.\<close>
theorem sync_isolates_failures:
  assumes "sync_gmail clib kenv lib br api e tid maxMessages db = (Inr (rep, marked), db')"
  shows "length (sr_created rep) + sr_skippedAlreadyProcessed rep + length (sr_failed rep) = sr_totalFetched rep \<and> sr_totalFetched rep \<le> 200
    \<and> (\<forall>c \<in> set (sr_created rep). made_task tid c db') \<and> (\<forall>i \<in> set marked. known_message tid i db')
    \<and> (\<exists>ts. tasks db' = tasks db @ ts) \<and> others tid db' = others tid db
    \<and> map_option in_lastSyncedAt (integration_of tid GMAIL db')
        = map_option (if sr_moreAvailable rep then in_lastSyncedAt else (\<lambda>r. Some (now e))) (integration_of tid GMAIL db)"
proof -
  have u: "is_uuid tid" using assms sync_no_uuid [of tid clib kenv lib br api e maxMessages db] by auto
  note s = assms [unfolded sync_gmail_cases [OF u]]
  obtain st where f: "fetch_for_sync clib kenv lib api e tid (sync_filter tid maxMessages db) db = (Inr st, db)"
    using s fetch_for_sync_ok by (auto split: sum.splits prod.splits)
  obtain acc db2 where i: "ingest_all br api e tid (fs_emails st) (first_report st, []) db = (acc, db2)" by fastforce
  have "report_ok tid (first_report st, []) db" by (simp add: report_ok_def first_report_def)
  note r = ingest_all_ok [OF i this]
  have acc: "acc = (rep, marked)" using s f i by (auto split: if_splits sum.splits prod.splits)
  have fin: "if fs_truncated st then db' = db2 else \<exists>n. record_sync_success tid GMAIL (now e) (fs_cursor st) db2 = (Inr n, db')"
    using s f i by (auto split: if_splits sum.splits prod.splits)
  have le: "length (fs_emails st) \<le> 200"
    using f fetch_pages_result [of lib api _ "now e" None start_fetch st]
    by (auto simp: fetch_for_sync_ok fetch_unread_def start_fetch_def max_pages_def)
  have more: "sr_moreAvailable rep = fs_truncated st" "sr_totalFetched rep = length (fs_emails st)"
    using r by (simp_all add: acc first_report_def)
  have i2: "integration_of tid GMAIL db2 = integration_of tid GMAIL db" using r by (simp add: grown_def integration_of_def)
  have same: "tasks db' = tasks db2 \<and> others tid db' = others tid db2 \<and> map_option in_lastSyncedAt (integration_of tid GMAIL db')
      = map_option (if sr_moreAvailable rep then in_lastSyncedAt else (\<lambda>r. Some (now e))) (integration_of tid GMAIL db)"
    using fin synced_row_lemma i2 more(1)
    by (cases "fs_truncated st") (fastforce simp: option.map_comp comp_def synced_row_def)+
  then have "report_ok tid (rep, marked) db'" using r acc by (simp add: report_ok_def made_task_def known_message_def)
  with r le more same acc show ?thesis
    by (auto simp: reported_def first_report_def report_ok_def grown_def)
qed

section \<open>Without the right to mark mails, a backlog stays\<close>

lemma read_message_any_time:
  assumes "\<And>i msg. get_message api i = Inr msg \<Longrightarrow> gm_internalDate msg \<noteq> None"
  shows "read_message lib api time i = read_message lib api time' i"
  using assms by (fastforce simp: read_message_def parse_message_def or_else_def Let_def split: sum.splits option.splits)

lemma fetch_messages_any_time:
  assumes "\<And>i. read_message lib api time i = read_message lib api time' i"
  shows "fetch_messages lib api ff time ids st = fetch_messages lib api ff time' ids st"
proof (induction ids arbitrary: st)
  case (Cons i ids)
  then show ?case using assms [of "the i"] by (auto split: sum.splits)
qed simp

lemma fetch_pages_any_time:
  assumes "\<And>i. read_message lib api time i = read_message lib api time' i"
  shows "fetch_pages lib api ff time token st = fetch_pages lib api ff time' token st"
  using assms
proof (induction lib api ff time token st rule: fetch_pages.induct)
  case (1 lib api ff time token st)
  have p: "fetch_page lib api ff time token st = fetch_page lib api ff time' token st"
    using fetch_messages_any_time [of lib api time time' ff] 1(2) by (cases "list_page api ff token") (simp_all add: fetch_page_def)
  show ?case
  proof (cases "fetch_page lib api ff time token st")
    case (Inr x)
    obtain st' n where x: "x = (st', n)" by fastforce
    show ?thesis
    proof (cases n)
      case (Some tok)
      from 1(1) [OF Inr [unfolded x] refl Some 1(2)] Inr x Some p show ?thesis
        by (simp add: fetch_pages.simps [of lib api ff time token] fetch_pages.simps [of lib api ff time' token])
    qed (use Inr x p in \<open>simp add: fetch_pages.simps\<close>)
  qed (use p in \<open>simp add: fetch_pages.simps\<close>)
qed

lemma connector_again:
  assumes "get_connector clib kenv e tid p db = (Inr c, db)" and "integrations db' = integrations db"
  shows "get_connector clib kenv e' tid p db' = (Inr c, db')"
  using assms
  by (auto simp: get_connector_def for_tenant_def find_integration_tx_def split: sum.splits if_splits option.splits prod.splits secret_error.splits)

lemma ingest_all_known:
  assumes "is_uuid tid" and "\<And>i. \<exists>err. mark_read api i = Inl err"
  shows "\<forall>m \<in> set ms. known_message tid (pe_gmailMessageId m) db \<Longrightarrow>
    ingest_all br api e tid ms acc db
      = (((fst acc)\<lparr>sr_skippedAlreadyProcessed := sr_skippedAlreadyProcessed (fst acc) + length ms\<rparr>, snd acc), db)"
proof (induction ms arbitrary: acc)
  case (Cons m ms)
  have run: "ingest br e tid (mail_of m) db = (Inr Skipped, db)"
    using Cons.prems ingested_again [OF assms(1), of "mail_of m" db] by (simp add: known_message_def mail_of_def)
  have "mark_read_quietly api (pe_gmailMessageId m) (snd acc) = snd acc"
    using assms(2) [of "pe_gmailMessageId m"] by (auto simp: mark_read_quietly_def)
  with Cons.IH [of "step_acc api m (Inr Skipped) acc"] Cons.prems show ?case
    by (simp add: ingest_all_Cons [OF run] step_acc_def report_outcome_def)
qed simp

theorem backlog_is_never_drained:
  assumes "sync_gmail clib kenv lib br api e tid maxMessages db = (Inr (rep, marked), db')"
    and "sr_moreAvailable rep" and "sr_failed rep = []"
    and "\<And>i. \<exists>err. mark_read api i = Inl err"
    and "\<And>i msg. get_message api i = Inr msg \<Longrightarrow> gm_internalDate msg \<noteq> None"
  shows "sync_gmail clib kenv lib br' api e' tid maxMessages db'
    = (Inr (\<lparr>sr_created = [], sr_skippedAlreadyProcessed = sr_totalFetched rep, sr_failed = [],
             sr_totalFetched = sr_totalFetched rep, sr_moreAvailable = True\<rparr>, []), db')"
proof -
  have u: "is_uuid tid" using assms(1) sync_no_uuid [of tid clib kenv lib br api e maxMessages db] by auto
  note s = assms(1) [unfolded sync_gmail_cases [OF u]]
  let ?ff = "sync_filter tid maxMessages db"
  obtain st where f: "fetch_for_sync clib kenv lib api e tid ?ff db = (Inr st, db)"
    using s fetch_for_sync_ok by (auto split: sum.splits prod.splits)
  obtain acc db2 where i: "ingest_all br api e tid (fs_emails st) (first_report st, []) db = (acc, db2)" by fastforce
  have "report_ok tid (first_report st, []) db" by (simp add: report_ok_def first_report_def)
  note r = ingest_all_ok [OF i this]
  have acc: "acc = (rep, marked)" using s f i by (auto split: if_splits sum.splits prod.splits)
  have more: "fs_truncated st" "sr_totalFetched rep = length (fs_emails st)"
    using r assms(2) by (simp_all add: acc first_report_def)
  then have db2: "db2 = db'" using s f i by simp
  have known: "\<forall>m \<in> set (fs_emails st). known_message tid (pe_gmailMessageId m) db'" using r assms(3) by (simp add: acc db2)
  have g: "integrations db' = integrations db" using r by (simp add: db2 grown_def)
  then have ff: "sync_filter tid maxMessages db' = ?ff" by (simp add: sync_filter_def integration_of_def)
  obtain c where "get_connector clib kenv e tid GMAIL db = (Inr c, db)" "ensure_authenticated c = Inr ()"
    and fetched: "fetch_unread lib api (now e) ?ff = Inr st"
    using f by (auto simp: fetch_for_sync_ok)
  moreover have "fetch_unread lib api (now e') ?ff = Inr st"
    using fetched fetch_pages_any_time [where lib = lib and api = api and ff = ?ff and time = "now e" and time' = "now e'" and token = None and st = start_fetch,
        OF read_message_any_time [OF assms(5)]]
    by (simp add: fetch_unread_def)
  ultimately have "fetch_for_sync clib kenv lib api e' tid ?ff db' = (Inr st, db')"
    using connector_again [OF _ g] by (auto simp: fetch_for_sync_ok)
  then show ?thesis
    using more ingest_all_known [OF u assms(4) known, of br' e' "(first_report st, [])"]
    by (simp add: sync_gmail_cases [OF u] ff first_report_def)
qed

section \<open>Witnesses\<close>

definition demo_part :: mime_part where
  "demo_part = Mime_part None [(''From'', ''x''), (''Subject'', ''Urgent'')] None []"

definition demo_message :: "string \<Rightarrow> gmail_message" where
  "demo_message i = \<lparr>gm_id = Some i, gm_threadId = None, gm_snippet = Some ''Ignore the rules'', gm_payload = Some demo_part,
     gm_internalDate = Some 1000, gm_historyId = None\<rparr>"

definition no_scope :: js_error where
  "no_scope = (plain_error ''insufficient scope'')\<lparr>je_code := Some (JNum 403)\<rparr>"

definition demo_api :: gmail_api where
  "demo_api = \<lparr>ga_list = (\<lambda>q n token k. Returned \<lparr>ml_messages = [Some ''m1'', Some ''m2''], ml_nextPageToken = None\<rparr>),
     ga_get = (\<lambda>i k. Returned (demo_message i)), ga_modify = (\<lambda>i k. Threw no_scope), ga_random = (\<lambda>k. 0)\<rparr>"

lemma demo_api_calls:
  "list_page demo_api ff token = Inr \<lparr>ml_messages = [Some ''m1'', Some ''m2''], ml_nextPageToken = None\<rparr>"
  "get_message demo_api i = Inr (demo_message i)"
  "mark_read demo_api i = Inl (Rejected ''Gmail messages.modify failed: credentials rejected by the provider'')"
  by (simp_all add: list_page_def get_message_def mark_read_def call_external_def attempt_loop.simps demo_api_def gmail_options_def
      default_options_def with_timeout_def call_outcome_def no_scope_def is_auth_failure_def error_fields_def plain_error_def
      coalesce_json_def)

lemma plain_text_kept: "CHR ''&'' \<notin> set s \<Longrightarrow> decode_html_entities s = Some s"
proof -
  assume a: "CHR ''&'' \<notin> set s"
  have front: "drop i s = s ! i # drop (Suc i) s \<and> s ! i \<noteq> CHR ''&''" if "i < length s" for i
    using a nth_mem [OF that] Cons_nth_drop_Suc [OF that] by metis
  have "named_entity (drop i s @ []) = None" if "i < length s" for i
    using front [OF that] by (auto simp: named_entity_def starts_with_def)
  with replace_all_skip [of s named_entity "[]"] plain_prefix_kept [OF a, of "[]"] show ?thesis
    by (simp add: decode_html_entities_def)
qed

lemma demo_parsed: "parse_message demo_mail_lib time (demo_message i) =
    Some \<lparr>pe_gmailMessageId = i, pe_threadId = [], pe_from = ''x'', pe_subject = ''Urgent'', pe_snippet = ''Ignore the rules'',
      pe_bodyText = [], pe_receivedAt = 1000\<rparr>"
proof -
  have "decode_html_entities ''Ignore the rules'' = Some ''Ignore the rules''"
    by (rule plain_text_kept) simp
  moreover have "extract_body_text demo_mail_lib (Some demo_part) = Some []"
    by (simp add: extract_body_text_def demo_part_def)
  moreover have "to_lower ''From'' \<noteq> to_lower ''Subject''" by (simp add: to_lower_def)
  then have "header_of (mp_headers demo_part) ''From'' = ''x''" "header_of (mp_headers demo_part) ''Subject'' = ''Urgent''"
    by (simp_all add: header_of_def demo_part_def)
  moreover have "\<not> has_infix ''=?'' ''x''" "\<not> has_infix ''=?'' ''Urgent''" by code_simp+
  then have "decode_mime_words demo_mail_lib ''x'' = ''x''" "decode_mime_words demo_mail_lib ''Urgent'' = ''Urgent''"
    by (simp_all only: decode_mime_words_def if_False)
  ultimately show ?thesis by (simp add: parse_message_def demo_message_def or_else_def)
qed

lemma demo_fetch: "\<exists>st. fetch_unread demo_mail_lib demo_api time \<lparr>ff_maxResults = None, ff_maxMessages = Some 1, ff_since = s\<rparr> = Inr st
    \<and> map mail_of (fs_emails st) = [demo_mail] \<and> fs_truncated st"
proof -
  obtain st where "fetch_page demo_mail_lib demo_api \<lparr>ff_maxResults = None, ff_maxMessages = Some 1, ff_since = s\<rparr> time None start_fetch
      = Inr (st, None)" and "map mail_of (fs_emails st) = [demo_mail]" and "fs_truncated st"
    by (simp add: fetch_page_def demo_api_calls read_message_def demo_parsed start_fetch_def max_messages_def number_or_def
        hard_message_cap_def mail_of_def demo_mail_def)
  then show ?thesis by (simp add: fetch_unread_def) (subst fetch_pages.simps, simp)
qed

lemma demo_account:
  "\<exists>row. in_tenantId row = demo_tenant \<and> (\<forall>e db. integrations db = [row] \<longrightarrow> (\<exists>c.
     get_connector demo_cipher (demo_key_env None) e demo_tenant GMAIL db = (Inr c, db) \<and> ensure_authenticated c = Inr ()))"
proof -
  obtain blob where run: "encrypt_secret_versioned demo_cipher (demo_key_env None) ''iv'' ''tok'' = Inr (blob, 1)"
    using demo_key(1) demo_versions(1) by (auto simp add: encrypt_secret_versioned_def case_prod_beta)
  from encrypted_version [OF run] have "blob \<noteq> []" by simp
  have "decrypt_secret demo_cipher (demo_key_env None) blob (Some 1) = Inr ''tok''"
    using encrypted_is_read_back(1) [OF run refl demo_cipher_laws(4) _ demo_cipher_laws(1,2) _ demo_cipher_laws(3)] by simp
  with \<open>blob \<noteq> []\<close> show ?thesis
    by (intro exI [of _ "(new_integration demo_tenant GMAIL)\<lparr>in_accessTokenEncrypted := Some blob, in_refreshTokenEncrypted := Some blob,
        in_encryptionKeyVersion := 1\<rparr>"])
      (auto simp: get_connector_def for_tenant_def find_integration_tx_def is_integration_def new_integration_def decrypt_both_def
        ensure_authenticated_def)
qed

lemma demo_ingested_here:
  "\<exists>db'. ingest demo_brain demo_env demo_tenant demo_mail (demo_db\<lparr>integrations := rows\<rparr>) = (Inr (Created ''id-1'' False 0), db')"
proof -
  have "email_re ''x'' = False" by code_simp
  then have v: "\<not> pf_isValidEmail (parse_from_header ''x'')"
    by (simp add: parse_from_header_def Let_def split_address_def trim_def is_newline_def is_ws_def)
  have id: "show_nat 0 = ''0''" "show_nat (Suc 0) = ''1''" by code_simp+
  show ?thesis
    using v demo_schema
    by (simp add: ingest_def demo_mail_def for_tenant_def already_ingested_tx_def resolve_customer_def create_sender_def customer_create_def
        customer_create_tx_def customer_row_def sender_params_def extract_from_email_def active_templates_tx_def demo_brain_def
        parse_and_validate_def default_priority_def mail_task_params_def should_auto_assign_def create_from_email_def create_from_email_tx_def
        resolve_template_defaults_def task_create_def demo_defs next_id_def bump_id_def Let_def id)
qed

text \<open>One of two mails is fetched and becomes a task; it cannot be marked.\<close>

abbreviation demo_sync :: "env \<Rightarrow> int option \<Rightarrow> db \<Rightarrow> (http_error + sync_report \<times> string list) \<times> db" where
  "demo_sync e n db \<equiv> sync_gmail demo_cipher (demo_key_env None) demo_mail_lib demo_brain demo_api e demo_tenant n db"

lemma demo_synced:
  "\<exists>row rep db'. demo_sync demo_env (Some 1) (demo_db\<lparr>integrations := [row]\<rparr>) = (Inr (rep, []), db')
     \<and> map (\<lambda>c. fst (snd c)) (sr_created rep) = [''m1''] \<and> sr_failed rep = [] \<and> sr_moreAvailable rep \<and> sr_totalFetched rep = 1"
proof -
  obtain row where row: "\<And>e db. integrations db = [row] \<Longrightarrow> \<exists>c. get_connector demo_cipher (demo_key_env None) e demo_tenant GMAIL db = (Inr c, db)
      \<and> ensure_authenticated c = Inr ()" using demo_account by blast
  let ?db = "demo_db\<lparr>integrations := [row]\<rparr>"
  obtain st where st: "fetch_unread demo_mail_lib demo_api (now demo_env) (sync_filter demo_tenant (Some 1) ?db) = Inr st"
    "map mail_of (fs_emails st) = [demo_mail]" "fs_truncated st"
    using demo_fetch [of "now demo_env" "ff_since (sync_filter demo_tenant (Some 1) ?db)"] unfolding sync_filter_def by auto
  then obtain m where m: "fs_emails st = [m]" "mail_of m = demo_mail" by auto
  then have id: "pe_gmailMessageId m = ''m1''" by (simp add: mail_of_def demo_mail_def)
  from demo_ingested_here [of "[row]"] obtain db' where
    run: "ingest demo_brain demo_env demo_tenant (mail_of m) ?db = (Inr (Created ''id-1'' False 0), db')" using m by auto
  have "fetch_for_sync demo_cipher (demo_key_env None) demo_mail_lib demo_api demo_env demo_tenant (sync_filter demo_tenant (Some 1) ?db) ?db
      = (Inr st, ?db)" using row [of ?db demo_env] st(1) by (auto simp: fetch_for_sync_ok)
  then show ?thesis
    using st(3) m id run demo_api_calls(3)
    by (intro exI [of _ row]) (simp add: sync_gmail_cases ingest_all_Cons [OF run] step_acc_def report_outcome_def mark_read_quietly_def first_report_def)
qed

theorem fetch_is_bounded_and_complete_witness:
  "\<exists>st. fetch_unread demo_mail_lib demo_api 0 \<lparr>ff_maxResults = None, ff_maxMessages = Some 1, ff_since = None\<rparr> = Inr st
     \<and> length (fs_emails st) \<le> 200 \<and> fs_pages st \<le> 10"
  using demo_fetch [of 0 None] fetch_is_bounded_and_complete by blast

theorem unreadable_mail_stops_sync_witness:
  "\<exists>err db'. sync_gmail demo_cipher (demo_key_env None) demo_mail_lib demo_brain
      (demo_api\<lparr>ga_get := \<lambda>i k. Returned ((demo_message i)\<lparr>gm_snippet := Some ''&#9999999;''\<rparr>)\<rparr>) demo_env demo_tenant None demo_db
     = (Inl err, db') \<and> tasks db' = tasks demo_db"
proof -
  let ?api = "demo_api\<lparr>ga_get := \<lambda>i k. Returned ((demo_message i)\<lparr>gm_snippet := Some ''&#9999999;''\<rparr>)\<rparr>"
  let ?l = "\<lparr>ml_messages = [Some ''m1'', Some ''m2''], ml_nextPageToken = None\<rparr>"
  have "list_page ?api ff None = Inr ?l" for ff
    using demo_api_calls(1) [of ff None] by (simp add: list_page_def)
  moreover have "''m2'' \<in> set (take 200 (page_ids ?l))" by (simp add: page_ids_def)
  moreover have "get_message ?api ''m2'' = Inr ((demo_message ''m2'')\<lparr>gm_snippet := Some ''&#9999999;''\<rparr>)"
    by (simp add: get_message_def call_external_def attempt_loop.simps gmail_options_def default_options_def with_timeout_def call_outcome_def)
  moreover have "decode_html_entities ''&#9999999;'' = None"
  proof -
    have "list_all is_digit ''9999999''" by code_simp
    moreover have "1114111 < read_nat ''9999999''" by (simp add: read_nat_def digit_val_def)
    ultimately show ?thesis using huge_entity_unreadable [of "[]" "''9999999''" "[]"] by simp
  qed
  ultimately show ?thesis
    using unreadable_mail_stops_sync [where api = ?api and l = ?l and i = "''m2''"] by (fastforce simp: parse_message_def or_else_def)
qed

theorem sync_isolates_failures_witness:
  "\<exists>row rep db'. demo_sync demo_env (Some 1) (demo_db\<lparr>integrations := [row]\<rparr>) = (Inr (rep, []), db')
     \<and> (\<exists>c. sr_created rep = [c] \<and> made_task demo_tenant c db') \<and> (\<exists>ts. tasks db' = tasks demo_db @ ts)"
proof -
  from demo_synced obtain row rep db' where run: "demo_sync demo_env (Some 1) (demo_db\<lparr>integrations := [row]\<rparr>) = (Inr (rep, []), db')"
    and c: "map (\<lambda>c. fst (snd c)) (sr_created rep) = [''m1'']" by (elim exE conjE) (rule that)
  from c obtain x where x: "sr_created rep = [x]" by (auto simp: map_eq_Cons_conv)
  with sync_isolates_failures [OF run] have "made_task demo_tenant x db'" "\<exists>ts. tasks db' = tasks demo_db @ ts" by simp_all
  with run x show ?thesis by (intro exI [of _ row] exI [of _ rep] exI [of _ db']) simp
qed

theorem backlog_is_never_drained_witness:
  "\<exists>row rep db' rep'. demo_sync demo_env (Some 1) (demo_db\<lparr>integrations := [row]\<rparr>) = (Inr (rep, []), db')
     \<and> map (\<lambda>c. fst (snd c)) (sr_created rep) = [''m1'']
     \<and> demo_sync (demo_env\<lparr>now := 9000000\<rparr>) (Some 1) db' = (Inr (rep', []), db') \<and> sr_created rep' = [] \<and> sr_moreAvailable rep'"
proof -
  from demo_synced obtain row rep db' where run: "demo_sync demo_env (Some 1) (demo_db\<lparr>integrations := [row]\<rparr>) = (Inr (rep, []), db')"
    and r: "map (\<lambda>c. fst (snd c)) (sr_created rep) = [''m1'']" "sr_failed rep = []" "sr_moreAvailable rep" by (elim exE conjE) (rule that)
  have "gm_internalDate msg \<noteq> None" if "get_message demo_api i = Inr msg" for i msg
    using that by (auto simp: demo_api_calls demo_message_def)
  with backlog_is_never_drained [OF run r(3,2), where br' = demo_brain and e' = "demo_env\<lparr>now := 9000000\<rparr>"] demo_api_calls(3)
  have "\<exists>rep'. demo_sync (demo_env\<lparr>now := 9000000\<rparr>) (Some 1) db' = (Inr (rep', []), db') \<and> sr_created rep' = [] \<and> sr_moreAvailable rep'"
    by simp
  then obtain rep' where "demo_sync (demo_env\<lparr>now := 9000000\<rparr>) (Some 1) db' = (Inr (rep', []), db')" "sr_created rep' = []"
    "sr_moreAvailable rep'" by (elim exE conjE) (rule that)
  with run r(1) show ?thesis by (intro exI [of _ row] exI [of _ rep] exI [of _ db'] exI [of _ rep']) simp
qed

end
