(* ===== verification/Inbound.thy ===== *)
theory Inbound
  imports Intake OAuth
begin

text \<open>
  The forwarding mailbox of a business: intake/inbound/inbound-email.service.ts and its
  controllers, with \<open>resolve_inbound_mailbox\<close> of migration 0008.
\<close>

section \<open>Configuration and messages\<close>

record inbound_config =
  ic_domain :: string
  ic_secret :: string

definition inbound_enabled :: "inbound_config \<Rightarrow> bool" where
  "inbound_enabled cfg \<longleftrightarrow> ic_secret cfg \<noteq> []"

record inbound_dto =
  id_to :: string
  id_from :: string
  id_subject :: "string option"
  id_text :: "string option"
  id_messageId :: "string option"
  id_autoSubmitted :: "string option"
  id_precedence :: "string option"
  id_listId :: "string option"
  id_attachments :: "string list option"

datatype inbound_outcome = Task_created string | Duplicate | Verification | Ignored string

text \<open>The tenant of a local part: its mailbox's, while the tenant is active.\<close>

definition resolve_inbound_mailbox :: "db \<Rightarrow> string \<Rightarrow> string option" where
  "resolve_inbound_mailbox db part =
     map_option mb_tenantId (List.find (\<lambda>m. mb_localPart m = to_lower part
       \<and> list_ex (\<lambda>t. tn_id t = mb_tenantId m \<and> tn_isActive t) (tenants db)) (inbound_mailboxes db))"

definition message_of :: "inbound_dto \<Rightarrow> inbound_message" where
  "message_of dto = \<lparr>im_from = id_from dto, im_subject = (case id_subject dto of None \<Rightarrow> [] | Some s \<Rightarrow> trim s),
     im_text = or_else (id_text dto) [], im_messageId = id_messageId dto, im_autoSubmitted = id_autoSubmitted dto,
     im_precedence = id_precedence dto, im_listId = id_listId dto\<rparr>"

section \<open>Receiving a mail\<close>

text \<open>\<open>tx.inboundMailbox.update\<close>; the primary key is the tenant.\<close>

definition update_mailbox :: "string \<Rightarrow> (inbound_mailbox \<Rightarrow> inbound_mailbox) \<Rightarrow> unit tx" where
  "update_mailbox tid f db =
     (let (n, rows) = update_rows (\<lambda>m. mb_tenantId m = tid) f (inbound_mailboxes db)
      in if n = 0 then Inl (PrismaKnown ''P2025'') else Inr ((), db\<lparr>inbound_mailboxes := rows\<rparr>))"

definition verified_mailbox :: "env \<Rightarrow> string option \<times> string option \<Rightarrow> inbound_mailbox \<Rightarrow> inbound_mailbox" where
  "verified_mailbox e v m = m\<lparr>mb_verificationCode := fst v, mb_verificationUrl := snd v, mb_verificationReceivedAt := Some (now e)\<rparr>"

definition counted_mailbox :: "env \<Rightarrow> inbound_mailbox \<Rightarrow> inbound_mailbox" where
  "counted_mailbox e m = m\<lparr>mb_lastReceivedAt := Some (now e), mb_receivedCount := Suc (mb_receivedCount m)\<rparr>"

text \<open>\<open>/^\s*(fwd?|...)\s*:\s*/i\<close>\<close>

definition forward_prefixes :: "string list" where
  "forward_prefixes = [''fwd'', ''fw'', utf8 [1492, 1493, 1506, 1489, 1512]]"

definition strip_forward_prefix :: "string \<Rightarrow> string" where
  "strip_forward_prefix s =
     (let r = dropWhile is_ws s; after = (\<lambda>p. dropWhile is_ws (drop (length p) r))
      in case List.find (\<lambda>p. starts_with p (to_lower r) \<and> starts_with '':'' (after p)) forward_prefixes of
           None \<Rightarrow> s | Some p \<Rightarrow> dropWhile is_ws (drop 1 (after p)))"

definition attachments_note :: "string list option \<Rightarrow> string" where
  "attachments_note atts =
     (case atts of
        None \<Rightarrow> []
      | Some [] \<Rightarrow> []
      | Some names \<Rightarrow> [char_of (10 :: nat), char_of (10 :: nat)]
          @ utf8 [91, 1511, 1489, 1510, 1497, 1501, 32, 1502, 1510, 1493, 1512, 1508, 1497, 1501, 58, 32]
          @ join_with '', '' names @ '']'')"

definition forwarded_mail :: "(string \<Rightarrow> string) \<Rightarrow> inbound_dto \<Rightarrow> inbound_email" where
  "forwarded_mail sha256 dto =
     (let msg = message_of dto; inner = unwrap_forwarded (im_text msg)
      in \<lparr>ie_sourceId = source_id_for sha256 msg,
          ie_from = (case inner of None \<Rightarrow> im_from msg | Some (sender, _) \<Rightarrow> sender),
          ie_subject = (case inner of Some (_, Some subj, _) \<Rightarrow> subj | _ \<Rightarrow> strip_forward_prefix (im_subject msg)),
          ie_bodyText = (case inner of None \<Rightarrow> im_text msg | Some (_, _, body) \<Rightarrow> body) @ attachments_note (id_attachments dto)\<rparr>)"

definition receive_for :: "(string \<Rightarrow> string) \<Rightarrow> brain \<Rightarrow> env \<Rightarrow> inbound_dto \<Rightarrow> string \<Rightarrow> inbound_outcome svc" where
  "receive_for sha256 br e dto tid db =
     (case gmail_verification (message_of dto) of
        Some v \<Rightarrow>
          (case for_tenant tid (update_mailbox tid (verified_mailbox e v)) db of
             (Inl err, db1) \<Rightarrow> (Inl err, db1) | (Inr _, db1) \<Rightarrow> (Inr Verification, db1))
      | None \<Rightarrow>
          (case for_tenant tid (update_mailbox tid (counted_mailbox e)) db of
             (Inl err, db1) \<Rightarrow> (Inl err, db1)
           | (Inr _, db1) \<Rightarrow>
               (case automated_reason (message_of dto) of
                  Some why \<Rightarrow> (Inr (Ignored why), db1)
                | None \<Rightarrow>
                    (case ingest br e tid (forwarded_mail sha256 dto) db1 of
                       (Inl err, db2) \<Rightarrow> (Inl err, db2)
                     | (Inr Skipped, db2) \<Rightarrow> (Inr Duplicate, db2)
                     | (Inr (Created i _ _), db2) \<Rightarrow> (Inr (Task_created i), db2)))))"

definition addressed_tenant :: "inbound_config \<Rightarrow> db \<Rightarrow> string \<Rightarrow> string option" where
  "addressed_tenant cfg db rcpt =
     (case local_part_for rcpt (ic_domain cfg) of None \<Rightarrow> None | Some part \<Rightarrow> resolve_inbound_mailbox db part)"

definition receive :: "(string \<Rightarrow> string) \<Rightarrow> brain \<Rightarrow> inbound_config \<Rightarrow> env \<Rightarrow> inbound_dto \<Rightarrow> inbound_outcome svc" where
  "receive sha256 br cfg e dto db =
     (if \<not> inbound_enabled cfg then (Inl (ServiceUnavailable ''Inbound email is not configured''), db)
      else case addressed_tenant cfg db (id_to dto) of
          None \<Rightarrow> (Inl (NotFound ''Unknown address''), db)
        | Some tid \<Rightarrow> receive_for sha256 br e dto tid db)"

text \<open>The webhook: the signature header, the raw body it signs, and the parsed body.\<close>

record webhook_lib =
  wl_hmac :: "string \<Rightarrow> string \<Rightarrow> string"
  wl_number :: "string \<Rightarrow> rat option"
  wl_sha256 :: "string \<Rightarrow> string"

definition inbound_webhook ::
  "webhook_lib \<Rightarrow> brain \<Rightarrow> inbound_config \<Rightarrow> env \<Rightarrow> string option \<Rightarrow> string option \<Rightarrow> inbound_dto \<Rightarrow> inbound_outcome svc" where
  "inbound_webhook lib br cfg e header rawBody dto db =
     (if inbound_enabled cfg
         \<and> verify_inbound (wl_hmac lib) (wl_number lib) header rawBody (ic_secret cfg) (now e div 1000) \<noteq> Sig_ok
      then (Inl (Unauthorized ''Invalid signature''), db)
      else receive (wl_sha256 lib) br cfg e dto db)"

section \<open>The address of a business\<close>

record mailbox_view =
  mv_enabled :: bool
  mv_address :: string
  mv_verificationCode :: "string option"
  mv_verificationUrl :: "string option"
  mv_verificationReceivedAt :: "int option"
  mv_lastReceivedAt :: "int option"
  mv_receivedCount :: nat

definition view_mailbox :: "inbound_config \<Rightarrow> inbound_mailbox \<Rightarrow> mailbox_view" where
  "view_mailbox cfg m = \<lparr>mv_enabled = inbound_enabled cfg, mv_address = mb_localPart m @ ''@'' @ ic_domain cfg,
     mv_verificationCode = mb_verificationCode m, mv_verificationUrl = mb_verificationUrl m,
     mv_verificationReceivedAt = mb_verificationReceivedAt m, mv_lastReceivedAt = mb_lastReceivedAt m,
     mv_receivedCount = mb_receivedCount m\<rparr>"

definition new_mailbox :: "string \<Rightarrow> string \<Rightarrow> inbound_mailbox" where
  "new_mailbox tid part = \<lparr>mb_tenantId = tid, mb_localPart = part, mb_verificationCode = None, mb_verificationUrl = None,
     mb_verificationReceivedAt = None, mb_lastReceivedAt = None, mb_receivedCount = 0\<rparr>"

definition find_mailbox :: "string \<Rightarrow> db \<Rightarrow> inbound_mailbox option" where
  "find_mailbox tid db = List.find (\<lambda>m. mb_tenantId m = tid) (inbound_mailboxes db)"

text \<open>\<open>tx.inboundMailbox.upsert\<close>; local parts are unique over all tenants.\<close>

definition upsert_mailbox :: "string \<Rightarrow> string \<Rightarrow> (inbound_mailbox \<Rightarrow> inbound_mailbox) \<Rightarrow> inbound_mailbox tx" where
  "upsert_mailbox tid part f db =
     (let fresh = (\<lambda>m. list_ex (\<lambda>x. mb_tenantId x \<noteq> tid \<and> mb_localPart x = mb_localPart m) (inbound_mailboxes db))
      in case find_mailbox tid db of
           Some m \<Rightarrow>
             if fresh (f m) then Inl (PrismaKnown ''P2002'')
             else Inr (f m, db\<lparr>inbound_mailboxes := snd (update_rows (\<lambda>x. mb_tenantId x = tid) f (inbound_mailboxes db))\<rparr>)
         | None \<Rightarrow>
             if fresh (new_mailbox tid part) then Inl (PrismaKnown ''P2002'')
             else Inr (new_mailbox tid part, db\<lparr>inbound_mailboxes := inbound_mailboxes db @ [new_mailbox tid part]\<rparr>))"

definition mailbox_tx :: "string \<Rightarrow> nat list \<Rightarrow> inbound_mailbox tx" where
  "mailbox_tx tid bytes db =
     (case find_mailbox tid db of
        Some m \<Rightarrow> Inr (m, db)
      | None \<Rightarrow>
          (case subdomain_tx tid db of
             Inl err \<Rightarrow> Inl err
           | Inr (sub, db1) \<Rightarrow> upsert_mailbox tid (generate_local_part sub bytes) (\<lambda>m. m) db1))"

definition mailbox :: "inbound_config \<Rightarrow> string \<Rightarrow> nat list \<Rightarrow> mailbox_view svc" where
  "mailbox cfg tid bytes db = for_tenant tid (\<lambda>db. map_sum id (apfst (view_mailbox cfg)) (mailbox_tx tid bytes db)) db"

definition rotated_mailbox :: "string \<Rightarrow> inbound_mailbox \<Rightarrow> inbound_mailbox" where
  "rotated_mailbox part m = m\<lparr>mb_localPart := part, mb_verificationCode := None, mb_verificationUrl := None,
     mb_verificationReceivedAt := None\<rparr>"

definition rotate_tx :: "string \<Rightarrow> string \<Rightarrow> nat list \<Rightarrow> inbound_mailbox tx" where
  "rotate_tx tid actorId bytes db =
     (case subdomain_tx tid db of
        Inl err \<Rightarrow> Inl err
      | Inr (sub, db1) \<Rightarrow>
          (let part = generate_local_part sub bytes
           in case upsert_mailbox tid part (rotated_mailbox part) db1 of
                Inl err \<Rightarrow> Inl err
              | Inr (m, db2) \<Rightarrow>
                  Inr (m, audit_create \<lparr>al_tenantId = tid, al_userId = Some actorId, al_action = ''inbound_mailbox.rotated'',
                     al_entityType = ''InboundMailbox'', al_entityId = tid, al_metadata = Some (JObj [])\<rparr> db2)))"

definition rotate_mailbox :: "inbound_config \<Rightarrow> string \<Rightarrow> string \<Rightarrow> nat list \<Rightarrow> mailbox_view svc" where
  "rotate_mailbox cfg tid actorId bytes db =
     for_tenant tid (\<lambda>db. map_sum id (apfst (view_mailbox cfg)) (rotate_tx tid actorId bytes db)) db"

section \<open>Whose data a mail touches\<close>

lemma update_mailbox_result:
  assumes "update_mailbox tid f db = Inr (u, db')" and "\<And>m. mb_tenantId (f m) = mb_tenantId m"
  shows "others tid db' = others tid db \<and> tasks db' = tasks db \<and> outbox_events db' = outbox_events db \<and> customers db' = customers db
    \<and> tenants db' = tenants db \<and> inbound_mailboxes db' = snd (update_rows (\<lambda>m. mb_tenantId m = tid) f (inbound_mailboxes db))"
proof -
  have "filter (\<lambda>r. mb_tenantId r \<noteq> tid) (snd (update_rows (\<lambda>m. mb_tenantId m = tid) f (inbound_mailboxes db)))
      = filter (\<lambda>r. mb_tenantId r \<noteq> tid) (inbound_mailboxes db)"
    using assms(2) by (intro filter_update_rows) auto
  with assms(1) show ?thesis
    by (auto simp: update_mailbox_def case_prod_beta others_def split: if_splits)
qed

lemma mailbox_rows [simp]:
  "mb_tenantId (verified_mailbox e v m) = mb_tenantId m" "mb_localPart (verified_mailbox e v m) = mb_localPart m"
  "mb_tenantId (counted_mailbox e m) = mb_tenantId m" "mb_localPart (counted_mailbox e m) = mb_localPart m"
  "mb_tenantId (rotated_mailbox part m) = mb_tenantId m" "mb_localPart (rotated_mailbox part m) = part"
  by (simp_all add: verified_mailbox_def counted_mailbox_def rotated_mailbox_def)

lemma marked_mailbox:
  assumes "for_tenant tid (update_mailbox tid f) db = (r, db')" and "\<And>m. mb_tenantId (f m) = mb_tenantId m"
  shows "others tid db' = others tid db \<and> tasks db' = tasks db \<and> outbox_events db' = outbox_events db \<and> customers db' = customers db"
proof (cases r)
  case (Inr u)
  with assms(1) have "update_mailbox tid f db = Inr (u, db')" by (simp add: for_tenant_Inr)
  from update_mailbox_result [OF this assms(2)] show ?thesis by blast
qed (use assms(1) in \<open>simp add: for_tenant_Inl\<close>)

lemma receive_for_frame:
  assumes "receive_for sha256 br e dto tid db = (r, db')"
  shows "others tid db' = others tid db"
proof -
  have a: "others tid d = others tid db" if "for_tenant tid (update_mailbox tid (verified_mailbox e v)) db = (x, d)" for v x d
    using marked_mailbox [OF that] by simp
  have b: "others tid d = others tid db" if "for_tenant tid (update_mailbox tid (counted_mailbox e)) db = (x, d)" for x d
    using marked_mailbox [OF that] by simp
  show ?thesis
    using assms ingest_grows [of br e tid "forwarded_mail sha256 dto"]
    by (fastforce simp: receive_for_def grown_def split: option.splits sum.splits prod.splits ingest_outcome.splits dest!: a b)
qed

text \<open>C29. A forwarded mail changes the database only with a fresh valid signature of its raw body
  and for an address of a mailbox of an active tenant, and then only the data of that tenant.\<close>
theorem inbound_mail_is_signed_and_addressed:
  assumes "inbound_webhook lib br cfg e header rawBody dto db = (r, db')" and "db' \<noteq> db"
  shows "(\<exists>t v1 body. rawBody = Some body \<and> header \<noteq> None \<and> signature_field (the header) ''v1'' = Some v1
        \<and> \<bar>now e div 1000 - t\<bar> \<le> max_skew_seconds
        \<and> hex_decode v1 = hex_decode (wl_hmac lib (ic_secret cfg) (show_int t @ ''.'' @ body)))
    \<and> (\<exists>part m. local_part_for (id_to dto) (ic_domain cfg) = Some part \<and> m \<in> set (inbound_mailboxes db)
        \<and> mb_localPart m = to_lower part \<and> list_ex (\<lambda>t. tn_id t = mb_tenantId m \<and> tn_isActive t) (tenants db)
        \<and> others (mb_tenantId m) db' = others (mb_tenantId m) db)"
proof
  have sig: "verify_inbound (wl_hmac lib) (wl_number lib) header rawBody (ic_secret cfg) (now e div 1000) = Sig_ok"
    and run: "receive (wl_sha256 lib) br cfg e dto db = (r, db')"
    using assms by (auto simp: inbound_webhook_def receive_def split: if_splits)
  from sig obtain n v1 where "truthy header" "rawBody \<noteq> None" "signature_field (the header) ''v1'' = Some v1"
    "\<not> max_skew_seconds < \<bar>now e div 1000 - n\<bar>"
    "hex_decode v1 = hex_decode (wl_hmac lib (ic_secret cfg) (show_int n @ ''.'' @ the rawBody))"
    by (auto simp: verify_inbound_def split: if_splits option.splits)
  moreover from this(1) have "header \<noteq> None" by (cases header) auto
  ultimately show "\<exists>t v1 body. rawBody = Some body \<and> header \<noteq> None \<and> signature_field (the header) ''v1'' = Some v1
      \<and> \<bar>now e div 1000 - t\<bar> \<le> max_skew_seconds
      \<and> hex_decode v1 = hex_decode (wl_hmac lib (ic_secret cfg) (show_int t @ ''.'' @ body))"
    by - (rule exI [of _ n], rule exI [of _ v1], rule exI [of _ "the rawBody"], auto)
  from run assms(2) obtain tid where t: "addressed_tenant cfg db (id_to dto) = Some tid"
    and go: "receive_for (wl_sha256 lib) br e dto tid db = (r, db')"
    by (auto simp: receive_def split: if_splits option.splits)
  from t obtain part m where part: "local_part_for (id_to dto) (ic_domain cfg) = Some part" "mb_tenantId m = tid"
    and found: "List.find (\<lambda>m. mb_localPart m = to_lower part \<and> list_ex (\<lambda>t. tn_id t = mb_tenantId m \<and> tn_isActive t) (tenants db))
       (inbound_mailboxes db) = Some m"
    by (auto simp: addressed_tenant_def resolve_inbound_mailbox_def split: option.splits)
  from part find_SomeD [OF found] receive_for_frame [OF go]
  show "\<exists>part m. local_part_for (id_to dto) (ic_domain cfg) = Some part \<and> m \<in> set (inbound_mailboxes db)
        \<and> mb_localPart m = to_lower part \<and> list_ex (\<lambda>t. tn_id t = mb_tenantId m \<and> tn_isActive t) (tenants db)
        \<and> others (mb_tenantId m) db' = others (mb_tenantId m) db"
    by - (rule exI [of _ part], rule exI [of _ m], simp)
qed

section \<open>Automatic answers and retries\<close>

theorem automatic_mail_makes_no_task:
  assumes "gmail_verification (message_of dto) \<noteq> None \<or> automated_reason (message_of dto) \<noteq> None"
    and "receive sha256 br cfg e dto db = (r, db')"
  shows "tasks db' = tasks db \<and> outbox_events db' = outbox_events db \<and> customers db' = customers db"
proof (cases "inbound_enabled cfg \<and> addressed_tenant cfg db (id_to dto) \<noteq> None")
  case True
  then obtain tid where go: "receive_for sha256 br e dto tid db = (r, db')" using assms(2) by (auto simp: receive_def)
  show ?thesis
  proof (cases "gmail_verification (message_of dto)")
    case None
    with assms(1) obtain why where why: "automated_reason (message_of dto) = Some why" by auto
    obtain x d where m: "for_tenant tid (update_mailbox tid (counted_mailbox e)) db = (x, d)" by fastforce
    with go None why have "db' = d" by (auto simp: receive_for_def split: sum.splits)
    with marked_mailbox [OF m] show ?thesis by simp
  next
    case (Some v)
    obtain x d where m: "for_tenant tid (update_mailbox tid (verified_mailbox e v)) db = (x, d)" by fastforce
    with go Some have "db' = d" by (auto simp: receive_for_def split: sum.splits)
    with marked_mailbox [OF m] show ?thesis by simp
  qed
qed (use assms(2) in \<open>auto simp: receive_def split: if_splits option.splits\<close>)

lemma addressed_same:
  assumes "inbound_mailboxes db' = snd (update_rows (\<lambda>m. mb_tenantId m = tid) f (inbound_mailboxes db))" and "tenants db' = tenants db"
    and "\<And>m. mb_tenantId (f m) = mb_tenantId m" "\<And>m. mb_localPart (f m) = mb_localPart m"
  shows "addressed_tenant cfg db' rcpt = addressed_tenant cfg db rcpt"
proof -
  have "List.find (\<lambda>m. mb_localPart m = l \<and> list_ex (\<lambda>t. tn_id t = mb_tenantId m \<and> tn_isActive t) (tenants db))
      (map (\<lambda>x. if mb_tenantId x = tid then f x else x) ms)
    = map_option (\<lambda>x. if mb_tenantId x = tid then f x else x)
      (List.find (\<lambda>m. mb_localPart m = l \<and> list_ex (\<lambda>t. tn_id t = mb_tenantId m \<and> tn_isActive t) (tenants db)) ms)" for l ms
    by (rule find_map_rows) (simp add: assms(3,4))
  with assms show ?thesis
    by (auto simp: addressed_tenant_def resolve_inbound_mailbox_def update_rows_def option.map_comp comp_def
        split: option.splits intro!: option.map_cong)
qed

lemma update_mailbox_defined:
  "\<exists>m \<in> set (inbound_mailboxes db). mb_tenantId m = tid \<Longrightarrow> \<exists>db'. update_mailbox tid f db = Inr ((), db')"
  by (auto simp: update_mailbox_def update_rows_def filter_empty_conv)

theorem delivery_retry_makes_no_second_task:
  assumes "receive sha256 br cfg e dto db = (Inr (Task_created i), db')"
  shows "\<exists>db''. receive sha256 br' cfg e' dto db' = (Inr Duplicate, db'') \<and> tasks db'' = tasks db' \<and> outbox_events db'' = outbox_events db'
    \<and> (\<exists>t \<in> set (tasks db'). t_sourceEmailId t = Some (source_id_for sha256 (message_of dto)))"
proof -
  let ?mail = "forwarded_mail sha256 dto"
  from assms obtain tid where en: "inbound_enabled cfg" and addr: "addressed_tenant cfg db (id_to dto) = Some tid"
    and go: "receive_for sha256 br e dto tid db = (Inr (Task_created i), db')"
    by (auto simp: receive_def split: if_splits option.splits)
  then obtain u db1 where kind: "gmail_verification (message_of dto) = None" "automated_reason (message_of dto) = None"
    and m: "for_tenant tid (update_mailbox tid (counted_mailbox e)) db = (Inr u, db1)"
    and run: "\<exists>matched conf. ingest br e tid ?mail db1 = (Inr (Created i matched conf), db')"
    by (auto simp: receive_for_def split: option.splits sum.splits prod.splits ingest_outcome.splits)
  from run obtain matched conf where run: "ingest br e tid ?mail db1 = (Inr (Created i matched conf), db')" by blast
  note known = ingested_known [OF run] and g = ingest_grows [OF run]
  from m have up: "update_mailbox tid (counted_mailbox e) db = Inr (u, db1)" by (simp add: for_tenant_Inr)
  note f1 = update_mailbox_result [OF up, simplified]
  have "inbound_mailboxes db' = snd (update_rows (\<lambda>m. mb_tenantId m = tid) (counted_mailbox e) (inbound_mailboxes db))"
    "tenants db' = tenants db" using f1 g by (simp_all add: grown_def)
  from addressed_same [OF this] addr have addr': "addressed_tenant cfg db' (id_to dto) = Some tid" by simp
  have rows: "\<exists>m \<in> set (inbound_mailboxes db'). mb_tenantId m = tid"
    using addr' by (auto simp: addressed_tenant_def resolve_inbound_mailbox_def split: option.splits dest!: find_SomeD)
  have "is_uuid tid" using known by simp
  moreover obtain db2 where "update_mailbox tid (counted_mailbox e') db' = Inr ((), db2)"
    using update_mailbox_defined [OF rows] by blast
  ultimately have m2: "for_tenant tid (update_mailbox tid (counted_mailbox e')) db' = (Inr (), db2)" by (simp add: for_tenant_Inr)
  note f2 = marked_mailbox [OF m2, simplified]
  have "list_ex (\<lambda>t. t_tenantId t = tid \<and> t_sourceEmailId t = Some (ie_sourceId ?mail)) (tasks db2)"
    using known f2 by (simp add: known_message_def)
  from ingested_again [OF _ this] known have "ingest br' e' tid ?mail db2 = (Inr Skipped, db2)" by blast
  then have "receive sha256 br' cfg e' dto db' = (Inr Duplicate, db2)"
    using en addr' kind m2 by (simp add: receive_def receive_for_def)
  moreover have "ie_sourceId ?mail = source_id_for sha256 (message_of dto)" by (simp add: forwarded_mail_def Let_def)
  ultimately show ?thesis using f2 known by (auto simp: known_message_def list_ex_iff)
qed

section \<open>A rotated address\<close>

lemma upsert_mailbox_parts:
  assumes "upsert_mailbox tid part (rotated_mailbox part) db = Inr (m', db')" and "find_mailbox tid db = Some m"
    and "distinct (map mb_localPart (inbound_mailboxes db))" and "distinct (map mb_tenantId (inbound_mailboxes db))" and "mb_localPart m \<noteq> part"
  shows "mb_localPart m \<notin> mb_localPart ` set (inbound_mailboxes db') \<and> m' = rotated_mailbox part m \<and> tenants db' = tenants db
    \<and> (\<forall>x \<in> set (inbound_mailboxes db'). mb_localPart x = part \<longrightarrow> mb_tenantId x = tid) \<and> m' \<in> set (inbound_mailboxes db')"
proof -
  from assms(2) have m: "m \<in> set (inbound_mailboxes db)" "mb_tenantId m = tid" by (auto simp: find_mailbox_def dest: find_SomeD)
  from assms(1,2) have rows: "inbound_mailboxes db' = map (\<lambda>x. if mb_tenantId x = tid then rotated_mailbox part x else x) (inbound_mailboxes db)"
    and own: "\<forall>x \<in> set (inbound_mailboxes db). mb_tenantId x \<noteq> tid \<longrightarrow> mb_localPart x \<noteq> part"
    and res: "m' = rotated_mailbox part m" "tenants db' = tenants db"
    by (auto simp: upsert_mailbox_def update_rows_def list_ex_iff split: if_splits)
  have "\<forall>x \<in> set (inbound_mailboxes db). mb_tenantId x \<noteq> tid \<longrightarrow> mb_localPart x \<noteq> mb_localPart m"
    using m assms(3) by (metis distinct_map inj_onD)
  with rows m assms(5) have "mb_localPart m \<notin> mb_localPart ` set (inbound_mailboxes db')" by auto
  moreover have "\<forall>x \<in> set (inbound_mailboxes db'). mb_localPart x = part \<longrightarrow> mb_tenantId x = tid"
  proof (intro ballI impI)
    fix x assume x: "x \<in> set (inbound_mailboxes db')" "mb_localPart x = part"
    from x(1) [unfolded rows set_map] obtain y where "y \<in> set (inbound_mailboxes db)"
      and "x = (if mb_tenantId y = tid then rotated_mailbox part y else y)" by (rule imageE)
    with own x(2) show "mb_tenantId x = tid" by (cases "mb_tenantId y = tid") simp_all
  qed
  moreover have "m' \<in> set (inbound_mailboxes db')" using m rows res by force
  ultimately show ?thesis using res by blast
qed

text \<open>After a mailbox is rotated, mail to the old address is refused, mail to the new one
  reaches the tenant, and the old forwarding verification is gone.\<close>
theorem rotated_address_is_dead:
  assumes "rotate_mailbox cfg tid actorId bytes db = (Inr v, db')" and "find_mailbox tid db = Some m"
    and "distinct (map mb_localPart (inbound_mailboxes db))" and "distinct (map mb_tenantId (inbound_mailboxes db))"
    and "mv_address v \<noteq> mb_localPart m @ ''@'' @ ic_domain cfg" and "to_lower (mb_localPart m) = mb_localPart m"
    and "length bytes = 10"
  shows "(local_part_for (id_to dto) (ic_domain cfg) = Some (mb_localPart m) \<and> inbound_enabled cfg
        \<longrightarrow> receive sha256 br cfg e dto db' = (Inl (NotFound ''Unknown address''), db'))
    \<and> (\<exists>part. mv_address v = part @ ''@'' @ ic_domain cfg
        \<and> (local_part_for (id_to dto) (ic_domain cfg) = Some part \<and> list_ex (\<lambda>t. tn_id t = tid \<and> tn_isActive t) (tenants db)
            \<longrightarrow> addressed_tenant cfg db' (id_to dto) = Some tid))
    \<and> mv_verificationCode v = None \<and> mv_verificationUrl v = None"
proof -
  from assms(1) obtain m' where tx: "rotate_tx tid actorId bytes db = Inr (m', db')" and v: "v = view_mailbox cfg m'"
    by (auto simp: rotate_mailbox_def for_tenant_Inr map_sum_def split: sum.splits)
  then obtain sub db1 db2 where sub: "subdomain_tx tid db = Inr (sub, db1)"
    and up: "upsert_mailbox tid (generate_local_part sub bytes) (rotated_mailbox (generate_local_part sub bytes)) db1 = Inr (m', db2)"
    and d: "inbound_mailboxes db' = inbound_mailboxes db2" "tenants db' = tenants db2"
    by (auto simp: rotate_tx_def Let_def audit_create_def split: sum.splits prod.splits)
  let ?part = "generate_local_part sub bytes"
  have db1: "db1 = db" using sub by (auto simp: subdomain_tx_def split: option.splits)
  have m'p: "mb_localPart m' = ?part" using up assms(2) db1 by (auto simp: upsert_mailbox_def split: if_splits)
  with assms(5) have ne: "mb_localPart m \<noteq> ?part" by (auto simp: v view_mailbox_def)
  note r = upsert_mailbox_parts [OF up [unfolded db1] assms(2-4) ne]
  have "mb_localPart x \<noteq> mb_localPart m" if "x \<in> set (inbound_mailboxes db')" for x
    using r d(1) that by (metis image_eqI)
  then have "resolve_inbound_mailbox db' (mb_localPart m) = None"
    by (auto simp: resolve_inbound_mailbox_def find_None_iff assms(6))
  then have dead: "receive sha256 br cfg e dto db' = (Inl (NotFound ''Unknown address''), db')"
    if "local_part_for (id_to dto) (ic_domain cfg) = Some (mb_localPart m)" "inbound_enabled cfg"
    using that by (simp add: receive_def addressed_tenant_def)
  have "resolve_inbound_mailbox db' ?part = Some tid" if "list_ex (\<lambda>t. tn_id t = tid \<and> tn_isActive t) (tenants db)"
  proof -
    have low: "to_lower ?part = ?part" by (rule to_lower_box [OF generated_box(1) [OF assms(7)]])
    have "List.find (\<lambda>m. mb_localPart m = ?part \<and> list_ex (\<lambda>t. tn_id t = mb_tenantId m \<and> tn_isActive t) (tenants db')) (inbound_mailboxes db') \<noteq> None"
      unfolding find_None_iff using r d that m'p by (auto simp: v)
    with r d(1) low show ?thesis by (auto simp: resolve_inbound_mailbox_def dest: find_SomeD)
  qed
  with dead r m'p show ?thesis
    by (auto simp: v view_mailbox_def rotated_mailbox_def addressed_tenant_def)
qed

section \<open>Witnesses\<close>

definition demo_tenant_here :: tenant where
  "demo_tenant_here = \<lparr>tn_id = demo_tenant, tn_name = ''Dan'', tn_vertical = MAINTENANCE, tn_subdomain = ''dan'', tn_isActive = True,
     tn_createdAt = 0\<rparr>"

definition demo_box :: inbound_mailbox where
  "demo_box = new_mailbox demo_tenant ''dan-old''"

definition demo_inbound_db :: db where
  "demo_inbound_db = demo_db\<lparr>tenants := [demo_tenant_here], inbound_mailboxes := [demo_box]\<rparr>"

definition demo_inbound :: inbound_config where
  "demo_inbound = \<lparr>ic_domain = ''in.x.co'', ic_secret = ''key''\<rparr>"

definition demo_dto :: inbound_dto where
  "demo_dto = \<lparr>id_to = ''dan-old'' @ ''@'' @ ''in.x.co'', id_from = ''x'', id_subject = None, id_text = None, id_messageId = None,
     id_autoSubmitted = None, id_precedence = None, id_listId = None, id_attachments = None\<rparr>"

definition auto_dto :: inbound_dto where
  "auto_dto = demo_dto\<lparr>id_listId := Some ''l''\<rparr>"

definition demo_webhook :: webhook_lib where
  "demo_webhook = \<lparr>wl_hmac = demo_hmac, wl_number = (\<lambda>s. if s = show_int 5 then Some 5 else None), wl_sha256 = (\<lambda>x. ''00'')\<rparr>"

lemma demo_part_found: "local_part_for (''dan-old'' @ ''@'' @ ''in.x.co'') ''in.x.co'' = Some ''dan-old''"
proof -
  have "list_all domain_char ''in.x'' \<and> list_all is_lower ''co''" "list_all box_char ''dan-old''" by code_simp+
  moreover have "to_lower ''in.x.co'' = ''in.x'' @ ''.'' @ ''co''" by code_simp
  moreover have "''in.x'' \<noteq> []" "2 \<le> length ''co''" by simp_all
  ultimately have "routed_domain (to_lower ''in.x.co'')" "list_all box_char ''dan-old''"
    unfolding routed_domain_def by blast+
  then show ?thesis by (intro plain_address_found) simp_all
qed

lemma demo_addressed: "addressed_tenant demo_inbound demo_inbound_db (id_to demo_dto) = Some demo_tenant"
proof -
  have "to_lower ''dan-old'' = ''dan-old''" by code_simp
  then show ?thesis
    unfolding addressed_tenant_def demo_dto_def demo_inbound_def inbound_dto.simps inbound_config.simps demo_part_found
    by (simp add: resolve_inbound_mailbox_def demo_inbound_db_def demo_box_def new_mailbox_def demo_tenant_here_def)
qed

lemma demo_kinds:
  "gmail_verification (message_of demo_dto) = None" "automated_reason (message_of demo_dto) = None"
  "gmail_verification (message_of auto_dto) = None" "automated_reason (message_of auto_dto) = Some ''mailing-list''"
  by code_simp+

lemma demo_counted: "\<exists>db'. for_tenant demo_tenant (update_mailbox demo_tenant (counted_mailbox demo_env)) demo_inbound_db = (Inr (), db')
    \<and> db' \<noteq> demo_inbound_db"
  by (auto simp: for_tenant_def update_mailbox_def update_rows_def demo_inbound_db_def demo_box_def new_mailbox_def counted_mailbox_def
      dest!: arg_cong [of _ _ inbound_mailboxes])

lemma demo_ignored: "\<exists>db'. receive sh demo_brain demo_inbound demo_env auto_dto demo_inbound_db = (Inr (Ignored ''mailing-list''), db')
    \<and> db' \<noteq> demo_inbound_db"
proof -
  have "id_to auto_dto = id_to demo_dto" by (simp add: auto_dto_def)
  with demo_addressed demo_counted demo_kinds(3,4) show ?thesis
    by (auto simp: receive_def receive_for_def inbound_enabled_def demo_inbound_def)
qed

theorem automatic_mail_makes_no_task_witness:
  "\<exists>db'. receive (\<lambda>x. ''00'') demo_brain demo_inbound demo_env auto_dto demo_inbound_db = (Inr (Ignored ''mailing-list''), db')
     \<and> tasks db' = tasks demo_inbound_db"
proof -
  from demo_ignored obtain db' where run: "receive (\<lambda>x. ''00'') demo_brain demo_inbound demo_env auto_dto demo_inbound_db
      = (Inr (Ignored ''mailing-list''), db')" by blast
  have "automated_reason (message_of auto_dto) \<noteq> None" using demo_kinds(4) by simp
  with automatic_mail_makes_no_task [OF _ run] run show ?thesis by blast
qed

theorem inbound_mail_is_signed_and_addressed_witness:
  "\<exists>db'. inbound_webhook demo_webhook demo_brain demo_inbound demo_env (Some (sign_inbound demo_hmac ''key'' 5 ''{}'')) (Some ''{}'')
       auto_dto demo_inbound_db = (Inr (Ignored ''mailing-list''), db')
     \<and> (\<exists>m \<in> set (inbound_mailboxes demo_inbound_db). others (mb_tenantId m) db' = others (mb_tenantId m) demo_inbound_db)"
proof -
  from demo_ignored obtain db' where run: "receive (\<lambda>x. ''00'') demo_brain demo_inbound demo_env auto_dto demo_inbound_db
      = (Inr (Ignored ''mailing-list''), db')" and ne: "db' \<noteq> demo_inbound_db" by blast
  have "is_mac_text (demo_hmac ''key'' s)" for s
    by (simp add: is_mac_text_def demo_hmac_def list_all_iff is_hex_def is_upper_def del: replicate.simps)
  then have "verify_inbound demo_hmac (wl_number demo_webhook) (Some (sign_inbound demo_hmac ''key'' 5 ''{}'')) (Some ''{}'') ''key'' 5 = Sig_ok"
    using own_signature_checked [of "wl_number demo_webhook" 5 demo_hmac "''key''" "''{}''" 5]
    by (simp add: demo_webhook_def max_skew_seconds_def)
  with run have hook: "inbound_webhook demo_webhook demo_brain demo_inbound demo_env (Some (sign_inbound demo_hmac ''key'' 5 ''{}''))
      (Some ''{}'') auto_dto demo_inbound_db = (Inr (Ignored ''mailing-list''), db')"
    by (simp add: inbound_webhook_def demo_inbound_def demo_webhook_def demo_env_def)
  from inbound_mail_is_signed_and_addressed [OF hook ne] hook show ?thesis by blast
qed

theorem rotated_address_is_dead_witness:
  "\<exists>v db'. rotate_mailbox demo_inbound demo_tenant ''u1'' (replicate 10 0) demo_inbound_db = (Inr v, db')
     \<and> receive (\<lambda>x. ''00'') demo_brain demo_inbound demo_env demo_dto db' = (Inl (NotFound ''Unknown address''), db')"
proof -
  let ?part = "generate_local_part ''dan'' (replicate 10 0)"
  have part: "?part = ''dan-aaaaaaaaaa''" by code_simp
  have box: "find_mailbox demo_tenant demo_inbound_db = Some demo_box"
    by (simp add: find_mailbox_def demo_inbound_db_def demo_box_def new_mailbox_def)
  have sub: "subdomain_tx demo_tenant demo_inbound_db = Inr (''dan'', demo_inbound_db)"
    by (simp add: subdomain_tx_def demo_inbound_db_def demo_tenant_here_def)
  have "\<not> list_ex (\<lambda>x. mb_tenantId x \<noteq> demo_tenant \<and> P x) (inbound_mailboxes demo_inbound_db)" for P
    by (simp add: demo_inbound_db_def demo_box_def new_mailbox_def)
  then obtain db2 where "upsert_mailbox demo_tenant ?part (rotated_mailbox ?part) demo_inbound_db = Inr (rotated_mailbox ?part demo_box, db2)"
    using box by (simp add: upsert_mailbox_def Let_def)
  with sub have "\<exists>db'. rotate_mailbox demo_inbound demo_tenant ''u1'' (replicate 10 0) demo_inbound_db
      = (Inr (view_mailbox demo_inbound (rotated_mailbox ?part demo_box)), db')"
    by (simp add: rotate_mailbox_def for_tenant_def rotate_tx_def Let_def)
  then obtain v db' where run: "rotate_mailbox demo_inbound demo_tenant ''u1'' (replicate 10 0) demo_inbound_db = (Inr v, db')"
    and v: "mv_address v = ?part @ ''@'' @ ic_domain demo_inbound" by (auto simp: view_mailbox_def)
  have "to_lower ''dan-old'' = ''dan-old''" by code_simp
  then show ?thesis
    using rotated_address_is_dead [OF run box, of demo_dto] run v demo_part_found
    by (simp add: part demo_inbound_db_def demo_box_def new_mailbox_def demo_inbound_def demo_dto_def inbound_enabled_def)
qed

definition demo_forwarded :: inbound_email where
  "demo_forwarded = \<lparr>ie_sourceId = ''hash:00'', ie_from = ''x'', ie_subject = [], ie_bodyText = []\<rparr>"

lemma demo_forwarded: "forwarded_mail (\<lambda>x. ''00'') demo_dto = demo_forwarded"
proof -
  have "unwrap_forwarded [] = None" "strip_forward_prefix [] = []" by code_simp+
  then show ?thesis
    by (simp add: forwarded_mail_def demo_forwarded_def message_of_def demo_dto_def or_else_def attachments_note_def source_id_for_def)
qed

lemma demo_forwarded_ingested:
  "\<exists>db'. ingest demo_brain demo_env demo_tenant demo_forwarded (demo_inbound_db\<lparr>inbound_mailboxes := ms\<rparr>) = (Inr (Created ''id-1'' False 0), db')"
proof -
  have "email_re ''x'' = False" by code_simp
  then have v: "\<not> pf_isValidEmail (parse_from_header ''x'')"
    by (simp add: parse_from_header_def Let_def split_address_def trim_def is_newline_def is_ws_def)
  have id: "show_nat 0 = ''0''" "show_nat (Suc 0) = ''1''" by code_simp+
  show ?thesis
    using v demo_schema
    by (simp add: ingest_def demo_forwarded_def for_tenant_def already_ingested_tx_def resolve_customer_def create_sender_def customer_create_def
        customer_create_tx_def customer_row_def sender_params_def extract_from_email_def active_templates_tx_def demo_brain_def
        parse_and_validate_def default_priority_def mail_task_params_def should_auto_assign_def create_from_email_def create_from_email_tx_def
        resolve_template_defaults_def task_create_def demo_inbound_db_def demo_defs next_id_def bump_id_def Let_def id)
qed

theorem delivery_retry_makes_no_second_task_witness:
  "\<exists>db' db''. receive (\<lambda>x. ''00'') demo_brain demo_inbound demo_env demo_dto demo_inbound_db = (Inr (Task_created ''id-1''), db')
     \<and> receive (\<lambda>x. ''00'') demo_brain demo_inbound demo_env demo_dto db' = (Inr Duplicate, db'') \<and> tasks db'' = tasks db'"
proof -
  obtain ms where m: "for_tenant demo_tenant (update_mailbox demo_tenant (counted_mailbox demo_env)) demo_inbound_db
      = (Inr (), demo_inbound_db\<lparr>inbound_mailboxes := ms\<rparr>)"
    by (simp add: for_tenant_def update_mailbox_def update_rows_def demo_inbound_db_def demo_box_def new_mailbox_def)
  from demo_forwarded_ingested [of ms] obtain db' where
    "receive (\<lambda>x. ''00'') demo_brain demo_inbound demo_env demo_dto demo_inbound_db = (Inr (Task_created ''id-1''), db')"
    using demo_addressed demo_kinds(1,2) m demo_forwarded by (auto simp: receive_def receive_for_def inbound_enabled_def demo_inbound_def)
  from delivery_retry_makes_no_second_task [OF this, of demo_brain demo_env] this show ?thesis by blast
qed

end
