(* ===== verification/Lifecycle.thy ===== *)
theory Lifecycle
  imports Delivery
begin

text \<open>
  The outbox as one event sees it: an abstract life cycle, and the proof that every step of
  the publishers, the queue and the processor moves each event along it.
\<close>

section \<open>The life of an event\<close>

datatype stage = Absent | Waiting | Held | Queued nat | Settled bool | Stuck

inductive moves :: "stage \<Rightarrow> stage \<Rightarrow> bool" where
  stays: "moves x x"
| appears: "moves Absent Waiting"
| claimed: "moves Waiting Held"
| pushed: "moves Held (Queued 0)"
| given_back: "moves Held Waiting"
| handled: "moves (Queued n) (Settled True)"
| retried: "Suc n < retry_attempts \<Longrightarrow> moves (Queued n) (Queued (Suc n))"
| given_up: "retry_attempts \<le> Suc n \<Longrightarrow> moves (Queued n) (Settled False)"

inductive_cases moves_from_settled: "moves (Settled b) x"

text \<open>Where an event stands, read off the table, the queue and the publishers.\<close>

definition queue_stage :: "job list \<Rightarrow> string set \<Rightarrow> string \<Rightarrow> stage" where
  "queue_stage q held i = (case List.find (\<lambda>j. jb_outboxEventId j = i) q of
     Some j \<Rightarrow> Queued (jb_attemptsMade j) | None \<Rightarrow> if i \<in> held then Held else Stuck)"

fun row_stage :: "job list \<Rightarrow> string set \<Rightarrow> string \<Rightarrow> outbox_event option \<Rightarrow> stage" where
  "row_stage q held i None = Absent"
| "row_stage q held i (Some o') = (case ob_status o' of
     PENDING \<Rightarrow> Waiting | PROCESSING \<Rightarrow> queue_stage q held i | DONE \<Rightarrow> Settled True | DEAD \<Rightarrow> Settled False | FAILED \<Rightarrow> Stuck)"

definition row_of_event :: "string \<Rightarrow> db \<Rightarrow> outbox_event option" where
  "row_of_event i db = List.find (\<lambda>o'. ob_id o' = i) (outbox_events db)"

definition stage_of :: "string \<Rightarrow> sys \<Rightarrow> stage" where
  "stage_of i s = row_stage (s_queue s) (inflight_ids s) i (row_of_event i (s_db s))"

section \<open>Every step is a move\<close>

lemma row_of_event_in: "row_of_event i db = Some o' \<Longrightarrow> o' \<in> set (outbox_events db) \<and> ob_id o' = i"
  unfolding row_of_event_def by (rule find_SomeD)

lemma find_append_other: "\<not> P y \<Longrightarrow> List.find P (xs @ [y]) = List.find P xs"
  by (induction xs) auto

lemma find_append_rows: "List.find P (xs @ ys) = (case List.find P xs of None \<Rightarrow> List.find P ys | Some x \<Rightarrow> Some x)"
  by (induction xs) auto

lemma find_remove1_other: "\<not> P y \<Longrightarrow> List.find P (remove1 y xs) = List.find P xs"
  by (induction xs) auto

lemma queue_find: "i \<notin> queued_ids s \<longleftrightarrow> List.find (\<lambda>j. jb_outboxEventId j = i) (s_queue s) = None"
  by (auto simp: queued_ids_def find_None_iff)

lemma appended_row:
  assumes "appends_pending db db'"
  shows "row_of_event i db' = row_of_event i db
    \<or> row_of_event i db = None \<and> (\<exists>o'. row_of_event i db' = Some o' \<and> ob_status o' = PENDING)"
proof -
  from assms obtain new where new: "outbox_events db' = outbox_events db @ new" "\<forall>o' \<in> set new. ob_status o' = PENDING"
    by (auto simp: appends_pending_def)
  show ?thesis
    by (cases "List.find (\<lambda>o'. ob_id o' = i) new")
      (use find_SomeD [of "\<lambda>o'. ob_id o' = i" new] new in \<open>auto simp: row_of_event_def find_append_rows split: option.splits\<close>)
qed

lemma changed_row:
  assumes "outbox_events db' = map (\<lambda>o'. if ob_id o' = k then g o' else o') (outbox_events db)" and "\<And>o'. ob_id (g o') = ob_id o'"
  shows "row_of_event i db' = (if i = k then map_option g (row_of_event i db) else row_of_event i db)"
proof -
  have "row_of_event i db' = map_option (\<lambda>o'. if ob_id o' = k then g o' else o') (row_of_event i db)"
    unfolding row_of_event_def assms(1) by (rule find_map_rows) (simp add: assms(2))
  then show ?thesis
    using row_of_event_in [of i db] by (cases "row_of_event i db") auto
qed

lemma business_moves:
  assumes "appends_pending (s_db s) db'"
  shows "moves (stage_of i s) (stage_of i (s\<lparr>s_db := db'\<rparr>))"
  using appended_row [OF assms, of i] by (auto simp: stage_of_def inflight_ids_def intro: moves.intros)

lemma claim_moves:
  assumes "sys_ok s"
  shows "moves (stage_of i s) (stage_of i (claim_batch e s))"
proof -
  let ?rows = "claim_rows e batch_size (s_db s)" and ?f = "\<lambda>o'. o'\<lparr>ob_status := PROCESSING\<rparr>"
  have s: "claim_batch e s = s\<lparr>s_db := (s_db s)\<lparr>outbox_events := map (\<lambda>o'. if ob_id o' \<in> ob_id ` set ?rows then ?f o' else o')
      (outbox_events (s_db s))\<rparr>, s_inflight := s_inflight s @ map ?f ?rows\<rparr>"
    by (simp add: claim_batch_def claim_outbox_batch_def Let_def)
  have row: "row_of_event i (s_db (claim_batch e s)) = map_option (\<lambda>o'. if ob_id o' \<in> ob_id ` set ?rows then ?f o' else o') (row_of_event i (s_db s))"
    unfolding row_of_event_def s by (simp add: find_map_rows del: set_map)
  have held: "inflight_ids (claim_batch e s) = inflight_ids s \<union> ob_id ` set ?rows" "s_queue (claim_batch e s) = s_queue s"
    by (simp_all add: s inflight_ids_def image_Un image_image)
  show ?thesis
  proof (cases "row_of_event i (s_db s)")
    case None
    with row show ?thesis by (simp add: stage_of_def moves.stays)
  next
    case (Some o')
    note o' = row_of_event_in [OF Some]
    show ?thesis
    proof (cases "i \<in> ob_id ` set ?rows")
      case True
      then obtain r where r: "r \<in> set (outbox_events (s_db s))" "ob_status r = PENDING" "ob_id r = i"
        by (auto simp: claim_rows_def claimable_def dest!: in_set_takeD)
      have "distinct (map ob_id (outbox_events (s_db s)))" using assms by (simp add: sys_ok_def)
      from distinct_map_eq [OF this r(1), of o'] o' r(3) have "r = o'" by simp
      with r sys_ok_row [OF assms, of o'] o' have st: "ob_status o' = PENDING" "i \<notin> queued_ids s"
        by (auto simp: row_ok_def)
      then have "stage_of i (claim_batch e s) = Held" "stage_of i s = Waiting"
        using Some row True o' held queue_find [of i s] by (auto simp: stage_of_def queue_stage_def)
      then show ?thesis by (simp add: moves.claimed)
    next
      case False
      then have "stage_of i (claim_batch e s) = stage_of i s"
        using Some row o' held by (auto simp: stage_of_def queue_stage_def split: outbox_status.splits)
      then show ?thesis by (simp add: moves.stays)
    qed
  qed
qed

lemma push_moves:
  assumes "sys_ok s" and "row \<in> set (s_inflight s)"
  shows "moves (stage_of i s) (stage_of i (publish_next e pushed row s))"
proof -
  let ?s = "publish_next e pushed row s"
  have dI: "distinct (map ob_id (s_inflight s))" using assms(1) by (simp add: sys_ok_def)
  have I: "inflight_ids ?s = inflight_ids s - {ob_id row}"
    using remove1_ids [OF dI assms(2)] by (simp add: publish_next_def inflight_ids_def)
  have held: "ob_id row \<in> inflight_ids s" using assms(2) by (simp add: inflight_ids_def)
  then have "ob_id row \<in> event_ids s" using assms(1) by (auto simp: sys_ok_def)
  then obtain o0 where o0: "o0 \<in> set (outbox_events (s_db s))" "ob_id o0 = ob_id row" by (auto simp: event_ids_def)
  from sys_ok_row [OF assms(1) o0(1)] held o0(2)
  have free: "ob_id row \<notin> queued_ids s" "ob_id row \<notin> known_ids s" by (auto simp: row_ok_def split: outbox_status.splits)
  have rows: "outbox_events (s_db ?s) = map (\<lambda>o'. if ob_id o' = ob_id row then (if pushed then id else settle_row e PENDING None None (Some 10000)) o' else o')
      (outbox_events (s_db s))"
    by (auto simp: publish_next_def publish_one_def queue_add_def map_idI)
  have row: "row_of_event i (s_db ?s) = (if i = ob_id row
      then map_option (if pushed then id else settle_row e PENDING None None (Some 10000)) (row_of_event i (s_db s)) else row_of_event i (s_db s))"
    by (rule changed_row [OF rows]) simp
  have q: "s_queue ?s = (if pushed then s_queue s @ [job_of row] else s_queue s)"
    using free by (simp add: publish_next_def publish_one_def queue_add_def known_ids_def job_id_def job_of_def)
  show ?thesis
  proof (cases "i = ob_id row")
    case True
    obtain o' where o': "row_of_event i (s_db s) = Some o'"
      using o0 True by (cases "row_of_event i (s_db s)") (auto simp: row_of_event_def find_None_iff)
    from sys_ok_row [OF assms(1), of o'] row_of_event_in [OF o'] held True
    have st: "ob_status o' = PROCESSING" by (auto simp: row_ok_def split: outbox_status.splits)
    have none: "List.find (\<lambda>j. jb_outboxEventId j = i) (s_queue s) = None" using free(1) queue_find [of i s] True by simp
    then have "stage_of i s = Held" using st o' held True by (simp add: stage_of_def queue_stage_def)
    moreover have "stage_of i ?s = (if pushed then Queued 0 else Waiting)"
      using row q o' st none True by (simp add: stage_of_def queue_stage_def find_append_rows job_of_def)
    ultimately show ?thesis by (auto intro: moves.intros)
  next
    case False
    then have "List.find (\<lambda>j. jb_outboxEventId j = i) (s_queue ?s) = List.find (\<lambda>j. jb_outboxEventId j = i) (s_queue s)"
      using q by (simp add: find_append_other job_of_def)
    then have "stage_of i ?s = stage_of i s"
      using row I False by (cases "row_of_event i (s_db s)") (simp_all add: stage_of_def queue_stage_def split: outbox_status.splits)
    then show ?thesis by (simp add: moves.stays)
  qed
qed

lemma deliver_moves:
  assumes "sys_ok s" and "j \<in> set (s_queue s)" and "quiet_mailer mailer"
  shows "moves (stage_of i s) (stage_of i (process_job mailer zu e j s))"
  using assms(3) refl
proof (rule process_job_rows)
  let ?s = "process_job mailer zu e j s" and ?k = "jb_outboxEventId j"
  fix db1 st a err
  assume app: "appends_pending (s_db s) db1" and st: "st \<in> {DONE, DEAD, PROCESSING}"
    and rows: "outbox_events (s_db ?s) = map (\<lambda>o'. if ob_id o' = ?k then settle_row e st a err None o' else o') (outbox_events db1)"
    and q: "s_queue ?s = remove1 j (s_queue s) @ (if st = PROCESSING then [j\<lparr>jb_attemptsMade := jb_attemptsMade j + 1\<rparr>] else [])"
    and infl: "s_inflight ?s = s_inflight s"
    and again: "st = PROCESSING \<longrightarrow> jb_attemptsMade j + 1 < retry_attempts"
    and dead: "st = DEAD \<longrightarrow> retry_attempts \<le> jb_attemptsMade j + 1"
  have row: "row_of_event i (s_db ?s) = (if i = ?k then map_option (settle_row e st a err None) (row_of_event i db1) else row_of_event i db1)"
    by (rule changed_row [OF rows]) simp
  have I: "inflight_ids ?s = inflight_ids s" by (simp add: inflight_ids_def infl)
  have dQ: "distinct (map jb_outboxEventId (s_queue s))" using assms(1) by (simp add: sys_ok_def)
  show ?thesis
  proof (cases "i = ?k")
    case True
    have "i \<in> queued_ids s" using assms(2) True by (simp add: queued_ids_def)
    moreover from this have "i \<in> event_ids s" using assms(1) by (auto simp: sys_ok_def)
    then obtain o0 where "o0 \<in> set (outbox_events (s_db s))" "ob_id o0 = i" by (auto simp: event_ids_def)
    then obtain o' where o': "row_of_event i (s_db s) = Some o'"
      by (cases "row_of_event i (s_db s)") (auto simp: row_of_event_def find_None_iff)
    ultimately have "ob_status o' = PROCESSING"
      using sys_ok_row [OF assms(1), of o'] row_of_event_in [OF o'] by (auto simp: row_ok_def split: outbox_status.splits)
    moreover have "List.find (\<lambda>x. jb_outboxEventId x = i) (s_queue s) = Some j"
    proof -
      obtain j' where j': "List.find (\<lambda>x. jb_outboxEventId x = i) (s_queue s) = Some j'"
        using \<open>i \<in> queued_ids s\<close> queue_find [of i s] by auto
      have "j = j'"
        by (rule distinct_map_eq [OF dQ assms(2)]) (use find_SomeD [OF j'] True in auto)
      with j' show ?thesis by simp
    qed
    ultimately have now: "stage_of i s = Queued (jb_attemptsMade j)" using o' by (simp add: stage_of_def queue_stage_def)
    have "row_of_event i db1 = Some o'" using appended_row [OF app, of i] o' by auto
    with row True have r: "row_of_event i (s_db ?s) = Some (settle_row e st a err None o')" by simp
    have "List.find (\<lambda>x. jb_outboxEventId x = i) (remove1 j (s_queue s)) = None"
      using remove1_ids(1) [OF dQ assms(2)] True by (auto simp: find_None_iff)
    with r q have "stage_of i ?s = (if st = PROCESSING then Queued (Suc (jb_attemptsMade j)) else Settled (st = DONE))"
      using st True by (auto simp: stage_of_def queue_stage_def find_append_rows)
    with now again dead st show ?thesis by (auto intro: moves.intros)
  next
    case False
    then have "List.find (\<lambda>x. jb_outboxEventId x = i) (s_queue ?s) = List.find (\<lambda>x. jb_outboxEventId x = i) (s_queue s)"
      by (simp add: q find_append_other find_remove1_other)
    then have eq: "row_stage (s_queue ?s) (inflight_ids ?s) i r = row_stage (s_queue s) (inflight_ids s) i r" for r
      by (cases r) (simp_all add: queue_stage_def I split: outbox_status.splits)
    show ?thesis
      using appended_row [OF app, of i] row False unfolding stage_of_def eq by (auto intro: moves.intros)
  qed
qed

lemma step_moves:
  assumes "sys_step mailer zu s s'" and "sys_ok s" and "quiet_mailer mailer"
  shows "moves (stage_of i s) (stage_of i s')"
  using assms(1)
proof cases
  case (forget ids)
  then show ?thesis by (simp add: stage_of_def inflight_ids_def moves.stays)
qed (use assms business_moves claim_moves push_moves deliver_moves in auto)

lemma settled_is_final: "moves\<^sup>*\<^sup>* (Settled b) x \<Longrightarrow> x = Settled b"
  by (induction rule: rtranclp_induct) (auto elim: moves_from_settled)

text \<open>The outbox refines the life cycle, in which a settled event stays settled.\<close>

text \<open>C24. The queue, its publisher and its processor implement the life cycle of an event: seen
  through its stage, every step of the system is some steps of absent, pending, claimed,
  queued, settled; a settled event never changes and none is stuck while no publisher crashes.\<close>
theorem outbox_refines_life_cycle:
  assumes "(sys_step mailer zu)\<^sup>*\<^sup>* empty_sys s" and "(sys_step mailer zu)\<^sup>*\<^sup>* s s'" and "quiet_mailer mailer"
  shows "moves\<^sup>*\<^sup>* Absent (stage_of i s) \<and> moves\<^sup>*\<^sup>* (stage_of i s) (stage_of i s')
    \<and> (\<forall>b. stage_of i s = Settled b \<longrightarrow> stage_of i s' = Settled b) \<and> stage_of i s \<noteq> Stuck"
proof -
  have sim: "moves\<^sup>*\<^sup>* (stage_of i a) (stage_of i b)" if "(sys_step mailer zu)\<^sup>*\<^sup>* a b" "sys_ok a" for a b
    using that(1)
  proof (induction rule: rtranclp_induct)
    case (step y z)
    have "sys_ok y" by (rule sys_steps_ok [OF step(1) assms(3) that(2)])
    with step step_moves [OF step(2) _ assms(3), of i] show ?case by (simp add: rtranclp.rtrancl_into_rtrancl)
  qed simp
  have ok: "sys_ok s" by (rule sys_steps_ok [OF assms(1,3) empty_sys_ok])
  have "stage_of i empty_sys = Absent" by (simp add: stage_of_def row_of_event_def empty_sys_def empty_db_def)
  with sim [OF assms(1) empty_sys_ok] have a: "moves\<^sup>*\<^sup>* Absent (stage_of i s)" by simp
  have never: "x = Stuck \<Longrightarrow> False" if "moves\<^sup>*\<^sup>* Absent x" for x
    using that by (induction rule: rtranclp_induct) (auto elim: moves.cases)
  from sim [OF assms(2) ok] a never [OF a] settled_is_final show ?thesis by metis
qed

theorem outbox_refines_life_cycle_witness:
  "moves\<^sup>*\<^sup>* Absent (stage_of ''e1'' demo_pushed) \<and> stage_of ''e1'' demo_pushed = Queued 0"
proof -
  have "stage_of ''e1'' demo_pushed = Queued 0"
    by (simp add: stage_of_def row_of_event_def demo_pushed demo_claimed demo_event_def queue_stage_def job_of_def)
  with outbox_refines_life_cycle [OF demo_reached(2) rtranclp.rtrancl_refl demo_quiet, of "''e1''"] show ?thesis by simp
qed

end
