(* ===== verification/Metering.thy ===== *)
theory Metering
  imports Database
begin

text \<open>
  llm/: what a call to a language model costs (llm-pricing.ts), the account and the ceiling of
  a tenant (llm-usage.service.ts), and the wrapper every call goes through
  (metered-llm.provider.ts). The provider is a parameter. The month of the business begins at
  \<open>month_start now\<close>; prices are in agorot for a million tokens; the cost is computed
  exactly, where the code multiplies doubles. No model is named like a property of
  \<open>Object.prototype\<close>.
\<close>

section \<open>The contract of a provider\<close>

datatype llm_role = User | Assistant

record llm_message =
  lm_role :: llm_role
  lm_content :: string

record llm_tool_call =
  tc_id :: string
  tc_name :: string
  tc_input :: json
  tc_providerMetadata :: "json option"

record llm_tool_result =
  tr_toolCallId :: string
  tr_name :: string
  tr_content :: string
  tr_isError :: bool

record llm_tool_definition =
  td_name :: string
  td_description :: string
  td_parameters :: json

record llm_request =
  rq_system :: "string option"
  rq_messages :: "llm_message list"
  rq_tools :: "llm_tool_definition list"
  rq_maxTokens :: "nat option"
  rq_purpose :: string
  rq_tenantId :: "string option"

record llm_usage_info =
  us_inputTokens :: nat
  us_outputTokens :: nat
  us_cacheReadTokens :: "nat option"
  us_cacheCreationTokens :: "nat option"

datatype stop_reason = End | Tool_Use | Max_Tokens | Other

record llm_response =
  rs_text :: string
  rs_toolCalls :: "llm_tool_call list"
  rs_stopReason :: stop_reason
  rs_usage :: llm_usage_info
  rs_model :: string

record llm_provider =
  pv_name :: string
  pv_model :: string
  pv_isConfigured :: bool
  pv_complete :: "llm_request \<Rightarrow> http_error + llm_response"
  pv_continue :: "llm_request \<Rightarrow> llm_response \<Rightarrow> llm_tool_result list \<Rightarrow> http_error + llm_response"

section \<open>Prices\<close>

record model_price =
  mp_input :: nat
  mp_output :: nat

definition unknown_price :: model_price where
  "unknown_price = \<lparr>mp_input = 1000, mp_output = 5000\<rparr>"

definition prices :: "(string \<times> model_price) list" where
  "prices =
     [(''claude-opus-5'', \<lparr>mp_input = 5500, mp_output = 27500\<rparr>),
      (''claude-sonnet-5'', \<lparr>mp_input = 1100, mp_output = 5500\<rparr>),
      (''claude-haiku-4-5-20251001'', \<lparr>mp_input = 370, mp_output = 1840\<rparr>),
      (''gemini-3.7-flash'', \<lparr>mp_input = 110, mp_output = 400\<rparr>),
      (''gemini-3.6-flash'', \<lparr>mp_input = 110, mp_output = 400\<rparr>),
      (''gemini-3.5-flash-lite'', \<lparr>mp_input = 40, mp_output = 150\<rparr>),
      (''gemini-3-flash-preview'', \<lparr>mp_input = 110, mp_output = 400\<rparr>)]"

definition price_for :: "string \<Rightarrow> model_price" where
  "price_for model = or_else (map_of prices model) unknown_price"

definition is_model_priced :: "string \<Rightarrow> bool" where
  "is_model_priced model \<longleftrightarrow> map_of prices model \<noteq> None"

definition cache_read_multiplier :: rat where
  "cache_read_multiplier = 1 / 10"

definition cache_write_multiplier :: rat where
  "cache_write_multiplier = 5 / 4"

text \<open>The cost of the tokens in millionths of an agora.\<close>

definition exact_cost :: "string \<Rightarrow> llm_usage_info \<Rightarrow> rat" where
  "exact_cost model usage =
     (let p = price_for model;
          inputMinor = of_nat (us_inputTokens usage) * of_nat (mp_input p)
            + of_nat (or_else (us_cacheReadTokens usage) 0) * of_nat (mp_input p) * cache_read_multiplier
            + of_nat (or_else (us_cacheCreationTokens usage) 0) * of_nat (mp_input p) * cache_write_multiplier
      in inputMinor + of_nat (us_outputTokens usage) * of_nat (mp_output p))"

definition estimate_cost_minor :: "string \<Rightarrow> llm_usage_info \<Rightarrow> int" where
  "estimate_cost_minor model usage = \<lceil>exact_cost model usage / 1000000\<rceil>"

section \<open>The account of a tenant\<close>

definition month_spent :: "(int \<Rightarrow> int) \<Rightarrow> env \<Rightarrow> string \<Rightarrow> db \<Rightarrow> nat" where
  "month_spent month_start e tid db =
     sum_list (map lu_estimatedCostMinor
       (filter (\<lambda>u. lu_tenantId u = tid \<and> month_start (now e) \<le> lu_createdAt u) (llm_usage db)))"

definition month_budget :: "int \<Rightarrow> string \<Rightarrow> db \<Rightarrow> int" where
  "month_budget default_budget tid db =
     (case List.find (\<lambda>c. cf_tenantId c = tid) (tenant_configs db) of
        None \<Rightarrow> default_budget
      | Some c \<Rightarrow> or_else (cf_llmMonthlyBudgetMinor c) default_budget)"

record meter =
  mt_monthStart :: "int \<Rightarrow> int"
  mt_defaultBudget :: int

definition month_to_date :: "meter \<Rightarrow> env \<Rightarrow> string \<Rightarrow> (nat \<times> int) svc" where
  "month_to_date m e tid = for_tenant tid (\<lambda>db.
     Inr ((month_spent (mt_monthStart m) e tid db, month_budget (mt_defaultBudget m) tid db), db))"

definition budget_reached :: http_error where
  "budget_reached = Forbidden ''Monthly AI budget for this account has been reached. Contact your administrator to raise it.''"

definition assert_within_budget :: "meter \<Rightarrow> env \<Rightarrow> string \<Rightarrow> unit svc" where
  "assert_within_budget m e tid db =
     (case month_to_date m e tid db of
        (Inl err, db') \<Rightarrow> (Inl err, db')
      | (Inr (spent, budget), db') \<Rightarrow> (if budget \<le> int spent then Inl budget_reached else Inr (), db'))"

text \<open>A 32-bit column, and the foreign key to the tenant.\<close>

definition fits_int4 :: "nat \<Rightarrow> bool" where
  "fits_int4 n \<longleftrightarrow> n < 2147483648"

definition usage_row :: "env \<Rightarrow> string \<Rightarrow> string \<Rightarrow> string \<Rightarrow> llm_usage_info \<Rightarrow> llm_usage_row" where
  "usage_row e tid purpose model usage =
     \<lparr>lu_tenantId = tid, lu_purpose = purpose, lu_model = model,
      lu_inputTokens = us_inputTokens usage, lu_outputTokens = us_outputTokens usage,
      lu_cacheReadTokens = or_else (us_cacheReadTokens usage) 0,
      lu_cacheCreationTokens = or_else (us_cacheCreationTokens usage) 0,
      lu_estimatedCostMinor = nat (estimate_cost_minor model usage), lu_createdAt = now e\<rparr>"

definition usage_create :: "llm_usage_row \<Rightarrow> unit tx" where
  "usage_create row db =
     (if \<not> list_all fits_int4 [lu_inputTokens row, lu_outputTokens row, lu_cacheReadTokens row,
            lu_cacheCreationTokens row, lu_estimatedCostMinor row]
      then Inl (Thrown ''value out of range for type integer'')
      else if \<not> list_ex (\<lambda>t. tn_id t = lu_tenantId row) (tenants db) then Inl (PrismaKnown ''P2003'')
      else Inr ((), db\<lparr>llm_usage := llm_usage db @ [row]\<rparr>))"

text \<open>A failure to record is logged and swallowed.\<close>

definition record_usage :: "env \<Rightarrow> string option \<Rightarrow> string \<Rightarrow> string \<Rightarrow> llm_usage_info \<Rightarrow> db \<Rightarrow> db" where
  "record_usage e tenantId purpose model usage db =
     (if \<not> truthy tenantId then db
      else snd (for_tenant (the tenantId) (usage_create (usage_row e (the tenantId) purpose model usage)) db))"

section \<open>The metered provider\<close>

definition meter_call :: "env \<Rightarrow> llm_request \<Rightarrow> http_error + llm_response \<Rightarrow> llm_response svc" where
  "meter_call e request response db =
     (case response of
        Inl err \<Rightarrow> (Inl err, db)
      | Inr r \<Rightarrow> (Inr r, record_usage e (rq_tenantId request) (rq_purpose request) (rs_model r) (rs_usage r) db))"

definition metered_complete :: "meter \<Rightarrow> env \<Rightarrow> llm_provider \<Rightarrow> llm_request \<Rightarrow> llm_response svc" where
  "metered_complete m e inner request db =
     (if truthy (rq_tenantId request)
      then (case assert_within_budget m e (the (rq_tenantId request)) db of
              (Inl err, db') \<Rightarrow> (Inl err, db')
            | (Inr _, db') \<Rightarrow> meter_call e request (pv_complete inner request) db')
      else meter_call e request (pv_complete inner request) db)"

definition metered_continue ::
  "env \<Rightarrow> llm_provider \<Rightarrow> llm_request \<Rightarrow> llm_response \<Rightarrow> llm_tool_result list \<Rightarrow> llm_response svc" where
  "metered_continue e inner request previous results =
     meter_call e request (pv_continue inner request previous results)"

section \<open>What a call costs\<close>

lemma price_positive: "0 < mp_input (price_for model) \<and> 0 < mp_output (price_for model)"
  by (simp add: price_for_def prices_def unknown_price_def or_else_def)

lemma exact_cost_nonneg: "0 \<le> exact_cost model usage"
  by (simp add: exact_cost_def Let_def cache_read_multiplier_def cache_write_multiplier_def)

text \<open>Every term of the cost is at least 0; those of the tokens are positive when there are any.\<close>

lemma exact_cost_pos:
  assumes "us_inputTokens usage + us_outputTokens usage \<noteq> 0"
  shows "0 < exact_cost model usage"
proof -
  let ?i = "of_nat (us_inputTokens usage) * of_nat (mp_input (price_for model)) :: rat"
  let ?o = "of_nat (us_outputTokens usage) * of_nat (mp_output (price_for model)) :: rat"
  have "0 < ?i + ?o"
  proof (cases "us_inputTokens usage = 0")
    case True
    with assms price_positive [of model] show ?thesis by simp
  next
    case False
    with price_positive [of model] have "0 < ?i" by simp
    moreover have "0 \<le> ?o" by simp
    ultimately show ?thesis by linarith
  qed
  moreover have "0 \<le> of_nat (or_else (us_cacheReadTokens usage) 0) * of_nat (mp_input (price_for model)) * cache_read_multiplier"
    "0 \<le> of_nat (or_else (us_cacheCreationTokens usage) 0) * of_nat (mp_input (price_for model)) * cache_write_multiplier"
    by (simp_all add: cache_read_multiplier_def cache_write_multiplier_def)
  ultimately show ?thesis unfolding exact_cost_def Let_def by linarith
qed

theorem cost_is_never_underestimated:
  "exact_cost model usage \<le> of_int (estimate_cost_minor model usage) * 1000000
   \<and> of_int (estimate_cost_minor model usage) * 1000000 < exact_cost model usage + 1000000
   \<and> 0 \<le> estimate_cost_minor model usage
   \<and> (us_inputTokens usage + us_outputTokens usage \<noteq> 0 \<longrightarrow> 1 \<le> estimate_cost_minor model usage)"
proof -
  let ?c = "exact_cost model usage"
  have up: "?c / 1000000 \<le> of_int (estimate_cost_minor model usage)"
    and tight: "of_int (estimate_cost_minor model usage) < ?c / 1000000 + 1"
    using ceiling_correct [of "?c / 1000000"] by (auto simp: estimate_cost_minor_def)
  have "(0 :: rat) \<le> of_int (estimate_cost_minor model usage)"
    using up exact_cost_nonneg [of model usage] by linarith
  moreover have "(0 :: rat) < of_int (estimate_cost_minor model usage)" if "us_inputTokens usage + us_outputTokens usage \<noteq> 0"
    using up exact_cost_pos [OF that, of model] by linarith
  ultimately show ?thesis using up tight by (auto simp: field_simps)
qed

section \<open>The ceiling\<close>

lemma record_usage_tables:
  "tenant_configs (record_usage e t p mo u db) = tenant_configs db"
  "tenants (record_usage e t p mo u db) = tenants db"
  by (auto simp: record_usage_def for_tenant_def usage_create_def split: sum.splits if_splits)

lemma record_usage_rows:
  "llm_usage (record_usage e t p mo u db) = llm_usage db
   \<or> llm_usage (record_usage e t p mo u db) = llm_usage db @ [usage_row e (the t) p mo u]"
  by (auto simp: record_usage_def for_tenant_def usage_create_def split: sum.splits if_splits)

interpretation usage_op: tenant_op tid "usage_create (usage_row e tid p mo u)" for e tid p mo u
  by unfold_locales (auto simp: usage_create_def usage_row_def others_def split: if_splits)

lemma record_usage_isolated: "others tid (record_usage e (Some tid) p mo u db) = others tid db"
  using usage_op.isolated by (simp add: record_usage_def)

lemma record_usage_no_tenant [simp]: "\<not> truthy t \<Longrightarrow> record_usage e t p mo u db = db"
  by (simp add: record_usage_def)

lemma assert_within_budget_db: "assert_within_budget m e tid db = (r, db') \<Longrightarrow> db' = db"
  by (auto simp: assert_within_budget_def month_to_date_def for_tenant_def split: if_splits)

lemma assert_within_budget_ok:
  "assert_within_budget m e tid db = (Inr u, db') \<Longrightarrow>
     int (month_spent (mt_monthStart m) e tid db) < month_budget (mt_defaultBudget m) tid db"
  by (auto simp: assert_within_budget_def month_to_date_def for_tenant_def split: if_splits)

text \<open>A call without a tenant is the provider's call.\<close>

lemma unmetered_complete:
  "\<not> truthy (rq_tenantId request) \<Longrightarrow> metered_complete m e inner request db = (pv_complete inner request, db)"
  by (simp add: metered_complete_def meter_call_def split: sum.split)

lemma unmetered_continue:
  "\<not> truthy (rq_tenantId request) \<Longrightarrow> metered_continue e inner request previous results db = (pv_continue inner request previous results, db)"
  by (simp add: metered_continue_def meter_call_def split: sum.split)

theorem reached_budget_blocks_the_call:
  assumes "is_uuid tid" and "rq_tenantId request = Some tid"
    and "month_budget (mt_defaultBudget m) tid db \<le> int (month_spent (mt_monthStart m) e tid db)"
  shows "metered_complete m e inner request db = (Inl budget_reached, db)"
proof -
  have "truthy (Some tid)" using assms(1) by (auto simp: truthy_def is_uuid_def Let_def)
  with assms show ?thesis
    by (simp add: metered_complete_def assert_within_budget_def month_to_date_def for_tenant_def)
qed

text \<open>Calls one after the other, by any tenants: first calls and the continuations of tool rounds.\<close>

datatype metered_call = First llm_request | Continued llm_request llm_response "llm_tool_result list"

fun call_request :: "metered_call \<Rightarrow> llm_request" where
  "call_request (First request) = request"
| "call_request (Continued request previous results) = request"

fun metered :: "meter \<Rightarrow> env \<Rightarrow> llm_provider \<Rightarrow> metered_call \<Rightarrow> llm_response svc" where
  "metered m e inner (First request) = metered_complete m e inner request"
| "metered m e inner (Continued request previous results) = metered_continue e inner request previous results"

fun run_calls :: "meter \<Rightarrow> (env \<times> llm_provider \<times> metered_call) list \<Rightarrow> db \<Rightarrow> (http_error + llm_response) list \<times> db" where
  "run_calls m [] db = ([], db)"
| "run_calls m ((e, inner, c) # cs) db =
     (let (r, db1) = metered m e inner c db; (rs, db2) = run_calls m cs db1 in (r # rs, db2))"

text \<open>What an answer costs the tenant that asked.\<close>

definition charged :: "string \<Rightarrow> metered_call \<Rightarrow> http_error + llm_response \<Rightarrow> nat" where
  "charged tid c r = (case r of Inl _ \<Rightarrow> 0
     | Inr a \<Rightarrow> if rq_tenantId (call_request c) = Some tid then nat (estimate_cost_minor (rs_model a) (rs_usage a)) else 0)"

text \<open>The answered continuations of a tenant since its last answered first call, \<open>n\<close> of them before.\<close>

fun unguarded :: "string \<Rightarrow> nat \<Rightarrow> metered_call list \<Rightarrow> (http_error + llm_response) list \<Rightarrow> nat" where
  "unguarded tid n (c # cs) (Inr a # rs) =
     unguarded tid (if rq_tenantId (call_request c) = Some tid then case c of First _ \<Rightarrow> 0 | Continued _ _ _ \<Rightarrow> Suc n else n) cs rs"
| "unguarded tid n (c # cs) (Inl err # rs) = unguarded tid n cs rs"
| "unguarded tid n cs rs = n"

text \<open>An answer whose row fits the columns and that costs at most \<open>C\<close>.\<close>

definition answer_fits :: "nat \<Rightarrow> http_error + llm_response \<Rightarrow> bool" where
  "answer_fits C r = (case r of Inl _ \<Rightarrow> True
     | Inr a \<Rightarrow> list_all fits_int4 [us_inputTokens (rs_usage a), us_outputTokens (rs_usage a), or_else (us_cacheReadTokens (rs_usage a)) 0,
           or_else (us_cacheCreationTokens (rs_usage a)) 0]
         \<and> nat (estimate_cost_minor (rs_model a) (rs_usage a)) \<le> C)"

definition known_tenant :: "string \<Rightarrow> db \<Rightarrow> bool" where
  "known_tenant tid db \<longleftrightarrow> is_uuid tid \<and> list_ex (\<lambda>t. tn_id t = tid) (tenants db)"

lemma known_truthy: "known_tenant tid db \<Longrightarrow> truthy (Some tid)"
  by (auto simp: known_tenant_def truthy_def is_uuid_def Let_def)

text \<open>A recorded answer of this month is counted, once.\<close>

lemma record_usage_spent:
  assumes "known_tenant tid db" and "answer_fits C (Inr a)" and "fits_int4 C"
    and "mt_monthStart m (now e) = mt_monthStart m (now ref)" and "mt_monthStart m (now e) \<le> now e"
  shows "month_spent (mt_monthStart m) ref tid (record_usage e t purpose (rs_model a) (rs_usage a) db)
    = month_spent (mt_monthStart m) ref tid db
      + (if t = Some tid then nat (estimate_cost_minor (rs_model a) (rs_usage a)) else 0)"
proof (cases "t = Some tid")
  case True
  from assms(2,3) have "list_all fits_int4 [us_inputTokens (rs_usage a), us_outputTokens (rs_usage a), or_else (us_cacheReadTokens (rs_usage a)) 0,
      or_else (us_cacheCreationTokens (rs_usage a)) 0, nat (estimate_cost_minor (rs_model a) (rs_usage a))]"
    by (simp add: answer_fits_def fits_int4_def)
  then have "llm_usage (record_usage e t purpose (rs_model a) (rs_usage a) db)
      = llm_usage db @ [usage_row e tid purpose (rs_model a) (rs_usage a)]"
    using assms(1) known_truthy [OF assms(1)] True
    by (simp add: record_usage_def for_tenant_def usage_create_def usage_row_def known_tenant_def)
  with assms(4,5) True show ?thesis by (simp add: month_spent_def usage_row_def)
next
  case False
  show ?thesis
  proof (cases "truthy t")
    case True
    with False have "usage_row e (the t) purpose mo u \<noteq> r" if "lu_tenantId r = tid" for r mo u
      using that by (cases t) (auto simp: usage_row_def truthy_def)
    then have "lu_tenantId (usage_row e (the t) purpose (rs_model a) (rs_usage a)) \<noteq> tid" by blast
    with False record_usage_rows [of e t purpose "rs_model a" "rs_usage a" db] show ?thesis
      by (auto simp: month_spent_def)
  qed (use False in simp)
qed

text \<open>One call: what it charges, and that a first call was answered only below the budget.\<close>

lemma metered_step:
  assumes "metered m e inner c db = (r, db')" and "known_tenant tid db" and "answer_fits C r" and "fits_int4 C"
    and "mt_monthStart m (now e) = mt_monthStart m (now ref)" and "mt_monthStart m (now e) \<le> now e"
  shows "month_spent (mt_monthStart m) ref tid db' = month_spent (mt_monthStart m) ref tid db + charged tid c r
    \<and> tenant_configs db' = tenant_configs db \<and> tenants db' = tenants db
    \<and> (\<forall>request a. c = First request \<and> rq_tenantId request = Some tid \<and> r = Inr a
         \<longrightarrow> int (month_spent (mt_monthStart m) ref tid db) < month_budget (mt_defaultBudget m) tid db)"
proof (cases r)
  case (Inl err)
  with assms(1) have "db' = db"
    by (cases c) (auto simp: metered_complete_def metered_continue_def meter_call_def dest: assert_within_budget_db split: sum.splits prod.splits if_splits)
  with Inl show ?thesis by (simp add: charged_def)
next
  case (Inr a)
  let ?q = "call_request c"
  from assms(1) Inr have db': "db' = record_usage e (rq_tenantId ?q) (rq_purpose ?q) (rs_model a) (rs_usage a) db"
    by (cases c) (auto simp: metered_complete_def metered_continue_def meter_call_def dest: assert_within_budget_db split: sum.splits prod.splits if_splits)
  have "int (month_spent (mt_monthStart m) ref tid db) < month_budget (mt_defaultBudget m) tid db"
    if c: "c = First request" "rq_tenantId request = Some tid" for request
  proof -
    have "\<exists>u d. assert_within_budget m e tid db = (Inr u, d)"
      using assms(1) c Inr known_truthy [OF assms(2)] by (auto simp: metered_complete_def split: sum.splits prod.splits)
    then obtain u d where ok: "assert_within_budget m e tid db = (Inr u, d)" by blast
    have "month_spent (mt_monthStart m) e tid db = month_spent (mt_monthStart m) ref tid db"
      using assms(5) by (simp add: month_spent_def)
    with assert_within_budget_ok [OF ok] show ?thesis by simp
  qed
  then show ?thesis
    using record_usage_spent [OF assms(2) assms(3) [unfolded Inr] assms(4-6)] Inr
    by (auto simp: db' charged_def record_usage_tables)
qed

lemma run_calls_spent:
  assumes "run_calls m calls db = (rs, db')" and "known_tenant tid db" and "list_all (answer_fits C) rs" and "fits_int4 C"
    and "list_all (\<lambda>(e, _, _). mt_monthStart m (now e) = mt_monthStart m (now ref) \<and> mt_monthStart m (now e) \<le> now e) calls"
    and "int (month_spent (mt_monthStart m) ref tid db) \<le> b + int C * int n"
    and "month_budget (mt_defaultBudget m) tid db - 1 + int C \<le> b"
  shows "month_spent (mt_monthStart m) ref tid db'
      = month_spent (mt_monthStart m) ref tid db + sum_list (map2 (charged tid) (map (snd \<circ> snd) calls) rs)
    \<and> int (month_spent (mt_monthStart m) ref tid db') \<le> b + int C * int (unguarded tid n (map (snd \<circ> snd) calls) rs)"
  using assms
proof (induction calls arbitrary: db rs n)
  case (Cons call calls)
  obtain e inner c where call: "call = (e, inner, c)" by (cases call)
  obtain r db1 where step: "metered m e inner c db = (r, db1)" by fastforce
  obtain rs1 where run: "run_calls m calls db1 = (rs1, db')" and rs: "rs = r # rs1"
    using Cons.prems(1) step by (auto simp: call split: prod.splits)
  from Cons.prems(3,5) have fits: "answer_fits C r" and month: "mt_monthStart m (now e) = mt_monthStart m (now ref)" "mt_monthStart m (now e) \<le> now e"
    by (simp_all add: rs call)
  note s = metered_step [OF step Cons.prems(2) fits Cons.prems(4) month]
  let ?n = "case r of Inl _ \<Rightarrow> n | Inr _ \<Rightarrow> if rq_tenantId (call_request c) = Some tid then case c of First _ \<Rightarrow> 0 | Continued _ _ _ \<Rightarrow> Suc n else n"
  have known: "known_tenant tid db1" and budget: "month_budget (mt_defaultBudget m) tid db1 = month_budget (mt_defaultBudget m) tid db"
    using Cons.prems(2) s by (simp_all add: known_tenant_def month_budget_def)
  have cost: "charged tid c r \<le> C" using fits by (simp add: charged_def answer_fits_def split: sum.splits)
  have bound: "int (month_spent (mt_monthStart m) ref tid db1) \<le> b + int C * int ?n"
  proof (cases "\<exists>a. r = Inr a \<and> rq_tenantId (call_request c) = Some tid")
    case False
    then have "charged tid c r = 0" "?n = n" by (auto simp: charged_def split: sum.splits)
    with s Cons.prems(6) show ?thesis by simp
  next
    case True
    then show ?thesis
      using s cost Cons.prems(6,7) by (cases c) (auto simp: algebra_simps)
  qed
  have "unguarded tid n (map (snd \<circ> snd) (call # calls)) rs = unguarded tid ?n (map (snd \<circ> snd) calls) rs1"
    by (cases r) (simp_all add: call rs)
  note u = this
  have rest: "list_all (answer_fits C) rs1" "list_all (\<lambda>(e, _, _). mt_monthStart m (now e) = mt_monthStart m (now ref) \<and> mt_monthStart m (now e) \<le> now e) calls"
    "month_budget (mt_defaultBudget m) tid db1 - 1 + int C \<le> b"
    using Cons.prems(3,5,7) budget by (simp_all add: rs)
  note ih = Cons.IH [OF run known rest(1) Cons.prems(4) rest(2) bound rest(3)]
  show ?case
    unfolding u by (rule conjI [OF _ ih [THEN conjunct2]]) (use ih s in \<open>simp add: rs call\<close>)
qed simp

text \<open>C32. Over any sequence of metered calls in a month, first calls and continuations of tool rounds
  by any tenants, what is recorded as spent by a tenant grows by exactly the cost of the answers it
  got, and stays below its budget plus the cost of one call and of the continuations since its last
  first call, which are not checked, unless it had spent more before.\<close>
theorem spending_is_bounded:
  assumes "run_calls m calls db = (rs, db')" and "known_tenant tid db" and "list_all (answer_fits C) rs" and "fits_int4 C"
    and "list_all (\<lambda>(e, _, _). mt_monthStart m (now e) = mt_monthStart m (now ref) \<and> mt_monthStart m (now e) \<le> now e) calls"
  shows "month_spent (mt_monthStart m) ref tid db'
      = month_spent (mt_monthStart m) ref tid db + sum_list (map2 (charged tid) (map (snd \<circ> snd) calls) rs)
    \<and> int (month_spent (mt_monthStart m) ref tid db')
      \<le> max (int (month_spent (mt_monthStart m) ref tid db)) (month_budget (mt_defaultBudget m) tid db - 1 + int C)
        + int C * int (unguarded tid 0 (map (snd \<circ> snd) calls) rs)"
  by (rule run_calls_spent [OF assms]) simp_all

theorem successful_call_is_recorded:
  assumes "rq_tenantId request = Some tid" and "metered_complete m e inner request db = (Inr r, db')"
    and "t \<in> set (tenants db)" and "tn_id t = tid"
    and "list_all fits_int4 [us_inputTokens (rs_usage r), us_outputTokens (rs_usage r), or_else (us_cacheReadTokens (rs_usage r)) 0,
           or_else (us_cacheCreationTokens (rs_usage r)) 0, nat (estimate_cost_minor (rs_model r) (rs_usage r))]"
    and "tid \<noteq> []"
  shows "pv_complete inner request = Inr r \<and> others tid db' = others tid db
    \<and> llm_usage db' = llm_usage db @ [usage_row e tid (rq_purpose request) (rs_model r) (rs_usage r)]"
proof -
  have t: "truthy (Some tid)" using assms(6) by (simp add: truthy_def)
  with assms(1,2) obtain u where a: "assert_within_budget m e tid db = (Inr u, db)"
    and c: "pv_complete inner request = Inr r"
    and d: "db' = record_usage e (Some tid) (rq_purpose request) (rs_model r) (rs_usage r) db"
    by (auto simp: metered_complete_def meter_call_def dest: assert_within_budget_db split: sum.splits prod.splits)
  from a have id: "is_uuid tid"
    by (auto simp: assert_within_budget_def month_to_date_def for_tenant_def split: if_splits)
  have "list_ex (\<lambda>x. tn_id x = tid) (tenants db)" using assms(3,4) by (auto simp: list_ex_iff)
  with assms(5) t id have "llm_usage db' = llm_usage db @ [usage_row e tid (rq_purpose request) (rs_model r) (rs_usage r)]"
    by (simp add: d record_usage_def for_tenant_def usage_create_def usage_row_def)
  with c d record_usage_isolated show ?thesis by simp
qed

section \<open>A concrete account\<close>

definition demo_usage :: llm_usage_info where
  "demo_usage = \<lparr>us_inputTokens = 1200, us_outputTokens = 300, us_cacheReadTokens = None, us_cacheCreationTokens = None\<rparr>"

definition demo_response :: llm_response where
  "demo_response = \<lparr>rs_text = ''ok'', rs_toolCalls = [], rs_stopReason = End, rs_usage = demo_usage, rs_model = ''claude-sonnet-5''\<rparr>"

definition demo_provider :: llm_provider where
  "demo_provider = \<lparr>pv_name = ''anthropic'', pv_model = ''claude-sonnet-5'', pv_isConfigured = True,
     pv_complete = (\<lambda>_. Inr demo_response), pv_continue = (\<lambda>_ _ _. Inr demo_response)\<rparr>"

definition demo_request :: llm_request where
  "demo_request = \<lparr>rq_system = None, rq_messages = [], rq_tools = [], rq_maxTokens = None, rq_purpose = ''intake'', rq_tenantId = Some demo_tenant\<rparr>"

definition demo_meter :: meter where
  "demo_meter = \<lparr>mt_monthStart = (\<lambda>_. 0), mt_defaultBudget = 3\<rparr>"

definition demo_usage_db :: db where
  "demo_usage_db = empty_db\<lparr>tenants := [\<lparr>tn_id = demo_tenant, tn_name = ''Acme'', tn_vertical = MAINTENANCE,
     tn_subdomain = ''acme'', tn_isActive = True, tn_createdAt = 0\<rparr>]\<rparr>"

definition spent_db :: "nat \<Rightarrow> db" where
  "spent_db n = demo_usage_db\<lparr>llm_usage := replicate n (usage_row demo_env demo_tenant ''intake'' ''claude-sonnet-5'' demo_usage)\<rparr>"

lemma demo_cost: "estimate_cost_minor ''claude-sonnet-5'' demo_usage = 3"
  unfolding estimate_cost_minor_def
  by (rule ceiling_unique) (simp_all add: exact_cost_def Let_def price_for_def prices_def or_else_def demo_usage_def)

theorem reached_budget_blocks_the_call_witness:
  "metered_complete demo_meter demo_env demo_provider demo_request (spent_db 1) = (Inl budget_reached, spent_db 1)"
proof -
  have r: "rq_tenantId demo_request = Some demo_tenant" by (simp add: demo_request_def)
  have c: "lu_estimatedCostMinor (usage_row demo_env demo_tenant ''intake'' ''claude-sonnet-5'' demo_usage) = 3"
    by (simp add: usage_row_def demo_cost)
  have "month_spent (mt_monthStart demo_meter) demo_env demo_tenant (spent_db 1) = 3"
    by (simp add: month_spent_def spent_db_def demo_meter_def c) (simp add: usage_row_def demo_env_def)
  moreover have "month_budget (mt_defaultBudget demo_meter) demo_tenant (spent_db 1) = 3"
    by (simp add: month_budget_def spent_db_def demo_usage_db_def empty_db_def demo_meter_def)
  ultimately have "month_budget (mt_defaultBudget demo_meter) demo_tenant (spent_db 1)
      \<le> int (month_spent (mt_monthStart demo_meter) demo_env demo_tenant (spent_db 1))" by simp
  from reached_budget_blocks_the_call [OF demo_tenant_uuid r this] show ?thesis .
qed

text \<open>A first call, its continuation, and a first call that is refused.\<close>

definition demo_calls :: "(env \<times> llm_provider \<times> metered_call) list" where
  "demo_calls = [(demo_env, demo_provider, First demo_request), (demo_env, demo_provider, Continued demo_request demo_response []),
     (demo_env, demo_provider, First demo_request)]"

lemma demo_fits: "answer_fits 3 (Inr demo_response)"
  by (simp add: answer_fits_def demo_response_def demo_cost) (simp add: demo_usage_def fits_int4_def or_else_def)

lemma demo_known: "known_tenant demo_tenant demo_usage_db"
  by (simp add: known_tenant_def demo_usage_db_def)

lemma demo_run: "fst (run_calls demo_meter demo_calls demo_usage_db) = [Inr demo_response, Inr demo_response, Inl budget_reached]"
proof -
  have t: "truthy (Some demo_tenant)" by (simp add: truthy_def demo_tenant_def)
  have c: "lu_estimatedCostMinor (usage_row demo_env demo_tenant ''intake'' ''claude-sonnet-5'' demo_usage) = 3"
    "lu_tenantId (usage_row demo_env demo_tenant ''intake'' ''claude-sonnet-5'' demo_usage) = demo_tenant"
    "lu_createdAt (usage_row demo_env demo_tenant ''intake'' ''claude-sonnet-5'' demo_usage) = now demo_env"
    by (simp_all add: usage_row_def demo_cost)
  have f: "fits_int4 (lu_inputTokens (usage_row demo_env demo_tenant ''intake'' ''claude-sonnet-5'' demo_usage))"
    "fits_int4 (lu_outputTokens (usage_row demo_env demo_tenant ''intake'' ''claude-sonnet-5'' demo_usage))"
    "fits_int4 (lu_cacheReadTokens (usage_row demo_env demo_tenant ''intake'' ''claude-sonnet-5'' demo_usage))"
    "fits_int4 (lu_cacheCreationTokens (usage_row demo_env demo_tenant ''intake'' ''claude-sonnet-5'' demo_usage))" "fits_int4 3"
    by (simp_all add: usage_row_def demo_usage_def or_else_def fits_int4_def)
  show ?thesis
    using t by (simp add: demo_calls_def metered_complete_def metered_continue_def meter_call_def assert_within_budget_def month_to_date_def
        for_tenant_def record_usage_def usage_create_def month_spent_def month_budget_def demo_meter_def demo_request_def demo_provider_def
        demo_response_def demo_usage_db_def empty_db_def c f) (simp add: demo_env_def)
qed

theorem spending_is_bounded_witness:
  "\<exists>db'. run_calls demo_meter demo_calls demo_usage_db = ([Inr demo_response, Inr demo_response, Inl budget_reached], db')
     \<and> month_spent (mt_monthStart demo_meter) demo_env demo_tenant db' = 6
     \<and> unguarded demo_tenant 0 (map (snd \<circ> snd) demo_calls) [Inr demo_response, Inr demo_response, Inl budget_reached] = 1"
proof -
  obtain db' where run: "run_calls demo_meter demo_calls demo_usage_db = ([Inr demo_response, Inr demo_response, Inl budget_reached], db')"
    using demo_run by (metis prod.collapse)
  have "list_all (answer_fits 3) [Inr demo_response, Inr demo_response, Inl budget_reached]"
    using demo_fits by (simp add: answer_fits_def)
  moreover have "fits_int4 3" by (simp add: fits_int4_def)
  moreover have "list_all (\<lambda>(e, _, _). mt_monthStart demo_meter (now e) = mt_monthStart demo_meter (now demo_env)
      \<and> mt_monthStart demo_meter (now e) \<le> now e) demo_calls"
    by (simp add: demo_calls_def demo_meter_def demo_env_def)
  ultimately have "month_spent (mt_monthStart demo_meter) demo_env demo_tenant db' = 6"
    using spending_is_bounded [OF run demo_known, of 3 demo_env]
    by (simp add: demo_calls_def charged_def demo_request_def demo_response_def demo_cost month_spent_def demo_usage_db_def empty_db_def)
  then show ?thesis using run by (simp add: demo_calls_def demo_request_def)
qed

theorem successful_call_is_recorded_witness:
  "\<exists>db'. metered_complete demo_meter demo_env demo_provider demo_request demo_usage_db = (Inr demo_response, db')
     \<and> llm_usage db' = [usage_row demo_env demo_tenant ''intake'' ''claude-sonnet-5'' demo_usage]"
proof -
  have t: "truthy (Some demo_tenant)" by (simp add: truthy_def demo_tenant_def)
  have "assert_within_budget demo_meter demo_env demo_tenant demo_usage_db = (Inr (), demo_usage_db)"
    by (simp add: assert_within_budget_def month_to_date_def for_tenant_def demo_meter_def month_budget_def month_spent_def
        demo_usage_db_def empty_db_def)
  with t obtain db' where run: "metered_complete demo_meter demo_env demo_provider demo_request demo_usage_db = (Inr demo_response, db')"
    by (simp add: metered_complete_def meter_call_def demo_request_def demo_provider_def)
  have f: "list_all fits_int4 [us_inputTokens (rs_usage demo_response), us_outputTokens (rs_usage demo_response),
      or_else (us_cacheReadTokens (rs_usage demo_response)) 0, or_else (us_cacheCreationTokens (rs_usage demo_response)) 0,
      nat (estimate_cost_minor (rs_model demo_response) (rs_usage demo_response))]"
    by (simp add: demo_response_def demo_cost) (simp add: demo_usage_def fits_int4_def or_else_def)
  have m: "hd (tenants demo_usage_db) \<in> set (tenants demo_usage_db)" "tn_id (hd (tenants demo_usage_db)) = demo_tenant"
    "rq_tenantId demo_request = Some demo_tenant" "demo_tenant \<noteq> []"
    by (simp_all add: demo_usage_db_def demo_request_def demo_tenant_def)
  from successful_call_is_recorded [OF m(3) run m(1,2) f m(4)] run show ?thesis
    by (simp add: demo_usage_db_def empty_db_def demo_request_def demo_response_def)
qed

theorem cost_is_never_underestimated_witness: "1 \<le> estimate_cost_minor ''gpt'' demo_usage"
  using cost_is_never_underestimated [of "''gpt''" demo_usage] by (simp add: demo_usage_def)

end
