(* ===== verification/Reports.thy ===== *)
theory Reports
  imports Invoicing FieldRoute Calendar "HOL-Library.AList"
begin

text \<open>
  common/checklist-estimate.ts and modules/reports: what a closed task is worth, and the gross
  profit of a period by job type, technician and customer. Amounts are in cents, as
  \<open>toFixed(2)\<close> shows them; the time zone of the business is a field of \<open>tz\<close>. Queries see the
  rows of the tenant only (row-level security). Quotation marks in error texts are left out.
\<close>

section \<open>The worth of a checklist\<close>

definition done_code :: "json \<Rightarrow> string option" where
  "done_code item = (if jget ''done'' item = Some (JBool True) then jstr_opt (jget ''priceCode'' item) else None)"

fun estimate_items :: "(string \<Rightarrow> int option) \<Rightarrow> string list \<Rightarrow> json list \<Rightarrow> int" where
  "estimate_items price seen [] = 0"
| "estimate_items price seen (item # items) =
     (case done_code item of
        None \<Rightarrow> estimate_items price seen items
      | Some code \<Rightarrow>
          if code \<in> set seen then estimate_items price seen items
          else or_else (price code) 0 + estimate_items price (code # seen) items)"

definition estimate_from_checklist :: "json option \<Rightarrow> (string \<Rightarrow> int option) \<Rightarrow> int" where
  "estimate_from_checklist checklist price =
     (case checklist of Some (JArr items) \<Rightarrow> estimate_items price [] items | _ \<Rightarrow> 0)"

text \<open>The prices of the active items; a later item with the same code overrides.\<close>

definition price_of :: "string \<Rightarrow> db \<Rightarrow> string \<Rightarrow> int option" where
  "price_of tid db = map_of (rev (map (\<lambda>p. (pl_code p, pl_price p))
     (filter (\<lambda>p. pl_tenantId p = tid \<and> pl_isActive p) (price_list_items db))))"

section \<open>Profit lines\<close>

record task_facts =
  tf_taskId :: string
  tf_jobTypeId :: "string option"
  tf_jobType :: "string option"
  tf_technicianId :: "string option"
  tf_technician :: "string option"
  tf_customerId :: string
  tf_customer :: string
  tf_billed :: "int option"
  tf_estimated :: int
  tf_partsCost :: int
  tf_partsWithoutCost :: nat

record group_key =
  gk_id :: "string option"
  gk_label :: string

record profit_line =
  pr_key :: string
  pr_id :: "string option"
  pr_jobs :: nat
  pr_revenue :: int
  pr_partsCost :: int
  pr_grossProfit :: int
  pr_marginPct :: "int option"
  pr_hasEstimates :: bool
  pr_partial :: bool

definition map_key :: "group_key \<Rightarrow> string" where
  "map_key g = (case gk_id g of Some i \<Rightarrow> ''id:'' @ i | None \<Rightarrow> ''label:'' @ gk_label g)"

text \<open>The insertion-ordered map of the groups.\<close>

definition add_fact :: "(task_facts \<Rightarrow> group_key) \<Rightarrow> task_facts \<Rightarrow> (string \<times> group_key \<times> task_facts list) list \<Rightarrow> (string \<times> group_key \<times> task_facts list) list" where
  "add_fact keyOf f groups =
     (let k = map_key (keyOf f)
      in AList.update k (case map_of groups k of None \<Rightarrow> (keyOf f, [f]) | Some (g, items) \<Rightarrow> (g, items @ [f])) groups)"

definition revenue_of :: "task_facts \<Rightarrow> int" where
  "revenue_of f = or_else (tf_billed f) (tf_estimated f)"

text \<open>\<open>toDecimalPlaces(0)\<close>: halves away from zero.\<close>

definition round_half_up :: "rat \<Rightarrow> int" where
  "round_half_up q = (if 0 \<le> q then \<lfloor>q + 1 / 2\<rfloor> else - \<lfloor>- q + 1 / 2\<rfloor>)"

definition profit_line_of :: "group_key \<Rightarrow> task_facts list \<Rightarrow> profit_line" where
  "profit_line_of g items =
     (let revenue = sum_list (map revenue_of items); parts = sum_list (map tf_partsCost items); gross = revenue - parts
      in \<lparr>pr_key = gk_label g, pr_id = gk_id g, pr_jobs = length items, pr_revenue = revenue, pr_partsCost = parts,
          pr_grossProfit = gross,
          pr_marginPct = (if revenue = 0 then None else Some (round_half_up (of_int gross / of_int revenue * 100))),
          pr_hasEstimates = list_ex (\<lambda>f. tf_billed f = None \<and> tf_estimated f \<noteq> 0) items,
          pr_partial = list_ex (\<lambda>f. 0 < tf_partsWithoutCost f) items\<rparr>)"

definition groups_of :: "(task_facts \<Rightarrow> group_key) \<Rightarrow> task_facts list \<Rightarrow> (string \<times> group_key \<times> task_facts list) list" where
  "groups_of keyOf facts = fold (add_fact keyOf) facts []"

definition aggregate :: "task_facts list \<Rightarrow> (task_facts \<Rightarrow> group_key) \<Rightarrow> profit_line list" where
  "aggregate facts keyOf =
     sort_key (\<lambda>l. - pr_grossProfit l) (map (\<lambda>(k, g, items). profit_line_of g items) (groups_of keyOf facts))"

section \<open>The report\<close>

definition max_report_tasks :: nat where
  "max_report_tasks = 5000"

definition max_range_days :: int where
  "max_range_days = 366"

definition top_customers :: nat where
  "top_customers = 20"

definition billed_amount :: "db \<Rightarrow> string \<Rightarrow> int option" where
  "billed_amount db taskId =
     (let ls = filter (\<lambda>l. il_taskId l = Some taskId) (invoice_line_items db)
      in if ls = [] then None else Some (sum_list (map il_amount ls)))"

text \<open>The consumption movements of a task with the cost of their item.\<close>

definition consumed_costs :: "string \<Rightarrow> db \<Rightarrow> string \<Rightarrow> (int \<times> int option) list" where
  "consumed_costs tid db taskId = List.map_filter (\<lambda>m.
     if sm_tenantId m = tid \<and> sm_taskId m = Some taskId \<and> sm_reason m = TASK_CONSUMPTION
     then map_option (\<lambda>i. (sm_delta m, ii_unitCost i)) (List.find (\<lambda>i. ii_id i = sm_inventoryItemId m \<and> ii_tenantId i = tid) (inventory_items db))
     else None) (stock_movements db)"

definition parts_cost :: "string \<Rightarrow> db \<Rightarrow> string \<Rightarrow> int" where
  "parts_cost tid db taskId = sum_list (map (\<lambda>(d, c). - d * or_else c 0) (filter (\<lambda>(d, c). c \<noteq> None) (consumed_costs tid db taskId)))"

definition parts_without_cost :: "string \<Rightarrow> db \<Rightarrow> string \<Rightarrow> nat" where
  "parts_without_cost tid db taskId = length (filter (\<lambda>(d, c). c = None) (consumed_costs tid db taskId))"

definition closed_in :: "tz \<Rightarrow> string \<Rightarrow> string \<Rightarrow> string \<Rightarrow> task \<Rightarrow> bool" where
  "closed_in z tid from_day to_day t \<longleftrightarrow> t_tenantId t = tid \<and> t_status t = CLOSED
     \<and> (case t_closedAt t of None \<Rightarrow> False | Some c \<Rightarrow> tz_day_start z from_day \<le> c \<and> c < tz_day_end z to_day)"

definition report_rows :: "tz \<Rightarrow> string \<Rightarrow> string \<Rightarrow> string \<Rightarrow> db \<Rightarrow> task list" where
  "report_rows z tid from_day to_day db =
     take max_report_tasks (filter (\<lambda>t. closed_in z tid from_day to_day t \<and> list_ex (\<lambda>c. c_id c = t_customerId t \<and> c_tenantId c = tid) (customers db)) (tasks db))"

definition facts_of :: "string \<Rightarrow> db \<Rightarrow> task \<Rightarrow> task_facts" where
  "facts_of tid db t =
     (let jt = (case t_jobTypeTemplateId t of None \<Rightarrow> None | Some i \<Rightarrow> List.find (\<lambda>j. jt_id j = i \<and> jt_tenantId j = tid) (job_type_templates db));
          u = (case t_assignedToUserId t of None \<Rightarrow> None | Some i \<Rightarrow> List.find (\<lambda>u. u_id u = i \<and> u_tenantId u = tid) (users db))
      in \<lparr>tf_taskId = t_id t, tf_jobTypeId = map_option jt_id jt, tf_jobType = map_option jt_name jt,
          tf_technicianId = map_option u_id u, tf_technician = map_option u_name u,
          tf_customerId = t_customerId t, tf_customer = c_name (the (List.find (\<lambda>c. c_id c = t_customerId t \<and> c_tenantId c = tid) (customers db))),
          tf_billed = billed_amount db (t_id t), tf_estimated = estimate_from_checklist (t_checklist t) (price_of tid db),
          tf_partsCost = parts_cost tid db (t_id t), tf_partsWithoutCost = parts_without_cost tid db (t_id t)\<rparr>)"

definition no_job_type :: string where
  "no_job_type = utf8 [1500, 1500, 1488, 32, 1505, 1493, 1490, 32, 1506, 1489, 1493, 1491, 1492]"

definition no_technician :: string where
  "no_technician = utf8 [1500, 1488, 32, 1513, 1493, 1497, 1498]"

record profit_report =
  rp_from :: string
  rp_to :: string
  rp_truncated :: bool
  rp_total :: "profit_line option"
  rp_byJobType :: "profit_line list"
  rp_byTechnician :: "profit_line list"
  rp_byCustomer :: "profit_line list"

definition profitability_tx :: "tz \<Rightarrow> string \<Rightarrow> string \<Rightarrow> string \<Rightarrow> profit_report tx" where
  "profitability_tx z tid from_day to_day db =
     (let rows = report_rows z tid from_day to_day db; facts = map (facts_of tid db) rows
      in Inr (\<lparr>rp_from = from_day, rp_to = to_day, rp_truncated = (length rows = max_report_tasks),
           rp_total = (case aggregate facts (\<lambda>f. \<lparr>gk_id = None, gk_label = ''total''\<rparr>) of [] \<Rightarrow> None | l # _ \<Rightarrow> Some l),
           rp_byJobType = aggregate facts (\<lambda>f. \<lparr>gk_id = tf_jobTypeId f, gk_label = or_else (tf_jobType f) no_job_type\<rparr>),
           rp_byTechnician = aggregate facts (\<lambda>f. \<lparr>gk_id = tf_technicianId f, gk_label = or_else (tf_technician f) no_technician\<rparr>),
           rp_byCustomer = take top_customers (aggregate facts (\<lambda>f. \<lparr>gk_id = Some (tf_customerId f), gk_label = tf_customer f\<rparr>))\<rparr>, db))"

text \<open>The number of days between two dates that exist.\<close>

definition range_days :: "string \<Rightarrow> string \<Rightarrow> int" where
  "range_days from_day to_day = (noon_utc to_day - noon_utc from_day) div ms_per_day"

definition profitability :: "tz \<Rightarrow> string \<Rightarrow> string \<Rightarrow> string \<Rightarrow> profit_report svc" where
  "profitability z tid from_day to_day db =
     (if \<not> is_calendar_date from_day \<or> \<not> is_calendar_date to_day
      then (Inl (BadRequest ''from and to must be real dates in YYYY-MM-DD format''), db)
      else if range_days from_day to_day < 0 then (Inl (BadRequest ''to must be on or after from''), db)
      else if max_range_days < range_days from_day to_day then (Inl (BadRequest ''The range can be at most one year''), db)
      else for_tenant tid (profitability_tx z tid from_day to_day) db)"

section \<open>The estimate and the invoice\<close>

text \<open>The lines an invoice makes of a checklist, and those of the codes not seen before.\<close>

lemma price_of_code:
  assumes "distinct (map pl_code (filter (\<lambda>p. pl_tenantId p = tid \<and> pl_isActive p) (price_list_items db)))"
  shows "price_of tid db code = map_option pl_price (price_by_code tid db code)"
proof -
  let ?ps = "filter (\<lambda>p. pl_tenantId p = tid \<and> pl_isActive p) (price_list_items db)"
  have one: "List.find (\<lambda>p. pl_tenantId p = tid \<and> pl_isActive p \<and> pl_code p = code) xs
      = List.find (\<lambda>p. pl_code p = code) (filter (\<lambda>p. pl_tenantId p = tid \<and> pl_isActive p) xs)" for xs
    by (induction xs) auto
  have two: "map_of (rev (map (\<lambda>p. (pl_code p, pl_price p)) ps)) code = map_option pl_price (List.find (\<lambda>p. pl_code p = code) ps)"
    if "distinct (map pl_code ps)" for ps
  proof -
    have "map_of (rev (map (\<lambda>p. (pl_code p, pl_price p)) ps)) = map_of (map (\<lambda>p. (pl_code p, pl_price p)) ps)"
      using that by (intro map_of_inject_set [THEN iffD2]) (simp_all add: rev_map [symmetric] comp_def)
    moreover have "map_of (map (\<lambda>p. (pl_code p, pl_price p)) ps) code = map_option pl_price (List.find (\<lambda>p. pl_code p = code) ps)"
      by (induction ps) auto
    ultimately show ?thesis by simp
  qed
  show ?thesis by (simp only: price_of_def price_by_code_def one two [OF assms])
qed

definition boolean_done :: "json \<Rightarrow> bool" where
  "boolean_done item \<longleftrightarrow> jget ''done'' item \<in> {None, Some (JBool True), Some (JBool False)} \<and> jget ''priceCode'' item \<noteq> Some (JStr [])"

lemma done_code_item: "boolean_done item \<Longrightarrow> done_code item = item_code item"
  by (auto simp: boolean_done_def done_code_def item_code_def)
    (cases "jget ''priceCode'' item", simp, metis jstr_opt.simps jtruthy.simps json.exhaust option.inject)

lemma estimate_sum:
  assumes "list_all boolean_done items" and "distinct (seen @ List.map_filter item_code items)"
    and "\<And>c. price c = map_option pl_price (price_by_code tid db c)"
  shows "estimate_items price seen items = sum_list (map ln_amount (List.map_filter (line_of_item tid db taskId) items))"
  using assms(1,2)
proof (induction items arbitrary: seen)
  case (Cons item items)
  then have d: "done_code item = item_code item" by (simp add: done_code_item)
  show ?case
  proof (cases "item_code item")
    case None
    with Cons d show ?thesis by (simp add: line_of_item_def map_filter_simps)
  next
    case (Some code)
    with Cons.prems have "code \<notin> set seen" "distinct ((code # seen) @ List.map_filter item_code items)"
      by (auto simp: map_filter_simps)
    with Cons Some d show ?thesis
      by (cases "price_by_code tid db code") (simp_all add: line_of_item_def map_filter_simps assms(3) or_else_def)
  qed
qed (simp add: map_filter_simps)

text \<open>C38. For a checklist that bills no price code twice, the revenue the report estimates for a
  task is exactly the sum of the invoice lines collected from it.\<close>
theorem estimate_agrees_with_invoice:
  assumes "distinct (map pl_code (filter (\<lambda>p. pl_tenantId p = tid \<and> pl_isActive p) (price_list_items db)))"
    and "t_checklist t = Some (JArr items)" and "JNull \<notin> set items" and "list_all boolean_done items"
    and "distinct (List.map_filter item_code items)"
  shows "\<exists>lines. collect_lines tid db [t] = Inr lines
    \<and> estimate_from_checklist (t_checklist t) (price_of tid db) = sum_list (map ln_amount lines)"
  using assms(2,3) estimate_sum [OF assms(4), of "[]" "price_of tid db"] assms(5) price_of_code [OF assms(1)]
  by (simp add: checklist_entries_def estimate_from_checklist_def)

section \<open>Every breakdown adds up\<close>

text \<open>What the grouping keeps: each key once, with exactly its facts.\<close>

definition grouped :: "(task_facts \<Rightarrow> group_key) \<Rightarrow> task_facts list \<Rightarrow> (string \<times> group_key \<times> task_facts list) list \<Rightarrow> bool" where
  "grouped keyOf facts gs \<longleftrightarrow> distinct (map fst gs) \<and> fst ` set gs = (\<lambda>f. map_key (keyOf f)) ` set facts
     \<and> (\<forall>(k, g, items) \<in> set gs. items = filter (\<lambda>f. map_key (keyOf f) = k) facts \<and> g \<in> keyOf ` set items)"

lemma grouped_add:
  assumes "grouped keyOf facts gs"
  shows "grouped keyOf (facts @ [f]) (add_fact keyOf f gs)"
proof -
  let ?k = "map_key (keyOf f)"
  let ?v = "case map_of gs ?k of None \<Rightarrow> (keyOf f, [f]) | Some (g, items) \<Rightarrow> (g, items @ [f])"
  have d: "distinct (map fst gs)" and ks: "fst ` set gs = (\<lambda>f. map_key (keyOf f)) ` set facts"
    and each: "\<And>k g items. (k, g, items) \<in> set gs \<Longrightarrow> items = filter (\<lambda>f. map_key (keyOf f) = k) facts \<and> g \<in> keyOf ` set items"
    using assms by (auto simp: grouped_def)
  have add: "add_fact keyOf f gs = AList.update ?k ?v gs" by (simp add: add_fact_def Let_def)
  have d': "distinct (map fst (add_fact keyOf f gs))" unfolding add by (rule distinct_update [OF d])
  have keys: "fst ` set (add_fact keyOf f gs) = (\<lambda>f. map_key (keyOf f)) ` set (facts @ [f])"
    unfolding add using ks by (simp add: dom_map_of_conv_image_fst [symmetric] update_conv')
  have new: "items = filter (\<lambda>f. map_key (keyOf f) = ?k) (facts @ [f]) \<and> g \<in> keyOf ` set items" if v: "?v = (g, items)" for g items
  proof (cases "map_of gs ?k")
    case None
    then have "?k \<notin> (\<lambda>f. map_key (keyOf f)) ` set facts" using ks by (simp add: map_of_eq_None_iff)
    then have "filter (\<lambda>f. map_key (keyOf f) = ?k) facts = []" by (simp add: filter_empty_conv image_iff) metis
    with v None show ?thesis by auto
  next
    case (Some w)
    obtain g0 is0 where w: "w = (g0, is0)" by (cases w)
    from map_of_SomeD [OF Some] have "(?k, g0, is0) \<in> set gs" by (simp add: w)
    from each [OF this] v Some w show ?thesis by auto
  qed
  have "items = filter (\<lambda>f. map_key (keyOf f) = k) (facts @ [f]) \<and> g \<in> keyOf ` set items"
    if m: "(k, g, items) \<in> set (add_fact keyOf f gs)" for k g items
  proof -
    from d' m have "map_of (AList.update ?k ?v gs) k = Some (g, items)" unfolding add [symmetric] by simp
    then have at: "fun_upd (map_of gs) ?k (Some ?v) k = Some (g, items)" by (simp only: update_conv)
    show ?thesis
    proof (cases "k = ?k")
      case True
      with at have "?v = (g, items)" by (simp only: fun_upd_same option.inject)
      from new [OF this] show ?thesis unfolding True .
    next
      case False
      with at have "map_of gs k = Some (g, items)" by simp
      from each [OF map_of_SomeD [OF this]] False show ?thesis by (elim conjE, intro conjI) simp_all
    qed
  qed
  with d' keys show ?thesis unfolding grouped_def by blast
qed

lemma groups_grouped: "grouped keyOf facts (groups_of keyOf facts)"
proof (induction facts rule: rev_induct)
  case Nil
  then show ?case by (simp add: grouped_def groups_of_def)
next
  case (snoc f facts)
  from grouped_add [OF this, of f] show ?case by (simp add: groups_of_def)
qed

lemma sum_by_key:
  fixes w :: "'a \<Rightarrow> 'b :: comm_monoid_add"
  assumes "distinct ks" and "key ` set xs \<subseteq> set ks"
  shows "sum_list (map (\<lambda>k. sum_list (map w (filter (\<lambda>x. key x = k) xs))) ks) = sum_list (map w xs)"
  using assms(2)
proof (induction xs)
  case (Cons x xs)
  have "sum_list (map (\<lambda>k. sum_list (map w (filter (\<lambda>x. key x = k) (x # xs)))) ks)
      = sum_list (map (\<lambda>k. if key x = k then w x else 0) ks) + sum_list (map (\<lambda>k. sum_list (map w (filter (\<lambda>x. key x = k) xs))) ks)"
    unfolding sum_list_addf [symmetric] by (rule arg_cong [of _ _ sum_list]) simp
  moreover have "sum_list (map (\<lambda>k. if key x = k then w x else 0) ks) = w x"
    using assms(1) Cons.prems by (simp add: sum_list_distinct_conv_sum_set)
  ultimately show ?case using Cons by simp
qed simp

lemma aggregate_sums:
  fixes w :: "task_facts \<Rightarrow> 'b :: comm_monoid_add"
  assumes "\<And>g items. v (profit_line_of g items) = sum_list (map w items)"
  shows "sum_list (map v (aggregate facts keyOf)) = sum_list (map w facts)"
proof -
  let ?gs = "groups_of keyOf facts" and ?key = "\<lambda>f. map_key (keyOf f)"
  have g: "grouped keyOf facts ?gs" by (rule groups_grouped)
  have "sum_list (map v (aggregate facts keyOf)) = sum_list (map v (map (\<lambda>(k, g, items). profit_line_of g items) ?gs))"
    unfolding aggregate_def by (simp add: sum_mset_sum_list [symmetric] del: sum_mset_sum_list map_map)
  also have "\<dots> = sum_list (map (\<lambda>k. sum_list (map w (filter (\<lambda>f. ?key f = k) facts))) (map fst ?gs))"
    using g unfolding map_map comp_def grouped_def
    by (intro arg_cong [of _ _ sum_list] map_cong refl) (auto simp: assms)
  also have "\<dots> = sum_list (map w facts)"
    by (rule sum_by_key) (use g in \<open>auto simp: grouped_def\<close>)
  finally show ?thesis .
qed

lemmas line_fields = profit_line_of_def Let_def sum_list_subtractf

lemma aggregate_columns:
  "sum_list (map pr_jobs (aggregate facts keyOf)) = length facts"
  "sum_list (map pr_revenue (aggregate facts keyOf)) = sum_list (map revenue_of facts)"
  "sum_list (map pr_partsCost (aggregate facts keyOf)) = sum_list (map tf_partsCost facts)"
  "sum_list (map pr_grossProfit (aggregate facts keyOf)) = sum_list (map (\<lambda>f. revenue_of f - tf_partsCost f) facts)"
proof -
  have "sum_list (map pr_jobs (aggregate facts keyOf)) = sum_list (map (\<lambda>_. 1) facts)"
    by (rule aggregate_sums) (simp add: line_fields sum_list_triv)
  then show "sum_list (map pr_jobs (aggregate facts keyOf)) = length facts" by (simp add: sum_list_triv)
qed (rule aggregate_sums; simp add: line_fields)+

lemma aggregate_sorted: "sorted_wrt (\<lambda>a b. pr_grossProfit b \<le> pr_grossProfit a) (aggregate facts keyOf)"
proof -
  have "sorted (map (\<lambda>l. - pr_grossProfit l) (aggregate facts keyOf))"
    unfolding aggregate_def by (rule sorted_sort_key)
  then show ?thesis by (simp add: sorted_wrt_map)
qed

text \<open>One key for all: a single line of everything.\<close>

lemma groups_single: "groups_of (\<lambda>_. g) facts = (if facts = [] then [] else [(map_key g, g, facts)])"
proof (induction facts rule: rev_induct)
  case (snoc f facts)
  then show ?case by (auto simp: groups_of_def add_fact_def Let_def)
qed (simp add: groups_of_def)

lemma aggregate_single: "aggregate facts (\<lambda>_. g) = (if facts = [] then [] else [profit_line_of g facts])"
  by (simp add: aggregate_def groups_single)

lemma aggregate_nil [simp]: "aggregate [] keyOf = []"
  by (simp add: aggregate_def groups_of_def)

lemma line_sums:
  "pr_jobs (profit_line_of g items) = length items"
  "pr_revenue (profit_line_of g items) = sum_list (map revenue_of items)"
  "pr_partsCost (profit_line_of g items) = sum_list (map tf_partsCost items)"
  "pr_grossProfit (profit_line_of g items) = sum_list (map (\<lambda>f. revenue_of f - tf_partsCost f) items)"
  by (simp_all add: line_fields)

text \<open>The table of a breakdown agrees with the facts.\<close>

definition adds_up :: "profit_line list \<Rightarrow> profit_line option \<Rightarrow> bool" where
  "adds_up ls tot \<longleftrightarrow> (case tot of None \<Rightarrow> ls = []
     | Some l \<Rightarrow> sum_list (map pr_jobs ls) = pr_jobs l \<and> sum_list (map pr_revenue ls) = pr_revenue l
         \<and> sum_list (map pr_partsCost ls) = pr_partsCost l \<and> sum_list (map pr_grossProfit ls) = pr_grossProfit l)
     \<and> sorted_wrt (\<lambda>a b. pr_grossProfit b \<le> pr_grossProfit a) ls"

lemma aggregate_adds_up:
  "adds_up (aggregate facts keyOf) (case aggregate facts (\<lambda>f. g) of [] \<Rightarrow> None | l # _ \<Rightarrow> Some l)"
  using aggregate_sorted [of facts keyOf]
  by (cases "facts = []")
    (simp_all add: adds_up_def aggregate_single aggregate_columns line_sums aggregate_nil)

lemma profitability_rows:
  assumes "profitability z tid from_day to_day db = (Inr r, db')"
  shows "db' = db \<and> profitability_tx z tid from_day to_day db = Inr (r, db)
    \<and> 0 \<le> range_days from_day to_day \<and> range_days from_day to_day \<le> max_range_days"
  using assms by (auto simp: profitability_def for_tenant_Inr profitability_tx_def Let_def not_less split: if_splits)

section \<open>Every line is the sum of its tasks\<close>

lemma aggregate_line:
  assumes "l \<in> set (aggregate facts keyOf)"
  obtains f where "f \<in> set facts" "l = profit_line_of (keyOf f) (filter (\<lambda>x. map_key (keyOf x) = map_key (keyOf f)) facts)"
proof -
  from assms obtain k g items where i: "(k, g, items) \<in> set (groups_of keyOf facts)" and l: "l = profit_line_of g items"
    by (auto simp: aggregate_def)
  with groups_grouped [of keyOf facts] have g: "items = filter (\<lambda>x. map_key (keyOf x) = k) facts" "g \<in> keyOf ` set items"
    by (auto simp: grouped_def)
  then obtain f where f: "f \<in> set items" "g = keyOf f" by blast
  with g(1) have "f \<in> set facts" "k = map_key (keyOf f)" by auto
  with l g(1) f(2) show thesis by (intro that [of f]) simp_all
qed

lemma map_key_eq:
  "(gk_id g = None \<Longrightarrow> gk_label g = c) \<Longrightarrow> (gk_id h = None \<Longrightarrow> gk_label h = c) \<Longrightarrow> map_key g = map_key h \<longleftrightarrow> gk_id g = gk_id h"
  by (auto simp: map_key_def split: option.splits)

text \<open>What a closed task brought in and what its parts cost, read off the tables.\<close>

definition task_revenue :: "string \<Rightarrow> db \<Rightarrow> task \<Rightarrow> int" where
  "task_revenue tid db t =
     (let ls = filter (\<lambda>l. il_taskId l = Some (t_id t)) (invoice_line_items db)
      in if ls = [] then estimate_from_checklist (t_checklist t) (price_of tid db) else sum_list (map il_amount ls))"

definition movement_cost :: "string \<Rightarrow> db \<Rightarrow> stock_movement \<Rightarrow> int" where
  "movement_cost tid db m =
     (case List.find (\<lambda>i. ii_id i = sm_inventoryItemId m \<and> ii_tenantId i = tid) (inventory_items db) of
        None \<Rightarrow> 0
      | Some i \<Rightarrow> (case ii_unitCost i of None \<Rightarrow> 0 | Some c \<Rightarrow> - sm_delta m * c))"

definition task_parts :: "string \<Rightarrow> db \<Rightarrow> task \<Rightarrow> int" where
  "task_parts tid db t = sum_list (map (movement_cost tid db)
     (filter (\<lambda>m. sm_tenantId m = tid \<and> sm_taskId m = Some (t_id t) \<and> sm_reason m = TASK_CONSUMPTION) (stock_movements db)))"

text \<open>The row a reference points to, if the tenant has it.\<close>

definition own_ref :: "('a \<Rightarrow> string) \<Rightarrow> ('a \<Rightarrow> string) \<Rightarrow> 'a list \<Rightarrow> string \<Rightarrow> string option \<Rightarrow> string option" where
  "own_ref idf tenantf rows tid ref =
     (case ref of None \<Rightarrow> None | Some i \<Rightarrow> if list_ex (\<lambda>x. idf x = i \<and> tenantf x = tid) rows then Some i else None)"

definition line_of_tasks :: "string \<Rightarrow> db \<Rightarrow> task list \<Rightarrow> profit_line \<Rightarrow> bool" where
  "line_of_tasks tid db ts l \<longleftrightarrow> pr_jobs l = length ts \<and> pr_revenue l = sum_list (map (task_revenue tid db) ts)
     \<and> pr_partsCost l = sum_list (map (task_parts tid db) ts) \<and> pr_grossProfit l = pr_revenue l - pr_partsCost l"

lemma parts_cost_movements: "parts_cost tid db (t_id t) = task_parts tid db t"
proof -
  let ?P = "\<lambda>m. sm_tenantId m = tid \<and> sm_taskId m = Some (t_id t) \<and> sm_reason m = TASK_CONSUMPTION"
  let ?F = "\<lambda>m. List.find (\<lambda>i. ii_id i = sm_inventoryItemId m \<and> ii_tenantId i = tid) (inventory_items db)"
  have "sum_list (map (\<lambda>(d, c). - d * or_else c 0) (filter (\<lambda>(d, c). c \<noteq> None)
      (List.map_filter (\<lambda>m. if ?P m then map_option (\<lambda>i. (sm_delta m, ii_unitCost i)) (?F m) else None) ms)))
    = sum_list (map (movement_cost tid db) (filter ?P ms))" for ms
    by (induction ms) (auto simp: map_filter_simps movement_cost_def or_else_def split: option.splits)
  then show ?thesis by (simp add: parts_cost_def consumed_costs_def task_parts_def)
qed

lemma facts_columns:
  "revenue_of (facts_of tid db t) = task_revenue tid db t"
  "tf_partsCost (facts_of tid db t) = task_parts tid db t"
  "tf_customerId (facts_of tid db t) = t_customerId t"
  by (simp_all add: facts_of_def Let_def revenue_of_def billed_amount_def task_revenue_def or_else_def parts_cost_movements)

lemma found_ref:
  "map_option idf (case ref of None \<Rightarrow> None | Some i \<Rightarrow> List.find (\<lambda>x. idf x = i \<and> tenantf x = tid) rows) = own_ref idf tenantf rows tid ref"
proof (cases ref)
  case (Some i)
  show ?thesis
  proof (cases "List.find (\<lambda>x. idf x = i \<and> tenantf x = tid) rows")
    case None
    then have "\<not> list_ex (\<lambda>x. idf x = i \<and> tenantf x = tid) rows" by (simp add: find_None_iff list_ex_iff)
    with None Some show ?thesis by (simp add: own_ref_def)
  next
    case (Some x)
    with find_SomeD [OF Some] have "list_ex (\<lambda>x. idf x = i \<and> tenantf x = tid) rows" "idf x = i" by (auto simp: list_ex_iff)
    with Some \<open>ref = Some i\<close> show ?thesis by (simp add: own_ref_def)
  qed
qed (simp add: own_ref_def)

lemma facts_refs:
  "tf_jobTypeId (facts_of tid db t) = own_ref jt_id jt_tenantId (job_type_templates db) tid (t_jobTypeTemplateId t)"
  "tf_technicianId (facts_of tid db t) = own_ref u_id u_tenantId (users db) tid (t_assignedToUserId t)"
  by (simp_all add: facts_of_def Let_def found_ref)

lemma facts_unnamed:
  "tf_jobTypeId (facts_of tid db t) = None \<Longrightarrow> tf_jobType (facts_of tid db t) = None"
  "tf_technicianId (facts_of tid db t) = None \<Longrightarrow> tf_technician (facts_of tid db t) = None"
  by (simp_all add: facts_of_def Let_def)

lemma profit_line_tasks:
  "line_of_tasks tid db ts (profit_line_of g (map (facts_of tid db) ts))"
  by (simp add: line_of_tasks_def line_sums comp_def facts_columns sum_list_subtractf)

lemma breakdown_line:
  assumes "l \<in> set (aggregate (map (facts_of tid db) ts) keyOf)"
    and "\<And>t. gk_id (keyOf (facts_of tid db t)) = ref t"
    and "\<And>t. ref t = None \<Longrightarrow> gk_label (keyOf (facts_of tid db t)) = c"
  shows "line_of_tasks tid db (filter (\<lambda>t. ref t = pr_id l) ts) l"
proof -
  from assms(1) obtain f where f: "f \<in> set (map (facts_of tid db) ts)"
    "l = profit_line_of (keyOf f) (filter (\<lambda>x. map_key (keyOf x) = map_key (keyOf f)) (map (facts_of tid db) ts))"
    by (rule aggregate_line)
  then obtain t0 where t0: "f = facts_of tid db t0" by auto
  have id: "pr_id l = ref t0" using assms(2) [of t0] by (simp add: f(2) t0 line_fields)
  have "map_key (keyOf (facts_of tid db t)) = map_key (keyOf f) \<longleftrightarrow> ref t = pr_id l" for t
    using map_key_eq [of "keyOf (facts_of tid db t)" c "keyOf f"] assms(2,3) by (simp add: id t0)
  then have "l = profit_line_of (keyOf f) (map (facts_of tid db) (filter (\<lambda>t. ref t = pr_id l) ts))"
    by (subst f(2)) (simp add: filter_map comp_def)
  then show ?thesis using profit_line_tasks [of tid db "filter (\<lambda>t. ref t = pr_id l) ts" "keyOf f"] by simp
qed

text \<open>The closed tasks of the tenant in the range.\<close>

definition closed_tasks_in :: "tz \<Rightarrow> string \<Rightarrow> string \<Rightarrow> string \<Rightarrow> db \<Rightarrow> task list" where
  "closed_tasks_in z tid from_day to_day db = filter (\<lambda>t. t_tenantId t = tid \<and> t_status t = CLOSED
     \<and> (case t_closedAt t of None \<Rightarrow> False | Some c \<Rightarrow> tz_day_start z from_day \<le> c \<and> c < tz_day_end z to_day)) (tasks db)"

definition customers_known :: "db \<Rightarrow> bool" where
  "customers_known db \<longleftrightarrow> list_all (\<lambda>t. list_ex (\<lambda>c. c_id c = t_customerId t \<and> c_tenantId c = t_tenantId t) (customers db)) (tasks db)"

lemma report_rows_all:
  assumes "customers_known db" and "length (report_rows z tid from_day to_day db) \<noteq> max_report_tasks"
  shows "report_rows z tid from_day to_day db = closed_tasks_in z tid from_day to_day db"
proof -
  let ?all = "filter (\<lambda>t. closed_in z tid from_day to_day t \<and> list_ex (\<lambda>c. c_id c = t_customerId t \<and> c_tenantId c = tid) (customers db)) (tasks db)"
  from assms(2) have "length ?all \<le> max_report_tasks" by (simp add: report_rows_def min_def split: if_splits)
  then have "report_rows z tid from_day to_day db = ?all" by (simp add: report_rows_def)
  also have "\<dots> = closed_tasks_in z tid from_day to_day db"
    unfolding closed_tasks_in_def using assms(1)
    by (intro filter_cong refl) (auto simp: closed_in_def customers_known_def list_all_iff)
  finally show ?thesis .
qed

text \<open>C33. In a profit report the lines of every breakdown, sorted by gross profit, add up to its
  total, those by customer before they are cut to the first twenty; and unless the report says it
  was truncated, its total is the revenue (invoiced, else estimated), the cost of the parts and the
  gross profit of all tasks the tenant closed in the range, and every line is that of exactly the
  tasks of its job type, technician or customer.\<close>
theorem breakdowns_add_up:
  assumes "profitability z tid from_day to_day db = (Inr r, db')" and "customers_known db"
  shows "db' = db \<and> adds_up (rp_byJobType r) (rp_total r) \<and> adds_up (rp_byTechnician r) (rp_total r)
    \<and> (\<exists>ls. adds_up ls (rp_total r) \<and> rp_byCustomer r = take top_customers ls)
    \<and> (rp_truncated r \<or> (let ts = closed_tasks_in z tid from_day to_day db in
         (case rp_total r of None \<Rightarrow> ts = [] | Some l \<Rightarrow> ts \<noteq> [] \<and> line_of_tasks tid db ts l)
       \<and> (\<forall>l \<in> set (rp_byJobType r). line_of_tasks tid db
            (filter (\<lambda>t. own_ref jt_id jt_tenantId (job_type_templates db) tid (t_jobTypeTemplateId t) = pr_id l) ts) l)
       \<and> (\<forall>l \<in> set (rp_byTechnician r). line_of_tasks tid db
            (filter (\<lambda>t. own_ref u_id u_tenantId (users db) tid (t_assignedToUserId t) = pr_id l) ts) l)
       \<and> (\<forall>l \<in> set (rp_byCustomer r). line_of_tasks tid db (filter (\<lambda>t. Some (t_customerId t) = pr_id l) ts) l)))"
proof -
  let ?rows = "report_rows z tid from_day to_day db" and ?ts = "closed_tasks_in z tid from_day to_day db"
  let ?facts = "map (facts_of tid db) ?rows"
  let ?job = "\<lambda>f. \<lparr>gk_id = tf_jobTypeId f, gk_label = or_else (tf_jobType f) no_job_type\<rparr>"
  let ?tech = "\<lambda>f. \<lparr>gk_id = tf_technicianId f, gk_label = or_else (tf_technician f) no_technician\<rparr>"
  let ?cust = "\<lambda>f. \<lparr>gk_id = Some (tf_customerId f), gk_label = tf_customer f\<rparr>"
  have tx: "profitability_tx z tid from_day to_day db = Inr (r, db)" and eq: "db' = db"
    using profitability_rows [OF assms(1)] by simp_all
  have r: "rp_total r = (case aggregate ?facts (\<lambda>f. \<lparr>gk_id = None, gk_label = ''total''\<rparr>) of [] \<Rightarrow> None | l # _ \<Rightarrow> Some l)"
    "rp_byJobType r = aggregate ?facts ?job" "rp_byTechnician r = aggregate ?facts ?tech"
    "rp_byCustomer r = take top_customers (aggregate ?facts ?cust)" "rp_truncated r = (length ?rows = max_report_tasks)"
    using tx by (auto simp: profitability_tx_def Let_def)
  have sums: "adds_up (aggregate ?facts k) (rp_total r)" for k unfolding r(1) by (rule aggregate_adds_up)
  have lines: "(case rp_total r of None \<Rightarrow> ?ts = [] | Some l \<Rightarrow> ?ts \<noteq> [] \<and> line_of_tasks tid db ?ts l)
      \<and> (\<forall>l \<in> set (rp_byJobType r). line_of_tasks tid db
            (filter (\<lambda>t. own_ref jt_id jt_tenantId (job_type_templates db) tid (t_jobTypeTemplateId t) = pr_id l) ?ts) l)
      \<and> (\<forall>l \<in> set (rp_byTechnician r). line_of_tasks tid db
            (filter (\<lambda>t. own_ref u_id u_tenantId (users db) tid (t_assignedToUserId t) = pr_id l) ?ts) l)
      \<and> (\<forall>l \<in> set (rp_byCustomer r). line_of_tasks tid db (filter (\<lambda>t. Some (t_customerId t) = pr_id l) ?ts) l)"
    if "\<not> rp_truncated r"
  proof -
    have rows: "?rows = ?ts" using report_rows_all [OF assms(2)] that r(5) by simp
    have job: "line_of_tasks tid db (filter (\<lambda>t. own_ref jt_id jt_tenantId (job_type_templates db) tid (t_jobTypeTemplateId t) = pr_id l) ?ts) l"
      if "l \<in> set (rp_byJobType r)" for l
      by (rule breakdown_line [where keyOf = ?job and c = no_job_type, OF that [unfolded r(2) rows]])
        (use facts_unnamed(1) in \<open>simp_all add: facts_refs(1) or_else_def\<close>)
    have tech: "line_of_tasks tid db (filter (\<lambda>t. own_ref u_id u_tenantId (users db) tid (t_assignedToUserId t) = pr_id l) ?ts) l"
      if "l \<in> set (rp_byTechnician r)" for l
      by (rule breakdown_line [where keyOf = ?tech and c = no_technician, OF that [unfolded r(3) rows]])
        (use facts_unnamed(2) in \<open>simp_all add: facts_refs(2) or_else_def\<close>)
    have cust: "line_of_tasks tid db (filter (\<lambda>t. Some (t_customerId t) = pr_id l) ?ts) l" if "l \<in> set (rp_byCustomer r)" for l
      by (rule breakdown_line [where keyOf = ?cust, OF in_set_takeD [OF that [unfolded r(4) rows]]])
        (simp_all add: facts_columns(3))
    have total: "case rp_total r of None \<Rightarrow> ?ts = [] | Some l \<Rightarrow> ?ts \<noteq> [] \<and> line_of_tasks tid db ?ts l"
      unfolding r(1) rows by (simp add: aggregate_single profit_line_tasks)
    from total job tech cust show ?thesis by blast
  qed
  have all: "\<exists>ls. adds_up ls (rp_total r) \<and> rp_byCustomer r = take top_customers ls"
    by (rule exI [of _ "aggregate ?facts ?cust"]) (intro conjI sums r(4))
  show ?thesis
    unfolding Let_def
    by (intro conjI eq all sums [of ?job, folded r(2)] sums [of ?tech, folded r(3)]) (use lines in blast)
qed

section \<open>Concrete reports\<close>

theorem estimate_agrees_with_invoice_witness:
  "\<exists>lines. collect_lines demo_tenant (demo_invoice_db [demo_done ''V1'']) [demo_task\<lparr>t_checklist := Some (JArr [demo_done ''V1''])\<rparr>] = Inr lines
     \<and> estimate_from_checklist (Some (JArr [demo_done ''V1''])) (price_of demo_tenant (demo_invoice_db [demo_done ''V1''])) = sum_list (map ln_amount lines)"
proof -
  let ?t = "demo_task\<lparr>t_checklist := Some (JArr [demo_done ''V1''])\<rparr>"
  have "distinct (map pl_code (filter (\<lambda>p. pl_tenantId p = demo_tenant \<and> pl_isActive p) (price_list_items (demo_invoice_db [demo_done ''V1'']))))"
    by (simp add: demo_invoice_simps)
  moreover have "t_checklist ?t = Some (JArr [demo_done ''V1''])" by simp
  moreover have "JNull \<notin> set [demo_done ''V1'']" by (simp add: demo_done_def item_json_def)
  moreover have "list_all boolean_done [demo_done ''V1'']"
    by (simp add: boolean_done_def demo_done_def item_json_def)
  moreover have "distinct (List.map_filter item_code [demo_done ''V1''])"
    by (simp add: map_filter_simps split: option.split)
  ultimately show ?thesis using estimate_agrees_with_invoice [where t = ?t] by simp
qed

definition demo_zone :: tz where
  "demo_zone = \<lparr>tz_date = (\<lambda>_. ''2026-01-01''), tz_day_start = noon_utc, tz_day_end = (\<lambda>d. noon_utc d + ms_per_day)\<rparr>"

text \<open>A day that ends after the closed task of the demo.\<close>

definition first_day :: tz where
  "first_day = \<lparr>tz_date = (\<lambda>_. ''1970-01-01''), tz_day_start = (\<lambda>_. 0), tz_day_end = (\<lambda>_. 3000)\<rparr>"

lemma demo_closed:
  "closed_tasks_in first_day demo_tenant ''2026-01-01'' ''2026-01-31'' (demo_invoice_db items)
    = [demo_task\<lparr>t_status := CLOSED, t_closedAt := Some 2000, t_checklist := Some (JArr items)\<rparr>]"
  "customers_known (demo_invoice_db items)"
  by (simp_all add: closed_tasks_in_def customers_known_def first_day_def demo_invoice_simps)

theorem breakdowns_add_up_witness:
  "\<exists>r db' l. profitability first_day demo_tenant ''2026-01-01'' ''2026-01-31'' (demo_invoice_db [demo_done ''V1'']) = (Inr r, db')
     \<and> rp_total r = Some l \<and> pr_jobs l = 1 \<and> pr_revenue l = 1500"
proof -
  let ?db = "demo_invoice_db [demo_done ''V1'']"
  obtain r where r: "profitability_tx first_day demo_tenant ''2026-01-01'' ''2026-01-31'' ?db = Inr (r, ?db)"
    and rows: "rp_truncated r = (length (report_rows first_day demo_tenant ''2026-01-01'' ''2026-01-31'' ?db) = max_report_tasks)"
    by (simp add: profitability_tx_def Let_def)
  have "length (report_rows first_day demo_tenant ''2026-01-01'' ''2026-01-31'' ?db) \<le> length (tasks ?db)"
    by (simp add: report_rows_def min_le_iff_disj)
  then have tr: "\<not> rp_truncated r" by (simp add: rows demo_invoice_db_def max_report_tasks_def)
  have d: "is_calendar_date ''2026-01-01''" "is_calendar_date ''2026-01-31''"
    "0 \<le> range_days ''2026-01-01'' ''2026-01-31''" "range_days ''2026-01-01'' ''2026-01-31'' \<le> max_range_days"
    by code_simp+
  have "is_uuid demo_tenant" by code_simp
  with r d have run: "profitability first_day demo_tenant ''2026-01-01'' ''2026-01-31'' ?db = (Inr r, ?db)"
    by (simp add: profitability_def for_tenant_def)
  have rev: "task_revenue demo_tenant ?db (demo_task\<lparr>t_status := CLOSED, t_closedAt := Some 2000, t_checklist := Some (JArr [demo_done ''V1''])\<rparr>) = 1500"
    by (simp add: task_revenue_def estimate_from_checklist_def done_code_def demo_done_def item_json_def price_of_def or_else_def demo_invoice_simps)
  from breakdowns_add_up [OF run demo_closed(2)] tr
  obtain l where "rp_total r = Some l" "pr_jobs l = 1" "pr_revenue l = 1500"
    unfolding Let_def demo_closed(1) by (cases "rp_total r") (auto simp: line_of_tasks_def rev)
  with run show ?thesis by blast
qed

end
