(* ===== verification/Dashboard.thy ===== *)
theory Dashboard
  imports Reports Equipment
begin

text \<open>
  modules/dashboard: the morning brief (brief.ts, brief.service.ts) and the numbers of the
  overview (dashboard.service.ts). Queries see the rows of the tenant only (row-level security);
  a day of the session is 86400000 ms; the day of the business is that of \<open>tz\<close>, its month begins
  at \<open>month_start now\<close>; an average is the exact quotient. The foreign keys hold: a task and a
  quote have their customer.
\<close>

section \<open>The pure parts\<close>

datatype activation_step = PriceListStep | EquipmentStep | StatusLinkStep | QuoteStep

record activation =
  av_steps :: "(activation_step \<times> bool) list"
  av_completed :: nat
  av_total :: nat
  av_allDone :: bool

definition activation_order :: "activation_step list" where
  "activation_order = [PriceListStep, EquipmentStep, StatusLinkStep, QuoteStep]"

definition build_activation :: "(activation_step \<Rightarrow> nat) \<Rightarrow> activation" where
  "build_activation counts =
     (let steps = map (\<lambda>k. (k, 0 < counts k)) activation_order; completed = length (filter snd steps)
      in \<lparr>av_steps = steps, av_completed = completed, av_total = length steps, av_allDone = (completed = length steps)\<rparr>)"

text \<open>Rounded to a whole number of the currency, halves away from zero.\<close>

definition maintenance_estimate :: "rat option \<Rightarrow> nat \<Rightarrow> int option" where
  "maintenance_estimate avgPerJob cnt =
     (case avgPerJob of None \<Rightarrow> None
      | Some a \<Rightarrow> if cnt = 0 then None else Some (100 * round_half_up (a * of_nat cnt / 100)))"

section \<open>The morning brief\<close>

definition max_today :: nat where "max_today = 30"
definition max_replies :: nat where "max_replies = 20"
definition unbilled_lookback_days :: int where "unbilled_lookback_days = 90"
definition max_unbilled :: nat where "max_unbilled = 500"
definition due_within_days :: int where "due_within_days = 14"
definition quote_expiry_warning_days :: int where "quote_expiry_warning_days = 3"

record today_row =
  tb_id :: string
  tb_title :: string
  tb_status :: task_status
  tb_customerName :: string
  tb_technician :: "string option"
  tb_scheduledStart :: int
  tb_scheduledEnd :: "int option"
  tb_customerConfirmedAt :: "int option"
  tb_onTheWayAt :: "int option"
  tb_confirmed :: bool
  tb_onTheWay :: bool

record pending_reschedule =
  rr_taskId :: string
  rr_title :: string
  rr_customerName :: string
  rr_note :: "string option"
  rr_requestedAt :: "int option"

record expiring_quote =
  xq_quoteId :: string
  xq_quoteNumber :: nat
  xq_customerName :: string
  xq_totalAmount :: int
  xq_validUntil :: int

record week_stats =
  wk_bookedByCustomers :: nat
  wk_quotesApproved :: nat
  wk_quotesApprovedAmount :: int
  wk_visitsConfirmed :: nat
  wk_statusLinksSent :: nat
  wk_jobsClosed :: nat

record brief_view =
  br_today :: "today_row list"
  br_reschedules :: "pending_reschedule list"
  br_expiringQuotes :: "expiring_quote list"
  br_approvedUnscheduled :: "nat \<times> int"
  br_closedUnbilled :: "nat \<times> int"
  br_maintenanceDue :: "nat \<times> int option"
  br_week :: week_stats

definition customer_name :: "string \<Rightarrow> db \<Rightarrow> string \<Rightarrow> string" where
  "customer_name tid db cid =
     (case List.find (\<lambda>c. c_id c = cid \<and> c_tenantId c = tid) (customers db) of None \<Rightarrow> [] | Some c \<Rightarrow> c_name c)"

definition technician_name :: "string \<Rightarrow> db \<Rightarrow> string option \<Rightarrow> string option" where
  "technician_name tid db uid =
     (case uid of None \<Rightarrow> None | Some i \<Rightarrow> map_option u_name (List.find (\<lambda>u. u_id u = i \<and> u_tenantId u = tid) (users db)))"

text \<open>The visits of the business's day.\<close>

definition is_today :: "tz \<Rightarrow> env \<Rightarrow> string \<Rightarrow> task \<Rightarrow> bool" where
  "is_today z e tid t \<longleftrightarrow> t_tenantId t = tid \<and> t_status t \<noteq> CANCELLED
     \<and> (case t_scheduledStart t of None \<Rightarrow> False
        | Some s \<Rightarrow> tz_day_start z (tz_date z (now e)) \<le> s \<and> s < tz_day_end z (tz_date z (now e)))"

definition today_row_of :: "string \<Rightarrow> db \<Rightarrow> task \<Rightarrow> today_row" where
  "today_row_of tid db t =
     \<lparr>tb_id = t_id t, tb_title = t_title t, tb_status = t_status t, tb_customerName = customer_name tid db (t_customerId t),
      tb_technician = technician_name tid db (t_assignedToUserId t), tb_scheduledStart = or_else (t_scheduledStart t) 0,
      tb_scheduledEnd = t_scheduledEnd t, tb_customerConfirmedAt = t_customerConfirmedAt t, tb_onTheWayAt = t_onTheWayAt t,
      tb_confirmed = (t_customerConfirmedAt t \<noteq> None), tb_onTheWay = (t_onTheWayAt t \<noteq> None)\<rparr>"

definition today_rows :: "tz \<Rightarrow> env \<Rightarrow> string \<Rightarrow> db \<Rightarrow> today_row list" where
  "today_rows z e tid db =
     map (today_row_of tid db) (take max_today (sort_key (\<lambda>t. or_else (t_scheduledStart t) 0) (filter (is_today z e tid) (tasks db))))"

definition reschedule_rows :: "string \<Rightarrow> db \<Rightarrow> pending_reschedule list" where
  "reschedule_rows tid db =
     map (\<lambda>t. \<lparr>rr_taskId = t_id t, rr_title = t_title t, rr_customerName = customer_name tid db (t_customerId t),
               rr_note = t_rescheduleRequest t, rr_requestedAt = t_rescheduleRequestedAt t\<rparr>)
       (take max_replies (sort_key (\<lambda>t. nulls_last (t_rescheduleRequestedAt t))
          (filter (\<lambda>t. t_tenantId t = tid \<and> t_rescheduleRequest t \<noteq> None \<and> open_status (t_status t)) (tasks db))))"

definition expiring_quotes :: "env \<Rightarrow> string \<Rightarrow> db \<Rightarrow> expiring_quote list" where
  "expiring_quotes e tid db =
     map (\<lambda>q. \<lparr>xq_quoteId = q_id q, xq_quoteNumber = q_quoteNumber q, xq_customerName = customer_name tid db (q_customerId q),
               xq_totalAmount = q_totalAmount q, xq_validUntil = q_validUntil q\<rparr>)
       (take max_replies (sort_key q_validUntil
          (filter (\<lambda>q. q_tenantId q = tid \<and> q_status q = Q_SENT \<and> now e \<le> q_validUntil q
             \<and> q_validUntil q \<le> now e + quote_expiry_warning_days * ms_per_day) (quotes db))))"

definition approved_unscheduled :: "string \<Rightarrow> db \<Rightarrow> nat \<times> int" where
  "approved_unscheduled tid db =
     (let qs = filter (\<lambda>q. q_tenantId q = tid \<and> q_status q = Q_APPROVED
            \<and> list_ex (\<lambda>t. Some (t_id t) = q_taskId q \<and> t_tenantId t = tid \<and> open_status (t_status t) \<and> t_scheduledStart t = None) (tasks db))
          (quotes db)
      in (length qs, sum_list (map q_totalAmount qs)))"

definition unbilled_tasks :: "env \<Rightarrow> string \<Rightarrow> db \<Rightarrow> task list" where
  "unbilled_tasks e tid db =
     take max_unbilled (filter (\<lambda>t. t_tenantId t = tid \<and> t_status t = CLOSED
        \<and> (case t_closedAt t of None \<Rightarrow> False | Some c \<Rightarrow> now e - unbilled_lookback_days * ms_per_day \<le> c)
        \<and> \<not> list_ex (\<lambda>l. il_taskId l = Some (t_id t)) (invoice_line_items db)) (tasks db))"

definition closed_unbilled :: "env \<Rightarrow> string \<Rightarrow> db \<Rightarrow> nat \<times> int" where
  "closed_unbilled e tid db =
     (let ts = unbilled_tasks e tid db
      in (length ts, sum_list (map (\<lambda>t. estimate_from_checklist (t_checklist t) (price_of tid db)) ts)))"

definition due_count :: "env \<Rightarrow> string \<Rightarrow> db \<Rightarrow> nat" where
  "due_count e tid db = length (filter (is_due e tid due_within_days db) (equipment db))"

text \<open>The mean of what the closed equipment jobs of a year were billed.\<close>

definition equipment_bills :: "env \<Rightarrow> string \<Rightarrow> db \<Rightarrow> int list" where
  "equipment_bills e tid db = List.map_filter (\<lambda>t.
     if t_tenantId t = tid \<and> t_equipmentId t \<noteq> None \<and> t_status t = CLOSED
        \<and> (case t_closedAt t of None \<Rightarrow> False | Some c \<Rightarrow> now e - 365 * ms_per_day \<le> c)
     then billed_amount db (t_id t) else None) (tasks db)"

definition avg_of :: "int list \<Rightarrow> rat option" where
  "avg_of xs = (if xs = [] then None else Some (of_int (sum_list xs) / of_nat (length xs)))"

definition since_week :: "env \<Rightarrow> int option \<Rightarrow> bool" where
  "since_week e x = (case x of None \<Rightarrow> False | Some c \<Rightarrow> now e - 7 * ms_per_day \<le> c)"

definition week :: "env \<Rightarrow> string \<Rightarrow> db \<Rightarrow> week_stats" where
  "week e tid db =
     (let approved = filter (\<lambda>q. q_tenantId q = tid \<and> since_week e (q_approvedAt q)) (quotes db)
      in \<lparr>wk_bookedByCustomers = length (filter (\<lambda>t. t_tenantId t = tid \<and> t_source t = CUSTOMER_LINK \<and> since_week e (Some (t_createdAt t))) (tasks db)),
          wk_quotesApproved = length approved,
          wk_quotesApprovedAmount = sum_list (map q_totalAmount approved),
          wk_visitsConfirmed = length (filter (\<lambda>t. t_tenantId t = tid \<and> since_week e (t_customerConfirmedAt t)) (tasks db)),
          wk_statusLinksSent = length (remdups (List.map_filter pk_taskId
             (filter (\<lambda>k. pk_tenantId k = tid \<and> pk_purpose k = TASK_STATUS \<and> since_week e (Some (pk_createdAt k))) (public_links db)))),
          wk_jobsClosed = length (filter (\<lambda>t. t_tenantId t = tid \<and> t_status t = CLOSED \<and> since_week e (t_closedAt t)) (tasks db))\<rparr>)"

text \<open>
  One row for a user and a day. The insert fails for a user or a tenant that does not exist (or an
  id that is no UUID), and every failure is swallowed.
\<close>

definition activity_insert :: "tz \<Rightarrow> env \<Rightarrow> string \<Rightarrow> string \<Rightarrow> unit tx" where
  "activity_insert z e tid uid db =
     (let row = \<lparr>ad_tenantId = tid, ad_userId = uid, ad_day = tz_date z (now e)\<rparr>
      in if \<not> is_uuid uid then Inl (Thrown ''invalid input syntax for type uuid'')
         else if row \<in> set (activity_days db) then Inr ((), db)
         else if \<not> list_ex (\<lambda>t. tn_id t = tid) (tenants db) \<or> \<not> list_ex (\<lambda>u. u_id u = uid) (users db)
         then Inl (PrismaKnown ''P2003'')
         else Inr ((), db\<lparr>activity_days := activity_days db @ [row]\<rparr>))"

definition record_activity :: "tz \<Rightarrow> env \<Rightarrow> string \<Rightarrow> string \<Rightarrow> db \<Rightarrow> db" where
  "record_activity z e tid uid db = snd (for_tenant tid (activity_insert z e tid uid) db)"

definition brief_of :: "tz \<Rightarrow> env \<Rightarrow> string \<Rightarrow> db \<Rightarrow> brief_view" where
  "brief_of z e tid db =
     \<lparr>br_today = today_rows z e tid db, br_reschedules = reschedule_rows tid db, br_expiringQuotes = expiring_quotes e tid db,
      br_approvedUnscheduled = approved_unscheduled tid db, br_closedUnbilled = closed_unbilled e tid db,
      br_maintenanceDue = (due_count e tid db, maintenance_estimate (avg_of (equipment_bills e tid db)) (due_count e tid db)),
      br_week = week e tid db\<rparr>"

definition brief :: "tz \<Rightarrow> env \<Rightarrow> string \<Rightarrow> string \<Rightarrow> brief_view svc" where
  "brief z e tid uid db = for_tenant tid (\<lambda>db. Inr (brief_of z e tid db, db)) (record_activity z e tid uid db)"

definition activation_counts :: "string \<Rightarrow> db \<Rightarrow> activation_step \<Rightarrow> nat" where
  "activation_counts tid db s = (case s of
     PriceListStep \<Rightarrow> length (filter (\<lambda>p. pl_tenantId p = tid \<and> pl_isActive p) (price_list_items db))
   | EquipmentStep \<Rightarrow> length (filter (\<lambda>q. eq_tenantId q = tid) (equipment db))
   | StatusLinkStep \<Rightarrow> length (filter (\<lambda>k. pk_tenantId k = tid \<and> pk_purpose k = TASK_STATUS) (public_links db))
   | QuoteStep \<Rightarrow> length (filter (\<lambda>q. q_tenantId q = tid \<and> q_status q \<noteq> Q_DRAFT) (quotes db)))"

definition activation_of :: "string \<Rightarrow> activation svc" where
  "activation_of tid = for_tenant tid (\<lambda>db. Inr (build_activation (activation_counts tid db), db))"

section \<open>The overview\<close>

record dashboard_stats =
  st_openTasks :: nat
  st_unassignedTasks :: nat
  st_closedThisMonth :: nat
  st_lowStockItems :: nat
  st_revenueThisMonth :: int
  st_overdueUrgent :: nat

definition stats_of :: "(int \<Rightarrow> int) \<Rightarrow> env \<Rightarrow> string \<Rightarrow> db \<Rightarrow> dashboard_stats" where
  "stats_of month_start e tid db =
     (let open_tasks = filter (\<lambda>t. t_tenantId t = tid \<and> open_status (t_status t)) (tasks db);
          since = (\<lambda>x. case x of None \<Rightarrow> False | Some c \<Rightarrow> month_start (now e) \<le> c)
      in \<lparr>st_openTasks = length open_tasks,
          st_unassignedTasks = length (filter (\<lambda>t. t_assignedToUserId t = None) open_tasks),
          st_closedThisMonth = length (filter (\<lambda>t. t_tenantId t = tid \<and> t_status t = CLOSED \<and> since (t_closedAt t)) (tasks db)),
          st_lowStockItems = length (filter (\<lambda>i. ii_tenantId i = tid \<and> ii_isActive i \<and> ii_quantity i \<le> ii_lowStockThreshold i) (inventory_items db)),
          st_revenueThisMonth = sum_list (map iv_totalAmount (filter (\<lambda>i. iv_tenantId i = tid \<and> iv_status i = FINALIZED \<and> since (iv_finalizedAt i)) (invoices db))),
          st_overdueUrgent = length (filter (\<lambda>t. t_priority t = 1 \<and> t_createdAt t < now e - ms_per_day) open_tasks)\<rparr>)"

definition get_stats :: "(int \<Rightarrow> int) \<Rightarrow> env \<Rightarrow> string \<Rightarrow> dashboard_stats svc" where
  "get_stats month_start e tid = for_tenant tid (\<lambda>db. Inr (stats_of month_start e tid db, db))"

section \<open>The number on the screen is the list behind it\<close>

theorem brief_counts_what_due_lists:
  assumes "brief z e tid uid db = (Inr b, db')" and "due e tid None db' = (Inr rows, db'')"
  shows "length rows = min max_due_rows (fst (br_maintenanceDue b))"
  using assms
  by (auto simp: brief_def brief_of_def due_def for_tenant_Inr due_count_def due_within_days_def or_else_def)

text \<open>The days of activity.\<close>

lemma record_activity_rows:
  "record_activity z e tid uid db = db
   \<or> (let row = \<lparr>ad_tenantId = tid, ad_userId = uid, ad_day = tz_date z (now e)\<rparr>
      in row \<notin> set (activity_days db) \<and> record_activity z e tid uid db = db\<lparr>activity_days := activity_days db @ [row]\<rparr>)"
  by (simp add: record_activity_def for_tenant_def activity_insert_def Let_def)

lemma record_activity_again:
  assumes "tz_date z (now e') = tz_date z (now e)"
  shows "record_activity z e' tid uid (record_activity z e tid uid db) = record_activity z e tid uid db"
  using assms by (auto simp: record_activity_def for_tenant_def activity_insert_def Let_def)

lemma others_activity: "others tid (record_activity z e tid uid db) = others tid db"
  using record_activity_rows [of z e tid uid db] by (auto simp: Let_def others_def)

lemma brief_db: "brief z e tid uid db = (r, db') \<Longrightarrow> db' = record_activity z e tid uid db"
  by (auto simp: brief_def for_tenant_def split: if_splits)

theorem opening_the_brief_counts_one_day:
  assumes "brief z e tid uid db = (r, db')" and "distinct (activity_days db)"
    and "brief z e' tid uid db' = (r', db'')" and "tz_date z (now e') = tz_date z (now e)"
  shows "db'' = db' \<and> distinct (activity_days db') \<and> others tid db' = others tid db
    \<and> db'\<lparr>activity_days := activity_days db\<rparr> = db"
proof -
  from brief_db [OF assms(1)] have d: "db' = record_activity z e tid uid db" .
  from brief_db [OF assms(3)] have "db'' = db'" by (simp add: d record_activity_again [OF assms(4)])
  then show ?thesis
    using record_activity_rows [of z e tid uid db] assms(2) others_activity [of tid z e uid db]
    unfolding d by (auto simp: Let_def)
qed

section \<open>A tenant sees its own rows\<close>

definition same_rows :: "string \<Rightarrow> db \<Rightarrow> db \<Rightarrow> bool" where
  "same_rows tid db db' \<longleftrightarrow> filter (\<lambda>t. t_tenantId t = tid) (tasks db) = filter (\<lambda>t. t_tenantId t = tid) (tasks db')
     \<and> filter (\<lambda>i. ii_tenantId i = tid) (inventory_items db) = filter (\<lambda>i. ii_tenantId i = tid) (inventory_items db')
     \<and> filter (\<lambda>i. iv_tenantId i = tid) (invoices db) = filter (\<lambda>i. iv_tenantId i = tid) (invoices db')"

lemma own_filter: "filter P xs = filter P ys \<Longrightarrow> filter (\<lambda>x. P x \<and> Q x) xs = filter (\<lambda>x. P x \<and> Q x) ys"
  by (metis (mono_tags, lifting) filter_filter filter_cong)

lemma stats_same_rows:
  assumes "same_rows tid db db'"
  shows "stats_of month_start e tid db = stats_of month_start e tid db'"
proof -
  have t: "\<And>Q. filter (\<lambda>t. t_tenantId t = tid \<and> Q t) (tasks db) = filter (\<lambda>t. t_tenantId t = tid \<and> Q t) (tasks db')"
    and i: "\<And>Q. filter (\<lambda>i. ii_tenantId i = tid \<and> Q i) (inventory_items db) = filter (\<lambda>i. ii_tenantId i = tid \<and> Q i) (inventory_items db')"
    and v: "\<And>Q. filter (\<lambda>i. iv_tenantId i = tid \<and> Q i) (invoices db) = filter (\<lambda>i. iv_tenantId i = tid \<and> Q i) (invoices db')"
    using assms by (auto simp: same_rows_def intro!: own_filter)
  show ?thesis unfolding stats_of_def Let_def t i v ..
qed

theorem stats_of_own_rows:
  assumes "same_rows tid db db'"
  shows "fst (get_stats month_start e tid db) = fst (get_stats month_start e tid db')
    \<and> snd (get_stats month_start e tid db) = db
    \<and> (\<forall>s. fst (get_stats month_start e tid db) = Inr s \<longrightarrow>
        st_unassignedTasks s \<le> st_openTasks s \<and> st_overdueUrgent s \<le> st_openTasks s)"
proof -
  have eq: "stats_of month_start e tid db = stats_of month_start e tid db'" by (rule stats_same_rows [OF assms])
  have le: "st_unassignedTasks (stats_of month_start e tid db) \<le> st_openTasks (stats_of month_start e tid db)"
    "st_overdueUrgent (stats_of month_start e tid db) \<le> st_openTasks (stats_of month_start e tid db)"
    by (simp_all add: stats_of_def Let_def length_filter_le del: filter_filter)
  from eq le show ?thesis by (auto simp: get_stats_def for_tenant_def)
qed

section \<open>A concrete morning\<close>

definition demo_morning :: env where
  "demo_morning = \<lparr>now = 20000000000, uuid = (\<lambda>n. [])\<rparr>"

lemma demo_brief_runs: "\<exists>b db'. brief z e demo_tenant uid db = (Inr b, db')"
  by (simp add: brief_def for_tenant_def)

theorem brief_counts_what_due_lists_witness:
  "\<exists>b db'. brief demo_zone demo_morning demo_tenant ''u1'' demo_booking_db = (Inr b, db') \<and> 1 \<le> fst (br_maintenanceDue b)"
proof -
  obtain b db' where run: "brief demo_zone demo_morning demo_tenant ''u1'' demo_booking_db = (Inr b, db')"
    using demo_brief_runs by blast
  have "\<not> is_uuid ''u1''" by code_simp
  then have db: "db' = demo_booking_db"
    using brief_db [OF run] by (simp add: record_activity_def for_tenant_def activity_insert_def)
  obtain rows db'' where rows: "due demo_morning demo_tenant None db' = (Inr rows, db'')"
    by (simp add: due_def for_tenant_def)
  have "add_months 6 0 \<le> 20000000000 + 14 * ms_per_day" by code_simp
  then have "is_due demo_morning demo_tenant 14 demo_booking_db demo_equipment"
    by (simp add: is_due_def due_at_def due_customer_def has_open_task_def demo_equipment_def demo_booking_db_def
      demo_link_db_def demo_morning_def demo_defs)
  moreover have "demo_equipment \<in> set (equipment demo_booking_db)" by (simp add: demo_booking_db_def)
  ultimately have "set (sort_key due_at (filter (is_due demo_morning demo_tenant 14 demo_booking_db) (equipment demo_booking_db))) \<noteq> {}"
    by auto
  then have "rows \<noteq> []"
    using rows db by (auto simp: due_def for_tenant_Inr or_else_def max_due_rows_def simp del: set_sort)
  with brief_counts_what_due_lists [OF run rows] have "1 \<le> fst (br_maintenanceDue b)"
    by (cases "fst (br_maintenanceDue b)") auto
  with run show ?thesis by blast
qed

definition demo_user_id :: string where
  "demo_user_id = ''99999999-2222-3333-4444-555555555555''"

definition demo_brief_db :: db where
  "demo_brief_db = demo_booking_db\<lparr>users := [\<lparr>u_id = demo_user_id, u_tenantId = demo_tenant, u_email = ''d@x.co'', u_passwordHash = ''h'',
     u_name = ''Dana'', u_role = OWNER, u_isActive = True, u_skills = [], u_homeLat = None, u_homeLng = None,
     u_mustChangePassword = False, u_lastLoginAt = None, u_createdAt = 100\<rparr>]\<rparr>"

theorem opening_the_brief_counts_one_day_witness:
  "\<exists>r db' r'. brief demo_zone demo_morning demo_tenant demo_user_id demo_brief_db = (r, db')
     \<and> brief demo_zone (demo_morning\<lparr>now := 20000000001\<rparr>) demo_tenant demo_user_id db' = (r', db') \<and> distinct (activity_days db')"
proof -
  let ?e = "demo_morning\<lparr>now := 20000000001\<rparr>"
  obtain b db' where run: "brief demo_zone demo_morning demo_tenant demo_user_id demo_brief_db = (Inr b, db')"
    using demo_brief_runs by blast
  obtain b' db'' where run': "brief demo_zone ?e demo_tenant demo_user_id db' = (Inr b', db'')"
    using demo_brief_runs by blast
  have d: "distinct (activity_days demo_brief_db)"
    by (simp add: demo_brief_db_def demo_booking_db_def demo_link_db_def demo_defs)
  have z: "tz_date demo_zone (now ?e) = tz_date demo_zone (now demo_morning)" by (simp add: demo_zone_def)
  from opening_the_brief_counts_one_day [OF run d run' z] run run' show ?thesis by blast
qed

theorem stats_of_own_rows_witness:
  "fst (get_stats (\<lambda>_. 0) demo_morning demo_tenant demo_booking_db)
     = fst (get_stats (\<lambda>_. 0) demo_morning demo_tenant (demo_booking_db\<lparr>tasks := tasks demo_booking_db @ [demo_task\<lparr>t_tenantId := ''other''\<rparr>]\<rparr>))"
proof -
  have "same_rows demo_tenant demo_booking_db (demo_booking_db\<lparr>tasks := tasks demo_booking_db @ [demo_task\<lparr>t_tenantId := ''other''\<rparr>]\<rparr>)"
    by (simp add: same_rows_def demo_tenant_def)
  from stats_of_own_rows [OF this] show ?thesis by blast
qed

end
