(* ===== verification/Onboarding.thy ===== *)
theory Onboarding
  imports Metering Bytes
begin

text \<open>
  modules/onboarding: the conversation that collects a new business (onboarding.service.ts,
  onboarding-schemas.ts). A session is known by a secret of which only the hash is stored; a
  message reserves its calls to the language model, runs the tool loop and writes the draft under
  an optimistic lock. Parameters: SHA-256, zod's e-mail pattern and the texts of its messages, the
  wording of the system prompt and of the tools, the provider. The wrapper of Metering leaves these
  calls alone: they have no tenant.
\<close>

section \<open>The schemas\<close>

text \<open>\<open>z.string().trim().min(1).max(n)\<close>.\<close>

fun short_text :: "nat \<Rightarrow> json option \<Rightarrow> string option" where
  "short_text mx (Some (JStr s)) = (let t = trim s in if 1 \<le> js_length t \<and> js_length t \<le> mx then Some t else None)"
| "short_text mx _ = None"

fun optional_text :: "nat \<Rightarrow> json option \<Rightarrow> string option option" where
  "optional_text mx None = Some None"
| "optional_text mx (Some j) = map_option Some (short_text mx (Some j))"

fun email_text :: "(string \<Rightarrow> bool) \<Rightarrow> json option \<Rightarrow> string option" where
  "email_text is_email (Some (JStr s)) =
     (let t = to_lower (trim s) in if is_email t \<and> js_length t \<le> 254 then Some t else None)"
| "email_text is_email _ = None"

definition matching :: "(string \<Rightarrow> bool) \<Rightarrow> string option \<Rightarrow> string option" where
  "matching p x = (case x of None \<Rightarrow> None | Some s \<Rightarrow> if p s then Some s else None)"

fun enum_of :: "(string \<times> 'a) list \<Rightarrow> json option \<Rightarrow> 'a option" where
  "enum_of tbl (Some (JStr s)) = map_of tbl s"
| "enum_of tbl _ = None"

text \<open>\<open>z.array(schema).max(n)\<close>.\<close>

fun array_of :: "(json \<Rightarrow> 'a option) \<Rightarrow> json option \<Rightarrow> 'a list option" where
  "array_of schema (Some (JArr js)) = those (map schema js)"
| "array_of schema _ = None"

definition at_most :: "nat \<Rightarrow> 'a list option \<Rightarrow> 'a list option" where
  "at_most n x = (case x of None \<Rightarrow> None | Some xs \<Rightarrow> if length xs \<le> n then Some xs else None)"

record company_info =
  co_legalName :: string
  co_businessId :: string
  co_vertical :: vertical
  co_contactEmail :: string

definition verticals :: "(string \<times> vertical) list" where
  "verticals = [(''MAINTENANCE'', MAINTENANCE), (''CARPENTRY'', CARPENTRY), (''RETAIL'', RETAIL)]"

definition business_id_ok :: "string \<Rightarrow> bool" where
  "business_id_ok s \<longleftrightarrow> list_all (\<lambda>c. is_alnum c \<or> c = CHR ''-'') s"

definition company_schema :: "(string \<Rightarrow> bool) \<Rightarrow> json \<Rightarrow> company_info option" where
  "company_schema is_email j =
     (case (short_text 200 (jget ''legalName'' j), matching business_id_ok (short_text 20 (jget ''businessId'' j)),
            enum_of verticals (jget ''vertical'' j), email_text is_email (jget ''contactEmail'' j)) of
        (Some n, Some b, Some v, Some m) \<Rightarrow> Some \<lparr>co_legalName = n, co_businessId = b, co_vertical = v, co_contactEmail = m\<rparr>
      | _ \<Rightarrow> None)"

record team_member =
  tm_name :: string
  tm_email :: string
  tm_role :: user_role

definition roles :: "(string \<times> user_role) list" where
  "roles = [(''OWNER'', OWNER), (''MANAGER'', MANAGER), (''FIELD'', FIELD)]"

definition member_schema :: "(string \<Rightarrow> bool) \<Rightarrow> json \<Rightarrow> team_member option" where
  "member_schema is_email j =
     (case (short_text 120 (jget ''name'' j), email_text is_email (jget ''email'' j), enum_of roles (jget ''role'' j)) of
        (Some n, Some m, Some r) \<Rightarrow> Some \<lparr>tm_name = n, tm_email = m, tm_role = r\<rparr>
      | _ \<Rightarrow> None)"

record price_code =
  pc_code :: string
  pc_description :: string
  pc_defaultPrice :: rat

definition price_code_ok :: "string \<Rightarrow> bool" where
  "price_code_ok s \<longleftrightarrow> list_all (\<lambda>c. is_alnum c \<or> c \<in> {CHR ''.'', CHR ''_'', CHR ''-''}) s"

definition price_schema :: "json \<Rightarrow> price_code option" where
  "price_schema j =
     (case (matching price_code_ok (short_text 40 (jget ''code'' j)), short_text 500 (jget ''description'' j), jget ''defaultPrice'' j) of
        (Some c, Some d, Some (JNum p)) \<Rightarrow>
          if 0 \<le> p \<and> p \<le> 1000000 then Some \<lparr>pc_code = c, pc_description = d, pc_defaultPrice = p\<rparr> else None
      | _ \<Rightarrow> None)"

record job_field =
  jf_key :: string
  jf_label :: string
  jf_type :: string
  jf_required :: "bool option"

record checklist_draft =
  cd_label :: string
  cd_priceCode :: "string option"

record job_type_draft =
  jd_name :: string
  jd_requiredSkill :: "string option"
  jd_fields :: "job_field list"
  jd_defaultChecklist :: "checklist_draft list"

definition field_key_ok :: "string \<Rightarrow> bool" where
  "field_key_ok s \<longleftrightarrow> list_all (\<lambda>c. is_alnum c \<or> c = CHR ''_'') s"

definition field_types :: "(string \<times> string) list" where
  "field_types = [(''text'', ''text''), (''number'', ''number''), (''select'', ''select''), (''date'', ''date'')]"

fun optional_bool :: "json option \<Rightarrow> bool option option" where
  "optional_bool None = Some None"
| "optional_bool (Some (JBool b)) = Some (Some b)"
| "optional_bool _ = None"

definition field_schema :: "json \<Rightarrow> job_field option" where
  "field_schema j =
     (case (matching field_key_ok (short_text 60 (jget ''key'' j)), short_text 120 (jget ''label'' j),
            enum_of field_types (jget ''type'' j), optional_bool (jget ''required'' j)) of
        (Some k, Some l, Some t, Some r) \<Rightarrow> Some \<lparr>jf_key = k, jf_label = l, jf_type = t, jf_required = r\<rparr>
      | _ \<Rightarrow> None)"

definition check_schema :: "json \<Rightarrow> checklist_draft option" where
  "check_schema j =
     (case (short_text 200 (jget ''label'' j), optional_text 40 (jget ''priceCode'' j)) of
        (Some l, Some p) \<Rightarrow> Some \<lparr>cd_label = l, cd_priceCode = p\<rparr>
      | _ \<Rightarrow> None)"

definition job_schema :: "json \<Rightarrow> job_type_draft option" where
  "job_schema j =
     (case (short_text 120 (jget ''name'' j), optional_text 80 (jget ''requiredSkill'' j),
            at_most 50 (array_of field_schema (jget ''fields'' j)), at_most 100 (array_of check_schema (jget ''defaultChecklist'' j))) of
        (Some n, Some s, Some fs, Some cs) \<Rightarrow>
          Some \<lparr>jd_name = n, jd_requiredSkill = s, jd_fields = fs, jd_defaultChecklist = cs\<rparr>
      | _ \<Rightarrow> None)"

definition ready_schema :: "json \<Rightarrow> string option" where
  "ready_schema j = short_text 2000 (jget ''summary'' j)"

record session_draft =
  sd_companyInfo :: "company_info option"
  sd_teamMembers :: "team_member list"
  sd_priceCodes :: "price_code list"
  sd_jobTypes :: "job_type_draft list"

definition empty_draft :: session_draft where
  "empty_draft = \<lparr>sd_companyInfo = None, sd_teamMembers = [], sd_priceCodes = [], sd_jobTypes = []\<rparr>"

fun nullable_company :: "(string \<Rightarrow> bool) \<Rightarrow> json option \<Rightarrow> company_info option option" where
  "nullable_company is_email (Some JNull) = Some None"
| "nullable_company is_email (Some j) = map_option Some (company_schema is_email j)"
| "nullable_company is_email None = None"

definition draft_schema :: "(string \<Rightarrow> bool) \<Rightarrow> json \<Rightarrow> session_draft option" where
  "draft_schema is_email j =
     (case (nullable_company is_email (jget ''companyInfo'' j), array_of (member_schema is_email) (jget ''teamMembers'' j),
            array_of price_schema (jget ''priceCodes'' j), array_of job_schema (jget ''jobTypes'' j)) of
        (Some c, Some ms, Some ps, Some js) \<Rightarrow>
          Some \<lparr>sd_companyInfo = c, sd_teamMembers = ms, sd_priceCodes = ps, sd_jobTypes = js\<rparr>
      | _ \<Rightarrow> None)"

section \<open>The JSON a draft is stored as\<close>

fun vertical_text :: "vertical \<Rightarrow> string" where
  "vertical_text MAINTENANCE = ''MAINTENANCE''"
| "vertical_text CARPENTRY = ''CARPENTRY''"
| "vertical_text RETAIL = ''RETAIL''"

fun role_name :: "user_role \<Rightarrow> string" where
  "role_name OWNER = ''OWNER''"
| "role_name MANAGER = ''MANAGER''"
| "role_name FIELD = ''FIELD''"

definition company_json :: "company_info \<Rightarrow> json" where
  "company_json c = JObj [(''legalName'', JStr (co_legalName c)), (''businessId'', JStr (co_businessId c)),
     (''vertical'', JStr (vertical_text (co_vertical c))), (''contactEmail'', JStr (co_contactEmail c))]"

definition member_json :: "team_member \<Rightarrow> json" where
  "member_json m = JObj [(''name'', JStr (tm_name m)), (''email'', JStr (tm_email m)), (''role'', JStr (role_name (tm_role m)))]"

definition price_json :: "price_code \<Rightarrow> json" where
  "price_json p = JObj [(''code'', JStr (pc_code p)), (''description'', JStr (pc_description p)), (''defaultPrice'', JNum (pc_defaultPrice p))]"

definition optional_pair :: "string \<Rightarrow> json option \<Rightarrow> (string \<times> json) list" where
  "optional_pair k v = (case v of None \<Rightarrow> [] | Some j \<Rightarrow> [(k, j)])"

definition field_json :: "job_field \<Rightarrow> json" where
  "field_json f = JObj ([(''key'', JStr (jf_key f)), (''label'', JStr (jf_label f)), (''type'', JStr (jf_type f))]
     @ optional_pair ''required'' (map_option JBool (jf_required f)))"

definition check_json :: "checklist_draft \<Rightarrow> json" where
  "check_json c = JObj ((''label'', JStr (cd_label c)) # optional_pair ''priceCode'' (map_option JStr (cd_priceCode c)))"

definition job_json :: "job_type_draft \<Rightarrow> json" where
  "job_json j = JObj ((''name'', JStr (jd_name j)) # optional_pair ''requiredSkill'' (map_option JStr (jd_requiredSkill j))
     @ [(''fields'', JArr (map field_json (jd_fields j))), (''defaultChecklist'', JArr (map check_json (jd_defaultChecklist j)))])"

section \<open>Sessions\<close>

datatype onboarding_status = Talking | Ready_To_Finalize | Finalized | Abandoned

record onboarding_session =
  os_id :: string
  os_sessionSecretHash :: string
  os_status :: onboarding_status
  os_companyInfo :: "json option"
  os_teamMembers :: "json option"
  os_priceCodes :: "json option"
  os_jobTypes :: "json option"
  os_conversationHistory :: json
  os_version :: nat
  os_llmCallCount :: int
  os_resultTenantId :: "string option"
  os_createdAt :: int
  os_finalizedAt :: "int option"
  os_expiresAt :: int

datatype document_type = Quote_Doc | Material_Order

record onboarding_document =
  od_id :: string
  od_sessionId :: string
  od_docType :: document_type
  od_originalName :: string
  od_sizeBytes :: nat
  od_extractedText :: "string option"
  od_extractedLineItems :: "json option"
  od_totalAmount :: "int option"
  od_createdAt :: int

text \<open>The two tables without a tenant.\<close>

record onb =
  ob_sessions :: "onboarding_session list"
  ob_documents :: "onboarding_document list"
  ob_ctr :: nat

text \<open>The configuration and the libraries of the service.\<close>

record onb_config =
  oc_ttlHours :: int
  oc_maxLlmCalls :: int
  oc_maxInputChars :: nat
  oc_hash :: "string \<Rightarrow> string"
  oc_isEmail :: "string \<Rightarrow> bool"
  oc_issues :: "string \<Rightarrow> json \<Rightarrow> string"
  oc_prompt :: "nat \<Rightarrow> nat \<Rightarrow> string"
  oc_tools :: "llm_tool_definition list"
  oc_provider :: llm_provider

definition max_tool_iterations :: int where
  "max_tool_iterations = 5"

type_synonym 'a onb_op = "onb \<Rightarrow> (http_error + 'a) \<times> onb"

fun role_json :: "llm_role \<Rightarrow> json" where
  "role_json User = JStr ''user''"
| "role_json Assistant = JStr ''assistant''"

definition message_json :: "llm_message \<Rightarrow> json" where
  "message_json m = JObj [(''role'', role_json (lm_role m)), (''content'', JStr (lm_content m))]"

definition greeting :: string where
  "greeting = (utf8 [1513, 1500, 1493, 1501, 33, 32, 1488, 1504, 1497, 32, 1499, 1488, 1503, 32, 1499, 1491, 1497, 32, 1500, 1492, 1499, 1497, 1512, 32, 1488, 1514, 32, 1492, 1506, 1505, 1511, 32, 1513, 1500, 1498, 32, 1493, 1500, 1492, 1511, 1497, 1501, 32, 1506, 1489, 1493, 1512, 1493, 32, 1488, 1514, 32, 1492, 1502, 1506, 1512, 1499, 1514, 46, 32, 1489, 1493, 1488, 32, 1504, 1514, 1495, 1497, 1500, 32, 1502, 1492, 1489, 1505, 1497, 1505] @ '' - '' @ utf8 [1502, 1492, 32, 1492, 1513, 1501, 32, 1492, 1512, 1513, 1502, 1497, 32, 1513, 1500, 32, 1492, 1495, 1489, 1512, 1492, 44, 32, 1493, 1502, 1492, 32, 1502, 1505, 1508, 1512, 32, 1495, 46, 1508, 32, 1488, 1493, 32, 1506, 1493, 1505, 1511, 32, 1502, 1493, 1512, 1513, 1492] @ ''?'')"

definition new_session :: "onb_config \<Rightarrow> env \<Rightarrow> string \<Rightarrow> string \<Rightarrow> onboarding_session" where
  "new_session cfg e sid secret =
     \<lparr>os_id = sid, os_sessionSecretHash = hex_encode (oc_hash cfg secret), os_status = Talking, os_companyInfo = None,
      os_teamMembers = None, os_priceCodes = None, os_jobTypes = None,
      os_conversationHistory = JArr [message_json \<lparr>lm_role = Assistant, lm_content = greeting\<rparr>],
      os_version = 0, os_llmCallCount = 0, os_resultTenantId = None, os_createdAt = now e, os_finalizedAt = None,
      os_expiresAt = now e + oc_ttlHours cfg * 3600000\<rparr>"

text \<open>\<open>random\<close> are the 32 random bytes of the secret.\<close>

definition start :: "onb_config \<Rightarrow> env \<Rightarrow> string \<Rightarrow> (string \<times> string \<times> string) onb_op" where
  "start cfg e random s =
     (if \<not> pv_isConfigured (oc_provider cfg)
      then (Inl (ServiceUnavailable ''Onboarding chat requires an LLM provider and none is configured on this server.''), s)
      else let sid = uuid e (ob_ctr s); secret = hex_encode random
           in (Inr (sid, secret, greeting),
               s\<lparr>ob_sessions := ob_sessions s @ [new_session cfg e sid secret], ob_ctr := Suc (ob_ctr s)\<rparr>))"

definition stored_json :: "onboarding_session \<Rightarrow> json" where
  "stored_json x = JObj
     [(''companyInfo'', or_else (os_companyInfo x) JNull), (''teamMembers'', or_else (os_teamMembers x) (JArr [])),
      (''priceCodes'', or_else (os_priceCodes x) (JArr [])), (''jobTypes'', or_else (os_jobTypes x) (JArr []))]"

definition read_draft :: "onb_config \<Rightarrow> onboarding_session \<Rightarrow> session_draft" where
  "read_draft cfg x = or_else (draft_schema (oc_isEmail cfg) (stored_json x)) empty_draft"

definition find_session :: "onb \<Rightarrow> string \<Rightarrow> onboarding_session option" where
  "find_session s sid = List.find (\<lambda>x. os_id x = sid) (ob_sessions s)"

definition validate_session :: "onb_config \<Rightarrow> env \<Rightarrow> string \<Rightarrow> string \<Rightarrow> onb \<Rightarrow> http_error + (onboarding_session \<times> session_draft)" where
  "validate_session cfg e sid secret s =
     (case find_session s sid of
        None \<Rightarrow> Inl (NotFound ''Onboarding session not found'')
      | Some x \<Rightarrow>
          if oc_hash cfg secret \<noteq> hex_decode (os_sessionSecretHash x) then Inl (Forbidden ''Invalid session secret'')
          else if os_expiresAt x \<le> now e then Inl (Forbidden ''Onboarding session has expired'')
          else Inr (x, read_draft cfg x))"

section \<open>The tools\<close>

text \<open>Replaces the entry with the same key, or appends.\<close>

fun put_by :: "('a \<Rightarrow> string) \<Rightarrow> 'a \<Rightarrow> 'a list \<Rightarrow> 'a list" where
  "put_by key x [] = [x]"
| "put_by key x (y # ys) = (if key y = key x then x # ys else y # put_by key x ys)"

datatype tool_outcome = Recorded session_draft | Ready | Refused string

definition apply_tool_call :: "onb_config \<Rightarrow> string \<Rightarrow> json \<Rightarrow> session_draft \<Rightarrow> tool_outcome" where
  "apply_tool_call cfg name inp d =
     (if name = ''record_company_info'' then
        (case company_schema (oc_isEmail cfg) inp of None \<Rightarrow> Refused (oc_issues cfg name inp)
         | Some c \<Rightarrow> Recorded (d\<lparr>sd_companyInfo := Some c\<rparr>))
      else if name = ''add_team_member'' then
        (case member_schema (oc_isEmail cfg) inp of None \<Rightarrow> Refused (oc_issues cfg name inp)
         | Some m \<Rightarrow>
             if 100 \<le> length (sd_teamMembers d) then Refused ''too many team members for one onboarding session''
             else Recorded (d\<lparr>sd_teamMembers := put_by tm_email m (sd_teamMembers d)\<rparr>))
      else if name = ''add_price_code'' then
        (case price_schema inp of None \<Rightarrow> Refused (oc_issues cfg name inp)
         | Some p \<Rightarrow>
             if 500 \<le> length (sd_priceCodes d) then Refused ''too many price codes for one onboarding session''
             else Recorded (d\<lparr>sd_priceCodes := put_by pc_code p (sd_priceCodes d)\<rparr>))
      else if name = ''add_job_type'' then
        (case job_schema inp of None \<Rightarrow> Refused (oc_issues cfg name inp)
         | Some j \<Rightarrow>
             if 100 \<le> length (sd_jobTypes d) then Refused ''too many job types for one onboarding session''
             else Recorded (d\<lparr>sd_jobTypes := put_by jd_name j (sd_jobTypes d)\<rparr>))
      else if name = ''ready_to_finalize'' then
        (case ready_schema inp of None \<Rightarrow> Refused (oc_issues cfg name inp) | Some _ \<Rightarrow> Ready)
      else Refused (''unknown tool: '' @ name))"

definition quote_char :: char where
  "quote_char = CHR 0x22"

definition ok_json :: string where
  "ok_json = CHR ''{'' # quote_char # ''ok'' @ quote_char # '':true}''"

text \<open>The calls of one answer in order: the draft, whether one signalled readiness, the results.\<close>

fun apply_calls :: "onb_config \<Rightarrow> llm_tool_call list \<Rightarrow> session_draft \<Rightarrow> session_draft \<times> bool \<times> llm_tool_result list" where
  "apply_calls cfg [] d = (d, False, [])"
| "apply_calls cfg (c # cs) d =
     (let outcome = apply_tool_call cfg (tc_name c) (tc_input c) d;
          d1 = (case outcome of Recorded d' \<Rightarrow> d' | _ \<Rightarrow> d);
          result = \<lparr>tr_toolCallId = tc_id c, tr_name = tc_name c,
             tr_content = (case outcome of Refused msg \<Rightarrow> msg | _ \<Rightarrow> ok_json),
             tr_isError = (case outcome of Refused _ \<Rightarrow> True | _ \<Rightarrow> False)\<rparr>;
          (d2, ready, results) = apply_calls cfg cs d1
      in (d2, outcome = Ready \<or> ready, result # results))"

section \<open>One message\<close>

record turn =
  tu_draft :: session_draft
  tu_ready :: bool
  tu_callsUsed :: int
  tu_finalText :: string

definition noted_text :: string where
  "noted_text = (utf8 [1511, 1500, 1496, 1514, 1497, 32, 1488, 1514, 32, 1492, 1508, 1512, 1496, 1497, 1501] @ '' - '' @ utf8 [1504, 1502, 1513, 1497, 1498, 32, 1502, 1513, 1501, 46, 32, 1497, 1513, 32, 1506, 1493, 1491, 32, 1502, 1513, 1492, 1493, 32, 1513, 1514, 1512, 1510, 1492, 32, 1500, 1492, 1493, 1505, 1497, 1507] @ ''?'')"

definition default_text :: string where
  "default_text = (utf8 [1511, 1497, 1489, 1500, 1514, 1497, 44, 32, 1489, 1493, 1488, 32, 1504, 1502, 1513, 1497, 1498, 46])"

definition text_or :: "string \<Rightarrow> string \<Rightarrow> string" where
  "text_or x y = (if x \<noteq> [] then x else y)"

text \<open>
  The loop over the tool rounds, \<open>n\<close> of them left. A failing call ends it with the calls used
  so far.
\<close>

fun rounds :: "onb_config \<Rightarrow> int \<Rightarrow> llm_request \<Rightarrow> nat \<Rightarrow> llm_response \<Rightarrow> turn \<Rightarrow> (http_error \<times> int) + turn" where
  "rounds cfg budget req 0 response t = Inr t"
| "rounds cfg budget req (Suc n) response t =
     (if rs_toolCalls response = [] then Inr (t\<lparr>tu_finalText := text_or (rs_text response) (tu_finalText t)\<rparr>)
      else let (d, ready, results) = apply_calls cfg (rs_toolCalls response) (tu_draft t);
               t1 = t\<lparr>tu_draft := d, tu_ready := (tu_ready t \<or> ready)\<rparr>
           in if n = 0 \<or> budget \<le> tu_callsUsed t1 then Inr (t1\<lparr>tu_finalText := text_or (rs_text response) noted_text\<rparr>)
              else (case pv_continue (oc_provider cfg) req response results of
                      Inl err \<Rightarrow> Inl (err, tu_callsUsed t1)
                    | Inr next_response \<Rightarrow> rounds cfg budget req n next_response (t1\<lparr>tu_callsUsed := tu_callsUsed t1 + 1\<rparr>)))"

text \<open>A stored message that has another shape is skipped.\<close>

definition is_llm_message :: "json \<Rightarrow> llm_message option" where
  "is_llm_message j =
     (case (jget ''role'' j, jget ''content'' j) of
        (Some (JStr r), Some (JStr c)) \<Rightarrow>
          if r = ''user'' then Some \<lparr>lm_role = User, lm_content = c\<rparr>
          else if r = ''assistant'' then Some \<lparr>lm_role = Assistant, lm_content = c\<rparr> else None
      | _ \<Rightarrow> None)"

definition history_of :: "onboarding_session \<Rightarrow> llm_message list" where
  "history_of x = (case os_conversationHistory x of JArr js \<Rightarrow> List.map_filter is_llm_message js | _ \<Rightarrow> [])"

definition document_count :: "onb \<Rightarrow> string \<Rightarrow> document_type \<Rightarrow> nat" where
  "document_count s sid dt = length (filter (\<lambda>d. od_sessionId d = sid \<and> od_docType d = dt) (ob_documents s))"

definition chat_request :: "onb_config \<Rightarrow> onb \<Rightarrow> onboarding_session \<Rightarrow> string \<Rightarrow> llm_request" where
  "chat_request cfg s x message =
     \<lparr>rq_system = Some (oc_prompt cfg (document_count s (os_id x) Quote_Doc) (document_count s (os_id x) Material_Order)),
      rq_messages = history_of x @ [\<lparr>lm_role = User, lm_content = message\<rparr>],
      rq_tools = oc_tools cfg, rq_maxTokens = Some 2048, rq_purpose = ''onboarding.chat'', rq_tenantId = None\<rparr>"

definition chat_turn :: "onb_config \<Rightarrow> int \<Rightarrow> llm_request \<Rightarrow> session_draft \<Rightarrow> (http_error \<times> int) + turn" where
  "chat_turn cfg budget req d =
     (case pv_complete (oc_provider cfg) req of
        Inl err \<Rightarrow> Inl (err, 0)
      | Inr response \<Rightarrow> rounds cfg budget req (nat budget) response
          \<lparr>tu_draft = d, tu_ready = False, tu_callsUsed = 1, tu_finalText = default_text\<rparr>)"

definition status_name :: "onboarding_status \<Rightarrow> string" where
  "status_name st = (case st of Talking \<Rightarrow> ''IN_PROGRESS'' | Ready_To_Finalize \<Rightarrow> ''READY_TO_FINALIZE''
     | Finalized \<Rightarrow> ''FINALIZED'' | Abandoned \<Rightarrow> ''ABANDONED'')"

text \<open>The start of \<open>sendMessage\<close>: what it reads, and the calls it may make.\<close>

definition message_open :: "onb_config \<Rightarrow> env \<Rightarrow> string \<Rightarrow> string \<Rightarrow> onb \<Rightarrow> http_error + (onboarding_session \<times> session_draft \<times> int)" where
  "message_open cfg e sid secret s =
     (case validate_session cfg e sid secret s of
        Inl err \<Rightarrow> Inl err
      | Inr (x, d) \<Rightarrow>
          if os_status x \<noteq> Talking
          then Inl (BadRequest (''Session is already '' @ status_name (os_status x) @ '' - cannot continue chatting''))
          else let remaining = oc_maxLlmCalls cfg - os_llmCallCount x
               in if remaining \<le> 0 then Inl (TooManyRequests ''This onboarding session has reached its LLM call limit'')
                  else Inr (x, d, min max_tool_iterations remaining))"

definition update_sessions :: "(onboarding_session \<Rightarrow> bool) \<Rightarrow> (onboarding_session \<Rightarrow> onboarding_session) \<Rightarrow> onb \<Rightarrow> nat \<times> onb" where
  "update_sessions P f s = (let (n, xs) = update_rows P f (ob_sessions s) in (n, s\<lparr>ob_sessions := xs\<rparr>))"

definition reserve_calls :: "string \<Rightarrow> nat \<Rightarrow> int \<Rightarrow> unit onb_op" where
  "reserve_calls sid ver budget s =
     (let (n, s1) = update_sessions (\<lambda>x. os_id x = sid \<and> os_version x = ver \<and> os_status x = Talking)
            (\<lambda>x. x\<lparr>os_version := os_version x + 1, os_llmCallCount := os_llmCallCount x + budget\<rparr>) s
      in if n = 0 then (Inl (Conflict ''Another request is already processing this onboarding session - retry in a moment''), s1)
         else (Inr (), s1))"

definition release_calls :: "string \<Rightarrow> nat \<Rightarrow> int \<Rightarrow> onb \<Rightarrow> onb" where
  "release_calls sid ver unused s =
     snd (update_sessions (\<lambda>x. os_id x = sid \<and> os_version x = ver)
       (\<lambda>x. x\<lparr>os_version := os_version x + 1, os_llmCallCount := os_llmCallCount x - max unused 0\<rparr>) s)"

definition write_turn :: "int \<Rightarrow> llm_message list \<Rightarrow> turn \<Rightarrow> onboarding_session \<Rightarrow> onboarding_session" where
  "write_turn budget msgs t x =
     x\<lparr>os_conversationHistory := JArr (map message_json msgs),
       os_companyInfo := (case sd_companyInfo (tu_draft t) of None \<Rightarrow> os_companyInfo x | Some c \<Rightarrow> Some (company_json c)),
       os_teamMembers := Some (JArr (map member_json (sd_teamMembers (tu_draft t)))),
       os_priceCodes := Some (JArr (map price_json (sd_priceCodes (tu_draft t)))),
       os_jobTypes := Some (JArr (map job_json (sd_jobTypes (tu_draft t)))),
       os_status := (if tu_ready t then Ready_To_Finalize else os_status x),
       os_version := os_version x + 1,
       os_llmCallCount := os_llmCallCount x - (budget - tu_callsUsed t)\<rparr>"

text \<open>What follows the calls: the unused calls go back, the turn is written under the lock.\<close>

definition message_close ::
  "onb_config \<Rightarrow> onboarding_session \<Rightarrow> int \<Rightarrow> string \<Rightarrow> (http_error \<times> int) + turn \<Rightarrow> (string \<times> string) onb_op" where
  "message_close cfg x budget message outcome s =
     (case outcome of
        Inl (err, used) \<Rightarrow>
          ((case err of ServiceUnavailable m \<Rightarrow> Inl err
            | _ \<Rightarrow> Inl (BadGateway ''The onboarding assistant is temporarily unavailable - please retry'')),
           release_calls (os_id x) (os_version x + 1) (budget - used) s)
      | Inr t \<Rightarrow>
          (let msgs = history_of x @ [\<lparr>lm_role = User, lm_content = message\<rparr>, \<lparr>lm_role = Assistant, lm_content = tu_finalText t\<rparr>];
               (n, s1) = update_sessions (\<lambda>y. os_id y = os_id x \<and> os_version y = os_version x + 1) (write_turn budget msgs t) s
           in if n = 0 then (Inl (Conflict ''Onboarding session changed concurrently - please retry''), s1)
              else (Inr (tu_finalText t, if tu_ready t then ''READY_TO_FINALIZE'' else ''IN_PROGRESS''), s1)))"

definition send_message :: "onb_config \<Rightarrow> env \<Rightarrow> string \<Rightarrow> string \<Rightarrow> string \<Rightarrow> (string \<times> string) onb_op" where
  "send_message cfg e sid secret userMessage s =
     (case message_open cfg e sid secret s of
        Inl err \<Rightarrow> (Inl err, s)
      | Inr (x, d, budget) \<Rightarrow>
          (case reserve_calls sid (os_version x) budget s of
             (Inl err, s1) \<Rightarrow> (Inl err, s1)
           | (Inr _, s1) \<Rightarrow>
               (let message = js_take (oc_maxInputChars cfg) userMessage
                in message_close cfg x budget message (chat_turn cfg budget (chat_request cfg s1 x message) d) s1)))"

record session_summary =
  su_status :: onboarding_status
  su_expiresAt :: int
  su_draft :: session_draft
  su_quotes :: nat
  su_materialOrders :: nat
  su_llmCallsUsed :: int
  su_llmCallsLimit :: int

definition get_session_summary :: "onb_config \<Rightarrow> env \<Rightarrow> string \<Rightarrow> string \<Rightarrow> session_summary onb_op" where
  "get_session_summary cfg e sid secret s =
     (case validate_session cfg e sid secret s of
        Inl err \<Rightarrow> (Inl err, s)
      | Inr (x, d) \<Rightarrow> (Inr \<lparr>su_status = os_status x, su_expiresAt = os_expiresAt x, su_draft = d,
          su_quotes = document_count s sid Quote_Doc, su_materialOrders = document_count s sid Material_Order,
          su_llmCallsUsed = os_llmCallCount x, su_llmCallsLimit = oc_maxLlmCalls cfg\<rparr>, s))"

section \<open>The schemas accept what they return\<close>

lemma short_text_stable: "short_text mx j = Some t \<Longrightarrow> short_text mx (Some (JStr t)) = Some t"
  by (cases "(mx, j)" rule: short_text.cases) (auto simp: Let_def split: if_splits)

lemma email_text_stable: "email_text ie j = Some t \<Longrightarrow> email_text ie (Some (JStr t)) = Some t"
  by (cases "(ie, j)" rule: email_text.cases) (auto simp: Let_def trim_to_lower split: if_splits)

lemma matching_iff: "matching p x = Some t \<longleftrightarrow> x = Some t \<and> p t"
  by (auto simp: matching_def split: option.splits if_splits)

lemma optional_text_stable: "optional_text mx j = Some x \<Longrightarrow> optional_text mx (map_option JStr x) = Some x"
  by (cases j) (auto dest: short_text_stable)

declare short_text.simps(1) [simp del] email_text.simps(1) [simp del]

lemma enum_tables [simp]:
  "map_of verticals (vertical_text v) = Some v" "map_of roles (role_name r) = Some r"
  by (cases v; simp add: verticals_def) (cases r; simp add: roles_def)

lemma field_type_stable: "enum_of field_types j = Some t \<Longrightarrow> enum_of field_types (Some (JStr t)) = Some t"
  by (cases "(field_types, j)" rule: enum_of.cases) (auto simp: field_types_def split: if_splits)

lemma those_map: "those (map f xs) = Some ys \<Longrightarrow> \<forall>y \<in> set ys. \<exists>x \<in> set xs. f x = Some y"
proof (induction xs arbitrary: ys)
  case (Cons x xs)
  then obtain y zs where "f x = Some y" "those (map f xs) = Some zs" "ys = y # zs"
    by (auto split: option.splits)
  with Cons.IH [of zs] show ?case by auto
qed simp

lemma those_map_length: "those (map f xs) = Some ys \<Longrightarrow> length ys = length xs"
  by (induction xs arbitrary: ys) (auto split: option.splits)

lemma those_ok: "list_all (\<lambda>x. f (g x) = Some x) xs \<Longrightarrow> those (map f (map g xs)) = Some xs"
  by (induction xs) auto

lemma array_of_mem:
  assumes "array_of schema j = Some ys" and "y \<in> set ys"
  obtains x where "schema x = Some y"
  using assms by (cases "(schema, j)" rule: array_of.cases) (auto dest: those_map)

lemma array_of_all:
  assumes "array_of schema j = Some ys" and "\<And>x y. schema x = Some y \<Longrightarrow> P y"
  shows "list_all P ys"
  unfolding list_all_iff by (metis assms array_of_mem)

lemma at_most_iff: "at_most n x = Some xs \<longleftrightarrow> x = Some xs \<and> length xs \<le> n"
  by (auto simp: at_most_def split: option.splits if_splits)

text \<open>A schema accepts what it returned, once printed: the contract behind storing a draft.\<close>

locale stable_schema =
  fixes schema :: "json \<Rightarrow> 'a option" and print :: "'a \<Rightarrow> json"
  assumes stable: "schema j = Some x \<Longrightarrow> schema (print x) = Some x"
begin

lemma array_returned: "array_of schema j = Some xs \<Longrightarrow> list_all (\<lambda>x. schema (print x) = Some x) xs"
  by (rule array_of_all [where schema = schema and j = j]) (auto dest: stable)

lemma list_stable: "list_all (\<lambda>x. schema (print x) = Some x) xs \<Longrightarrow> array_of schema (Some (JArr (map print xs))) = Some xs"
  using those_ok [of schema print xs] by (simp add: comp_def)

lemma array_stable: "array_of schema j = Some xs \<Longrightarrow> array_of schema (Some (JArr (map print xs))) = Some xs"
  by (rule list_stable) (rule array_returned)

end

definition company_ok :: "(string \<Rightarrow> bool) \<Rightarrow> company_info \<Rightarrow> bool" where
  "company_ok ie c \<longleftrightarrow> company_schema ie (company_json c) = Some c"

definition member_ok :: "(string \<Rightarrow> bool) \<Rightarrow> team_member \<Rightarrow> bool" where
  "member_ok ie m \<longleftrightarrow> member_schema ie (member_json m) = Some m"

definition price_ok :: "price_code \<Rightarrow> bool" where
  "price_ok p \<longleftrightarrow> price_schema (price_json p) = Some p"

definition job_ok :: "job_type_draft \<Rightarrow> bool" where
  "job_ok j \<longleftrightarrow> job_schema (job_json j) = Some j"

lemma company_schema_ok:
  assumes "company_schema ie j = Some c"
  shows "company_ok ie c"
proof -
  from assms obtain n b v m where p: "short_text 200 (jget ''legalName'' j) = Some n" "short_text 20 (jget ''businessId'' j) = Some b"
    "business_id_ok b" "email_text ie (jget ''contactEmail'' j) = Some m"
    and c: "c = \<lparr>co_legalName = n, co_businessId = b, co_vertical = v, co_contactEmail = m\<rparr>"
    by (auto simp: company_schema_def matching_iff split: option.splits)
  from short_text_stable [OF p(1)] short_text_stable [OF p(2)] p(3) email_text_stable [OF p(4)] show ?thesis
    by (simp add: company_ok_def company_schema_def company_json_def c matching_def)
qed

lemma member_schema_ok: "member_schema ie j = Some m \<Longrightarrow> member_ok ie m"
  by (auto simp: member_ok_def member_schema_def member_json_def split: option.splits
      dest: short_text_stable email_text_stable)

lemma price_schema_ok: "price_schema j = Some p \<Longrightarrow> price_ok p"
  by (auto simp: price_ok_def price_schema_def price_json_def matching_iff split: option.splits json.splits if_splits
      dest: short_text_stable)

lemma optional_bool_stable: "optional_bool j = Some x \<Longrightarrow> optional_bool (map_option JBool x) = Some x"
  by (cases j rule: optional_bool.cases) auto

lemma jget_optional [simp]: "jget k (JObj (optional_pair k v)) = v" "map_of (optional_pair k v) k = v"
  "k \<noteq> k' \<Longrightarrow> map_of (optional_pair k' v) k = None"
  by (simp_all add: optional_pair_def split: option.split)

lemma field_schema_ok: "field_schema j = Some f \<Longrightarrow> field_schema (field_json f) = Some f"
  by (auto simp: field_schema_def field_json_def matching_iff split: option.splits
      dest: short_text_stable field_type_stable optional_bool_stable)

interpretation field: stable_schema field_schema field_json
  by unfold_locales (rule field_schema_ok)

lemma check_schema_ok: "check_schema j = Some c \<Longrightarrow> check_schema (check_json c) = Some c"
  by (auto simp: check_schema_def check_json_def split: option.splits dest: short_text_stable optional_text_stable)

interpretation check: stable_schema check_schema check_json
  by unfold_locales (rule check_schema_ok)

lemma job_json_fields:
  "jget ''name'' (job_json j) = Some (JStr (jd_name j))"
  "jget ''requiredSkill'' (job_json j) = map_option JStr (jd_requiredSkill j)"
  "jget ''fields'' (job_json j) = Some (JArr (map field_json (jd_fields j)))"
  "jget ''defaultChecklist'' (job_json j) = Some (JArr (map check_json (jd_defaultChecklist j)))"
  by (simp_all add: job_json_def map_add_def split: option.split)

lemma job_schema_ok:
  assumes "job_schema j = Some d"
  shows "job_ok d"
proof -
  from assms obtain n sk fs cs where p: "short_text 120 (jget ''name'' j) = Some n" "optional_text 80 (jget ''requiredSkill'' j) = Some sk"
    "array_of field_schema (jget ''fields'' j) = Some fs" "length fs \<le> 50"
    "array_of check_schema (jget ''defaultChecklist'' j) = Some cs" "length cs \<le> 100"
    and d: "d = \<lparr>jd_name = n, jd_requiredSkill = sk, jd_fields = fs, jd_defaultChecklist = cs\<rparr>"
    by (auto simp: job_schema_def at_most_iff split: option.splits)
  note f = field.array_stable [OF p(3)] and c = check.array_stable [OF p(5)]
  from short_text_stable [OF p(1)] optional_text_stable [OF p(2)] f c p(4,6) show ?thesis
    by (simp add: job_ok_def job_schema_def job_json_fields d at_most_def)
qed

interpretation member: stable_schema "member_schema ie" member_json for ie
  by unfold_locales (use member_schema_ok in \<open>simp add: member_ok_def\<close>)

interpretation price: stable_schema price_schema price_json
  by unfold_locales (use price_schema_ok in \<open>simp add: price_ok_def\<close>)

interpretation job: stable_schema job_schema job_json
  by unfold_locales (use job_schema_ok in \<open>simp add: job_ok_def\<close>)

lemmas ok_defs = member_ok_def [abs_def] price_ok_def [abs_def] job_ok_def [abs_def]

definition draft_ok :: "(string \<Rightarrow> bool) \<Rightarrow> session_draft \<Rightarrow> bool" where
  "draft_ok ie d \<longleftrightarrow> (case sd_companyInfo d of None \<Rightarrow> True | Some c \<Rightarrow> company_ok ie c)
     \<and> list_all (member_ok ie) (sd_teamMembers d) \<and> list_all price_ok (sd_priceCodes d) \<and> list_all job_ok (sd_jobTypes d)"

lemma draft_ok_empty [simp]: "draft_ok ie empty_draft"
  by (simp add: draft_ok_def empty_draft_def)

lemma nullable_company_ok: "nullable_company ie j = Some (Some c) \<Longrightarrow> company_ok ie c"
  by (cases "(ie, j)" rule: nullable_company.cases) (auto dest: company_schema_ok)

lemma draft_schema_ok:
  assumes "draft_schema ie j = Some d"
  shows "draft_ok ie d"
proof -
  from assms obtain c ms ps js where p: "nullable_company ie (jget ''companyInfo'' j) = Some c"
    "array_of (member_schema ie) (jget ''teamMembers'' j) = Some ms" "array_of price_schema (jget ''priceCodes'' j) = Some ps"
    "array_of job_schema (jget ''jobTypes'' j) = Some js"
    and d: "d = \<lparr>sd_companyInfo = c, sd_teamMembers = ms, sd_priceCodes = ps, sd_jobTypes = js\<rparr>"
    by (auto simp: draft_schema_def split: option.splits)
  have "list_all (member_ok ie) ms" "list_all price_ok ps" "list_all job_ok js"
    using member.array_returned [OF p(2)] price.array_returned [OF p(3)] job.array_returned [OF p(4)] by (simp_all add: ok_defs)
  then show ?thesis using p(1) by (auto simp: draft_ok_def d dest: nullable_company_ok split: option.split)
qed

lemma read_draft_ok: "draft_ok (oc_isEmail cfg) (read_draft cfg x)"
  by (cases "draft_schema (oc_isEmail cfg) (stored_json x)") (auto simp: read_draft_def or_else_def dest: draft_schema_ok)

section \<open>The tools keep the draft well typed\<close>

lemma set_put_by: "set (put_by key x xs) \<subseteq> insert x (set xs)"
  by (induction xs) auto

lemma length_put_by: "length (put_by key x xs) \<le> Suc (length xs)"
  by (induction xs) auto

lemma list_all_put_by: "list_all P xs \<Longrightarrow> P x \<Longrightarrow> list_all P (put_by key x xs)"
  using set_put_by [of key x xs] by (auto simp: list_all_iff)

lemma keys_put_by: "set (map key (put_by key x xs)) = insert (key x) (set (map key xs))"
  by (induction xs) auto

lemma distinct_put_by: "distinct (map key xs) \<Longrightarrow> distinct (map key (put_by key x xs))"
  by (induction xs) (auto simp: keys_put_by [simplified])

definition draft_sizes :: "session_draft \<Rightarrow> bool" where
  "draft_sizes d \<longleftrightarrow> length (sd_teamMembers d) \<le> 100 \<and> length (sd_priceCodes d) \<le> 500 \<and> length (sd_jobTypes d) \<le> 100
     \<and> distinct (map tm_email (sd_teamMembers d)) \<and> distinct (map pc_code (sd_priceCodes d)) \<and> distinct (map jd_name (sd_jobTypes d))"

text \<open>Every branch of the tool switch.\<close>

lemma apply_tool_call_cases:
  assumes "apply_tool_call cfg name inp d = Recorded d'"
  obtains c where "d' = d\<lparr>sd_companyInfo := Some c\<rparr>" "company_ok (oc_isEmail cfg) c"
  | m where "d' = d\<lparr>sd_teamMembers := put_by tm_email m (sd_teamMembers d)\<rparr>" "member_ok (oc_isEmail cfg) m" "length (sd_teamMembers d) < 100"
  | p where "d' = d\<lparr>sd_priceCodes := put_by pc_code p (sd_priceCodes d)\<rparr>" "price_ok p" "length (sd_priceCodes d) < 500"
  | j where "d' = d\<lparr>sd_jobTypes := put_by jd_name j (sd_jobTypes d)\<rparr>" "job_ok j" "length (sd_jobTypes d) < 100"
  using assms unfolding apply_tool_call_def
  by (auto split: if_splits option.splits dest: company_schema_ok member_schema_ok price_schema_ok job_schema_ok)

lemma apply_tool_call_ok:
  assumes "apply_tool_call cfg name inp d = Recorded d'" and "draft_ok (oc_isEmail cfg) d"
  shows "draft_ok (oc_isEmail cfg) d'"
  using assms(2) by (cases rule: apply_tool_call_cases [OF assms(1)]) (simp_all add: draft_ok_def list_all_put_by)

lemma apply_tool_call_sizes:
  assumes "apply_tool_call cfg name inp d = Recorded d'" and "draft_sizes d"
  shows "draft_sizes d'"
  using assms(2)
  by (cases rule: apply_tool_call_cases [OF assms(1)])
    (auto simp: draft_sizes_def distinct_put_by intro: order_trans [OF length_put_by])

lemma apply_calls_invariant:
  assumes "\<And>name inp d d'. apply_tool_call cfg name inp d = Recorded d' \<Longrightarrow> I d \<Longrightarrow> I d'" and "I d"
  shows "I (fst (apply_calls cfg cs d))"
  using assms(2)
proof (induction cs arbitrary: d)
  case (Cons c cs)
  let ?d = "case apply_tool_call cfg (tc_name c) (tc_input c) d of Recorded d' \<Rightarrow> d' | _ \<Rightarrow> d"
  have "I ?d" using Cons.prems assms(1) by (auto split: tool_outcome.split)
  from Cons.IH [OF this] show ?case by (simp add: Let_def split: prod.split) (metis fst_conv)
qed simp

text \<open>A turn keeps what every tool call keeps.\<close>

lemma rounds_invariant:
  assumes "\<And>name inp d d'. apply_tool_call cfg name inp d = Recorded d' \<Longrightarrow> I d \<Longrightarrow> I d'"
    and "rounds cfg budget req n response t = Inr t'" and "I (tu_draft t)"
  shows "I (tu_draft t')"
  using assms(2,3)
proof (induction n arbitrary: response t)
  case (Suc n)
  obtain d ready results where a: "apply_calls cfg (rs_toolCalls response) (tu_draft t) = (d, ready, results)"
    by (cases "apply_calls cfg (rs_toolCalls response) (tu_draft t)")
  have "I d" using apply_calls_invariant [of cfg I "tu_draft t" "rs_toolCalls response"] assms(1) Suc.prems(2) a by auto
  with Suc show ?case by (auto simp: a Let_def split: if_splits sum.splits)
qed simp

lemma chat_turn_invariant:
  assumes "\<And>name inp d d'. apply_tool_call cfg name inp d = Recorded d' \<Longrightarrow> I d \<Longrightarrow> I d'"
    and "chat_turn cfg budget req d = Inr t" and "I d"
  shows "I (tu_draft t)"
  using assms(2) rounds_invariant [of cfg I budget req "nat budget"] assms(1,3)
  by (auto simp: chat_turn_def split: sum.splits)

section \<open>The calls of a turn\<close>

lemma rounds_calls:
  assumes "tu_callsUsed t \<le> budget" and "0 \<le> tu_callsUsed t"
  shows "case rounds cfg budget req n response t of Inl (err, used) \<Rightarrow> tu_callsUsed t \<le> used \<and> used \<le> budget
      | Inr t' \<Rightarrow> tu_callsUsed t \<le> tu_callsUsed t' \<and> tu_callsUsed t' \<le> budget"
  using assms
proof (induction n arbitrary: response t)
  case (Suc n)
  obtain d ready results where a: "apply_calls cfg (rs_toolCalls response) (tu_draft t) = (d, ready, results)"
    by (cases "apply_calls cfg (rs_toolCalls response) (tu_draft t)")
  let ?t1 = "t\<lparr>tu_draft := d, tu_ready := (tu_ready t \<or> ready)\<rparr>"
  show ?case
  proof (cases "rs_toolCalls response = [] \<or> n = 0 \<or> budget \<le> tu_callsUsed t")
    case True
    with Suc.prems show ?thesis by (auto simp: a Let_def)
  next
    case False
    show ?thesis
    proof (cases "pv_continue (oc_provider cfg) req response results")
      case (Inl err)
      with False Suc.prems show ?thesis by (simp add: a Let_def)
    next
      case (Inr r)
      have "tu_callsUsed (?t1\<lparr>tu_callsUsed := tu_callsUsed ?t1 + 1\<rparr>) \<le> budget" "0 \<le> tu_callsUsed (?t1\<lparr>tu_callsUsed := tu_callsUsed ?t1 + 1\<rparr>)"
        using False Suc.prems by simp_all
      from Suc.IH [OF this, of r] False Inr show ?thesis
        by (auto simp: a Let_def split: sum.splits prod.splits)
    qed
  qed
qed simp

lemma chat_turn_calls:
  assumes "1 \<le> budget"
  shows "case chat_turn cfg budget req d of Inl (err, used) \<Rightarrow> 0 \<le> used \<and> used \<le> budget
      | Inr t \<Rightarrow> 1 \<le> tu_callsUsed t \<and> tu_callsUsed t \<le> budget"
proof (cases "pv_complete (oc_provider cfg) req")
  case (Inl err)
  with assms show ?thesis by (simp add: chat_turn_def)
next
  case (Inr r)
  let ?t = "\<lparr>tu_draft = d, tu_ready = False, tu_callsUsed = 1, tu_finalText = default_text\<rparr>"
  from rounds_calls [of ?t budget cfg req "nat budget" r] assms show ?thesis
    by (auto simp: chat_turn_def Inr split: sum.splits prod.splits)
qed

section \<open>Rows of sessions\<close>

lemma find_update:
  assumes "\<And>x. os_id (f x) = os_id x"
  shows "find_session (snd (update_sessions P f s)) sid = map_option (\<lambda>x. if P x then f x else x) (find_session s sid)"
  using find_map_rows [of "\<lambda>x. os_id x = sid" "\<lambda>x. if P x then f x else x" "ob_sessions s"] assms
  by (simp add: find_session_def update_sessions_def update_rows_def)

lemma count_update: "find_session s sid = Some x \<Longrightarrow> P x \<Longrightarrow> fst (update_sessions P f s) \<noteq> 0"
  using find_SomeD [of "\<lambda>x. os_id x = sid" "ob_sessions s" x]
  by (auto simp: find_session_def update_sessions_def update_rows_def filter_empty_conv)

lemma found_id: "find_session s sid = Some x \<Longrightarrow> os_id x = sid"
  unfolding find_session_def using find_SomeD by fastforce

lemma unique_session:
  assumes "distinct (map os_id (ob_sessions s))" and "find_session s sid = Some x" and "y \<in> set (ob_sessions s)" and "os_id y = sid"
  shows "y = x"
proof -
  from assms(2) have "x \<in> set (ob_sessions s)" "os_id x = sid" using find_SomeD by (fastforce simp: find_session_def)+
  with assms(1,3,4) show ?thesis by (metis distinct_map_eq)
qed

text \<open>A write under a version another request has passed finds no row.\<close>

lemma stale_update:
  assumes "distinct (map os_id (ob_sessions s))" and "find_session s sid = Some x" and "os_version x \<noteq> ver"
  shows "update_sessions (\<lambda>y. os_id y = sid \<and> os_version y = ver) f s = (0, s)"
proof -
  have n: "\<not> (os_id y = sid \<and> os_version y = ver)" if "y \<in> set (ob_sessions s)" for y
    using unique_session [OF assms(1,2) that] assms(3) by auto
  have "map (\<lambda>y. if os_id y = sid \<and> os_version y = ver then f y else y) (ob_sessions s) = ob_sessions s"
    by (rule map_idI) (rule if_not_P, rule n)
  moreover have "filter (\<lambda>y. os_id y = sid \<and> os_version y = ver) (ob_sessions s) = []"
    using n by (simp add: filter_empty_conv)
  ultimately have "update_rows (\<lambda>y. os_id y = sid \<and> os_version y = ver) f (ob_sessions s) = (0, ob_sessions s)"
    by (simp only: update_rows_def list.size)
  then show ?thesis by (simp add: update_sessions_def)
qed

lemma update_keeps_distinct:
  assumes "\<And>x. os_id (f x) = os_id x" and "distinct (map os_id (ob_sessions s))"
  shows "distinct (map os_id (ob_sessions (snd (update_sessions P f s))))"
  using assms map_update_rows [of "ob_sessions s" P os_id f] by (simp add: update_sessions_def split_beta)

definition reserved_row :: "int \<Rightarrow> onboarding_session \<Rightarrow> onboarding_session" where
  "reserved_row budget x = x\<lparr>os_version := os_version x + 1, os_llmCallCount := os_llmCallCount x + budget\<rparr>"

lemma reserve_calls_ok:
  assumes "find_session s sid = Some x" and "os_status x = Talking"
  shows "\<exists>s1. reserve_calls sid (os_version x) budget s = (Inr (), s1) \<and> find_session s1 sid = Some (reserved_row budget x)
    \<and> ob_documents s1 = ob_documents s \<and> (distinct (map os_id (ob_sessions s)) \<longrightarrow> distinct (map os_id (ob_sessions s1)))"
proof -
  let ?P = "\<lambda>y. os_id y = sid \<and> os_version y = os_version x \<and> os_status y = Talking"
  let ?f = "\<lambda>x. x\<lparr>os_version := os_version x + 1, os_llmCallCount := os_llmCallCount x + budget\<rparr>"
  let ?u = "update_sessions ?P ?f s"
  have "fst ?u \<noteq> 0" by (rule count_update [OF assms(1)]) (use assms found_id in auto)
  then have "reserve_calls sid (os_version x) budget s = (Inr (), snd ?u)"
    by (simp add: reserve_calls_def split_beta)
  moreover have "find_session (snd ?u) sid = Some (reserved_row budget x)"
    using assms found_id [OF assms(1)] by (subst find_update) (simp_all add: reserved_row_def)
  moreover have "ob_documents (snd ?u) = ob_documents s" by (simp add: update_sessions_def split_beta)
  ultimately show ?thesis using update_keeps_distinct [of ?f s ?P] by auto
qed

text \<open>A message that gets past the checks.\<close>

lemma message_open_ok:
  assumes "message_open cfg e sid secret s = Inr (x, d, budget)"
  shows "find_session s sid = Some x \<and> d = read_draft cfg x \<and> os_status x = Talking
    \<and> budget = min max_tool_iterations (oc_maxLlmCalls cfg - os_llmCallCount x) \<and> 1 \<le> budget
    \<and> oc_hash cfg secret = hex_decode (os_sessionSecretHash x) \<and> now e < os_expiresAt x"
  using assms
  by (auto simp: message_open_def validate_session_def Let_def max_tool_iterations_def split: option.splits sum.splits if_splits)

lemma message_open_intro:
  assumes "find_session s sid = Some x" and "oc_hash cfg secret = hex_decode (os_sessionSecretHash x)" and "now e < os_expiresAt x"
    and "os_status x = Talking" and "os_llmCallCount x < oc_maxLlmCalls cfg"
  shows "message_open cfg e sid secret s
    = Inr (x, read_draft cfg x, min max_tool_iterations (oc_maxLlmCalls cfg - os_llmCallCount x))"
  using assms by (simp add: message_open_def validate_session_def Let_def)

lemma send_message_cases:
  assumes "send_message cfg e sid secret m s = (r, s')"
  obtains err where "message_open cfg e sid secret s = Inl err" "r = Inl err" "s' = s"
  | x budget s1 where "message_open cfg e sid secret s = Inr (x, read_draft cfg x, budget)"
      "reserve_calls sid (os_version x) budget s = (Inr (), s1)" "find_session s1 sid = Some (reserved_row budget x)"
      "message_close cfg x budget (js_take (oc_maxInputChars cfg) m)
         (chat_turn cfg budget (chat_request cfg s1 x (js_take (oc_maxInputChars cfg) m)) (read_draft cfg x)) s1 = (r, s')"
proof (cases "message_open cfg e sid secret s")
  case (Inl err)
  with assms have "r = Inl err" "s' = s" by (auto simp: send_message_def)
  with Inl show ?thesis by (rule that(1))
next
  case (Inr v)
  obtain x d budget where v: "v = (x, d, budget)" by (cases v)
  from message_open_ok [OF Inr [unfolded v]] have o: "find_session s sid = Some x" "os_status x = Talking" "d = read_draft cfg x" by auto
  from reserve_calls_ok [OF o(1,2), of budget] obtain s1 where
    s1: "reserve_calls sid (os_version x) budget s = (Inr (), s1)" "find_session s1 sid = Some (reserved_row budget x)" by blast
  have open_x: "message_open cfg e sid secret s = Inr (x, read_draft cfg x, budget)" using Inr v o(3) by simp
  from assms have "message_close cfg x budget (js_take (oc_maxInputChars cfg) m)
      (chat_turn cfg budget (chat_request cfg s1 x (js_take (oc_maxInputChars cfg) m)) (read_draft cfg x)) s1 = (r, s')"
    unfolding send_message_def open_x sum.case prod.case s1(1) Let_def .
  then show ?thesis by (rule that(2) [OF open_x s1])
qed

text \<open>Both endings write the reserved row, which is still the one they read.\<close>

definition released_row :: "int \<Rightarrow> onboarding_session \<Rightarrow> onboarding_session" where
  "released_row unused x = x\<lparr>os_version := os_version x + 1, os_llmCallCount := os_llmCallCount x - max unused 0\<rparr>"

lemma message_close_row:
  assumes "find_session s sid = Some (reserved_row budget x)" and "os_id x = sid"
    and "message_close cfg x budget m outcome s = (r, s')"
  shows "(case outcome of
      Inl (err, used) \<Rightarrow> find_session s' sid = Some (released_row (budget - used) (reserved_row budget x)) \<and> (\<exists>err'. r = Inl err')
    | Inr t \<Rightarrow> find_session s' sid = Some (write_turn budget (history_of x @ [\<lparr>lm_role = User, lm_content = m\<rparr>,
          \<lparr>lm_role = Assistant, lm_content = tu_finalText t\<rparr>]) t (reserved_row budget x))
        \<and> r = Inr (tu_finalText t, if tu_ready t then ''READY_TO_FINALIZE'' else ''IN_PROGRESS''))"
proof (cases outcome)
  case (Inl v)
  obtain err used where v: "v = (err, used)" by (cases v)
  let ?P = "\<lambda>y. os_id y = sid \<and> os_version y = os_version x + 1"
  have "find_session (release_calls sid (os_version x + 1) (budget - used) s) sid
      = Some (released_row (budget - used) (reserved_row budget x))"
    unfolding release_calls_def
    by (subst find_update) (simp_all add: assms(1,2) reserved_row_def released_row_def)
  with assms(2,3) Inl v show ?thesis by (auto simp: message_close_def split: http_error.splits)
next
  case (Inr t)
  let ?P = "\<lambda>y. os_id y = os_id x \<and> os_version y = os_version x + 1"
  let ?f = "write_turn budget (history_of x @ [\<lparr>lm_role = User, lm_content = m\<rparr>, \<lparr>lm_role = Assistant, lm_content = tu_finalText t\<rparr>]) t"
  have id: "\<And>y. os_id (?f y) = os_id y" by (simp add: write_turn_def)
  have row: "?P (reserved_row budget x)" by (simp add: reserved_row_def)
  have "fst (update_sessions ?P ?f s) \<noteq> 0" by (rule count_update [where P = ?P, OF assms(1) row])
  then have "message_close cfg x budget m (Inr t) s
      = (Inr (tu_finalText t, if tu_ready t then ''READY_TO_FINALIZE'' else ''IN_PROGRESS''), snd (update_sessions ?P ?f s))"
    by (simp add: message_close_def Let_def split_beta)
  moreover have "find_session (snd (update_sessions ?P ?f s)) sid = Some (?f (reserved_row budget x))"
    by (subst find_update [OF id]) (simp add: assms(1) row)
  ultimately show ?thesis using assms(3) Inr by simp
qed

section \<open>What a turn stores is what the next one reads\<close>

lemma is_llm_message_json [simp]: "is_llm_message (message_json m) = Some m"
  by (cases m; cases "lm_role m") (auto simp: is_llm_message_def message_json_def)

lemma history_written: "history_of (write_turn budget msgs t x) = msgs"
  by (induction msgs) (simp_all add: history_of_def write_turn_def map_filter_simps)

text \<open>Without company details in the draft their column holds none.\<close>

definition well_stored :: "onb_config \<Rightarrow> onboarding_session \<Rightarrow> bool" where
  "well_stored cfg x \<longleftrightarrow> draft_schema (oc_isEmail cfg) (stored_json x) = Some (read_draft cfg x)"

lemma stored_json_fields:
  "jget ''companyInfo'' (stored_json x) = Some (or_else (os_companyInfo x) JNull)"
  "jget ''teamMembers'' (stored_json x) = Some (or_else (os_teamMembers x) (JArr []))"
  "jget ''priceCodes'' (stored_json x) = Some (or_else (os_priceCodes x) (JArr []))"
  "jget ''jobTypes'' (stored_json x) = Some (or_else (os_jobTypes x) (JArr []))"
  by (simp_all add: stored_json_def)

lemma nullable_company_none: "nullable_company ie j = Some None \<longleftrightarrow> j = Some JNull"
  by (cases "(ie, j)" rule: nullable_company.cases) auto

lemma nullable_company_json: "company_ok ie c \<Longrightarrow> nullable_company ie (Some (company_json c)) = Some (Some c)"
  by (simp add: company_ok_def company_json_def)

lemma written_draft:
  assumes "draft_ok (oc_isEmail cfg) (tu_draft t)" and "sd_companyInfo (tu_draft t) = None \<Longrightarrow> or_else (os_companyInfo x) JNull = JNull"
  shows "well_stored cfg (write_turn budget msgs t x) \<and> read_draft cfg (write_turn budget msgs t x) = tu_draft t"
proof -
  let ?w = "write_turn budget msgs t x" and ?ie = "oc_isEmail cfg" and ?d = "tu_draft t"
  have "nullable_company ?ie (jget ''companyInfo'' (stored_json ?w)) = Some (sd_companyInfo ?d)"
  proof (cases "sd_companyInfo ?d")
    case None
    with assms(2) show ?thesis by (simp add: stored_json_fields write_turn_def)
  next
    case (Some c)
    with assms(1) have "company_ok ?ie c" by (simp add: draft_ok_def)
    from nullable_company_json [OF this] Some show ?thesis by (simp add: stored_json_fields write_turn_def or_else_def)
  qed
  moreover have "array_of (member_schema ?ie) (jget ''teamMembers'' (stored_json ?w)) = Some (sd_teamMembers ?d)"
    "array_of price_schema (jget ''priceCodes'' (stored_json ?w)) = Some (sd_priceCodes ?d)"
    "array_of job_schema (jget ''jobTypes'' (stored_json ?w)) = Some (sd_jobTypes ?d)"
    using assms(1) member.list_stable [of ?ie "sd_teamMembers ?d"] price.list_stable [of "sd_priceCodes ?d"] job.list_stable [of "sd_jobTypes ?d"]
    unfolding stored_json_fields draft_ok_def ok_defs by (simp_all add: write_turn_def or_else_def del: array_of.simps)
  ultimately have "draft_schema ?ie (stored_json ?w) = Some ?d" by (simp add: draft_schema_def)
  then show ?thesis by (simp add: well_stored_def read_draft_def or_else_def)
qed

lemma draft_schema_company: "draft_schema ie j = Some d \<Longrightarrow> nullable_company ie (jget ''companyInfo'' j) = Some (sd_companyInfo d)"
  by (auto simp: draft_schema_def split: option.splits)

lemma turn_keeps_company:
  assumes "chat_turn cfg budget req d = Inr t" and "sd_companyInfo (tu_draft t) = None"
  shows "sd_companyInfo d = None"
proof (rule ccontr)
  assume n: "sd_companyInfo d \<noteq> None"
  have "sd_companyInfo (tu_draft t) \<noteq> None"
    by (rule chat_turn_invariant [OF _ assms(1), where I = "\<lambda>d. sd_companyInfo d \<noteq> None"])
      (use n in \<open>auto elim: apply_tool_call_cases\<close>)
  with assms(2) show False by simp
qed

text \<open>C36. What a turn of the conversation stores, the draft as JSON columns and the history, is
  what the next request reads back.\<close>
theorem reply_is_read_back:
  assumes "send_message cfg e sid secret m s = (Inr (text, status), s')" and "find_session s sid = Some x" and "well_stored cfg x"
  shows "\<exists>x' t req. find_session s' sid = Some x' \<and> well_stored cfg x'
    \<and> chat_turn cfg (min max_tool_iterations (oc_maxLlmCalls cfg - os_llmCallCount x)) req (read_draft cfg x) = Inr t
    \<and> read_draft cfg x' = tu_draft t
    \<and> history_of x' = history_of x @ [\<lparr>lm_role = User, lm_content = js_take (oc_maxInputChars cfg) m\<rparr>, \<lparr>lm_role = Assistant, lm_content = text\<rparr>]
    \<and> os_status x' = (if tu_ready t then Ready_To_Finalize else Talking) \<and> status = status_name (os_status x')
    \<and> os_llmCallCount x' = os_llmCallCount x + tu_callsUsed t"
proof (cases rule: send_message_cases [OF assms(1)])
  case (2 y budget s1)
  from message_open_ok [OF 2(1)] assms(2) have y: "y = x" "os_status x = Talking"
    "budget = min max_tool_iterations (oc_maxLlmCalls cfg - os_llmCallCount x)" by auto
  let ?msg = "js_take (oc_maxInputChars cfg) m"
  let ?req = "chat_request cfg s1 x ?msg"
  from message_close_row [OF 2(3) _ 2(4)] found_id [OF assms(2)] y(1) obtain t where
    t: "chat_turn cfg budget ?req (read_draft cfg x) = Inr t"
    and row: "find_session s' sid = Some (write_turn budget (history_of x @ [\<lparr>lm_role = User, lm_content = ?msg\<rparr>,
          \<lparr>lm_role = Assistant, lm_content = tu_finalText t\<rparr>]) t (reserved_row budget x))"
    and res: "text = tu_finalText t" "status = (if tu_ready t then ''READY_TO_FINALIZE'' else ''IN_PROGRESS'')"
    by (auto split: sum.splits prod.splits)
  let ?x' = "write_turn budget (history_of x @ [\<lparr>lm_role = User, lm_content = ?msg\<rparr>, \<lparr>lm_role = Assistant, lm_content = text\<rparr>]) t (reserved_row budget x)"
  have ok: "draft_ok (oc_isEmail cfg) (tu_draft t)"
    by (rule chat_turn_invariant [OF _ t]) (auto intro: apply_tool_call_ok read_draft_ok)
  have none: "or_else (os_companyInfo (reserved_row budget x)) JNull = JNull" if "sd_companyInfo (tu_draft t) = None"
  proof -
    from turn_keeps_company [OF t that] draft_schema_company [OF assms(3) [unfolded well_stored_def]]
    have "nullable_company (oc_isEmail cfg) (jget ''companyInfo'' (stored_json x)) = Some None" by simp
    then show ?thesis by (simp add: nullable_company_none stored_json_fields reserved_row_def)
  qed
  have "os_status ?x' = (if tu_ready t then Ready_To_Finalize else Talking)" "os_llmCallCount ?x' = os_llmCallCount x + tu_callsUsed t"
    using y(2) by (simp_all add: write_turn_def reserved_row_def)
  moreover have "status = status_name (os_status ?x')"
    using res(2) calculation(1) by (simp add: status_name_def)
  ultimately show ?thesis
    using row written_draft [OF ok none] history_written t res y(3) by (intro exI [of _ ?x'] exI [of _ t] exI [of _ ?req]) simp
qed simp

section \<open>The limit on calls\<close>

text \<open>The calls of a turn that were answered, counted without the code's counter: \<open>n\<close> rounds are left.\<close>

fun continuations :: "onb_config \<Rightarrow> llm_request \<Rightarrow> nat \<Rightarrow> llm_response \<Rightarrow> session_draft \<Rightarrow> nat" where
  "continuations cfg req 0 response d = 0"
| "continuations cfg req (Suc n) response d =
     (if rs_toolCalls response = [] \<or> n = 0 then 0
      else let (d1, ready, results) = apply_calls cfg (rs_toolCalls response) d
           in case pv_continue (oc_provider cfg) req response results of
                Inl err \<Rightarrow> 0
              | Inr next_response \<Rightarrow> Suc (continuations cfg req n next_response d1))"

definition answered_calls :: "onb_config \<Rightarrow> nat \<Rightarrow> llm_request \<Rightarrow> session_draft \<Rightarrow> nat" where
  "answered_calls cfg limit req d =
     (case pv_complete (oc_provider cfg) req of Inl err \<Rightarrow> 0 | Inr response \<Rightarrow> Suc (continuations cfg req limit response d))"

lemma rounds_count:
  assumes "budget = tu_callsUsed t + int n - 1"
  shows "case rounds cfg budget req n response t of
      Inl (err, used) \<Rightarrow> used = tu_callsUsed t + int (continuations cfg req n response (tu_draft t))
    | Inr t' \<Rightarrow> tu_callsUsed t' = tu_callsUsed t + int (continuations cfg req n response (tu_draft t))"
  using assms
proof (induction n arbitrary: response t)
  case (Suc n)
  obtain d ready results where a: "apply_calls cfg (rs_toolCalls response) (tu_draft t) = (d, ready, results)"
    by (cases "apply_calls cfg (rs_toolCalls response) (tu_draft t)")
  let ?t1 = "t\<lparr>tu_draft := d, tu_ready := (tu_ready t \<or> ready)\<rparr>"
  show ?case
  proof (cases "rs_toolCalls response = [] \<or> n = 0")
    case True
    with Suc.prems show ?thesis by (auto simp: a Let_def)
  next
    case False
    then have b: "\<not> budget \<le> tu_callsUsed t" using Suc.prems by simp
    show ?thesis
    proof (cases "pv_continue (oc_provider cfg) req response results")
      case (Inl err)
      with False b show ?thesis by (simp add: a Let_def)
    next
      case (Inr r)
      let ?t2 = "?t1\<lparr>tu_callsUsed := tu_callsUsed ?t1 + 1\<rparr>"
      have "budget = tu_callsUsed ?t2 + int n - 1" using Suc.prems by simp
      from Suc.IH [OF this, of r] False b Inr show ?thesis
        by (auto simp: a Let_def split: sum.splits prod.splits)
    qed
  qed
qed simp

lemma turn_count:
  "case chat_turn cfg budget req d of
      Inl (err, used) \<Rightarrow> used = int (answered_calls cfg (nat budget) req d)
    | Inr t \<Rightarrow> tu_callsUsed t = int (answered_calls cfg (nat budget) req d)" if "0 \<le> budget"
proof (cases "pv_complete (oc_provider cfg) req")
  case (Inr r)
  let ?t = "\<lparr>tu_draft = d, tu_ready = False, tu_callsUsed = 1, tu_finalText = default_text\<rparr>"
  have "budget = tu_callsUsed ?t + int (nat budget) - 1" using that by simp
  from rounds_count [OF this, of cfg req r] show ?thesis
    by (auto simp: chat_turn_def answered_calls_def Inr split: sum.splits prod.splits)
qed (simp add: chat_turn_def answered_calls_def)

lemma chat_request_documents: "ob_documents s' = ob_documents s \<Longrightarrow> chat_request cfg s' x m = chat_request cfg s x m"
  by (simp add: chat_request_def document_count_def)

text \<open>C37. A message that is let in counts exactly the model calls the provider answered in its turn,
  whether the turn succeeds or fails, and a refused one none; the count never passes the session's
  limit nor grows by more than five, and it holds the whole reservation while the calls are made.\<close>
theorem llm_calls_stay_within_limit:
  assumes "find_session s sid = Some x" and "os_llmCallCount x \<le> oc_maxLlmCalls cfg"
    and "send_message cfg e sid secret m s = (r, s')"
  shows "\<exists>x'. find_session s' sid = Some x'
    \<and> os_llmCallCount x' = os_llmCallCount x
        + (case message_open cfg e sid secret s of Inl _ \<Rightarrow> 0
           | Inr (_, d, budget) \<Rightarrow> int (answered_calls cfg (nat budget) (chat_request cfg s x (js_take (oc_maxInputChars cfg) m)) d))
    \<and> os_llmCallCount x' \<le> oc_maxLlmCalls cfg \<and> os_llmCallCount x' \<le> os_llmCallCount x + max_tool_iterations
    \<and> (\<forall>d budget. message_open cfg e sid secret s = Inr (x, d, budget) \<longrightarrow>
         (\<exists>s1 x1. reserve_calls sid (os_version x) budget s = (Inr (), s1) \<and> find_session s1 sid = Some x1
            \<and> os_llmCallCount x' \<le> os_llmCallCount x1 \<and> os_llmCallCount x1 \<le> oc_maxLlmCalls cfg))"
proof (cases rule: send_message_cases [OF assms(3)])
  case 1
  with assms show ?thesis by (simp add: max_tool_iterations_def)
next
  case (2 y budget s1)
  from message_open_ok [OF 2(1)] assms(1) have y: "y = x" "os_status x = Talking" "1 \<le> budget"
    "budget = min max_tool_iterations (oc_maxLlmCalls cfg - os_llmCallCount x)" by auto
  let ?m = "js_take (oc_maxInputChars cfg) m"
  let ?d = "read_draft cfg x"
  let ?o = "chat_turn cfg budget (chat_request cfg s x ?m) ?d"
  let ?k = "int (answered_calls cfg (nat budget) (chat_request cfg s x ?m) ?d)"
  from reserve_calls_ok [OF assms(1) y(2), of budget] 2(2) y(1) have "ob_documents s1 = ob_documents s" by auto
  note same = chat_request_documents [OF this]
  have close: "message_close cfg x budget ?m ?o s1 = (r, s')" using 2(4) unfolding y(1) same .
  have used: "case ?o of Inl (err, used) \<Rightarrow> 0 \<le> used \<and> used \<le> budget | Inr t \<Rightarrow> 1 \<le> tu_callsUsed t \<and> tu_callsUsed t \<le> budget"
    by (rule chat_turn_calls [OF y(3)])
  have count: "case ?o of Inl (err, used) \<Rightarrow> used = ?k | Inr t \<Rightarrow> tu_callsUsed t = ?k"
    by (rule turn_count) (use y(3) in simp)
  obtain x' where x': "find_session s' sid = Some x'" "os_llmCallCount x' = os_llmCallCount x + ?k"
    using message_close_row [OF 2(3) [unfolded y(1)] _ close] found_id [OF assms(1)] y(1) used count
    by (auto simp: write_turn_def released_row_def reserved_row_def split: sum.splits prod.splits)
  have k: "?k \<le> budget" using used count by (auto split: sum.splits prod.splits)
  have x1: "find_session s1 sid = Some (reserved_row budget x)" "os_llmCallCount (reserved_row budget x) = os_llmCallCount x + budget"
    using 2(3) y(1) by (simp_all add: reserved_row_def)
  show ?thesis
  proof (intro exI [of _ x'] conjI)
    show "\<forall>d b. message_open cfg e sid secret s = Inr (x, d, b) \<longrightarrow>
         (\<exists>s1 x1. reserve_calls sid (os_version x) b s = (Inr (), s1) \<and> find_session s1 sid = Some x1
            \<and> os_llmCallCount x' \<le> os_llmCallCount x1 \<and> os_llmCallCount x1 \<le> oc_maxLlmCalls cfg)"
      using 2(1,2) x1 x'(2) y(1,4) k by simp
  qed (use x' 2(1) y(1,4) k in simp_all)
qed

section \<open>A reservation is no lock\<close>

theorem reservation_is_no_lock:
  assumes "distinct (map os_id (ob_sessions s))" and "message_open cfg e sid secret s = Inr (x, d, budget)"
    and "reserve_calls sid (os_version x) budget s = (Inr (), s1)" and "os_llmCallCount x + budget < oc_maxLlmCalls cfg"
  shows "\<exists>x1 d1 budget1 s2. message_open cfg e sid secret s1 = Inr (x1, d1, budget1)
    \<and> reserve_calls sid (os_version x1) budget1 s1 = (Inr (), s2)
    \<and> (\<forall>m t. message_close cfg x budget m (Inr t) s2
          = (Inl (Conflict ''Onboarding session changed concurrently - please retry''), s2))"
proof -
  from message_open_ok [OF assms(2)] have x: "find_session s sid = Some x" "os_status x = Talking"
    "oc_hash cfg secret = hex_decode (os_sessionSecretHash x)" "now e < os_expiresAt x" by auto
  from reserve_calls_ok [OF x(1,2), of budget] assms(1,3)
  have s1: "find_session s1 sid = Some (reserved_row budget x)" "distinct (map os_id (ob_sessions s1))" by auto
  let ?x1 = "reserved_row budget x"
  have x1: "os_status ?x1 = Talking" "os_sessionSecretHash ?x1 = os_sessionSecretHash x" "os_expiresAt ?x1 = os_expiresAt x"
    "os_llmCallCount ?x1 < oc_maxLlmCalls cfg" "os_version ?x1 = os_version x + 1"
    using x(2) assms(4) by (simp_all add: reserved_row_def)
  let ?b1 = "min max_tool_iterations (oc_maxLlmCalls cfg - os_llmCallCount ?x1)"
  have open1: "message_open cfg e sid secret s1 = Inr (?x1, read_draft cfg ?x1, ?b1)"
    by (rule message_open_intro [OF s1(1)]) (use x x1 in simp_all)
  from reserve_calls_ok [OF s1(1) x1(1), of ?b1] s1(2) obtain s2 where
    s2: "reserve_calls sid (os_version ?x1) ?b1 s1 = (Inr (), s2)" "find_session s2 sid = Some (reserved_row ?b1 ?x1)"
      "distinct (map os_id (ob_sessions s2))" by blast
  have v: "os_version (reserved_row ?b1 ?x1) \<noteq> os_version x + 1" by (simp add: reserved_row_def)
  have "message_close cfg x budget m (Inr t) s2 = (Inl (Conflict ''Onboarding session changed concurrently - please retry''), s2)" for m t
    using stale_update [OF s2(3,2) v] found_id [OF x(1)] by (simp add: message_close_def Let_def)
  with open1 s2(1) show ?thesis by blast
qed

section \<open>The secret\<close>

theorem session_answers_to_its_secret_only:
  assumes "start cfg e random s = (Inr (sid, secret, text), s')" and "find_session s sid = None"
    and "now e' < now e + oc_ttlHours cfg * 3600000"
  shows "(\<exists>x. validate_session cfg e' sid secret s' = Inr (x, empty_draft) \<and> well_stored cfg x \<and> os_llmCallCount x = 0)
    \<and> (\<forall>other m. oc_hash cfg other \<noteq> oc_hash cfg secret \<longrightarrow>
          send_message cfg e' sid other m s' = (Inl (Forbidden ''Invalid session secret''), s')
        \<and> get_session_summary cfg e' sid other s' = (Inl (Forbidden ''Invalid session secret''), s'))"
proof -
  from assms(1) have sid: "secret = hex_encode random" "s' = s\<lparr>ob_sessions := ob_sessions s @ [new_session cfg e sid secret], ob_ctr := Suc (ob_ctr s)\<rparr>"
    by (auto simp: start_def Let_def split: if_splits)
  let ?x = "new_session cfg e sid secret"
  from assms(2) have f: "find_session s' sid = Some ?x"
    by (simp add: find_session_def sid(2) find_filter new_session_def split: list.splits)
  have draft: "draft_schema (oc_isEmail cfg) (stored_json ?x) = Some empty_draft"
    by (simp add: draft_schema_def stored_json_def new_session_def or_else_def empty_draft_def)
  then have r: "read_draft cfg ?x = empty_draft" "well_stored cfg ?x" by (simp_all add: read_draft_def or_else_def well_stored_def)
  have "validate_session cfg e' sid secret s' = Inr (?x, empty_draft)"
    using f r assms(3) by (simp add: validate_session_def) (simp add: new_session_def)
  moreover have "validate_session cfg e' sid other s' = Inl (Forbidden ''Invalid session secret'')"
    if "oc_hash cfg other \<noteq> oc_hash cfg secret" for other
    using f that by (simp add: validate_session_def) (simp add: new_session_def)
  ultimately show ?thesis using r by (auto simp: send_message_def message_open_def get_session_summary_def) (auto simp: new_session_def)
qed

section \<open>What a draft can hold\<close>

definition plain_text :: "nat \<Rightarrow> string \<Rightarrow> bool" where
  "plain_text mx s \<longleftrightarrow> trim s = s \<and> 1 \<le> js_length s \<and> js_length s \<le> mx"

definition plain_email :: "(string \<Rightarrow> bool) \<Rightarrow> string \<Rightarrow> bool" where
  "plain_email ie s \<longleftrightarrow> ie s \<and> to_lower s = s \<and> trim s = s \<and> js_length s \<le> 254"

definition typed_company :: "(string \<Rightarrow> bool) \<Rightarrow> company_info \<Rightarrow> bool" where
  "typed_company ie c \<longleftrightarrow> plain_text 200 (co_legalName c) \<and> plain_text 20 (co_businessId c) \<and> business_id_ok (co_businessId c)
     \<and> plain_email ie (co_contactEmail c)"

definition typed_member :: "(string \<Rightarrow> bool) \<Rightarrow> team_member \<Rightarrow> bool" where
  "typed_member ie m \<longleftrightarrow> plain_text 120 (tm_name m) \<and> plain_email ie (tm_email m)"

definition typed_price :: "price_code \<Rightarrow> bool" where
  "typed_price p \<longleftrightarrow> plain_text 40 (pc_code p) \<and> price_code_ok (pc_code p) \<and> plain_text 500 (pc_description p)
     \<and> 0 \<le> pc_defaultPrice p \<and> pc_defaultPrice p \<le> 1000000"

definition typed_field :: "job_field \<Rightarrow> bool" where
  "typed_field f \<longleftrightarrow> plain_text 60 (jf_key f) \<and> field_key_ok (jf_key f) \<and> plain_text 120 (jf_label f)
     \<and> jf_type f \<in> {''text'', ''number'', ''select'', ''date''}"

definition typed_check :: "checklist_draft \<Rightarrow> bool" where
  "typed_check c \<longleftrightarrow> plain_text 200 (cd_label c) \<and> (case cd_priceCode c of None \<Rightarrow> True | Some p \<Rightarrow> plain_text 40 p)"

definition typed_job :: "job_type_draft \<Rightarrow> bool" where
  "typed_job j \<longleftrightarrow> plain_text 120 (jd_name j) \<and> (case jd_requiredSkill j of None \<Rightarrow> True | Some s \<Rightarrow> plain_text 80 s)
     \<and> length (jd_fields j) \<le> 50 \<and> list_all typed_field (jd_fields j)
     \<and> length (jd_defaultChecklist j) \<le> 100 \<and> list_all typed_check (jd_defaultChecklist j)"

definition typed_draft :: "(string \<Rightarrow> bool) \<Rightarrow> session_draft \<Rightarrow> bool" where
  "typed_draft ie d \<longleftrightarrow> (case sd_companyInfo d of None \<Rightarrow> True | Some c \<Rightarrow> typed_company ie c)
     \<and> list_all (typed_member ie) (sd_teamMembers d) \<and> list_all typed_price (sd_priceCodes d) \<and> list_all typed_job (sd_jobTypes d)"

lemma short_text_plain: "short_text mx j = Some t \<Longrightarrow> plain_text mx t"
  by (cases "(mx, j)" rule: short_text.cases) (auto simp: Let_def plain_text_def short_text.simps(1) split: if_splits)

lemma email_text_plain: "email_text ie j = Some t \<Longrightarrow> plain_email ie t"
  by (cases "(ie, j)" rule: email_text.cases)
    (auto simp: Let_def plain_email_def email_text.simps(1) trim_to_lower split: if_splits)

lemma field_type_known: "enum_of field_types j = Some t \<Longrightarrow> t \<in> {''text'', ''number'', ''select'', ''date''}"
  by (cases "(field_types, j)" rule: enum_of.cases) (auto simp: field_types_def split: if_splits)

lemma company_typed: "company_schema ie j = Some c \<Longrightarrow> typed_company ie c"
  by (auto simp: typed_company_def company_schema_def matching_iff split: option.splits dest: short_text_plain email_text_plain)

lemma member_typed: "member_schema ie j = Some m \<Longrightarrow> typed_member ie m"
  by (auto simp: typed_member_def member_schema_def split: option.splits dest: short_text_plain email_text_plain)

lemma price_typed: "price_schema j = Some p \<Longrightarrow> typed_price p"
  by (auto simp: typed_price_def price_schema_def matching_iff split: option.splits json.splits if_splits dest: short_text_plain)

lemma field_typed: "field_schema j = Some f \<Longrightarrow> typed_field f"
  by (auto simp: typed_field_def field_schema_def matching_iff simp del: insert_iff split: option.splits
      dest: short_text_plain field_type_known)

lemma optional_text_plain: "optional_text mx j = Some x \<Longrightarrow> case x of None \<Rightarrow> True | Some t \<Rightarrow> plain_text mx t"
  by (cases j) (auto dest: short_text_plain split: option.split)

lemma check_typed: "check_schema j = Some c \<Longrightarrow> typed_check c"
  by (auto simp: typed_check_def check_schema_def split: option.splits dest: short_text_plain optional_text_plain)

lemma job_typed:
  assumes "job_schema j = Some d"
  shows "typed_job d"
proof -
  from assms have fs: "array_of field_schema (jget ''fields'' j) = Some (jd_fields d)"
    and cs: "array_of check_schema (jget ''defaultChecklist'' j) = Some (jd_defaultChecklist d)"
    and sk: "optional_text 80 (jget ''requiredSkill'' j) = Some (jd_requiredSkill d)"
    and r: "short_text 120 (jget ''name'' j) = Some (jd_name d)" "length (jd_fields d) \<le> 50" "length (jd_defaultChecklist d) \<le> 100"
    by (auto simp: job_schema_def at_most_iff split: option.splits)
  have "list_all typed_field (jd_fields d)" by (rule array_of_all [OF fs]) (rule field_typed)
  moreover have "list_all typed_check (jd_defaultChecklist d)" by (rule array_of_all [OF cs]) (rule check_typed)
  ultimately show ?thesis
    using short_text_plain [OF r(1)] optional_text_plain [OF sk] r(2,3) by (simp add: typed_job_def)
qed

lemma draft_ok_typed: "draft_ok ie d \<Longrightarrow> typed_draft ie d"
  unfolding draft_ok_def typed_draft_def ok_defs company_ok_def
  by (intro conjI; elim conjE)
    (auto split: option.splits dest: company_typed, (erule list.pred_mono_strong, auto dest: member_typed price_typed job_typed)+)

text \<open>C35. Whatever the language model answers, the draft of a conversation only ever holds
  company details, members, prices and job types within the limits of their schemas, down to the
  fields and the checklist of a job type.\<close>
theorem drafts_are_well_typed:
  assumes "chat_turn cfg budget req (read_draft cfg x) = Inr t"
  shows "typed_draft (oc_isEmail cfg) (read_draft cfg x) \<and> typed_draft (oc_isEmail cfg) (tu_draft t)
    \<and> (draft_sizes (read_draft cfg x) \<longrightarrow> draft_sizes (tu_draft t))"
proof -
  have "draft_ok (oc_isEmail cfg) (tu_draft t)"
    by (rule chat_turn_invariant [where I = "draft_ok (oc_isEmail cfg)", OF _ assms]) (auto intro: apply_tool_call_ok read_draft_ok)
  moreover have "draft_sizes (tu_draft t)" if "draft_sizes (read_draft cfg x)"
    by (rule chat_turn_invariant [where I = draft_sizes, OF _ assms that]) (rule apply_tool_call_sizes)
  ultimately show ?thesis using draft_ok_typed read_draft_ok by blast
qed

section \<open>A concrete conversation\<close>

definition member_call :: llm_tool_call where
  "member_call = \<lparr>tc_id = ''1'', tc_name = ''add_team_member'',
     tc_input = JObj [(''name'', JStr ''Dana''), (''email'', JStr ''Dana@x.co''), (''role'', JStr ''OWNER'')], tc_providerMetadata = None\<rparr>"

definition chat_provider :: llm_provider where
  "chat_provider = \<lparr>pv_name = ''p'', pv_model = ''m'', pv_isConfigured = True,
     pv_complete = (\<lambda>_. Inr (demo_response\<lparr>rs_toolCalls := [member_call]\<rparr>)),
     pv_continue = (\<lambda>_ _ _. Inr (demo_response\<lparr>rs_text := ''Thanks''\<rparr>))\<rparr>"

definition demo_onboarding :: onb_config where
  "demo_onboarding = \<lparr>oc_ttlHours = 72, oc_maxLlmCalls = 60, oc_maxInputChars = 100, oc_hash = (\<lambda>s. s), oc_isEmail = (\<lambda>s. CHR ''@'' \<in> set s),
     oc_issues = (\<lambda>_ _. ''invalid''), oc_prompt = (\<lambda>_ _. ''collect''), oc_tools = [], oc_provider = chat_provider\<rparr>"

definition demo_onb :: onb where
  "demo_onb = \<lparr>ob_sessions = [new_session demo_onboarding demo_env ''s1'' ''secret''], ob_documents = [], ob_ctr = 1\<rparr>"

lemma demo_session: "find_session demo_onb ''s1'' = Some (new_session demo_onboarding demo_env ''s1'' ''secret'')"
  by (simp add: demo_onb_def find_session_def new_session_def)

lemma demo_draft: "draft_schema ie (stored_json (new_session cfg e sid secret)) = Some empty_draft"
  by (simp add: draft_schema_def stored_json_def new_session_def or_else_def empty_draft_def)

lemma demo_draft_read: "read_draft cfg (new_session cfg e sid secret) = empty_draft"
  by (simp add: read_draft_def demo_draft or_else_def)

lemma demo_open: "message_open demo_onboarding demo_env ''s1'' ''secret'' demo_onb
    = Inr (new_session demo_onboarding demo_env ''s1'' ''secret'', empty_draft, 5)"
  using message_open_intro [OF demo_session, of demo_onboarding "''secret''" demo_env]
  by (simp add: demo_draft_read) (simp add: new_session_def demo_onboarding_def demo_env_def max_tool_iterations_def)

lemma demo_turn: "\<exists>t. chat_turn demo_onboarding 5 req empty_draft = Inr t \<and> tu_finalText t = ''Thanks''"
  by (simp add: chat_turn_def demo_onboarding_def chat_provider_def demo_response_def member_call_def numeral_eq_Suc Let_def
      text_or_def split: prod.split)

lemma demo_sent: "\<exists>status s'. send_message demo_onboarding demo_env ''s1'' ''secret'' m demo_onb = (Inr (''Thanks'', status), s')"
proof -
  let ?x = "new_session demo_onboarding demo_env ''s1'' ''secret''"
  have t: "os_status ?x = Talking" by (simp add: new_session_def)
  from reserve_calls_ok [OF demo_session t, of 5] obtain s1 where
    s1: "reserve_calls ''s1'' (os_version ?x) 5 demo_onb = (Inr (), s1)" "find_session s1 ''s1'' = Some (reserved_row 5 ?x)" by blast
  let ?msg = "js_take (oc_maxInputChars demo_onboarding) m"
  obtain trn where trn: "chat_turn demo_onboarding 5 (chat_request demo_onboarding s1 ?x ?msg) empty_draft = Inr trn" "tu_finalText trn = ''Thanks''"
    using demo_turn by blast
  obtain r s' where close: "message_close demo_onboarding ?x 5 ?msg (Inr trn) s1 = (r, s')" by fastforce
  have id: "os_id ?x = ''s1''" by (simp add: new_session_def)
  from message_close_row [OF s1(2) id close] trn(2) obtain st where r: "r = Inr (''Thanks'', st)" by auto
  have "send_message demo_onboarding demo_env ''s1'' ''secret'' m demo_onb = (r, s')"
    unfolding send_message_def demo_open sum.case prod.case s1(1) Let_def trn(1) close ..
  with r show ?thesis by blast
qed

theorem reply_is_read_back_witness:
  "\<exists>x' status s'. send_message demo_onboarding demo_env ''s1'' ''secret'' ''Hi'' demo_onb = (Inr (''Thanks'', status), s')
     \<and> find_session s' ''s1'' = Some x' \<and> well_stored demo_onboarding x'"
proof -
  obtain status s' where run: "send_message demo_onboarding demo_env ''s1'' ''secret'' ''Hi'' demo_onb = (Inr (''Thanks'', status), s')"
    using demo_sent by blast
  have w: "well_stored demo_onboarding (new_session demo_onboarding demo_env ''s1'' ''secret'')"
    by (simp add: well_stored_def demo_draft demo_draft_read)
  from reply_is_read_back [OF run demo_session w] run show ?thesis by blast
qed

text \<open>The tool round and its continuation are two calls.\<close>

lemma demo_answered: "answered_calls demo_onboarding (nat 5) req empty_draft = 2"
  by (simp add: answered_calls_def demo_onboarding_def chat_provider_def demo_response_def numeral_eq_Suc Let_def split: prod.split)

theorem llm_calls_stay_within_limit_witness:
  "\<exists>x' r s'. send_message demo_onboarding demo_env ''s1'' ''secret'' ''Hi'' demo_onb = (r, s')
     \<and> find_session s' ''s1'' = Some x' \<and> os_llmCallCount x' = 2"
proof -
  obtain status s' where run: "send_message demo_onboarding demo_env ''s1'' ''secret'' ''Hi'' demo_onb = (Inr (''Thanks'', status), s')"
    using demo_sent by blast
  have "os_llmCallCount (new_session demo_onboarding demo_env ''s1'' ''secret'') \<le> oc_maxLlmCalls demo_onboarding"
    by (simp add: new_session_def demo_onboarding_def)
  from llm_calls_stay_within_limit [OF demo_session this run] obtain x' where "find_session s' ''s1'' = Some x'"
    "os_llmCallCount x' = os_llmCallCount (new_session demo_onboarding demo_env ''s1'' ''secret'') + 2"
    unfolding demo_open sum.case prod.case demo_answered by auto
  with run show ?thesis by (auto simp: new_session_def)
qed

theorem reservation_is_no_lock_witness:
  "\<exists>s1 x1 d1 budget1. reserve_calls ''s1'' 0 5 demo_onb = (Inr (), s1)
     \<and> message_open demo_onboarding demo_env ''s1'' ''secret'' s1 = Inr (x1, d1, budget1)"
proof -
  let ?x = "new_session demo_onboarding demo_env ''s1'' ''secret''"
  have x: "os_status ?x = Talking" "os_version ?x = 0" "os_llmCallCount ?x + 5 < oc_maxLlmCalls demo_onboarding"
    by (simp_all add: new_session_def demo_onboarding_def)
  have d: "distinct (map os_id (ob_sessions demo_onb))" by (simp add: demo_onb_def)
  from reserve_calls_ok [OF demo_session x(1), of 5] obtain s1 where
    s1: "reserve_calls ''s1'' (os_version ?x) 5 demo_onb = (Inr (), s1)" by blast
  from reservation_is_no_lock [OF d demo_open s1 x(3)] s1 x(2) show ?thesis by auto
qed

theorem session_answers_to_its_secret_only_witness:
  "\<exists>sid secret text s'. start demo_onboarding demo_env ''ab'' demo_onb = (Inr (sid, secret, text), s')
     \<and> (\<exists>x. validate_session demo_onboarding demo_env sid secret s' = Inr (x, empty_draft))"
proof -
  obtain secret msg s' where run: "start demo_onboarding demo_env ''ab'' demo_onb = (Inr (uuid demo_env 1, secret, msg), s')"
    by (simp add: start_def demo_onboarding_def chat_provider_def demo_onb_def Let_def)
  have f: "find_session demo_onb (uuid demo_env 1) = None"
    by (simp add: demo_onb_def find_session_def new_session_def demo_env_def)
  have t: "now demo_env < now demo_env + oc_ttlHours demo_onboarding * 3600000" by (simp add: demo_onboarding_def)
  from session_answers_to_its_secret_only [OF run f t] run show ?thesis by blast
qed

theorem drafts_are_well_typed_witness:
  "\<exists>t. chat_turn demo_onboarding 5 demo_request empty_draft = Inr t \<and> typed_draft (oc_isEmail demo_onboarding) (tu_draft t)"
proof -
  obtain t where "chat_turn demo_onboarding 5 demo_request (read_draft demo_onboarding (new_session demo_onboarding demo_env ''s1'' ''secret'')) = Inr t"
    using demo_turn [of demo_request] demo_draft_read by auto
  from drafts_are_well_typed [OF this] this show ?thesis by (auto simp: demo_draft_read)
qed

end
