(* ===== verification/Documents.thy ===== *)
theory Documents
  imports Onboarding
begin

text \<open>
  The documents a new business uploads (modules/onboarding: upload-validation.util.ts,
  document-learning.service.ts and the upload route of onboarding.controller.ts). Parameters: the
  PDF parser, JSON.parse and the provider. Amounts are cents, an average is the exact quotient, the
  note beside a markup and quotation marks in error texts are left out, and a text file keeps its
  bytes where the code would replace a malformed letter past the checked sample.
\<close>

section \<open>Checking an upload\<close>

datatype upload_kind = Pdf | Text_File

definition max_upload_bytes :: nat where
  "max_upload_bytes = 10 * 1024 * 1024"

definition allowed_mime :: "(string \<times> upload_kind) list" where
  "allowed_mime = [(''application/pdf'', Pdf), (''text/plain'', Text_File), (''text/csv'', Text_File), (''application/csv'', Text_File)]"

definition mime_kind :: "string \<Rightarrow> upload_kind option" where
  "mime_kind mimetype = map_of allowed_mime (to_lower (trim (hd (split_on CHR '';'' mimetype))))"

definition is_allowed_mimetype :: "string \<Rightarrow> bool" where
  "is_allowed_mimetype mimetype \<longleftrightarrow> mime_kind mimetype \<noteq> None"

text \<open>
  \<open>toString('utf8')\<close> yields a replacement character exactly for bytes that are not
  well-formed UTF-8, or that encode that character.
\<close>

definition cont_byte :: "char \<Rightarrow> bool" where
  "cont_byte c \<longleftrightarrow> (of_char c :: nat) div 64 = 2"

fun utf8_ok :: "string \<Rightarrow> bool" where
  "utf8_ok [] = True"
| "utf8_ok (a # s) =
     (let n = (of_char a :: nat)
      in if n < 128 then utf8_ok s
         else if 194 \<le> n \<and> n < 224 then (case s of b # t \<Rightarrow> cont_byte b \<and> utf8_ok t | _ \<Rightarrow> False)
         else if 224 \<le> n \<and> n < 240 then
           (case s of b # c # t \<Rightarrow> cont_byte b \<and> cont_byte c \<and> (n = 224 \<longrightarrow> 160 \<le> (of_char b :: nat))
                \<and> (n = 237 \<longrightarrow> (of_char b :: nat) < 160) \<and> utf8_ok t | _ \<Rightarrow> False)
         else if 240 \<le> n \<and> n < 245 then
           (case s of b # c # d # t \<Rightarrow> cont_byte b \<and> cont_byte c \<and> cont_byte d \<and> (n = 240 \<longrightarrow> 144 \<le> (of_char b :: nat))
                \<and> (n = 244 \<longrightarrow> (of_char b :: nat) < 144) \<and> utf8_ok t | _ \<Rightarrow> False)
         else False)"

definition replacement :: string where
  "replacement = [CHR 0xEF, CHR 0xBF, CHR 0xBD]"

definition has_replacement :: "string \<Rightarrow> bool" where
  "has_replacement s \<longleftrightarrow> \<not> utf8_ok s \<or> has_infix replacement s"

definition detect_kind :: "string \<Rightarrow> upload_kind option" where
  "detect_kind buffer =
     (if take 5 buffer = ''%PDF-'' then Some Pdf
      else let head_bytes = take 8192 buffer
           in if CHR 0x00 \<in> set head_bytes then None
              else let sample = (if length head_bytes < length buffer then take (length head_bytes - 3) head_bytes else head_bytes)
                   in if has_replacement sample then None else Some Text_File)"

record upload =
  up_buffer :: string
  up_mimetype :: string
  up_originalname :: string

definition verify_upload :: "upload \<Rightarrow> http_error + upload_kind" where
  "verify_upload f =
     (if up_buffer f = [] then Inl (BadRequest ''Uploaded file is empty'')
      else if max_upload_bytes < length (up_buffer f)
      then Inl (BadRequest (''Uploaded file exceeds '' @ show_nat max_upload_bytes @ '' bytes''))
      else case mime_kind (up_mimetype f) of
        None \<Rightarrow> Inl (BadRequest ''Only PDF, plain text and CSV files are accepted'')
      | Some declared \<Rightarrow>
          if detect_kind (up_buffer f) \<noteq> Some declared then Inl (BadRequest ''File content does not match its declared type'')
          else Inr declared)"

section \<open>Learning from a document\<close>

definition max_documents_per_type :: nat where
  "max_documents_per_type = 10"

record line_items =
  li_lineItems :: "(string \<times> rat) list"
  li_totalAmount :: "rat option"

definition no_items :: line_items where
  "no_items = \<lparr>li_lineItems = [], li_totalAmount = None\<rparr>"

definition item_schema :: "json \<Rightarrow> (string \<times> rat) option" where
  "item_schema j =
     (case (short_text 500 (jget ''description'' j), jget ''amount'' j) of
        (Some d, Some (JNum q)) \<Rightarrow> Some (d, q) | _ \<Rightarrow> None)"

fun nullable_number :: "json option \<Rightarrow> rat option option" where
  "nullable_number (Some JNull) = Some None"
| "nullable_number (Some (JNum q)) = Some (Some q)"
| "nullable_number _ = None"

definition items_schema :: "json \<Rightarrow> line_items option" where
  "items_schema j =
     (case (at_most 500 (array_of item_schema (jget ''lineItems'' j)), nullable_number (jget ''totalAmount'' j)) of
        (Some xs, Some t) \<Rightarrow> Some \<lparr>li_lineItems = xs, li_totalAmount = t\<rparr> | _ \<Rightarrow> None)"

definition code_fence :: string where
  "code_fence = replicate 3 (CHR 0x60)"

text \<open>The two patterns around a fenced answer.\<close>

definition strip_open_fence :: "string \<Rightarrow> string" where
  "strip_open_fence s =
     (if \<not> starts_with code_fence s then s
      else let t = drop 3 s; u = (if starts_with ''json'' (to_lower t) then drop 4 t else t) in dropWhile is_ws u)"

definition strip_close_fence :: "string \<Rightarrow> string" where
  "strip_close_fence s =
     (let t = rev (dropWhile is_ws (rev s)) in if ends_with code_fence t then take (length t - 3) t else s)"

record doc_lib =
  dl_pdfText :: "string \<Rightarrow> http_error + string"
  dl_parseJson :: "string \<Rightarrow> json option"
  dl_systemPrompt :: string

definition document_request :: "onb_config \<Rightarrow> doc_lib \<Rightarrow> string \<Rightarrow> llm_request" where
  "document_request cfg lib content =
     \<lparr>rq_system = Some (dl_systemPrompt lib),
      rq_messages = [\<lparr>lm_role = User, lm_content = (utf8 [1514, 1493, 1499, 1503, 32, 1492, 1502, 1505, 1502, 1498, 58]) @ [CHR 0x0A, CHR 0x0A] @ js_take (oc_maxInputChars cfg) content\<rparr>],
      rq_tools = [], rq_maxTokens = Some 2048, rq_purpose = ''onboarding.document_learning'', rq_tenantId = None\<rparr>"

definition extract_line_items :: "onb_config \<Rightarrow> doc_lib \<Rightarrow> string \<Rightarrow> line_items" where
  "extract_line_items cfg lib content =
     (if trim content = [] then no_items
      else case pv_complete (oc_provider cfg) (document_request cfg lib content) of
        Inl err \<Rightarrow> no_items
      | Inr r \<Rightarrow>
          if rs_text r = [] then no_items
          else (case dl_parseJson lib (strip_close_fence (strip_open_fence (trim (rs_text r)))) of
                  None \<Rightarrow> no_items
                | Some j \<Rightarrow> or_else (items_schema j) no_items))"

text \<open>\<open>toFixed(2)\<close> into a column of twelve digits.\<close>

definition to_cents :: "rat \<Rightarrow> int" where
  "to_cents q = (if 0 \<le> q then \<lfloor>q * 100 + 1 / 2\<rfloor> else - \<lfloor>- q * 100 + 1 / 2\<rfloor>)"

definition item_json_of :: "string \<times> rat \<Rightarrow> json" where
  "item_json_of i = JObj [(''description'', JStr (fst i)), (''amount'', JNum (snd i))]"

definition document_row :: "env \<Rightarrow> string \<Rightarrow> document_type \<Rightarrow> upload \<Rightarrow> string \<Rightarrow> line_items \<Rightarrow> onb \<Rightarrow> onboarding_document" where
  "document_row e sid dt f content items s =
     \<lparr>od_id = uuid e (ob_ctr s), od_sessionId = sid, od_docType = dt, od_originalName = js_take 255 (up_originalname f),
      od_sizeBytes = length (up_buffer f), od_extractedText = Some (js_take 20000 content),
      od_extractedLineItems = Some (JArr (map item_json_of (li_lineItems items))),
      od_totalAmount = map_option to_cents (li_totalAmount items), od_createdAt = now e\<rparr>"

definition document_create :: "onboarding_document \<Rightarrow> onboarding_document onb_op" where
  "document_create d s =
     (if (case od_totalAmount d of None \<Rightarrow> False | Some c \<Rightarrow> 1000000000000 \<le> \<bar>c\<bar>) then (Inl (Thrown ''numeric field overflow''), s)
      else if find_session s (od_sessionId d) = None then (Inl (PrismaKnown ''P2003''), s)
      else (Inr d, s\<lparr>ob_documents := ob_documents s @ [d], ob_ctr := Suc (ob_ctr s)\<rparr>))"

definition reserve_document_call :: "onb_config \<Rightarrow> string \<Rightarrow> unit onb_op" where
  "reserve_document_call cfg sid s =
     (let (n, s1) = update_sessions (\<lambda>x. os_id x = sid \<and> os_llmCallCount x < oc_maxLlmCalls cfg)
            (\<lambda>x. x\<lparr>os_llmCallCount := os_llmCallCount x + 1\<rparr>) s
      in if n = 0 then (Inl (TooManyRequests ''This onboarding session has reached its LLM call limit''), s1) else (Inr (), s1))"

definition document_name :: "document_type \<Rightarrow> string" where
  "document_name dt = (case dt of Quote_Doc \<Rightarrow> ''QUOTE'' | Material_Order \<Rightarrow> ''MATERIAL_ORDER'')"

definition file_text :: "doc_lib \<Rightarrow> upload_kind \<Rightarrow> upload \<Rightarrow> http_error + string" where
  "file_text lib kind f =
     (case kind of
        Text_File \<Rightarrow> Inr (up_buffer f)
      | Pdf \<Rightarrow> (case dl_pdfText lib (up_buffer f) of
          Inr t \<Rightarrow> Inr t
        | Inl err \<Rightarrow> Inl (if err = Thrown ''PdfParseTimeoutError''
            then BadRequest ''PDF is too complex to parse within the allowed time''
            else BadRequest ''Could not read text from the uploaded document'')))"

definition process_uploaded_document ::
  "onb_config \<Rightarrow> doc_lib \<Rightarrow> env \<Rightarrow> string \<Rightarrow> document_type \<Rightarrow> upload_kind \<Rightarrow> upload \<Rightarrow> onboarding_document onb_op" where
  "process_uploaded_document cfg lib e sid dt kind f s =
     (if \<not> pv_isConfigured (oc_provider cfg)
      then (Inl (ServiceUnavailable ''Document learning requires an LLM provider and none is configured on this server.''), s)
      else if max_documents_per_type \<le> document_count s sid dt
      then (Inl (BadRequest (''At most '' @ show_nat max_documents_per_type @ '' '' @ document_name dt @ '' documents can be uploaded per session'')), s)
      else case reserve_document_call cfg sid s of
        (Inl err, s1) \<Rightarrow> (Inl err, s1)
      | (Inr _, s1) \<Rightarrow>
          (case file_text lib kind f of
             Inl err \<Rightarrow> (Inl err, s1)
           | Inr content \<Rightarrow> document_create (document_row e sid dt f content (extract_line_items cfg lib content) s1) s1))"

definition require_secret :: "string option \<Rightarrow> http_error + string" where
  "require_secret v =
     (case v of Some s \<Rightarrow> if js_length s = 64 then Inr s else Inl (BadRequest ''Missing or malformed x-onboarding-secret header'')
      | None \<Rightarrow> Inl (BadRequest ''Missing or malformed x-onboarding-secret header''))"

definition upload_document ::
  "onb_config \<Rightarrow> doc_lib \<Rightarrow> env \<Rightarrow> string \<Rightarrow> document_type \<Rightarrow> string option \<Rightarrow> upload option \<Rightarrow> onboarding_document onb_op" where
  "upload_document cfg lib e sid dt header file s =
     (case file of
        None \<Rightarrow> (Inl (BadRequest ''No file uploaded (expected multipart field file)''), s)
      | Some f \<Rightarrow>
          (case require_secret header of
             Inl err \<Rightarrow> (Inl err, s)
           | Inr secret \<Rightarrow>
               (case validate_session cfg e sid secret s of
                  Inl err \<Rightarrow> (Inl err, s)
                | Inr _ \<Rightarrow>
                    (case verify_upload f of
                       Inl err \<Rightarrow> (Inl err, s)
                     | Inr kind \<Rightarrow> process_uploaded_document cfg lib e sid dt kind f s))))"

section \<open>The suggested markup\<close>

record markup =
  mk_avgQuoteTotal :: "rat option"
  mk_avgMaterialOrderTotal :: "rat option"
  mk_suggestedMarkupPercent :: "int option"

definition totals_for :: "onb \<Rightarrow> string \<Rightarrow> document_type \<Rightarrow> int list" where
  "totals_for s sid dt = List.map_filter od_totalAmount (filter (\<lambda>d. od_sessionId d = sid \<and> od_docType d = dt) (ob_documents s))"

definition mean :: "int list \<Rightarrow> rat option" where
  "mean xs = (if xs = [] then None else Some (of_int (sum_list xs) / of_nat (length xs) / 100))"

text \<open>\<open>toDecimalPlaces\<close>: halves away from zero.\<close>

definition round_places :: "nat \<Rightarrow> rat \<Rightarrow> rat" where
  "round_places n q = (let f = 10 ^ n in if 0 \<le> q then of_int \<lfloor>q * f + 1 / 2\<rfloor> / f else - of_int \<lfloor>- q * f + 1 / 2\<rfloor> / f)"

definition compute_suggested_markup :: "onb \<Rightarrow> string \<Rightarrow> markup" where
  "compute_suggested_markup s sid =
     (let quoteAvg = mean (totals_for s sid Quote_Doc); materialAvg = mean (totals_for s sid Material_Order)
      in \<lparr>mk_avgQuoteTotal = map_option (round_places 2) quoteAvg,
          mk_avgMaterialOrderTotal = map_option (round_places 2) materialAvg,
          mk_suggestedMarkupPercent = (case (quoteAvg, materialAvg) of
             (Some q, Some m) \<Rightarrow> if m = 0 then None else Some \<lfloor>round_places 0 ((q / m - 1) * 100)\<rfloor>
           | _ \<Rightarrow> None)\<rparr>)"

section \<open>A Hebrew file is cut in the middle of a letter\<close>

definition pair_bytes :: "char \<times> char \<Rightarrow> string" where
  "pair_bytes p = [fst p, snd p]"

definition two_byte :: "char \<times> char \<Rightarrow> bool" where
  "two_byte p \<longleftrightarrow> 194 \<le> (of_char (fst p) :: nat) \<and> (of_char (fst p) :: nat) < 224 \<and> cont_byte (snd p)"

definition two_byte_text :: "(char \<times> char) list \<Rightarrow> string" where
  "two_byte_text ps = concat (map pair_bytes ps)"

lemma two_byte_simps [simp]:
  "two_byte_text [] = []" "two_byte_text (p # ps) = fst p # snd p # two_byte_text ps"
  by (simp_all add: two_byte_text_def pair_bytes_def)

lemma length_two_byte_text [simp]: "length (two_byte_text ps) = 2 * length ps"
  by (induction ps) simp_all

lemma utf8_two_byte: "list_all two_byte ps \<Longrightarrow> utf8_ok (two_byte_text ps @ s) = utf8_ok s"
  by (induction ps) (simp_all add: two_byte_def)

lemma take_odd: "k < length ps \<Longrightarrow> take (Suc (2 * k)) (two_byte_text ps) = two_byte_text (take k ps) @ [fst (ps ! k)]"
  by (induction ps arbitrary: k) (auto simp: less_Suc_eq_0_disj take_Cons' split: nat.split)

text \<open>A valid UTF-8 text file of two-byte letters longer than the 8192-byte sample is always
  refused as not matching its type, because cutting three bytes off the sample splits a
  letter.\<close>
theorem long_hebrew_file_is_refused:
  assumes "list_all two_byte ps" and "8192 < 2 * length ps" and "2 * length ps \<le> max_upload_bytes"
    and "up_buffer f = two_byte_text ps" and "mime_kind (up_mimetype f) = Some Text_File"
  shows "utf8_ok (up_buffer f) \<and> verify_upload f = Inl (BadRequest ''File content does not match its declared type'')"
proof -
  let ?sample = "take (8192 - 3) (take 8192 (two_byte_text ps))"
  have k: "4094 < length ps" using assms(2) by simp
  have "?sample = take (Suc (2 * 4094)) (two_byte_text ps)" by simp
  also have "\<dots> = two_byte_text (take 4094 ps) @ [fst (ps ! 4094)]" by (rule take_odd [OF k])
  finally have sample: "?sample = two_byte_text (take 4094 ps) @ [fst (ps ! 4094)]" .
  have "two_byte (ps ! 4094)" using assms(1) k by (simp add: list_all_length)
  then have "\<not> utf8_ok [fst (ps ! 4094)]" by (simp add: two_byte_def Let_def)
  moreover have "list_all two_byte (take 4094 ps)" using assms(1) by (auto simp: list_all_iff dest: in_set_takeD)
  ultimately have bad: "has_replacement ?sample"
    unfolding sample has_replacement_def by (simp only: utf8_two_byte simp_thms)
  obtain p qs where ps: "ps = p # qs" using k by (cases ps) auto
  have first: "take 5 (two_byte_text ps) \<noteq> ''%PDF-''"
    using assms(1) by (auto simp: ps two_byte_def take_Cons')
  have "length (take 8192 (two_byte_text ps)) = 8192" using assms(2) by simp
  then have "detect_kind (two_byte_text ps) = None"
    using bad first assms(2) by (simp add: detect_kind_def Let_def del: take_take)
  moreover have "two_byte_text ps \<noteq> []" by (simp add: ps)
  moreover have "utf8_ok (two_byte_text ps)" using utf8_two_byte [OF assms(1), of "[]"] by simp
  ultimately show ?thesis using assms(3,4,5) by (simp add: verify_upload_def)
qed

section \<open>An upload between reading and reserving\<close>

theorem upload_race_exceeds_limit:
  assumes "message_open cfg e sid secret s = Inr (x, d, budget)" and "oc_maxLlmCalls cfg - os_llmCallCount x \<le> max_tool_iterations"
    and "reserve_document_call cfg sid s = (Inr (), s1)"
  shows "\<exists>s2 x2. reserve_calls sid (os_version x) budget s1 = (Inr (), s2) \<and> find_session s2 sid = Some x2
    \<and> os_llmCallCount x2 = oc_maxLlmCalls cfg + 1"
proof -
  from message_open_ok [OF assms(1)] assms(2) have x: "find_session s sid = Some x" "os_status x = Talking"
    "budget = oc_maxLlmCalls cfg - os_llmCallCount x" "1 \<le> budget" by auto
  let ?x1 = "x\<lparr>os_llmCallCount := os_llmCallCount x + 1\<rparr>"
  from assms(3) have s1: "s1 = snd (update_sessions (\<lambda>x. os_id x = sid \<and> os_llmCallCount x < oc_maxLlmCalls cfg)
            (\<lambda>x. x\<lparr>os_llmCallCount := os_llmCallCount x + 1\<rparr>) s)"
    by (auto simp: reserve_document_call_def split_beta split: if_splits)
  have f: "find_session s1 sid = Some ?x1"
    unfolding s1 using x found_id [OF x(1)] by (subst find_update) simp_all
  have t: "os_status ?x1 = Talking" using x(2) by simp
  from reserve_calls_ok [OF f t, of budget] x(3) show ?thesis
    by (auto simp: reserved_row_def)
qed

section \<open>Concrete uploads\<close>

definition demo_upload :: upload where
  "demo_upload = \<lparr>up_buffer = two_byte_text (replicate 4097 (CHR 0xD7, CHR 0x90)), up_mimetype = ''text/plain'', up_originalname = ''a.txt''\<rparr>"

theorem long_hebrew_file_is_refused_witness:
  "utf8_ok (up_buffer demo_upload) \<and> verify_upload demo_upload = Inl (BadRequest ''File content does not match its declared type'')"
proof -
  have a: "list_all two_byte (replicate 4097 (CHR 0xD7, CHR 0x90))"
    by (simp add: list_all_iff two_byte_def cont_byte_def)
  have m: "mime_kind (up_mimetype demo_upload) = Some Text_File"
    by (simp add: demo_upload_def) code_simp
  have b: "up_buffer demo_upload = two_byte_text (replicate 4097 (CHR 0xD7, CHR 0x90))" by (simp add: demo_upload_def)
  have l: "8192 < 2 * length (replicate 4097 (CHR 0xD7, CHR 0x90))" unfolding length_replicate by simp
  have h: "2 * length (replicate 4097 (CHR 0xD7, CHR 0x90)) \<le> max_upload_bytes"
    unfolding length_replicate max_upload_bytes_def by simp
  show ?thesis by (rule long_hebrew_file_is_refused [OF a l h b m])
qed

theorem upload_race_exceeds_limit_witness:
  "\<exists>cfg s1 s2 x2. reserve_document_call cfg ''s1'' demo_onb = (Inr (), s1) \<and> reserve_calls ''s1'' 0 (oc_maxLlmCalls cfg) s1 = (Inr (), s2)
     \<and> find_session s2 ''s1'' = Some x2 \<and> oc_maxLlmCalls cfg < os_llmCallCount x2"
proof -
  let ?cfg = "demo_onboarding\<lparr>oc_maxLlmCalls := 3\<rparr>" and ?x = "new_session demo_onboarding demo_env ''s1'' ''secret''"
  have o: "message_open ?cfg demo_env ''s1'' ''secret'' demo_onb = Inr (?x, read_draft ?cfg ?x, min max_tool_iterations (oc_maxLlmCalls ?cfg - os_llmCallCount ?x))"
    by (rule message_open_intro [OF demo_session]) (simp_all add: new_session_def demo_onboarding_def demo_env_def)
  have l: "oc_maxLlmCalls ?cfg - os_llmCallCount ?x \<le> max_tool_iterations" by (simp add: new_session_def max_tool_iterations_def)
  have "fst (update_sessions (\<lambda>x. os_id x = ''s1'' \<and> os_llmCallCount x < oc_maxLlmCalls ?cfg)
      (\<lambda>x. x\<lparr>os_llmCallCount := os_llmCallCount x + 1\<rparr>) demo_onb) \<noteq> 0"
    by (rule count_update [OF demo_session]) (simp add: new_session_def)
  then obtain s1 where r: "reserve_document_call ?cfg ''s1'' demo_onb = (Inr (), s1)"
    by (simp add: reserve_document_call_def split_beta)
  have b: "min max_tool_iterations (oc_maxLlmCalls ?cfg - os_llmCallCount ?x) = oc_maxLlmCalls ?cfg" "os_version ?x = 0"
    by (simp_all add: new_session_def max_tool_iterations_def)
  from upload_race_exceeds_limit [OF o l r] r show ?thesis unfolding b by (intro exI [of _ ?cfg]) auto
qed

end
