(* ===== verification/Finalize.thy ===== *)
theory Finalize
  imports Documents Access Tenancy Outbox
begin

text \<open>
  The end of the onboarding (slugify.util.ts, onboarding-finalize.service.ts): the subdomain of a
  new business and the one transaction that creates its tenant with users, prices, job types and
  invitations. The random passwords are the values of \<open>pwd\<close>; names are folded in the ASCII range;
  prices are rounded from their exact value.
\<close>

section \<open>Subdomains\<close>

definition reserved_subdomains :: "string list" where
  "reserved_subdomains =
     [''www'', ''api'', ''bi'', ''admin'', ''administrator'', ''root'', ''static'', ''cdn'', ''mail'', ''smtp'', ''imap'', ''ftp'',
      ''app'', ''apps'', ''dashboard'', ''status'', ''health'', ''docs'', ''support'', ''help'', ''blog'', ''auth'', ''login'',
      ''signup'', ''register'', ''onboarding'', ''billing'', ''account'', ''accounts'', ''dev'', ''staging'', ''test'', ''demo'',
      ''internal'', ''assets'', ''media'', ''files'', ''storage'', ''ns'', ''ns1'', ''ns2'', ''mx'', ''vpn'', ''proxy'', ''gateway'',
      ''webhook'', ''webhooks'', ''metrics'']"

definition max_label_length :: nat where "max_label_length = 40"
definition min_label_length :: nat where "min_label_length = 3"

text \<open>The four bytes in hexadecimal, cut to six digits.\<close>

definition random_suffix :: "string \<Rightarrow> string" where
  "random_suffix bytes = take 6 (hex_encode bytes)"

text \<open>\<open>replace(/[^a-z0-9]+/g, '-')\<close>: one dash for every run of other characters.\<close>

fun slug_dashes :: "bool \<Rightarrow> string \<Rightarrow> string" where
  "slug_dashes r [] = []"
| "slug_dashes r (c # s) = (if label_char c then c # slug_dashes False s else if r then slug_dashes True s else CHR ''-'' # slug_dashes True s)"

definition not_dash :: "char \<Rightarrow> bool" where
  "not_dash c \<longleftrightarrow> c \<noteq> CHR ''-''"

definition drop_last_dashes :: "string \<Rightarrow> string" where
  "drop_last_dashes s = rev (dropWhile (\<lambda>c. \<not> not_dash c) (rev s))"

definition slug_text :: "string \<Rightarrow> string" where
  "slug_text inp =
     drop_last_dashes (take max_label_length (drop_last_dashes (dropWhile (\<lambda>c. \<not> not_dash c)
       (slug_dashes False (filter (\<lambda>c. (of_char c :: nat) < 128) (to_lower inp))))))"

definition slugify :: "string \<Rightarrow> string \<Rightarrow> string" where
  "slugify bytes inp =
     (let ascii = slug_text inp
      in if ascii = [] \<or> length ascii < min_label_length \<or> is_digit (hd ascii) then ''co-'' @ random_suffix bytes
         else if ascii \<in> set reserved_subdomains then ascii @ ''-'' @ random_suffix bytes
         else ascii)"

definition is_reserved_subdomain :: "string \<Rightarrow> bool" where
  "is_reserved_subdomain c \<longleftrightarrow> c \<in> set reserved_subdomains"

definition candidates :: "string \<Rightarrow> string list" where
  "candidates base = base # map (\<lambda>i. base @ ''-'' @ show_nat i) [1..<50]"

definition generate_unique_subdomain :: "string \<Rightarrow> string \<Rightarrow> db \<Rightarrow> http_error + string" where
  "generate_unique_subdomain bytes legalName db =
     (case List.find (\<lambda>c. \<not> is_reserved_subdomain c \<and> resolve_tenant_by_subdomain db c = None) (candidates (slugify bytes legalName)) of
        None \<Rightarrow> Inl (Conflict ''Could not derive a free subdomain for this company name'')
      | Some c \<Rightarrow> Inr c)"

section \<open>The graph of a tenant\<close>

definition default_modules_for_vertical :: "vertical \<Rightarrow> string list" where
  "default_modules_for_vertical v =
     (if v = RETAIL then [''intake'', ''inventory'', ''invoicing'', ''comms'']
      else [''intake'', ''scheduling'', ''inventory'', ''invoicing'', ''comms''])"

definition graph_tenant :: "env \<Rightarrow> string \<Rightarrow> string \<Rightarrow> company_info \<Rightarrow> tenant" where
  "graph_tenant e tid sub c = \<lparr>tn_id = tid, tn_name = co_legalName c, tn_vertical = co_vertical c, tn_subdomain = sub,
     tn_isActive = True, tn_createdAt = now e\<rparr>"

definition graph_config :: "string \<Rightarrow> string list \<Rightarrow> tenant_config" where
  "graph_config tid mods = \<lparr>cf_tenantId = tid, cf_enabledModules = JArr (map JStr mods), cf_theme = default_theme,
     cf_schedulingWeights = (if ''scheduling'' \<in> set mods then Some default_weights_json else None),
     cf_emailTemplates = default_email_templates, cf_llmMonthlyBudgetMinor = None\<rparr>"

definition graph_user :: "env \<Rightarrow> string \<Rightarrow> team_member \<times> string \<Rightarrow> string \<Rightarrow> user" where
  "graph_user e tid p uid = \<lparr>u_id = uid, u_tenantId = tid, u_email = tm_email (fst p), u_passwordHash = snd p,
     u_name = tm_name (fst p), u_role = tm_role (fst p), u_isActive = True, u_skills = [], u_homeLat = None, u_homeLng = None,
     u_mustChangePassword = True, u_lastLoginAt = None, u_createdAt = now e\<rparr>"

definition user_insert :: "env \<Rightarrow> string \<Rightarrow> team_member \<times> string \<Rightarrow> db \<Rightarrow> db" where
  "user_insert e tid p db = (bump_id db)\<lparr>users := users db @ [graph_user e tid p (next_id e db)]\<rparr>"

definition users_create_many :: "env \<Rightarrow> string \<Rightarrow> (team_member \<times> string) list \<Rightarrow> db \<Rightarrow> http_error + db" where
  "users_create_many e tid ps db =
     (if distinct (map (\<lambda>p. tm_email (fst p)) ps)
         \<and> \<not> list_ex (\<lambda>u. u_tenantId u = tid \<and> u_email u \<in> set (map (\<lambda>p. tm_email (fst p)) ps)) (users db)
      then Inr (fold (user_insert e tid) ps db)
      else Inl (PrismaKnown ''P2002''))"

definition graph_price :: "string \<Rightarrow> price_code \<Rightarrow> string \<Rightarrow> price_list_item" where
  "graph_price tid p pid = \<lparr>pl_id = pid, pl_tenantId = tid, pl_code = pc_code p, pl_description = pc_description p,
     pl_price = to_cents (pc_defaultPrice p), pl_isActive = True\<rparr>"

text \<open>\<open>skipDuplicates\<close>.\<close>

definition price_create_skipping :: "env \<Rightarrow> string \<Rightarrow> price_code \<Rightarrow> db \<Rightarrow> db" where
  "price_create_skipping e tid p db =
     (if list_ex (\<lambda>q. pl_tenantId q = tid \<and> pl_code q = pc_code p) (price_list_items db) then db
      else (bump_id db)\<lparr>price_list_items := price_list_items db @ [graph_price tid p (next_id e db)]\<rparr>)"

definition graph_job :: "env \<Rightarrow> string \<Rightarrow> job_type_draft \<Rightarrow> string \<Rightarrow> job_type_template" where
  "graph_job e tid j jid = \<lparr>jt_id = jid, jt_tenantId = tid, jt_name = jd_name j,
     jt_requiredSkill = map_option (\<lambda>s. to_lower (trim s)) (jd_requiredSkill j), jt_fields = JArr (map field_json (jd_fields j)),
     jt_defaultPriority = 2, jt_defaultChecklist = JArr (map check_json (jd_defaultChecklist j)), jt_isActive = True,
     jt_createdAt = now e\<rparr>"

definition job_create :: "env \<Rightarrow> string \<Rightarrow> job_type_draft \<Rightarrow> db \<Rightarrow> http_error + db" where
  "job_create e tid j db =
     (if list_ex (\<lambda>q. jt_tenantId q = tid \<and> jt_name q = jd_name j) (job_type_templates db) then Inl (PrismaKnown ''P2002'')
      else Inr ((bump_id db)\<lparr>job_type_templates := job_type_templates db @ [graph_job e tid j (next_id e db)]\<rparr>))"

definition invite_payload :: "string \<Rightarrow> team_member \<Rightarrow> json" where
  "invite_payload sub m = JObj [(''email'', JStr (tm_email m)), (''name'', JStr (tm_name m)), (''role'', JStr (role_name (tm_role m))),
     (''subdomain'', JStr sub), (''reason'', JStr ''onboarding_finalize'')]"

definition invite_events :: "env \<Rightarrow> string \<Rightarrow> string \<Rightarrow> team_member list \<Rightarrow> db \<Rightarrow> db" where
  "invite_events e tid sub ms = fold (\<lambda>m. outbox_create e tid ''user.invited'' (invite_payload sub m)) ms"

definition create_tenant_graph_tx ::
  "env \<Rightarrow> string \<Rightarrow> string \<Rightarrow> company_info \<Rightarrow> (team_member \<times> string) list \<Rightarrow> price_code list \<Rightarrow> job_type_draft list \<Rightarrow> unit tx" where
  "create_tenant_graph_tx e tid sub c ps prices_in jobs db =
     (if list_ex (\<lambda>t. tn_subdomain t = sub \<or> tn_id t = tid) (tenants db) then Inl (PrismaKnown ''P2002'')
      else let db1 = db\<lparr>tenants := tenants db @ [graph_tenant e tid sub c],
                        tenant_configs := tenant_configs db @ [graph_config tid (default_modules_for_vertical (co_vertical c))]\<rparr>
           in case users_create_many e tid ps db1 of
                Inl err \<Rightarrow> Inl err
              | Inr db2 \<Rightarrow>
                  (case run_each (job_create e tid) jobs (fold (price_create_skipping e tid) prices_in db2) of
                     Inl err \<Rightarrow> Inl err
                   | Inr db3 \<Rightarrow> Inr ((), invite_events e tid sub (map fst ps) db3)))"

definition create_tenant_graph ::
  "env \<Rightarrow> string \<Rightarrow> string \<Rightarrow> company_info \<Rightarrow> (team_member \<times> string) list \<Rightarrow> price_code list \<Rightarrow> job_type_draft list \<Rightarrow> unit svc" where
  "create_tenant_graph e tid sub c ps prices_in jobs db =
     (case for_tenant tid (create_tenant_graph_tx e tid sub c ps prices_in jobs) db of
        (Inl err, db1) \<Rightarrow>
          (Inl (if is_unique_violation err
                then Conflict ''A tenant with this subdomain or a user with this email already exists'' else err), db1)
      | (Inr u, db1) \<Rightarrow> (Inr u, db1))"

section \<open>Finalizing\<close>

record finalize_result =
  fr_tenantId :: string
  fr_subdomain :: string
  fr_users :: "(string \<times> string \<times> user_role) list"
  fr_jobTypesCreated :: nat
  fr_priceCodesCreated :: nat
  fr_learningInsights :: markup

text \<open>The checks on the session and its draft.\<close>

definition finalize_check :: "onb_config \<Rightarrow> env \<Rightarrow> string \<Rightarrow> string \<Rightarrow> onb \<Rightarrow> http_error + (session_draft \<times> company_info)" where
  "finalize_check cfg e sid secret s =
     (case validate_session cfg e sid secret s of
        Inl err \<Rightarrow> Inl err
      | Inr (x, d) \<Rightarrow>
          if os_status x = Finalized then Inl (Conflict ''This onboarding session was already finalized'')
          else if os_status x \<noteq> Ready_To_Finalize
          then Inl (BadRequest ''Onboarding chat has not signaled readiness yet - continue the conversation until the assistant confirms all required details were collected'')
          else case sd_companyInfo d of
            None \<Rightarrow> Inl (BadRequest ''Missing company info - the chat did not collect enough yet'')
          | Some c \<Rightarrow>
              if sd_teamMembers d = [] then Inl (BadRequest ''At least one team member (the business owner) is required'')
              else if \<not> list_ex (\<lambda>m. tm_role m = OWNER) (sd_teamMembers d)
              then Inl (BadRequest ''Exactly one team member must be marked as OWNER'')
              else if \<not> distinct (map tm_email (sd_teamMembers d)) then Inl (BadRequest ''Team member emails must be unique'')
              else Inr (d, c))"

definition prepared_users :: "auth_lib \<Rightarrow> (nat \<Rightarrow> string) \<Rightarrow> team_member list \<Rightarrow> (team_member \<times> string) list" where
  "prepared_users lib pwd ms = zip ms (map (\<lambda>i. cx_hash lib (pwd i)) [0..<length ms])"

definition finalize_close :: "env \<Rightarrow> string \<Rightarrow> string \<Rightarrow> onb \<Rightarrow> onb" where
  "finalize_close e sid tid s =
     snd (update_sessions (\<lambda>x. os_id x = sid \<and> os_status x = Ready_To_Finalize)
       (\<lambda>x. x\<lparr>os_status := Finalized, os_resultTenantId := Some tid, os_finalizedAt := Some (now e), os_expiresAt := now e,
               os_version := os_version x + 1\<rparr>) s)"

text \<open>From the choice of the subdomain to the answer.\<close>

definition finalize_build ::
  "auth_lib \<Rightarrow> env \<Rightarrow> (nat \<Rightarrow> string) \<Rightarrow> string \<Rightarrow> string \<Rightarrow> string \<Rightarrow> session_draft \<Rightarrow> company_info \<Rightarrow> onb \<times> db
     \<Rightarrow> (http_error + finalize_result) \<times> (onb \<times> db)" where
  "finalize_build lib e pwd bytes tid sid d c st =
     (case generate_unique_subdomain bytes (co_legalName c) (snd st) of
        Inl err \<Rightarrow> (Inl err, st)
      | Inr sub \<Rightarrow>
          (case create_tenant_graph e tid sub c (prepared_users lib pwd (sd_teamMembers d)) (sd_priceCodes d) (sd_jobTypes d) (snd st) of
             (Inl err, db1) \<Rightarrow> (Inl err, (fst st, db1))
           | (Inr _, db1) \<Rightarrow>
               (Inr \<lparr>fr_tenantId = tid, fr_subdomain = sub,
                  fr_users = map (\<lambda>m. (tm_email m, tm_name m, tm_role m)) (sd_teamMembers d),
                  fr_jobTypesCreated = length (sd_jobTypes d), fr_priceCodesCreated = length (sd_priceCodes d),
                  fr_learningInsights = compute_suggested_markup (fst st) sid\<rparr>,
                (finalize_close e sid tid (fst st), db1))))"

definition finalize ::
  "onb_config \<Rightarrow> auth_lib \<Rightarrow> env \<Rightarrow> (nat \<Rightarrow> string) \<Rightarrow> string \<Rightarrow> string \<Rightarrow> string \<Rightarrow> string \<Rightarrow> onb \<times> db
     \<Rightarrow> (http_error + finalize_result) \<times> (onb \<times> db)" where
  "finalize cfg lib e pwd bytes tid sid secret st =
     (case finalize_check cfg e sid secret (fst st) of
        Inl err \<Rightarrow> (Inl err, st)
      | Inr (d, c) \<Rightarrow> finalize_build lib e pwd bytes tid sid d c st)"

section \<open>What the transaction creates\<close>

text \<open>The rows a step appends to one table, over whatever stands there.\<close>

lemma users_inserted:
  "\<exists>us k. fold (user_insert e tid) ps db = db\<lparr>users := users db @ us, id_ctr := k\<rparr>
     \<and> list_all2 (\<lambda>p u. u = graph_user e tid p (u_id u)) ps us"
proof (induction ps arbitrary: db)
  case Nil
  show ?case by (intro exI [of _ "[]"] exI [of _ "id_ctr db"]) simp
next
  case (Cons p ps)
  let ?d = "user_insert e tid p db"
  have d: "?d = (bump_id db)\<lparr>users := users db @ [graph_user e tid p (next_id e db)]\<rparr>" by (rule user_insert_def)
  have w: "graph_user e tid p (u_id (graph_user e tid p n)) = graph_user e tid p n" for n by (simp add: graph_user_def)
  obtain us k where i: "fold (user_insert e tid) ps ?d = ?d\<lparr>users := users ?d @ us, id_ctr := k\<rparr>"
    "list_all2 (\<lambda>p u. u = graph_user e tid p (u_id u)) ps us"
    using Cons.IH [of ?d] by blast
  show ?case
    by (intro exI [of _ "graph_user e tid p (next_id e db) # us"] exI [of _ k])
      (use i in \<open>simp add: d w bump_id_def\<close>)
qed

text \<open>The first price of every code that is not there yet.\<close>

fun first_codes :: "string set \<Rightarrow> price_code list \<Rightarrow> price_code list" where
  "first_codes seen [] = []"
| "first_codes seen (p # ps) =
     (if pc_code p \<in> seen then first_codes seen ps else p # first_codes (insert (pc_code p) seen) ps)"

definition codes_of :: "string \<Rightarrow> db \<Rightarrow> string set" where
  "codes_of tid db = pl_code ` set (filter (\<lambda>q. pl_tenantId q = tid) (price_list_items db))"

lemma prices_inserted:
  "\<exists>qs k. fold (price_create_skipping e tid) ps db = db\<lparr>price_list_items := price_list_items db @ qs, id_ctr := k\<rparr>
     \<and> list_all2 (\<lambda>p q. q = graph_price tid p (pl_id q)) (first_codes (codes_of tid db) ps) qs"
proof (induction ps arbitrary: db)
  case Nil
  show ?case by (intro exI [of _ "[]"] exI [of _ "id_ctr db"]) simp
next
  case (Cons p ps)
  let ?d = "price_create_skipping e tid p db"
  obtain qs k where i: "fold (price_create_skipping e tid) ps ?d = ?d\<lparr>price_list_items := price_list_items ?d @ qs, id_ctr := k\<rparr>"
    "list_all2 (\<lambda>p q. q = graph_price tid p (pl_id q)) (first_codes (codes_of tid ?d) ps) qs"
    using Cons.IH [of ?d] by blast
  have seen: "list_ex (\<lambda>q. pl_tenantId q = tid \<and> pl_code q = pc_code p) (price_list_items db) \<longleftrightarrow> pc_code p \<in> codes_of tid db"
    by (auto simp: codes_of_def list_ex_iff intro!: image_eqI [of "pc_code p" pl_code])
  show ?case
  proof (cases "pc_code p \<in> codes_of tid db")
    case True
    with seen have d: "?d = db" by (simp add: price_create_skipping_def)
    from i show ?thesis unfolding d by (intro exI [of _ qs] exI [of _ k]) (simp add: d True)
  next
    case False
    with seen have d: "?d = (bump_id db)\<lparr>price_list_items := price_list_items db @ [graph_price tid p (next_id e db)]\<rparr>"
      by (simp add: price_create_skipping_def)
    have "codes_of tid ?d = insert (pc_code p) (codes_of tid db)"
      by (simp add: d codes_of_def graph_price_def)
    moreover have "graph_price tid p (pl_id (graph_price tid p n)) = graph_price tid p n" for n by (simp add: graph_price_def)
    ultimately show ?thesis
      by (intro exI [of _ "graph_price tid p (next_id e db) # qs"] exI [of _ k])
        (use i False in \<open>simp add: d bump_id_def\<close>)
  qed
qed

lemma jobs_inserted:
  "run_each (job_create e tid) js db = Inr db' \<Longrightarrow>
   \<exists>rows k. db' = db\<lparr>job_type_templates := job_type_templates db @ rows, id_ctr := k\<rparr>
     \<and> list_all2 (\<lambda>j r. r = graph_job e tid j (jt_id r)) js rows"
proof (induction js arbitrary: db)
  case Nil
  then show ?case by (intro exI [of _ "[]"] exI [of _ "id_ctr db"]) simp
next
  case (Cons j js)
  then obtain d where d: "job_create e tid j db = Inr d" "run_each (job_create e tid) js d = Inr db'"
    by (auto split: sum.splits)
  from Cons.IH [OF d(2)] obtain rows k where i: "db' = d\<lparr>job_type_templates := job_type_templates d @ rows, id_ctr := k\<rparr>"
    "list_all2 (\<lambda>j r. r = graph_job e tid j (jt_id r)) js rows" by blast
  have "graph_job e tid j (jt_id (graph_job e tid j n)) = graph_job e tid j n" for n by (simp add: graph_job_def)
  then show ?case
    by (intro exI [of _ "graph_job e tid j (next_id e db) # rows"] exI [of _ k])
      (use d(1) i in \<open>auto simp: job_create_def bump_id_def split: if_splits\<close>)
qed

lemma invites_inserted:
  "\<exists>evs k. invite_events e tid sub ms db = db\<lparr>outbox_events := outbox_events db @ evs, id_ctr := k\<rparr>
     \<and> map (\<lambda>ev. (ob_tenantId ev, ob_eventName ev, ob_payload ev)) evs = map (\<lambda>m. (tid, ''user.invited'', invite_payload sub m)) ms"
proof (induction ms arbitrary: db)
  case Nil
  show ?case by (intro exI [of _ "[]"] exI [of _ "id_ctr db"]) (simp add: invite_events_def)
next
  case (Cons m ms)
  let ?d = "outbox_create e tid ''user.invited'' (invite_payload sub m) db"
  have c: "invite_events e tid sub (m # ms) db = invite_events e tid sub ms ?d" by (simp add: invite_events_def)
  have d: "?d = (bump_id db)\<lparr>outbox_events := outbox_events db @ [new_outbox_row e tid ''user.invited'' (invite_payload sub m) db]\<rparr>"
    by (rule outbox_create_def)
  obtain evs k where i: "invite_events e tid sub ms ?d = ?d\<lparr>outbox_events := outbox_events ?d @ evs, id_ctr := k\<rparr>"
    "map (\<lambda>ev. (ob_tenantId ev, ob_eventName ev, ob_payload ev)) evs = map (\<lambda>m. (tid, ''user.invited'', invite_payload sub m)) ms"
    using Cons.IH [of ?d] by blast
  show ?case
    by (intro exI [of _ "new_outbox_row e tid ''user.invited'' (invite_payload sub m) db # evs"] exI [of _ k])
      (use i in \<open>simp add: c d bump_id_def new_outbox_row_def\<close>)
qed

text \<open>What can be read off an invited user.\<close>

definition user_view :: "user \<Rightarrow> string \<times> string \<times> string \<times> string \<times> user_role \<times> bool \<times> bool" where
  "user_view u = (u_tenantId u, u_email u, u_passwordHash u, u_name u, u_role u, u_isActive u, u_mustChangePassword u)"

lemma graph_user_view:
  "u = graph_user e tid p (u_id u) \<Longrightarrow> user_view u = (tid, tm_email (fst p), snd p, tm_name (fst p), tm_role (fst p), True, True)"
  by (cases u) (simp add: graph_user_def user_view_def)

lemma graph_users_view:
  "list_all2 (\<lambda>p u. u = graph_user e tid p (u_id u)) ps us \<Longrightarrow>
   map user_view us = map (\<lambda>p. (tid, tm_email (fst p), snd p, tm_name (fst p), tm_role (fst p), True, True)) ps"
  by (induction rule: list_all2_induct) (simp_all add: graph_user_view)

lemma graph_users_tenant:
  assumes "list_all2 (\<lambda>p u. u = graph_user e tid p (u_id u)) ps us" and "u \<in> set us"
  shows "u_tenantId u = tid"
  using arg_cong [OF graph_users_view [OF assms(1)], of "\<lambda>xs. fst ` set xs"] assms(2)
  by (auto simp: image_image user_view_def)

definition price_view :: "price_list_item \<Rightarrow> string \<times> string \<times> string \<times> int \<times> bool" where
  "price_view q = (pl_tenantId q, pl_code q, pl_description q, pl_price q, pl_isActive q)"

definition job_view :: "job_type_template \<Rightarrow> string \<times> string \<times> string option \<times> json \<times> json \<times> bool" where
  "job_view r = (jt_tenantId r, jt_name r, jt_requiredSkill r, jt_fields r, jt_defaultChecklist r, jt_isActive r)"

lemma graph_price_view:
  "q = graph_price tid p (pl_id q) \<Longrightarrow> price_view q = (tid, pc_code p, pc_description p, to_cents (pc_defaultPrice p), True)"
  by (cases q) (simp add: graph_price_def price_view_def)

lemma graph_job_view:
  "r = graph_job e tid j (jt_id r) \<Longrightarrow> job_view r = (tid, jd_name j, map_option (\<lambda>s. to_lower (trim s)) (jd_requiredSkill j),
     JArr (map field_json (jd_fields j)), JArr (map check_json (jd_defaultChecklist j)), True)"
  by (cases r) (simp add: graph_job_def job_view_def)

lemma graph_prices_view:
  "list_all2 (\<lambda>p q. q = graph_price tid p (pl_id q)) ps qs \<Longrightarrow>
   map price_view qs = map (\<lambda>p. (tid, pc_code p, pc_description p, to_cents (pc_defaultPrice p), True)) ps"
  by (induction rule: list_all2_induct) (simp_all add: graph_price_view)

lemma graph_jobs_view:
  "list_all2 (\<lambda>j r. r = graph_job e tid j (jt_id r)) js rows \<Longrightarrow>
   map job_view rows = map (\<lambda>j. (tid, jd_name j, map_option (\<lambda>s. to_lower (trim s)) (jd_requiredSkill j),
     JArr (map field_json (jd_fields j)), JArr (map check_json (jd_defaultChecklist j)), True)) js"
  by (induction rule: list_all2_induct) (simp_all add: graph_job_view)

lemma graph_price_tenant:
  "list_all2 (\<lambda>p q. q = graph_price tid p (pl_id q)) ps qs \<Longrightarrow> \<forall>q \<in> set qs. pl_tenantId q = tid"
  by (induction rule: list_all2_induct) (auto dest: graph_price_view simp: price_view_def)

lemma graph_job_tenant:
  "list_all2 (\<lambda>j r. r = graph_job e tid j (jt_id r)) js rows \<Longrightarrow> \<forall>r \<in> set rows. jt_tenantId r = tid"
  by (induction rule: list_all2_induct) (auto dest: graph_job_view simp: job_view_def)

text \<open>The whole transaction.\<close>

definition graph_built :: "env \<Rightarrow> string \<Rightarrow> string \<Rightarrow> company_info \<Rightarrow> (team_member \<times> string) list \<Rightarrow> price_code list \<Rightarrow>
    job_type_draft list \<Rightarrow> db \<Rightarrow> db \<Rightarrow> bool" where
  "graph_built e tid sub c ps prices_in jobs db db' \<longleftrightarrow> (\<exists>us qs rows evs k.
     db' = db\<lparr>tenants := tenants db @ [graph_tenant e tid sub c],
       tenant_configs := tenant_configs db @ [graph_config tid (default_modules_for_vertical (co_vertical c))],
       users := users db @ us, price_list_items := price_list_items db @ qs,
       job_type_templates := job_type_templates db @ rows, outbox_events := outbox_events db @ evs, id_ctr := k\<rparr>
     \<and> list_all2 (\<lambda>p u. u = graph_user e tid p (u_id u)) ps us
     \<and> list_all2 (\<lambda>p q. q = graph_price tid p (pl_id q)) (first_codes (codes_of tid db) prices_in) qs
     \<and> list_all2 (\<lambda>j r. r = graph_job e tid j (jt_id r)) jobs rows
     \<and> map (\<lambda>ev. (ob_tenantId ev, ob_eventName ev, ob_payload ev)) evs
         = map (\<lambda>p. (tid, ''user.invited'', invite_payload sub (fst p))) ps)"

lemma graph_tx_built:
  assumes "create_tenant_graph_tx e tid sub c ps prices_in jobs db = Inr (u, db')"
  shows "graph_built e tid sub c ps prices_in jobs db db'"
    and "\<And>t. t \<in> set (tenants db) \<Longrightarrow> tn_subdomain t \<noteq> sub \<and> tn_id t \<noteq> tid"
proof -
  let ?d1 = "db\<lparr>tenants := tenants db @ [graph_tenant e tid sub c],
    tenant_configs := tenant_configs db @ [graph_config tid (default_modules_for_vertical (co_vertical c))]\<rparr>"
  from assms obtain d3 where n: "\<not> list_ex (\<lambda>t. tn_subdomain t = sub \<or> tn_id t = tid) (tenants db)"
    and j: "run_each (job_create e tid) jobs (fold (price_create_skipping e tid) prices_in (fold (user_insert e tid) ps ?d1)) = Inr d3"
    and v: "db' = invite_events e tid sub (map fst ps) d3"
    by (auto simp: create_tenant_graph_tx_def users_create_many_def Let_def split: if_splits sum.splits)
  show "\<And>t. t \<in> set (tenants db) \<Longrightarrow> tn_subdomain t \<noteq> sub \<and> tn_id t \<noteq> tid"
    using n by (auto simp: list_ex_iff)
  obtain us k1 where a: "fold (user_insert e tid) ps ?d1 = ?d1\<lparr>users := users ?d1 @ us, id_ctr := k1\<rparr>"
    "list_all2 (\<lambda>p u. u = graph_user e tid p (u_id u)) ps us"
    using users_inserted [of e tid ps ?d1] by blast
  let ?d2 = "?d1\<lparr>users := users ?d1 @ us, id_ctr := k1\<rparr>"
  obtain qs k2 where b: "fold (price_create_skipping e tid) prices_in ?d2 = ?d2\<lparr>price_list_items := price_list_items ?d2 @ qs, id_ctr := k2\<rparr>"
    "list_all2 (\<lambda>p q. q = graph_price tid p (pl_id q)) (first_codes (codes_of tid ?d2) prices_in) qs"
    using prices_inserted [of e tid prices_in ?d2] by blast
  from j [unfolded a(1) b(1)] have "run_each (job_create e tid) jobs (?d2\<lparr>price_list_items := price_list_items ?d2 @ qs, id_ctr := k2\<rparr>) = Inr d3" .
  from jobs_inserted [OF this] obtain rows k3 where r: "d3 = ?d2\<lparr>price_list_items := price_list_items ?d2 @ qs,
      job_type_templates := job_type_templates ?d2 @ rows, id_ctr := k3\<rparr>"
    "list_all2 (\<lambda>j r. r = graph_job e tid j (jt_id r)) jobs rows" by auto
  have codes: "codes_of tid ?d2 = codes_of tid db" by (simp add: codes_of_def)
  obtain evs k4 where w: "db' = d3\<lparr>outbox_events := outbox_events d3 @ evs, id_ctr := k4\<rparr>"
    "map (\<lambda>ev. (ob_tenantId ev, ob_eventName ev, ob_payload ev)) evs = map (\<lambda>m. (tid, ''user.invited'', invite_payload sub m)) (map fst ps)"
    using invites_inserted [of e tid sub "map fst ps" d3] unfolding v by blast
  show "graph_built e tid sub c ps prices_in jobs db db'"
    unfolding graph_built_def
    by (intro exI [of _ us] exI [of _ qs] exI [of _ rows] exI [of _ evs] exI [of _ k4])
      (use a(2) b(2) codes r w in \<open>simp add: o_def\<close>)
qed

lemma others_graph_built:
  assumes "graph_built e tid sub c ps prices_in jobs db db'"
  shows "others tid db' = others tid db"
proof -
  from assms obtain us qs rows evs k where
    d: "db' = db\<lparr>tenants := tenants db @ [graph_tenant e tid sub c],
       tenant_configs := tenant_configs db @ [graph_config tid (default_modules_for_vertical (co_vertical c))],
       users := users db @ us, price_list_items := price_list_items db @ qs,
       job_type_templates := job_type_templates db @ rows, outbox_events := outbox_events db @ evs, id_ctr := k\<rparr>"
    and u: "list_all2 (\<lambda>p u. u = graph_user e tid p (u_id u)) ps us" 
    and q: "list_all2 (\<lambda>p q. q = graph_price tid p (pl_id q)) (first_codes (codes_of tid db) prices_in) qs"
    and r: "list_all2 (\<lambda>j r. r = graph_job e tid j (jt_id r)) jobs rows"
    and v: "map (\<lambda>ev. (ob_tenantId ev, ob_eventName ev, ob_payload ev)) evs
         = map (\<lambda>p. (tid, ''user.invited'', invite_payload sub (fst p))) ps"
    unfolding graph_built_def by blast
  have "\<forall>x \<in> set us. u_tenantId x = tid" using graph_users_tenant [OF u] by blast
  moreover have "\<forall>x \<in> set evs. ob_tenantId x = tid"
    using arg_cong [OF v, of "\<lambda>xs. fst ` set xs"] by (auto simp: image_image)
  ultimately show ?thesis
    using graph_price_tenant [OF q] graph_job_tenant [OF r] by (simp add: d others_def graph_tenant_def graph_config_def filter_empty_conv)
qed

interpretation graph_op: tenant_op tid "create_tenant_graph_tx e tid sub c ps prices_in jobs" for e tid sub c ps prices_in jobs
  by unfold_locales (rule others_graph_built, rule graph_tx_built(1))

lemma create_tenant_graph_ok:
  assumes "create_tenant_graph e tid sub c ps prices_in jobs db = (Inr u, db')"
  shows "is_uuid tid" and "graph_built e tid sub c ps prices_in jobs db db'" and "others tid db' = others tid db"
    and "\<And>t. t \<in> set (tenants db) \<Longrightarrow> tn_subdomain t \<noteq> sub \<and> tn_id t \<noteq> tid"
proof -
  from assms have f: "for_tenant tid (create_tenant_graph_tx e tid sub c ps prices_in jobs) db = (Inr u, db')"
    by (auto simp: create_tenant_graph_def split: prod.splits sum.splits)
  then have t: "is_uuid tid" "create_tenant_graph_tx e tid sub c ps prices_in jobs db = Inr (u, db')"
    by (simp_all add: for_tenant_Inr)
  show "is_uuid tid" by (rule t(1))
  show "graph_built e tid sub c ps prices_in jobs db db'" by (rule graph_tx_built(1) [OF t(2)])
  show "others tid db' = others tid db" by (rule graph_op.isolated_result [OF f])
  show "\<And>t. t \<in> set (tenants db) \<Longrightarrow> tn_subdomain t \<noteq> sub \<and> tn_id t \<noteq> tid" by (rule graph_tx_built(2) [OF t(2)])
qed

section \<open>A finalized session\<close>

lemma finalize_check_ok:
  assumes "finalize_check cfg e sid secret s = Inr (d, c)"
  obtains x where "find_session s sid = Some x" "os_status x = Ready_To_Finalize" "d = read_draft cfg x" "sd_companyInfo d = Some c"
    "\<exists>m \<in> set (sd_teamMembers d). tm_role m = OWNER" "distinct (map tm_email (sd_teamMembers d))" "now e < os_expiresAt x"
  using assms
  by (auto simp: finalize_check_def validate_session_def list_ex_iff split: sum.splits option.splits if_splits)

lemma finalize_build_ok:
  assumes "finalize_build lib e pwd bytes tid sid d c (s, db) = (Inr r, (s', db'))"
  shows "generate_unique_subdomain bytes (co_legalName c) db = Inr (fr_subdomain r)" and "fr_tenantId r = tid"
    and "create_tenant_graph e tid (fr_subdomain r) c (prepared_users lib pwd (sd_teamMembers d)) (sd_priceCodes d) (sd_jobTypes d) db = (Inr (), db')"
    and "s' = finalize_close e sid tid s"
  using assms by (auto simp: finalize_build_def split: sum.splits prod.splits)

lemma finalize_ok:
  assumes "finalize cfg lib e pwd bytes tid sid secret (s, db) = (Inr r, (s', db'))"
  obtains d c where "finalize_check cfg e sid secret s = Inr (d, c)"
    "finalize_build lib e pwd bytes tid sid d c (s, db) = (Inr r, (s', db'))"
  using assms by (auto simp: finalize_def split: sum.splits prod.splits)

lemma find_close:
  "find_session (finalize_close e sid tid s) sid' = map_option (\<lambda>x. if os_id x = sid \<and> os_status x = Ready_To_Finalize
     then x\<lparr>os_status := Finalized, os_resultTenantId := Some tid, os_finalizedAt := Some (now e), os_expiresAt := now e,
            os_version := os_version x + 1\<rparr> else x) (find_session s sid')"
  unfolding finalize_close_def by (rule find_update) simp

lemma prepared_members [simp]: "map fst (prepared_users lib pwd ms) = ms"
  by (simp add: prepared_users_def)

lemma map_prepared: "map (\<lambda>p. f (fst p)) (prepared_users lib pwd ms) = map f ms"
proof -
  have c: "map (\<lambda>p. f (fst p)) ps = map f (map fst ps)" for ps :: "(team_member \<times> string) list" by simp
  show ?thesis unfolding c prepared_members ..
qed

lemma prepared_hashes: "p \<in> set (prepared_users lib pwd ms) \<Longrightarrow> \<exists>i < length ms. snd p = cx_hash lib (pwd i)"
  by (cases p) (fastforce simp: prepared_users_def dest!: set_zip_rightD)

text \<open>C8. Finalizing a ready session creates exactly one tenant with the company's name and the modules
  of its vertical, one active user per team member, an owner among them, who must change the
  password, one price per code and one job type per draft with their contents, and one invitation
  per member, touches no other tenant and closes the session.\<close>
theorem finalize_builds_the_tenant:
  assumes "finalize cfg lib e pwd bytes tid sid secret (s, db) = (Inr r, (s', db'))"
  shows "\<exists>x d c us qs rows evs. find_session s sid = Some x \<and> os_status x = Ready_To_Finalize
    \<and> d = read_draft cfg x \<and> sd_companyInfo d = Some c
    \<and> tenants db' = tenants db @ [\<lparr>tn_id = tid, tn_name = co_legalName c, tn_vertical = co_vertical c,
        tn_subdomain = fr_subdomain r, tn_isActive = True, tn_createdAt = now e\<rparr>]
    \<and> tenant_configs db' = tenant_configs db @ [\<lparr>cf_tenantId = tid,
        cf_enabledModules = JArr (map JStr (if co_vertical c = RETAIL then [''intake'', ''inventory'', ''invoicing'', ''comms'']
          else [''intake'', ''scheduling'', ''inventory'', ''invoicing'', ''comms''])), cf_theme = default_theme,
        cf_schedulingWeights = (if co_vertical c = RETAIL then None else Some default_weights_json),
        cf_emailTemplates = default_email_templates, cf_llmMonthlyBudgetMinor = None\<rparr>]
    \<and> users db' = users db @ us
    \<and> map user_view us = map (\<lambda>(m, hash). (tid, tm_email m, hash, tm_name m, tm_role m, True, True))
        (prepared_users lib pwd (sd_teamMembers d))
    \<and> (\<exists>u \<in> set us. u_role u = OWNER) \<and> distinct (map u_email us)
    \<and> price_list_items db' = price_list_items db @ qs
    \<and> map price_view qs = map (\<lambda>p. (tid, pc_code p, pc_description p, to_cents (pc_defaultPrice p), True))
        (first_codes (codes_of tid db) (sd_priceCodes d))
    \<and> job_type_templates db' = job_type_templates db @ rows
    \<and> map job_view rows = map (\<lambda>j. (tid, jd_name j, map_option (\<lambda>s. to_lower (trim s)) (jd_requiredSkill j),
        JArr (map field_json (jd_fields j)), JArr (map check_json (jd_defaultChecklist j)), True)) (sd_jobTypes d)
    \<and> outbox_events db' = outbox_events db @ evs
    \<and> map (\<lambda>ev. (ob_tenantId ev, ob_eventName ev, ob_payload ev)) evs
        = map (\<lambda>m. (tid, ''user.invited'', JObj [(''email'', JStr (tm_email m)), (''name'', JStr (tm_name m)),
             (''role'', JStr (role_name (tm_role m))), (''subdomain'', JStr (fr_subdomain r)), (''reason'', JStr ''onboarding_finalize'')]))
            (sd_teamMembers d)
    \<and> others tid db' = others tid db
    \<and> find_session s' sid = Some (x\<lparr>os_status := Finalized, os_resultTenantId := Some tid, os_finalizedAt := Some (now e),
        os_expiresAt := now e, os_version := os_version x + 1\<rparr>)"
proof -
  obtain d c where k: "finalize_check cfg e sid secret s = Inr (d, c)"
    and b: "finalize_build lib e pwd bytes tid sid d c (s, db) = (Inr r, (s', db'))" by (rule finalize_ok [OF assms])
  obtain x where x: "find_session s sid = Some x" "os_status x = Ready_To_Finalize" "d = read_draft cfg x" "sd_companyInfo d = Some c"
    "\<exists>m \<in> set (sd_teamMembers d). tm_role m = OWNER" "distinct (map tm_email (sd_teamMembers d))"
    by (rule finalize_check_ok [OF k])
  note g = create_tenant_graph_ok [OF finalize_build_ok(3) [OF b]]
  from g(2) obtain us qs rows evs n where d: "db' = db\<lparr>tenants := tenants db @ [graph_tenant e tid (fr_subdomain r) c],
       tenant_configs := tenant_configs db @ [graph_config tid (default_modules_for_vertical (co_vertical c))],
       users := users db @ us, price_list_items := price_list_items db @ qs,
       job_type_templates := job_type_templates db @ rows, outbox_events := outbox_events db @ evs, id_ctr := n\<rparr>"
    and u: "list_all2 (\<lambda>p u. u = graph_user e tid p (u_id u)) (prepared_users lib pwd (sd_teamMembers d)) us"
    and p: "list_all2 (\<lambda>p q. q = graph_price tid p (pl_id q)) (first_codes (codes_of tid db) (sd_priceCodes d)) qs"
    and j: "list_all2 (\<lambda>j r. r = graph_job e tid j (jt_id r)) (sd_jobTypes d) rows"
    and v: "map (\<lambda>ev. (ob_tenantId ev, ob_eventName ev, ob_payload ev)) evs
         = map (\<lambda>p. (tid, ''user.invited'', invite_payload (fr_subdomain r) (fst p))) (prepared_users lib pwd (sd_teamMembers d))"
    unfolding graph_built_def by blast
  note w = graph_users_view [OF u]
  from w have w': "map user_view us = map (\<lambda>(m, hash). (tid, tm_email m, hash, tm_name m, tm_role m, True, True))
      (prepared_users lib pwd (sd_teamMembers d))" by (simp add: case_prod_unfold)
  from arg_cong [OF w, of "map (\<lambda>(t, em, h, nm, rl, a, mc). em)"] x(6) have ds: "distinct (map u_email us)"
    by (simp add: user_view_def o_def map_prepared)
  from arg_cong [OF w, of "map (\<lambda>(t, em, h, nm, rl, a, mc). rl)"] have "map u_role us = map tm_role (sd_teamMembers d)"
    by (simp add: user_view_def o_def map_prepared)
  from arg_cong [OF this, of set] x(5) have ow: "\<exists>u \<in> set us. u_role u = OWNER" by (metis imageE imageI list.set_map)
  from v have v': "map (\<lambda>ev. (ob_tenantId ev, ob_eventName ev, ob_payload ev)) evs
         = map (\<lambda>m. (tid, ''user.invited'', invite_payload (fr_subdomain r) m)) (sd_teamMembers d)"
    by (simp add: map_prepared [of "\<lambda>m. (tid, ''user.invited'', invite_payload (fr_subdomain r) m)"])
  have f: "find_session s' sid = Some (x\<lparr>os_status := Finalized, os_resultTenantId := Some tid, os_finalizedAt := Some (now e),
        os_expiresAt := now e, os_version := os_version x + 1\<rparr>)"
    using x(1,2) found_id [OF x(1)] by (simp add: finalize_build_ok(4) [OF b] find_close)
  have tc: "tenants db' = tenants db @ [graph_tenant e tid (fr_subdomain r) c]"
    "tenant_configs db' = tenant_configs db @ [graph_config tid (default_modules_for_vertical (co_vertical c))]"
    "users db' = users db @ us" "price_list_items db' = price_list_items db @ qs"
    "job_type_templates db' = job_type_templates db @ rows" "outbox_events db' = outbox_events db @ evs"
    by (simp_all add: d)
  have tn: "tenants db' = tenants db @ [\<lparr>tn_id = tid, tn_name = co_legalName c, tn_vertical = co_vertical c,
        tn_subdomain = fr_subdomain r, tn_isActive = True, tn_createdAt = now e\<rparr>]" by (simp add: tc(1) graph_tenant_def)
  have cf: "tenant_configs db' = tenant_configs db @ [\<lparr>cf_tenantId = tid,
        cf_enabledModules = JArr (map JStr (if co_vertical c = RETAIL then [''intake'', ''inventory'', ''invoicing'', ''comms'']
          else [''intake'', ''scheduling'', ''inventory'', ''invoicing'', ''comms''])), cf_theme = default_theme,
        cf_schedulingWeights = (if co_vertical c = RETAIL then None else Some default_weights_json),
        cf_emailTemplates = default_email_templates, cf_llmMonthlyBudgetMinor = None\<rparr>]"
    by (simp add: tc(2) graph_config_def default_modules_for_vertical_def)
  show ?thesis
    by (rule exI [of _ x], rule exI [of _ d], rule exI [of _ c], rule exI [of _ us], rule exI [of _ qs],
        rule exI [of _ rows], rule exI [of _ evs], intro conjI)
      (fact x tn cf tc w' ow ds f g(3) graph_prices_view [OF p] graph_jobs_view [OF j] v' [unfolded invite_payload_def])+
qed

section \<open>The address of a new business\<close>

definition sub_char :: "char \<Rightarrow> bool" where
  "sub_char c \<longleftrightarrow> label_char c \<or> c = CHR ''-''"

text \<open>The slugs: no dash at either end, and no leading digit.\<close>

definition slug_ok :: "string \<Rightarrow> bool" where
  "slug_ok s \<longleftrightarrow> s \<noteq> [] \<and> length s \<le> 60 \<and> is_lower (hd s) \<and> label_char (last s) \<and> list_all sub_char s"

lemma hex_label: "c \<in> set (hex_encode s) \<Longrightarrow> label_char c"
  using hex_encode_chars [of c s] by (auto simp: label_char_def)

lemma digits_label: "c \<in> set (show_nat n) \<Longrightarrow> label_char c"
  using show_nat_digits [of n] by (auto simp: label_char_def list_all_iff)

lemma label_not_dash: "label_char c \<Longrightarrow> not_dash c"
  by (auto simp: label_char_def not_dash_def is_digit_def is_lower_def)

lemma slug_dashes_chars: "list_all sub_char (slug_dashes r s)"
  by (induction r s rule: slug_dashes.induct) (simp_all add: sub_char_def)

lemma slug_char_cases: "sub_char c \<Longrightarrow> not_dash c \<Longrightarrow> label_char c"
  by (auto simp: sub_char_def not_dash_def)

lemma drop_last_dashes_last: "drop_last_dashes s \<noteq> [] \<Longrightarrow> not_dash (last (drop_last_dashes s))"
  unfolding drop_last_dashes_def by (metis hd_dropWhile last_rev rev_is_Nil_conv)

lemma drop_last_dashes_prefix: "\<exists>t. s = drop_last_dashes s @ t"
  unfolding drop_last_dashes_def by (metis rev_append rev_rev_ident takeWhile_dropWhile_id)

lemma slug_text_facts:
  assumes "slug_text inp \<noteq> []"
  shows "list_all sub_char (slug_text inp)" and "label_char (hd (slug_text inp))" and "label_char (last (slug_text inp))"
    and "length (slug_text inp) \<le> 40"
proof -
  define a where "a = dropWhile (\<lambda>c. \<not> not_dash c) (slug_dashes False (filter (\<lambda>c. (of_char c :: nat) < 128) (to_lower inp)))"
  have s: "slug_text inp = drop_last_dashes (take max_label_length (drop_last_dashes a))" by (simp add: slug_text_def a_def)
  obtain t1 where t1: "a = drop_last_dashes a @ t1" using drop_last_dashes_prefix by blast
  obtain t2 where t2: "take max_label_length (drop_last_dashes a) = slug_text inp @ t2" unfolding s using drop_last_dashes_prefix by blast
  have pre: "a = slug_text inp @ t2 @ drop max_label_length (drop_last_dashes a) @ t1"
    using t1 t2 by (metis append.assoc append_take_drop_id)
  have "list_all sub_char a"
    unfolding a_def using slug_dashes_chars by (auto simp: list_all_iff dest: set_dropWhileD)
  then show l: "list_all sub_char (slug_text inp)" by (subst (asm) pre) simp
  have "a \<noteq> []" using pre assms by auto
  then have "not_dash (hd a)" unfolding a_def using hd_dropWhile by blast
  moreover have "hd a = hd (slug_text inp)" using pre assms by (metis hd_append2)
  ultimately show "label_char (hd (slug_text inp))" using l assms by (metis slug_char_cases list.set_sel(1) list_all_iff)
  have "not_dash (last (slug_text inp))" using assms drop_last_dashes_last unfolding s by blast
  then show "label_char (last (slug_text inp))" using l assms by (metis slug_char_cases last_in_set list_all_iff)
  have "length (slug_text inp) \<le> length (take max_label_length (drop_last_dashes a))" using t2 by simp
  then show "length (slug_text inp) \<le> 40" by (simp add: max_label_length_def)
qed

lemma random_suffix_facts:
  assumes "length bytes = 4"
  shows "random_suffix bytes \<noteq> []" and "list_all label_char (random_suffix bytes)" and "length (random_suffix bytes) \<le> 6"
  using assms hex_label by (auto simp: random_suffix_def list_all_iff dest: in_set_takeD)

lemma slug_ok_append:
  assumes "s \<noteq> []" and "is_lower (hd s)" and "list_all sub_char s" and "t \<noteq> []" and "list_all label_char t" and "length s + length t \<le> 60"
  shows "slug_ok (s @ t)"
  using assms by (auto simp: slug_ok_def list_all_iff sub_char_def)

lemma slugify_ok:
  assumes "length bytes = 4"
  shows "slug_ok (slugify bytes inp)" and "length (slugify bytes inp) \<le> 47"
proof -
  note r = random_suffix_facts [OF assms]
  have "slug_ok (slugify bytes inp) \<and> length (slugify bytes inp) \<le> 47"
  proof (cases "slug_text inp = [] \<or> length (slug_text inp) < min_label_length \<or> is_digit (hd (slug_text inp))")
    case True
    have "slug_ok (''co-'' @ random_suffix bytes)"
      by (rule slug_ok_append) (use r in \<open>simp_all add: sub_char_def label_char_def is_lower_def\<close>)
    with True r(3) show ?thesis by (auto simp: slugify_def Let_def)
  next
    case False
    then have n: "slug_text inp \<noteq> []" "\<not> is_digit (hd (slug_text inp))" by auto
    note f = slug_text_facts [OF n(1)]
    from f(2) n(2) have h: "is_lower (hd (slug_text inp))" by (simp add: label_char_def)
    have "slug_ok (slug_text inp)" using n(1) f h by (simp add: slug_ok_def)
    moreover have "slug_ok ((slug_text inp @ ''-'') @ random_suffix bytes)"
      by (rule slug_ok_append) (use n(1) f h r in \<open>simp_all add: sub_char_def\<close>)
    ultimately show ?thesis using False r(3) f(4) by (auto simp: slugify_def Let_def)
  qed
  then show "slug_ok (slugify bytes inp)" "length (slugify bytes inp) \<le> 47" by auto
qed

lemma candidates_ok:
  assumes "length bytes = 4" and "x \<in> set (candidates (slugify bytes inp))"
  shows "slug_ok x"
proof -
  note b = slugify_ok [OF assms(1), of inp]
  have n: "length (show_nat i) \<le> 2" if "i < 50" for i
  proof -
    from that have "i div 10 < 10" by simp
    then show ?thesis by (simp add: show_nat.simps [of i] show_nat.simps [of "i div 10"])
  qed
  have "slug_ok ((slugify bytes inp @ ''-'') @ show_nat i)" if "i < 50" for i
    by (rule slug_ok_append)
      (use b n [OF that] digits_label in \<open>auto simp: slug_ok_def sub_char_def list_all_iff\<close>)
  with assms(2) b(1) show ?thesis by (auto simp: candidates_def)
qed

lemma reserved_covered: "set reserved \<subseteq> set reserved_subdomains"
  by (simp add: reserved_def reserved_subdomains_def)

lemma generated_subdomain:
  assumes "length bytes = 4" and "generate_unique_subdomain bytes nm db = Inr sub"
  shows "slug_ok sub" and "sub \<notin> set reserved" and "resolve_tenant_by_subdomain db sub = None"
proof -
  from assms(2) have f: "List.find (\<lambda>c. \<not> is_reserved_subdomain c \<and> resolve_tenant_by_subdomain db c = None) (candidates (slugify bytes nm)) = Some sub"
    by (auto simp: generate_unique_subdomain_def split: option.splits)
  from find_SomeD [OF f] have m: "sub \<in> set (candidates (slugify bytes nm))" "\<not> is_reserved_subdomain sub" "resolve_tenant_by_subdomain db sub = None"
    by auto
  show "slug_ok sub" by (rule candidates_ok [OF assms(1) m(1)])
  show "sub \<notin> set reserved" using m(2) reserved_covered by (auto simp: is_reserved_subdomain_def)
  show "resolve_tenant_by_subdomain db sub = None" by (rule m(3))
qed

lemma slug_char_plain: "sub_char c \<Longrightarrow> \<not> is_ws c \<and> lower_char c = c \<and> c \<noteq> CHR '':'' \<and> c \<noteq> CHR ''.''"
  by (auto simp: sub_char_def label_char_def is_digit_def is_lower_def is_ws_def lower_char_def)

lemma slug_is_label: "slug_ok s \<Longrightarrow> is_label s"
  by (auto simp: slug_ok_def is_label_def label_char_def sub_char_def [abs_def])

text \<open>The base domain is the configured one: lower case, without a port.\<close>

definition plain_domain :: "string \<Rightarrow> bool" where
  "plain_domain base \<longleftrightarrow> base \<noteq> [] \<and> list_all (\<lambda>c. \<not> is_ws c \<and> lower_char c = c \<and> c \<noteq> CHR '':'') base"

lemma slug_host:
  assumes "slug_ok sub" and "sub \<notin> set reserved" and "plain_domain base"
  shows "extract_subdomain base (sub @ CHR ''.'' # base) = Some sub"
proof -
  let ?h = "sub @ CHR ''.'' # base"
  have c: "\<forall>c \<in> set ?h. \<not> is_ws c \<and> lower_char c = c \<and> c \<noteq> CHR '':''"
    using assms(1,3) slug_char_plain
    by (auto simp: slug_ok_def plain_domain_def list_all_iff is_ws_def lower_char_def)
  then have "split_on CHR '':'' ?h = [?h]" by (intro split_on_no_sep) blast
  moreover have "to_lower ?h = ?h" using c unfolding to_lower_def by (intro map_idI) blast
  moreover have "trim ?h = ?h" using c by (intro trim_no_ws) (auto simp: list_all_iff)
  ultimately have host: "trim (to_lower (hd (split_on CHR '':'' ?h))) = ?h" by simp
  have d: "CHR ''.'' \<notin> set sub" "sub \<noteq> []" using assms(1) slug_char_plain by (auto simp: slug_ok_def list_all_iff)
  from assms(1) d obtain a t where a: "sub = a # t" "is_lower a" by (cases sub) (auto simp: slug_ok_def)
  have "?h \<noteq> ''127.0.0.1''" "?h \<noteq> ''[::1]''" using a by (auto simp: is_lower_def)
  moreover have "?h \<noteq> ''localhost''"
  proof
    assume "?h = ''localhost''"
    then have "CHR ''.'' \<in> set ''localhost''" by (metis in_set_conv_decomp)
    then show False by simp
  qed
  moreover have "?h \<noteq> base"
  proof
    assume "?h = base"
    from arg_cong [OF this, of length] show False by simp
  qed
  moreover have "ends_with (CHR ''.'' # base) ?h" by (simp add: ends_with_def)
  ultimately show ?thesis
    using assms(2) d by (simp add: extract_subdomain_def host)
qed

lemma find_snoc: "(\<And>x. x \<in> set xs \<Longrightarrow> \<not> P x) \<Longrightarrow> P y \<Longrightarrow> List.find P (xs @ [y]) = Some y"
  by (induction xs) auto

text \<open>C9. The subdomain chosen for a new business is a valid host label that was free and is not
  reserved, and requests to that host reach exactly the new tenant.\<close>
theorem onboarded_tenant_is_reachable:
  assumes "finalize cfg lib e pwd bytes tid sid secret (s, db) = (Inr r, (s', db'))" and "length bytes = 4" and "plain_domain base"
  shows "tenant_of_request base \<lparr>rq_host = Some (fr_subdomain r @ CHR ''.'' # base), rq_xTenant = x\<rparr> db' = Inr (Some tid)
    \<and> is_label (fr_subdomain r) \<and> fr_subdomain r \<notin> set reserved \<and> resolve_tenant_by_subdomain db (fr_subdomain r) = None"
proof -
  obtain d c where b: "finalize_build lib e pwd bytes tid sid d c (s, db) = (Inr r, (s', db'))" by (rule finalize_ok [OF assms(1)])
  note g = create_tenant_graph_ok [OF finalize_build_ok(3) [OF b]]
  note n = generated_subdomain [OF assms(2) finalize_build_ok(1) [OF b]]
  from g(2) have t: "tenants db' = tenants db @ [graph_tenant e tid (fr_subdomain r) c]" by (auto simp: graph_built_def)
  have "List.find (\<lambda>t. tn_subdomain t = fr_subdomain r \<and> tn_isActive t) (tenants db') = Some (graph_tenant e tid (fr_subdomain r) c)"
    unfolding t by (rule find_snoc) (use g(4) in \<open>auto simp: graph_tenant_def\<close>)
  then have "resolve_tenant_by_subdomain db' (fr_subdomain r) = Some tid"
    by (simp add: resolve_tenant_by_subdomain_def graph_tenant_def)
  moreover have "tid \<noteq> []" using g(1) by (auto simp: is_uuid_def)
  ultimately show ?thesis
    using slug_host [OF n(1,2) assms(3)] n(1,2,3) slug_is_label
    by (simp add: tenant_of_request_def resolve_subdomain_def)
qed

section \<open>Nobody can log in\<close>

lemma graph_users:
  assumes "finalize cfg lib e pwd bytes tid sid secret (s, db) = (Inr r, (s', db'))" and "u \<in> set (users db')" and "u \<notin> set (users db)"
  shows "u_tenantId u = tid \<and> (\<exists>i < length (fr_users r). u_passwordHash u = cx_hash lib (pwd i))"
proof -
  obtain d c where b: "finalize_build lib e pwd bytes tid sid d c (s, db) = (Inr r, (s', db'))" by (rule finalize_ok [OF assms(1)])
  note g = create_tenant_graph_ok [OF finalize_build_ok(3) [OF b]]
  from g(2) obtain us where u: "list_all2 (\<lambda>p u. u = graph_user e tid p (u_id u)) (prepared_users lib pwd (sd_teamMembers d)) us"
    "users db' = users db @ us" by (auto simp: graph_built_def)
  from arg_cong [OF graph_users_view [OF u(1)], of set] u(2) assms(2,3)
  obtain p where "p \<in> set (prepared_users lib pwd (sd_teamMembers d))" "user_view u = (tid, tm_email (fst p), snd p, tm_name (fst p), tm_role (fst p), True, True)"
    by (metis (no_types, lifting) UnE imageE imageI list.set_map set_append)
  moreover have "length (fr_users r) = length (sd_teamMembers d)"
    using b by (auto simp: finalize_build_def split: sum.splits prod.splits)
  ultimately show ?thesis using prepared_hashes [of p lib pwd "sd_teamMembers d"] by (auto simp: user_view_def)
qed

lemma invited_events:
  assumes "finalize cfg lib e pwd bytes tid sid secret (s, db) = (Inr r, (s', db'))" and "ev \<in> set (outbox_events db')" and "ev \<notin> set (outbox_events db)"
  shows "ob_eventName ev = ''user.invited''"
proof -
  obtain d c where b: "finalize_build lib e pwd bytes tid sid d c (s, db) = (Inr r, (s', db'))" by (rule finalize_ok [OF assms(1)])
  from create_tenant_graph_ok(2) [OF finalize_build_ok(3) [OF b]] obtain evs where
    v: "map (\<lambda>ev. (ob_tenantId ev, ob_eventName ev, ob_payload ev)) evs
         = map (\<lambda>p. (tid, ''user.invited'', invite_payload (fr_subdomain r) (fst p))) (prepared_users lib pwd (sd_teamMembers d))"
    "outbox_events db' = outbox_events db @ evs" by (auto simp: graph_built_def)
  from arg_cong [OF v(1), of "\<lambda>xs. (fst \<circ> snd) ` set xs"] v(2) assms(2,3) show ?thesis
    by (auto simp: image_image)
qed


section \<open>Finalizing again\<close>

lemma sent_later:
  assumes "finalize cfg lib e pwd bytes tid sid secret (s, db) = (Inr r, (s', db'))" and "now e \<le> now e2"
  shows "\<exists>m. finalize_check cfg e2 sid secret2 s' = Inl (Forbidden m)"
proof -
  obtain d c where k: "finalize_check cfg e sid secret s = Inr (d, c)"
    and b: "finalize_build lib e pwd bytes tid sid d c (s, db) = (Inr r, (s', db'))" by (rule finalize_ok [OF assms(1)])
  obtain x where x: "find_session s sid = Some x" "os_status x = Ready_To_Finalize" by (rule finalize_check_ok [OF k])
  have f: "\<exists>y. find_session s' sid = Some y \<and> os_expiresAt y = now e"
    using x found_id [OF x(1)] by (simp add: finalize_build_ok(4) [OF b] find_close)
  then show ?thesis using assms(2) by (auto simp: finalize_check_def validate_session_def)
qed

theorem finalized_session_is_closed:
  assumes "finalize cfg lib e pwd bytes tid sid secret (s, db) = (Inr r, (s', db'))" and "now e \<le> now e2"
  shows "\<exists>m. finalize cfg lib e2 pwd2 bytes2 tid2 sid secret2 (s', db2) = (Inl (Forbidden m), (s', db2))"
proof -
  from sent_later [OF assms] obtain m where "finalize_check cfg e2 sid secret2 s' = Inl (Forbidden m)" by blast
  then show ?thesis by (simp add: finalize_def)
qed

theorem concurrent_finalize_leaves_an_orphan:
  assumes "finalize_check cfg e sid secret s = Inr (d, c)"
    and "finalize_build lib e pwd bytes tid sid d c (s, db) = (Inr r1, (s1, db1))"
    and "finalize_build lib e2 pwd2 bytes2 tid2 sid d c (s1, db1) = (Inr r2, (s2, db2))"
  shows "tenants db2 = tenants db @ [graph_tenant e tid (fr_subdomain r1) c, graph_tenant e2 tid2 (fr_subdomain r2) c]
    \<and> tid \<noteq> tid2 \<and> fr_subdomain r1 \<noteq> fr_subdomain r2
    \<and> (\<exists>x. find_session s2 sid = Some x \<and> os_status x = Finalized \<and> os_resultTenantId x = Some tid)"
proof -
  obtain x where x: "find_session s sid = Some x" "os_status x = Ready_To_Finalize" by (rule finalize_check_ok [OF assms(1)])
  note g1 = create_tenant_graph_ok [OF finalize_build_ok(3) [OF assms(2)]]
  note g2 = create_tenant_graph_ok [OF finalize_build_ok(3) [OF assms(3)]]
  from g1(2) have t1: "tenants db1 = tenants db @ [graph_tenant e tid (fr_subdomain r1) c]" by (auto simp: graph_built_def)
  from g2(2) have t2: "tenants db2 = tenants db1 @ [graph_tenant e2 tid2 (fr_subdomain r2) c]" by (auto simp: graph_built_def)
  have "graph_tenant e tid (fr_subdomain r1) c \<in> set (tenants db1)" by (simp add: t1)
  from g2(4) [OF this] have "tid \<noteq> tid2" "fr_subdomain r1 \<noteq> fr_subdomain r2" by (auto simp: graph_tenant_def)
  moreover have "\<exists>x. find_session s2 sid = Some x \<and> os_status x = Finalized \<and> os_resultTenantId x = Some tid"
    using x found_id [OF x(1)] by (simp add: finalize_build_ok(4) [OF assms(3)] finalize_build_ok(4) [OF assms(2)] find_close)
  ultimately show ?thesis by (simp add: t1 t2)
qed

section \<open>A concrete business\<close>

definition demo_company :: company_info where
  "demo_company = \<lparr>co_legalName = ''API'', co_businessId = ''123456789'', co_vertical = RETAIL, co_contactEmail = ''dana@x.co''\<rparr>"

definition demo_member :: team_member where
  "demo_member = \<lparr>tm_name = ''Dana'', tm_email = ''dana@x.co'', tm_role = OWNER\<rparr>"

definition demo_price :: price_code where
  "demo_price = \<lparr>pc_code = ''F1'', pc_description = ''Filter'', pc_defaultPrice = 25 / 2\<rparr>"

definition demo_details :: session_draft where
  "demo_details = empty_draft\<lparr>sd_companyInfo := Some demo_company, sd_teamMembers := [demo_member], sd_priceCodes := [demo_price]\<rparr>"

definition ready_session :: onboarding_session where
  "ready_session = write_turn 0 [] \<lparr>tu_draft = demo_details, tu_ready = True, tu_callsUsed = 0, tu_finalText = []\<rparr>
     (new_session demo_onboarding demo_env ''s1'' ''secret'')"

definition demo_ready :: onb where
  "demo_ready = \<lparr>ob_sessions = [ready_session], ob_documents = [], ob_ctr = 1\<rparr>"

lemma demo_details_ok: "draft_ok (oc_isEmail demo_onboarding) demo_details"
proof -
  have "company_ok (oc_isEmail demo_onboarding) demo_company" by code_simp
  moreover have "member_ok (oc_isEmail demo_onboarding) demo_member" by code_simp
  moreover have "price_ok demo_price" by code_simp
  ultimately show ?thesis by (simp add: draft_ok_def demo_details_def empty_draft_def)
qed

lemma ready_draft: "read_draft demo_onboarding ready_session = demo_details"
proof -
  let ?t = "\<lparr>tu_draft = demo_details, tu_ready = True, tu_callsUsed = 0, tu_finalText = []\<rparr>"
  have "draft_ok (oc_isEmail demo_onboarding) (tu_draft ?t)" by (simp add: demo_details_ok)
  from written_draft [OF this] show ?thesis by (simp add: ready_session_def demo_details_def)
qed

lemma ready_fields: "os_id ready_session = ''s1''" "os_status ready_session = Ready_To_Finalize"
    "hex_decode (os_sessionSecretHash ready_session) = ''secret''" "os_expiresAt ready_session = 5000 + 72 * 3600000"
  by (simp_all add: ready_session_def write_turn_def new_session_def demo_onboarding_def demo_env_def)

lemma demo_check: "finalize_check demo_onboarding demo_env ''s1'' ''secret'' demo_ready = Inr (demo_details, demo_company)"
proof -
  have "find_session demo_ready ''s1'' = Some ready_session" by (simp add: demo_ready_def find_session_def ready_fields)
  moreover have "oc_hash demo_onboarding ''secret'' = ''secret''" "now demo_env = 5000" by (simp_all add: demo_onboarding_def demo_env_def)
  ultimately have "validate_session demo_onboarding demo_env ''s1'' ''secret'' demo_ready = Inr (ready_session, demo_details)"
    by (simp add: validate_session_def ready_fields ready_draft)
  then show ?thesis by (simp add: finalize_check_def ready_fields demo_details_def demo_member_def)
qed

lemma one_member_graph:
  assumes "is_uuid tid" and "\<forall>t \<in> set (tenants db). tn_subdomain t \<noteq> sub \<and> tn_id t \<noteq> tid" and "\<forall>u \<in> set (users db). u_tenantId u \<noteq> tid"
  shows "\<exists>db'. create_tenant_graph e tid sub c [p] prices_in [] db = (Inr (), db')"
  using assms
  by (auto simp: create_tenant_graph_def for_tenant_def create_tenant_graph_tx_def users_create_many_def Let_def list_ex_iff
      split: sum.splits prod.splits)

definition demo_bytes :: string where
  "demo_bytes = ''abcd''"

lemma demo_slug: "slugify demo_bytes ''API'' = ''api-616263''"
  by code_simp

lemma demo_build:
  assumes "is_uuid tid" and "\<forall>t \<in> set (tenants db). tn_id t \<noteq> tid" and "\<forall>u \<in> set (users db). u_tenantId u \<noteq> tid"
    and "generate_unique_subdomain demo_bytes ''API'' db = Inr sub" and "\<forall>t \<in> set (tenants db). tn_subdomain t \<noteq> sub"
  shows "\<exists>r s' db'. finalize_build demo_auth e pwd demo_bytes tid ''s1'' demo_details demo_company (s, db) = (Inr r, (s', db')) \<and> fr_subdomain r = sub"
proof -
  have m: "sd_teamMembers demo_details = [demo_member]" "sd_priceCodes demo_details = [demo_price]" "sd_jobTypes demo_details = []"
    "co_legalName demo_company = ''API''" by (simp_all add: demo_details_def empty_draft_def demo_company_def)
  have p: "prepared_users demo_auth pwd [demo_member] = [(demo_member, cx_hash demo_auth (pwd 0))]" by (simp add: prepared_users_def)
  from one_member_graph [of tid db sub e demo_company "(demo_member, cx_hash demo_auth (pwd 0))" "[demo_price]"] assms
  obtain db' where g: "create_tenant_graph e tid sub demo_company [(demo_member, cx_hash demo_auth (pwd 0))] [demo_price] [] db = (Inr (), db')" by auto
  show ?thesis unfolding finalize_build_def by (simp add: m p g assms(4))
qed

lemma demo_free: "generate_unique_subdomain demo_bytes ''API'' empty_db = Inr ''api-616263''"
  by (simp add: generate_unique_subdomain_def demo_slug candidates_def is_reserved_subdomain_def reserved_subdomains_def
      resolve_tenant_by_subdomain_def empty_db_def)

lemma demo_first:
  "\<exists>r s' db'. finalize_build demo_auth demo_env pwd demo_bytes demo_tenant ''s1'' demo_details demo_company (demo_ready, empty_db)
     = (Inr r, (s', db')) \<and> fr_subdomain r = ''api-616263''"
  by (rule demo_build [OF demo_tenant_uuid _ _ demo_free]) (simp_all add: empty_db_def)

lemma demo_finalized:
  "\<exists>r s' db'. finalize demo_onboarding demo_auth demo_env pwd demo_bytes demo_tenant ''s1'' ''secret'' (demo_ready, empty_db)
     = (Inr r, (s', db')) \<and> fr_subdomain r = ''api-616263''"
  using demo_first by (simp add: finalize_def demo_check)

theorem finalize_builds_the_tenant_witness:
  "\<exists>r s' db'. finalize demo_onboarding demo_auth demo_env (\<lambda>_. ''x'') demo_bytes demo_tenant ''s1'' ''secret'' (demo_ready, empty_db)
      = (Inr r, (s', db')) \<and> map user_view (users db') = [(demo_tenant, ''dana@x.co'', cx_hash demo_auth ''x'', ''Dana'', OWNER, True, True)]
    \<and> map price_view (price_list_items db') = [(demo_tenant, ''F1'', ''Filter'', 1250, True)]"
proof -
  obtain r s' db' where f: "finalize demo_onboarding demo_auth demo_env (\<lambda>_. ''x'') demo_bytes demo_tenant ''s1'' ''secret'' (demo_ready, empty_db)
      = (Inr r, (s', db'))" using demo_finalized by blast
  have s: "find_session demo_ready ''s1'' = Some ready_session" by (simp add: demo_ready_def find_session_def ready_fields)
  have d: "sd_teamMembers demo_details = [demo_member]" "sd_priceCodes demo_details = [demo_price]"
    by (simp_all add: demo_details_def empty_draft_def)
  have e: "users empty_db = []" "price_list_items empty_db = []" "codes_of demo_tenant empty_db = {}"
    by (simp_all add: empty_db_def codes_of_def)
  have c: "to_cents (pc_defaultPrice demo_price) = 1250" by code_simp
  have p: "prepared_users demo_auth (\<lambda>_. ''x'') [demo_member] = [(demo_member, cx_hash demo_auth ''x'')]" by (simp add: prepared_users_def)
  from finalize_builds_the_tenant [OF f] obtain x us qs where x: "find_session demo_ready ''s1'' = Some x"
    "users db' = users empty_db @ us" "price_list_items db' = price_list_items empty_db @ qs"
    "map user_view us = map (\<lambda>(m, hash). (demo_tenant, tm_email m, hash, tm_name m, tm_role m, True, True))
        (prepared_users demo_auth (\<lambda>_. ''x'') (sd_teamMembers (read_draft demo_onboarding x)))"
    "map price_view qs = map (\<lambda>p. (demo_tenant, pc_code p, pc_description p, to_cents (pc_defaultPrice p), True))
        (first_codes (codes_of demo_tenant empty_db) (sd_priceCodes (read_draft demo_onboarding x)))"
    by (elim exE conjE) (rule that, simp_all)
  from x(1) s have "read_draft demo_onboarding x = demo_details" by (simp add: ready_draft)
  with x(2-5) have "map user_view (users db') = [(demo_tenant, tm_email demo_member, cx_hash demo_auth ''x'', tm_name demo_member, tm_role demo_member, True, True)]"
    "map price_view (price_list_items db') = [(demo_tenant, pc_code demo_price, pc_description demo_price, to_cents (pc_defaultPrice demo_price), True)]"
    by (simp_all add: d e p)
  then have "map user_view (users db') = [(demo_tenant, ''dana@x.co'', cx_hash demo_auth ''x'', ''Dana'', OWNER, True, True)]"
    "map price_view (price_list_items db') = [(demo_tenant, ''F1'', ''Filter'', 1250, True)]"
    unfolding c by (simp_all add: demo_member_def demo_price_def)
  then show ?thesis by (intro exI conjI) (rule f)
qed

theorem onboarded_tenant_is_reachable_witness:
  "\<exists>r s' db'. finalize demo_onboarding demo_auth demo_env (\<lambda>_. ''x'') demo_bytes demo_tenant ''s1'' ''secret'' (demo_ready, empty_db)
      = (Inr r, (s', db'))
    \<and> tenant_of_request ''x.co'' \<lparr>rq_host = Some ''api-616263.x.co'', rq_xTenant = None\<rparr> db' = Inr (Some demo_tenant)"
proof -
  obtain r s' db' where f: "finalize demo_onboarding demo_auth demo_env (\<lambda>_. ''x'') demo_bytes demo_tenant ''s1'' ''secret'' (demo_ready, empty_db)
      = (Inr r, (s', db'))" "fr_subdomain r = ''api-616263''" using demo_finalized by blast
  have b: "length demo_bytes = 4" "plain_domain ''x.co''" by (simp_all add: demo_bytes_def plain_domain_def is_ws_def lower_char_def)
  from onboarded_tenant_is_reachable [OF f(1) b, of None] f show ?thesis by auto
qed


theorem finalized_session_is_closed_witness:
  "\<exists>s' db' m. finalize demo_onboarding demo_auth demo_env (\<lambda>_. ''x'') demo_bytes demo_tenant ''s1'' ''secret'' (s', db') = (Inl (Forbidden m), (s', db'))"
proof -
  obtain r s' db' where f: "finalize demo_onboarding demo_auth demo_env (\<lambda>_. ''x'') demo_bytes demo_tenant ''s1'' ''secret'' (demo_ready, empty_db)
      = (Inr r, (s', db'))" using demo_finalized by blast
  from finalized_session_is_closed [OF f, of demo_env] show ?thesis by blast
qed

definition other_tenant_id :: string where
  "other_tenant_id = ''99999999-2222-3333-4444-555555555555''"

theorem concurrent_finalize_leaves_an_orphan_witness:
  "\<exists>(db2 :: db) (s2 :: onb) (x :: onboarding_session). map tn_id (tenants db2) = [demo_tenant, other_tenant_id]
     \<and> find_session s2 ''s1'' = Some x \<and> os_resultTenantId x = Some demo_tenant"
proof -
  obtain r s' db' where f: "finalize_build demo_auth demo_env (\<lambda>_. ''x'') demo_bytes demo_tenant ''s1'' demo_details demo_company (demo_ready, empty_db)
     = (Inr r, (s', db'))" "fr_subdomain r = ''api-616263''" using demo_first by blast
  from create_tenant_graph_ok(2) [OF finalize_build_ok(3) [OF f(1)]] f(2) obtain us where
    d: "tenants db' = [graph_tenant demo_env demo_tenant ''api-616263'' demo_company]" "users db' = us"
    "list_all2 (\<lambda>p u. u = graph_user demo_env demo_tenant p (u_id u)) (prepared_users demo_auth (\<lambda>_. ''x'') (sd_teamMembers demo_details)) us"
    by (auto simp: graph_built_def empty_db_def)
  have n: "demo_tenant \<noteq> other_tenant_id" by (simp add: demo_tenant_def other_tenant_id_def)
  have u: "is_uuid other_tenant_id" and one: "show_nat (Suc 0) = ''1''" by code_simp+
  have g: "generate_unique_subdomain demo_bytes ''API'' db' = Inr ''api-616263-1''"
    by (simp add: generate_unique_subdomain_def demo_slug candidates_def is_reserved_subdomain_def reserved_subdomains_def
        resolve_tenant_by_subdomain_def d(1) graph_tenant_def upt_conv_Cons one)
  have "\<exists>r2 s2 db2. finalize_build demo_auth demo_env (\<lambda>_. ''y'') demo_bytes other_tenant_id ''s1'' demo_details demo_company (s', db')
      = (Inr r2, (s2, db2)) \<and> fr_subdomain r2 = ''api-616263-1''"
    by (rule demo_build [OF u _ _ g]) (use d n graph_users_tenant [OF d(3)] in \<open>auto simp: graph_tenant_def\<close>)
  then obtain r2 s2 db2 where h: "finalize_build demo_auth demo_env (\<lambda>_. ''y'') demo_bytes other_tenant_id ''s1'' demo_details demo_company (s', db')
      = (Inr r2, (s2, db2))" by blast
  from concurrent_finalize_leaves_an_orphan [OF demo_check f(1) h] obtain x where
    "tenants db2 = [graph_tenant demo_env demo_tenant (fr_subdomain r) demo_company, graph_tenant demo_env other_tenant_id (fr_subdomain r2) demo_company]"
    "find_session s2 ''s1'' = Some x" "os_resultTenantId x = Some demo_tenant" by (auto simp: empty_db_def)
  moreover from this(1) have "map tn_id (tenants db2) = [demo_tenant, other_tenant_id]" by (simp add: graph_tenant_def)
  ultimately show ?thesis by (intro exI [of _ db2] exI [of _ s2] exI [of _ x] conjI)
qed

end
