(* ===== verification/HebrewText.thy ===== *)
theory HebrewText
  imports Main
begin

text \<open>
  The order of mixed Hebrew and Latin text on an invoice (modules/invoicing/hebrew-text.util.ts):
  a line is cut into runs of one direction, which the PDF library places from left to right. A
  text is the list of its code points, as \<open>[...line]\<close> yields them.
\<close>

section \<open>Directions\<close>

type_synonym point = nat

definition in_ranges :: "(point \<times> point) list \<Rightarrow> point \<Rightarrow> bool" where
  "in_ranges rs p \<longleftrightarrow> list_ex (\<lambda>(a, b). a \<le> p \<and> p \<le> b) rs"

definition hebrew_re :: "(point \<times> point) list" where
  "hebrew_re = [(0x0590, 0x05FF), (0xFB1D, 0xFB4F)]"

definition arabic_re :: "(point \<times> point) list" where
  "arabic_re = [(0x0600, 0x06FF), (0x0750, 0x077F), (0xFB50, 0xFDFF), (0xFE70, 0xFEFF)]"

definition latin_re :: "(point \<times> point) list" where
  "latin_re = [(0x41, 0x5A), (0x61, 0x7A), (0xC0, 0x24F)]"

definition digit_re :: "(point \<times> point) list" where
  "digit_re = [(0x30, 0x39), (0x660, 0x669)]"

text \<open>\<open>. , : / - + %\<close>\<close>

definition numeric_glue_re :: "(point \<times> point) list" where
  "numeric_glue_re = [(0x2E, 0x2E), (0x2C, 0x2C), (0x3A, 0x3A), (0x2F, 0x2F), (0x2D, 0x2D), (0x2B, 0x2B), (0x25, 0x25)]"

datatype dir = Dir_R | Dir_L | Dir_N

text \<open>The brackets, the angles and the quotation marks 171 and 187.\<close>

definition mirrored :: "(point \<times> point) list" where
  "mirrored = [(0x28, 0x29), (0x29, 0x28), (0x5B, 0x5D), (0x5D, 0x5B), (0x7B, 0x7D), (0x7D, 0x7B),
     (0x3C, 0x3E), (0x3E, 0x3C), (0xAB, 0xBB), (0xBB, 0xAB)]"

definition classify_point :: "point \<Rightarrow> dir" where
  "classify_point p =
     (if in_ranges hebrew_re p \<or> in_ranges arabic_re p then Dir_R
      else if in_ranges latin_re p \<or> in_ranges digit_re p then Dir_L
      else Dir_N)"

definition contains_rtl :: "point list \<Rightarrow> bool" where
  "contains_rtl s \<longleftrightarrow> list_ex (in_ranges hebrew_re) s \<or> list_ex (in_ranges arabic_re) s"

text \<open>Punctuation between two digits belongs to the number.\<close>

definition glued :: "point list \<Rightarrow> nat \<Rightarrow> bool" where
  "glued chars i \<longleftrightarrow> 1 \<le> i \<and> i + 1 < length chars \<and> classify_point (chars ! i) = Dir_N
     \<and> in_ranges numeric_glue_re (chars ! i)
     \<and> in_ranges digit_re (chars ! (i - 1)) \<and> in_ranges digit_re (chars ! (i + 1))"

definition dir_classes :: "point list \<Rightarrow> dir list" where
  "dir_classes chars = map (\<lambda>i. if glued chars i then Dir_L else classify_point (chars ! i)) [0..<length chars]"

text \<open>The nearest strong direction of a list.\<close>

definition first_strong :: "dir list \<Rightarrow> dir option" where
  "first_strong ds = List.find (\<lambda>d. d \<noteq> Dir_N) ds"

definition resolve_directions :: "point list \<Rightarrow> dir list" where
  "resolve_directions chars =
     (let cs = dir_classes chars
      in map (\<lambda>i. if cs ! i \<noteq> Dir_N then cs ! i
                  else let before = first_strong (rev (take i cs)); after = first_strong (drop (i + 1) cs)
                       in if before \<noteq> None \<and> before = after then the before else Dir_R)
           [0..<length chars])"

section \<open>Runs\<close>

type_synonym run = "dir \<times> point list"

definition glyph_of :: "dir \<Rightarrow> point \<Rightarrow> point" where
  "glyph_of d p = (if d = Dir_R then case map_of mirrored p of Some q \<Rightarrow> q | None \<Rightarrow> p else p)"

definition add_char :: "run list \<Rightarrow> dir \<times> point \<Rightarrow> run list" where
  "add_char runs dp =
     (if runs \<noteq> [] \<and> fst (last runs) = fst dp
      then butlast runs @ [(fst dp, snd (last runs) @ [glyph_of (fst dp) (snd dp)])]
      else runs @ [(fst dp, [glyph_of (fst dp) (snd dp)])])"

definition layout_rtl_runs :: "point list \<Rightarrow> run list" where
  "layout_rtl_runs line = (if line = [] then [] else rev (foldl add_char [] (zip (resolve_directions line) line)))"

fun split_lines :: "point list \<Rightarrow> point list list" where
  "split_lines [] = [[]]"
| "split_lines (p # s) =
     (if p = 0x0A then [] # split_lines s
      else case split_lines s of [] \<Rightarrow> [[p]] | l # ls \<Rightarrow> (p # l) # ls)"

fun join_lines :: "point list list \<Rightarrow> point list" where
  "join_lines [] = []"
| "join_lines [l] = l"
| "join_lines (l # ls) = l @ 0x0A # join_lines ls"

definition visual_line :: "point list \<Rightarrow> point list" where
  "visual_line line = concat (map (\<lambda>(d, t). if d = Dir_R then rev t else t) (layout_rtl_runs line))"

definition to_visual_rtl :: "point list \<Rightarrow> point list" where
  "to_visual_rtl s =
     (if s = [] then [] else if \<not> contains_rtl s then s else join_lines (map visual_line (split_lines s)))"

section \<open>Nothing is lost, and the runs alternate\<close>

lemma length_resolve [simp]: "length (resolve_directions chars) = length chars"
  by (simp add: resolve_directions_def Let_def)

lemma length_classes [simp]: "length (dir_classes chars) = length chars"
  by (simp add: dir_classes_def)

lemma find_strong: "first_strong ds = Some d \<Longrightarrow> d \<noteq> Dir_N"
  unfolding first_strong_def by (induction ds) (auto split: if_splits)

lemma resolved_strong:
  assumes "d \<in> set (resolve_directions chars)"
  shows "d \<noteq> Dir_N"
  using assms by (auto simp: resolve_directions_def Let_def split: if_splits) (metis find_strong option.sel)

lemma resolve_Nil [simp]: "resolve_directions [] = []"
  by (simp add: resolve_directions_def)

text \<open>What a list of runs in logical order keeps of the characters laid out so far.\<close>

definition runs_of :: "run list \<Rightarrow> (dir \<times> point) list \<Rightarrow> bool" where
  "runs_of runs ps \<longleftrightarrow> concat (map snd runs) = map (\<lambda>(d, p). glyph_of d p) ps
     \<and> concat (map (\<lambda>(d, t). replicate (length t) d) runs) = map fst ps
     \<and> (\<forall>r \<in> set runs. snd r \<noteq> []) \<and> successively (\<lambda>r q. fst r \<noteq> fst q) runs"

lemma replicate_snoc: "replicate (Suc n) x = replicate n x @ [x]"
  by (simp add: replicate_append_same)

lemma runs_of_add:
  assumes "runs_of runs p_s"
  shows "runs_of (add_char runs p) (p_s @ [p])"
proof (cases "runs \<noteq> [] \<and> fst (last runs) = fst p")
  case True
  then obtain rs t where r: "runs = rs @ [(fst p, t)]" by (cases runs rule: rev_cases) auto
  then have a: "add_char runs p = rs @ [(fst p, t @ [glyph_of (fst p) (snd p)])]" by (simp add: add_char_def)
  from assms show ?thesis
    unfolding r runs_of_def a [unfolded r]
    by (auto simp: case_prod_beta replicate_snoc successively_append_iff simp del: replicate.simps(2))
next
  case False
  then have a: "add_char runs p = runs @ [(fst p, [glyph_of (fst p) (snd p)])]" by (simp only: add_char_def if_not_P if_False)
  from assms False show ?thesis unfolding a runs_of_def by (auto simp: case_prod_beta successively_append_iff)
qed

lemma runs_of_all: "runs_of runs qs \<Longrightarrow> runs_of (foldl add_char runs ps) (qs @ ps)"
proof (induction ps arbitrary: runs qs)
  case (Cons p ps)
  from Cons.IH [OF runs_of_add [OF Cons.prems, of p]] show ?case by simp
qed simp

lemma layout_logical: "rev (layout_rtl_runs line) = foldl add_char [] (zip (resolve_directions line) line)"
  by (simp add: layout_rtl_runs_def)

lemma layout_runs_of: "runs_of (rev (layout_rtl_runs line)) (zip (resolve_directions line) line)"
  using runs_of_all [of "[]" "[]"] by (simp add: layout_logical runs_of_def)

lemma glyph_back: "map_of mirrored p = Some q \<Longrightarrow> map_of mirrored q = Some p"
  by (auto simp: mirrored_def split: if_splits)

lemma glyph_twice [simp]: "glyph_of d (glyph_of d p) = p"
proof (cases "d = Dir_R \<and> map_of mirrored p \<noteq> None")
  case True
  then obtain q where "map_of mirrored p = Some q" by blast
  with glyph_back [OF this] True show ?thesis by (simp add: glyph_of_def)
qed (auto simp: glyph_of_def)

lemma runs_logical:
  "concat (map (\<lambda>(d, t). map (glyph_of d) t) rs)
   = map (\<lambda>(d, p). glyph_of d p) (zip (concat (map (\<lambda>(d, t). replicate (length t) d) rs)) (concat (map snd rs)))"
proof (induction rs)
  case (Cons r rs)
  have "map (\<lambda>(d, p). glyph_of d p) (zip (replicate (length t) d) t) = map (glyph_of d) t" for d t
    by (induction t) simp_all
  with Cons show ?case by (cases r) simp
qed simp

lemma glyphs_of_zip: "length ds = length ps \<Longrightarrow> map (\<lambda>(d, p). glyph_of d p) (zip ds (map (\<lambda>(d, p). glyph_of d p) (zip ds ps))) = ps"
  by (induction ds ps rule: list_induct2) simp_all

theorem layout_loses_nothing:
  "concat (map (\<lambda>(d, t). map (glyph_of d) t) (rev (layout_rtl_runs line))) = line
   \<and> list_all (\<lambda>(d, t). d \<noteq> Dir_N \<and> t \<noteq> []) (layout_rtl_runs line)
   \<and> successively (\<lambda>r q. fst r \<noteq> fst q) (layout_rtl_runs line)"
proof -
  let ?rs = "rev (layout_rtl_runs line)" and ?ds = "resolve_directions line"
  note r = layout_runs_of [of line, unfolded runs_of_def]
  have d: "concat (map (\<lambda>(d, t). replicate (length t) d) ?rs) = ?ds" using r by simp
  have "concat (map (\<lambda>(d, t). map (glyph_of d) t) ?rs) = line"
    unfolding runs_logical d conjunct1 [OF r] by (rule glyphs_of_zip) simp
  moreover have "fst q \<noteq> Dir_N \<and> snd q \<noteq> []" if q: "q \<in> set (layout_rtl_runs line)" for q
  proof -
    have n: "snd q \<noteq> []" using r q by simp
    with q have "fst q \<in> set (concat (map (\<lambda>(d, t). replicate (length t) d) ?rs))" by (force simp: case_prod_beta)
    with n d resolved_strong show ?thesis by metis
  qed
  moreover have "successively (\<lambda>r q. fst r \<noteq> fst q) (layout_rtl_runs line)"
    using r by (simp add: eq_commute)
  ultimately show ?thesis unfolding list_all_iff case_prod_beta by blast
qed

section \<open>A number stays together\<close>

definition is_digit_point :: "point \<Rightarrow> bool" where
  "is_digit_point p \<longleftrightarrow> 0x30 \<le> p \<and> p \<le> 0x39"

text \<open>Digits, with single punctuation marks between them.\<close>

fun number_text :: "point list \<Rightarrow> bool" where
  "number_text [] = False"
| "number_text [p] = is_digit_point p"
| "number_text (p # q # s) = (is_digit_point p \<and> (if in_ranges numeric_glue_re q then number_text s else number_text (q # s)))"

lemma digit_class: "is_digit_point p \<Longrightarrow> classify_point p = Dir_L \<and> in_ranges digit_re p \<and> \<not> in_ranges numeric_glue_re p"
  by (auto simp: is_digit_point_def classify_point_def in_ranges_def hebrew_re_def arabic_re_def latin_re_def digit_re_def numeric_glue_re_def)

lemma glue_class:
  assumes "in_ranges numeric_glue_re p"
  shows "classify_point p = Dir_N"
proof -
  from assms have "p \<in> {0x2E, 0x2C, 0x3A, 0x2F, 0x2D, 0x2B, 0x25}"
    unfolding in_ranges_def numeric_glue_re_def by (simp add: order_antisym_conv order_eq_iff) blast
  then show ?thesis
    by (elim insertE emptyE) (simp_all add: classify_point_def in_ranges_def hebrew_re_def arabic_re_def latin_re_def digit_re_def)
qed

lemma number_points:
  "number_text s \<Longrightarrow> i < length s \<Longrightarrow>
   is_digit_point (s ! i) \<or> (0 < i \<and> i + 1 < length s \<and> in_ranges numeric_glue_re (s ! i) \<and> is_digit_point (s ! (i - 1)) \<and> is_digit_point (s ! (i + 1)))"
proof (induction s arbitrary: i rule: number_text.induct)
  case (3 p q s)
  show ?case
  proof (cases "in_ranges numeric_glue_re q")
    case glue: True
    with 3(3) have n: "number_text s" "is_digit_point p" by auto
    then obtain a t where s: "s = a # t" "is_digit_point a" by (cases s rule: number_text.cases) auto
    show ?thesis
    proof (cases "i < 2")
      case True
      then have "i = 0 \<or> i = Suc 0" by linarith
      with glue n(2) s show ?thesis by (elim disjE) simp_all
    next
      case False
      then obtain j where j: "i = Suc (Suc j)" by (metis add_2_eq_Suc le_Suc_ex not_less)
      have "(p # q # s) ! i = s ! j" "(p # q # s) ! (i + 1) = s ! (j + 1)" "0 < j \<Longrightarrow> (p # q # s) ! (i - 1) = s ! (j - 1)"
        by (simp_all add: j nth_Cons split: nat.split)
      with 3(1) [OF glue n(1), of j] 3(4) j show ?thesis by auto
    qed
  next
    case False
    with 3(3) have n: "number_text (q # s)" "is_digit_point p" by auto
    show ?thesis
    proof (cases i)
      case (Suc j)
      with 3(2) [OF False n(1), of j] 3(4) show ?thesis by (cases j) auto
    qed (use n in simp)
  qed
qed auto

lemma number_directions:
  assumes "number_text s" and "length a \<le> i" and "i < length a + length s"
  shows "resolve_directions (a @ s @ b) ! i = Dir_L"
proof -
  let ?l = "a @ s @ b"
  obtain j where i: "i = length a + j" using assms(2) le_Suc_ex by blast
  with assms(3) have j: "j < length s" by simp
  have p: "?l ! i = s ! j" using i j by (simp add: nth_append)
  from number_points [OF assms(1) j] have "dir_classes ?l ! i = Dir_L"
  proof
    assume "is_digit_point (s ! j)"
    with digit_class p i j show ?thesis by (simp add: dir_classes_def)
  next
    assume g: "0 < j \<and> j + 1 < length s \<and> in_ranges numeric_glue_re (s ! j) \<and> is_digit_point (s ! (j - 1)) \<and> is_digit_point (s ! (j + 1))"
    then have "?l ! (i - 1) = s ! (j - 1)" "?l ! (i + 1) = s ! (j + 1)" using i by (auto simp: nth_append)
    with g i p digit_class glue_class have "glued ?l i" by (auto simp: glued_def)
    with i j show ?thesis by (simp add: dir_classes_def)
  qed
  with i j show ?thesis by (simp add: resolve_directions_def Let_def)
qed

text \<open>Once in a run, characters stay next to each other.\<close>

definition holds_text :: "dir \<Rightarrow> point list \<Rightarrow> run list \<Rightarrow> bool" where
  "holds_text d w runs \<longleftrightarrow> (\<exists>x y. (d, x @ w @ y) \<in> set runs)"

lemma holds_add:
  assumes "holds_text d w runs"
  shows "holds_text d w (add_char runs p)"
proof -
  from assms obtain x y where m: "(d, x @ w @ y) \<in> set runs" by (auto simp: holds_text_def)
  show ?thesis
  proof (cases "runs \<noteq> [] \<and> fst (last runs) = fst p")
    case True
    then obtain rs t where r: "runs = rs @ [(fst p, t)]" by (cases runs rule: rev_cases) auto
    then have a: "add_char runs p = rs @ [(fst p, t @ [glyph_of (fst p) (snd p)])]" by (simp add: add_char_def)
    from m r consider "(d, x @ w @ y) \<in> set rs" | "d = fst p" "t = x @ w @ y" by auto
    then show ?thesis
    proof cases
      case 2
      then have "(d, x @ w @ (y @ [glyph_of (fst p) (snd p)])) \<in> set (add_char runs p)" by (simp add: a)
      then show ?thesis unfolding holds_text_def by blast
    qed (auto simp: a holds_text_def)
  qed (use m in \<open>auto simp: add_char_def holds_text_def\<close>)
qed

lemma holds_foldl: "holds_text d w runs \<Longrightarrow> holds_text d w (foldl add_char runs ps)"
  by (induction ps arbitrary: runs) (simp_all add: holds_add)

lemma add_same: "add_char (rs @ [(d, t)]) (d, p) = rs @ [(d, t @ [glyph_of d p])]"
  by (simp add: add_char_def)

lemma extend_run:
  "w \<noteq> [] \<Longrightarrow> \<exists>rs x. foldl add_char runs (map (Pair d) w) = rs @ [(d, x @ map (glyph_of d) w)]"
proof (induction w arbitrary: runs rule: rev_induct)
  case (snoc p w)
  show ?case
  proof (cases "w = []")
    case True
    then show ?thesis by (cases runs rule: rev_cases) (auto simp: add_char_def)
  next
    case False
    from snoc.IH [OF this, of runs] obtain rs x where "foldl add_char runs (map (Pair d) w) = rs @ [(d, x @ map (glyph_of d) w)]" by blast
    then show ?thesis by (intro exI [of _ rs] exI [of _ x]) (simp add: add_same)
  qed
qed simp

text \<open>C40. In every line of an invoice a number with its inner punctuation, whatever surrounds it,
  is laid out as consecutive characters of one left-to-right run.\<close>
theorem numbers_stay_together:
  assumes "number_text s"
  shows "\<exists>x y. (Dir_L, x @ s @ y) \<in> set (layout_rtl_runs (a @ s @ b))"
proof -
  let ?l = "a @ s @ b" and ?ds = "resolve_directions (a @ s @ b)"
  have n: "s \<noteq> []" using assms by auto
  have "take (length s) (drop (length a) ?ds) = replicate (length s) Dir_L"
    by (rule nth_equalityI) (use number_directions [OF assms, of a] in \<open>auto\<close>)
  then have "zip ?ds ?l = zip (take (length a) ?ds) a @ map (Pair Dir_L) s @ zip (drop (length s) (drop (length a) ?ds)) b"
    by (simp add: zip_append2 zip_replicate1 take_drop [symmetric])
  then have "foldl add_char [] (zip ?ds ?l)
      = foldl add_char (foldl add_char (foldl add_char [] (zip (take (length a) ?ds) a)) (map (Pair Dir_L) s))
          (zip (drop (length s) (drop (length a) ?ds)) b)" by simp
  moreover obtain rs x where "foldl add_char (foldl add_char [] (zip (take (length a) ?ds) a)) (map (Pair Dir_L) s)
      = rs @ [(Dir_L, x @ map (glyph_of Dir_L) s)]" using extend_run [OF n] by blast
  moreover have "map (glyph_of Dir_L) s = s" by (simp add: glyph_of_def map_idI)
  ultimately have "holds_text Dir_L s (foldl add_char [] (zip ?ds ?l))"
    using holds_foldl [of Dir_L s "rs @ [(Dir_L, x @ s)]"] by (fastforce simp: holds_text_def)
  then have "holds_text Dir_L s (rev (layout_rtl_runs ?l))" by (simp add: layout_logical)
  then show ?thesis by (simp add: holds_text_def)
qed

text \<open>12.50 between two Hebrew letters.\<close>

theorem numbers_stay_together_witness:
  "\<exists>x y. (Dir_L, x @ [0x31, 0x32, 0x2E, 0x35, 0x30] @ y) \<in> set (layout_rtl_runs ([0x5D0] @ [0x31, 0x32, 0x2E, 0x35, 0x30] @ [0x5D1]))"
proof -
  have "number_text [0x31, 0x32, 0x2E, 0x35, 0x30]" by (simp add: is_digit_point_def in_ranges_def numeric_glue_re_def)
  from numbers_stay_together [OF this, of "[0x5D0]" "[0x5D1]"] show ?thesis .
qed

text \<open>The percent sign after a number is not between digits: 50% after a Hebrew letter is shown
  with the sign on the wrong side of the number.\<close>

lemma percent_is_split: "layout_rtl_runs [0x5D0, 0x20, 0x35, 0x30, 0x25] = [(Dir_R, [0x25]), (Dir_L, [0x35, 0x30]), (Dir_R, [0x5D0, 0x20])]"
  by (simp add: layout_rtl_runs_def resolve_directions_def dir_classes_def glued_def classify_point_def in_ranges_def
      hebrew_re_def arabic_re_def latin_re_def digit_re_def numeric_glue_re_def first_strong_def add_char_def glyph_of_def mirrored_def upt_rec)

end
