(* ===== verification/Providers.thy ===== *)
theory Providers
  imports Onboarding
begin

text \<open>
  The two providers of the language model (llm/gemini.provider.ts, llm/anthropic.provider.ts) and
  the choice between them (llm.module.ts). What the network or the SDK answers is a parameter, one
  answer for every attempt; waiting between attempts and log lines are left out. No caller sets a
  temperature, so it is the constant 0.3 of both requests. Absent arguments of a call are JNull.
\<close>

section \<open>Gemini\<close>

record gemini_part =
  gp_text :: "string option"
  gp_functionCall :: "(string \<times> json) option"
  gp_functionResponse :: "(string \<times> json) option"
  gp_thoughtSignature :: "string option"

datatype gemini_role = G_User | G_Model

record gemini_content =
  gc_role :: gemini_role
  gc_parts :: "gemini_part list"

record gemini_candidate =
  gd_parts :: "gemini_part list option"
  gd_finishReason :: "string option"

record gemini_response =
  gr_candidates :: "gemini_candidate list"
  gr_promptTokenCount :: "nat option"
  gr_candidatesTokenCount :: "nat option"
  gr_error :: "(int \<times> string) option"

record gemini_body =
  gb_contents :: "gemini_content list"
  gb_maxOutputTokens :: nat
  gb_systemInstruction :: "string option"
  gb_tools :: "(string \<times> string \<times> json) list option"

datatype fetch_outcome = Fetch_Aborted | Fetch_Failed string | Fetched gemini_response

datatype gemini_failure = Api_Error int string | Plain_Error http_error

record gemini =
  gm_apiKey :: string
  gm_model :: string
  gm_fetch :: "nat \<Rightarrow> gemini_body \<Rightarrow> fetch_outcome"
  gm_uuid :: "nat \<Rightarrow> string"

definition empty_part :: gemini_part where
  "empty_part = \<lparr>gp_text = None, gp_functionCall = None, gp_functionResponse = None, gp_thoughtSignature = None\<rparr>"

text \<open>\<open>/quota|billing|rate.?limit/i\<close>\<close>

fun rate_limit_text :: "string \<Rightarrow> bool" where
  "rate_limit_text [] = False"
| "rate_limit_text (c # s) =
     (starts_with ''rate'' (c # s) \<and> (starts_with ''limit'' (drop 4 (c # s))
        \<or> (drop 4 (c # s) \<noteq> [] \<and> hd (drop 4 (c # s)) \<notin> {CHR 0x0A, CHR 0x0D} \<and> starts_with ''limit'' (drop 5 (c # s))))
      \<or> rate_limit_text s)"

fun is_quota_exhausted :: "gemini_failure \<Rightarrow> bool" where
  "is_quota_exhausted (Api_Error code m) =
     (code = 429 \<and> (contains_ci ''quota'' m \<or> contains_ci ''billing'' m \<or> rate_limit_text (to_lower m)))"
| "is_quota_exhausted (Plain_Error _) = False"

fun is_retryable_failure :: "gemini_failure \<Rightarrow> bool" where
  "is_retryable_failure (Api_Error code m) = (\<not> is_quota_exhausted (Api_Error code m) \<and> (code = 429 \<or> 500 \<le> code))"
| "is_retryable_failure (Plain_Error _) = False"

definition dropped_keys :: "string list" where
  "dropped_keys = [''additionalProperties'', ''$schema'', ''default'', ''examples'', ''const'']"

fun sanitize_schema :: "json \<Rightarrow> json" where
  "sanitize_schema (JArr xs) = JArr (map sanitize_schema xs)"
| "sanitize_schema (JObj kvs) = JObj (map (\<lambda>(k, v). (k, sanitize_schema v)) (filter (\<lambda>(k, v). k \<notin> set dropped_keys) kvs))"
| "sanitize_schema j = j"

definition to_contents :: "llm_request \<Rightarrow> gemini_content list" where
  "to_contents rq = map (\<lambda>m. \<lparr>gc_role = (case lm_role m of Assistant \<Rightarrow> G_Model | User \<Rightarrow> G_User),
     gc_parts = [empty_part\<lparr>gp_text := Some (lm_content m)\<rparr>]\<rparr>) (rq_messages rq)"

definition call_part :: "llm_tool_call \<Rightarrow> gemini_part" where
  "call_part c = empty_part\<lparr>gp_functionCall := Some (tc_name c, tc_input c),
     gp_thoughtSignature := jstr_opt (case tc_providerMetadata c of None \<Rightarrow> None | Some j \<Rightarrow> jget ''thoughtSignature'' j)\<rparr>"

definition result_part :: "llm_tool_result \<Rightarrow> gemini_part" where
  "result_part r = empty_part\<lparr>gp_functionResponse := Some (tr_name r,
     JObj [(if tr_isError r then ''error'' else ''result'', JStr (tr_content r))])\<rparr>"

definition continued_contents :: "llm_request \<Rightarrow> llm_response \<Rightarrow> llm_tool_result list \<Rightarrow> gemini_content list" where
  "continued_contents rq previous results = to_contents rq
     @ [\<lparr>gc_role = G_Model, gc_parts = (if rs_text previous = [] then [] else [empty_part\<lparr>gp_text := Some (rs_text previous)\<rparr>])
          @ map call_part (rs_toolCalls previous)\<rparr>,
        \<lparr>gc_role = G_User, gc_parts = map result_part results\<rparr>]"

definition request_body :: "llm_request \<Rightarrow> gemini_content list \<Rightarrow> gemini_body" where
  "request_body rq cs = \<lparr>gb_contents = cs, gb_maxOutputTokens = or_else (rq_maxTokens rq) 2048,
     gb_systemInstruction = (if truthy (rq_system rq) then rq_system rq else None),
     gb_tools = (if rq_tools rq = [] then None
       else Some (map (\<lambda>t. (td_name t, td_description t, sanitize_schema (td_parameters t))) (rq_tools rq)))\<rparr>"

definition first_candidate :: "gemini_response \<Rightarrow> gemini_candidate option" where
  "first_candidate a = (case gr_candidates a of [] \<Rightarrow> None | c # _ \<Rightarrow> Some c)"

definition answer_parts :: "gemini_response \<Rightarrow> gemini_part list" where
  "answer_parts a = (case first_candidate a of None \<Rightarrow> [] | Some c \<Rightarrow> or_else (gd_parts c) [])"

text \<open>The tool calls of an answer, with a generated id each.\<close>

definition answer_calls :: "gemini \<Rightarrow> gemini_part list \<Rightarrow> llm_tool_call list" where
  "answer_calls g parts = map (\<lambda>(i, p). \<lparr>tc_id = gm_uuid g i, tc_name = fst (the (gp_functionCall p)), tc_input = snd (the (gp_functionCall p)),
       tc_providerMetadata = (if truthy (gp_thoughtSignature p)
         then Some (JObj [(''thoughtSignature'', JStr (the (gp_thoughtSignature p)))]) else None)\<rparr>)
     (enumerate 0 (filter (\<lambda>p. gp_functionCall p \<noteq> None) parts))"

definition read_answer :: "gemini \<Rightarrow> gemini_response \<Rightarrow> llm_response" where
  "read_answer g a =
     (let parts = answer_parts a; calls = answer_calls g parts;
          finish = (case first_candidate a of None \<Rightarrow> None | Some c \<Rightarrow> gd_finishReason c)
      in \<lparr>rs_text = trim (concat (map (\<lambda>p. or_else (gp_text p) []) parts)), rs_toolCalls = calls,
          rs_stopReason = (if calls \<noteq> [] then Tool_Use else if finish = Some ''MAX_TOKENS'' then Max_Tokens
            else if finish = Some ''STOP'' then End else Other),
          rs_usage = \<lparr>us_inputTokens = or_else (gr_promptTokenCount a) 0, us_outputTokens = or_else (gr_candidatesTokenCount a) 0,
            us_cacheReadTokens = None, us_cacheCreationTokens = None\<rparr>,
          rs_model = gm_model g\<rparr>)"

definition gemini_configured :: "gemini \<Rightarrow> bool" where
  "gemini_configured g \<longleftrightarrow> trim (gm_apiKey g) \<noteq> []"

definition call_once :: "gemini \<Rightarrow> llm_request \<Rightarrow> gemini_content list \<Rightarrow> nat \<Rightarrow> gemini_failure + llm_response" where
  "call_once g rq cs attempt =
     (if \<not> gemini_configured g then Inl (Plain_Error (ServiceUnavailable ''GEMINI_API_KEY is not configured on this server.''))
      else case gm_fetch g attempt (request_body rq cs) of
          Fetch_Aborted \<Rightarrow> Inl (Plain_Error (ServiceUnavailable ''LLM request timed out''))
        | Fetch_Failed m \<Rightarrow> Inl (Plain_Error (Thrown m))
        | Fetched a \<Rightarrow> (case gr_error a of Some (code, m) \<Rightarrow> Inl (Api_Error code m) | None \<Rightarrow> Inr (read_answer g a)))"

definition gemini_attempts :: nat where
  "gemini_attempts = 3"

text \<open>The loop from one attempt on, with the number of attempts made; \<open>left\<close> may follow.\<close>

fun call_attempts :: "gemini \<Rightarrow> llm_request \<Rightarrow> gemini_content list \<Rightarrow> nat \<Rightarrow> nat \<Rightarrow> (gemini_failure + llm_response) \<times> nat" where
  "call_attempts g rq cs attempt 0 = (call_once g rq cs attempt, 1)"
| "call_attempts g rq cs attempt (Suc left) =
     (case call_once g rq cs attempt of
        Inr r \<Rightarrow> (Inr r, 1)
      | Inl err \<Rightarrow>
          if \<not> is_retryable_failure err then (Inl err, 1)
          else (let (r, n) = call_attempts g rq cs (Suc attempt) left in (r, Suc n)))"

fun failure_error :: "gemini_failure \<Rightarrow> http_error" where
  "failure_error (Api_Error code m) =
     (if is_quota_exhausted (Api_Error code m)
      then ServiceUnavailable ''LLM quota exhausted for this API key. Switch keys, upgrade the plan, or set LLM_PROVIDER=anthropic.''
      else ServiceUnavailable (''LLM provider error: '' @ m))"
| "failure_error (Plain_Error err) = err"

definition gemini_call :: "gemini \<Rightarrow> llm_request \<Rightarrow> gemini_content list \<Rightarrow> http_error + llm_response" where
  "gemini_call g rq cs = (case fst (call_attempts g rq cs 1 (gemini_attempts - 1)) of Inr r \<Rightarrow> Inr r | Inl err \<Rightarrow> Inl (failure_error err))"

definition gemini_provider :: "gemini \<Rightarrow> llm_provider" where
  "gemini_provider g = \<lparr>pv_name = ''gemini'', pv_model = gm_model g, pv_isConfigured = gemini_configured g,
     pv_complete = (\<lambda>rq. gemini_call g rq (to_contents rq)),
     pv_continue = (\<lambda>rq previous results. gemini_call g rq (continued_contents rq previous results))\<rparr>"

section \<open>Anthropic\<close>

datatype an_block =
    Text_Block string
  | Tool_Use_Block string string json
  | Tool_Result_Block string string bool
  | Other_Block

datatype an_content = Plain_Content string | Block_Content "an_block list"

record an_message =
  am_role :: llm_role
  am_content :: an_content

text \<open>A tool, and whether the cached prefix ends with it.\<close>

record an_params =
  ap_model :: string
  ap_maxTokens :: nat
  ap_system :: "string option"
  ap_tools :: "(llm_tool_definition \<times> bool) list"
  ap_messages :: "an_message list"

record an_answer =
  aa_content :: "an_block list"
  aa_stopReason :: "string option"
  aa_inputTokens :: nat
  aa_outputTokens :: nat
  aa_cacheRead :: "nat option"
  aa_cacheCreation :: "nat option"

record anthropic =
  an_apiKey :: string
  an_model :: string
  an_create :: "an_params \<Rightarrow> http_error + an_answer"

definition anthropic_configured :: "anthropic \<Rightarrow> bool" where
  "anthropic_configured a \<longleftrightarrow> trim (an_apiKey a) \<noteq> []"

definition to_anthropic_message :: "llm_message \<Rightarrow> an_message" where
  "to_anthropic_message m = \<lparr>am_role = lm_role m, am_content = Plain_Content (lm_content m)\<rparr>"

definition tool_use_block :: "llm_tool_call \<Rightarrow> an_block" where
  "tool_use_block c = Tool_Use_Block (tc_id c) (tc_name c) (case tc_input c of JNull \<Rightarrow> JObj [] | j \<Rightarrow> j)"

definition tool_result_block :: "llm_tool_result \<Rightarrow> an_block" where
  "tool_result_block r = Tool_Result_Block (tr_toolCallId r) (tr_content r) (tr_isError r)"

definition continued_messages :: "llm_request \<Rightarrow> llm_response \<Rightarrow> llm_tool_result list \<Rightarrow> an_message list" where
  "continued_messages rq previous results = map to_anthropic_message (rq_messages rq)
     @ [\<lparr>am_role = Assistant, am_content = Block_Content ((if rs_text previous = [] then [] else [Text_Block (rs_text previous)])
          @ map tool_use_block (rs_toolCalls previous))\<rparr>,
        \<lparr>am_role = User, am_content = Block_Content (map tool_result_block results)\<rparr>]"

fun tool_use_of :: "an_block \<Rightarrow> llm_tool_call option" where
  "tool_use_of (Tool_Use_Block i n j) = Some \<lparr>tc_id = i, tc_name = n, tc_input = j, tc_providerMetadata = None\<rparr>"
| "tool_use_of _ = None"

fun block_text :: "an_block \<Rightarrow> string" where
  "block_text (Text_Block t) = t"
| "block_text _ = []"

definition message_params :: "anthropic \<Rightarrow> llm_request \<Rightarrow> an_message list \<Rightarrow> an_params" where
  "message_params a rq msgs = \<lparr>ap_model = an_model a, ap_maxTokens = or_else (rq_maxTokens rq) 2048,
     ap_system = (if truthy (rq_system rq) then rq_system rq else None),
     ap_tools = map (\<lambda>(i, t). (t, i = length (rq_tools rq) - 1)) (enumerate 0 (rq_tools rq)), ap_messages = msgs\<rparr>"

definition read_claude_message :: "anthropic \<Rightarrow> an_answer \<Rightarrow> llm_response" where
  "read_claude_message a r = \<lparr>rs_text = trim (concat (map block_text (aa_content r))),
     rs_toolCalls = List.map_filter tool_use_of (aa_content r),
     rs_stopReason = (if aa_stopReason r = Some ''tool_use'' then Tool_Use else if aa_stopReason r = Some ''max_tokens'' then Max_Tokens
       else if aa_stopReason r = Some ''end_turn'' then End else Other),
     rs_usage = \<lparr>us_inputTokens = aa_inputTokens r, us_outputTokens = aa_outputTokens r,
       us_cacheReadTokens = Some (or_else (aa_cacheRead r) 0), us_cacheCreationTokens = Some (or_else (aa_cacheCreation r) 0)\<rparr>,
     rs_model = an_model a\<rparr>"

definition anthropic_call :: "anthropic \<Rightarrow> llm_request \<Rightarrow> an_message list \<Rightarrow> http_error + llm_response" where
  "anthropic_call a rq msgs =
     (if \<not> anthropic_configured a then Inl (ServiceUnavailable ''ANTHROPIC_API_KEY is not configured on this server.'')
      else case an_create a (message_params a rq msgs) of Inl err \<Rightarrow> Inl err | Inr r \<Rightarrow> Inr (read_claude_message a r))"

definition anthropic_provider :: "anthropic \<Rightarrow> llm_provider" where
  "anthropic_provider a = \<lparr>pv_name = ''anthropic'', pv_model = an_model a, pv_isConfigured = anthropic_configured a,
     pv_complete = (\<lambda>rq. anthropic_call a rq (map to_anthropic_message (rq_messages rq))),
     pv_continue = (\<lambda>rq previous results. anthropic_call a rq (continued_messages rq previous results))\<rparr>"

section \<open>The choice\<close>

definition choose_provider :: "string \<Rightarrow> llm_provider \<Rightarrow> llm_provider \<Rightarrow> llm_provider" where
  "choose_provider preferred an gm =
     (if preferred = ''gemini'' then gm else if preferred = ''anthropic'' then an
      else if pv_isConfigured an then an else gm)"

section \<open>Retries\<close>

lemma call_attempts_count: "call_attempts g rq cs k left = (r, n) \<Longrightarrow> 1 \<le> n \<and> n \<le> Suc left"
proof (induction left arbitrary: k r n)
  case (Suc left)
  then show ?case by (fastforce split: sum.splits if_splits prod.splits)
qed simp

lemma call_attempts_ends:
  "call_attempts g rq cs k left = (r, n) \<Longrightarrow> r = call_once g rq cs (k + n - 1)
     \<and> (\<forall>i < n - 1. \<exists>err. call_once g rq cs (k + i) = Inl err \<and> is_retryable_failure err)
     \<and> (n \<le> left \<longrightarrow> (\<forall>err. r = Inl err \<longrightarrow> \<not> is_retryable_failure err))"
proof (induction left arbitrary: k r n)
  case (Suc left)
  show ?case
  proof (cases "\<exists>err. call_once g rq cs k = Inl err \<and> is_retryable_failure err")
    case False
    with Suc.prems show ?thesis by (auto split: sum.splits if_splits)
  next
    case True
    then obtain err where err: "call_once g rq cs k = Inl err" "is_retryable_failure err" by blast
    obtain m where m: "call_attempts g rq cs (Suc k) left = (r, m)" "n = Suc m"
      using Suc.prems err by (auto split: prod.splits)
    note ih = Suc.IH [OF m(1)] and c = call_attempts_count [OF m(1)]
    have "\<exists>e'. call_once g rq cs (k + i) = Inl e' \<and> is_retryable_failure e'" if "i < n - 1" for i
    proof (cases i)
      case (Suc j)
      with that m(2) ih show ?thesis by auto
    qed (use err in simp)
    moreover have "k + n - 1 = Suc k + m - 1" using m(2) by simp
    ultimately show ?thesis using ih m(2) by auto
  qed
qed simp

text \<open>A failure of the API that ended all the same is reported as unavailable.\<close>

theorem gemini_retries_are_bounded:
  "\<exists>n \<in> {1, 2, 3}. gemini_call g rq cs = (case call_once g rq cs n of Inr r \<Rightarrow> Inr r | Inl err \<Rightarrow> Inl (failure_error err))
     \<and> (\<forall>i. 1 \<le> i \<and> i < n \<longrightarrow> (\<exists>code m. call_once g rq cs i = Inl (Api_Error code m)
           \<and> (code = 429 \<or> 500 \<le> code) \<and> \<not> is_quota_exhausted (Api_Error code m)))
     \<and> (n < 3 \<longrightarrow> (\<forall>err. call_once g rq cs n = Inl err \<longrightarrow> \<not> is_retryable_failure err))"
proof -
  obtain r n where c: "call_attempts g rq cs 1 2 = (r, n)" by fastforce
  note e = call_attempts_ends [OF c] and n = call_attempts_count [OF c]
  have retry: "\<exists>code m. call_once g rq cs i = Inl (Api_Error code m) \<and> (code = 429 \<or> 500 \<le> code) \<and> \<not> is_quota_exhausted (Api_Error code m)"
    if "1 \<le> i \<and> i < n" for i
  proof -
    from that have "i - 1 < n - 1" "1 + (i - 1) = i" by auto
    with e obtain err where "call_once g rq cs i = Inl err" "is_retryable_failure err" by metis
    then show ?thesis by (cases err) auto
  qed
  have "r = call_once g rq cs n" using e n by auto
  moreover have "gemini_call g rq cs = (case r of Inr r \<Rightarrow> Inr r | Inl err \<Rightarrow> Inl (failure_error err))"
    by (simp add: gemini_call_def gemini_attempts_def c [unfolded One_nat_def])
  moreover have "n \<in> {1, 2, 3}" using n by auto
  moreover have "n < 3 \<longrightarrow> (\<forall>err. call_once g rq cs n = Inl err \<longrightarrow> \<not> is_retryable_failure err)" using e n \<open>r = call_once g rq cs n\<close> by auto
  ultimately show ?thesis using retry by (intro bexI [of _ n]) auto
qed

section \<open>The schema Gemini is sent\<close>

fun clean_schema :: "json \<Rightarrow> bool" where
  "clean_schema (JArr xs) = list_all clean_schema xs"
| "clean_schema (JObj kvs) = list_all (\<lambda>(k, v). k \<notin> set dropped_keys \<and> clean_schema v) kvs"
| "clean_schema j = True"

lemma sanitized_is_clean: "clean_schema (sanitize_schema j)"
proof (induction j rule: sanitize_schema.induct)
  case (2 kvs)
  then show ?case by (fastforce simp: list_all_iff)
qed (auto simp: list_all_iff)

lemma clean_is_kept: "clean_schema j \<Longrightarrow> sanitize_schema j = j"
proof (induction j rule: sanitize_schema.induct)
  case (1 xs)
  then show ?case by (auto simp: list_all_iff intro: map_idI)
next
  case (2 kvs)
  have f: "filter (\<lambda>(k, v). k \<notin> set dropped_keys) kvs = kvs" using 2(2) by (fastforce simp: filter_id_conv list_all_iff)
  have "sanitize_schema v = v" if m: "(k, v) \<in> set kvs" for k v
  proof (rule 2(1))
    show "(k, v) \<in> set (filter (\<lambda>(k, v). k \<notin> set dropped_keys) kvs)" unfolding f by (rule m)
    show "(k, v) = (k, v)" ..
    show "clean_schema v" using 2(2) m by (auto simp: list_all_iff)
  qed
  then show ?case unfolding sanitize_schema.simps f by (auto intro: map_idI)
qed auto

theorem schema_is_accepted:
  "(rq_tools rq \<noteq> [] \<longrightarrow> (\<exists>ts. gb_tools (request_body rq cs) = Some ts \<and> length ts = length (rq_tools rq)
       \<and> (\<forall>(n, d, j) \<in> set ts. clean_schema j)))
   \<and> sanitize_schema (sanitize_schema j) = sanitize_schema j \<and> (clean_schema j \<longrightarrow> sanitize_schema j = j)"
  by (auto simp: request_body_def sanitized_is_clean clean_is_kept)

section \<open>Tool calls go back as they came\<close>

lemma calls_parts:
  "map call_part (answer_calls g parts)
   = map (\<lambda>p. empty_part\<lparr>gp_functionCall := gp_functionCall p,
         gp_thoughtSignature := (if truthy (gp_thoughtSignature p) then gp_thoughtSignature p else None)\<rparr>)
       (filter (\<lambda>p. gp_functionCall p \<noteq> None) parts)"
proof -
  have s: "map f (enumerate n ps) = map h ps" if "\<And>i p. p \<in> set ps \<Longrightarrow> f (i, p) = h p"
    for f :: "nat \<times> gemini_part \<Rightarrow> gemini_part" and h n ps
    using that by (induction ps arbitrary: n) auto
  show ?thesis
    unfolding answer_calls_def map_map
    by (rule s) (auto simp: call_part_def truthy_def)
qed

theorem tool_calls_are_echoed:
  assumes "call_once g rq cs k = Inr r"
  shows "\<exists>a turn. gm_fetch g k (request_body rq cs) = Fetched a
    \<and> continued_contents rq r results = to_contents rq @ [turn, \<lparr>gc_role = G_User, gc_parts = map result_part results\<rparr>]
    \<and> gc_role turn = G_Model
    \<and> map (\<lambda>p. (gp_functionCall p, truthy (gp_thoughtSignature p), or_else (gp_thoughtSignature p) []))
          (filter (\<lambda>p. gp_functionCall p \<noteq> None) (gc_parts turn))
      = map (\<lambda>p. (gp_functionCall p, truthy (gp_thoughtSignature p), or_else (gp_thoughtSignature p) []))
          (filter (\<lambda>p. gp_functionCall p \<noteq> None) (answer_parts a))"
proof -
  from assms obtain a where a: "gm_fetch g k (request_body rq cs) = Fetched a" "r = read_answer g a"
    by (auto simp: call_once_def split: if_splits fetch_outcome.splits option.splits)
  let ?parts = "(if rs_text r = [] then [] else [empty_part\<lparr>gp_text := Some (rs_text r)\<rparr>]) @ map call_part (answer_calls g (answer_parts a))"
  have "filter (\<lambda>p. gp_functionCall p \<noteq> None) ?parts = map call_part (answer_calls g (answer_parts a))"
    by (auto simp: empty_part_def call_part_def filter_id_conv)
  then have f: "filter (\<lambda>p. gp_functionCall p \<noteq> None) ?parts
     = map (\<lambda>p. empty_part\<lparr>gp_functionCall := gp_functionCall p,
         gp_thoughtSignature := (if truthy (gp_thoughtSignature p) then gp_thoughtSignature p else None)\<rparr>)
       (filter (\<lambda>p. gp_functionCall p \<noteq> None) (answer_parts a))" by (simp add: calls_parts)
  have t: "truthy (if truthy x then x else None) = truthy x" "or_else (if truthy x then x else None) [] = or_else x []" for x :: "string option"
    by (auto simp: truthy_def or_else_def split: option.splits)
  show ?thesis
    by (rule exI [of _ a], rule exI [of _ "\<lparr>gc_role = G_Model, gc_parts = ?parts\<rparr>"])
      (use a f in \<open>simp add: continued_contents_def read_answer_def Let_def t\<close>)
qed

text \<open>Every result of a round answers a call of the turn before it.\<close>

lemma results_answer_calls:
  "apply_calls cfg cs d = (d', ready, results) \<Longrightarrow>
   map tr_toolCallId results = map tc_id cs \<and> map tr_name results = map tc_name cs"
  by (induction cs arbitrary: d d' ready results) (auto simp: Let_def split: prod.splits)

theorem round_is_answered:
  assumes "apply_calls cfg (rs_toolCalls previous) d = (d', ready, results)"
  shows "\<exists>turn answers. continued_messages rq previous results = map to_anthropic_message (rq_messages rq)
        @ [\<lparr>am_role = Assistant, am_content = Block_Content turn\<rparr>, \<lparr>am_role = User, am_content = Block_Content answers\<rparr>]
    \<and> map tc_id (List.map_filter tool_use_of turn) = map tc_id (rs_toolCalls previous)
    \<and> List.map_filter (\<lambda>b. case b of Tool_Result_Block i _ _ \<Rightarrow> Some i | _ \<Rightarrow> None) answers = map tc_id (rs_toolCalls previous)
    \<and> map gp_functionCall (map call_part (rs_toolCalls previous)) = map (\<lambda>c. Some (tc_name c, tc_input c)) (rs_toolCalls previous)
    \<and> map (map_option fst \<circ> gp_functionResponse) (map result_part results) = map (Some \<circ> tc_name) (rs_toolCalls previous)"
proof -
  note r = results_answer_calls [OF assms]
  have t: "map tc_id (List.map_filter tool_use_of (map tool_use_block cs)) = map tc_id cs" for cs
    by (induction cs) (simp_all add: map_filter_simps tool_use_block_def)
  have "List.map_filter (\<lambda>b. case b of Tool_Result_Block i _ _ \<Rightarrow> Some i | _ \<Rightarrow> None) (map tool_result_block rs) = map tr_toolCallId rs" for rs
    by (induction rs) (simp_all add: map_filter_simps tool_result_block_def)
  then have a: "List.map_filter (\<lambda>b. case b of Tool_Result_Block i _ _ \<Rightarrow> Some i | _ \<Rightarrow> None) (map tool_result_block results) = map tc_id (rs_toolCalls previous)"
    using r by simp
  have n: "map (map_option fst \<circ> gp_functionResponse) (map result_part results) = map Some (map tr_name results)"
    by (simp add: result_part_def)
  show ?thesis
    by (rule exI, rule exI, rule conjI, unfold continued_messages_def, rule refl)
      (use r t a n in \<open>simp add: map_filter_simps call_part_def o_def map_filter_def\<close>)
qed

section \<open>A concrete provider\<close>

definition demo_gemini :: gemini where
  "demo_gemini = \<lparr>gm_apiKey = ''key'', gm_model = ''gemini'',
     gm_fetch = (\<lambda>n _. if n = 1 then Fetched \<lparr>gr_candidates = [], gr_promptTokenCount = None, gr_candidatesTokenCount = None,
          gr_error = Some (503, ''high demand'')\<rparr>
        else Fetched \<lparr>gr_candidates = [\<lparr>gd_parts = Some [empty_part\<lparr>gp_functionCall := Some (''add'', JObj []), gp_thoughtSignature := Some ''s''\<rparr>],
          gd_finishReason = Some ''STOP''\<rparr>], gr_promptTokenCount = Some 5, gr_candidatesTokenCount = Some 2, gr_error = None\<rparr>),
     gm_uuid = (\<lambda>n. ''id-'' @ show_nat n)\<rparr>"

definition demo_rq :: llm_request where
  "demo_rq = \<lparr>rq_system = None, rq_messages = [], rq_tools = [], rq_maxTokens = None, rq_purpose = ''p'', rq_tenantId = None\<rparr>"

theorem tool_calls_are_echoed_witness:
  "\<exists>r turn. call_once demo_gemini demo_rq [] 2 = Inr r
     \<and> continued_contents demo_rq r [] = [turn, \<lparr>gc_role = G_User, gc_parts = []\<rparr>] \<and> gc_role turn = G_Model"
proof -
  have c: "gemini_configured demo_gemini" by code_simp
  obtain r where r: "call_once demo_gemini demo_rq [] 2 = Inr r"
    by (simp add: call_once_def c) (simp add: demo_gemini_def)
  from tool_calls_are_echoed [OF r, of "[]"] r show ?thesis by (auto simp: to_contents_def demo_rq_def)
qed

theorem round_is_answered_witness:
  "\<exists>results turn answers. snd (snd (apply_calls demo_onboarding [member_call] empty_draft)) = results
     \<and> continued_messages demo_rq (demo_response\<lparr>rs_toolCalls := [member_call]\<rparr>) results
       = [\<lparr>am_role = Assistant, am_content = Block_Content turn\<rparr>, \<lparr>am_role = User, am_content = Block_Content answers\<rparr>]"
proof -
  let ?p = "demo_response\<lparr>rs_toolCalls := [member_call]\<rparr>"
  obtain d' ready results where a: "apply_calls demo_onboarding (rs_toolCalls ?p) empty_draft = (d', ready, results)"
    by (cases "apply_calls demo_onboarding (rs_toolCalls ?p) empty_draft")
  from round_is_answered [OF a, of demo_rq] a show ?thesis by (auto simp: demo_rq_def)
qed

end
