(* ===== verification/Startup.thy ===== *)
theory Startup
  imports Database Secrets Providers
begin

text \<open>
  The environment the server starts with (config/env.schema.ts) and the language model it thereby
  chooses. A variable is a text or absent. What zod's \<open>url()\<close> accepts and the number a text
  denotes are parameters; the messages of the issues are left out, a refused environment is None.
\<close>

section \<open>Values\<close>

record env_lib =
  ev_isUrl :: "string \<Rightarrow> bool"
  ev_number :: "string \<Rightarrow> rat option"

type_synonym raw_env = "string \<Rightarrow> string option"

definition csv :: "string \<Rightarrow> string list" where
  "csv v = filter (\<lambda>s. s \<noteq> []) (map trim (split_on CHR '','' v))"

definition placeholder_starts :: "string list" where
  "placeholder_starts = [''replace'', ''change'', ''dev-only'', ''test'', ''secret'', ''password'']"

definition secret_ok :: "nat \<Rightarrow> string \<Rightarrow> bool" where
  "secret_ok mn v \<longleftrightarrow> mn \<le> js_length v \<and> \<not> list_ex (\<lambda>p. starts_with p (to_lower v)) placeholder_starts"

definition is_real_secret :: "string \<Rightarrow> bool" where
  "is_real_secret v \<longleftrightarrow> trim v \<noteq> []
     \<and> \<not> list_ex (\<lambda>p. contains_ci p v) [''placeholder'', ''replace_with'', ''your-'', ''your_'', ''changeme'']"

definition google_value_ok :: "string \<Rightarrow> bool" where
  "google_value_ok v \<longleftrightarrow> v \<noteq> [] \<and> \<not> list_ex (\<lambda>p. contains_ci p v) [''placeholder'', ''replace_with'', ''your-'', ''your_'']"

definition hex_key_ok :: "string \<Rightarrow> bool" where
  "hex_key_ok v \<longleftrightarrow> length v = 64 \<and> list_all is_hex v"

text \<open>\<open>/^[a-z0-9.-]+\.[a-z]{2,}$/i\<close>: what follows the last dot are two letters or more.\<close>

definition letter_char :: "char \<Rightarrow> bool" where
  "letter_char c \<longleftrightarrow> is_upper c \<or> is_lower c"

definition bare_domain :: "string \<Rightarrow> bool" where
  "bare_domain v \<longleftrightarrow> list_all (\<lambda>c. letter_char c \<or> is_digit c \<or> c = CHR ''.'' \<or> c = CHR ''-'') v
     \<and> (let labels = split_on CHR ''.'' v; tld = last labels
        in 2 \<le> length labels \<and> 2 \<le> length tld \<and> list_all letter_char tld \<and> length tld + 1 < length v)"

definition env_string :: "raw_env \<Rightarrow> string \<Rightarrow> string option \<Rightarrow> (string \<Rightarrow> bool) \<Rightarrow> string option" where
  "env_string raw k dflt ok =
     (case raw k of None \<Rightarrow> dflt | Some v \<Rightarrow> if ok v then Some v else None)"

definition env_int :: "env_lib \<Rightarrow> raw_env \<Rightarrow> string \<Rightarrow> int \<Rightarrow> int \<Rightarrow> int option" where
  "env_int lib raw k mn dflt =
     (case raw k of
        None \<Rightarrow> Some dflt
      | Some v \<Rightarrow> (case ev_number lib v of
          None \<Rightarrow> None
        | Some q \<Rightarrow> if of_int \<lfloor>q\<rfloor> = q \<and> mn \<le> \<lfloor>q\<rfloor> then Some \<lfloor>q\<rfloor> else None))"

record app_env =
  ae_NODE_ENV :: string
  ae_PORT :: int
  ae_LOG_LEVEL :: string
  ae_BASE_DOMAIN :: string
  ae_CORS_ORIGINS :: "string list"
  ae_PUBLIC_APP_URL :: string
  ae_DATABASE_URL :: string
  ae_DIRECT_DATABASE_URL :: string
  ae_SHADOW_DATABASE_URL :: "string option"
  ae_REDIS_URL :: string
  ae_ALERT_WEBHOOK_URL :: string
  ae_JWT_SECRET :: string
  ae_JWT_EXPIRES_IN :: string
  ae_OAUTH_STATE_SECRET :: string
  ae_INTEGRATION_ENCRYPTION_KEY :: string
  ae_INTEGRATION_ENCRYPTION_KEY_VERSION :: int
  ae_INBOUND_EMAIL_DOMAIN :: string
  ae_INBOUND_EMAIL_SECRET :: string
  ae_GOOGLE_CLIENT_ID :: string
  ae_GOOGLE_CLIENT_SECRET :: string
  ae_GOOGLE_REDIRECT_URI :: string
  ae_LLM_PROVIDER :: string
  ae_ANTHROPIC_API_KEY :: string
  ae_ANTHROPIC_EXTRACTION_MODEL :: string
  ae_ANTHROPIC_ONBOARDING_MODEL :: string
  ae_GEMINI_API_KEY :: string
  ae_GEMINI_MODEL :: string
  ae_LLM_DEFAULT_MONTHLY_BUDGET_MINOR :: int
  ae_LLM_MAX_INPUT_CHARS :: int
  ae_ONBOARDING_MAX_LLM_CALLS_PER_SESSION :: int
  ae_ONBOARDING_SESSION_TTL_HOURS :: int

definition any_text :: "string \<Rightarrow> bool" where
  "any_text v \<longleftrightarrow> True"

text \<open>The variables one by one.\<close>

definition bind_opt :: "'a option \<Rightarrow> ('a \<Rightarrow> 'b option) \<Rightarrow> 'b option" where
  "bind_opt x f = (case x of None \<Rightarrow> None | Some v \<Rightarrow> f v)"

definition env_object :: "env_lib \<Rightarrow> raw_env \<Rightarrow> app_env option" where
  "env_object lib raw =
     bind_opt (env_string raw ''NODE_ENV'' (Some ''development'') (\<lambda>v. v \<in> {''development'', ''test'', ''production''})) (\<lambda>nodeEnv.
     bind_opt (env_int lib raw ''PORT'' 1 3000) (\<lambda>port.
     bind_opt (env_string raw ''LOG_LEVEL'' (Some ''info'') (\<lambda>v. v \<in> {''fatal'', ''error'', ''warn'', ''info'', ''debug'', ''trace''})) (\<lambda>logLevel.
     bind_opt (env_string raw ''BASE_DOMAIN'' None (\<lambda>v. v \<noteq> [])) (\<lambda>baseDomain.
     bind_opt (env_string raw ''CORS_ORIGINS'' (Some []) any_text) (\<lambda>cors.
     bind_opt (env_string raw ''PUBLIC_APP_URL'' (Some ''https://craftmind-ai.com'') (ev_isUrl lib)) (\<lambda>publicUrl.
     bind_opt (env_string raw ''DATABASE_URL'' None (\<lambda>v. ev_isUrl lib v \<and> \<not> has_infix ''craftmind_migrator'' v)) (\<lambda>dbUrl.
     bind_opt (env_string raw ''DIRECT_DATABASE_URL'' None (ev_isUrl lib)) (\<lambda>directUrl.
     bind_opt (case raw ''SHADOW_DATABASE_URL'' of None \<Rightarrow> Some None | Some v \<Rightarrow> if ev_isUrl lib v then Some (Some v) else None) (\<lambda>shadowUrl.
     bind_opt (env_string raw ''REDIS_URL'' None (ev_isUrl lib)) (\<lambda>redisUrl.
     bind_opt (env_string raw ''ALERT_WEBHOOK_URL'' (Some []) any_text) (\<lambda>webhook.
     bind_opt (env_string raw ''JWT_SECRET'' None (secret_ok 32)) (\<lambda>jwtSecret.
     bind_opt (env_string raw ''JWT_EXPIRES_IN'' (Some ''12h'') any_text) (\<lambda>jwtExpires.
     bind_opt (env_string raw ''OAUTH_STATE_SECRET'' None (secret_ok 32)) (\<lambda>stateSecret.
     bind_opt (env_string raw ''INTEGRATION_ENCRYPTION_KEY'' None hex_key_ok) (\<lambda>encKey.
     bind_opt (env_int lib raw ''INTEGRATION_ENCRYPTION_KEY_VERSION'' 1 1) (\<lambda>keyVersion.
     bind_opt (env_string raw ''INBOUND_EMAIL_DOMAIN'' (Some ''in.craftmind-ai.com'') bare_domain) (\<lambda>inboundDomain.
     bind_opt (env_string raw ''INBOUND_EMAIL_SECRET'' (Some []) (\<lambda>v. v = [] \<or> 32 \<le> js_length v)) (\<lambda>inboundSecret.
     bind_opt (env_string raw ''GOOGLE_CLIENT_ID'' (Some []) any_text) (\<lambda>googleId.
     bind_opt (env_string raw ''GOOGLE_CLIENT_SECRET'' (Some []) any_text) (\<lambda>googleSecret.
     bind_opt (env_string raw ''GOOGLE_REDIRECT_URI'' (Some []) any_text) (\<lambda>googleUri.
     bind_opt (env_string raw ''LLM_PROVIDER'' (Some ''auto'') (\<lambda>v. v \<in> {''auto'', ''anthropic'', ''gemini''})) (\<lambda>llm.
     bind_opt (env_string raw ''ANTHROPIC_API_KEY'' (Some []) any_text) (\<lambda>anKey.
     bind_opt (env_string raw ''ANTHROPIC_EXTRACTION_MODEL'' (Some ''claude-haiku-4-5-20251001'') any_text) (\<lambda>anExtraction.
     bind_opt (env_string raw ''ANTHROPIC_ONBOARDING_MODEL'' (Some ''claude-sonnet-5'') any_text) (\<lambda>anOnboarding.
     bind_opt (env_string raw ''GEMINI_API_KEY'' (Some []) any_text) (\<lambda>gmKey.
     bind_opt (env_string raw ''GEMINI_MODEL'' (Some ''gemini-3.7-flash'') any_text) (\<lambda>gmModel.
     bind_opt (env_int lib raw ''LLM_DEFAULT_MONTHLY_BUDGET_MINOR'' 0 50000) (\<lambda>budget.
     bind_opt (env_int lib raw ''LLM_MAX_INPUT_CHARS'' 1 40000) (\<lambda>maxChars.
     bind_opt (env_int lib raw ''ONBOARDING_MAX_LLM_CALLS_PER_SESSION'' 1 60) (\<lambda>maxCalls.
     bind_opt (env_int lib raw ''ONBOARDING_SESSION_TTL_HOURS'' 1 72) (\<lambda>ttl.
       Some \<lparr>ae_NODE_ENV = nodeEnv, ae_PORT = port, ae_LOG_LEVEL = logLevel, ae_BASE_DOMAIN = baseDomain, ae_CORS_ORIGINS = csv cors,
         ae_PUBLIC_APP_URL = publicUrl, ae_DATABASE_URL = dbUrl, ae_DIRECT_DATABASE_URL = directUrl, ae_SHADOW_DATABASE_URL = shadowUrl,
         ae_REDIS_URL = redisUrl, ae_ALERT_WEBHOOK_URL = webhook, ae_JWT_SECRET = jwtSecret, ae_JWT_EXPIRES_IN = jwtExpires,
         ae_OAUTH_STATE_SECRET = stateSecret, ae_INTEGRATION_ENCRYPTION_KEY = encKey, ae_INTEGRATION_ENCRYPTION_KEY_VERSION = keyVersion,
         ae_INBOUND_EMAIL_DOMAIN = inboundDomain, ae_INBOUND_EMAIL_SECRET = inboundSecret, ae_GOOGLE_CLIENT_ID = googleId,
         ae_GOOGLE_CLIENT_SECRET = googleSecret, ae_GOOGLE_REDIRECT_URI = googleUri, ae_LLM_PROVIDER = llm, ae_ANTHROPIC_API_KEY = anKey,
         ae_ANTHROPIC_EXTRACTION_MODEL = anExtraction, ae_ANTHROPIC_ONBOARDING_MODEL = anOnboarding, ae_GEMINI_API_KEY = gmKey,
         ae_GEMINI_MODEL = gmModel, ae_LLM_DEFAULT_MONTHLY_BUDGET_MINOR = budget, ae_LLM_MAX_INPUT_CHARS = maxChars,
         ae_ONBOARDING_MAX_LLM_CALLS_PER_SESSION = maxCalls, ae_ONBOARDING_SESSION_TTL_HOURS = ttl\<rparr>)))))))))))))))))))))))))))))))"

section \<open>Checks across variables\<close>

definition has_llm :: "app_env \<Rightarrow> bool" where
  "has_llm a \<longleftrightarrow> (ae_LLM_PROVIDER a \<noteq> ''gemini'' \<and> is_real_secret (ae_ANTHROPIC_API_KEY a))
     \<or> (ae_LLM_PROVIDER a \<noteq> ''anthropic'' \<and> is_real_secret (ae_GEMINI_API_KEY a))"

definition google_ok :: "app_env \<Rightarrow> bool" where
  "google_ok a \<longleftrightarrow>
     (let vs = [ae_GOOGLE_CLIENT_ID a, ae_GOOGLE_CLIENT_SECRET a, ae_GOOGLE_REDIRECT_URI a]
      in \<not> list_ex (\<lambda>v. v \<noteq> []) vs \<or> list_all google_value_ok vs)"

definition env_refined :: "app_env \<Rightarrow> bool" where
  "env_refined a \<longleftrightarrow> ae_JWT_SECRET a \<noteq> ae_OAUTH_STATE_SECRET a
     \<and> (ae_NODE_ENV a = ''production'' \<longrightarrow> has_llm a \<and> ae_CORS_ORIGINS a \<noteq> [] \<and> google_ok a)"

definition validate_env :: "env_lib \<Rightarrow> raw_env \<Rightarrow> app_env option" where
  "validate_env lib raw = (case env_object lib raw of None \<Rightarrow> None | Some a \<Rightarrow> if env_refined a then Some a else None)"

section \<open>What a started server can rely on\<close>

lemma bind_SomeE: "bind_opt x f = Some y \<Longrightarrow> (\<And>v. x = Some v \<Longrightarrow> f v = Some y \<Longrightarrow> thesis) \<Longrightarrow> thesis"
  by (auto simp: bind_opt_def split: option.splits)

lemma env_string_Some: "env_string raw k None ok = Some v \<longleftrightarrow> raw k = Some v \<and> ok v"
  by (auto simp: env_string_def split: option.splits)

lemma env_string_default: "env_string raw k (Some d) ok = Some v \<longleftrightarrow> (raw k = None \<and> v = d) \<or> (raw k = Some v \<and> ok v)"
  by (auto simp: env_string_def split: option.splits)

lemma env_int_Some: "env_int lib raw k mn d = Some i \<Longrightarrow> mn \<le> d \<Longrightarrow> mn \<le> i"
  by (auto simp: env_int_def split: option.splits if_splits)

lemma env_object_parts:
  assumes "env_object lib raw = Some a"
  shows "env_string raw ''JWT_SECRET'' None (secret_ok 32) = Some (ae_JWT_SECRET a)
    \<and> env_string raw ''OAUTH_STATE_SECRET'' None (secret_ok 32) = Some (ae_OAUTH_STATE_SECRET a)
    \<and> env_string raw ''INTEGRATION_ENCRYPTION_KEY'' None hex_key_ok = Some (ae_INTEGRATION_ENCRYPTION_KEY a)
    \<and> env_int lib raw ''INTEGRATION_ENCRYPTION_KEY_VERSION'' 1 1 = Some (ae_INTEGRATION_ENCRYPTION_KEY_VERSION a)
    \<and> env_string raw ''DATABASE_URL'' None (\<lambda>v. ev_isUrl lib v \<and> \<not> has_infix ''craftmind_migrator'' v) = Some (ae_DATABASE_URL a)
    \<and> env_string raw ''INBOUND_EMAIL_SECRET'' (Some []) (\<lambda>v. v = [] \<or> 32 \<le> js_length v) = Some (ae_INBOUND_EMAIL_SECRET a)"
  using assms unfolding env_object_def
  apply -
  apply (elim bind_SomeE)
  apply (drule option.inject [THEN iffD1])
  apply hypsubst
  apply (unfold app_env.select_convs)
  apply (intro conjI)
  apply assumption+
  done

lemma env_object_values:
  assumes "env_object lib raw = Some a"
  shows "raw ''JWT_SECRET'' = Some (ae_JWT_SECRET a)" "secret_ok 32 (ae_JWT_SECRET a)"
    "raw ''OAUTH_STATE_SECRET'' = Some (ae_OAUTH_STATE_SECRET a)" "secret_ok 32 (ae_OAUTH_STATE_SECRET a)"
    "raw ''INTEGRATION_ENCRYPTION_KEY'' = Some (ae_INTEGRATION_ENCRYPTION_KEY a)" "hex_key_ok (ae_INTEGRATION_ENCRYPTION_KEY a)"
    "env_int lib raw ''INTEGRATION_ENCRYPTION_KEY_VERSION'' 1 1 = Some (ae_INTEGRATION_ENCRYPTION_KEY_VERSION a)"
    "raw ''DATABASE_URL'' = Some (ae_DATABASE_URL a)" "\<not> has_infix ''craftmind_migrator'' (ae_DATABASE_URL a)"
  using env_object_parts [OF assms] unfolding env_string_Some by simp_all

text \<open>The environment of the process, as the encryption of secrets reads it.\<close>

definition process_keys :: "raw_env \<Rightarrow> (nat \<Rightarrow> string option) \<Rightarrow> key_env" where
  "process_keys raw older = \<lparr>ke_version = raw ''INTEGRATION_ENCRYPTION_KEY_VERSION'', ke_current = raw ''INTEGRATION_ENCRYPTION_KEY'',
     ke_older = older\<rparr>"

lemma length_hex_decode: "list_all is_hex s \<Longrightarrow> length s = 2 * n \<Longrightarrow> length (hex_decode s) = n"
proof (induction s arbitrary: n rule: hex_decode.induct)
  case (1 a b s)
  then show ?case by (cases n) simp_all
next
  case "2_2"
  then have "Suc 0 = 2 * n" by simp
  then have False by arith
  then show ?case ..
qed simp

lemma checked_version:
  assumes "env_int lib raw ''INTEGRATION_ENCRYPTION_KEY_VERSION'' 1 1 = Some v" and "cl_number cl = ev_number lib"
    and "ev_number lib [] = Some 0"
  shows "current_key_version cl (process_keys raw older) = Inr (nat v)"
proof (cases "raw ''INTEGRATION_ENCRYPTION_KEY_VERSION''")
  case None
  with assms(1) show ?thesis by (simp add: env_int_def current_key_version_def process_keys_def legacy_key_version_def)
next
  case (Some s)
  with assms(1) obtain q where q: "ev_number lib s = Some q" "of_int \<lfloor>q\<rfloor> = q" "1 \<le> \<lfloor>q\<rfloor>" "v = \<lfloor>q\<rfloor>"
    by (auto simp: env_int_def split: option.splits if_splits)
  with assms(3) have "s \<noteq> []" by auto
  moreover have "1 \<le> q" using q(2,3) by linarith
  ultimately show ?thesis
    using Some q assms(2) by (simp add: current_key_version_def process_keys_def positive_int_def truthy_def)
qed

lemma accepted_key:
  assumes "env_object lib raw = Some a" and "cl_number cl = ev_number lib" and "ev_number lib [] = Some 0"
  shows "key_for_version cl (process_keys raw older) (nat (ae_INTEGRATION_ENCRYPTION_KEY_VERSION a))
      = Inr (hex_decode (ae_INTEGRATION_ENCRYPTION_KEY a))"
    and "length (hex_decode (ae_INTEGRATION_ENCRYPTION_KEY a)) = 32"
    and "\<exists>blob. encrypt_secret_versioned cl (process_keys raw older) iv plain
      = Inr (blob, nat (ae_INTEGRATION_ENCRYPTION_KEY_VERSION a))"
proof -
  note v = env_object_values [OF assms(1)]
  note c = checked_version [OF v(7) assms(2,3), of older]
  from v(6) have k: "length (ae_INTEGRATION_ENCRYPTION_KEY a) = 2 * 32" "list_all is_hex (ae_INTEGRATION_ENCRYPTION_KEY a)"
    by (simp_all add: hex_key_ok_def)
  show l: "length (hex_decode (ae_INTEGRATION_ENCRYPTION_KEY a)) = 32" by (rule length_hex_decode [OF k(2,1)])
  show f: "key_for_version cl (process_keys raw older) (nat (ae_INTEGRATION_ENCRYPTION_KEY_VERSION a))
      = Inr (hex_decode (ae_INTEGRATION_ENCRYPTION_KEY a))"
    using k by (simp add: key_for_version_def c) (simp add: process_keys_def v(5) parse_key_hex_def)
  show "\<exists>blob. encrypt_secret_versioned cl (process_keys raw older) iv plain
      = Inr (blob, nat (ae_INTEGRATION_ENCRYPTION_KEY_VERSION a))"
    by (simp add: encrypt_secret_versioned_def c f split: prod.split)
qed

text \<open>C39. A server only starts with a token secret and a state secret that were given, not defaulted,
  differ, have 32 characters or more and begin with no placeholder word; with a 32-byte key at the
  version it names, so that every secret can be encrypted; and with a database URL that was given and
  does not name the migrator. In production it also has a web origin, all of the Google variables with
  real values or none, and a key for the language model it then chooses.\<close>
theorem accepted_environment:
  assumes "validate_env lib raw = Some a" and "cl_number cl = ev_number lib" and "ev_number lib [] = Some 0"
  shows "raw ''JWT_SECRET'' = Some (ae_JWT_SECRET a) \<and> raw ''OAUTH_STATE_SECRET'' = Some (ae_OAUTH_STATE_SECRET a)
    \<and> ae_JWT_SECRET a \<noteq> ae_OAUTH_STATE_SECRET a
    \<and> (\<forall>s \<in> {ae_JWT_SECRET a, ae_OAUTH_STATE_SECRET a}. 32 \<le> js_length s
         \<and> (\<forall>w \<in> {''replace'', ''change'', ''dev-only'', ''test'', ''secret'', ''password''}. \<not> starts_with w (to_lower s)))
    \<and> (\<exists>key. key_for_version cl (process_keys raw older) (nat (ae_INTEGRATION_ENCRYPTION_KEY_VERSION a)) = Inr key \<and> length key = 32)
    \<and> (\<forall>iv plain. \<exists>blob. encrypt_secret_versioned cl (process_keys raw older) iv plain
         = Inr (blob, nat (ae_INTEGRATION_ENCRYPTION_KEY_VERSION a)))
    \<and> raw ''DATABASE_URL'' = Some (ae_DATABASE_URL a) \<and> \<not> has_infix ''craftmind_migrator'' (ae_DATABASE_URL a)
    \<and> (ae_NODE_ENV a = ''production'' \<longrightarrow> ae_CORS_ORIGINS a \<noteq> []
        \<and> (let vs = {ae_GOOGLE_CLIENT_ID a, ae_GOOGLE_CLIENT_SECRET a, ae_GOOGLE_REDIRECT_URI a}
           in (\<forall>v \<in> vs. v = []) \<or> (\<forall>v \<in> vs. v \<noteq> [] \<and> \<not> contains_ci ''placeholder'' v \<and> \<not> contains_ci ''replace_with'' v
                \<and> \<not> contains_ci ''your-'' v \<and> \<not> contains_ci ''your_'' v))
        \<and> (\<forall>an gm. an_apiKey an = ae_ANTHROPIC_API_KEY a \<and> gm_apiKey gm = ae_GEMINI_API_KEY a
             \<longrightarrow> pv_isConfigured (choose_provider (ae_LLM_PROVIDER a) (anthropic_provider an) (gemini_provider gm))))"
proof -
  from assms(1) have o: "env_object lib raw = Some a" and r: "env_refined a"
    by (auto simp: validate_env_def split: option.splits if_splits)
  note v = env_object_values [OF o] and k = accepted_key(1,3) [OF o assms(2,3), of older] accepted_key(2) [OF o assms(2,3)]
  have secrets: "32 \<le> js_length s \<and> (\<forall>w \<in> {''replace'', ''change'', ''dev-only'', ''test'', ''secret'', ''password''}. \<not> starts_with w (to_lower s))"
    if "s \<in> {ae_JWT_SECRET a, ae_OAUTH_STATE_SECRET a}" for s
  proof -
    from that v(2,4) have "secret_ok 32 s" by blast
    then show ?thesis by (simp add: secret_ok_def placeholder_starts_def)
  qed
  have c: "pv_isConfigured (choose_provider (ae_LLM_PROVIDER a) (anthropic_provider an) (gemini_provider gm))"
    if "has_llm a" "an_apiKey an = ae_ANTHROPIC_API_KEY a" "gm_apiKey gm = ae_GEMINI_API_KEY a" for an gm
    using that
    by (auto simp: has_llm_def is_real_secret_def choose_provider_def anthropic_provider_def gemini_provider_def
        anthropic_configured_def gemini_configured_def)
  have g: "(\<forall>v \<in> vs. v = []) \<or> (\<forall>v \<in> vs. v \<noteq> [] \<and> \<not> contains_ci ''placeholder'' v \<and> \<not> contains_ci ''replace_with'' v
      \<and> \<not> contains_ci ''your-'' v \<and> \<not> contains_ci ''your_'' v)"
    if "google_ok a" "vs = {ae_GOOGLE_CLIENT_ID a, ae_GOOGLE_CLIENT_SECRET a, ae_GOOGLE_REDIRECT_URI a}" for vs
    using that(1) unfolding that(2) google_ok_def google_value_ok_def Let_def by auto
  have prod: "ae_CORS_ORIGINS a \<noteq> [] \<and> google_ok a \<and> has_llm a" if "ae_NODE_ENV a = ''production''"
    using r that by (simp add: env_refined_def)
  have d: "ae_JWT_SECRET a \<noteq> ae_OAUTH_STATE_SECRET a" using r by (simp add: env_refined_def)
  have p: "ae_NODE_ENV a = ''production'' \<longrightarrow> ae_CORS_ORIGINS a \<noteq> []
        \<and> (let vs = {ae_GOOGLE_CLIENT_ID a, ae_GOOGLE_CLIENT_SECRET a, ae_GOOGLE_REDIRECT_URI a}
           in (\<forall>v \<in> vs. v = []) \<or> (\<forall>v \<in> vs. v \<noteq> [] \<and> \<not> contains_ci ''placeholder'' v \<and> \<not> contains_ci ''replace_with'' v
                \<and> \<not> contains_ci ''your-'' v \<and> \<not> contains_ci ''your_'' v))
        \<and> (\<forall>an gm. an_apiKey an = ae_ANTHROPIC_API_KEY a \<and> gm_apiKey gm = ae_GEMINI_API_KEY a
             \<longrightarrow> pv_isConfigured (choose_provider (ae_LLM_PROVIDER a) (anthropic_provider an) (gemini_provider gm)))"
    unfolding Let_def
  proof (rule impI)
    assume "ae_NODE_ENV a = ''production''"
    from prod [OF this] have q: "ae_CORS_ORIGINS a \<noteq> []" "google_ok a" "has_llm a" by simp_all
    show "ae_CORS_ORIGINS a \<noteq> []
        \<and> ((\<forall>v \<in> {ae_GOOGLE_CLIENT_ID a, ae_GOOGLE_CLIENT_SECRET a, ae_GOOGLE_REDIRECT_URI a}. v = [])
           \<or> (\<forall>v \<in> {ae_GOOGLE_CLIENT_ID a, ae_GOOGLE_CLIENT_SECRET a, ae_GOOGLE_REDIRECT_URI a}. v \<noteq> []
                \<and> \<not> contains_ci ''placeholder'' v \<and> \<not> contains_ci ''replace_with'' v
                \<and> \<not> contains_ci ''your-'' v \<and> \<not> contains_ci ''your_'' v))
        \<and> (\<forall>an gm. an_apiKey an = ae_ANTHROPIC_API_KEY a \<and> gm_apiKey gm = ae_GEMINI_API_KEY a
             \<longrightarrow> pv_isConfigured (choose_provider (ae_LLM_PROVIDER a) (anthropic_provider an) (gemini_provider gm)))"
      by (intro conjI allI impI q(1) g [OF q(2) refl]) (rule c [OF q(3)]; simp)
  qed
  show ?thesis
    by (intro conjI allI ballI v(1,3,8,9) d p k(2) exI [of _ "hex_decode (ae_INTEGRATION_ENCRYPTION_KEY a)"] k(1,3) secrets [THEN conjunct1]
        secrets [THEN conjunct2, THEN bspec])
qed

text \<open>An environment of a production server whose Anthropic key is a placeholder.\<close>

definition demo_raw_env :: raw_env where
  "demo_raw_env = map_of [(''NODE_ENV'', ''production''), (''BASE_DOMAIN'', ''x.co''), (''CORS_ORIGINS'', ''https://x.co''),
     (''DATABASE_URL'', ''postgres://app''), (''DIRECT_DATABASE_URL'', ''postgres://app''), (''REDIS_URL'', ''redis://x''),
     (''JWT_SECRET'', replicate 32 CHR ''a''), (''OAUTH_STATE_SECRET'', replicate 32 CHR ''b''),
     (''INTEGRATION_ENCRYPTION_KEY'', replicate 64 CHR ''c''), (''ANTHROPIC_API_KEY'', ''your-key''), (''GEMINI_API_KEY'', ''AIza'')]"

definition demo_env_lib :: env_lib where
  "demo_env_lib = \<lparr>ev_isUrl = (\<lambda>_. True), ev_number = (\<lambda>s. if s = [] then Some 0 else None)\<rparr>"

lemma demo_env_accepted: "validate_env demo_env_lib demo_raw_env \<noteq> None"
  by code_simp

theorem accepted_environment_witness:
  "\<exists>a. validate_env demo_env_lib demo_raw_env = Some a \<and> ae_JWT_SECRET a \<noteq> ae_OAUTH_STATE_SECRET a
     \<and> (\<exists>blob n. encrypt_secret_versioned (demo_cipher\<lparr>cl_number := ev_number demo_env_lib\<rparr>) (process_keys demo_raw_env (\<lambda>_. None)) ''iv'' ''token'' = Inr (blob, n))"
proof -
  obtain a where a: "validate_env demo_env_lib demo_raw_env = Some a" using demo_env_accepted by blast
  have n: "cl_number (demo_cipher\<lparr>cl_number := ev_number demo_env_lib\<rparr>) = ev_number demo_env_lib" by simp
  have z: "ev_number demo_env_lib [] = Some 0" by (simp add: demo_env_lib_def)
  from accepted_environment [OF a n z, of "\<lambda>_. None"] a show ?thesis by blast
qed

text \<open>The check counts a placeholder as no key, the choice counts it as a key.\<close>

theorem placeholder_key_is_chosen:
  "\<exists>lib raw a. validate_env lib raw = Some a \<and> ae_NODE_ENV a = ''production'' \<and> is_real_secret (ae_GEMINI_API_KEY a)
     \<and> \<not> is_real_secret (ae_ANTHROPIC_API_KEY a)
     \<and> (\<exists>an. an_apiKey an = ae_ANTHROPIC_API_KEY a
          \<and> (\<forall>gm. choose_provider (ae_LLM_PROVIDER a) (anthropic_provider an) (gemini_provider gm) = anthropic_provider an))"
proof -
  obtain a where a: "validate_env demo_env_lib demo_raw_env = Some a" using demo_env_accepted by blast
  then have "ae_NODE_ENV a = ae_NODE_ENV (the (validate_env demo_env_lib demo_raw_env))"
    "ae_GEMINI_API_KEY a = ae_GEMINI_API_KEY (the (validate_env demo_env_lib demo_raw_env))"
    "ae_ANTHROPIC_API_KEY a = ae_ANTHROPIC_API_KEY (the (validate_env demo_env_lib demo_raw_env))"
    "ae_LLM_PROVIDER a = ae_LLM_PROVIDER (the (validate_env demo_env_lib demo_raw_env))" by simp_all
  moreover have "ae_NODE_ENV (the (validate_env demo_env_lib demo_raw_env)) = ''production''"
    "ae_GEMINI_API_KEY (the (validate_env demo_env_lib demo_raw_env)) = ''AIza''"
    "ae_ANTHROPIC_API_KEY (the (validate_env demo_env_lib demo_raw_env)) = ''your-key''"
    "ae_LLM_PROVIDER (the (validate_env demo_env_lib demo_raw_env)) = ''auto''" by code_simp+
  ultimately have f: "ae_NODE_ENV a = ''production''" "ae_GEMINI_API_KEY a = ''AIza''" "ae_ANTHROPIC_API_KEY a = ''your-key''"
    "ae_LLM_PROVIDER a = ''auto''" by simp_all
  have r: "is_real_secret ''AIza''" "\<not> is_real_secret ''your-key''" "trim ''your-key'' \<noteq> []" by code_simp+
  let ?an = "\<lparr>an_apiKey = ''your-key'', an_model = [], an_create = \<lambda>_. Inl (Unauthorized [])\<rparr>"
  have "\<forall>gm. choose_provider ''auto'' (anthropic_provider ?an) (gemini_provider gm) = anthropic_provider ?an"
    using r(3) by (simp add: choose_provider_def anthropic_provider_def anthropic_configured_def)
  moreover have "an_apiKey ?an = ''your-key''" by simp
  ultimately show ?thesis using a f r(1,2) by metis
qed

end
