(* ===== verification/Operations.thy ===== *)
theory Operations
  imports Outbox Bytes
begin

text \<open>
  What surrounds the services: the answer to an unhandled error (common/filters/
  all-exceptions.filter.ts), the alerts to the operators (alerting/alert.service.ts) and the
  scheduling of the Gmail synchronisation (queue/intake.processor.ts, with the function
  \<open>list_intake_tenants\<close> of migration 0004).
\<close>

section \<open>Errors as answers\<close>

datatype log_level = Log_Warn | Log_Error

fun http_status :: "http_error \<Rightarrow> nat option" where
  "http_status (BadRequest _) = Some 400"
| "http_status (Unauthorized _) = Some 401"
| "http_status (Forbidden _) = Some 403"
| "http_status (NotFound _) = Some 404"
| "http_status (Conflict _) = Some 409"
| "http_status (Unprocessable _) = Some 422"
| "http_status (TooManyRequests _) = Some 429"
| "http_status (BadGateway _) = Some 502"
| "http_status (ServiceUnavailable _) = Some 503"
| "http_status _ = None"

text \<open>The text of a database error is \<open>rawText\<close> of its code.\<close>

definition raw_message :: "(string \<Rightarrow> string) \<Rightarrow> http_error \<Rightarrow> string" where
  "raw_message rawText err = (case err of PrismaKnown code \<Rightarrow> rawText code | _ \<Rightarrow> error_message err)"

definition isolation_text :: "string \<Rightarrow> bool" where
  "isolation_text raw \<longleftrightarrow> has_infix ''42501'' raw \<or> contains_ci ''row-level security'' raw \<or> contains_ci ''tenant context is not set'' raw"

definition internal_error :: string where
  "internal_error = ''Internal server error''"

definition classify_exception :: "bool \<Rightarrow> (string \<Rightarrow> string) \<Rightarrow> http_error \<Rightarrow> nat \<times> string \<times> log_level" where
  "classify_exception isProduction rawText err =
     (case http_status err of
        Some status \<Rightarrow> (status, error_message err, if 500 \<le> status then Log_Error else Log_Warn)
      | None \<Rightarrow>
          if err = PrismaKnown ''P2002'' then (409, ''Resource already exists'', Log_Warn)
          else if err = PrismaKnown ''P2025'' then (404, ''Resource not found'', Log_Warn)
          else if err = PrismaKnown ''P2003'' then (400, ''Related resource does not exist'', Log_Warn)
          else if isolation_text (raw_message rawText err) then (500, internal_error, Log_Error)
          else (500, if isProduction then internal_error else raw_message rawText err, Log_Error))"

record error_response =
  er_statusCode :: nat
  er_message :: string
  er_timestamp :: int
  er_path :: string

definition catch_exception :: "bool \<Rightarrow> (string \<Rightarrow> string) \<Rightarrow> env \<Rightarrow> string \<Rightarrow> http_error \<Rightarrow> error_response" where
  "catch_exception isProduction rawText e url err =
     (case classify_exception isProduction rawText err of
        (status, message, _) \<Rightarrow> \<lparr>er_statusCode = status, er_message = message, er_timestamp = now e, er_path = url\<rparr>)"

text \<open>In production the answer does not depend on the text of an internal error, and nowhere does
  it show that the isolation of the tenants refused a query.\<close>

theorem production_hides_internals:
  "catch_exception True rawText e url (Thrown m) = catch_exception True rawText' e url (Thrown m')
   \<and> catch_exception True rawText e url (PrismaKnown code) = catch_exception True rawText' e url (PrismaKnown code)
   \<and> er_message (catch_exception True rawText e url (PrismaKnown code))
       \<in> {''Resource already exists'', ''Resource not found'', ''Related resource does not exist'', internal_error}
   \<and> (\<not> isolation_text m \<or> catch_exception p rawText e url (Thrown m)
        = \<lparr>er_statusCode = 500, er_message = internal_error, er_timestamp = now e, er_path = url\<rparr>)"
  by (simp add: catch_exception_def classify_exception_def raw_message_def)

section \<open>Alerts\<close>

datatype severity = Warning | Critical

record alert =
  at_severity :: severity
  at_event :: string
  at_summary :: string
  at_tenantId :: "string option"

definition dedupe_window_ms :: int where
  "dedupe_window_ms = 5 * 60000"

text \<open>What becomes of an alert. A failed post is logged as well and changes nothing.\<close>

datatype alert_outcome = Suppressed | Logged | Posted

definition alert_key :: "alert \<Rightarrow> string" where
  "alert_key a = at_event a @ '':'' @ or_else (at_tenantId a) ''global''"

definition send_alert :: "string \<Rightarrow> int \<Rightarrow> alert \<Rightarrow> (string \<rightharpoonup> int) \<Rightarrow> alert_outcome \<times> (string \<rightharpoonup> int)" where
  "send_alert webhookUrl time a lastSent =
     (if (case lastSent (alert_key a) of None \<Rightarrow> False | Some last_t \<Rightarrow> time - last_t < dedupe_window_ms) then (Suppressed, lastSent)
      else (if webhookUrl = [] then Logged else Posted, lastSent(alert_key a \<mapsto> time)))"

fun send_alerts :: "string \<Rightarrow> (int \<times> alert) list \<Rightarrow> (string \<rightharpoonup> int) \<Rightarrow> alert_outcome list" where
  "send_alerts url [] st = []"
| "send_alerts url ((time, a) # as) st =
     (let (oc, st') = send_alert url time a st in oc # send_alerts url as st')"

text \<open>The alert of an event that was given up (domain-events.processor.ts).\<close>

definition dead_alert :: "string \<times> nat \<Rightarrow> alert" where
  "dead_alert p = \<lparr>at_severity = Critical, at_event = ''outbox.dead'',
     at_summary = ''Outbox event permanently failed after '' @ show_nat (snd p) @ '' attempts '' @ utf8 [8212] @ '' a business action did not happen'',
     at_tenantId = None\<rparr>"

definition spaced :: "(string \<rightharpoonup> int) \<Rightarrow> (int \<times> alert) list \<Rightarrow> alert_outcome list \<Rightarrow> bool" where
  "spaced st as ocs \<longleftrightarrow> (\<forall>j < length as.
     (ocs ! j \<noteq> Suppressed \<longrightarrow>
        (\<forall>t. st (alert_key (snd (as ! j))) = Some t \<longrightarrow> t + dedupe_window_ms \<le> fst (as ! j))
        \<and> (\<forall>i < j. ocs ! i \<noteq> Suppressed \<and> alert_key (snd (as ! i)) = alert_key (snd (as ! j))
              \<longrightarrow> fst (as ! i) + dedupe_window_ms \<le> fst (as ! j)))
     \<and> (ocs ! j = Suppressed \<longrightarrow>
        (\<exists>t. st (alert_key (snd (as ! j))) = Some t \<and> fst (as ! j) < t + dedupe_window_ms)
        \<or> (\<exists>i < j. ocs ! i \<noteq> Suppressed \<and> alert_key (snd (as ! i)) = alert_key (snd (as ! j))
              \<and> fst (as ! j) < fst (as ! i) + dedupe_window_ms)))"

lemma length_send_alerts [simp]: "length (send_alerts url as st) = length as"
  by (induction as arbitrary: st) (auto simp: case_prod_beta Let_def)

lemma spaced_Cons:
  assumes "send_alert url time a st = (oc, st')" and "spaced st' as ocs" and "length ocs = length as"
    and "\<forall>p \<in> set as. time \<le> fst p"
  shows "spaced st ((time, a) # as) (oc # ocs)"
proof -
  let ?k = "alert_key a"
  have first: "(oc \<noteq> Suppressed \<longrightarrow> (\<forall>t. st ?k = Some t \<longrightarrow> t + dedupe_window_ms \<le> time))
      \<and> (oc = Suppressed \<longrightarrow> (\<exists>t. st ?k = Some t \<and> time < t + dedupe_window_ms))"
    and st': "st' = (if oc = Suppressed then st else st(?k \<mapsto> time))"
    using assms(1) by (auto simp: send_alert_def split: if_splits option.splits)
  show ?thesis unfolding spaced_def
  proof (intro allI impI)
    fix j
    assume j: "j < length ((time, a) # as)"
    show "((oc # ocs) ! j \<noteq> Suppressed \<longrightarrow>
        (\<forall>t. st (alert_key (snd (((time, a) # as) ! j))) = Some t \<longrightarrow> t + dedupe_window_ms \<le> fst (((time, a) # as) ! j))
        \<and> (\<forall>i < j. (oc # ocs) ! i \<noteq> Suppressed \<and> alert_key (snd (((time, a) # as) ! i)) = alert_key (snd (((time, a) # as) ! j))
              \<longrightarrow> fst (((time, a) # as) ! i) + dedupe_window_ms \<le> fst (((time, a) # as) ! j)))
     \<and> ((oc # ocs) ! j = Suppressed \<longrightarrow>
        (\<exists>t. st (alert_key (snd (((time, a) # as) ! j))) = Some t \<and> fst (((time, a) # as) ! j) < t + dedupe_window_ms)
        \<or> (\<exists>i < j. (oc # ocs) ! i \<noteq> Suppressed \<and> alert_key (snd (((time, a) # as) ! i)) = alert_key (snd (((time, a) # as) ! j))
              \<and> fst (((time, a) # as) ! j) < fst (((time, a) # as) ! i) + dedupe_window_ms))"
    proof (cases j)
      case 0
      with first show ?thesis by simp
    next
      case (Suc m)
      with j have m: "m < length as" by simp
      let ?p = "as ! m"
      have s: "(ocs ! m \<noteq> Suppressed \<longrightarrow>
          (\<forall>t. st' (alert_key (snd ?p)) = Some t \<longrightarrow> t + dedupe_window_ms \<le> fst ?p)
          \<and> (\<forall>i < m. ocs ! i \<noteq> Suppressed \<and> alert_key (snd (as ! i)) = alert_key (snd ?p) \<longrightarrow> fst (as ! i) + dedupe_window_ms \<le> fst ?p))
        \<and> (ocs ! m = Suppressed \<longrightarrow>
          (\<exists>t. st' (alert_key (snd ?p)) = Some t \<and> fst ?p < t + dedupe_window_ms)
          \<or> (\<exists>i < m. ocs ! i \<noteq> Suppressed \<and> alert_key (snd (as ! i)) = alert_key (snd ?p) \<and> fst ?p < fst (as ! i) + dedupe_window_ms))"
        using assms(2) m unfolding spaced_def by blast
      have le: "time \<le> fst ?p" using assms(4) m by auto
      show ?thesis
      proof (cases "oc = Suppressed")
        case True
        with s st' Suc show ?thesis by (auto simp: less_Suc_eq_0_disj)
      next
        case sent: False
        show ?thesis
        proof (cases "alert_key (snd ?p) = ?k")
          case False
          with s st' sent Suc show ?thesis by (auto simp: less_Suc_eq_0_disj)
        next
          case same: True
          have late: "t + dedupe_window_ms \<le> fst ?p" if "st ?k = Some t" for t
            using first sent that le by auto
          with s st' sent Suc same show ?thesis by (auto simp: less_Suc_eq_0_disj)
        qed
      qed
    qed
  qed
qed

lemma alerts_spaced: "sorted (map fst as) \<Longrightarrow> spaced st as (send_alerts url as st)"
proof (induction as arbitrary: st)
  case (Cons p as)
  obtain time a where p: "p = (time, a)" by fastforce
  obtain oc st' where s: "send_alert url time a st = (oc, st')" by fastforce
  have "spaced st ((time, a) # as) (oc # send_alerts url as st')"
    by (rule spaced_Cons [OF s Cons.IH]) (use Cons.prems in \<open>auto simp: p\<close>)
  then show ?case by (simp add: p s)
qed (simp add: spaced_def)

theorem alerts_are_spaced:
  assumes "sorted (map fst as)" and "j < length as"
  shows "(send_alerts url as Map.empty ! j \<noteq> Suppressed \<longrightarrow>
      (\<forall>i < j. send_alerts url as Map.empty ! i \<noteq> Suppressed \<and> alert_key (snd (as ! i)) = alert_key (snd (as ! j))
         \<longrightarrow> fst (as ! i) + dedupe_window_ms \<le> fst (as ! j)))
    \<and> (send_alerts url as Map.empty ! j = Suppressed \<longrightarrow>
      (\<exists>i < j. send_alerts url as Map.empty ! i \<noteq> Suppressed \<and> alert_key (snd (as ! i)) = alert_key (snd (as ! j))
         \<and> fst (as ! j) < fst (as ! i) + dedupe_window_ms))"
  using alerts_spaced [OF assms(1), of Map.empty url] assms(2) unfolding spaced_def by auto

text \<open>Every event that is given up shares one key, whatever its tenant: the second one within five
  minutes is given up without an alert.\<close>

theorem second_dead_event_is_silent:
  assumes "retry_attempts \<le> jb_attemptsMade j1 + 1" and "retry_attempts \<le> jb_attemptsMade j2 + 1"
    and "now e1 \<le> now e2" and "now e2 < now e1 + dedupe_window_ms"
  shows "\<exists>d1 d2. s_alerts (record_failure e2 j2 err2 (record_failure e1 j1 err1 s)) = s_alerts s @ [d1, d2]
    \<and> send_alerts url [(now e1, dead_alert d1), (now e2, dead_alert d2)] Map.empty ! 1 = Suppressed"
proof -
  have "s_alerts (record_failure e2 j2 err2 (record_failure e1 j1 err1 s))
      = s_alerts s @ [(jb_outboxEventId j1, jb_attemptsMade j1 + 1), (jb_outboxEventId j2, jb_attemptsMade j2 + 1)]"
    using assms(1,2) by (simp add: record_failure_def Let_def)
  moreover have "send_alerts url [(now e1, dead_alert d1), (now e2, dead_alert d2)] Map.empty ! 1 = Suppressed" for d1 d2
    using assms(3,4) by (simp add: send_alert_def alert_key_def dead_alert_def case_prod_beta)
  ultimately show ?thesis by blast
qed

section \<open>Scheduling the synchronisation\<close>

record intake_job =
  ij_id :: string
  ij_tenantId :: string

definition list_intake_tenants :: "integration_provider \<Rightarrow> db \<Rightarrow> string list" where
  "list_intake_tenants p db = map in_tenantId (filter (\<lambda>r. in_provider r = p \<and> in_status r = CONNECTED
     \<and> list_ex (\<lambda>t. tn_id t = in_tenantId r \<and> tn_isActive t) (tenants db)) (integrations db))"

definition minute_of :: "env \<Rightarrow> nat" where
  "minute_of e = nat (now e div 60000)"

definition intake_job_id :: "env \<Rightarrow> string \<Rightarrow> string" where
  "intake_job_id e tid = ''intake-gmail-'' @ tid @ ''-'' @ show_nat (minute_of e)"

text \<open>BullMQ ignores a job whose id it knows.\<close>

definition intake_add :: "env \<Rightarrow> string \<Rightarrow> intake_job list \<Rightarrow> intake_job list" where
  "intake_add e tid q = (if list_ex (\<lambda>j. ij_id j = intake_job_id e tid) q then q
     else q @ [\<lparr>ij_id = intake_job_id e tid, ij_tenantId = tid\<rparr>])"

definition fan_out :: "env \<Rightarrow> db \<Rightarrow> intake_job list \<Rightarrow> nat \<times> intake_job list" where
  "fan_out e db q = (let rows = list_intake_tenants GMAIL db in (length rows, fold (intake_add e) rows q))"

text \<open>The repeated job has no tenant and fans out; the others synchronise one mailbox.\<close>

definition intake_process :: "(string \<Rightarrow> 'r) \<Rightarrow> env \<Rightarrow> db \<Rightarrow> string \<Rightarrow> intake_job list \<Rightarrow> (nat + 'r) \<times> intake_job list" where
  "intake_process syncOne e db tid q =
     (if tid = [] then (let (n, q') = fan_out e db q in (Inl n, q')) else (Inr (syncOne tid), q))"

fun fan_outs :: "(env \<times> db) list \<Rightarrow> intake_job list \<Rightarrow> intake_job list" where
  "fan_outs [] q = q"
| "fan_outs ((e, db) # rs) q = fan_outs rs (snd (fan_out e db q))"

text \<open>One job for a tenant and a minute, and only for tenants that were connected then.\<close>

definition intake_ok :: "(env \<times> db) list \<Rightarrow> intake_job list \<Rightarrow> bool" where
  "intake_ok rs q \<longleftrightarrow> distinct (map ij_id q)
     \<and> (\<forall>j \<in> set q. \<exists>(e, db) \<in> set rs. ij_tenantId j \<in> set (list_intake_tenants GMAIL db) \<and> ij_id j = intake_job_id e (ij_tenantId j))"

lemma intake_ok_add:
  assumes "intake_ok rs q" and "(e, db) \<in> set rs" and "tid \<in> set (list_intake_tenants GMAIL db)"
  shows "intake_ok rs (intake_add e tid q)"
  using assms by (auto simp: intake_ok_def intake_add_def list_ex_iff)

lemma intake_ok_fold:
  "intake_ok rs q \<Longrightarrow> (e, db) \<in> set rs \<Longrightarrow> set tids \<subseteq> set (list_intake_tenants GMAIL db) \<Longrightarrow> intake_ok rs (fold (intake_add e) tids q)"
  by (induction tids arbitrary: q) (auto intro: intake_ok_add)

lemma intake_ok_fan_outs: "intake_ok all q \<Longrightarrow> set rs \<subseteq> set all \<Longrightarrow> intake_ok all (fan_outs rs q)"
proof (induction rs arbitrary: q)
  case (Cons r rs)
  obtain e db where r: "r = (e, db)" by fastforce
  have "intake_ok all (fold (intake_add e) (list_intake_tenants GMAIL db) q)"
    using Cons.prems by (intro intake_ok_fold) (auto simp: r)
  with Cons show ?case by (simp add: r fan_out_def Let_def)
qed simp

lemma intake_add_has: "list_ex (\<lambda>j. ij_id j = intake_job_id e tid) (intake_add e tid q)"
  by (simp add: intake_add_def)

lemma intake_add_keeps: "set q \<subseteq> set (intake_add e tid q)"
  by (auto simp: intake_add_def)

lemma fold_add_keeps: "set q \<subseteq> set (fold (intake_add e) tids q)"
  by (induction tids arbitrary: q) (use intake_add_keeps in \<open>fastforce+\<close>)

lemma fold_add_has: "tid \<in> set tids \<Longrightarrow> \<exists>j \<in> set (fold (intake_add e) tids q). ij_id j = intake_job_id e tid"
proof (induction tids arbitrary: q)
  case (Cons t tids)
  show ?case
  proof (cases "t = tid")
    case True
    with intake_add_has [of e tid q] obtain j where "j \<in> set (intake_add e tid q)" "ij_id j = intake_job_id e tid" by (auto simp: list_ex_iff)
    with fold_add_keeps [of "intake_add e tid q" e tids] True show ?thesis by auto
  qed (use Cons in auto)
qed simp

lemma fan_outs_keep: "set q \<subseteq> set (fan_outs rs q)"
proof (induction rs arbitrary: q)
  case (Cons r rs)
  obtain e db where r: "r = (e, db)" by fastforce
  show ?case using Cons [of "snd (fan_out e db q)"] fold_add_keeps [of q e "list_intake_tenants GMAIL db"]
    by (auto simp: r fan_out_def Let_def)
qed simp

theorem intake_runs_once_a_minute:
  "distinct (map ij_id (fan_outs rs []))
   \<and> (\<forall>j \<in> set (fan_outs rs []). \<exists>(e, db) \<in> set rs. ij_id j = intake_job_id e (ij_tenantId j)
        \<and> (\<exists>r \<in> set (integrations db). in_tenantId r = ij_tenantId j \<and> in_provider r = GMAIL \<and> in_status r = CONNECTED)
        \<and> (\<exists>t \<in> set (tenants db). tn_id t = ij_tenantId j \<and> tn_isActive t))
   \<and> (\<forall>(e, db) \<in> set rs. \<forall>tid \<in> set (list_intake_tenants GMAIL db). \<exists>j \<in> set (fan_outs rs []). ij_id j = intake_job_id e tid)"
proof -
  have ok: "intake_ok rs (fan_outs rs [])" by (rule intake_ok_fan_outs) (simp_all add: intake_ok_def)
  have l: "(\<exists>r \<in> set (integrations db). in_tenantId r = t \<and> in_provider r = GMAIL \<and> in_status r = CONNECTED)
      \<and> (\<exists>n \<in> set (tenants db). tn_id n = t \<and> tn_isActive n)" if "t \<in> set (list_intake_tenants GMAIL db)" for t db
    using that by (auto simp: list_intake_tenants_def list_ex_iff)
  have all: "\<exists>j \<in> set (fan_outs rs q). ij_id j = intake_job_id e tid"
    if "(e, db) \<in> set rs" "tid \<in> set (list_intake_tenants GMAIL db)" for e db tid q
    using that(1)
  proof (induction rs arbitrary: q)
    case (Cons r rs)
    show ?case
    proof (cases "r = (e, db)")
      case True
      from fold_add_has [OF that(2), of e q] fan_outs_keep [of "snd (fan_out e db q)" rs]
      show ?thesis by (auto simp: True fan_out_def Let_def)
    next
      case False
      with Cons show ?thesis by (cases r) auto
    qed
  qed simp
  from ok l all show ?thesis unfolding intake_ok_def by fastforce
qed

theorem intake_runs_once_a_minute_witness:
  "distinct (map ij_id (fan_outs [(demo_env, demo_db), (demo_env, demo_db)] []))"
  using intake_runs_once_a_minute [of "[(demo_env, demo_db), (demo_env, demo_db)]"] by blast

theorem alerts_are_spaced_witness:
  "send_alerts ''u'' [(0, dead_alert (''a'', 5)), (1, dead_alert (''b'', 5))] Map.empty ! 1 = Suppressed \<longrightarrow>
     fst ([(0 :: int, dead_alert (''a'', 5)), (1, dead_alert (''b'', 5))] ! 1) < dedupe_window_ms"
proof -
  have "sorted (map fst [(0 :: int, dead_alert (''a'', 5)), (1, dead_alert (''b'', 5))])" by simp
  from alerts_are_spaced [OF this, of 1 "''u''"] show ?thesis by auto
qed

theorem second_dead_event_is_silent_witness:
  "\<exists>d1 d2. send_alerts ''u'' [(5000, dead_alert d1), (5000, dead_alert d2)] Map.empty ! 1 = Suppressed"
proof -
  let ?j = "\<lparr>jb_outboxEventId = ''o'', jb_tenantId = demo_tenant, jb_eventName = ''task.closed'', jb_payload = JNull, jb_attemptsMade = 4\<rparr>"
  have r: "retry_attempts \<le> jb_attemptsMade ?j + 1" by (simp add: retry_attempts_def)
  have n: "now demo_env = 5000" "now demo_env \<le> now demo_env" "now demo_env < now demo_env + dedupe_window_ms"
    by (simp_all add: demo_env_def dedupe_window_ms_def)
  from second_dead_event_is_silent [OF r r n(2,3), where url = "''u''"] show ?thesis unfolding n(1) by blast
qed

end
